(* ===== verification/Rust_Prelude.thy ===== *)
theory Rust_Prelude
  imports Main "HOL-Library.AList" "HOL-Library.Monad_Syntax" "HOL-Library.Multiset"
    "HOL-Library.Product_Lexorder" "HOL-Library.Option_ord"
begin

text \<open>
  Shared vocabulary of the development: Rust's \<open>Result\<close> and the \<open>?\<close> operator, the checked,
  saturating and wrapping operations of Rust's machine integers, and storage maps that the code
  iterates over.

  Machine integers are natural numbers (or \<^typ>\<open>int\<close> for \<open>i64\<close>) whose width is written out at
  every operation: \<open>checked_add 64 a b\<close> is \<open>u64::checked_add\<close>. The repository's release profile
  does not enable overflow checks, so the plain operators \<open>+\<close>, \<open>-\<close> and \<open>*\<close> of the source
  wrap around (\<open>wrapping_add\<close> and its kin).

  A fallible function returns \<open>'e + 'a\<close>, with \<open>Inl\<close> for \<open>Err\<close> and \<open>Inr\<close> for \<open>Ok\<close>. A
  dispatchable that returns \<open>Err\<close> leaves the storage as it was (FRAME runs each call in a storage
  layer of its own), so the new state is part of the \<open>Ok\<close> value only.
\<close>

named_theorems result_simps \<open>inversion of the Result combinators\<close>
named_theorems int_simps \<open>inversion of the machine-integer operations\<close>

type_synonym u8 = nat
type_synonym u16 = nat
type_synonym u32 = nat
type_synonym u64 = nat
type_synonym u128 = nat
type_synonym i64 = int
type_synonym bytes = "u8 list"
type_synonym account_id = nat
type_synonym balance = u128
type_synonym block_number = u32

section \<open>Result and Option\<close>

fun bind_r :: "'e + 'a \<Rightarrow> ('a \<Rightarrow> 'e + 'b) \<Rightarrow> 'e + 'b" where
  "bind_r (Inl e) f = Inl e"
| "bind_r (Inr x) f = f x"

definition ok_or :: "'a option \<Rightarrow> 'e \<Rightarrow> 'e + 'a" where
  "ok_or m e = (case m of None \<Rightarrow> Inl e | Some x \<Rightarrow> Inr x)"

definition ensure :: "bool \<Rightarrow> 'e \<Rightarrow> 'e + unit" where
  "ensure b e = (if b then Inr () else Inl e)"

definition map_err :: "('e \<Rightarrow> 'f) \<Rightarrow> 'e + 'a \<Rightarrow> 'f + 'a" where
  "map_err g r = (case r of Inl e \<Rightarrow> Inl (g e) | Inr x \<Rightarrow> Inr x)"

definition is_ok :: "'e + 'a \<Rightarrow> bool" where
  "is_ok r = (case r of Inl _ \<Rightarrow> False | Inr _ \<Rightarrow> True)"

definition unwrap_or :: "'a option \<Rightarrow> 'a \<Rightarrow> 'a" where
  "unwrap_or m d = (case m of None \<Rightarrow> d | Some x \<Rightarrow> x)"

text \<open>Where the code can panic, a result is an option, with \<^const>\<open>None\<close> for the panic.\<close>

fun bind_p :: "('e + 'a) option \<Rightarrow> ('a \<Rightarrow> ('e + 'b) option) \<Rightarrow> ('e + 'b) option" where
  "bind_p None f = None"
| "bind_p (Some (Inl e)) f = Some (Inl e)"
| "bind_p (Some (Inr x)) f = f x"

text \<open>A \<open>for\<close> loop whose body may return early with an error.\<close>

fun fold_r :: "('a \<Rightarrow> 's \<Rightarrow> 'e + 's) \<Rightarrow> 'a list \<Rightarrow> 's \<Rightarrow> 'e + 's" where
  "fold_r f [] s = Inr s"
| "fold_r f (x # xs) s = bind_r (f x s) (fold_r f xs)"

text \<open>\<open>map(op).collect::<Result<Vec<_>, _>>()\<close>: the first error ends it.\<close>

fun collect_r :: "('a \<Rightarrow> 'e + 'b) \<Rightarrow> 'a list \<Rightarrow> 'e + 'b list" where
  "collect_r f [] = Inr []"
| "collect_r f (x # xs) = bind_r (f x) (\<lambda>y. bind_r (collect_r f xs) (\<lambda>ys. Inr (y # ys)))"

section \<open>Machine integers\<close>

definition checked_add :: "nat \<Rightarrow> nat \<Rightarrow> nat \<Rightarrow> nat option" where
  "checked_add w a b = (if a + b < 2 ^ w then Some (a + b) else None)"

definition checked_sub :: "nat \<Rightarrow> nat \<Rightarrow> nat option" where
  "checked_sub a b = (if b \<le> a then Some (a - b) else None)"

definition checked_mul :: "nat \<Rightarrow> nat \<Rightarrow> nat \<Rightarrow> nat option" where
  "checked_mul w a b = (if a * b < 2 ^ w then Some (a * b) else None)"

definition checked_div :: "nat \<Rightarrow> nat \<Rightarrow> nat option" where
  "checked_div a b = (if b = 0 then None else Some (a div b))"

definition saturating_add :: "nat \<Rightarrow> nat \<Rightarrow> nat \<Rightarrow> nat" where
  "saturating_add w a b = min (a + b) (2 ^ w - 1)"

definition wrapping_add :: "nat \<Rightarrow> nat \<Rightarrow> nat \<Rightarrow> nat" where
  "wrapping_add w a b = (a + b) mod 2 ^ w"

definition wrapping_sub :: "nat \<Rightarrow> nat \<Rightarrow> nat \<Rightarrow> nat" where
  "wrapping_sub w a b = (a + (2 ^ w - b mod 2 ^ w)) mod 2 ^ w"

definition wrapping_mul :: "nat \<Rightarrow> nat \<Rightarrow> nat \<Rightarrow> nat" where
  "wrapping_mul w a b = (a * b) mod 2 ^ w"

definition i64_min :: i64 where
  "i64_min = - (2 ^ 63)"

definition i64_max :: i64 where
  "i64_max = 2 ^ 63 - 1"

definition checked_i64 :: "int \<Rightarrow> i64 option" where
  "checked_i64 x = (if i64_min \<le> x \<and> x \<le> i64_max then Some x else None)"

section \<open>Lemmas\<close>

text \<open>Job identifiers are pairs; quantifiers over them are kept in one piece.\<close>

declare split_paired_All [simp del] split_paired_Ex [simp del]

lemma bind_r_Inr [result_simps]: "bind_r m f = Inr y \<longleftrightarrow> (\<exists>x. m = Inr x \<and> f x = Inr y)"
  by (cases m) auto

lemma bind_r_Inl [result_simps]: "bind_r m f = Inl e \<longleftrightarrow> m = Inl e \<or> (\<exists>x. m = Inr x \<and> f x = Inl e)"
  by (cases m) auto

lemma bind_p_Inr [result_simps]: "bind_p m f = Some (Inr y) \<longleftrightarrow> (\<exists>x. m = Some (Inr x) \<and> f x = Some (Inr y))"
  by (cases "(m, f)" rule: bind_p.cases) auto

lemma bind_p_None [result_simps]: "bind_p m f = None \<longleftrightarrow> m = None \<or> (\<exists>x. m = Some (Inr x) \<and> f x = None)"
  by (cases "(m, f)" rule: bind_p.cases) auto

lemma ok_or_Inr [result_simps]: "ok_or m e = Inr x \<longleftrightarrow> m = Some x"
  by (auto simp: ok_or_def split: option.splits)

lemma ok_or_Inl [result_simps]: "ok_or m e = Inl e' \<longleftrightarrow> m = None \<and> e' = e"
  by (auto simp: ok_or_def split: option.splits)

lemma ok_or_simps [simp]: "ok_or (Some x) e = Inr x" "ok_or None e = Inl e"
  by (simp_all add: ok_or_def)

lemma ensure_Inr [result_simps]: "ensure b e = Inr u \<longleftrightarrow> b"
  by (auto simp: ensure_def)

lemma ensure_Inl [result_simps]: "ensure b e = Inl e' \<longleftrightarrow> \<not> b \<and> e' = e"
  by (auto simp: ensure_def)

lemma ensure_simps [simp]: "ensure True e = Inr ()" "ensure False e = Inl e"
  by (simp_all add: ensure_def)

lemma map_err_Inr [result_simps]: "map_err g r = Inr x \<longleftrightarrow> r = Inr x"
  by (auto simp: map_err_def split: sum.splits)

lemma map_err_simps [simp]: "map_err g (Inl e) = Inl (g e)" "map_err g (Inr x) = Inr x"
  by (simp_all add: map_err_def)

lemma is_ok_simps [simp]: "is_ok (Inr x)" "\<not> is_ok (Inl e)"
  by (simp_all add: is_ok_def)

lemma is_ok_ex [result_simps]: "is_ok r \<longleftrightarrow> (\<exists>x. r = Inr x)"
  by (cases r) auto

lemma unwrap_or_simps [simp]: "unwrap_or (Some x) d = x" "unwrap_or None d = d"
  by (simp_all add: unwrap_or_def)

text \<open>The two induction principles for loops: an invariant, and a ghost relation.\<close>

lemma fold_r_invariant:
  assumes "fold_r f xs s = Inr s'" and "P s"
    and "\<And>x s s'. x \<in> set xs \<Longrightarrow> P s \<Longrightarrow> f x s = Inr s' \<Longrightarrow> P s'"
  shows "P s'"
  using assms by (induction xs arbitrary: s) (auto simp: result_simps)

lemma fold_r_append: "fold_r f (xs @ ys) s = bind_r (fold_r f xs s) (fold_r f ys)"
proof (induction xs arbitrary: s)
  case (Cons x xs)
  then show ?case by (cases "f x s") auto
qed simp

lemma collect_r_map: "(\<And>x. x \<in> set xs \<Longrightarrow> f (g x) = Inr (h x)) \<Longrightarrow> collect_r f (map g xs) = Inr (map h xs)"
  by (induction xs) auto

lemma collect_r_fails: "x \<in> set xs \<Longrightarrow> \<not> is_ok (f x) \<Longrightarrow> \<not> is_ok (collect_r f xs)"
  by (induction xs) (auto simp: result_simps)

lemma collect_r_all:
  assumes "collect_r f xs = Inr ys" and "\<And>x y. f x = Inr y \<Longrightarrow> P y"
  shows "\<forall>y\<in>set ys. P y"
  using assms(1) by (induction xs arbitrary: ys) (auto simp: result_simps dest: assms(2))

lemma checked_add_Some [int_simps]: "checked_add w a b = Some c \<longleftrightarrow> c = a + b \<and> a + b < 2 ^ w"
  by (auto simp: checked_add_def)

lemma checked_add_None [int_simps]: "checked_add w a b = None \<longleftrightarrow> 2 ^ w \<le> a + b"
  by (auto simp: checked_add_def)

lemma checked_sub_Some [int_simps]: "checked_sub a b = Some c \<longleftrightarrow> c = a - b \<and> b \<le> a"
  by (auto simp: checked_sub_def)

lemma checked_sub_None [int_simps]: "checked_sub a b = None \<longleftrightarrow> a < b"
  by (auto simp: checked_sub_def)

lemma checked_mul_Some [int_simps]: "checked_mul w a b = Some c \<longleftrightarrow> c = a * b \<and> a * b < 2 ^ w"
  by (auto simp: checked_mul_def)

lemma checked_mul_None [int_simps]: "checked_mul w a b = None \<longleftrightarrow> 2 ^ w \<le> a * b"
  by (auto simp: checked_mul_def)

lemma checked_div_Some [int_simps]: "checked_div a b = Some c \<longleftrightarrow> c = a div b \<and> b \<noteq> 0"
  by (auto simp: checked_div_def)

lemma checked_div_None [int_simps]: "checked_div a b = None \<longleftrightarrow> b = 0"
  by (auto simp: checked_div_def)

lemma checked_i64_Some [int_simps]:
  "checked_i64 x = Some y \<longleftrightarrow> y = x \<and> i64_min \<le> x \<and> x \<le> i64_max"
  by (auto simp: checked_i64_def)

lemma wrapping_add_bound: "wrapping_add w a b < 2 ^ w"
  by (simp add: wrapping_add_def)

lemma wrapping_add_exact: "a + b < 2 ^ w \<Longrightarrow> wrapping_add w a b = a + b"
  by (simp add: wrapping_add_def)

lemma wrapping_mul_exact: "a * b < 2 ^ w \<Longrightarrow> wrapping_mul w a b = a * b"
  by (simp add: wrapping_mul_def)

lemma wrapping_sub_exact:
  assumes "b \<le> a" and "a < 2 ^ w"
  shows "wrapping_sub w a b = a - b"
proof -
  have "wrapping_sub w a b = (a - b + 2 ^ w) mod 2 ^ w"
    using assms by (simp add: wrapping_sub_def)
  also have "\<dots> = a - b"
    using assms by (simp only: mod_add_self2 mod_less less_imp_diff_less)
  finally show ?thesis .
qed

lemma saturating_add_bound: "saturating_add w a b < 2 ^ w"
  by (simp add: saturating_add_def min_less_iff_disj)

end
