(* ===== verification/Dispatch.thy ===== *)
theory Dispatch
  imports Rust_Prelude
begin

text \<open>
  What every dispatchable shares: the origin of a call with FRAME's \<open>ensure_signed\<close> and
  \<open>ensure_root\<close>, the \<open>DispatchError\<close> a call fails with, and the error enums of the two pallets
  that call each other, \<open>pallets/acurast\<close> and \<open>pallets/marketplace\<close>.
\<close>

datatype origin = Root | Signed account_id | Unsigned

datatype 'e dispatch_error = BadOrigin | Module 'e | Token string | Other string

definition ensure_signed :: "origin \<Rightarrow> 'e dispatch_error + account_id" where
  "ensure_signed o' = (case o' of Signed who \<Rightarrow> Inr who | _ \<Rightarrow> Inl BadOrigin)"

definition ensure_root :: "origin \<Rightarrow> 'e dispatch_error + unit" where
  "ensure_root o' = (case o' of Root \<Rightarrow> Inr () | _ \<Rightarrow> Inl BadOrigin)"

section \<open>Errors of pallet acurast\<close>

datatype acurast_error =
    JobRegistrationNotFound
  | FulfillSourceNotAllowed
  | FulfillSourceNotVerified
  | TooManyAllowedSources
  | TooFewAllowedSources
  | InvalidScriptValue
  | AttestationUsageExpired
  | CertificateChainTooShort
  | RootCertificateValidationFailed
  | CertificateChainValidationFailed
  | AttestationCertificateNotValid
  | AttestationExtractionFailed
  | CannotGetAttestationIssuerName
  | CannotGetAttestationSerialNumber
  | CannotGetCertificateId
  | AttestationToBoundedTypeConversionFailed
  | AttestationRejected
  | FailedTimestampConversion
  | RevokedCertificate
  | CertificateRevocationListUpdateNotAllowed
  | UnsupportedAttestationPublicKeyType
  | AttestationPublicKeyDoesNotMatchSource
  | JobHookFailed

section \<open>Errors of pallet marketplace\<close>

datatype job_status = Open | Matched | Assigned u8

datatype market_error =
    CalculationOverflow
  | UnexpectedCheckedCalculation
  | JobRegistrationZeroDuration
  | JobRegistrationScheduleExceedsMaximumExecutions
  | JobRegistrationScheduleContainsZeroExecutions
  | JobRegistrationDurationExceedsInterval
  | JobRegistrationStartInPast
  | JobRegistrationEndBeforeStart
  | JobRegistrationZeroSlots
  | JobStatusNotFound
  | JobRegistrationUnmodifiable
  | CannotFinalizeJob job_status
  | CannotAcknowledgeWhenNotMatched
  | CannotReportWhenNotAcknowledged
  | AdvertisementNotFound
  | AdvertisementPricingNotFound
  | TooManyAllowedConsumers
  | TooFewAllowedConsumers
  | TooManySlots
  | CannotDeleteAdvertisementWhileMatched
  | FailedToPay
  | AssetNotAllowedByBarrier
  | CapacityNotFound
  | OverdueMatch
  | IncorrectSourceCountInMatch
  | DuplicateSourceInMatch
  | UnverifiedSourceInMatch
  | SchedulingWindowExceededInMatch
  | MaxMemoryExceededInMatch
  | NetworkRequestQuotaExceededInMatch
  | InsufficientStorageCapacityInMatch
  | SourceNotAllowedInMatch
  | ConsumerNotAllowedInMatch
  | InsufficientRewardInMatch
  | InsufficientReputationInMatch
  | ScheduleOverlapInMatch
  | ReportFromUnassignedSource
  | MoreReportsThanExpected
  | ReportOutsideSchedule
  | ReputationNotFound
  | ModuleNotAvailableInMatch
  | JobNotAssigned
  | JobCannotBeFinalized
  | PalletAcurast acurast_error

datatype runtime_error = AcurastE acurast_error | MarketE market_error

type_synonym runtime_dispatch_error = "runtime_error dispatch_error"

abbreviation ac_err :: "acurast_error \<Rightarrow> runtime_dispatch_error" where
  "ac_err e \<equiv> Module (AcurastE e)"

abbreviation mp_err :: "market_error \<Rightarrow> runtime_dispatch_error" where
  "mp_err e \<equiv> Module (MarketE e)"

section \<open>Lemmas\<close>

lemma ensure_signed_Inr [result_simps]: "ensure_signed o' = Inr who \<longleftrightarrow> o' = Signed who"
  by (auto simp: ensure_signed_def split: origin.splits)

lemma ensure_root_Inr [result_simps]: "ensure_root o' = Inr u \<longleftrightarrow> o' = Root"
  by (auto simp: ensure_root_def split: origin.splits)

lemma ensure_origin_simps [simp]:
  "ensure_signed (Signed who) = Inr who" "ensure_root Root = Inr ()"
  "ensure_root (Signed who) = Inl BadOrigin" "ensure_signed Root = Inl BadOrigin"
  by (simp_all add: ensure_signed_def ensure_root_def)

end
