(* ===== verification/Attestation_Types.thy ===== *)
theory Attestation_Types
  imports Rust_Prelude
begin

text \<open>
  The stored attestation of \<open>pallets/acurast/common/src/types/bounded_attestation.rs\<close>: the
  structs \<open>Attestation\<close>, \<open>AttestationValidity\<close>, \<open>BoundedKeyDescription\<close>,
  \<open>BoundedAuthorizationList\<close>, \<open>BoundedRootOfTrust\<close> and \<open>BoundedAttestationApplicationId\<close>
  with their fields (prefixed \<open>al_\<close> in the authorization list), and the default attestation
  the genesis configuration of \<open>pallets/acurast/src/lib.rs\<close> stores.
\<close>

datatype attestation_security_level = Software | TrustedEnvironemnt | StrongBox | Unknown

definition security_level_of :: "int \<Rightarrow> attestation_security_level" where
  "security_level_of v =
     (if v = 0 then Software else if v = 1 then TrustedEnvironemnt
      else if v = 2 then StrongBox else Unknown)"

datatype verified_boot_state = Verified | SelfSigned | Unverified | Failed

definition verified_boot_state_of :: "int \<Rightarrow> verified_boot_state" where
  "verified_boot_state_of v =
     (if v = 0 then Verified else if v = 1 then SelfSigned
      else if v = 2 then Unverified else Failed)"

record bounded_root_of_trust =
  verified_boot_key :: bytes
  device_locked :: bool
  boot_state :: verified_boot_state
  verified_boot_hash :: "bytes option"

record bounded_attestation_package_info =
  package_name :: bytes
  package_version :: i64

record bounded_attestation_application_id =
  package_infos :: "bounded_attestation_package_info list"
  signature_digests :: "bytes list"

record bounded_authorization_list =
  al_purpose :: "bytes option"
  al_algorithm :: "u8 option"
  al_key_size :: "u16 option"
  al_digest :: "bytes option"
  al_padding :: "bytes option"
  al_ec_curve :: "u8 option"
  al_rsa_public_exponent :: "u64 option"
  al_mgf_digest :: "bytes option"
  al_rollback_resistance :: "bool option"
  al_early_boot_only :: "bool option"
  al_active_date_time :: "u64 option"
  al_origination_expire_date_time :: "u64 option"
  al_usage_expire_date_time :: "u64 option"
  al_usage_count_limit :: "u64 option"
  al_no_auth_required :: bool
  al_user_auth_type :: "u8 option"
  al_auth_timeout :: "u32 option"
  al_allow_while_on_body :: bool
  al_trusted_user_presence_required :: "bool option"
  al_trusted_confirmation_required :: "bool option"
  al_unlocked_device_required :: "bool option"
  al_all_applications :: "bool option"
  al_application_id :: "bytes option"
  al_creation_date_time :: "u64 option"
  al_origin :: "u8 option"
  al_root_of_trust :: "bounded_root_of_trust option"
  al_os_version :: "u32 option"
  al_os_patch_level :: "u32 option"
  al_attestation_application_id :: "bounded_attestation_application_id option"
  al_attestation_id_brand :: "bytes option"
  al_attestation_id_device :: "bytes option"
  al_attestation_id_product :: "bytes option"
  al_attestation_id_serial :: "bytes option"
  al_attestation_id_imei :: "bytes option"
  al_attestation_id_meid :: "bytes option"
  al_attestation_id_manufacturer :: "bytes option"
  al_attestation_id_model :: "bytes option"
  al_vendor_patch_level :: "u32 option"
  al_boot_patch_level :: "u32 option"
  al_device_unique_attestation :: "bool option"

record bounded_key_description =
  attestation_security_level_of :: attestation_security_level
  key_mint_security_level :: attestation_security_level
  software_enforced :: bounded_authorization_list
  tee_enforced :: bounded_authorization_list

record attestation_validity =
  not_before :: u64
  not_after :: u64

type_synonym serial_number = bytes
type_synonym issuer_name = bytes
type_synonym cert_id = "issuer_name \<times> serial_number"

record attestation =
  cert_ids :: "cert_id list"
  key_description :: bounded_key_description
  validity :: attestation_validity

section \<open>The attestation stored at genesis\<close>

definition empty_authorization_list :: "u64 option \<Rightarrow> bounded_authorization_list" where
  "empty_authorization_list creation_date_time = \<lparr>
     al_purpose = None, al_algorithm = None, al_key_size = None, al_digest = None,
     al_padding = None, al_ec_curve = None, al_rsa_public_exponent = None,
     al_mgf_digest = None, al_rollback_resistance = None, al_early_boot_only = None,
     al_active_date_time = None, al_origination_expire_date_time = None,
     al_usage_expire_date_time = None, al_usage_count_limit = None,
     al_no_auth_required = False, al_user_auth_type = None, al_auth_timeout = None,
     al_allow_while_on_body = False, al_trusted_user_presence_required = None,
     al_trusted_confirmation_required = None, al_unlocked_device_required = None,
     al_all_applications = None, al_application_id = None,
     al_creation_date_time = creation_date_time, al_origin = None, al_root_of_trust = None,
     al_os_version = None, al_os_patch_level = None, al_attestation_application_id = None,
     al_attestation_id_brand = None, al_attestation_id_device = None,
     al_attestation_id_product = None, al_attestation_id_serial = None,
     al_attestation_id_imei = None, al_attestation_id_meid = None,
     al_attestation_id_manufacturer = None, al_attestation_id_model = None,
     al_vendor_patch_level = None, al_boot_patch_level = None,
     al_device_unique_attestation = None\<rparr>"

definition genesis_attestation :: attestation where
  "genesis_attestation = \<lparr>
     cert_ids = [],
     key_description = \<lparr>
       attestation_security_level_of = Unknown,
       key_mint_security_level = Unknown,
       software_enforced = empty_authorization_list (Some 1672527600000),
       tee_enforced = empty_authorization_list None\<rparr>,
     validity = \<lparr>not_before = 0, not_after = 4102441200000\<rparr>\<rparr>"

end
