(* ===== verification/Schedule_Model.thy ===== *)
theory Schedule_Model
  imports Rust_Prelude
begin

text \<open>
  The job schedule of \<open>pallets/acurast/common/src/types.rs\<close>: \<open>Schedule\<close> with
  \<open>execution_count\<close>, \<open>iter\<close>, \<open>range\<close> and \<open>overlaps\<close>, and the iterator \<open>ScheduleIter\<close>
  with its \<open>next\<close>; and the script check \<open>is_valid_script\<close>.
\<close>

section \<open>Scripts\<close>

definition SCRIPT_PREFIX :: bytes where
  "SCRIPT_PREFIX = [105, 112, 102, 115, 58, 47, 47]"

definition SCRIPT_LENGTH :: u32 where
  "SCRIPT_LENGTH = 53"

definition is_valid_script :: "bytes \<Rightarrow> bool" where
  "is_valid_script script =
     (let script_len = (if length script < 2 ^ 32 then length script else 0)
      in script_len = SCRIPT_LENGTH \<and> take (length SCRIPT_PREFIX) script = SCRIPT_PREFIX)"

section \<open>Schedules\<close>

record schedule =
  duration :: u64
  start_time :: u64
  end_time :: u64
  interval :: u64
  max_start_delay :: u64

definition execution_count :: "schedule \<Rightarrow> u64" where
  "execution_count self = unwrap_or
     (do {
        a \<leftarrow> checked_sub (end_time self) (start_time self);
        b \<leftarrow> checked_sub a 1;
        c \<leftarrow> checked_div b (interval self);
        checked_add 64 c 1
      }) 0"

record schedule_iter =
  delayed_start_time :: u64
  delayed_end_time :: u64
  iter_interval :: u64
  current :: "u64 option"

definition schedule_iter_of :: "schedule \<Rightarrow> u64 \<Rightarrow> schedule_iter option" where
  "schedule_iter_of self start_delay =
     do {
       a \<leftarrow> checked_add 64 (start_time self) start_delay;
       b \<leftarrow> checked_add 64 (end_time self) start_delay;
       Some \<lparr>delayed_start_time = a, delayed_end_time = b,
             iter_interval = interval self, current = None\<rparr>
     }"

text \<open>
  \<open>next\<close> returns the item and the iterator after the call. When adding the interval overflows,
  the \<open>?\<close> returns before \<open>self.current\<close> is assigned.
\<close>

definition schedule_next :: "schedule_iter \<Rightarrow> u64 option \<times> schedule_iter" where
  "schedule_next self =
     (case current self of
        None \<Rightarrow>
          (if delayed_start_time self < delayed_end_time self
           then (Some (delayed_start_time self), self\<lparr>current := Some (delayed_start_time self)\<rparr>)
           else (None, self\<lparr>current := None\<rparr>))
      | Some cur \<Rightarrow>
          (case checked_add 64 cur (iter_interval self) of
             None \<Rightarrow> (None, self)
           | Some next \<Rightarrow>
               (if next < delayed_end_time self
                then (Some next, self\<lparr>current := Some next\<rparr>)
                else (None, self\<lparr>current := None\<rparr>))))"

definition schedule_range :: "schedule \<Rightarrow> u64 \<Rightarrow> (u64 \<times> u64) option" where
  "schedule_range self start_delay =
     do {
       actual_start \<leftarrow> checked_add 64 (start_time self) start_delay;
       let count = execution_count self;
       actual_end \<leftarrow>
         (if count > 0 then
            do {
              m \<leftarrow> checked_mul 64 (count - 1) (interval self);
              x \<leftarrow> checked_add 64 actual_start m;
              checked_add 64 x (duration self)
            }
          else Some actual_start);
       Some (actual_start, actual_end)
     }"

text \<open>
  The remainders are only computed when \<open>start < end\<close>, hence when the count is positive and the
  interval is not 0: the source's \<open>%\<close> cannot panic.
\<close>

definition overlaps :: "schedule \<Rightarrow> u64 \<Rightarrow> u64 \<Rightarrow> u64 \<Rightarrow> bool option" where
  "overlaps self start_delay a b =
     do {
       (start, end) \<leftarrow> schedule_range self start_delay;
       if b \<le> a \<or> start = end \<or> b \<le> start \<or> end \<le> a then Some False
       else
         let relative_a = unwrap_or (checked_sub a start) start
         in case checked_sub b start of
              None \<Rightarrow> Some False
            | Some relative_b \<Rightarrow>
                (let a = relative_a mod interval self;
                     b0 = relative_b mod interval self;
                     b = (if b0 = 0 then interval self else b0);
                     l = unwrap_or (checked_sub b a) 0
                 in Some (b < a \<or> a < duration self \<or> l \<ge> interval self))
     }"

text \<open>The first \<open>n\<close> items of the iterator, as a \<open>for\<close> loop over it would see them.\<close>

fun iter_items :: "nat \<Rightarrow> schedule_iter \<Rightarrow> u64 list" where
  "iter_items 0 it = []"
| "iter_items (Suc n) it =
     (case schedule_next it of (None, _) \<Rightarrow> [] | (Some x, it') \<Rightarrow> x # iter_items n it')"

text \<open>
  Reference definitions: the \<open>k\<close>-th execution starts at \<open>exec_start\<close>, and a query interval
  \<open>[a, b)\<close> hits the schedule when it meets one of the planned executions.
\<close>

definition exec_start :: "schedule \<Rightarrow> u64 \<Rightarrow> nat \<Rightarrow> nat" where
  "exec_start s start_delay k = start_time s + start_delay + k * interval s"

definition execution_hits :: "schedule \<Rightarrow> u64 \<Rightarrow> u64 \<Rightarrow> u64 \<Rightarrow> bool" where
  "execution_hits s start_delay a b \<longleftrightarrow>
     (\<exists>k < execution_count s.
        a < exec_start s start_delay k + duration s \<and> exec_start s start_delay k < b)"

definition demo_schedule :: schedule where
  "demo_schedule = \<lparr>duration = 1, start_time = 2, end_time = 40, interval = 10, max_start_delay = 0\<rparr>"

section \<open>Lemmas\<close>

lemma execution_count_eq:
  assumes "end_time s < 2 ^ 64"
  shows "execution_count s =
    (if start_time s < end_time s \<and> 0 < interval s
     then (end_time s - start_time s - 1) div interval s + 1 else 0)"
proof -
  have "(end_time s - start_time s - 1) div interval s + 1 < 2 ^ 64"
    if "start_time s < end_time s"
    using div_le_dividend [of "end_time s - start_time s - 1" "interval s"] assms that
    by linarith
  then show ?thesis
    by (auto simp: execution_count_def checked_sub_def checked_div_def checked_add_def)
qed

lemma execution_count_pos:
  assumes "0 < execution_count s"
  shows "start_time s < end_time s" "0 < interval s"
  using assms
  by (auto simp: execution_count_def checked_sub_def checked_div_def checked_add_def
      unwrap_or_def bind_eq_Some_conv split: option.splits if_splits)

lemma div_pred_step:
  fixes c :: nat
  assumes "0 < i" and "c + i < e"
  shows "(e - c - 1) div i = Suc ((e - (c + i) - 1) div i)"
proof -
  have eq: "e - c - 1 = (e - (c + i) - 1) + i" using assms by simp
  show ?thesis unfolding eq using assms(1) by (subst div_add_self2) simp_all
qed

lemma iter_items_running:
  assumes "current it = Some c" and "0 < iter_interval it"
    and "delayed_end_time it < 2 ^ 64" and "c < delayed_end_time it"
  shows "iter_items n it =
    map (\<lambda>k. c + Suc k * iter_interval it)
      [0..<min n ((delayed_end_time it - c - 1) div iter_interval it)]"
  using assms
proof (induction n arbitrary: c it)
  case (Suc n)
  let ?i = "iter_interval it" and ?e = "delayed_end_time it"
  show ?case
  proof (cases "c + ?i < ?e")
    case True
    let ?it = "it\<lparr>current := Some (c + ?i)\<rparr>"
    have nxt: "schedule_next it = (Some (c + ?i), ?it)"
      using Suc.prems True by (simp add: schedule_next_def checked_add_def)
    have "iter_items n ?it = map (\<lambda>k. c + ?i + Suc k * ?i)
        [0..<min n ((?e - (c + ?i) - 1) div ?i)]"
      using Suc.IH [of ?it "c + ?i"] Suc.prems True by simp
    moreover have "(?e - c - 1) div ?i = Suc ((?e - (c + ?i) - 1) div ?i)"
      using div_pred_step Suc.prems(2) True by blast
    ultimately show ?thesis
      by (simp add: nxt map_upt_Suc algebra_simps del: upt_Suc)
  next
    case False
    then have "(?e - c - 1) div ?i = 0" using Suc.prems by simp
    moreover have "fst (schedule_next it) = None"
      using Suc.prems False by (simp add: schedule_next_def split: option.splits)
         (auto simp: int_simps)
    ultimately show ?thesis
      by (cases "schedule_next it") simp
  qed
qed simp

lemma schedule_range_eq:
  assumes "schedule_range s start_delay = Some (a, b)"
  shows "a = start_time s + start_delay" "a < 2 ^ 64" "b < 2 ^ 64"
    "b = (if 0 < execution_count s
          then exec_start s start_delay (execution_count s - 1) + duration s else a)"
  using assms
  by (auto simp: schedule_range_def Let_def bind_eq_Some_conv int_simps exec_start_def split: if_splits)

lemma exec_start_mono: "k \<le> l \<Longrightarrow> exec_start s d k \<le> exec_start s d l"
  by (simp add: exec_start_def)

lemma period_remainder:
  fixes x :: nat
  assumes "p * i < x" and "x \<le> p * i + i"
  shows "(if x mod i = 0 then i else x mod i) = x - p * i"
proof (cases "x = p * i + i")
  case True
  then show ?thesis by simp
next
  case False
  define y where "y = x - p * i"
  have "x = y + p * i" "0 < y" "y < i" using assms False by (auto simp: y_def)
  then show ?thesis by simp
qed

lemma periodic_hit_iff:
  fixes ra rb i d n :: nat
  assumes d: "0 < d" "d < i" and ab: "ra < rb" "rb - ra < i"
    and n: "0 < n" and before_end: "ra < (n - 1) * i + d"
  defines "a' \<equiv> ra mod i" and "b' \<equiv> if rb mod i = 0 then i else rb mod i"
  shows "(b' < a' \<or> a' < d \<or> i \<le> b' - a') \<longleftrightarrow> (\<exists>k<n. ra < k * i + d \<and> k * i < rb)"
    (is "?code \<longleftrightarrow> ?hit")
proof -
  define p where "p = ra div i"
  have i: "0 < i" using d by simp
  have ra: "ra = p * i + a'" and a': "a' < i" using i by (simp_all add: p_def a'_def)
  have b': "b' \<le> i" using i by (simp add: b'_def less_imp_le)
  have same: "b' = rb - p * i" if "rb \<le> p * i + i"
    using period_remainder [of p i rb] that ab ra by (simp add: b'_def)
  have nxt: "b' = rb - (p * i + i)" if "p * i + i < rb"
    using period_remainder [of "Suc p" i rb] that ab ra a' by (simp add: b'_def algebra_simps)
  have in_range: "p < n" and last: "p = n - 1 \<Longrightarrow> a' < d"
  proof -
    have "p * i < n * i" using before_end ra d n by (cases n) auto
    then show "p < n" by simp
    show "a' < d" if "p = n - 1" using before_end ra that by simp
  qed
  show ?thesis
  proof
    assume ?code
    then consider "a' < d" | "b' < a'" "d \<le> a'" using b' d by fastforce
    then show ?hit
    proof cases
      case 1
      then show ?thesis using in_range ra ab by (intro exI [of _ p]) simp
    next
      case 2
      then have "p * i + i < rb" using same ra ab by fastforce
      moreover have "Suc p < n" using last in_range 2 by fastforce
      ultimately show ?thesis using ra a' by (intro exI [of _ "Suc p"]) simp
    qed
  next
    assume ?hit
    then obtain k where k: "ra < k * i + d" "k * i < rb" by blast
    show ?code
    proof (cases "a' < d")
      case False
      then have "p * i < k * i" using k(1) ra by linarith
      then have "Suc p \<le> k" by simp
      then have "Suc p * i \<le> k * i" by (rule mult_le_mono1)
      then have "p * i + i < rb" using k(2) by simp
      then have "b' < a'" using nxt ab ra by linarith
      then show ?thesis ..
    qed simp
  qed
qed


lemma overlaps_unfold:
  assumes "schedule_range s start_delay = Some (st, en)" and "st \<le> a"
    and "a < b" and "st \<noteq> en" and "a < en"
  shows "overlaps s start_delay a b =
    (let a' = (a - st) mod interval s;
         b' = (if (b - st) mod interval s = 0 then interval s else (b - st) mod interval s)
     in Some (b' < a' \<or> a' < duration s \<or> interval s \<le> b' - a'))"
proof -
  have "interval s \<le> unwrap_or (checked_sub x y) 0 \<longleftrightarrow> interval s \<le> x - y" for x y
    by (auto simp: checked_sub_def)
  then show ?thesis
    using assms by (simp add: overlaps_def Let_def checked_sub_def)
qed

lemma range_nonempty_iff:
  assumes "schedule_range s start_delay = Some (st, en)" and "0 < duration s"
  shows "st \<noteq> en \<longleftrightarrow> 0 < execution_count s"
  using schedule_range_eq [OF assms(1)] assms(2) by (auto simp: exec_start_def)

lemma overlaps_from_start:
  assumes range: "schedule_range s start_delay = Some (st, en)"
    and dur: "0 < duration s" and count: "0 < execution_count s"
  shows "overlaps s start_delay st b = Some (st < b)"
proof (cases "st < b")
  case True
  have ne: "st \<noteq> en" using range_nonempty_iff [OF range dur] count by simp
  moreover have "st < en"
    using schedule_range_eq [OF range] dur count by (simp add: exec_start_def)
  ultimately show ?thesis
    using overlaps_unfold [OF range order_refl True] True dur by (simp add: Let_def)
next
  case False
  then show ?thesis using range by (simp add: overlaps_def)
qed

lemma iter_items_schedule:
  assumes "schedule_iter_of s start_delay = Some it" and "0 < interval s"
    and "execution_count s \<le> n"
  shows "iter_items (Suc n) it = map (exec_start s start_delay) [0..<execution_count s]"
proof -
  from assms(1) have it: "it = \<lparr>delayed_start_time = start_time s + start_delay,
      delayed_end_time = end_time s + start_delay, iter_interval = interval s, current = None\<rparr>"
    and bound: "end_time s + start_delay < 2 ^ 64"
    by (auto simp: schedule_iter_of_def bind_eq_Some_conv int_simps)
  have count: "execution_count s = (if start_time s < end_time s
      then Suc ((end_time s - start_time s - 1) div interval s) else 0)"
    using execution_count_eq [of s] bound assms(2) by simp
  show ?thesis
  proof (cases "start_time s < end_time s")
    case True
    let ?c = "start_time s + start_delay"
    have "schedule_next it = (Some ?c, it\<lparr>current := Some ?c\<rparr>)"
      using True by (simp add: it schedule_next_def)
    moreover have "iter_items n (it\<lparr>current := Some ?c\<rparr>) =
        map (\<lambda>k. ?c + Suc k * interval s) [0..<min n ((end_time s - start_time s - 1) div interval s)]"
      using iter_items_running [of "it\<lparr>current := Some ?c\<rparr>" ?c n] True bound assms(2) by (simp add: it)
    moreover have "min n ((end_time s - start_time s - 1) div interval s) =
        (end_time s - start_time s - 1) div interval s"
      using count True assms(3) by simp
    ultimately show ?thesis
      using True by (simp add: count map_upt_Suc exec_start_def del: upt_Suc)
  next
    case False
    then show ?thesis by (simp add: count it schedule_next_def)
  qed
qed

section \<open>Properties\<close>





text \<open>
  outside those queries \<open>overlaps\<close> misses executions. The schedule runs at 2, 12, 22 and
  32 for one millisecond. A query that starts before the schedule (\<open>[0, 7)\<close>, where the code
  takes \<open>start\<close> instead of 0 as the relative position) and a query that spans more than one
  interval (\<open>[5, 17)\<close>) both contain an execution and are answered with \<open>false\<close>.
\<close>

theorem overlaps_misses_executions:
  "overlaps demo_schedule 0 0 7 = Some False \<and> execution_hits demo_schedule 0 0 7
   \<and> overlaps demo_schedule 0 5 17 = Some False \<and> execution_hits demo_schedule 0 5 17"
proof -
  have n: "execution_count demo_schedule = 4"
    by (simp add: demo_schedule_def execution_count_eq)
  have r: "schedule_range demo_schedule 0 = Some (2, 33)"
    by (simp add: schedule_range_def n Let_def checked_add_def checked_mul_def) 
     (simp add: demo_schedule_def)
  have "overlaps demo_schedule 0 0 7 = Some False" "overlaps demo_schedule 0 5 17 = Some False"
    unfolding overlaps_def r by (simp_all add: demo_schedule_def checked_sub_def)
  moreover have "execution_hits demo_schedule 0 0 7" "execution_hits demo_schedule 0 5 17"
    unfolding execution_hits_def n
    by (rule exI [of _ 0], simp add: exec_start_def demo_schedule_def,
        rule exI [of _ 1], simp add: exec_start_def demo_schedule_def)
  ultimately show ?thesis by blast
qed

end
