(* ===== verification/Acurast.thy ===== *)
theory Acurast
  imports Dispatch Attestation_Types Schedule_Model
begin

text \<open>
  The main pallet, \<open>pallets/acurast/src/lib.rs\<close> and \<open>utils.rs\<close>, with the types it takes from
  \<open>pallets/acurast/common/src/types.rs\<close>.

  The state is an extensible record: the marketplace adds its storage to it, and the job hooks
  the pallet calls work on the extended state. The second key of a double map that the code
  iterates or clears by prefix is an association list. The hooks and barriers of the pallet's
  \<open>Config\<close> are parameters.
\<close>

section \<open>Types\<close>

datatype multi_origin =
    Acurast account_id
  | Tezos bytes
  | Ethereum bytes
  | AlephZero account_id

type_synonym job_id_sequence = u128
type_synonym job_id = "multi_origin \<times> job_id_sequence"

datatype list_update_operation = Add | Remove

record 'a list_update =
  operation :: list_update_operation
  item :: 'a

datatype job_module = DataEncryption

definition job_module_try_from :: "u32 \<Rightarrow> unit + job_module" where
  "job_module_try_from v = (if v = 0 then Inr DataEncryption else Inl ())"

record 'x job_registration =
  script :: bytes
  allowed_sources :: "account_id list option"
  allow_only_verified_sources :: bool
  job_schedule :: schedule
  memory :: u32
  network_requests :: u32
  storage :: u32
  required_modules :: "job_module list"
  extra :: 'x

record environment =
  public_key :: bytes
  variables :: "(bytes \<times> bytes) list"

datatype 'x acurast_event =
    JobRegistrationStored "'x job_registration" job_id
  | JobRegistrationRemoved job_id
  | AllowedSourcesUpdated job_id "'x job_registration" "account_id list_update list"
  | AttestationStored attestation account_id
  | CertificateRecovationListUpdated account_id "serial_number list_update list"
  | ExecutionEnvironmentUpdated job_id account_id

section \<open>State and configuration\<close>

record 'x acurast_state =
  unix_millis :: u128
  local_job_id_sequence :: job_id_sequence
  stored_job_registration :: "job_id \<rightharpoonup> 'x job_registration"
  execution_environment :: "job_id \<Rightarrow> (account_id \<times> environment) list"
  stored_attestation :: "account_id \<rightharpoonup> attestation"
  stored_revoked_certificate :: "serial_number \<rightharpoonup> unit"
  acurast_events :: "'x acurast_event list"

type_synonym ('s, 'x) register_hook = "multi_origin \<Rightarrow> job_id \<Rightarrow> 'x job_registration \<Rightarrow> 's \<Rightarrow> runtime_dispatch_error + 's"
type_synonym 's deregister_hook = "job_id \<Rightarrow> 's \<Rightarrow> runtime_dispatch_error + 's"
type_synonym 's update_allowed_sources_hook =
  "account_id \<Rightarrow> job_id \<Rightarrow> account_id list_update list \<Rightarrow> 's \<Rightarrow> runtime_dispatch_error + 's"

text \<open>
  Constants and barriers of \<open>Config\<close>. \<open>validate_certificate_chain\<close>, \<open>extract_attestation\<close> and
  the conversion of a key description to its bounded form parse and verify X.509 certificates;
  \<open>blake2_256\<close> and the SCALE encoding of an account are library functions.
\<close>

datatype public_key_kind = RSA | ECDSA_P256 bytes | ECDSA_P384

record ('cert, 'kd) acurast_config =
  MaxAllowedSources :: u32
  MaxSlots :: u32
  can_update_revocation_list :: "account_id \<Rightarrow> serial_number list_update list \<Rightarrow> bool"
  accept_attestation_for_origin :: "account_id \<Rightarrow> attestation \<Rightarrow> bool"
  validate_certificate_chain :: "bytes list \<Rightarrow> unit + ((bytes \<times> bytes) list \<times> 'cert \<times> public_key_kind)"
  cert_not_before :: "'cert \<Rightarrow> u64"
  cert_not_after :: "'cert \<Rightarrow> u64"
  extract_attestation :: "'cert \<Rightarrow> unit + 'kd"
  bounded_key_description_of :: "'kd \<Rightarrow> unit + bounded_key_description"
  blake2_256 :: "bytes \<Rightarrow> bytes"
  encode_account :: "account_id \<Rightarrow> bytes"

section \<open>Attestation checks (utils.rs)\<close>

definition now_millis :: "('x, 'z) acurast_state_scheme \<Rightarrow> acurast_error + u64" where
  "now_millis s = (if unix_millis s < 2 ^ 64 then Inr (unix_millis s) else Inl FailedTimestampConversion)"

definition usage_expiry :: "attestation \<Rightarrow> u64 option" where
  "usage_expiry a =
     (case al_usage_expire_date_time (tee_enforced (key_description a)) of
        Some t \<Rightarrow> Some t
      | None \<Rightarrow> al_usage_expire_date_time (software_enforced (key_description a)))"

definition ensure_not_expired :: "attestation \<Rightarrow> ('x, 'z) acurast_state_scheme \<Rightarrow> acurast_error + unit" where
  "ensure_not_expired a s =
     bind_r (now_millis s) (\<lambda>now.
       if now \<ge> not_after (validity a) \<or> now < not_before (validity a)
       then Inl AttestationCertificateNotValid
       else case usage_expiry a of
              Some expire_date_time \<Rightarrow>
                (if now \<ge> expire_date_time then Inl AttestationUsageExpired else Inr ())
            | None \<Rightarrow> Inr ())"

fun ensure_ids_not_revoked :: "cert_id list \<Rightarrow> ('x, 'z) acurast_state_scheme \<Rightarrow> acurast_error + unit" where
  "ensure_ids_not_revoked [] s = Inr ()"
| "ensure_ids_not_revoked (i # ids) s =
     (if stored_revoked_certificate s (snd i) \<noteq> None then Inl RevokedCertificate
      else ensure_ids_not_revoked ids s)"

definition ensure_not_revoked :: "attestation \<Rightarrow> ('x, 'z) acurast_state_scheme \<Rightarrow> acurast_error + unit" where
  "ensure_not_revoked a s = ensure_ids_not_revoked (cert_ids a) s"

definition ensure_source_verified :: "account_id \<Rightarrow> ('x, 'z) acurast_state_scheme \<Rightarrow> acurast_error + unit" where
  "ensure_source_verified source s =
     bind_r (ok_or (stored_attestation s source) FulfillSourceNotVerified) (\<lambda>a.
     bind_r (ensure_not_expired a s) (\<lambda>_.
     bind_r (ensure_not_revoked a s) (\<lambda>_. Inr ())))"

definition ensure_valid_public_key_for_source ::
  "('cert, 'kd) acurast_config \<Rightarrow> account_id \<Rightarrow> public_key_kind \<Rightarrow> acurast_error + unit" where
  "ensure_valid_public_key_for_source cfg source pk =
     (case pk of
        RSA \<Rightarrow> Inl UnsupportedAttestationPublicKeyType
      | ECDSA_P256 key_bytes \<Rightarrow>
          ensure (encode_account cfg source = blake2_256 cfg key_bytes)
            AttestationPublicKeyDoesNotMatchSource
      | ECDSA_P384 \<Rightarrow> Inl UnsupportedAttestationPublicKeyType)"

definition bounded_cert_id :: "bytes \<times> bytes \<Rightarrow> acurast_error + cert_id" where
  "bounded_cert_id c =
     (if length (fst c) > 128 then Inl CannotGetAttestationIssuerName
      else if length (snd c) > 20 then Inl CannotGetAttestationSerialNumber
      else Inr c)"

fun collect_cert_ids :: "(bytes \<times> bytes) list \<Rightarrow> acurast_error + cert_id list" where
  "collect_cert_ids [] = Inr []"
| "collect_cert_ids (c # cs) =
     bind_r (bounded_cert_id c) (\<lambda>i. bind_r (collect_cert_ids cs) (\<lambda>ids. Inr (i # ids)))"

definition validate_and_extract_attestation ::
  "('cert, 'kd) acurast_config \<Rightarrow> account_id \<Rightarrow> bytes list \<Rightarrow> acurast_error + attestation" where
  "validate_and_extract_attestation cfg source chain =
     bind_r (map_err (\<lambda>_. CertificateChainValidationFailed) (validate_certificate_chain cfg chain))
       (\<lambda>(ids, cert, pk).
     bind_r (ensure_valid_public_key_for_source cfg source pk) (\<lambda>_.
     bind_r (map_err (\<lambda>_. AttestationExtractionFailed) (extract_attestation cfg cert)) (\<lambda>kd.
     bind_r (collect_cert_ids ids) (\<lambda>cids.
     bind_r (ensure (length cids \<le> 5) CannotGetCertificateId) (\<lambda>_.
     bind_r (map_err (\<lambda>_. AttestationToBoundedTypeConversionFailed) (bounded_key_description_of cfg kd))
       (\<lambda>bkd.
     Inr \<lparr>cert_ids = cids, key_description = bkd,
          validity = \<lparr>not_before = cert_not_before cfg cert, not_after = cert_not_after cfg cert\<rparr>\<rparr>))))))"

section \<open>Internal operations\<close>

definition deposit_acurast_event :: "'x acurast_event \<Rightarrow> ('x, 'z) acurast_state_scheme \<Rightarrow> ('x, 'z) acurast_state_scheme" where
  "deposit_acurast_event e s = s\<lparr>acurast_events := acurast_events s @ [e]\<rparr>"

text \<open>The identifier counter wraps around at \<open>2 ^ 128\<close> (\<open>add_assign\<close>).\<close>

definition next_job_id :: "('x, 'z) acurast_state_scheme \<Rightarrow> job_id_sequence \<times> ('x, 'z) acurast_state_scheme" where
  "next_job_id s =
     (let n = wrapping_add 128 (local_job_id_sequence s) 1 in (n, s\<lparr>local_job_id_sequence := n\<rparr>))"

definition register_for ::
  "('cert, 'kd) acurast_config \<Rightarrow> (('x, 'z) acurast_state_scheme, 'x) register_hook \<Rightarrow>
   job_id \<Rightarrow> 'x job_registration \<Rightarrow> ('x, 'z) acurast_state_scheme \<Rightarrow>
   runtime_dispatch_error + ('x, 'z) acurast_state_scheme" where
  "register_for cfg hook job_id registration s =
     bind_r (ensure (is_valid_script (script registration)) (ac_err InvalidScriptValue)) (\<lambda>_.
     bind_r (case allowed_sources registration of
               None \<Rightarrow> Inr ()
             | Some srcs \<Rightarrow>
                 bind_r (ensure (length srcs > 0) (ac_err TooFewAllowedSources)) (\<lambda>_.
                 ensure (length srcs \<le> MaxAllowedSources cfg) (ac_err TooManyAllowedSources)))
       (\<lambda>_.
     let s1 = s\<lparr>stored_job_registration := (stored_job_registration s)(job_id \<mapsto> registration)\<rparr> in
     bind_r (hook (fst job_id) job_id registration s1) (\<lambda>s2.
     Inr (deposit_acurast_event (JobRegistrationStored registration job_id) s2))))"

text \<open>
  \<open>clear_prefix\<close> with limit \<open>MaxSlots\<close> removes at most that many entries.
\<close>

definition clear_environment_for ::
  "u32 \<Rightarrow> job_id \<Rightarrow> ('x, 'z) acurast_state_scheme \<Rightarrow> ('x, 'z) acurast_state_scheme" where
  "clear_environment_for max_slots job_id s =
     s\<lparr>execution_environment :=
         (execution_environment s)(job_id := drop max_slots (execution_environment s job_id))\<rparr>"

definition deregister_for ::
  "('cert, 'kd) acurast_config \<Rightarrow> ('x, 'z) acurast_state_scheme deregister_hook \<Rightarrow>
   job_id \<Rightarrow> ('x, 'z) acurast_state_scheme \<Rightarrow>
   runtime_dispatch_error + ('x, 'z) acurast_state_scheme" where
  "deregister_for cfg hook job_id s =
     bind_r (hook job_id s) (\<lambda>s1.
     let s2 = clear_environment_for (MaxSlots cfg) job_id s1;
         s3 = s2\<lparr>stored_job_registration := (stored_job_registration s2)(job_id := None)\<rparr>
     in Inr (deposit_acurast_event (JobRegistrationRemoved job_id) s3))"

definition set_environment_for ::
  "job_id \<Rightarrow> account_id \<Rightarrow> environment \<Rightarrow> ('x, 'z) acurast_state_scheme \<Rightarrow>
   runtime_dispatch_error + ('x, 'z) acurast_state_scheme" where
  "set_environment_for job_id source env s =
     bind_r (ok_or (stored_job_registration s job_id) (ac_err JobRegistrationNotFound)) (\<lambda>_.
     Inr (s\<lparr>execution_environment :=
         (execution_environment s)(job_id :=
            AList.update source env (execution_environment s job_id))\<rparr>))"

fun apply_source_update :: "account_id list_update \<Rightarrow> account_id list \<Rightarrow> account_id list" where
  "apply_source_update u srcs =
     (if item u \<notin> set srcs then (case operation u of Add \<Rightarrow> srcs @ [item u] | Remove \<Rightarrow> srcs)
      else (case operation u of Add \<Rightarrow> srcs | Remove \<Rightarrow> remove1 (item u) srcs))"

definition bounded_allowed_sources ::
  "('cert, 'kd) acurast_config \<Rightarrow> account_id list \<Rightarrow> runtime_dispatch_error + account_id list option" where
  "bounded_allowed_sources cfg srcs =
     (if srcs = [] then Inr None
      else bind_r (ensure (length srcs \<le> MaxAllowedSources cfg) (ac_err TooManyAllowedSources))
             (\<lambda>_. Inr (Some srcs)))"

fun apply_revocation :: "serial_number list_update \<Rightarrow> (serial_number \<rightharpoonup> unit) \<Rightarrow> (serial_number \<rightharpoonup> unit)" where
  "apply_revocation u m =
     (case operation u of Add \<Rightarrow> m(item u \<mapsto> ()) | Remove \<Rightarrow> m(item u := None))"

section \<open>Extrinsics\<close>

definition register ::
  "('cert, 'kd) acurast_config \<Rightarrow> (('x, 'z) acurast_state_scheme, 'x) register_hook \<Rightarrow>
   origin \<Rightarrow> 'x job_registration \<Rightarrow> ('x, 'z) acurast_state_scheme \<Rightarrow>
   runtime_dispatch_error + ('x, 'z) acurast_state_scheme" where
  "register cfg hook o' registration s =
     bind_r (ensure_signed o') (\<lambda>who.
     let (n, s1) = next_job_id s in register_for cfg hook (Acurast who, n) registration s1)"

definition deregister ::
  "('cert, 'kd) acurast_config \<Rightarrow> ('x, 'z) acurast_state_scheme deregister_hook \<Rightarrow>
   origin \<Rightarrow> job_id_sequence \<Rightarrow> ('x, 'z) acurast_state_scheme \<Rightarrow>
   runtime_dispatch_error + ('x, 'z) acurast_state_scheme" where
  "deregister cfg hook o' local_job_id s =
     bind_r (ensure_signed o') (\<lambda>who. deregister_for cfg hook (Acurast who, local_job_id) s)"

definition update_allowed_sources ::
  "('cert, 'kd) acurast_config \<Rightarrow> ('x, 'z) acurast_state_scheme update_allowed_sources_hook \<Rightarrow>
   origin \<Rightarrow> job_id_sequence \<Rightarrow> account_id list_update list \<Rightarrow> ('x, 'z) acurast_state_scheme \<Rightarrow>
   runtime_dispatch_error + ('x, 'z) acurast_state_scheme" where
  "update_allowed_sources cfg hook o' local_job_id updates s =
     bind_r (ensure_signed o') (\<lambda>who.
     let job_id = (Acurast who, local_job_id) in
     bind_r (ok_or (stored_job_registration s job_id) (ac_err JobRegistrationNotFound)) (\<lambda>registration.
     let current_allowed_sources =
           fold apply_source_update updates (unwrap_or (allowed_sources registration) []) in
     bind_r (bounded_allowed_sources cfg current_allowed_sources) (\<lambda>new_sources.
     let s1 = s\<lparr>stored_job_registration :=
               (stored_job_registration s)(job_id \<mapsto> registration\<lparr>allowed_sources := new_sources\<rparr>)\<rparr> in
     bind_r (hook who job_id updates s1) (\<lambda>s2.
     Inr (deposit_acurast_event (AllowedSourcesUpdated job_id registration updates) s2)))))"

definition submit_attestation ::
  "('cert, 'kd) acurast_config \<Rightarrow> origin \<Rightarrow> bytes list \<Rightarrow> ('x, 'z) acurast_state_scheme \<Rightarrow>
   runtime_dispatch_error + ('x, 'z) acurast_state_scheme" where
  "submit_attestation cfg o' chain s =
     bind_r (ensure_signed o') (\<lambda>who.
     bind_r (ensure (length chain \<ge> 2) (ac_err CertificateChainTooShort)) (\<lambda>_.
     bind_r (map_err ac_err (validate_and_extract_attestation cfg who chain)) (\<lambda>a.
     bind_r (ensure (accept_attestation_for_origin cfg who a) (ac_err AttestationRejected)) (\<lambda>_.
     bind_r (map_err ac_err (ensure_not_expired a s)) (\<lambda>_.
     bind_r (map_err ac_err (ensure_not_revoked a s)) (\<lambda>_.
     let s1 = s\<lparr>stored_attestation := (stored_attestation s)(who \<mapsto> a)\<rparr>
     in Inr (deposit_acurast_event (AttestationStored a who) s1)))))))"

definition update_certificate_revocation_list ::
  "('cert, 'kd) acurast_config \<Rightarrow> origin \<Rightarrow> serial_number list_update list \<Rightarrow>
   ('x, 'z) acurast_state_scheme \<Rightarrow> runtime_dispatch_error + ('x, 'z) acurast_state_scheme" where
  "update_certificate_revocation_list cfg o' updates s =
     bind_r (ensure_signed o') (\<lambda>who.
     bind_r (ensure (can_update_revocation_list cfg who updates)
               (ac_err CertificateRevocationListUpdateNotAllowed)) (\<lambda>_.
     let s1 = s\<lparr>stored_revoked_certificate :=
                 fold apply_revocation updates (stored_revoked_certificate s)\<rparr>
     in Inr (deposit_acurast_event (CertificateRecovationListUpdated who updates) s1)))"

definition set_environment ::
  "origin \<Rightarrow> job_id_sequence \<Rightarrow> account_id \<Rightarrow> environment \<Rightarrow> ('x, 'z) acurast_state_scheme \<Rightarrow>
   runtime_dispatch_error + ('x, 'z) acurast_state_scheme" where
  "set_environment o' job_id_seq source env s =
     bind_r (ensure_signed o') (\<lambda>who.
     let job_id = (Acurast who, job_id_seq) in
     bind_r (set_environment_for job_id source env s) (\<lambda>s1.
     Inr (deposit_acurast_event (ExecutionEnvironmentUpdated job_id source) s1)))"

definition set_environments ::
  "origin \<Rightarrow> job_id_sequence \<Rightarrow> (account_id \<times> environment) list \<Rightarrow> ('x, 'z) acurast_state_scheme \<Rightarrow>
   runtime_dispatch_error + ('x, 'z) acurast_state_scheme" where
  "set_environments o' job_id_seq envs s =
     bind_r (ensure_signed o') (\<lambda>who.
     fold_r (\<lambda>(source, env). set_environment_for (Acurast who, job_id_seq) source env) envs s)"

definition acurast_genesis ::
  "(account_id \<times> attestation option) list \<Rightarrow> ('x, 'z) acurast_state_scheme \<Rightarrow> ('x, 'z) acurast_state_scheme" where
  "acurast_genesis attestations s =
     fold (\<lambda>(who, a) s.
        s\<lparr>stored_attestation := (stored_attestation s)(who \<mapsto> unwrap_or a genesis_attestation)\<rparr>)
       attestations s"

section \<open>The hooks interface\<close>

text \<open>The hooks that do nothing, \<open>impl JobHooks<T> for ()\<close>.\<close>

definition unit_register_hook :: "('s, 'x) register_hook" where
  "unit_register_hook who job_id registration s = Inr s"

definition unit_deregister_hook :: "'s deregister_hook" where
  "unit_deregister_hook job_id s = Inr s"

definition unit_update_allowed_sources_hook :: "'s update_allowed_sources_hook" where
  "unit_update_allowed_sources_hook who job_id updates s = Inr s"

text \<open>
  What the pallet relies on in a \<open>JobHooks\<close> implementation: the hooks leave the storage that
  belongs to the pallet alone.
\<close>

definition same_acurast_storage :: "('x, 'z) acurast_state_scheme \<Rightarrow> ('x, 'z) acurast_state_scheme \<Rightarrow> bool" where
  "same_acurast_storage s s' \<longleftrightarrow>
     unix_millis s' = unix_millis s \<and>
     local_job_id_sequence s' = local_job_id_sequence s \<and>
     stored_job_registration s' = stored_job_registration s \<and>
     execution_environment s' = execution_environment s \<and>
     stored_attestation s' = stored_attestation s \<and>
     stored_revoked_certificate s' = stored_revoked_certificate s \<and>
     acurast_events s' = acurast_events s"

text \<open>The last update that names an item decides.\<close>

fun last_update :: "'a list_update list \<Rightarrow> 'a \<Rightarrow> list_update_operation option" where
  "last_update [] x = None"
| "last_update (u # us) x =
     (case last_update us x of
        Some opn \<Rightarrow> Some opn
      | None \<Rightarrow> if item u = x then Some (operation u) else None)"

section \<open>Sample data\<close>

definition demo_config :: "(unit, unit) acurast_config" where
  "demo_config = \<lparr>MaxAllowedSources = 4, MaxSlots = 1,
     can_update_revocation_list = (\<lambda>who us. who = 1),
     accept_attestation_for_origin = (\<lambda>who a. True),
     validate_certificate_chain = (\<lambda>chain. Inr ([([1], [7])], (), ECDSA_P256 [9])),
     cert_not_before = (\<lambda>_. 10), cert_not_after = (\<lambda>_. 100),
     extract_attestation = (\<lambda>_. Inr ()),
     bounded_key_description_of = (\<lambda>_. Inr (key_description genesis_attestation)),
     blake2_256 = (\<lambda>bs. bs), encode_account = (\<lambda>a. [a])\<rparr>"

definition demo_registration :: "unit job_registration" where
  "demo_registration = \<lparr>script = SCRIPT_PREFIX @ replicate 46 0, allowed_sources = None,
     allow_only_verified_sources = True, job_schedule = demo_schedule, memory = 0,
     network_requests = 0, storage = 0, required_modules = [], extra = ()\<rparr>"

definition demo_state :: "unit acurast_state" where
  "demo_state = \<lparr>unix_millis = 50, local_job_id_sequence = 0,
     stored_job_registration = [(Acurast 1, 1) \<mapsto> demo_registration],
     execution_environment = (\<lambda>_. []),
     stored_attestation = [5 \<mapsto> genesis_attestation\<lparr>cert_ids := [([1], [7])]\<rparr>],
     stored_revoked_certificate = Map.empty, acurast_events = []\<rparr>"

section \<open>Clients of the hooks\<close>

lemma same_acurast_storage_refl [simp]: "same_acurast_storage s s"
  by (simp add: same_acurast_storage_def)

lemma same_acurast_storage_trans [trans]:
  "same_acurast_storage s t \<Longrightarrow> same_acurast_storage t u \<Longrightarrow> same_acurast_storage s u"
  by (simp add: same_acurast_storage_def)

lemma bounded_allowed_sources_Inr [result_simps]:
  "bounded_allowed_sources cfg srcs = Inr x \<longleftrightarrow>
     x = (if srcs = [] then None else Some srcs) \<and> length srcs \<le> MaxAllowedSources cfg"
  by (auto simp: bounded_allowed_sources_def result_simps)

locale job_hooks =
  fixes reg_hook :: "(('x, 'z) acurast_state_scheme, 'x) register_hook"
    and dereg_hook :: "('x, 'z) acurast_state_scheme deregister_hook"
    and upd_hook :: "('x, 'z) acurast_state_scheme update_allowed_sources_hook"
  assumes reg_hook_frame: "reg_hook who j r s = Inr s' \<Longrightarrow> same_acurast_storage s s'"
    and dereg_hook_frame: "dereg_hook j s = Inr s' \<Longrightarrow> same_acurast_storage s s'"
    and upd_hook_frame: "upd_hook a j us s = Inr s' \<Longrightarrow> same_acurast_storage s s'"
begin

lemma register_for_effect:
  assumes "register_for cfg reg_hook j r s = Inr s'"
  shows "stored_job_registration s' = (stored_job_registration s)(j \<mapsto> r)"
    and "local_job_id_sequence s' = local_job_id_sequence s"
    and "execution_environment s' = execution_environment s"
    and "is_valid_script (script r)"
    and "acurast_events s' = acurast_events s @ [JobRegistrationStored r j]"
  using assms
  by (auto simp: register_for_def result_simps deposit_acurast_event_def Let_def
      same_acurast_storage_def dest!: reg_hook_frame)

lemma register_effect:
  assumes "register cfg reg_hook (Signed who) r s = Inr s'"
  shows "stored_job_registration s' =
      (stored_job_registration s)((Acurast who, wrapping_add 128 (local_job_id_sequence s) 1) \<mapsto> r)"
    and "local_job_id_sequence s' = wrapping_add 128 (local_job_id_sequence s) 1"
  using assms register_for_effect(1,2)
  by (fastforce simp: register_def next_job_id_def Let_def)+

lemma deregister_for_effect:
  assumes "deregister_for cfg dereg_hook j s = Inr s'"
  shows "stored_job_registration s' = (stored_job_registration s)(j := None)"
    and "execution_environment s' =
      (execution_environment s)(j := drop (MaxSlots cfg) (execution_environment s j))"
    and "local_job_id_sequence s' = local_job_id_sequence s"
  using assms
  by (auto simp: deregister_for_def result_simps deposit_acurast_event_def Let_def
      clear_environment_for_def same_acurast_storage_def dest!: dereg_hook_frame)

lemma update_allowed_sources_effect:
  assumes "update_allowed_sources cfg upd_hook (Signed who) n us s = Inr s'"
  obtains r where "stored_job_registration s (Acurast who, n) = Some r"
    and "stored_job_registration s' = (stored_job_registration s)((Acurast who, n) \<mapsto>
        r\<lparr>allowed_sources :=
            (let srcs = fold apply_source_update us (unwrap_or (allowed_sources r) [])
             in if srcs = [] then None else Some srcs)\<rparr>)"
    and "length (fold apply_source_update us (unwrap_or (allowed_sources r) [])) \<le> MaxAllowedSources cfg"
    and "local_job_id_sequence s' = local_job_id_sequence s"
  using assms that
  by (auto simp: update_allowed_sources_def result_simps deposit_acurast_event_def Let_def
      same_acurast_storage_def dest!: upd_hook_frame)

end

interpretation unit_hooks: job_hooks unit_register_hook unit_deregister_hook unit_update_allowed_sources_hook
  by unfold_locales
    (simp_all add: unit_register_hook_def unit_deregister_hook_def unit_update_allowed_sources_hook_def)

section \<open>Lemmas\<close>

lemma ensure_ids_not_revoked_iff:
  "ensure_ids_not_revoked ids s = Inr () \<longleftrightarrow> (\<forall>i \<in> set ids. stored_revoked_certificate s (snd i) = None)"
  by (induction ids) (auto simp del: not_None_eq)

lemma ensure_not_revoked_iff [result_simps]:
  "ensure_not_revoked a s = Inr () \<longleftrightarrow>
     (\<forall>i \<in> set (cert_ids a). stored_revoked_certificate s (snd i) = None)"
  by (simp add: ensure_not_revoked_def ensure_ids_not_revoked_iff)

lemma ensure_not_expired_iff [result_simps]:
  "ensure_not_expired a s = Inr () \<longleftrightarrow>
     unix_millis s < 2 ^ 64 \<and> not_before (validity a) \<le> unix_millis s \<and>
     unix_millis s < not_after (validity a) \<and>
     (case usage_expiry a of None \<Rightarrow> True | Some t \<Rightarrow> unix_millis s < t)"
  by (auto simp: ensure_not_expired_def now_millis_def split: option.splits)

lemma apply_source_update_mem:
  "distinct srcs \<Longrightarrow> x \<in> set (apply_source_update u srcs) \<longleftrightarrow>
     (if item u = x then operation u = Add else x \<in> set srcs)"
  by (cases "operation u") auto

lemma apply_source_update_distinct: "distinct srcs \<Longrightarrow> distinct (apply_source_update u srcs)"
  by (auto split: list_update_operation.splits)

lemma fold_source_updates_distinct: "distinct srcs \<Longrightarrow> distinct (fold apply_source_update us srcs)"
  by (induction us arbitrary: srcs) (auto simp del: apply_source_update.simps simp: apply_source_update_distinct)

lemma fold_source_updates_mem:
  assumes "distinct srcs"
  shows "x \<in> set (fold apply_source_update us srcs) \<longleftrightarrow>
    (case last_update us x of None \<Rightarrow> x \<in> set srcs | Some opn \<Rightarrow> opn = Add)"
  using assms
proof (induction us arbitrary: srcs)
  case (Cons u us)
  have "x \<in> set (fold apply_source_update us (apply_source_update u srcs)) \<longleftrightarrow>
    (case last_update us x of None \<Rightarrow> x \<in> set (apply_source_update u srcs) | Some opn \<Rightarrow> opn = Add)"
    using Cons.IH apply_source_update_distinct [OF Cons.prems] by blast
  then show ?case
    using apply_source_update_mem [OF Cons.prems, of x u]
    by (simp del: apply_source_update.simps split: option.splits)
qed simp

lemma fold_revocations:
  "fold apply_revocation us m n =
     (case last_update us n of None \<Rightarrow> m n | Some Add \<Rightarrow> Some () | Some Remove \<Rightarrow> None)"
  by (induction us arbitrary: m)
    (auto split: option.splits list_update_operation.splits)

lemma ensure_ids_not_revoked_cong:
  "stored_revoked_certificate s' = stored_revoked_certificate s \<Longrightarrow>
     ensure_ids_not_revoked ids s' = ensure_ids_not_revoked ids s"
  by (induction ids) simp_all

lemma ensure_source_verified_cong:
  assumes "same_acurast_storage s s'"
  shows "ensure_source_verified p s' = ensure_source_verified p s"
proof -
  have "ensure_ids_not_revoked ids s' = ensure_ids_not_revoked ids s" for ids
    using assms by (intro ensure_ids_not_revoked_cong) (simp add: same_acurast_storage_def)
  then show ?thesis
    using assms by (simp add: ensure_source_verified_def same_acurast_storage_def ensure_not_expired_def
        now_millis_def ensure_not_revoked_def)
qed

section \<open>Properties\<close>

text \<open>
  C16: a source counts as verified exactly when it has a stored attestation, the current time is
  representable, lies in the certificate's validity window and before the usage expiry, and no
  certificate of the attestation's chain is revoked.
\<close>

theorem ensure_source_verified_iff:
  "ensure_source_verified source s = Inr () \<longleftrightarrow>
     (\<exists>a. stored_attestation s source = Some a \<and> unix_millis s < 2 ^ 64 \<and>
        not_before (validity a) \<le> unix_millis s \<and> unix_millis s < not_after (validity a) \<and>
        (case usage_expiry a of None \<Rightarrow> True | Some t \<Rightarrow> unix_millis s < t) \<and>
        set (cert_ids a) \<inter> {i. stored_revoked_certificate s (snd i) \<noteq> None} = {})"
proof -
  have "set (cert_ids a) \<inter> {i. stored_revoked_certificate s (snd i) \<noteq> None} = {} \<longleftrightarrow>
      ensure_not_revoked a s = Inr ()" for a
    by (auto simp: ensure_not_revoked_iff simp del: not_None_eq)
  then show ?thesis
    by (simp add: ensure_source_verified_def bind_r_Inr ok_or_Inr ensure_not_expired_iff)
qed

text \<open>
  After an accepted update of the revocation list, a serial number is revoked exactly when
  the last update naming it added it, or no update names it and it was revoked before; a source
  whose chain has a certificate that ends up revoked is no longer verified.
\<close>

theorem revocation_list_update:
  assumes "update_certificate_revocation_list cfg (Signed who) us s = Inr s'"
    and "stored_attestation s source = Some a" and "i \<in> set (cert_ids a)"
    and "last_update us (snd i) = Some Add"
  shows "(\<forall>n. stored_revoked_certificate s' n =
        (case last_update us n of None \<Rightarrow> stored_revoked_certificate s n
           | Some Add \<Rightarrow> Some () | Some Remove \<Rightarrow> None)) \<and>
      \<not> is_ok (ensure_source_verified source s')"
proof -
  from assms(1) have s': "stored_revoked_certificate s' = fold apply_revocation us (stored_revoked_certificate s)"
    and att: "stored_attestation s' = stored_attestation s"
    by (auto simp: update_certificate_revocation_list_def result_simps Let_def deposit_acurast_event_def)
  have "stored_revoked_certificate s' (snd i) = Some ()"
    using assms(4) by (simp add: s' fold_revocations)
  then have "\<not> is_ok (ensure_source_verified source s')"
    using assms(2,3)
    by (auto simp: ensure_source_verified_def is_ok_ex bind_r_Inr ok_or_Inr att ensure_not_revoked_iff)
  then show ?thesis by (simp add: s' fold_revocations)
qed

theorem revocation_list_update_witness:
  "\<not> is_ok (ensure_source_verified 5
      (demo_state\<lparr>stored_revoked_certificate := [[7] \<mapsto> ()],
         acurast_events := [CertificateRecovationListUpdated 1 [\<lparr>operation = Add, item = [7]\<rparr>]]\<rparr>))"
proof -
  let ?s' = "demo_state\<lparr>stored_revoked_certificate := [[7] \<mapsto> ()],
         acurast_events := [CertificateRecovationListUpdated 1 [\<lparr>operation = Add, item = [7]\<rparr>]]\<rparr>"
  have "update_certificate_revocation_list demo_config (Signed 1)
      [\<lparr>operation = Add, item = [7]\<rparr>] demo_state = Inr ?s'"
    by (simp add: update_certificate_revocation_list_def demo_config_def demo_state_def
        deposit_acurast_event_def)
  from revocation_list_update [OF this, of 5 "genesis_attestation\<lparr>cert_ids := [([1], [7])]\<rparr>" "([1], [7])"]
  show ?thesis by (simp add: demo_state_def)
qed



text \<open>
  deregistering a job clears at most \<open>MaxSlots\<close> of its environments, while
  \<open>set_environment\<close> does not bound how many sources get one. With \<open>MaxSlots = 1\<close>, after
  setting environments for two sources and deregistering, the registration is gone and one
  environment is still stored.
\<close>

theorem deregister_leaves_environment:
  "bind_r (set_environment (Signed 1) 1 20 \<lparr>public_key = [], variables = []\<rparr> demo_state)
     (\<lambda>s1. bind_r (set_environment (Signed 1) 1 21 \<lparr>public_key = [], variables = []\<rparr> s1)
     (\<lambda>s2. bind_r (deregister demo_config unit_deregister_hook (Signed 1) 1 s2)
     (\<lambda>s3. Inr (stored_job_registration s3 (Acurast 1, 1), map fst (execution_environment s3 (Acurast 1, 1))))))
   = Inr (None, [21])"
  by (simp add: set_environment_def set_environment_for_def deregister_def deregister_for_def
      unit_deregister_hook_def clear_environment_for_def deposit_acurast_event_def demo_state_def
      demo_config_def Let_def)

end
