(* ===== verification/Payments.thy ===== *)
theory Payments
  imports Acurast
begin

text \<open>
  Locking and paying of job rewards, \<open>pallets/marketplace/src/payments.rs\<close>: the traits
  \<open>RewardManager\<close> and \<open>JobBudget\<close> and the implementation \<open>AssetRewardManager\<close>.

  The budget implementation is a record of operations on a budget state \<open>'b\<close>, the currency
  (a \<open>fungible::Mutate\<close>) has a state \<open>'c\<close>, and the reward manager works on the pair of both.
  \<open>saturated_into\<close> between the two balance types is the identity, both are \<open>u128\<close>.
\<close>

type_synonym percent = u8

record 'b budget_ops =
  reserve :: "job_id \<Rightarrow> balance \<Rightarrow> 'b \<Rightarrow> unit + 'b"
  unreserve :: "job_id \<Rightarrow> balance \<Rightarrow> 'b \<Rightarrow> unit + 'b"
  unreserve_remaining :: "job_id \<Rightarrow> 'b \<Rightarrow> balance \<times> 'b"
  reserved :: "'b \<Rightarrow> job_id \<Rightarrow> balance"

text \<open>
  The accounts and percentages of the configuration, with the two library functions the reward
  manager calls: \<open>Currency::transfer\<close> and \<open>Percent::mul_floor\<close>. The balance function is what
  \<open>fungible::Inspect::balance\<close> reports.
\<close>

record 'c payment_config =
  pallet_account :: account_id
  hyperdrive_pallet_account :: account_id
  fee_pallet_account :: account_id
  get_fee_percentage :: percent
  get_matcher_percentage :: percent
  mul_floor :: "percent \<Rightarrow> balance \<Rightarrow> balance"
  currency_transfer :: "account_id \<Rightarrow> account_id \<Rightarrow> balance \<Rightarrow> 'c \<Rightarrow> runtime_dispatch_error + 'c"
  currency_balance :: "'c \<Rightarrow> account_id \<Rightarrow> balance"

section \<open>AssetRewardManager\<close>

definition funds_account :: "'c payment_config \<Rightarrow> job_id \<Rightarrow> account_id" where
  "funds_account P job_id =
     (case fst job_id of
        Acurast who \<Rightarrow> who
      | Tezos _ \<Rightarrow> hyperdrive_pallet_account P
      | Ethereum _ \<Rightarrow> hyperdrive_pallet_account P
      | AlephZero _ \<Rightarrow> hyperdrive_pallet_account P)"

definition lock_reward ::
  "'b budget_ops \<Rightarrow> 'c payment_config \<Rightarrow> job_id \<Rightarrow> balance \<Rightarrow> 'b \<times> 'c \<Rightarrow>
   runtime_dispatch_error + 'b \<times> 'c" where
  "lock_reward B P job_id reward = (\<lambda>(b, c).
     bind_r (currency_transfer P (funds_account P job_id) (pallet_account P) reward c) (\<lambda>c1.
     bind_r (map_err (\<lambda>_. Other ''Severe Error: JobBudget::reserve failed'') (reserve B job_id reward b))
       (\<lambda>b1. Inr (b1, c1))))"

definition pay_reward ::
  "'b budget_ops \<Rightarrow> 'c payment_config \<Rightarrow> job_id \<Rightarrow> balance \<Rightarrow> account_id \<Rightarrow> 'b \<times> 'c \<Rightarrow>
   runtime_dispatch_error + 'b \<times> 'c" where
  "pay_reward B P job_id reward target = (\<lambda>(b, c).
     bind_r (map_err (\<lambda>_. Other ''Severe Error: JobBudget::unreserve failed'') (unreserve B job_id reward b))
       (\<lambda>b1.
     let fee = mul_floor P (get_fee_percentage P) reward;
         reward_after_fee = wrapping_sub 128 reward fee in
     bind_r (currency_transfer P (pallet_account P) (fee_pallet_account P) fee c) (\<lambda>c1.
     bind_r (currency_transfer P (pallet_account P) target reward_after_fee c1) (\<lambda>c2.
     Inr (b1, c2)))))"

text \<open>The loop of \<open>pay_matcher_reward\<close>: it collects the matcher's share of every job.\<close>

fun collect_matcher_fees ::
  "'b budget_ops \<Rightarrow> 'c payment_config \<Rightarrow> (job_id \<times> balance) list \<Rightarrow> balance \<Rightarrow> 'b \<Rightarrow>
   runtime_dispatch_error + balance \<times> 'b" where
  "collect_matcher_fees B P [] matcher_reward b = Inr (matcher_reward, b)"
| "collect_matcher_fees B P ((job_id, remaining_reward) # rest) matcher_reward b =
     (let matcher_fee = mul_floor P (get_matcher_percentage P) remaining_reward in
      bind_r (map_err (\<lambda>_. Other ''Severe Error: JobBudget::unreserve failed'')
               (unreserve B job_id matcher_fee b))
        (collect_matcher_fees B P rest (wrapping_add 128 matcher_reward matcher_fee)))"

definition pay_matcher_reward ::
  "'b budget_ops \<Rightarrow> 'c payment_config \<Rightarrow> (job_id \<times> balance) list \<Rightarrow> account_id \<Rightarrow> 'b \<times> 'c \<Rightarrow>
   runtime_dispatch_error + 'b \<times> 'c" where
  "pay_matcher_reward B P remaining_rewards matcher = (\<lambda>(b, c).
     bind_r (collect_matcher_fees B P remaining_rewards 0 b) (\<lambda>(matcher_reward, b1).
     let fee = mul_floor P (get_fee_percentage P) matcher_reward;
         reward_after_fee = wrapping_sub 128 matcher_reward fee in
     bind_r (currency_transfer P (pallet_account P) (fee_pallet_account P) fee c) (\<lambda>c1.
     bind_r (currency_transfer P (pallet_account P) matcher reward_after_fee c1) (\<lambda>c2.
     Inr (b1, c2)))))"

definition refund ::
  "'b budget_ops \<Rightarrow> 'c payment_config \<Rightarrow> job_id \<Rightarrow> 'b \<times> 'c \<Rightarrow>
   runtime_dispatch_error + balance \<times> 'b \<times> 'c" where
  "refund B P job_id = (\<lambda>(b, c).
     let (remaining, b1) = unreserve_remaining B job_id b in
     bind_r (currency_transfer P (pallet_account P) (funds_account P job_id) remaining c) (\<lambda>c1.
     Inr (remaining, b1, c1)))"

section \<open>The JobBudget of the marketplace\<close>

text \<open>\<open>impl JobBudget<T> for Pallet<T>\<close>, on the storage map \<open>JobBudgets\<close> (zero by default).\<close>

type_synonym job_budgets_map = "job_id \<Rightarrow> balance"

definition jb_reserve :: "job_id \<Rightarrow> balance \<Rightarrow> job_budgets_map \<Rightarrow> unit + job_budgets_map" where
  "jb_reserve job_id reward b =
     bind_r (ok_or (checked_add 128 (b job_id) reward) ()) (\<lambda>amount. Inr (b(job_id := amount)))"

definition jb_unreserve :: "job_id \<Rightarrow> balance \<Rightarrow> job_budgets_map \<Rightarrow> unit + job_budgets_map" where
  "jb_unreserve job_id reward b =
     (if reward > b job_id then Inl ()
      else bind_r (ok_or (checked_sub (b job_id) reward) ()) (\<lambda>amount. Inr (b(job_id := amount))))"

definition jb_unreserve_remaining :: "job_id \<Rightarrow> job_budgets_map \<Rightarrow> balance \<times> job_budgets_map" where
  "jb_unreserve_remaining job_id b = (b job_id, b(job_id := 0))"

definition jb_reserved :: "job_budgets_map \<Rightarrow> job_id \<Rightarrow> balance" where
  "jb_reserved b job_id = b job_id"

definition job_budget_ops :: "job_budgets_map budget_ops" where
  "job_budget_ops = \<lparr>reserve = jb_reserve, unreserve = jb_unreserve,
     unreserve_remaining = jb_unreserve_remaining, reserved = jb_reserved\<rparr>"

section \<open>Specification\<close>

text \<open>
  What is assumed of the two library functions: a successful transfer moves exactly the amount,
  which the sender must own, without overflow of the receiver's balance, and \<open>mul_floor\<close> of a percentage does not exceed its argument.
\<close>

definition currency_laws :: "'c payment_config \<Rightarrow> bool" where
  "currency_laws P \<longleftrightarrow>
     (\<forall>src dst amount c c'. currency_transfer P src dst amount c = Inr c' \<longrightarrow>
        amount \<le> currency_balance P c src \<and>
        (src \<noteq> dst \<longrightarrow> currency_balance P c dst + amount < 2 ^ 128) \<and>
        (\<forall>a. currency_balance P c' a =
           (if src = dst then currency_balance P c a
            else if a = src then currency_balance P c a - amount
            else if a = dst then currency_balance P c a + amount
            else currency_balance P c a))) \<and>
     (\<forall>p x. mul_floor P p x \<le> x)"

definition budget_support :: "'b budget_ops \<Rightarrow> 'b \<Rightarrow> job_id set" where
  "budget_support B b = {j. reserved B b j \<noteq> 0}"

definition budget_total :: "'b budget_ops \<Rightarrow> 'b \<Rightarrow> nat" where
  "budget_total B b = sum (reserved B b) (budget_support B b)"

text \<open>The funds are solvent when the pallet's account can pay all reserved budgets.\<close>

definition solvent :: "'b budget_ops \<Rightarrow> 'c payment_config \<Rightarrow> 'b \<times> 'c \<Rightarrow> bool" where
  "solvent B P = (\<lambda>(b, c). finite (budget_support B b) \<and>
     budget_total B b \<le> currency_balance P c (pallet_account P) \<and>
     currency_balance P c (pallet_account P) < 2 ^ 128)"

text \<open>A currency of plain balances, and a configuration that uses it.\<close>

definition plain_transfer ::
  "account_id \<Rightarrow> account_id \<Rightarrow> balance \<Rightarrow> (account_id \<Rightarrow> balance) \<Rightarrow>
   runtime_dispatch_error + (account_id \<Rightarrow> balance)" where
  "plain_transfer src dst amount c =
     (if c src < amount then Inl (Token ''FundsUnavailable'')
      else if src = dst then Inr c
      else if 2 ^ 128 \<le> c dst + amount then Inl (Token ''Overflow'')
      else Inr (c(src := c src - amount, dst := c dst + amount)))"

definition plain_payments :: "(account_id \<Rightarrow> balance) payment_config" where
  "plain_payments = \<lparr>pallet_account = 100, hyperdrive_pallet_account = 101, fee_pallet_account = 102,
     get_fee_percentage = 30, get_matcher_percentage = 10,
     mul_floor = (\<lambda>p x. x * min p 100 div 100),
     currency_transfer = plain_transfer, currency_balance = (\<lambda>c. c)\<rparr>"

section \<open>The interface between budgets and the reward manager\<close>

lemma sum_update_one:
  fixes f g :: "'a \<Rightarrow> nat"
  assumes "finite {x. f x \<noteq> 0}" and "\<And>x. x \<noteq> a \<Longrightarrow> g x = f x"
  shows "finite {x. g x \<noteq> 0}" "sum g {x. g x \<noteq> 0} + f a = sum f {x. f x \<noteq> 0} + g a"
proof -
  let ?S = "insert a {x. f x \<noteq> 0}"
  have sub: "{x. g x \<noteq> 0} \<subseteq> ?S" using assms(2) by auto
  then show "finite {x. g x \<noteq> 0}" using assms(1) by (meson finite_insert finite_subset)
  have g: "sum g {x. g x \<noteq> 0} = sum g ?S"
    using assms(1) sub by (intro sum.mono_neutral_left) auto
  have f: "sum f {x. f x \<noteq> 0} = sum f ?S"
    using assms(1) by (intro sum.mono_neutral_left) auto
  have "sum g (?S - {a}) = sum f (?S - {a})"
    using assms(2) by (intro sum.cong) auto
  then show "sum g {x. g x \<noteq> 0} + f a = sum f {x. f x \<noteq> 0} + g a"
    unfolding g f using assms(1) sum.remove [of ?S a f] sum.remove [of ?S a g] by simp
qed

lemma transfer_balance:
  assumes "currency_laws P" and "currency_transfer P src dst amount c = Inr c'"
  shows "amount \<le> currency_balance P c src"
    and "currency_balance P c' a =
      (if src = dst then currency_balance P c a
       else if a = src then currency_balance P c a - amount
       else if a = dst then currency_balance P c a + amount
       else currency_balance P c a)"
  using assms unfolding currency_laws_def by blast+

lemma split_payment:
  assumes "currency_laws P" and "r < 2 ^ 128"
    and "currency_transfer P a f (mul_floor P p r) c = Inr c1"
    and "currency_transfer P a t (wrapping_sub 128 r (mul_floor P p r)) c1 = Inr c2"
  shows "currency_balance P c a \<le> currency_balance P c2 a + r"
    and "currency_balance P c2 a \<le> currency_balance P c a"
proof -
  have le: "mul_floor P p r \<le> r" using assms(1) by (simp add: currency_laws_def)
  then have w: "wrapping_sub 128 r (mul_floor P p r) = r - mul_floor P p r"
    using assms(2) by (intro wrapping_sub_exact) simp_all
  have 1: "currency_balance P c a \<le> currency_balance P c1 a + mul_floor P p r"
    using transfer_balance [OF assms(1,3)] by simp
  have 2: "currency_balance P c1 a \<le> currency_balance P c2 a + (r - mul_floor P p r)"
    using transfer_balance [OF assms(1) assms(4) [unfolded w]] by simp
  from 1 2 le show "currency_balance P c a \<le> currency_balance P c2 a + r" by simp
  have "currency_balance P c2 a \<le> currency_balance P c1 a"
    using transfer_balance(2) [OF assms(1,4)] by simp
  moreover have "currency_balance P c1 a \<le> currency_balance P c a"
    using transfer_balance(2) [OF assms(1,3)] by simp
  ultimately show "currency_balance P c2 a \<le> currency_balance P c a" by (rule le_trans)
qed

locale job_budget =
  fixes B :: "'b budget_ops"
  assumes reserve_effect: "reserve B j r b = Inr b' \<Longrightarrow>
      reserved B b' = (reserved B b)(j := reserved B b j + r) \<and> reserved B b j + r < 2 ^ 128"
    and unreserve_effect: "unreserve B j r b = Inr b' \<Longrightarrow>
      r \<le> reserved B b j \<and> reserved B b' = (reserved B b)(j := reserved B b j - r)"
    and unreserve_ok: "r \<le> reserved B b j \<Longrightarrow> is_ok (unreserve B j r b)"
    and unreserve_remaining_effect: "unreserve_remaining B j b = (r, b') \<Longrightarrow>
      r = reserved B b j \<and> reserved B b' = (reserved B b)(j := 0)"
begin

lemma budget_total_update:
  assumes "finite (budget_support B b)" and "reserved B b' = (reserved B b)(j := v)"
  shows "finite (budget_support B b')" "budget_total B b' + reserved B b j = budget_total B b + v"
  using sum_update_one [of "reserved B b" j "reserved B b'"] assms
  by (simp_all add: budget_support_def budget_total_def)

lemma reserved_le_total:
  assumes "finite (budget_support B b)"
  shows "reserved B b j \<le> budget_total B b"
proof (cases "j \<in> budget_support B b")
  case True
  then show ?thesis unfolding budget_total_def using assms by (simp add: member_le_sum)
qed (simp add: budget_support_def)

lemma lock_reward_effect:
  assumes "lock_reward B P j r (b, c) = Inr (b', c')"
  shows "reserved B b' = (reserved B b)(j := reserved B b j + r)"
    and "reserved B b j + r < 2 ^ 128"
    and "currency_transfer P (funds_account P j) (pallet_account P) r c = Inr c'"
  using assms by (auto simp: lock_reward_def result_simps dest!: reserve_effect)

lemma lock_reward_solvent:
  assumes "currency_laws P" and "funds_account P j \<noteq> pallet_account P"
    and "lock_reward B P j r (b, c) = Inr (b', c')" and "solvent B P (b, c)"
  shows "solvent B P (b', c')"
proof -
  note eff = lock_reward_effect [OF assms(3)]
  have c: "currency_balance P c' (pallet_account P) = currency_balance P c (pallet_account P) + r"
    using transfer_balance(2) [OF assms(1) eff(3)] assms(2) by simp
  have "currency_balance P c (pallet_account P) + r < 2 ^ 128"
    using assms(1,2) eff(3) unfolding currency_laws_def by blast
  moreover have "finite (budget_support B b)" using assms(4) by (simp add: solvent_def)
  ultimately show ?thesis
    using budget_total_update [OF _ eff(1)] assms(4) c by (simp add: solvent_def)
qed

lemma pay_reward_effect:
  assumes "pay_reward B P j r target (b, c) = Inr (b', c')"
  shows "r \<le> reserved B b j" and "reserved B b' = (reserved B b)(j := reserved B b j - r)"
    and "\<exists>c1. currency_transfer P (pallet_account P) (fee_pallet_account P)
                (mul_floor P (get_fee_percentage P) r) c = Inr c1 \<and>
            currency_transfer P (pallet_account P) target
                (wrapping_sub 128 r (mul_floor P (get_fee_percentage P) r)) c1 = Inr c'"
  using assms by (auto simp: pay_reward_def result_simps Let_def dest!: unreserve_effect)

lemma solvent_decrease:
  assumes "solvent B P (b, c)" and "reserved B b' = (reserved B b)(j := reserved B b j - r)"
    and "r \<le> reserved B b j"
    and "currency_balance P c (pallet_account P) \<le> currency_balance P c' (pallet_account P) + r"
    and "currency_balance P c' (pallet_account P) \<le> currency_balance P c (pallet_account P)"
  shows "solvent B P (b', c')"
proof -
  have "finite (budget_support B b)" using assms(1) by (simp add: solvent_def)
  note tot = budget_total_update [OF this assms(2)]
  have "budget_total B b' + r = budget_total B b" using tot(2) assms(3) by linarith
  then show ?thesis using tot(1) assms(1,4,5) by (simp add: solvent_def)
qed

lemma pay_reward_solvent:
  assumes "currency_laws P" and "solvent B P (b, c)"
    and "pay_reward B P j r target (b, c) = Inr (b', c')"
  shows "solvent B P (b', c')"
proof -
  note eff = pay_reward_effect [OF assms(3)]
  have "reserved B b j < 2 ^ 128" using assms(2) reserved_le_total [of b j] by (simp add: solvent_def)
  with eff(1) have r: "r < 2 ^ 128" by simp
  from eff(3) obtain c1 where "currency_transfer P (pallet_account P) (fee_pallet_account P)
        (mul_floor P (get_fee_percentage P) r) c = Inr c1"
    "currency_transfer P (pallet_account P) target
        (wrapping_sub 128 r (mul_floor P (get_fee_percentage P) r)) c1 = Inr c'" by blast
  from split_payment [OF assms(1) r this] show ?thesis
    by (rule solvent_decrease [OF assms(2) eff(2,1)])
qed

lemma refund_effect:
  assumes "refund B P j (b, c) = Inr (r, b', c')"
  shows "r = reserved B b j" and "reserved B b' = (reserved B b)(j := 0)"
    and "currency_transfer P (pallet_account P) (funds_account P j) r c = Inr c'"
  using assms by (auto simp: refund_def result_simps dest!: unreserve_remaining_effect split: prod.splits)

lemma refund_solvent:
  assumes "currency_laws P" and "solvent B P (b, c)" and "refund B P j (b, c) = Inr (r, b', c')"
  shows "solvent B P (b', c')"
proof -
  note eff = refund_effect [OF assms(3)]
  have "currency_balance P c (pallet_account P) \<le> currency_balance P c' (pallet_account P) + r"
    using transfer_balance [OF assms(1) eff(3)] by simp
  moreover have "currency_balance P c' (pallet_account P) \<le> currency_balance P c (pallet_account P)"
    using transfer_balance(2) [OF assms(1) eff(3)] by simp
  ultimately show ?thesis
    by (intro solvent_decrease [OF assms(2), where j = j and r = r]) (simp_all add: eff(1,2))
qed

text \<open>The matcher's loop: the collected shares are exactly what leaves the budgets.\<close>

lemma collect_matcher_fees_total:
  assumes "collect_matcher_fees B P rs m b = Inr (m', b')"
    and "finite (budget_support B b)" and "m + budget_total B b < 2 ^ 128"
  shows "finite (budget_support B b') \<and> m' + budget_total B b' = m + budget_total B b \<and>
    (\<forall>k. reserved B b' k \<le> reserved B b k)"
  using assms
proof (induction rs arbitrary: m b)
  case (Cons x rs)
  obtain j rem where x: "x = (j, rem)" by (cases x)
  let ?f = "mul_floor P (get_matcher_percentage P) rem"
  from Cons.prems(1) obtain b1 where b1: "unreserve B j ?f b = Inr b1"
    and rest: "collect_matcher_fees B P rs (wrapping_add 128 m ?f) b1 = Inr (m', b')"
    by (auto simp: x Let_def result_simps)
  note eff = unreserve_effect [OF b1]
  note tot = budget_total_update [OF Cons.prems(2) conjunct2 [OF eff]]
  have tb: "?f + budget_total B b1 = budget_total B b" using tot(2) eff by linarith
  have "wrapping_add 128 m ?f = m + ?f"
    using tb Cons.prems(3) by (intro wrapping_add_exact) linarith
  with rest have "collect_matcher_fees B P rs (m + ?f) b1 = Inr (m', b')" by simp
  moreover have "m + ?f + budget_total B b1 < 2 ^ 128" using tb Cons.prems(3) by linarith
  ultimately have IH: "finite (budget_support B b') \<and>
      m' + budget_total B b' = m + ?f + budget_total B b1 \<and> (\<forall>k. reserved B b' k \<le> reserved B b1 k)"
    using Cons.IH tot(1) by blast
  have "reserved B b1 k \<le> reserved B b k" for k using eff by simp
  then show ?case using IH tb by (auto intro: le_trans)
qed simp

lemma collect_matcher_fees_budgets:
  assumes "collect_matcher_fees B P rs m b = Inr (m', b')" and "distinct (map fst rs)"
  shows "reserved B b' k = (case map_of rs k of None \<Rightarrow> reserved B b k
      | Some d \<Rightarrow> reserved B b k - mul_floor P (get_matcher_percentage P) d)"
  using assms
proof (induction rs arbitrary: m b)
  case (Cons x rs)
  obtain j rem where x: "x = (j, rem)" by (cases x)
  let ?f = "mul_floor P (get_matcher_percentage P) rem"
  from Cons.prems(1) obtain b1 where b1: "unreserve B j ?f b = Inr b1"
    and rest: "collect_matcher_fees B P rs (wrapping_add 128 m ?f) b1 = Inr (m', b')"
    by (auto simp: x Let_def result_simps)
  have "map_of rs j = None" using Cons.prems(2) by (auto simp: x map_of_eq_None_iff)
  then show ?case
    using Cons.IH [OF rest] Cons.prems(2) unreserve_effect [OF b1] by (auto simp: x split: option.splits)
qed simp

lemma pay_matcher_reward_solvent:
  assumes "currency_laws P" and "solvent B P (b, c)"
    and "pay_matcher_reward B P rs matcher (b, c) = Inr (b', c')"
  shows "solvent B P (b', c')"
proof -
  from assms(3) obtain m c1 where col: "collect_matcher_fees B P rs 0 b = Inr (m, b')"
    and t: "currency_transfer P (pallet_account P) (fee_pallet_account P)
              (mul_floor P (get_fee_percentage P) m) c = Inr c1"
      "currency_transfer P (pallet_account P) matcher
              (wrapping_sub 128 m (mul_floor P (get_fee_percentage P) m)) c1 = Inr c'"
    by (auto simp: pay_matcher_reward_def result_simps Let_def)
  have fin: "finite (budget_support B b)" and small: "0 + budget_total B b < 2 ^ 128"
    using assms(2) by (auto simp: solvent_def)
  note tot = collect_matcher_fees_total [OF col fin small]
  have "m < 2 ^ 128" using tot small by linarith
  from split_payment [OF assms(1) this t] tot assms(2) show ?thesis by (auto simp: solvent_def)
qed

end

lemma jb_reserved_eq [simp]: "jb_reserved b = b"
  by (simp add: jb_reserved_def fun_eq_iff)

interpretation jb: job_budget job_budget_ops
  by unfold_locales
    (auto simp: job_budget_ops_def jb_reserve_def jb_unreserve_def jb_unreserve_remaining_def
      result_simps int_simps split: if_splits)

lemma plain_payments_laws: "currency_laws plain_payments"
proof -
  have "x * min p 100 div 100 \<le> x" for x p :: nat
    using div_le_mono [of "x * min p 100" "x * 100" 100] by simp
  then show ?thesis
    by (auto simp: currency_laws_def plain_payments_def plain_transfer_def split: if_splits)
qed

section \<open>Properties\<close>

text \<open>
  C14: paying a reward of a job takes exactly the reward from the job's budget and from the
  pallet's account and splits it without loss: the fee account receives the floored percentage,
  the target the rest, and no other balance or budget changes.
\<close>

theorem pay_reward_splits:
  assumes "currency_laws P" and "pay_reward job_budget_ops P j r target (b, c) = Inr (b', c')"
    and "r < 2 ^ 128"
    and "distinct [pallet_account P, fee_pallet_account P, target]"
  shows "r \<le> b j \<and> b' = b(j := b j - r) \<and>
    (let fee = mul_floor P (get_fee_percentage P) r in
     fee \<le> r \<and>
     currency_balance P c' = (currency_balance P c)
       (pallet_account P := currency_balance P c (pallet_account P) - r,
        fee_pallet_account P := currency_balance P c (fee_pallet_account P) + fee,
        target := currency_balance P c target + (r - fee)))"
proof -
  let ?fee = "mul_floor P (get_fee_percentage P) r"
  note eff = jb.pay_reward_effect [OF assms(2)]
  have le: "?fee \<le> r" using assms(1) by (simp add: currency_laws_def)
  have w: "wrapping_sub 128 r ?fee = r - ?fee"
    using le assms(3) by (intro wrapping_sub_exact)
  from eff(3) obtain c1 where t: "currency_transfer P (pallet_account P) (fee_pallet_account P) ?fee c = Inr c1"
    "currency_transfer P (pallet_account P) target (r - ?fee) c1 = Inr c'"
    unfolding w by blast
  have "currency_balance P c' a = ((currency_balance P c)
       (pallet_account P := currency_balance P c (pallet_account P) - r,
        fee_pallet_account P := currency_balance P c (fee_pallet_account P) + ?fee,
        target := currency_balance P c target + (r - ?fee))) a" for a
    using transfer_balance(2) [OF assms(1) t(1)] transfer_balance(2) [OF assms(1) t(2)]
      assms(4) le by auto
  then show ?thesis
    using eff(1,2) le by (auto simp: job_budget_ops_def Let_def)
qed

theorem pay_reward_splits_witness:
  "\<exists>b' c'. pay_reward job_budget_ops plain_payments (Acurast 1, 1) 10 7
       ((\<lambda>_. 0)((Acurast 1, 1) := 100), (\<lambda>_. 0)(100 := 100)) = Inr (b', c') \<and>
     b' (Acurast 1, 1) = 90 \<and> c' 7 = 7 \<and> c' 102 = 3 \<and> c' 100 = 90"
proof -
  let ?b = "(\<lambda>_. 0)((Acurast 1, 1) := 100) :: job_budgets_map"
  let ?c = "(\<lambda>_. 0)(100 := 100) :: account_id \<Rightarrow> balance"
  have "is_ok (pay_reward job_budget_ops plain_payments (Acurast 1, 1) 10 7 (?b, ?c))"
    by (simp add: pay_reward_def job_budget_ops_def jb_unreserve_def plain_payments_def
        plain_transfer_def wrapping_sub_def checked_sub_def)
  then obtain b' c' where p: "pay_reward job_budget_ops plain_payments (Acurast 1, 1) 10 7 (?b, ?c) = Inr (b', c')"
    unfolding is_ok_ex by (metis surj_pair)
  from pay_reward_splits [OF plain_payments_laws p] show ?thesis
    using p by (simp add: plain_payments_def Let_def)
qed

end
