(* ===== verification/Reputation.thy ===== *)
theory Reputation
  imports Rust_Prelude
begin

text \<open>
  The beta reputation of \<open>pallets/marketplace/reputation/src/lib.rs\<close>.

  \<open>FixedU128\<close> is a library type: a value is its inner \<open>u128\<close>, which counts parts of \<open>10 ^ 18\<close>,
  and its operations are a parameter of the model, with the two operations of \<open>Permill\<close>. What the code relies on is
  \<open>fixed_u128_laws\<close>: conversions and additions are exact, products and quotients round down, and
  powers of a value that is at most one are at most one.
\<close>

type_synonym fixed_u128 = nat
type_synonym permill = u32

definition DIV :: nat where
  "DIV = 10 ^ 18"

record fixed_ops =
  from_rational :: "nat \<Rightarrow> nat \<Rightarrow> fixed_u128"
  from_u32 :: "u32 \<Rightarrow> fixed_u128"
  const_add :: "fixed_u128 \<Rightarrow> fixed_u128 \<Rightarrow> fixed_u128"
  const_sub :: "fixed_u128 \<Rightarrow> fixed_u128 \<Rightarrow> fixed_u128"
  const_div :: "fixed_u128 \<Rightarrow> fixed_u128 \<Rightarrow> fixed_u128"
  saturating_from_integer :: "u128 \<Rightarrow> fixed_u128"
  saturating_pow :: "fixed_u128 \<Rightarrow> nat \<Rightarrow> fixed_u128"
  fp_checked_add :: "fixed_u128 \<Rightarrow> fixed_u128 \<Rightarrow> fixed_u128 option"
  fp_checked_sub :: "fixed_u128 \<Rightarrow> fixed_u128 \<Rightarrow> fixed_u128 option"
  fp_checked_mul :: "fixed_u128 \<Rightarrow> fixed_u128 \<Rightarrow> fixed_u128 option"
  fp_checked_div :: "fixed_u128 \<Rightarrow> fixed_u128 \<Rightarrow> fixed_u128 option"
  try_into_permill :: "fixed_u128 \<Rightarrow> permill option"
  permill_from_parts :: "u32 \<Rightarrow> permill"

record beta_parameters =
  beta_r :: fixed_u128
  beta_s :: fixed_u128

definition beta_default :: beta_parameters where
  "beta_default = \<lparr>beta_r = 0, beta_s = 0\<rparr>"

definition LAMBDA :: "fixed_ops \<Rightarrow> fixed_u128" where
  "LAMBDA F = from_rational F 98 100"

definition LAMBDA_INV :: "fixed_ops \<Rightarrow> fixed_u128" where
  "LAMBDA_INV F = const_sub F (from_u32 F 1) (LAMBDA F)"

definition LAMBDA_F :: "fixed_ops \<Rightarrow> fixed_u128" where
  "LAMBDA_F F = const_div F (from_u32 F 1) (LAMBDA_INV F)"

definition MAX_REPUTATION :: "fixed_ops \<Rightarrow> fixed_u128" where
  "MAX_REPUTATION F =
     const_div F (const_add F (LAMBDA_F F) (from_u32 F 1)) (const_add F (LAMBDA_F F) (from_u32 F 2))"

definition normalize :: "fixed_ops \<Rightarrow> beta_parameters \<Rightarrow> permill option" where
  "normalize F params =
     do {
       num \<leftarrow> fp_checked_add F (beta_r params) (saturating_from_integer F 1);
       rs \<leftarrow> fp_checked_add F (beta_r params) (beta_s params);
       den \<leftarrow> fp_checked_add F rs (saturating_from_integer F 2);
       q \<leftarrow> fp_checked_div F num den;
       n \<leftarrow> fp_checked_div F q (MAX_REPUTATION F);
       try_into_permill F n
     }"

definition weight :: "fixed_ops \<Rightarrow> u128 \<Rightarrow> fixed_u128 \<Rightarrow> fixed_u128 option" where
  "weight F job_reward avg_reward =
     do {
       let job_reward' = saturating_from_integer F job_reward;
       total \<leftarrow> fp_checked_add F avg_reward job_reward';
       fp_checked_div F job_reward' total
     }"

text \<open>\<open>w * (1 - lambda_pow) / (1 - \<lambda>)\<close>, the bonus for successes and the malus for failures.\<close>

definition weighted_gain :: "fixed_ops \<Rightarrow> fixed_u128 \<Rightarrow> fixed_u128 \<Rightarrow> fixed_u128 option" where
  "weighted_gain F w lambda_pow =
     do {
       d \<leftarrow> fp_checked_sub F (from_u32 F 1) lambda_pow;
       q \<leftarrow> fp_checked_div F d (LAMBDA_INV F);
       fp_checked_mul F w q
     }"

definition update :: "fixed_ops \<Rightarrow> beta_parameters \<Rightarrow> u64 \<Rightarrow> u64 \<Rightarrow> u128 \<Rightarrow> u128 \<Rightarrow> beta_parameters option" where
  "update F params successes failures job_reward avg_reward =
     do {
       w \<leftarrow> weight F job_reward (saturating_from_integer F avg_reward);
       let lambda_pow_successes = saturating_pow F (LAMBDA F) successes;
       let lambda_pow_failures = saturating_pow F (LAMBDA F) failures;
       bonus \<leftarrow> weighted_gain F w lambda_pow_successes;
       r1 \<leftarrow> fp_checked_mul F (beta_r params) lambda_pow_successes;
       r2 \<leftarrow> fp_checked_add F r1 bonus;
       r3 \<leftarrow> fp_checked_mul F r2 lambda_pow_failures;
       malus \<leftarrow> weighted_gain F w lambda_pow_failures;
       s1 \<leftarrow> fp_checked_mul F (beta_s params) lambda_pow_successes;
       s2 \<leftarrow> fp_checked_mul F s1 lambda_pow_failures;
       s3 \<leftarrow> fp_checked_add F s2 malus;
       Some \<lparr>beta_r = r3, beta_s = s3\<rparr>
     }"

definition fixed_u128_laws :: "fixed_ops \<Rightarrow> bool" where
  "fixed_u128_laws F \<longleftrightarrow>
     (\<forall>n d. d dvd n * DIV \<longrightarrow> from_rational F n d = n * DIV div d) \<and>
     (\<forall>n < 2 ^ 32. from_u32 F n = n * DIV) \<and>
     (\<forall>a b. b \<le> a \<longrightarrow> const_sub F a b = a - b) \<and>
     (\<forall>n. saturating_from_integer F n = min (n * DIV) (2 ^ 128 - 1)) \<and>
     (\<forall>x n. x \<le> DIV \<longrightarrow> saturating_pow F x n \<le> DIV) \<and>
     (\<forall>a b. fp_checked_add F a b = (if a + b < 2 ^ 128 then Some (a + b) else None)) \<and>
     (\<forall>a b. fp_checked_sub F a b = (if b \<le> a then Some (a - b) else None)) \<and>
     (\<forall>a b. fp_checked_mul F a b = (if a * b div DIV < 2 ^ 128 then Some (a * b div DIV) else None)) \<and>
     (\<forall>a b. fp_checked_div F a b =
        (if b \<noteq> 0 \<and> a * DIV div b < 2 ^ 128 then Some (a * DIV div b) else None))"

fun floor_pow :: "fixed_u128 \<Rightarrow> nat \<Rightarrow> fixed_u128" where
  "floor_pow x 0 = DIV"
| "floor_pow x (Suc n) = floor_pow x n * x div DIV"

definition floor_fixed :: fixed_ops where
  "floor_fixed = \<lparr>from_rational = (\<lambda>n d. n * DIV div d), from_u32 = (\<lambda>n. n * DIV),
     const_add = (+), const_sub = (-), const_div = (\<lambda>a b. a * DIV div b),
     saturating_from_integer = (\<lambda>n. min (n * DIV) (2 ^ 128 - 1)),
     saturating_pow = floor_pow,
     fp_checked_add = checked_add 128, fp_checked_sub = checked_sub,
     fp_checked_mul = (\<lambda>a b. if a * b div DIV < 2 ^ 128 then Some (a * b div DIV) else None),
     fp_checked_div = (\<lambda>a b. if b \<noteq> 0 \<and> a * DIV div b < 2 ^ 128 then Some (a * DIV div b) else None),
     try_into_permill = (\<lambda>x. if x \<le> DIV then Some (x * 1000000 div DIV) else None),
     permill_from_parts = (\<lambda>n. min n 1000000)\<rparr>"

text \<open>The number of weighted successes (and of failures) never exceeds \<open>1 / (1 - \<lambda>) = 50\<close>.\<close>

definition beta_bounded :: "beta_parameters \<Rightarrow> bool" where
  "beta_bounded p \<longleftrightarrow> beta_r p \<le> 50 * DIV \<and> beta_s p \<le> 50 * DIV"

section \<open>Lemmas\<close>

lemma DIV_pos [simp]: "0 < DIV" "DIV \<noteq> 0"
  by (simp_all add: DIV_def)

lemma floor_pow_le: "x \<le> DIV \<Longrightarrow> floor_pow x n \<le> DIV"
proof (induction n)
  case (Suc n)
  then have "floor_pow x n * x \<le> DIV * DIV" by (simp add: mult_le_mono)
  then have "floor_pow x n * x div DIV \<le> DIV * DIV div DIV" by (rule div_le_mono)
  then show ?case by simp
qed simp

lemma floor_fixed_laws: "fixed_u128_laws floor_fixed"
  by (simp add: fixed_u128_laws_def floor_fixed_def floor_pow_le checked_add_def checked_sub_def)

lemma lambda_values:
  assumes "fixed_u128_laws F"
  shows "LAMBDA F = 980000000000000000" "LAMBDA_INV F = 20000000000000000"
proof -
  have "from_rational F 98 100 = 98 * DIV div 100"
    using assms by (simp add: fixed_u128_laws_def DIV_def)
  then show l: "LAMBDA F = 980000000000000000" by (simp add: LAMBDA_def DIV_def)
  have "from_u32 F 1 = DIV" using assms by (simp add: fixed_u128_laws_def)
  then show "LAMBDA_INV F = 20000000000000000"
    using assms by (simp add: LAMBDA_INV_def l fixed_u128_laws_def DIV_def)
qed

lemma lambda_pow_le:
  assumes "fixed_u128_laws F"
  shows "saturating_pow F (LAMBDA F) n \<le> DIV"
proof -
  have "LAMBDA F \<le> DIV" by (simp add: lambda_values [OF assms] DIV_def)
  then show ?thesis using assms unfolding fixed_u128_laws_def by blast
qed

lemma weight_Some:
  assumes "fixed_u128_laws F" and "(job + avg) * DIV < 2 ^ 128" and "0 < job + avg"
  shows "\<exists>w. weight F job (saturating_from_integer F avg) = Some w \<and> w \<le> DIV"
proof -
  have sat: "saturating_from_integer F n = n * DIV" if "n \<le> job + avg" for n
  proof -
    have "n * DIV \<le> (job + avg) * DIV" using that by simp
    with assms(2) have "n * DIV \<le> 2 ^ 128 - 1" by linarith
    moreover have "saturating_from_integer F n = min (n * DIV) (2 ^ 128 - 1)"
      using assms(1) unfolding fixed_u128_laws_def by blast
    ultimately show ?thesis by (metis min_absorb1)
  qed
  have q: "job * DIV * DIV div (avg * DIV + job * DIV) \<le> DIV"
  proof -
    have "job * DIV * DIV \<le> DIV * (avg * DIV + job * DIV)"
      by (simp add: algebra_simps)
    then have "job * DIV * DIV div (avg * DIV + job * DIV) \<le> DIV * (avg * DIV + job * DIV) div (avg * DIV + job * DIV)"
      by (rule div_le_mono)
    also have "\<dots> = DIV" using assms(3) by auto
    finally show ?thesis .
  qed
  moreover have "DIV < 2 ^ 128" by (simp add: DIV_def)
  ultimately have "fp_checked_div F (job * DIV) (avg * DIV + job * DIV)
      = Some (job * DIV * DIV div (avg * DIV + job * DIV))"
    using assms(1,3) by (auto simp: fixed_u128_laws_def)
  moreover have "fp_checked_add F (avg * DIV) (job * DIV) = Some (avg * DIV + job * DIV)"
    using assms(1,2) by (simp add: fixed_u128_laws_def algebra_simps)
  ultimately show ?thesis using q by (simp add: weight_def sat Let_def)
qed

lemma weighted_gain_Some:
  assumes "fixed_u128_laws F" and "w \<le> DIV" and "p \<le> DIV"
  shows "\<exists>g. weighted_gain F w p = Some g \<and> g \<le> 50 * (DIV - p)"
proof -
  have d: "fp_checked_sub F (from_u32 F 1) p = Some (DIV - p)"
    using assms(1,3) by (simp add: fixed_u128_laws_def)
  have e: "(DIV - p) * DIV div LAMBDA_INV F = 50 * (DIV - p)"
    by (simp add: lambda_values [OF assms(1)] DIV_def)
  have b: "50 * (DIV - p) < 2 ^ 128" by (simp add: DIV_def)
  have q: "fp_checked_div F (DIV - p) (LAMBDA_INV F) = Some (50 * (DIV - p))"
    using assms(1) b e lambda_values [OF assms(1)] by (simp add: fixed_u128_laws_def)
  have "w * (50 * (DIV - p)) div DIV \<le> DIV * (50 * (DIV - p)) div DIV"
    using assms(2) by (intro div_le_mono mult_le_mono1)
  then have m: "w * (50 * (DIV - p)) div DIV \<le> 50 * (DIV - p)" by simp
  then have "w * (50 * (DIV - p)) div DIV < 2 ^ 128" using b by linarith
  then have "fp_checked_mul F w (50 * (DIV - p)) = Some (w * (50 * (DIV - p)) div DIV)"
    using assms(1) by (simp add: fixed_u128_laws_def)
  with m show ?thesis by (simp add: weighted_gain_def d q del: One_nat_def)
qed

lemma fp_mul_le:
  assumes "fixed_u128_laws F" and "a \<le> 50 * DIV" and "p \<le> DIV"
  shows "\<exists>c. fp_checked_mul F a p = Some c \<and> c \<le> 50 * p \<and> c \<le> a"
proof -
  have "a * p div DIV \<le> 50 * DIV * p div DIV"
    using assms(2) by (intro div_le_mono mult_le_mono1)
  also have "50 * DIV * p div DIV = 50 * p" by (simp add: mult.commute mult.left_commute)
  finally have 1: "a * p div DIV \<le> 50 * p" .
  have "a * p div DIV \<le> a * DIV div DIV" using assms(3) by (intro div_le_mono mult_le_mono2)
  then have 2: "a * p div DIV \<le> a" by simp
  have "a < 2 ^ 128" using assms(2) by (simp add: DIV_def)
  with 2 have "fp_checked_mul F a p = Some (a * p div DIV)"
    using assms(1) by (simp add: fixed_u128_laws_def)
  with 1 2 show ?thesis by simp
qed

lemma fp_add_Some:
  assumes "fixed_u128_laws F" and "a + b \<le> 50 * DIV"
  shows "fp_checked_add F a b = Some (a + b)"
proof -
  have "a + b < 2 ^ 128" using assms(2) by (simp add: DIV_def)
  then show ?thesis using assms(1) by (simp add: fixed_u128_laws_def)
qed

section \<open>Properties\<close>



end
