(* ===== verification/Market_Types.thy ===== *)
theory Market_Types
  imports Payments Reputation
begin

text \<open>
  Data, storage and configuration of the marketplace pallet: \<open>pallets/marketplace/src/types.rs\<close>,
  \<open>traits.rs\<close> and the storage section of \<open>lib.rs\<close>.

  The storage extends that of pallet acurast, which the marketplace reads and writes. The maps
  \<open>StoredMatches\<close> and \<open>AssignedProcessors\<close> are iterated by their first key, so the second key is
  an association list, in the order of insertion (the storage's own order is that of the hashed
  keys; nothing proved here depends on it). The currency is part of the state.
\<close>

section \<open>Types\<close>

definition MAX_EXECUTIONS_PER_JOB :: u64 where
  "MAX_EXECUTIONS_PER_JOB = 6308000"

record planned_execution =
  pe_source :: account_id
  pe_start_delay :: u64

record job_requirements =
  slots :: u8
  reward :: balance
  min_reputation :: "u128 option"
  instant_match :: "planned_execution list option"

record registration_extra =
  requirements :: job_requirements

type_synonym market_registration = "registration_extra job_registration"

datatype scheduling_window = End u64 | Delta u64

record pricing =
  fee_per_millisecond :: balance
  fee_per_storage_byte :: balance
  base_fee_per_execution :: balance
  pr_scheduling_window :: scheduling_window

record advertisement =
  adv_pricing :: pricing
  adv_max_memory :: u32
  adv_network_request_quota :: u8
  adv_storage_capacity :: u32
  adv_allowed_consumers :: "multi_origin list option"
  adv_available_modules :: "job_module list"

record advertisement_restriction =
  max_memory :: u32
  network_request_quota :: u8
  storage_capacity :: u32
  allowed_consumers :: "multi_origin list option"
  available_modules :: "job_module list"

datatype pub_key = SECP256r1 bytes | SECP256k1 bytes | ED25519 bytes

record sla =
  sla_total :: u64
  sla_met :: u64

record assignment =
  slot :: u8
  as_start_delay :: u64
  fee_per_execution_of :: balance
  acknowledged :: bool
  assignment_sla :: sla
  pub_keys :: "pub_key list"

record job_assignment =
  ja_job_id :: job_id
  ja_job :: market_registration
  ja_assignment :: assignment

record match_for =
  match_job_id :: job_id
  match_sources :: "planned_execution list"

record partial_job_registration =
  pj_allowed_sources :: "account_id list option"
  pj_allow_only_verified_sources :: bool
  pj_schedule :: "schedule option"
  pj_memory :: "u32 option"
  pj_network_requests :: "u32 option"
  pj_storage :: "u32 option"
  pj_required_modules :: "job_module list"
  pj_slots :: "u8 option"
  pj_reward :: balance
  pj_min_reputation :: "u128 option"

datatype execution_result = Success bytes | Failure bytes

datatype market_event =
    JobRegistrationMatched match_for
  | JobRegistrationAssigned job_id account_id assignment
  | Reported job_id account_id assignment
  | AdvertisementStored advertisement account_id
  | AdvertisementRemoved account_id
  | ExecutionSuccess job_id bytes
  | ExecutionFailure job_id bytes
  | JobFinalized job_id

datatype runtime_api_error = FilterMatchingSources | MatchedJobs

section \<open>Storage\<close>

record 'c market_state = "registration_extra acurast_state" +
  stored_job_status :: "job_id \<rightharpoonup> job_status"
  stored_advertisement_restriction :: "account_id \<rightharpoonup> advertisement_restriction"
  stored_advertisement_pricing :: "account_id \<rightharpoonup> pricing"
  stored_storage_capacity :: "account_id \<rightharpoonup> i64"
  stored_reputation :: "account_id \<rightharpoonup> beta_parameters"
  stored_total_assigned :: "u128 option"
  stored_average_reward :: "u128 option"
  stored_matches :: "account_id \<Rightarrow> (job_id \<times> assignment) list"
  assigned_processors :: "job_id \<Rightarrow> (account_id \<times> unit) list"
  job_budgets :: job_budgets_map
  market_currency :: 'c
  market_events :: "market_event list"

section \<open>Configuration\<close>

text \<open>
  \<open>merge_bounds\<close> is \<open>Itertools::merge\<close> on the execution bounds of two schedules. \<open>manager_of\<close>
  and \<open>last_seen\<close> are the provider traits; \<open>assign_job\<close> and \<open>finalize_job_hook\<close> are the
  \<open>MarketplaceHooks\<close>, which act on the state of other pallets.
\<close>

type_synonym exec_bounds = "(u64 \<times> u64) option"

record ('c, 'z) market_config =
  mp_max_slots :: u32
  mp_max_allowed_sources :: u32
  report_tolerance :: u64
  fixed_point :: fixed_ops
  payments :: "'c payment_config"
  merge_bounds :: "exec_bounds list \<Rightarrow> exec_bounds list \<Rightarrow> exec_bounds list"
  manager_of :: "account_id \<Rightarrow> runtime_dispatch_error + account_id"
  last_seen :: "account_id \<Rightarrow> u128 option"
  assign_job :: "job_id \<Rightarrow> pub_key list \<Rightarrow> ('c, 'z) market_state_scheme \<Rightarrow>
      runtime_dispatch_error + ('c, 'z) market_state_scheme"
  finalize_job_hook :: "job_id \<Rightarrow> balance \<Rightarrow> ('c, 'z) market_state_scheme \<Rightarrow>
      runtime_dispatch_error + ('c, 'z) market_state_scheme"

text \<open>\<open>impl MarketplaceHooks<T> for ()\<close>.\<close>

definition unit_assign_job :: "job_id \<Rightarrow> pub_key list \<Rightarrow> 's \<Rightarrow> runtime_dispatch_error + 's" where
  "unit_assign_job job_id keys s = Inr s"

definition unit_finalize_job :: "job_id \<Rightarrow> balance \<Rightarrow> 's \<Rightarrow> runtime_dispatch_error + 's" where
  "unit_finalize_job job_id refund_amount s = Inr s"

section \<open>Helpers\<close>

definition deposit_market_event :: "market_event \<Rightarrow> ('c, 'z) market_state_scheme \<Rightarrow> ('c, 'z) market_state_scheme" where
  "deposit_market_event e s = s\<lparr>market_events := market_events s @ [e]\<rparr>"

definition set_status :: "job_id \<Rightarrow> job_status option \<Rightarrow> ('c, 'z) market_state_scheme \<Rightarrow> ('c, 'z) market_state_scheme" where
  "set_status job_id st s = s\<lparr>stored_job_status := (stored_job_status s)(job_id := st)\<rparr>"

definition get_match :: "account_id \<Rightarrow> job_id \<Rightarrow> ('c, 'z) market_state_scheme \<Rightarrow> assignment option" where
  "get_match p job_id s = map_of (stored_matches s p) job_id"

definition put_match :: "account_id \<Rightarrow> job_id \<Rightarrow> assignment \<Rightarrow> ('c, 'z) market_state_scheme \<Rightarrow> ('c, 'z) market_state_scheme" where
  "put_match p job_id a s =
     s\<lparr>stored_matches := (stored_matches s)(p := AList.update job_id a (stored_matches s p))\<rparr>"

definition remove_match :: "account_id \<Rightarrow> job_id \<Rightarrow> ('c, 'z) market_state_scheme \<Rightarrow> ('c, 'z) market_state_scheme" where
  "remove_match p job_id s =
     s\<lparr>stored_matches := (stored_matches s)(p := AList.delete job_id (stored_matches s p))\<rparr>"

definition assigned_to :: "job_id \<Rightarrow> ('c, 'z) market_state_scheme \<Rightarrow> account_id list" where
  "assigned_to job_id s = map fst (assigned_processors s job_id)"

text \<open>\<open>*c = c.unwrap_or(0).checked_add(storage)\<close>: an overflow removes the entry.\<close>

definition release_capacity :: "account_id \<Rightarrow> u32 \<Rightarrow> ('c, 'z) market_state_scheme \<Rightarrow> ('c, 'z) market_state_scheme" where
  "release_capacity p amount s =
     s\<lparr>stored_storage_capacity := (stored_storage_capacity s)
        (p := checked_i64 (unwrap_or (stored_storage_capacity s p) 0 + int amount))\<rparr>"

text \<open>\<open>clear_prefix\<close> on \<open>AssignedProcessors\<close>, limited to \<open>MaxSlots\<close> entries.\<close>

definition clear_assigned :: "u32 \<Rightarrow> job_id \<Rightarrow> ('c, 'z) market_state_scheme \<Rightarrow> ('c, 'z) market_state_scheme" where
  "clear_assigned max_slots job_id s =
     s\<lparr>assigned_processors := (assigned_processors s)
        (job_id := drop max_slots (assigned_processors s job_id))\<rparr>"

text \<open>The reward manager acts on the budgets and the currency of the state.\<close>

definition with_funds ::
  "(job_budgets_map \<times> 'c \<Rightarrow> runtime_dispatch_error + job_budgets_map \<times> 'c) \<Rightarrow>
   ('c, 'z) market_state_scheme \<Rightarrow> runtime_dispatch_error + ('c, 'z) market_state_scheme" where
  "with_funds f s =
     bind_r (f (job_budgets s, market_currency s)) (\<lambda>(b, c).
     Inr (s\<lparr>job_budgets := b, market_currency := c\<rparr>))"

definition refund_job ::
  "('c, 'z) market_config \<Rightarrow> job_id \<Rightarrow> ('c, 'z) market_state_scheme \<Rightarrow>
   runtime_dispatch_error + balance \<times> ('c, 'z) market_state_scheme" where
  "refund_job cfg job_id s =
     bind_r (refund job_budget_ops (payments cfg) job_id (job_budgets s, market_currency s))
       (\<lambda>(r, b, c). Inr (r, s\<lparr>job_budgets := b, market_currency := c\<rparr>))"

end
