(* ===== verification/Matching.thy ===== *)
theory Matching
  imports Market_Types
begin

text \<open>
  Matching of jobs to processors, \<open>pallets/marketplace/src/lib.rs\<close> and \<open>utils.rs\<close>: the checks of
  a proposed match (\<open>check_scheduling_window\<close>, \<open>check_network_request_quota_sufficient\<close>,
  \<open>check_min_reputation\<close>, \<open>fits_schedule\<close>, the whitelists), the fee and reward amounts,
  \<open>process_matching\<close>, and the runtime API's \<open>check\<close> and \<open>filter_matching_sources\<close>.
\<close>

section \<open>Whitelists and errors\<close>

definition is_consumer_whitelisted :: "multi_origin \<Rightarrow> multi_origin list option \<Rightarrow> bool" where
  "is_consumer_whitelisted consumer allowed = unwrap_or (map_option (\<lambda>cs. consumer \<in> set cs) allowed) True"

definition is_source_whitelisted :: "account_id \<Rightarrow> account_id list option \<Rightarrow> bool" where
  "is_source_whitelisted source allowed = unwrap_or (map_option (\<lambda>ss. source \<in> set ss) allowed) True"

fun is_matching_error :: "market_error \<Rightarrow> bool" where
  "is_matching_error OverdueMatch = True"
| "is_matching_error IncorrectSourceCountInMatch = True"
| "is_matching_error DuplicateSourceInMatch = True"
| "is_matching_error UnverifiedSourceInMatch = True"
| "is_matching_error SchedulingWindowExceededInMatch = True"
| "is_matching_error MaxMemoryExceededInMatch = True"
| "is_matching_error NetworkRequestQuotaExceededInMatch = True"
| "is_matching_error InsufficientStorageCapacityInMatch = True"
| "is_matching_error SourceNotAllowedInMatch = True"
| "is_matching_error ConsumerNotAllowedInMatch = True"
| "is_matching_error InsufficientRewardInMatch = True"
| "is_matching_error InsufficientReputationInMatch = True"
| "is_matching_error ScheduleOverlapInMatch = True"
| "is_matching_error ModuleNotAvailableInMatch = True"
| "is_matching_error (PalletAcurast e) =
     (e \<in> {FulfillSourceNotAllowed, FulfillSourceNotVerified, AttestationCertificateNotValid,
           AttestationUsageExpired, RevokedCertificate})"
| "is_matching_error CapacityNotFound = True"
| "is_matching_error _ = False"

section \<open>Time and amounts\<close>

definition market_now :: "('c, 'z) market_state_scheme \<Rightarrow> market_error + u64" where
  "market_now s = map_err PalletAcurast (now_millis s)"

definition total_reward_amount :: "market_registration \<Rightarrow> market_error + balance" where
  "total_reward_amount registration =
     (let r = requirements (extra registration) in
      bind_r (ok_or (checked_mul 128 (reward r) (slots r)) CalculationOverflow) (\<lambda>x.
      ok_or (checked_mul 128 x (execution_count (job_schedule registration))) CalculationOverflow))"

definition fee_per_execution :: "schedule \<Rightarrow> u32 \<Rightarrow> pricing \<Rightarrow> market_error + balance" where
  "fee_per_execution sch storage_bytes pricing =
     bind_r (ok_or (checked_mul 128 (fee_per_millisecond pricing) (duration sch)) CalculationOverflow) (\<lambda>a.
     bind_r (ok_or (checked_mul 128 (fee_per_storage_byte pricing) storage_bytes) CalculationOverflow) (\<lambda>b.
     bind_r (ok_or (checked_add 128 a b) CalculationOverflow) (\<lambda>c.
     ok_or (checked_add 128 c (base_fee_per_execution pricing)) CalculationOverflow)))"

section \<open>Checks\<close>

definition check_scheduling_window :: "scheduling_window \<Rightarrow> schedule \<Rightarrow> u64 \<Rightarrow> u64 \<Rightarrow> market_error + unit" where
  "check_scheduling_window window sch now start_delay =
     (case window of
        End e \<Rightarrow>
          bind_r (ok_or (checked_add 64 (end_time sch) start_delay) CalculationOverflow) (\<lambda>latest.
          ensure (e \<ge> latest) SchedulingWindowExceededInMatch)
      | Delta delta \<Rightarrow>
          bind_r (ok_or (checked_add 64 now delta) CalculationOverflow) (\<lambda>e.
          bind_r (ok_or (checked_add 64 (end_time sch) start_delay) CalculationOverflow) (\<lambda>latest.
          ensure (e \<ge> latest) SchedulingWindowExceededInMatch)))"

definition check_network_request_quota_sufficient ::
  "advertisement_restriction \<Rightarrow> schedule \<Rightarrow> u32 \<Rightarrow> market_error + unit" where
  "check_network_request_quota_sufficient ad sch requests =
     ensure (unwrap_or (checked_mul 64 (duration sch) (network_request_quota ad)) 0
             \<ge> unwrap_or (checked_mul 64 requests 1000) (2 ^ 64 - 1))
       NetworkRequestQuotaExceededInMatch"

definition check_min_reputation ::
  "fixed_ops \<Rightarrow> u128 option \<Rightarrow> account_id \<Rightarrow> ('c, 'z) market_state_scheme \<Rightarrow> market_error + unit" where
  "check_min_reputation F min_rep source s =
     (case min_rep of
        None \<Rightarrow> Inr ()
      | Some m \<Rightarrow>
          bind_r (ok_or (stored_reputation s source) ReputationNotFound) (\<lambda>beta_params.
          bind_r (ok_or (normalize F beta_params) CalculationOverflow) (\<lambda>reputation.
          ensure (reputation \<ge> permill_from_parts F (m mod 2 ^ 32)) InsufficientReputationInMatch)))"

fun check_modules :: "job_module list \<Rightarrow> advertisement_restriction \<Rightarrow> market_error + unit" where
  "check_modules [] ad = Inr ()"
| "check_modules (m # ms) ad =
     bind_r (ensure (m \<in> set (available_modules ad)) ModuleNotAvailableInMatch) (\<lambda>_. check_modules ms ad)"

definition has_matches :: "account_id \<Rightarrow> ('c, 'z) market_state_scheme \<Rightarrow> bool" where
  "has_matches source s \<longleftrightarrow> stored_matches s source \<noteq> []"

text \<open>
  The items of a schedule's iterator. With a positive interval \<open>execution_count + 1\<close> calls of
  \<open>next\<close> see its end. With interval 0 the iterator repeats the start for ever: two items decide
  the loop of \<open>fits_schedule\<close>, which stops at the second one, unless the duration is 0 too (a
  schedule that \<open>register_hook\<close> rejects), for which the code's loop does not end.
\<close>

definition schedule_items :: "schedule \<Rightarrow> schedule_iter \<Rightarrow> u64 list" where
  "schedule_items sch it = iter_items (if interval sch = 0 then 2 else Suc (execution_count sch)) it"

definition exec_bounds_of :: "schedule \<Rightarrow> u64 \<Rightarrow> exec_bounds" where
  "exec_bounds_of sch start =
     do { e \<leftarrow> checked_add 64 start (duration sch); Some (start, e) }"

text \<open>The \<open>try_fold\<close> over the merged bounds.\<close>

fun check_bounds :: "u64 \<Rightarrow> exec_bounds list \<Rightarrow> market_error + unit" where
  "check_bounds prev_end [] = Inr ()"
| "check_bounds prev_end (None # rest) = Inl CalculationOverflow"
| "check_bounds prev_end (Some (start, e) # rest) =
     (if prev_end > start then Inl ScheduleOverlapInMatch else check_bounds e rest)"

fun fits_schedule_loop ::
  "('c, 'z) market_config \<Rightarrow> schedule \<Rightarrow> u64 \<Rightarrow> (job_id \<times> assignment) list \<Rightarrow>
   ('c, 'z) market_state_scheme \<Rightarrow> market_error + unit" where
  "fits_schedule_loop cfg sch start_delay [] s = Inr ()"
| "fits_schedule_loop cfg sch start_delay ((job_id, assignment) # rest) s =
     bind_r (ok_or (stored_job_registration s job_id) (PalletAcurast JobRegistrationNotFound)) (\<lambda>other.
     if start_time sch \<ge> end_time (job_schedule other) \<or> end_time sch \<le> start_time (job_schedule other)
     then fits_schedule_loop cfg sch start_delay rest s
     else
       bind_r (ok_or (schedule_iter_of sch start_delay) CalculationOverflow) (\<lambda>it.
       bind_r (ok_or (schedule_iter_of (job_schedule other) (as_start_delay assignment)) CalculationOverflow)
         (\<lambda>other_it.
       bind_r (check_bounds 0 (merge_bounds cfg
                 (map (exec_bounds_of sch) (schedule_items sch it))
                 (map (exec_bounds_of (job_schedule other)) (schedule_items (job_schedule other) other_it))))
         (\<lambda>_. fits_schedule_loop cfg sch start_delay rest s))))"

definition fits_schedule ::
  "('c, 'z) market_config \<Rightarrow> account_id \<Rightarrow> schedule \<Rightarrow> u64 \<Rightarrow> ('c, 'z) market_state_scheme \<Rightarrow>
   market_error + unit" where
  "fits_schedule cfg source sch start_delay s =
     fits_schedule_loop cfg sch start_delay (stored_matches s source) s"

section \<open>process_matching\<close>

text \<open>
  One turn of the inner loop: the checks of a proposed source for a slot, and its assignment. The
  accumulator is the total fee.
\<close>

definition match_source ::
  "('c, 'z) market_config \<Rightarrow> u64 \<Rightarrow> market_registration \<Rightarrow> job_id \<Rightarrow> nat \<times> planned_execution \<Rightarrow>
   balance \<times> ('c, 'z) market_state_scheme \<Rightarrow> market_error + balance \<times> ('c, 'z) market_state_scheme" where
  "match_source cfg now registration job_id = (\<lambda>(slot_index, planned). \<lambda>(total_fee, s).
     let source = pe_source planned; sch = job_schedule registration;
         reqs = requirements (extra registration) in
     bind_r (ensure (\<not> allow_only_verified_sources registration \<or> is_ok (ensure_source_verified source s))
               UnverifiedSourceInMatch) (\<lambda>_.
     bind_r (ok_or (stored_advertisement_restriction s source) AdvertisementNotFound) (\<lambda>ad.
     bind_r (check_modules (required_modules registration) ad) (\<lambda>_.
     bind_r (ok_or (stored_advertisement_pricing s source) AdvertisementPricingNotFound) (\<lambda>pricing.
     bind_r (check_scheduling_window (pr_scheduling_window pricing) sch now (pe_start_delay planned)) (\<lambda>_.
     bind_r (ensure (max_memory ad \<ge> memory registration) MaxMemoryExceededInMatch) (\<lambda>_.
     bind_r (check_network_request_quota_sufficient ad sch (network_requests registration)) (\<lambda>_.
     bind_r (ok_or (stored_storage_capacity s source) CapacityNotFound) (\<lambda>capacity.
     bind_r (ensure (capacity \<ge> int (storage registration)) InsufficientStorageCapacityInMatch) (\<lambda>_.
     bind_r (ensure (is_source_whitelisted source (allowed_sources registration)) SourceNotAllowedInMatch) (\<lambda>_.
     bind_r (ensure (is_consumer_whitelisted (fst job_id) (allowed_consumers ad)) ConsumerNotAllowedInMatch) (\<lambda>_.
     bind_r (check_min_reputation (fixed_point cfg) (min_reputation reqs) source s) (\<lambda>_.
     bind_r (fits_schedule cfg source sch (pe_start_delay planned) s) (\<lambda>_.
     bind_r (fee_per_execution sch (storage registration) pricing) (\<lambda>fee.
     bind_r (ensure (fee \<le> reward reqs) InsufficientRewardInMatch) (\<lambda>_.
     bind_r (ok_or (checked_mul 128 fee (execution_count sch)) CalculationOverflow) (\<lambda>fees.
     bind_r (ok_or (checked_add 128 total_fee fees) CalculationOverflow) (\<lambda>total_fee'.
     bind_r (ensure (get_match source job_id s = None) DuplicateSourceInMatch) (\<lambda>_.
     let s1 = put_match source job_id
           \<lparr>slot = slot_index mod 2 ^ 8, as_start_delay = pe_start_delay planned,
            fee_per_execution_of = fee, acknowledged = False,
            assignment_sla = \<lparr>sla_total = execution_count sch, sla_met = 0\<rparr>, pub_keys = []\<rparr> s;
         s2 = s1\<lparr>assigned_processors := (assigned_processors s1)
               (job_id := AList.update source () (assigned_processors s1 job_id))\<rparr>;
         s3 = s2\<lparr>stored_storage_capacity := (stored_storage_capacity s2)
               (source := checked_i64 (capacity - int (storage registration)))\<rparr>
     in Inr (total_fee', s3))))))))))))))))))))"

definition lift_mp :: "market_error + 'a \<Rightarrow> runtime_dispatch_error + 'a" where
  "lift_mp = map_err mp_err"

text \<open>One turn of the outer loop; a job that is not open is skipped.\<close>

definition process_match ::
  "('c, 'z) market_config \<Rightarrow> match_for \<Rightarrow> (job_id \<times> balance) list \<times> ('c, 'z) market_state_scheme \<Rightarrow>
   runtime_dispatch_error + (job_id \<times> balance) list \<times> ('c, 'z) market_state_scheme" where
  "process_match cfg m = (\<lambda>(remaining_rewards, s).
     let job_id = match_job_id m in
     bind_r (ok_or (stored_job_status s job_id) (mp_err JobStatusNotFound)) (\<lambda>job_status.
     if job_status \<noteq> Open then Inr (remaining_rewards, s)
     else
       bind_r (ok_or (stored_job_registration s job_id) (ac_err JobRegistrationNotFound)) (\<lambda>registration.
       bind_r (lift_mp (market_now s)) (\<lambda>now.
       bind_r (ensure (now < start_time (job_schedule registration)) (mp_err OverdueMatch)) (\<lambda>_.
       let l = (if length (match_sources m) < 2 ^ 8 then length (match_sources m) else 0) in
       bind_r (ensure (l = slots (requirements (extra registration))) (mp_err IncorrectSourceCountInMatch)) (\<lambda>_.
       bind_r (lift_mp (fold_r (match_source cfg now registration job_id)
                 (enumerate 0 (match_sources m)) (0, s))) (\<lambda>(total_fee, s1).
       bind_r (lift_mp (total_reward_amount registration)) (\<lambda>total.
       bind_r (ok_or (checked_sub total total_fee) (mp_err InsufficientRewardInMatch)) (\<lambda>diff.
       let s2 = s1\<lparr>stored_total_assigned :=
                 Some (saturating_add 128 (unwrap_or (stored_total_assigned s1) 0) 1)\<rparr>;
           s3 = set_status job_id (Some Matched) s2
       in Inr (remaining_rewards @ [(job_id, diff)],
               deposit_market_event (JobRegistrationMatched m) s3))))))))))"

definition process_matching ::
  "('c, 'z) market_config \<Rightarrow> match_for list \<Rightarrow> ('c, 'z) market_state_scheme \<Rightarrow>
   runtime_dispatch_error + (job_id \<times> balance) list \<times> ('c, 'z) market_state_scheme" where
  "process_matching cfg matching s = fold_r (process_match cfg) matching ([], s)"

section \<open>The runtime API\<close>

definition check ::
  "('c, 'z) market_config \<Rightarrow> partial_job_registration \<Rightarrow> account_id \<Rightarrow> multi_origin option \<Rightarrow>
   ('c, 'z) market_state_scheme \<Rightarrow> market_error + unit" where
  "check cfg registration source consumer s =
     bind_r (ensure (\<not> pj_allow_only_verified_sources registration \<or> is_ok (ensure_source_verified source s))
               UnverifiedSourceInMatch) (\<lambda>_.
     bind_r (ok_or (stored_advertisement_restriction s source) AdvertisementNotFound) (\<lambda>ad.
     bind_r (check_modules (pj_required_modules registration) ad) (\<lambda>_.
     bind_r (ok_or (stored_advertisement_pricing s source) AdvertisementPricingNotFound) (\<lambda>pricing.
     bind_r (case pj_schedule registration of
               None \<Rightarrow> Inr ()
             | Some sch \<Rightarrow>
                 bind_r (market_now s) (\<lambda>now.
                 bind_r (ensure (now < start_time sch) OverdueMatch) (\<lambda>_.
                 bind_r (check_scheduling_window (pr_scheduling_window pricing) sch now 0) (\<lambda>_.
                 bind_r (fits_schedule cfg source sch 0 s) (\<lambda>_.
                 bind_r (case pj_network_requests registration of
                           None \<Rightarrow> Inr ()
                         | Some requests \<Rightarrow> check_network_request_quota_sufficient ad sch requests) (\<lambda>_.
                 case pj_storage registration of
                   None \<Rightarrow> Inr ()
                 | Some bytes \<Rightarrow>
                     bind_r (fee_per_execution sch bytes pricing) (\<lambda>fee.
                     ensure (fee \<le> pj_reward registration) InsufficientRewardInMatch))))))) (\<lambda>_.
     bind_r (case pj_memory registration of
               None \<Rightarrow> Inr ()
             | Some mem \<Rightarrow> ensure (max_memory ad \<ge> mem) MaxMemoryExceededInMatch) (\<lambda>_.
     bind_r (case pj_storage registration of
               None \<Rightarrow> Inr ()
             | Some bytes \<Rightarrow>
                 bind_r (ok_or (stored_storage_capacity s source) CapacityNotFound) (\<lambda>capacity.
                 ensure (capacity \<ge> int bytes) InsufficientStorageCapacityInMatch)) (\<lambda>_.
     bind_r (ensure (is_source_whitelisted source (pj_allowed_sources registration)) SourceNotAllowedInMatch) (\<lambda>_.
     bind_r (case consumer of
               None \<Rightarrow> Inr ()
             | Some c \<Rightarrow> ensure (is_consumer_whitelisted c (allowed_consumers ad)) ConsumerNotAllowedInMatch) (\<lambda>_.
     check_min_reputation (fixed_point cfg) (pj_min_reputation registration) source s)))))))))"

definition seen_recently :: "('c, 'z) market_config \<Rightarrow> u128 option \<Rightarrow> account_id \<Rightarrow> bool" where
  "seen_recently cfg latest_seen_after p =
     (case latest_seen_after of
        Some t \<Rightarrow> unwrap_or (map_option (\<lambda>seen. seen \<ge> t) (last_seen cfg p)) False
      | None \<Rightarrow> True)"

fun filter_matching_sources ::
  "('c, 'z) market_config \<Rightarrow> partial_job_registration \<Rightarrow> account_id list \<Rightarrow> multi_origin option \<Rightarrow>
   u128 option \<Rightarrow> ('c, 'z) market_state_scheme \<Rightarrow> runtime_api_error + account_id list" where
  "filter_matching_sources cfg registration [] consumer latest_seen_after s = Inr []"
| "filter_matching_sources cfg registration (p # sources) consumer latest_seen_after s =
     (case check cfg registration p consumer s of
        Inr _ \<Rightarrow>
          bind_r (filter_matching_sources cfg registration sources consumer latest_seen_after s)
            (\<lambda>candidates. Inr (if seen_recently cfg latest_seen_after p then p # candidates else candidates))
      | Inl e \<Rightarrow>
          if \<not> is_matching_error e then Inl FilterMatchingSources
          else filter_matching_sources cfg registration sources consumer latest_seen_after s)"

fun stored_matches_for_source_loop ::
  "(job_id \<times> assignment) list \<Rightarrow> ('c, 'z) market_state_scheme \<Rightarrow> runtime_api_error + job_assignment list" where
  "stored_matches_for_source_loop [] s = Inr []"
| "stored_matches_for_source_loop ((j, a) # rest) s =
     bind_r (ok_or (stored_job_registration s j) MatchedJobs) (\<lambda>job.
     bind_r (stored_matches_for_source_loop rest s) (\<lambda>js.
     Inr (\<lparr>ja_job_id = j, ja_job = job, ja_assignment = a\<rparr> # js)))"

definition stored_matches_for_source ::
  "account_id \<Rightarrow> ('c, 'z) market_state_scheme \<Rightarrow> runtime_api_error + job_assignment list" where
  "stored_matches_for_source source s = stored_matches_for_source_loop (stored_matches s source) s"

section \<open>Specification of the schedule check\<close>

text \<open>\<open>Itertools::merge\<close> of two sorted iterators is the sorted iterator of all their items.\<close>

definition merge_laws :: "('c, 'z) market_config \<Rightarrow> bool" where
  "merge_laws cfg \<longleftrightarrow> (\<forall>xs ys. mset (merge_bounds cfg xs ys) = mset xs + mset ys \<and>
     (sorted xs \<longrightarrow> sorted ys \<longrightarrow> sorted (merge_bounds cfg xs ys)))"

text \<open>A schedule that \<open>register_hook\<close> accepts, all of whose delayed executions end below \<open>2 ^ 64\<close>.\<close>

definition schedule_fits_u64 :: "schedule \<Rightarrow> u64 \<Rightarrow> bool" where
  "schedule_fits_u64 sch d \<longleftrightarrow> 0 < duration sch \<and> duration sch < interval sch \<and>
     start_time sch \<le> end_time sch \<and> end_time sch + d + duration sch < 2 ^ 64"

definition executions_disjoint :: "schedule \<Rightarrow> u64 \<Rightarrow> schedule \<Rightarrow> u64 \<Rightarrow> bool" where
  "executions_disjoint s1 d1 s2 d2 \<longleftrightarrow>
     (\<forall>k < execution_count s1. \<forall>l < execution_count s2.
        exec_start s1 d1 k + duration s1 \<le> exec_start s2 d2 l \<or>
        exec_start s2 d2 l + duration s2 \<le> exec_start s1 d1 k)"

definition periods_apart :: "schedule \<Rightarrow> schedule \<Rightarrow> bool" where
  "periods_apart s1 s2 \<longleftrightarrow> end_time s2 \<le> start_time s1 \<or> end_time s1 \<le> start_time s2"

definition bounds_list :: "schedule \<Rightarrow> u64 \<Rightarrow> (u64 \<times> u64) list" where
  "bounds_list sch d = map (\<lambda>k. (exec_start sch d k, exec_start sch d k + duration sch)) [0..<execution_count sch]"

section \<open>Lemmas on the merged bounds\<close>

lemma check_bounds_iff:
  assumes "\<forall>(a, b) \<in> set xs. a \<le> b"
  shows "check_bounds p (map Some xs) = Inr () \<longleftrightarrow>
    (\<forall>x \<in> set xs. p \<le> fst x) \<and> sorted_wrt (\<lambda>x y. snd x \<le> fst y) xs"
  using assms
proof (induction xs arbitrary: p)
  case (Cons x xs)
  obtain a b where x: "x = (a, b)" by (cases x)
  have IH: "check_bounds b (map Some xs) = Inr () \<longleftrightarrow>
      (\<forall>x \<in> set xs. b \<le> fst x) \<and> sorted_wrt (\<lambda>x y. snd x \<le> fst y) xs"
    using Cons by simp
  have "a \<le> b" using Cons.prems by (simp add: x)
  then show ?case by (auto simp: x IH intro: le_trans)
qed simp

text \<open>An item of each of two merged lists occurs at a position of its own.\<close>

lemma two_positions:
  assumes "mset zs = mset xs + mset ys" and "x \<in> set xs" and "y \<in> set ys"
  obtains us vs ws where "zs = us @ x # vs @ y # ws" | us vs ws where "zs = us @ y # vs @ x # ws"
proof -
  have "x \<in> set zs" using assms(1,2) by (metis UnCI set_mset_mset set_mset_union)
  then obtain ps qs where zs: "zs = ps @ x # qs" by (meson split_list)
  obtain xs1 xs2 where xs: "xs = xs1 @ x # xs2" using assms(2) by (meson split_list)
  have "mset (ps @ qs) = mset (xs1 @ xs2) + mset ys" using assms(1) by (simp add: zs xs)
  then have "y \<in> set ps \<union> set qs"
    using assms(3) by (metis UnCI set_append set_mset_mset set_mset_union)
  then show thesis
  proof
    assume "y \<in> set ps"
    then obtain p1 p2 where "ps = p1 @ y # p2" by (meson split_list)
    then show thesis using that(2) [of p1 p2 qs] by (simp add: zs)
  next
    assume "y \<in> set qs"
    then obtain q1 q2 where "qs = q1 @ y # q2" by (meson split_list)
    then show thesis using that(1) [of ps q1 q2] by (simp add: zs)
  qed
qed

lemma sorted_map_Some: "sorted (map Some xs) = sorted xs" for xs :: "('a :: linorder) list"
  by (simp add: sorted_map)

lemma bounds_list_sorted: "sorted (bounds_list sch d)"
  unfolding bounds_list_def
  by (rule sorted_wrt_mono_rel [of _ "\<lambda>x y. fst x \<le> fst y \<and> snd x \<le> snd y", unfolded sorted_wrt_map])
    (auto simp: less_eq_prod_def exec_start_mono sorted_wrt_iff_nth_less)

lemma bounds_list_spaced:
  assumes "duration sch < interval sch"
  shows "sorted_wrt (\<lambda>x y. snd x \<le> fst y) (bounds_list sch d)"
proof -
  have "exec_start sch d k + duration sch \<le> exec_start sch d l" if "k < l" for k l
  proof -
    have "Suc k * interval sch \<le> l * interval sch" using that by (intro mult_le_mono1) simp
    then show ?thesis using assms by (simp add: exec_start_def)
  qed
  then show ?thesis
    by (simp add: bounds_list_def sorted_wrt_map sorted_wrt_iff_nth_less)
qed

lemma sorted_disjoint_spaced:
  fixes xs ys zs :: "(nat \<times> nat) list"
  assumes "sorted zs" and "mset zs = mset xs + mset ys"
    and "\<forall>(a, b) \<in> set zs. a < b"
    and "sorted_wrt (\<lambda>x y. snd x \<le> fst y) xs" and "sorted_wrt (\<lambda>x y. snd x \<le> fst y) ys"
    and "\<forall>x \<in> set xs. \<forall>y \<in> set ys. snd x \<le> fst y \<or> snd y \<le> fst x"
  shows "sorted_wrt (\<lambda>x y. snd x \<le> fst y) zs"
  using assms
proof (induction zs arbitrary: xs ys)
  case (Cons z zs)
  have pos: "fst z < snd z" using Cons.prems(3) by (auto split: prod.splits)
  have le: "fst z \<le> fst w" if "w \<in> set zs" for w
    using Cons.prems(1) that by (auto simp: less_eq_prod_def)
  have spaced: "snd z \<le> fst w" if "w \<in> set zs" and "snd z \<le> fst w \<or> snd w \<le> fst z" for w
  proof -
    have "fst w < snd w" using Cons.prems(3) that(1) by (auto split: prod.splits)
    then show ?thesis using that(2) le [OF that(1)] by linarith
  qed
  have aux: "sorted_wrt (\<lambda>x y. snd x \<le> fst y) (z # zs)"
    if m: "mset zs = mset (as1 @ as2) + mset bs" and as: "sorted_wrt (\<lambda>x y. snd x \<le> fst y) (as1 @ z # as2)"
      and bs: "sorted_wrt (\<lambda>x y. snd x \<le> fst y) bs"
      and dis: "\<forall>x \<in> set (as1 @ z # as2). \<forall>y \<in> set bs. snd x \<le> fst y \<or> snd y \<le> fst x" for as1 as2 bs
  proof -
    have "snd z \<le> fst w" if w: "w \<in> set zs" for w
    proof -
      have "w \<in> set as1 \<union> set as2 \<union> set bs" using m w by (metis set_append set_mset_mset set_mset_union)
      then have "snd z \<le> fst w \<or> snd w \<le> fst z" using as dis by (auto simp: sorted_wrt_append)
      then show ?thesis by (rule spaced [OF w])
    qed
    moreover have "sorted_wrt (\<lambda>x y. snd x \<le> fst y) zs"
      using Cons.prems(1,3) m as bs dis
      by (intro Cons.IH [of "as1 @ as2" bs]) (auto simp: sorted_wrt_append)
    ultimately show ?thesis by simp
  qed
  have "z \<in> set xs \<union> set ys" using Cons.prems(2) by (metis list.set_intros(1) set_mset_mset set_mset_union)
  then show ?case
  proof
    assume "z \<in> set xs"
    then obtain x1 x2 where x: "xs = x1 @ z # x2" by (meson split_list)
    show ?thesis using Cons.prems by (intro aux [of x1 x2 ys]) (simp_all add: x)
  next
    assume "z \<in> set ys"
    then obtain y1 y2 where y: "ys = y1 @ z # y2" by (meson split_list)
    show ?thesis using Cons.prems by (intro aux [of y1 y2 xs]) (auto simp: y ac_simps)
  qed
qed simp

lemma exec_start_less_end:
  assumes "k < execution_count s" and "end_time s < 2 ^ 64"
  shows "exec_start s d k < end_time s + d"
proof -
  have c: "start_time s < end_time s" "0 < interval s" "k \<le> (end_time s - start_time s - 1) div interval s"
    using assms execution_count_eq [OF assms(2)] by (auto split: if_splits)
  then have "k * interval s \<le> (end_time s - start_time s - 1) div interval s * interval s"
    by (intro mult_le_mono1)
  also have "\<dots> \<le> end_time s - start_time s - 1" by simp
  finally show ?thesis using c(1) by (simp add: exec_start_def)
qed

lemma schedule_bounds:
  assumes "schedule_fits_u64 sch d"
  obtains it where "schedule_iter_of sch d = Some it"
    and "map (exec_bounds_of sch) (schedule_items sch it) = map Some (bounds_list sch d)"
proof -
  from assms have e: "end_time sch < 2 ^ 64" "0 < interval sch" by (auto simp: schedule_fits_u64_def)
  obtain it where it: "schedule_iter_of sch d = Some it"
    using assms by (auto simp: schedule_iter_of_def schedule_fits_u64_def checked_add_def)
  have "exec_bounds_of sch (exec_start sch d k) = Some (exec_start sch d k, exec_start sch d k + duration sch)"
    if "k < execution_count sch" for k
    using exec_start_less_end [OF that e(1), of d] assms
    by (simp add: exec_bounds_of_def schedule_fits_u64_def checked_add_def)
  moreover have "schedule_items sch it = map (exec_start sch d) [0..<execution_count sch]"
    using iter_items_schedule [OF it e(2) order_refl] e(2) by (simp add: schedule_items_def)
  ultimately show ?thesis using that [OF it] by (simp add: bounds_list_def)
qed

lemma merged_Some:
  assumes "mset zs = mset (map Some xs) + mset (map Some ys)"
  shows "zs = map Some (map the zs)" and "mset (map the zs) = mset xs + mset ys"
proof -
  have "set zs = Some ` (set xs \<union> set ys)"
    using assms by (metis image_Un list.set_map set_mset_mset set_mset_union)
  then have "\<forall>z \<in> set zs. Some (the z) = z" by auto
  then show "zs = map Some (map the zs)" by (simp add: map_idI comp_def)
  have "mset (map the zs) = image_mset the (mset zs)" by simp
  also have "\<dots> = mset xs + mset ys" by (simp add: assms image_mset.compositionality comp_def)
  finally show "mset (map the zs) = mset xs + mset ys" .
qed

lemma check_merged_iff:
  assumes "merge_laws cfg" and "schedule_fits_u64 s1 d1" and "schedule_fits_u64 s2 d2"
  shows "check_bounds 0 (merge_bounds cfg (map Some (bounds_list s1 d1)) (map Some (bounds_list s2 d2))) = Inr ()
    \<longleftrightarrow> executions_disjoint s1 d1 s2 d2"
proof -
  let ?xs = "bounds_list s1 d1" and ?ys = "bounds_list s2 d2"
  let ?zs = "merge_bounds cfg (map Some ?xs) (map Some ?ys)"
  have m: "mset ?zs = mset (map Some ?xs) + mset (map Some ?ys)"
    using assms(1) unfolding merge_laws_def by blast
  define ws where "ws = map the ?zs"
  have zs: "?zs = map Some ws" and ws: "mset ws = mset ?xs + mset ?ys"
    using merged_Some [OF m] by (simp_all add: ws_def)
  have "sorted ?zs"
    using assms(1) unfolding merge_laws_def by (simp add: sorted_map_Some bounds_list_sorted)
  then have sorted: "sorted ws" by (simp add: zs sorted_map_Some)
  have set: "set ws = set ?xs \<union> set ?ys" using ws by (metis set_mset_mset set_mset_union)
  then have pos: "\<forall>(a, b) \<in> set ws. a < b"
    using assms(2,3) by (auto simp: bounds_list_def schedule_fits_u64_def)
  have dis: "executions_disjoint s1 d1 s2 d2 \<longleftrightarrow>
      (\<forall>x \<in> set ?xs. \<forall>y \<in> set ?ys. snd x \<le> fst y \<or> snd y \<le> fst x)"
    by (simp add: executions_disjoint_def bounds_list_def) (simp add: Ball_def)
  have "check_bounds 0 ?zs = Inr () \<longleftrightarrow> sorted_wrt (\<lambda>x y. snd x \<le> fst y) ws"
    unfolding zs using check_bounds_iff [of ws 0] pos by fastforce
  also have "\<dots> \<longleftrightarrow> (\<forall>x \<in> set ?xs. \<forall>y \<in> set ?ys. snd x \<le> fst y \<or> snd y \<le> fst x)"
  proof
    assume sw: "sorted_wrt (\<lambda>x y. snd x \<le> fst y) ws"
    show "\<forall>x \<in> set ?xs. \<forall>y \<in> set ?ys. snd x \<le> fst y \<or> snd y \<le> fst x"
    proof (intro ballI)
      fix x y assume "x \<in> set ?xs" "y \<in> set ?ys"
      with ws show "snd x \<le> fst y \<or> snd y \<le> fst x"
        by (rule two_positions) (use sw in \<open>auto simp: sorted_wrt_append\<close>)
    qed
  next
    assume "\<forall>x \<in> set ?xs. \<forall>y \<in> set ?ys. snd x \<le> fst y \<or> snd y \<le> fst x"
    then show "sorted_wrt (\<lambda>x y. snd x \<le> fst y) ws"
      using assms(2,3) by (intro sorted_disjoint_spaced [OF sorted ws pos] bounds_list_spaced)
        (simp_all add: schedule_fits_u64_def)
  qed
  finally show ?thesis using dis by simp
qed

lemma fits_schedule_loop_iff:
  assumes "merge_laws cfg" and "schedule_fits_u64 sch d"
    and "\<And>j a other. (j, a) \<in> set ms \<Longrightarrow> stored_job_registration s j = Some other \<Longrightarrow>
      schedule_fits_u64 (job_schedule other) (as_start_delay a)"
  shows "fits_schedule_loop cfg sch d ms s = Inr () \<longleftrightarrow>
    (\<forall>(j, a) \<in> set ms. \<exists>other. stored_job_registration s j = Some other \<and>
       (periods_apart sch (job_schedule other) \<or>
        executions_disjoint sch d (job_schedule other) (as_start_delay a)))"
  using assms(3)
proof (induction ms)
  case (Cons x ms)
  obtain j a where x: "x = (j, a)" by (cases x)
  have IH: "fits_schedule_loop cfg sch d ms s = Inr () \<longleftrightarrow>
    (\<forall>(j, a) \<in> set ms. \<exists>other. stored_job_registration s j = Some other \<and>
       (periods_apart sch (job_schedule other) \<or>
        executions_disjoint sch d (job_schedule other) (as_start_delay a)))"
    by (rule Cons.IH) (rule Cons.prems, auto)
  show ?case
  proof (cases "stored_job_registration s j")
    case None
    then show ?thesis by (simp add: x)
  next
    case (Some other)
    show ?thesis
    proof (cases "periods_apart sch (job_schedule other)")
      case True
      then have "fits_schedule_loop cfg sch d (x # ms) s = fits_schedule_loop cfg sch d ms s"
        by (simp add: x Some periods_apart_def)
      with True show ?thesis by (simp add: x Some IH del: fits_schedule_loop.simps)
    next
      case False
      have fits: "schedule_fits_u64 (job_schedule other) (as_start_delay a)"
        by (rule Cons.prems [OF _ Some]) (simp add: x)
      obtain it1 it2 where "schedule_iter_of sch d = Some it1" "schedule_iter_of (job_schedule other) (as_start_delay a) = Some it2"
        "map (exec_bounds_of sch) (schedule_items sch it1) = map Some (bounds_list sch d)"
        "map (exec_bounds_of (job_schedule other)) (schedule_items (job_schedule other) it2) =
           map Some (bounds_list (job_schedule other) (as_start_delay a))"
        using schedule_bounds [OF assms(2)] schedule_bounds [OF fits] by metis
      then show ?thesis
        using False check_merged_iff [OF assms(1,2) fits]
        by (simp add: x Some IH bind_r_Inr) (simp add: periods_apart_def)
    qed
  qed
qed simp

section \<open>Sample data\<close>

fun merge_lists :: "('a :: linorder) list \<Rightarrow> 'a list \<Rightarrow> 'a list" where
  "merge_lists [] ys = ys"
| "merge_lists xs [] = xs"
| "merge_lists (x # xs) (y # ys) =
     (if x \<le> y then x # merge_lists xs (y # ys) else y # merge_lists (x # xs) ys)"

definition demo_market_config :: "(account_id \<Rightarrow> balance, unit) market_config" where
  "demo_market_config = \<lparr>mp_max_slots = 4, mp_max_allowed_sources = 4, report_tolerance = 1,
     fixed_point = floor_fixed, payments = plain_payments, merge_bounds = merge_lists,
     manager_of = (\<lambda>p. if p = 20 then Inr 30 else Inl (Other ''no manager'')),
     last_seen = (\<lambda>p. if p = 20 then Some 7 else None),
     assign_job = unit_assign_job, finalize_job_hook = unit_finalize_job\<rparr>"

definition demo_market_registration :: "schedule \<Rightarrow> market_registration" where
  "demo_market_registration sch = \<lparr>script = SCRIPT_PREFIX @ replicate 46 0, allowed_sources = None,
     allow_only_verified_sources = False, job_schedule = sch, memory = 0,
     network_requests = 0, storage = 5, required_modules = [],
     extra = \<lparr>requirements = \<lparr>slots = 1, reward = 10, min_reputation = None, instant_match = None\<rparr>\<rparr>\<rparr>"

definition empty_market :: "'c \<Rightarrow> 'c market_state" where
  "empty_market c = \<lparr>unix_millis = 0, local_job_id_sequence = 0, stored_job_registration = Map.empty,
     execution_environment = (\<lambda>_. []), stored_attestation = Map.empty,
     stored_revoked_certificate = Map.empty, acurast_events = [],
     stored_job_status = Map.empty, stored_advertisement_restriction = Map.empty,
     stored_advertisement_pricing = Map.empty, stored_storage_capacity = Map.empty,
     stored_reputation = Map.empty, stored_total_assigned = None, stored_average_reward = None,
     stored_matches = (\<lambda>_. []), assigned_processors = (\<lambda>_. []), job_budgets = (\<lambda>_. 0),
     market_currency = c, market_events = []\<rparr>"

text \<open>Processor 20 has a job with the schedule \<open>sch\<close>, started with delay \<open>d\<close>.\<close>

definition busy_market :: "schedule \<Rightarrow> u64 \<Rightarrow> (account_id \<Rightarrow> balance) market_state" where
  "busy_market sch d = (empty_market (\<lambda>_. 0))
     \<lparr>stored_job_registration := [(Acurast 1, 1) \<mapsto> demo_market_registration sch],
      stored_matches := (\<lambda>_. [])(20 := [((Acurast 1, 1),
        \<lparr>slot = 0, as_start_delay = d, fee_per_execution_of = 1, acknowledged = True,
         assignment_sla = \<lparr>sla_total = execution_count sch, sla_met = 0\<rparr>, pub_keys = []\<rparr>)])\<rparr>"

text \<open>Job \<open>(Acurast 1, 1)\<close> is open and processor 20 advertises.\<close>

definition demo_pricing :: pricing where
  "demo_pricing = \<lparr>fee_per_millisecond = 1, fee_per_storage_byte = 1, base_fee_per_execution = 1,
     pr_scheduling_window = End 100\<rparr>"

definition demo_open_market :: "(account_id \<Rightarrow> balance) market_state" where
  "demo_open_market = (empty_market ((\<lambda>_. 1000)(100 := 1040)))
     \<lparr>stored_job_registration := [(Acurast 1, 1) \<mapsto> demo_market_registration demo_schedule],
      stored_job_status := [(Acurast 1, 1) \<mapsto> Open],
      stored_advertisement_restriction := [20 \<mapsto> \<lparr>max_memory = 100, network_request_quota = 1,
        storage_capacity = 10, allowed_consumers = None, available_modules = []\<rparr>],
      stored_advertisement_pricing := [20 \<mapsto> demo_pricing],
      stored_storage_capacity := [20 \<mapsto> 10], job_budgets := (\<lambda>_. 0)((Acurast 1, 1) := 40)\<rparr>"

lemma merge_lists_mset: "mset (merge_lists xs ys) = mset xs + mset ys"
  by (induction xs ys rule: merge_lists.induct) (simp_all add: ac_simps)

lemma merge_lists_sorted: "sorted xs \<Longrightarrow> sorted ys \<Longrightarrow> sorted (merge_lists xs ys)"
proof (induction xs ys rule: merge_lists.induct)
  case (3 x xs y ys)
  have "set (merge_lists xs ys) = set xs \<union> set ys" for xs ys :: "'a list"
    by (metis merge_lists_mset set_mset_mset set_mset_union)
  with 3 show ?case by auto
qed auto

lemma demo_merge_laws: "merge_laws demo_market_config"
  by (simp add: merge_laws_def demo_market_config_def merge_lists_mset merge_lists_sorted)

section \<open>Properties\<close>

text \<open>
  C11: for schedules that \<open>register_hook\<close> accepts and that fit \<open>u64\<close>, \<open>fits_schedule\<close> accepts
  a new schedule for a processor exactly when, for every job the processor is matched with, the
  job is still registered and either the two schedule periods are apart or no execution of the
  one overlaps an execution of the other, start delays included.
\<close>

theorem fits_schedule_iff:
  assumes "merge_laws cfg" and "schedule_fits_u64 sch start_delay"
    and "\<And>j a other. (j, a) \<in> set (stored_matches s source) \<Longrightarrow>
      stored_job_registration s j = Some other \<Longrightarrow>
      schedule_fits_u64 (job_schedule other) (as_start_delay a)"
  shows "fits_schedule cfg source sch start_delay s = Inr () \<longleftrightarrow>
    (\<forall>(j, a) \<in> set (stored_matches s source). \<exists>other. stored_job_registration s j = Some other \<and>
       (periods_apart sch (job_schedule other) \<or>
        executions_disjoint sch start_delay (job_schedule other) (as_start_delay a)))"
  unfolding fits_schedule_def by (rule fits_schedule_loop_iff [OF assms])

theorem fits_schedule_iff_witness:
  "fits_schedule demo_market_config 20 demo_schedule 5 (busy_market demo_schedule 0) = Inr () \<and>
   fits_schedule demo_market_config 20 demo_schedule 10 (busy_market demo_schedule 0) \<noteq> Inr ()"
proof -
  have count: "execution_count demo_schedule = 4"
    by (simp add: demo_schedule_def execution_count_eq)
  let ?s = "busy_market demo_schedule 0"
  have busy: "(j, a) \<in> set (stored_matches ?s 20) \<Longrightarrow> stored_job_registration ?s j = Some other \<Longrightarrow>
      schedule_fits_u64 (job_schedule other) (as_start_delay a)" for j a other
    by (auto simp: busy_market_def demo_market_registration_def schedule_fits_u64_def
        demo_schedule_def split: if_splits)
  have iff: "fits_schedule demo_market_config 20 demo_schedule d ?s = Inr () \<longleftrightarrow>
      executions_disjoint demo_schedule d demo_schedule 0" if "schedule_fits_u64 demo_schedule d" for d
    by (subst fits_schedule_iff [OF demo_merge_laws that], erule (1) busy)
      (simp add: busy_market_def demo_market_registration_def, simp add: periods_apart_def demo_schedule_def)
  have lt4: "(k < 4) = (k = 0 \<or> k = 1 \<or> k = 2 \<or> k = (3 :: nat))" for k by auto
  have "executions_disjoint demo_schedule 5 demo_schedule 0" "\<not> executions_disjoint demo_schedule 10 demo_schedule 0"
    unfolding executions_disjoint_def count lt4 by (auto simp: exec_start_def demo_schedule_def)
  then show ?thesis
    using iff [of 5] iff [of 10] by (simp add: schedule_fits_u64_def) (simp add: demo_schedule_def)
qed

text \<open>
  the first test of \<open>fits_schedule\<close> compares the two periods without the start delays. A
  processor busy at time 12 (a job from 2 to 10, delayed by 10) is accepted for a job that
  executes at time 12 as well, because the undelayed periods are apart.
\<close>

theorem fits_schedule_ignores_delay:
  "let first = \<lparr>duration = 3, start_time = 2, end_time = 10, interval = 10, max_start_delay = 10\<rparr>;
       second = \<lparr>duration = 3, start_time = 12, end_time = 20, interval = 10, max_start_delay = 0\<rparr>
   in fits_schedule demo_market_config 20 second 0 (busy_market first 10) = Inr () \<and>
      \<not> executions_disjoint second 0 first 10"
  by (simp add: fits_schedule_def busy_market_def demo_market_registration_def executions_disjoint_def
      exec_start_def execution_count_eq)

definition demo_partial_registration :: "partial_job_registration" where
  "demo_partial_registration = \<lparr>pj_allowed_sources = None, pj_allow_only_verified_sources = False,
     pj_schedule = None, pj_memory = Some 101, pj_network_requests = None, pj_storage = None, pj_required_modules = [],
     pj_slots = None, pj_reward = 0, pj_min_reputation = None\<rparr>"

text \<open>
  \<open>filter_matching_sources\<close> returns exactly the given sources that pass \<open>check\<close> and were
  seen recently, in their order, as long as every failing source fails with a matching error;
  otherwise it reports an error and no sources.
\<close>

theorem filter_matching_sources_spec:
  "filter_matching_sources cfg reg sources consumer seen s =
     (if \<forall>p \<in> set sources. \<forall>e. check cfg reg p consumer s = Inl e \<longrightarrow> is_matching_error e
      then Inr [p \<leftarrow> sources. is_ok (check cfg reg p consumer s) \<and> seen_recently cfg seen p]
      else Inl FilterMatchingSources)"
proof (induction sources)
  case (Cons p sources)
  then show ?case by (cases "check cfg reg p consumer s") auto
qed simp

theorem filter_matching_sources_spec_witness:
  "filter_matching_sources demo_market_config (demo_partial_registration\<lparr>pj_memory := Some 100\<rparr>) [20] None None demo_open_market = Inr [20] \<and>
   filter_matching_sources demo_market_config demo_partial_registration [20] None None demo_open_market = Inr []"
proof -
  have "check demo_market_config (demo_partial_registration\<lparr>pj_memory := Some 100\<rparr>) 20 None demo_open_market = Inr ()"
    "check demo_market_config demo_partial_registration 20 None demo_open_market = Inl MaxMemoryExceededInMatch"
    by (simp_all add: check_def demo_partial_registration_def demo_open_market_def ensure_def check_min_reputation_def is_source_whitelisted_def is_consumer_whitelisted_def)
  then show ?thesis
    unfolding filter_matching_sources_spec by (simp add: seen_recently_def)
qed

end
