(* ===== verification/Marketplace.thy ===== *)
theory Marketplace
  imports Matching
begin

text \<open>
  The extrinsics of the marketplace pallet, its job hooks and \<open>finalize_jobs_for\<close>,
  \<open>pallets/marketplace/src/lib.rs\<close>, and \<open>do_advertise\<close> of \<open>functions.rs\<close>.
\<close>

section \<open>Advertisements\<close>

definition do_advertise ::
  "('c, 'z) market_config \<Rightarrow> account_id \<Rightarrow> advertisement \<Rightarrow> ('c, 'z) market_state_scheme \<Rightarrow>
   runtime_dispatch_error + ('c, 'z) market_state_scheme" where
  "do_advertise cfg processor ad s =
     bind_r (case adv_allowed_consumers ad of
               None \<Rightarrow> Inr ()
             | Some consumers \<Rightarrow>
                 bind_r (ensure (length consumers > 0) (mp_err TooFewAllowedConsumers)) (\<lambda>_.
                 ensure (length consumers \<le> mp_max_allowed_sources cfg) (mp_err TooManyAllowedConsumers)))
       (\<lambda>_.
     let capacity = (case stored_advertisement_restriction s processor of
           Some old \<Rightarrow>
             unwrap_or (checked_i64
               (unwrap_or (checked_i64
                  (unwrap_or (stored_storage_capacity s processor) 0 + int (adv_storage_capacity ad))) i64_max
                - int (storage_capacity old))) 0
         | None \<Rightarrow> int (adv_storage_capacity ad)) in
     Inr (s\<lparr>stored_storage_capacity := (stored_storage_capacity s)(processor \<mapsto> capacity),
            stored_advertisement_restriction := (stored_advertisement_restriction s)(processor \<mapsto>
              \<lparr>max_memory = adv_max_memory ad, network_request_quota = adv_network_request_quota ad,
               storage_capacity = adv_storage_capacity ad, allowed_consumers = adv_allowed_consumers ad,
               available_modules = adv_available_modules ad\<rparr>),
            stored_advertisement_pricing := (stored_advertisement_pricing s)(processor \<mapsto> adv_pricing ad),
            stored_reputation := (stored_reputation s)(processor \<mapsto>
              unwrap_or (stored_reputation s processor) beta_default)\<rparr>))"

definition advertise ::
  "('c, 'z) market_config \<Rightarrow> origin \<Rightarrow> advertisement \<Rightarrow> ('c, 'z) market_state_scheme \<Rightarrow>
   runtime_dispatch_error + ('c, 'z) market_state_scheme" where
  "advertise cfg o' ad s =
     bind_r (ensure_signed o') (\<lambda>who.
     bind_r (do_advertise cfg who ad s) (\<lambda>s1.
     Inr (deposit_market_event (AdvertisementStored ad who) s1)))"

definition delete_advertisement ::
  "origin \<Rightarrow> ('c, 'z) market_state_scheme \<Rightarrow> runtime_dispatch_error + ('c, 'z) market_state_scheme" where
  "delete_advertisement o' s =
     bind_r (ensure_signed o') (\<lambda>who.
     bind_r (ok_or (stored_advertisement_restriction s who) (mp_err AdvertisementNotFound)) (\<lambda>_.
     bind_r (ensure (\<not> has_matches who s) (mp_err CannotDeleteAdvertisementWhileMatched)) (\<lambda>_.
     let s1 = s\<lparr>stored_advertisement_pricing := (stored_advertisement_pricing s)(who := None),
               stored_storage_capacity := (stored_storage_capacity s)(who := None),
               stored_advertisement_restriction := (stored_advertisement_restriction s)(who := None)\<rparr>
     in Inr (deposit_market_event (AdvertisementRemoved who) s1))))"

section \<open>Matching, acknowledging, reporting\<close>

definition propose_matching ::
  "('c, 'z) market_config \<Rightarrow> origin \<Rightarrow> match_for list \<Rightarrow> ('c, 'z) market_state_scheme \<Rightarrow>
   runtime_dispatch_error + ('c, 'z) market_state_scheme" where
  "propose_matching cfg o' matches s =
     bind_r (ensure_signed o') (\<lambda>who.
     bind_r (process_matching cfg matches s) (\<lambda>(remaining_rewards, s1).
     with_funds (pay_matcher_reward job_budget_ops (payments cfg) remaining_rewards who) s1))"

definition acknowledge_match ::
  "('c, 'z) market_config \<Rightarrow> origin \<Rightarrow> job_id \<Rightarrow> pub_key list \<Rightarrow> ('c, 'z) market_state_scheme \<Rightarrow>
   runtime_dispatch_error + ('c, 'z) market_state_scheme" where
  "acknowledge_match cfg o' job_id keys s =
     bind_r (ensure_signed o') (\<lambda>who.
     bind_r (ok_or (get_match who job_id s) (mp_err CannotAcknowledgeWhenNotMatched)) (\<lambda>old.
     let changed = (\<not> acknowledged old);
         assignment = old\<lparr>acknowledged := True, pub_keys := keys\<rparr>;
         s1 = put_match who job_id assignment s in
     if changed then
       bind_r (ok_or (stored_job_status s1 job_id) (mp_err JobStatusNotFound)) (\<lambda>status.
       bind_r (case status of
                 Open \<Rightarrow> Inl (mp_err CannotAcknowledgeWhenNotMatched)
               | Matched \<Rightarrow> Inr (Assigned 1)
               | Assigned acks \<Rightarrow> Inr (Assigned (wrapping_add 8 acks 1))) (\<lambda>status'.
       bind_r (assign_job cfg job_id (pub_keys assignment) (set_status job_id (Some status') s1)) (\<lambda>s2.
       Inr (deposit_market_event (JobRegistrationAssigned job_id who assignment) s2))))
     else Inr s1))"

definition execution_event :: "job_id \<Rightarrow> execution_result \<Rightarrow> market_event" where
  "execution_event job_id res =
     (case res of
        Success operation_hash \<Rightarrow> ExecutionSuccess job_id operation_hash
      | Failure message \<Rightarrow> ExecutionFailure job_id message)"

definition report ::
  "('c, 'z) market_config \<Rightarrow> origin \<Rightarrow> job_id \<Rightarrow> execution_result \<Rightarrow> ('c, 'z) market_state_scheme \<Rightarrow>
   runtime_dispatch_error + ('c, 'z) market_state_scheme" where
  "report cfg o' job_id result s =
     bind_r (ensure_signed o') (\<lambda>who.
     bind_r (ok_or (get_match who job_id s) (mp_err ReportFromUnassignedSource)) (\<lambda>old.
     bind_r (ensure (acknowledged old) (mp_err CannotReportWhenNotAcknowledged)) (\<lambda>_.
     bind_r (ensure (sla_met (assignment_sla old) < sla_total (assignment_sla old))
               (mp_err MoreReportsThanExpected)) (\<lambda>_.
     let assignment = old\<lparr>assignment_sla := (assignment_sla old)
               \<lparr>sla_met := wrapping_add 64 (sla_met (assignment_sla old)) 1\<rparr>\<rparr>;
         s1 = put_match who job_id assignment s in
     bind_r (ok_or (stored_job_registration s1 job_id) (ac_err JobRegistrationNotFound)) (\<lambda>registration.
     bind_r (lift_mp (market_now s1)) (\<lambda>now.
     bind_r (ok_or (checked_add 64 now (report_tolerance cfg)) (mp_err CalculationOverflow)) (\<lambda>now_max.
     bind_r (ok_or (schedule_range (job_schedule registration) (as_start_delay assignment))
               (mp_err CalculationOverflow)) (\<lambda>range.
     bind_r (ok_or (overlaps (job_schedule registration) (as_start_delay assignment) (fst range) now_max)
               (mp_err CalculationOverflow)) (\<lambda>in_schedule.
     bind_r (ensure in_schedule (mp_err ReportOutsideSchedule)) (\<lambda>_.
     bind_r (manager_of cfg who) (\<lambda>manager.
     bind_r (with_funds (pay_reward job_budget_ops (payments cfg) job_id
               (fee_per_execution_of assignment) manager) s1) (\<lambda>s2.
     Inr (deposit_market_event (Reported job_id who assignment)
           (deposit_market_event (execution_event job_id result) s2))))))))))))))"

section \<open>Finalizing\<close>

definition actual_schedule_ended ::
  "('c, 'z) market_config \<Rightarrow> schedule \<Rightarrow> assignment \<Rightarrow> ('c, 'z) market_state_scheme \<Rightarrow> market_error + bool" where
  "actual_schedule_ended cfg sch assignment s =
     bind_r (market_now s) (\<lambda>n.
     bind_r (ok_or (checked_add 64 n (report_tolerance cfg)) CalculationOverflow) (\<lambda>now.
     bind_r (ok_or (schedule_range sch (as_start_delay assignment)) CalculationOverflow) (\<lambda>range.
     Inr (snd range < now))))"

definition schedule_ended ::
  "('c, 'z) market_config \<Rightarrow> schedule \<Rightarrow> ('c, 'z) market_state_scheme \<Rightarrow> market_error + bool" where
  "schedule_ended cfg sch s =
     bind_r (market_now s) (\<lambda>n.
     bind_r (ok_or (checked_add 64 n (report_tolerance cfg)) CalculationOverflow) (\<lambda>now.
     bind_r (ok_or (schedule_range sch (max_start_delay sch)) CalculationOverflow) (\<lambda>range.
     Inr (snd range < now))))"

text \<open>
  The reputation update of \<open>finalize_job\<close>. \<open>total_assigned - 1\<close> and the unmet count are plain
  subtractions.
\<close>

definition update_reputation ::
  "('c, 'z) market_config \<Rightarrow> account_id \<Rightarrow> assignment \<Rightarrow> ('c, 'z) market_state_scheme \<Rightarrow>
   market_error + ('c, 'z) market_state_scheme" where
  "update_reputation cfg who assignment s =
     (let met = sla_met (assignment_sla assignment);
          unmet = wrapping_sub 64 (sla_total (assignment_sla assignment)) met in
      if is_ok (ensure_source_verified who s) \<and> fee_per_execution_of assignment > 0 then
        (let average_reward = unwrap_or (stored_average_reward s) 0;
             total_assigned = unwrap_or (stored_total_assigned s) 0 in
         bind_r (ok_or (checked_mul 128 average_reward (wrapping_sub 128 total_assigned 1)) CalculationOverflow)
           (\<lambda>total_reward.
         bind_r (ok_or (checked_add 128 total_reward (fee_per_execution_of assignment)) CalculationOverflow)
           (\<lambda>new_total_rewards.
         bind_r (ok_or (stored_reputation s who) ReputationNotFound) (\<lambda>beta_params.
         bind_r (ok_or (Reputation.update (fixed_point cfg) beta_params met unmet
                   (fee_per_execution_of assignment) average_reward) CalculationOverflow) (\<lambda>beta_params'.
         bind_r (ok_or (checked_div new_total_rewards total_assigned) CalculationOverflow) (\<lambda>new_average_reward.
         Inr (s\<lparr>stored_average_reward := Some new_average_reward,
                stored_reputation := (stored_reputation s)(who \<mapsto> beta_params')\<rparr>)))))))
      else Inr s)"

definition finalize_job ::
  "('c, 'z) market_config \<Rightarrow> origin \<Rightarrow> job_id \<Rightarrow> ('c, 'z) market_state_scheme \<Rightarrow>
   runtime_dispatch_error + ('c, 'z) market_state_scheme" where
  "finalize_job cfg o' job_id s =
     bind_r (ensure_signed o') (\<lambda>who.
     bind_r (ok_or (stored_job_registration s job_id) (ac_err JobRegistrationNotFound)) (\<lambda>registration.
     bind_r (ok_or (get_match who job_id s) (mp_err JobNotAssigned)) (\<lambda>assignment.
     bind_r (lift_mp (actual_schedule_ended cfg (job_schedule registration) assignment s)) (\<lambda>ended.
     bind_r (ensure ended (mp_err JobCannotBeFinalized)) (\<lambda>_.
     bind_r (lift_mp (update_reputation cfg who assignment s)) (\<lambda>s1.
     let s2 = remove_match who job_id s1;
         s3 = s2\<lparr>assigned_processors := (assigned_processors s2)
               (job_id := AList.delete who (assigned_processors s2 job_id))\<rparr>;
         s4 = release_capacity who (storage registration) s3
     in Inr (deposit_market_event (JobFinalized job_id) s4)))))))"

definition release_processor :: "job_id \<Rightarrow> u32 \<Rightarrow> account_id \<Rightarrow> ('c, 'z) market_state_scheme \<Rightarrow> ('c, 'z) market_state_scheme" where
  "release_processor job_id amount p s = release_capacity p amount (remove_match p job_id s)"

definition refund_and_notify ::
  "('c, 'z) market_config \<Rightarrow> job_id \<Rightarrow> ('c, 'z) market_state_scheme \<Rightarrow>
   runtime_dispatch_error + ('c, 'z) market_state_scheme" where
  "refund_and_notify cfg job_id s =
     bind_r (refund_job cfg job_id s) (\<lambda>(refund_amount, s1). finalize_job_hook cfg job_id refund_amount s1)"

definition can_finalize ::
  "('c, 'z) market_config \<Rightarrow> job_id \<Rightarrow> job_status \<Rightarrow> market_registration \<Rightarrow> ('c, 'z) market_state_scheme \<Rightarrow>
   market_error + unit" where
  "can_finalize cfg job_id job_status registration s =
     (case job_status of
        Open \<Rightarrow> Inl (CannotFinalizeJob job_status)
      | Matched \<Rightarrow>
          bind_r (market_now s) (\<lambda>now.
          ensure (now \<ge> start_time (job_schedule registration)) (CannotFinalizeJob job_status))
      | Assigned _ \<Rightarrow>
          if assigned_processors s job_id \<noteq> [] then
            bind_r (schedule_ended cfg (job_schedule registration) s) (\<lambda>ended.
            ensure ended (CannotFinalizeJob job_status))
          else Inr ())"

definition finalize_job_for ::
  "('c, 'z) market_config \<Rightarrow> job_id \<Rightarrow> ('c, 'z) market_state_scheme \<Rightarrow>
   runtime_dispatch_error + ('c, 'z) market_state_scheme" where
  "finalize_job_for cfg job_id s =
     bind_r (ok_or (stored_job_status s job_id) (mp_err JobStatusNotFound)) (\<lambda>job_status.
     bind_r (ok_or (stored_job_registration s job_id) (ac_err JobRegistrationNotFound)) (\<lambda>registration.
     bind_r (lift_mp (can_finalize cfg job_id job_status registration s)) (\<lambda>_.
     let s1 = fold (release_processor job_id (storage registration)) (assigned_to job_id s) s;
         s2 = clear_assigned (mp_max_slots cfg) job_id s1 in
     bind_r (refund_and_notify cfg job_id s2) (\<lambda>s3.
     let s4 = set_status job_id None (clear_environment_for (mp_max_slots cfg) job_id s3);
         s5 = s4\<lparr>stored_job_registration := (stored_job_registration s4)(job_id := None)\<rparr>
     in Inr (deposit_market_event (JobFinalized job_id) s5)))))"

definition finalize_jobs_for ::
  "('c, 'z) market_config \<Rightarrow> job_id list \<Rightarrow> ('c, 'z) market_state_scheme \<Rightarrow>
   runtime_dispatch_error + ('c, 'z) market_state_scheme" where
  "finalize_jobs_for cfg job_ids s = fold_r (finalize_job_for cfg) job_ids s"

definition finalize_jobs ::
  "('c, 'z) market_config \<Rightarrow> origin \<Rightarrow> job_id_sequence list \<Rightarrow> ('c, 'z) market_state_scheme \<Rightarrow>
   runtime_dispatch_error + ('c, 'z) market_state_scheme" where
  "finalize_jobs cfg o' job_ids s =
     bind_r (ensure_signed o') (\<lambda>who.
     finalize_jobs_for cfg (map (\<lambda>job_id_seq. (Acurast who, job_id_seq)) job_ids) s)"

section \<open>Job hooks\<close>

definition validate_registration ::
  "('c, 'z) market_config \<Rightarrow> market_registration \<Rightarrow> ('c, 'z) market_state_scheme \<Rightarrow> market_error + unit" where
  "validate_registration cfg registration s =
     (let sch = job_schedule registration; reqs = requirements (extra registration) in
      bind_r (ensure (duration sch > 0) JobRegistrationZeroDuration) (\<lambda>_.
      bind_r (ensure (execution_count sch \<le> MAX_EXECUTIONS_PER_JOB)
                JobRegistrationScheduleExceedsMaximumExecutions) (\<lambda>_.
      bind_r (ensure (execution_count sch > 0) JobRegistrationScheduleContainsZeroExecutions) (\<lambda>_.
      bind_r (ensure (duration sch < interval sch) JobRegistrationDurationExceedsInterval) (\<lambda>_.
      bind_r (market_now s) (\<lambda>now.
      bind_r (ensure (start_time sch \<ge> now) JobRegistrationStartInPast) (\<lambda>_.
      bind_r (ensure (start_time sch \<le> end_time sch) JobRegistrationEndBeforeStart) (\<lambda>_.
      bind_r (ensure (slots reqs > 0) JobRegistrationZeroSlots) (\<lambda>_.
      ensure (slots reqs \<le> mp_max_slots cfg) TooManySlots)))))))))"

definition mp_register_hook ::
  "('c, 'z) market_config \<Rightarrow> (('c, 'z) market_state_scheme, registration_extra) register_hook" where
  "mp_register_hook cfg who job_id registration s =
     bind_r (lift_mp (validate_registration cfg registration s)) (\<lambda>_.
     bind_r (case stored_job_status s job_id of
               Some job_status \<Rightarrow>
                 bind_r (ensure (job_status = Open) (mp_err JobRegistrationUnmodifiable)) (\<lambda>_. Inr s)
             | None \<Rightarrow> Inr (set_status job_id (Some Open) s)) (\<lambda>s1.
     bind_r (case instant_match (requirements (extra registration)) of
               Some sources \<Rightarrow>
                 bind_r (process_matching cfg [\<lparr>match_job_id = job_id, match_sources = sources\<rparr>] s1)
                   (\<lambda>(_, s2). Inr s2)
             | None \<Rightarrow> Inr s1) (\<lambda>s2.
     bind_r (lift_mp (total_reward_amount registration)) (\<lambda>total.
     with_funds (lock_reward job_budget_ops (payments cfg) job_id total) s2))))"

text \<open>The loop of \<open>deregister_hook\<close> for an assigned job: pay, then release the processor.\<close>

definition pay_and_release ::
  "('c, 'z) market_config \<Rightarrow> job_id \<Rightarrow> u32 \<Rightarrow> balance \<Rightarrow> account_id \<Rightarrow> ('c, 'z) market_state_scheme \<Rightarrow>
   runtime_dispatch_error + ('c, 'z) market_state_scheme" where
  "pay_and_release cfg job_id amount reward_per_processor processor s =
     bind_r (ok_or (get_match processor job_id s) (mp_err JobNotAssigned)) (\<lambda>assignment.
     bind_r (if acknowledged assignment then
               bind_r (manager_of cfg processor) (\<lambda>manager.
               with_funds (pay_reward job_budget_ops (payments cfg) job_id reward_per_processor manager) s)
             else Inr s) (\<lambda>s1.
     Inr (release_processor job_id amount processor s1)))"

definition mp_deregister_hook ::
  "('c, 'z) market_config \<Rightarrow> ('c, 'z) market_state_scheme deregister_hook" where
  "mp_deregister_hook cfg job_id s =
     bind_r (ok_or (stored_job_status s job_id) (mp_err JobStatusNotFound)) (\<lambda>job_status.
     case job_status of
       Open \<Rightarrow>
         bind_r (refund_and_notify cfg job_id s) (\<lambda>s1. Inr (set_status job_id None s1))
     | Matched \<Rightarrow>
         bind_r (refund_and_notify cfg job_id s) (\<lambda>s1.
         bind_r (ok_or (stored_job_registration s1 job_id) (ac_err JobRegistrationNotFound)) (\<lambda>registration.
         let s2 = fold (release_processor job_id (storage registration)) (assigned_to job_id s1) s1
         in Inr (set_status job_id None (clear_assigned (mp_max_slots cfg) job_id s2))))
     | Assigned _ \<Rightarrow>
         bind_r (ok_or (stored_job_registration s job_id) (ac_err JobRegistrationNotFound)) (\<lambda>registration.
         bind_r (ok_or (checked_div (job_budgets s job_id) (slots (requirements (extra registration))))
                   (mp_err UnexpectedCheckedCalculation)) (\<lambda>reward_per_processor.
         bind_r (fold_r (pay_and_release cfg job_id (storage registration) reward_per_processor)
                   (assigned_to job_id s) s) (\<lambda>s1.
         bind_r (refund_and_notify cfg job_id s1) (\<lambda>s2.
         Inr (set_status job_id None (clear_assigned (mp_max_slots cfg) job_id s2)))))))"

definition mp_update_allowed_sources_hook ::
  "('c, 'z) market_state_scheme update_allowed_sources_hook" where
  "mp_update_allowed_sources_hook who job_id updates s =
     bind_r (ok_or (stored_job_status s job_id) (mp_err JobStatusNotFound)) (\<lambda>job_status.
     bind_r (ensure (job_status = Open) (mp_err JobRegistrationUnmodifiable)) (\<lambda>_. Inr s))"

end
