(* ===== verification/Job_Lifecycle.thy ===== *)
theory Job_Lifecycle
  imports Marketplace
begin

text \<open>
  The life of one job, as an abstract state machine: what the marketplace promises about a job,
  whatever happens to other jobs. A \<open>job_view\<close> is the part of the storage that belongs to one
  job; \<open>job_step\<close> lists the moves the marketplace may make on it; \<open>job_ok\<close> is the invariant.
  The refinement (theory \<open>Market_Refinement\<close>) shows that every extrinsic makes only these moves.
\<close>

section \<open>The view of a job\<close>

record job_view =
  jv_status :: "job_status option"
  jv_reg :: "market_registration option"
  jv_procs :: "account_id list"
  jv_match :: "account_id \<rightharpoonup> assignment"
  jv_budget :: balance

definition job_view_of :: "job_id \<Rightarrow> ('c, 'z) market_state_scheme \<Rightarrow> job_view" where
  "job_view_of j s = \<lparr>jv_status = stored_job_status s j, jv_reg = stored_job_registration s j,
     jv_procs = assigned_to j s, jv_match = (\<lambda>p. get_match p j s), jv_budget = job_budgets s j\<rparr>"

text \<open>What the job still owes a processor if every remaining execution is reported.\<close>

definition owed :: "assignment option \<Rightarrow> nat" where
  "owed m = (case m of None \<Rightarrow> 0 | Some a \<Rightarrow>
     (sla_total (assignment_sla a) - sla_met (assignment_sla a)) * fee_per_execution_of a)"

definition outstanding :: "job_view \<Rightarrow> nat" where
  "outstanding v = (\<Sum>p\<in>set (jv_procs v). owed (jv_match v p))"

definition acked :: "job_view \<Rightarrow> account_id set" where
  "acked v = {p \<in> set (jv_procs v). \<exists>a. jv_match v p = Some a \<and> acknowledged a}"

definition unacked :: "job_view \<Rightarrow> account_id set" where
  "unacked v = {p \<in> set (jv_procs v). \<exists>a. jv_match v p = Some a \<and> \<not> acknowledged a}"

definition total_reward :: "market_registration \<Rightarrow> nat" where
  "total_reward r = reward (requirements (extra r)) * slots (requirements (extra r))
     * execution_count (job_schedule r)"

definition registrable :: "u32 \<Rightarrow> market_registration \<Rightarrow> bool" where
  "registrable max_slots r \<longleftrightarrow>
     0 < duration (job_schedule r) \<and> duration (job_schedule r) < interval (job_schedule r) \<and>
     0 < execution_count (job_schedule r) \<and>
     execution_count (job_schedule r) \<le> MAX_EXECUTIONS_PER_JOB \<and>
     0 < slots (requirements (extra r)) \<and> slots (requirements (extra r)) \<le> max_slots"

definition fresh_assignment :: "market_registration \<Rightarrow> assignment \<Rightarrow> bool" where
  "fresh_assignment r a \<longleftrightarrow>
     \<not> acknowledged a \<and> sla_met (assignment_sla a) = 0 \<and>
     sla_total (assignment_sla a) = execution_count (job_schedule r) \<and>
     fee_per_execution_of a \<le> reward (requirements (extra r))"

section \<open>Moves\<close>

inductive job_step :: "u32 \<Rightarrow> job_view \<Rightarrow> job_view \<Rightarrow> bool" for max_slots where
  open_job: "jv_status v = None \<or> jv_status v = Some Open \<Longrightarrow> registrable max_slots r \<Longrightarrow>
     job_step max_slots v
       (v\<lparr>jv_status := Some Open, jv_reg := Some r, jv_budget := jv_budget v + total_reward r\<rparr>)"
| change_sources: "jv_status v = Some Open \<Longrightarrow> jv_reg v = Some r \<Longrightarrow>
     job_step max_slots v (v\<lparr>jv_reg := Some (r\<lparr>allowed_sources := srcs\<rparr>)\<rparr>)"
| match_job: "jv_status v = Some Open \<Longrightarrow> jv_reg v = Some r \<Longrightarrow> distinct ps \<Longrightarrow>
     length ps = slots (requirements (extra r)) \<Longrightarrow> length ps < 2 ^ 8 \<Longrightarrow> dom ms = set ps \<Longrightarrow>
     (\<And>p a. ms p = Some a \<Longrightarrow> fresh_assignment r a) \<Longrightarrow>
     (\<Sum>p\<in>set ps. owed (ms p)) + matcher_share \<le> total_reward r \<Longrightarrow> matcher_share \<le> jv_budget v \<Longrightarrow>
     job_step max_slots v (v\<lparr>jv_status := Some Matched, jv_procs := ps, jv_match := ms,
       jv_budget := jv_budget v - matcher_share\<rparr>)"
| acknowledge: "jv_match v p = Some a \<Longrightarrow> \<not> acknowledged a \<Longrightarrow>
     jv_status v = Some Matched \<and> n = 0 \<or> jv_status v = Some (Assigned n) \<Longrightarrow>
     job_step max_slots v (v\<lparr>jv_status := Some (Assigned (n + 1)),
       jv_match := (jv_match v)(p \<mapsto> a\<lparr>acknowledged := True, pub_keys := keys\<rparr>)\<rparr>)"
| change_keys: "jv_match v p = Some a \<Longrightarrow> acknowledged a \<Longrightarrow>
     job_step max_slots v (v\<lparr>jv_match := (jv_match v)(p \<mapsto> a\<lparr>acknowledged := True, pub_keys := keys\<rparr>)\<rparr>)"
| report_execution: "jv_match v p = Some a \<Longrightarrow> acknowledged a \<Longrightarrow>
     sla_met (assignment_sla a) < sla_total (assignment_sla a) \<Longrightarrow>
     fee_per_execution_of a \<le> jv_budget v \<Longrightarrow>
     job_step max_slots v (v\<lparr>jv_match := (jv_match v)(p \<mapsto> a\<lparr>assignment_sla :=
         (assignment_sla a)\<lparr>sla_met := sla_met (assignment_sla a) + 1\<rparr>\<rparr>),
       jv_budget := jv_budget v - fee_per_execution_of a\<rparr>)"
| finish_slot: "jv_match v p \<noteq> None \<Longrightarrow>
     job_step max_slots v (v\<lparr>jv_procs := filter (\<lambda>q. q \<noteq> p) (jv_procs v), jv_match := (jv_match v)(p := None)\<rparr>)"
| close_job: "jv_status v \<noteq> None \<Longrightarrow>
     job_step max_slots v \<lparr>jv_status = None, jv_reg = None, jv_procs = [], jv_match = Map.empty, jv_budget = 0\<rparr>"

inductive_cases job_stepE: "job_step max_slots v v'"

section \<open>Invariant\<close>

text \<open>
  A job without a status has no registration, no processors and no funds. An open job has no
  processors. The processors of a job are those it is matched with, at most one per slot; none
  has acknowledged a job in status \<open>Matched\<close>, and in status \<open>Assigned n\<close> the counter \<open>n\<close> counts
  the acknowledgements so far. No assignment has more reports than executions, and the budget
  covers what is still owed.
\<close>

definition job_ok :: "u32 \<Rightarrow> job_view \<Rightarrow> bool" where
  "job_ok max_slots v \<longleftrightarrow>
     distinct (jv_procs v) \<and> dom (jv_match v) = set (jv_procs v) \<and>
     (\<forall>p a. jv_match v p = Some a \<longrightarrow>
        sla_met (assignment_sla a) \<le> sla_total (assignment_sla a) \<and>
        sla_total (assignment_sla a) \<le> MAX_EXECUTIONS_PER_JOB \<and>
        (\<not> acknowledged a \<longrightarrow> sla_met (assignment_sla a) = 0)) \<and>
     outstanding v \<le> jv_budget v \<and>
     (case jv_reg v of
        None \<Rightarrow> jv_status v = None \<and> jv_procs v = [] \<and> jv_budget v = 0
      | Some r \<Rightarrow> registrable max_slots r \<and>
          (case jv_status v of
             None \<Rightarrow> False
           | Some Open \<Rightarrow> jv_procs v = [] \<and> total_reward r \<le> jv_budget v
           | Some Matched \<Rightarrow> acked v = {} \<and> length (jv_procs v) \<le> slots (requirements (extra r)) \<and>
               slots (requirements (extra r)) < 2 ^ 8
           | Some (Assigned n) \<Rightarrow> 0 < n \<and> card (acked v) \<le> n \<and>
               n + card (unacked v) \<le> slots (requirements (extra r)) \<and>
               slots (requirements (extra r)) < 2 ^ 8))"

section \<open>Lemmas\<close>

lemma sum_upd_one:
  fixes f g :: "'a \<Rightarrow> nat"
  assumes "finite A" and "a \<in> A" and "\<And>x. x \<in> A \<Longrightarrow> x \<noteq> a \<Longrightarrow> g x = f x"
  shows "sum g A + f a = sum f A + g a"
proof -
  have "sum g (A - {a}) = sum f (A - {a})" using assms(3) by (intro sum.cong) auto
  then show ?thesis using sum.remove [OF assms(1,2), of f] sum.remove [OF assms(1,2), of g] by simp
qed

lemma acked_finite [simp]: "finite (acked v)" "finite (unacked v)"
  by (simp_all add: acked_def unacked_def)

lemma acked_unacked_card:
  assumes "distinct (jv_procs v)" and "dom (jv_match v) = set (jv_procs v)"
  shows "card (acked v) + card (unacked v) = length (jv_procs v)"
proof -
  have "set (jv_procs v) = acked v \<union> unacked v"
    using assms(2) by (auto simp: acked_def unacked_def)
  moreover have "acked v \<inter> unacked v = {}" by (auto simp: acked_def unacked_def)
  ultimately show ?thesis
    using assms(1) by (metis acked_finite card_Un_disjoint distinct_card)
qed

lemma owed_simps [simp]:
  "owed None = 0"
  "owed (Some a) = (sla_total (assignment_sla a) - sla_met (assignment_sla a)) * fee_per_execution_of a"
  by (simp_all add: owed_def)

text \<open>The three ways a move changes the assignment of one processor.\<close>

lemma outstanding_update:
  assumes "jv_match v p = Some a" and "dom (jv_match v) = set (jv_procs v)"
  shows "outstanding (v\<lparr>jv_match := (jv_match v)(p \<mapsto> b), jv_status := st, jv_budget := x\<rparr>) + owed (Some a) =
    outstanding v + owed (Some b)"
proof -
  have "p \<in> set (jv_procs v)" using assms by auto
  then show ?thesis
    using sum_upd_one [of "set (jv_procs v)" p "\<lambda>q. owed (((jv_match v)(p \<mapsto> b)) q)" "\<lambda>q. owed (jv_match v q)"]
      assms(1) by (simp add: outstanding_def)
qed

lemma outstanding_remove:
  "outstanding (v\<lparr>jv_procs := filter (\<lambda>q. q \<noteq> p) (jv_procs v), jv_match := (jv_match v)(p := None)\<rparr>)
     \<le> outstanding v"
proof -
  have "outstanding (v\<lparr>jv_procs := filter (\<lambda>q. q \<noteq> p) (jv_procs v), jv_match := (jv_match v)(p := None)\<rparr>)
      = (\<Sum>q\<in>set (filter (\<lambda>q. q \<noteq> p) (jv_procs v)). owed (jv_match v q))"
    by (auto simp: outstanding_def intro: sum.cong)
  also have "\<dots> \<le> outstanding v" unfolding outstanding_def by (intro sum_mono2) auto
  finally show ?thesis .
qed

text \<open>Every move keeps the invariant.\<close>

lemma job_ok_open:
  assumes "job_ok n v" "jv_status v = None \<or> jv_status v = Some Open" "registrable n r"
  shows "job_ok n (v\<lparr>jv_status := Some Open, jv_reg := Some r, jv_budget := jv_budget v + total_reward r\<rparr>)"
proof -
  have "jv_procs v = []" using assms(1,2) by (auto simp: job_ok_def split: option.splits)
  then show ?thesis using assms(1,3) by (auto simp: job_ok_def outstanding_def)
qed

lemma job_ok_sources:
  assumes "job_ok n v" "jv_status v = Some Open" "jv_reg v = Some r"
  shows "job_ok n (v\<lparr>jv_reg := Some (r\<lparr>allowed_sources := srcs\<rparr>)\<rparr>)"
  using assms by (simp add: job_ok_def outstanding_def registrable_def total_reward_def)

lemma job_ok_match:
  assumes "job_ok n v" "jv_status v = Some Open" "jv_reg v = Some r" "distinct ps"
    "length ps = slots (requirements (extra r))" "length ps < 2 ^ 8" "dom ms = set ps"
    "\<And>p a. ms p = Some a \<Longrightarrow> fresh_assignment r a"
    "(\<Sum>p\<in>set ps. owed (ms p)) + share \<le> total_reward r"
  shows "job_ok n (v\<lparr>jv_status := Some Matched, jv_procs := ps, jv_match := ms, jv_budget := jv_budget v - share\<rparr>)"
proof -
  have "total_reward r \<le> jv_budget v" "registrable n r" using assms(1-3) by (auto simp: job_ok_def)
  moreover have "acked (v\<lparr>jv_status := Some Matched, jv_procs := ps, jv_match := ms, jv_budget := jv_budget v - share\<rparr>) = {}"
    using assms(8) by (auto simp: acked_def fresh_assignment_def)
  moreover have "sla_met (assignment_sla a) = 0 \<and> sla_total (assignment_sla a) \<le> MAX_EXECUTIONS_PER_JOB"
    if "ms p = Some a" for p a
    using assms(8) [OF that] calculation(2) by (simp add: fresh_assignment_def registrable_def)
  ultimately show ?thesis using assms(3-7,9) by (simp add: job_ok_def outstanding_def)
qed

lemma job_ok_acknowledge:
  assumes "job_ok n v" "jv_match v p = Some a" "\<not> acknowledged a"
    "jv_status v = Some Matched \<and> k = 0 \<or> jv_status v = Some (Assigned k)"
  shows "job_ok n (v\<lparr>jv_status := Some (Assigned (k + 1)),
       jv_match := (jv_match v)(p \<mapsto> a\<lparr>acknowledged := True, pub_keys := keys\<rparr>)\<rparr>)"
    (is "job_ok n ?v")
proof -
  let ?b = "a\<lparr>acknowledged := True, pub_keys := keys\<rparr>"
  from assms(1) have dom: "dom (jv_match v) = set (jv_procs v)" and dist: "distinct (jv_procs v)"
    by (auto simp: job_ok_def)
  with assms(2) have p: "p \<in> set (jv_procs v)" by auto
  have ack: "acked ?v = insert p (acked v)" "unacked ?v = unacked v - {p}" "p \<in> unacked v" "p \<notin> acked v"
    using assms(2,3) p by (auto simp: acked_def unacked_def)
  have out: "outstanding ?v = outstanding v"
    using outstanding_update [OF assms(2) dom, where b = ?b and st = "Some (Assigned (k + 1))" and x = "jv_budget v"]
    by (simp add: outstanding_def)
  obtain r where r: "jv_reg v = Some r" "registrable n r"
    using assms(1,4) by (auto simp: job_ok_def split: option.splits)
  have cnt: "card (acked v) \<le> k \<and> k + card (unacked v) \<le> slots (requirements (extra r))
      \<and> slots (requirements (extra r)) < 2 ^ 8"
  proof (cases "jv_status v = Some Matched \<and> k = 0")
    case True
    with assms(1) r have "acked v = {}" "length (jv_procs v) \<le> slots (requirements (extra r))"
      "slots (requirements (extra r)) < 2 ^ 8"
      by (auto simp: job_ok_def)
    with True acked_unacked_card [OF dist dom] show ?thesis by simp
  next
    case False
    with assms(1,4) r show ?thesis by (auto simp: job_ok_def)
  qed
  have u: "card (unacked v) = Suc (card (unacked ?v))"
    unfolding ack(2) using ack(3) by (intro card.remove) auto
  have "card (acked ?v) = Suc (card (acked v))" unfolding ack(1) using ack(4) by simp
  with cnt u have "card (acked ?v) \<le> k + 1 \<and> k + 1 + card (unacked ?v) \<le> slots (requirements (extra r))"
    by linarith
  moreover have "dom (jv_match ?v) = set (jv_procs ?v)" using p dom by auto
  moreover have "outstanding ?v \<le> jv_budget ?v" using assms(1) out by (simp add: job_ok_def)
  moreover have "\<forall>q c. jv_match ?v q = Some c \<longrightarrow> sla_met (assignment_sla c) \<le> sla_total (assignment_sla c) \<and>
      sla_total (assignment_sla c) \<le> MAX_EXECUTIONS_PER_JOB \<and> (\<not> acknowledged c \<longrightarrow> sla_met (assignment_sla c) = 0)"
    using assms(1,2) by (simp add: job_ok_def)
  ultimately show ?thesis using r dist cnt unfolding job_ok_def by simp
qed

lemma job_ok_keys:
  assumes "job_ok n v" "jv_match v p = Some a" "acknowledged a"
  shows "job_ok n (v\<lparr>jv_match := (jv_match v)(p \<mapsto> a\<lparr>acknowledged := True, pub_keys := keys\<rparr>)\<rparr>)"
    (is "job_ok n ?v")
proof -
  let ?b = "a\<lparr>acknowledged := True, pub_keys := keys\<rparr>"
  have dom: "dom (jv_match v) = set (jv_procs v)" using assms(1) by (simp add: job_ok_def)
  then have p: "p \<in> set (jv_procs v)" using assms(2) by auto
  have out: "outstanding ?v = outstanding v"
    using outstanding_update [OF assms(2) dom, where b = ?b and st = "jv_status v" and x = "jv_budget v"]
    by (simp add: outstanding_def)
  have "acked ?v = acked v" "unacked ?v = unacked v"
    using assms(2,3) by (auto simp: acked_def unacked_def)
  then show ?thesis
    using assms p out by (auto simp: job_ok_def split: option.splits job_status.splits)
qed

lemma job_ok_report:
  assumes "job_ok n v" "jv_match v p = Some a" "acknowledged a"
    "sla_met (assignment_sla a) < sla_total (assignment_sla a)"
    "fee_per_execution_of a \<le> jv_budget v"
  shows "job_ok n (v\<lparr>jv_match := (jv_match v)(p \<mapsto> a\<lparr>assignment_sla :=
         (assignment_sla a)\<lparr>sla_met := sla_met (assignment_sla a) + 1\<rparr>\<rparr>),
       jv_budget := jv_budget v - fee_per_execution_of a\<rparr>)"
    (is "job_ok n ?v")
proof -
  let ?b = "a\<lparr>assignment_sla := (assignment_sla a)\<lparr>sla_met := sla_met (assignment_sla a) + 1\<rparr>\<rparr>"
  have dom: "dom (jv_match v) = set (jv_procs v)" and bud: "outstanding v \<le> jv_budget v"
    using assms(1) by (simp_all add: job_ok_def)
  then have p: "p \<in> set (jv_procs v)" using assms(2) by auto
  have "owed (Some a) = owed (Some ?b) + fee_per_execution_of a"
  proof -
    have "sla_total (assignment_sla a) - sla_met (assignment_sla a) =
        Suc (sla_total (assignment_sla a) - (sla_met (assignment_sla a) + 1))"
      using assms(4) by simp
    then show ?thesis by simp
  qed
  with outstanding_update [OF assms(2) dom, where b = ?b and st = "jv_status v" and x = "jv_budget v - fee_per_execution_of a"]
  have "outstanding ?v + fee_per_execution_of a = outstanding v"
    by (simp add: outstanding_def)
  with bud have out: "outstanding ?v \<le> jv_budget v - fee_per_execution_of a" by linarith
  have st: "jv_status v \<noteq> Some Open" "jv_reg v \<noteq> None"
    using assms(1) p by (auto simp: job_ok_def split: option.splits)
  have "acked ?v = acked v" "unacked ?v = unacked v"
    using assms(2,3) by (auto simp: acked_def unacked_def)
  then show ?thesis
    using assms p out st by (auto simp: job_ok_def split: option.splits job_status.splits)
qed

lemma job_ok_finish:
  assumes "job_ok n v" "jv_match v p \<noteq> None"
  shows "job_ok n (v\<lparr>jv_procs := filter (\<lambda>q. q \<noteq> p) (jv_procs v), jv_match := (jv_match v)(p := None)\<rparr>)"
    (is "job_ok n ?v")
proof -
  have dom: "dom (jv_match v) = set (jv_procs v)" using assms(1) by (simp add: job_ok_def)
  then have p: "p \<in> set (jv_procs v)" using assms(2) by auto
  have out: "outstanding ?v \<le> jv_budget v"
    using outstanding_remove [of v p] assms(1) by (simp add: job_ok_def)
  have sub: "acked ?v \<subseteq> acked v" "unacked ?v \<subseteq> unacked v" by (auto simp: acked_def unacked_def)
  then have card: "card (acked ?v) \<le> card (acked v)" "card (unacked ?v) \<le> card (unacked v)"
    by (simp_all add: card_mono)
  show ?thesis
    using assms(1) p out card sub dom
    by (auto simp: job_ok_def intro: order_trans [OF length_filter_le]
        split: option.splits job_status.splits)
qed

lemma job_ok_close:
  "job_ok n \<lparr>jv_status = None, jv_reg = None, jv_procs = [], jv_match = Map.empty, jv_budget = 0\<rparr>"
  by (simp add: job_ok_def outstanding_def)

lemma job_step_ok: "job_step n v v' \<Longrightarrow> job_ok n v \<Longrightarrow> job_ok n v'"
  by (induction rule: job_step.induct)
    (simp_all add: job_ok_open job_ok_sources job_ok_match job_ok_acknowledge job_ok_keys job_ok_report
      job_ok_finish job_ok_close del: One_nat_def)

lemma job_steps_ok: "(job_step n)\<^sup>*\<^sup>* v v' \<Longrightarrow> job_ok n v \<Longrightarrow> job_ok n v'"
  by (induction rule: rtranclp_induct) (auto intro: job_step_ok)

end
