(* ===== verification/Market_Refinement.thy ===== *)
theory Market_Refinement
  imports Job_Lifecycle
begin

text \<open>
  What the marketplace relies on (locale \<open>market_env\<close>), how each storage operation changes the
  view of a job, and what \<open>process_matching\<close> does to the jobs it matches.
\<close>

section \<open>The environment\<close>

text \<open>
  What the marketplace relies on: the currency keeps its laws, and the \<open>MarketplaceHooks\<close> only
  touch the storage of other pallets.
\<close>

locale market_env =
  fixes cfg :: "('c, 'z) market_config"
  assumes currency: "currency_laws (payments cfg)"
    and assign_job_frame: "assign_job cfg j keys s = Inr s' \<Longrightarrow> market_state.truncate s' = market_state.truncate s"
    and finalize_hook_frame: "finalize_job_hook cfg j x s = Inr s' \<Longrightarrow> market_state.truncate s' = market_state.truncate s"

section \<open>Views under the storage operations\<close>

lemma truncate_fields:
  assumes "market_state.truncate s' = market_state.truncate s"
  shows "unix_millis s' = unix_millis s" "local_job_id_sequence s' = local_job_id_sequence s"
    "stored_job_registration s' = stored_job_registration s"
    "execution_environment s' = execution_environment s" "stored_attestation s' = stored_attestation s"
    "stored_revoked_certificate s' = stored_revoked_certificate s" "acurast_events s' = acurast_events s"
    "stored_job_status s' = stored_job_status s" "stored_matches s' = stored_matches s"
    "assigned_processors s' = assigned_processors s" "job_budgets s' = job_budgets s"
    "market_currency s' = market_currency s"
    "stored_advertisement_restriction s' = stored_advertisement_restriction s"
    "stored_storage_capacity s' = stored_storage_capacity s"
  using assms by (simp_all add: market_state.truncate_def)

named_theorems view_simps \<open>the view of a job under storage updates\<close>

lemma get_match_simps [view_simps]:
  "get_match p j (put_match q k a s) = (if p = q \<and> j = k then Some a else get_match p j s)"
  "get_match p j (remove_match q k s) = (if p = q \<and> j = k then None else get_match p j s)"
  by (auto simp: get_match_def put_match_def remove_match_def update_conv' delete_conv')

lemma view_unchanged [view_simps]:
  "job_view_of j (deposit_market_event e s) = job_view_of j s"
  "job_view_of j (release_capacity p x s) = job_view_of j s"
  "job_view_of j (s\<lparr>stored_total_assigned := ta\<rparr>) = job_view_of j s"
  "job_view_of j (s\<lparr>stored_storage_capacity := sc\<rparr>) = job_view_of j s"
  "job_view_of j (s\<lparr>market_currency := c\<rparr>) = job_view_of j s"
  "job_view_of j (deposit_acurast_event ae s) = job_view_of j s"
  "job_view_of j (clear_environment_for n k s) = job_view_of j s"
  by (simp_all add: job_view_of_def deposit_market_event_def release_capacity_def get_match_def
      assigned_to_def deposit_acurast_event_def clear_environment_for_def)

lemma view_set_status [view_simps]:
  "job_view_of j (set_status k st s) =
     (if j = k then (job_view_of j s)\<lparr>jv_status := st\<rparr> else job_view_of j s)"
  by (simp add: job_view_of_def set_status_def get_match_def assigned_to_def)

lemma view_registration [view_simps]:
  "job_view_of j (s\<lparr>stored_job_registration := (stored_job_registration s)(k := r)\<rparr>) =
     (if j = k then (job_view_of j s)\<lparr>jv_reg := r\<rparr> else job_view_of j s)"
  by (simp add: job_view_of_def get_match_def assigned_to_def)

lemma view_put_match [view_simps]:
  "job_view_of j (put_match p k a s) =
     (if j = k then (job_view_of j s)\<lparr>jv_match := (jv_match (job_view_of j s))(p \<mapsto> a)\<rparr> else job_view_of j s)"
  by (auto simp: job_view_of_def get_match_simps fun_eq_iff)
    (auto simp: put_match_def assigned_to_def)

lemma view_remove_match [view_simps]:
  "job_view_of j (remove_match p k s) =
     (if j = k then (job_view_of j s)\<lparr>jv_match := (jv_match (job_view_of j s))(p := None)\<rparr> else job_view_of j s)"
  by (auto simp: job_view_of_def get_match_simps fun_eq_iff)
    (auto simp: remove_match_def assigned_to_def)

lemma view_assigned [view_simps]:
  "job_view_of j (s\<lparr>assigned_processors := (assigned_processors s)(k := al)\<rparr>) =
     (if j = k then (job_view_of j s)\<lparr>jv_procs := map fst al\<rparr> else job_view_of j s)"
  by (simp add: job_view_of_def get_match_def assigned_to_def)

lemma view_clear_assigned [view_simps]:
  "job_view_of j (clear_assigned n k s) =
     (if j = k then (job_view_of j s)\<lparr>jv_procs := drop n (jv_procs (job_view_of j s))\<rparr> else job_view_of j s)"
  by (simp add: clear_assigned_def view_assigned) (simp add: job_view_of_def assigned_to_def drop_map)

lemma view_budgets [view_simps]:
  "job_view_of j (s\<lparr>job_budgets := b\<rparr>) = (job_view_of j s)\<lparr>jv_budget := b j\<rparr>"
  by (simp add: job_view_of_def get_match_def assigned_to_def)

lemma view_budget_self [view_simps]: "(job_view_of j s)\<lparr>jv_budget := job_budgets s j\<rparr> = job_view_of j s"
  by (simp add: job_view_of_def)

text \<open>Updates of a view are brought into the order of its fields.\<close>

lemma view_update_order [view_simps]:
  "v\<lparr>jv_reg := a1, jv_status := a0\<rparr> = v\<lparr>jv_status := a0, jv_reg := a1\<rparr>"
  "v\<lparr>jv_procs := a2, jv_status := a0\<rparr> = v\<lparr>jv_status := a0, jv_procs := a2\<rparr>"
  "v\<lparr>jv_procs := a2, jv_reg := a1\<rparr> = v\<lparr>jv_reg := a1, jv_procs := a2\<rparr>"
  "v\<lparr>jv_match := a3, jv_status := a0\<rparr> = v\<lparr>jv_status := a0, jv_match := a3\<rparr>"
  "v\<lparr>jv_match := a3, jv_reg := a1\<rparr> = v\<lparr>jv_reg := a1, jv_match := a3\<rparr>"
  "v\<lparr>jv_match := a3, jv_procs := a2\<rparr> = v\<lparr>jv_procs := a2, jv_match := a3\<rparr>"
  "v\<lparr>jv_budget := a4, jv_status := a0\<rparr> = v\<lparr>jv_status := a0, jv_budget := a4\<rparr>"
  "v\<lparr>jv_budget := a4, jv_reg := a1\<rparr> = v\<lparr>jv_reg := a1, jv_budget := a4\<rparr>"
  "v\<lparr>jv_budget := a4, jv_procs := a2\<rparr> = v\<lparr>jv_procs := a2, jv_budget := a4\<rparr>"
  "v\<lparr>jv_budget := a4, jv_match := a3\<rparr> = v\<lparr>jv_match := a3, jv_budget := a4\<rparr>"
  by (cases v; simp)+

lemma view_truncate:
  assumes "market_state.truncate s' = market_state.truncate s"
  shows "job_view_of j s' = job_view_of j s"
  by (simp add: job_view_of_def get_match_def assigned_to_def truncate_fields [OF assms])

lemma view_fields [simp]:
  "jv_status (job_view_of j s) = stored_job_status s j"
  "jv_reg (job_view_of j s) = stored_job_registration s j"
  "jv_procs (job_view_of j s) = assigned_to j s"
  "jv_match (job_view_of j s) = (\<lambda>p. get_match p j s)"
  "jv_budget (job_view_of j s) = job_budgets s j"
  by (simp_all add: job_view_of_def)

section \<open>Matching\<close>

lemma lift_mp_Inr [result_simps]: "lift_mp r = Inr x \<longleftrightarrow> r = Inr x"
  by (simp add: lift_mp_def map_err_Inr)

text \<open>The assignment a matched source gets, and the storage after its turn of the loop.\<close>

definition new_assignment :: "market_registration \<Rightarrow> nat \<Rightarrow> planned_execution \<Rightarrow> balance \<Rightarrow> assignment" where
  "new_assignment reg i pe fee =
     \<lparr>slot = i mod 2 ^ 8, as_start_delay = pe_start_delay pe, fee_per_execution_of = fee,
      acknowledged = False,
      assignment_sla = \<lparr>sla_total = execution_count (job_schedule reg), sla_met = 0\<rparr>, pub_keys = []\<rparr>"

lemma match_source_Inr:
  assumes "match_source cfg now reg j (i, pe) (t, s) = Inr (t', s')"
  obtains ad pricing fee cap where
    "\<not> allow_only_verified_sources reg \<or> is_ok (ensure_source_verified (pe_source pe) s)"
    "stored_advertisement_restriction s (pe_source pe) = Some ad"
    "check_modules (required_modules reg) ad = Inr ()"
    "stored_advertisement_pricing s (pe_source pe) = Some pricing"
    "check_scheduling_window (pr_scheduling_window pricing) (job_schedule reg) now (pe_start_delay pe) = Inr ()"
    "memory reg \<le> max_memory ad"
    "check_network_request_quota_sufficient ad (job_schedule reg) (network_requests reg) = Inr ()"
    "stored_storage_capacity s (pe_source pe) = Some cap" "int (storage reg) \<le> cap"
    "is_source_whitelisted (pe_source pe) (allowed_sources reg)"
    "is_consumer_whitelisted (fst j) (allowed_consumers ad)"
    "check_min_reputation (fixed_point cfg) (min_reputation (requirements (extra reg))) (pe_source pe) s = Inr ()"
    "fits_schedule cfg (pe_source pe) (job_schedule reg) (pe_start_delay pe) s = Inr ()"
    "fee_per_execution (job_schedule reg) (storage reg) pricing = Inr fee"
    "fee \<le> reward (requirements (extra reg))"
    "t' = t + fee * execution_count (job_schedule reg)" "t' < 2 ^ 128"
    "get_match (pe_source pe) j s = None"
    "s' = (put_match (pe_source pe) j (new_assignment reg i pe fee) s)
        \<lparr>assigned_processors := (assigned_processors s)
           (j := AList.update (pe_source pe) () (assigned_processors s j)),
         stored_storage_capacity := (stored_storage_capacity s)
           (pe_source pe := checked_i64 (cap - int (storage reg)))\<rparr>"
proof -
  have pm: "assigned_processors (put_match p k a s) = assigned_processors s"
    "stored_storage_capacity (put_match p k a s) = stored_storage_capacity s" for p k a
    by (simp_all add: put_match_def)
  from assms show ?thesis
    unfolding match_source_def Let_def prod.case bind_r_Inr ensure_Inr ok_or_Inr
      checked_mul_Some checked_add_Some
    by (elim exE conjE) (rule that, (assumption | simp add: new_assignment_def pm)+)
qed

lemma update_keys_list:
  "map fst (AList.update k v al) = (if k \<in> fst ` set al then map fst al else map fst al @ [k])"
  by (induction al) auto

lemma new_assignment_fresh:
  "fee \<le> reward (requirements (extra reg)) \<Longrightarrow> fresh_assignment reg (new_assignment reg i pe fee)"
  by (simp add: fresh_assignment_def new_assignment_def)

text \<open>Storage of the job hooks' caller and everything else a match leaves alone.\<close>

definition same_but_matches :: "('c, 'z) market_state_scheme \<Rightarrow> ('c, 'z) market_state_scheme \<Rightarrow> bool" where
  "same_but_matches s s' \<longleftrightarrow>
     same_acurast_storage s s' \<and> job_budgets s' = job_budgets s \<and> market_currency s' = market_currency s \<and>
     stored_advertisement_restriction s' = stored_advertisement_restriction s \<and>
     stored_advertisement_pricing s' = stored_advertisement_pricing s \<and>
     stored_reputation s' = stored_reputation s"

lemma same_but_matches_refl [simp]: "same_but_matches s s"
  by (simp add: same_but_matches_def)

lemma same_but_matches_trans [trans]:
  "same_but_matches s t \<Longrightarrow> same_but_matches t u \<Longrightarrow> same_but_matches s u"
  by (auto simp: same_but_matches_def intro: same_acurast_storage_trans)

definition views_consistent :: "job_id \<Rightarrow> ('c, 'z) market_state_scheme \<Rightarrow> bool" where
  "views_consistent j s \<longleftrightarrow> distinct (assigned_to j s) \<and> (\<forall>p. get_match p j s \<noteq> None \<longleftrightarrow> p \<in> set (assigned_to j s))"

lemma match_source_view:
  assumes "match_source cfg now reg j (i, pe) (t, s) = Inr (t', s')" and "views_consistent j s"
  obtains a where "fresh_assignment reg a" and "get_match (pe_source pe) j s = None"
    and "job_view_of j s' = (job_view_of j s)\<lparr>jv_procs := assigned_to j s @ [pe_source pe],
           jv_match := (\<lambda>p. get_match p j s)(pe_source pe \<mapsto> a)\<rparr>"
    and "\<And>k. k \<noteq> j \<Longrightarrow> job_view_of k s' = job_view_of k s"
    and "t' = t + owed (Some a)" and "t' < 2 ^ 128" and "same_but_matches s s'"
  using assms(1)
proof (rule match_source_Inr)
  fix ad pricing fee cap
  let ?p = "pe_source pe" and ?a = "new_assignment reg i pe fee"
  assume fee: "fee \<le> reward (requirements (extra reg))"
    and t': "t' = t + fee * execution_count (job_schedule reg)" "t' < 2 ^ 128"
    and none: "get_match ?p j s = None"
    and s': "s' = (put_match ?p j ?a s)
        \<lparr>assigned_processors := (assigned_processors s)(j := AList.update ?p () (assigned_processors s j)),
         stored_storage_capacity := (stored_storage_capacity s)
           (?p := checked_i64 (cap - int (storage reg)))\<rparr>"
  have "?p \<notin> fst ` set (assigned_processors s j)"
    using assms(2) none by (simp add: views_consistent_def assigned_to_def) (metis option.distinct(1))
  then have ps: "map fst (AList.update ?p () (assigned_processors s j)) = assigned_to j s @ [?p]"
    by (simp add: update_keys_list assigned_to_def)
  have s'': "s' = (put_match ?p j ?a s)
        \<lparr>assigned_processors := (assigned_processors (put_match ?p j ?a s))
            (j := AList.update ?p () (assigned_processors s j)),
         stored_storage_capacity := (stored_storage_capacity s)
           (?p := checked_i64 (cap - int (storage reg)))\<rparr>"
    unfolding s' by (simp add: put_match_def)
  show thesis
  proof (rule that)
    show "fresh_assignment reg ?a" using fee by (rule new_assignment_fresh)
    show "job_view_of j s' = (job_view_of j s)\<lparr>jv_procs := assigned_to j s @ [?p],
        jv_match := (\<lambda>p. get_match p j s)(?p \<mapsto> ?a)\<rparr>"
      unfolding s'' by (simp add: view_simps ps)
    show "job_view_of k s' = job_view_of k s" if "k \<noteq> j" for k
      unfolding s'' using that by (simp add: view_simps)
    show "t' = t + owed (Some ?a)" using t' by (simp add: new_assignment_def)
    show "same_but_matches s s'"
      by (simp add: s' same_but_matches_def same_acurast_storage_def put_match_def)
  qed (use none t' in auto)
qed

lemma match_sources_view:
  assumes "fold_r (match_source cfg now reg j) xs (t, s) = Inr (t', s')" and "views_consistent j s"
  shows "views_consistent j s' \<and> same_but_matches s s' \<and>
    (\<forall>k. k \<noteq> j \<longrightarrow> job_view_of k s' = job_view_of k s) \<and>
    job_view_of j s' = (job_view_of j s)\<lparr>jv_procs := assigned_to j s @ map (pe_source \<circ> snd) xs,
        jv_match := (\<lambda>p. get_match p j s')\<rparr> \<and>
    (\<forall>p a. get_match p j s' = Some a \<longrightarrow> get_match p j s = Some a \<or> fresh_assignment reg a) \<and>
    t' + outstanding (job_view_of j s) = t + outstanding (job_view_of j s')"
  using assms
proof (induction xs arbitrary: t s)
  case (Cons x xs)
  obtain i pe where x: "x = (i, pe)" by (cases x)
  from Cons.prems(1) obtain t1 s1 where step: "match_source cfg now reg j (i, pe) (t, s) = Inr (t1, s1)"
    and rest: "fold_r (match_source cfg now reg j) xs (t1, s1) = Inr (t', s')"
    by (auto simp: x bind_r_Inr)
  let ?p = "pe_source pe"
  from step Cons.prems(2) obtain a where a: "fresh_assignment reg a" "get_match ?p j s = None"
    and v: "job_view_of j s1 = (job_view_of j s)\<lparr>jv_procs := assigned_to j s @ [?p],
           jv_match := (\<lambda>p. get_match p j s)(?p \<mapsto> a)\<rparr>"
    and other: "\<And>k. k \<noteq> j \<Longrightarrow> job_view_of k s1 = job_view_of k s"
    and t1: "t1 = t + owed (Some a)" and same: "same_but_matches s s1"
    by (rule match_source_view) blast
  have ps: "assigned_to j s1 = assigned_to j s @ [?p]"
    using arg_cong [OF v, of jv_procs] by simp
  have ms: "get_match p j s1 = (if p = ?p then Some a else get_match p j s)" for p
    using arg_cong [OF v, of "\<lambda>v. jv_match v p"] by simp
  have p: "?p \<notin> set (assigned_to j s)" using Cons.prems(2) a(2) unfolding views_consistent_def by metis
  have cons: "views_consistent j s1"
    using Cons.prems(2) p by (auto simp: views_consistent_def ps ms)
  have "(\<Sum>q\<in>set (assigned_to j s). owed (get_match q j s1)) = (\<Sum>q\<in>set (assigned_to j s). owed (get_match q j s))"
    using p by (intro sum.cong) (auto simp: ms)
  then have out: "outstanding (job_view_of j s1) = outstanding (job_view_of j s) + owed (Some a)"
    using p by (simp add: outstanding_def ps ms)
  note IH = Cons.IH [OF rest cons]
  have "\<forall>p b. get_match p j s' = Some b \<longrightarrow> get_match p j s = Some b \<or> fresh_assignment reg b"
    using IH a(1) ms by (metis option.inject)
  then show ?case
    using IH out v other t1 same by (simp add: x ps) (blast intro: same_but_matches_trans)
qed (simp add: job_view_of_def)

text \<open>What \<open>process_matching\<close> does to a job it matches: \<open>d\<close> is the reward left over.\<close>

definition match_result :: "job_view \<Rightarrow> market_registration \<Rightarrow> nat \<Rightarrow> job_view \<Rightarrow> bool" where
  "match_result v r d v' \<longleftrightarrow>
     jv_status v = Some Open \<and> jv_reg v = Some r \<and> distinct (jv_procs v') \<and>
     length (jv_procs v') = slots (requirements (extra r)) \<and> length (jv_procs v') < 2 ^ 8 \<and>
     dom (jv_match v') = set (jv_procs v') \<and>
     (\<forall>p a. jv_match v' p = Some a \<longrightarrow> fresh_assignment r a) \<and>
     outstanding v' + d = total_reward r \<and>
     v' = v\<lparr>jv_status := Some Matched, jv_procs := jv_procs v', jv_match := jv_match v'\<rparr>"

lemma total_reward_amount_Inr:
  "total_reward_amount r = Inr x \<Longrightarrow> x = total_reward r"
  by (auto simp: total_reward_amount_def total_reward_def Let_def result_simps int_simps)

text \<open>What \<open>process_matching\<close> needs of the jobs: an open job has no matches yet.\<close>

definition open_ok :: "u32 \<Rightarrow> job_view \<Rightarrow> bool" where
  "open_ok n v \<longleftrightarrow> (jv_status v = Some Open \<longrightarrow>
     jv_procs v = [] \<and> jv_match v = Map.empty \<and> (\<exists>r. jv_reg v = Some r \<and> registrable n r))"

lemma job_ok_open_ok: "job_ok n v \<Longrightarrow> open_ok n v"
  by (auto simp: job_ok_def open_ok_def split: option.splits)

lemma open_ok_view:
  assumes "open_ok n v" and "jv_status v = Some Open"
  shows "jv_procs v = []" "jv_match v = Map.empty" "\<exists>r. jv_reg v = Some r \<and> registrable n r"
  using assms by (auto simp: open_ok_def)

lemma process_match_Inr:
  assumes "process_match cfg m (rs, s) = Inr (rs', s')"
  obtains (skip) "stored_job_status s (match_job_id m) \<noteq> Some Open" "rs' = rs" "s' = s"
  | (matched) reg now t s1 total where
    "stored_job_status s (match_job_id m) = Some Open"
    "stored_job_registration s (match_job_id m) = Some reg" "market_now s = Inr now"
    "now < start_time (job_schedule reg)"
    "(if length (match_sources m) < 2 ^ 8 then length (match_sources m) else 0) = slots (requirements (extra reg))"
    "fold_r (match_source cfg now reg (match_job_id m)) (enumerate 0 (match_sources m)) (0, s) = Inr (t, s1)"
    "total_reward_amount reg = Inr total" "t \<le> total"
    "rs' = rs @ [(match_job_id m, total - t)]"
    "s' = deposit_market_event (JobRegistrationMatched m) (set_status (match_job_id m) (Some Matched)
        (s1\<lparr>stored_total_assigned := Some (saturating_add 128 (unwrap_or (stored_total_assigned s1) 0) 1)\<rparr>))"
proof (cases "stored_job_status s (match_job_id m) = Some Open")
  case True
  with assms show ?thesis
    by (clarsimp simp: process_match_def Let_def result_simps checked_sub_Some)
      (rule matched, (assumption | simp)+)
next
  case False
  with assms show ?thesis
    by (auto simp: process_match_def Let_def result_simps split: if_splits intro!: skip)
qed

lemma snd_enumerate_comp: "map (f \<circ> snd) (enumerate n xs) = map f xs"
  by (metis map_map map_snd_enumerate)

lemma process_match_view:
  assumes step: "process_match cfg m (rs, s) = Inr (rs', s')" and ok: "\<And>j. open_ok n (job_view_of j s)"
  shows "rs' = rs \<and> s' = s \<or>
    (\<exists>r d. stored_job_status s (match_job_id m) = Some Open \<and> rs' = rs @ [(match_job_id m, d)] \<and>
       match_result (job_view_of (match_job_id m) s) r d (job_view_of (match_job_id m) s') \<and>
       same_but_matches s s' \<and> (\<forall>k. k \<noteq> match_job_id m \<longrightarrow> job_view_of k s' = job_view_of k s))"
  using step
proof (cases rule: process_match_Inr)
  case skip
  then show ?thesis by simp
next
  case (matched reg now t s1 total)
  let ?j = "match_job_id m" and ?ps = "map pe_source (match_sources m)"
  let ?v = "job_view_of ?j s" and ?v' = "job_view_of ?j s'"
  have st: "jv_status ?v = Some Open" using matched by simp
  note ov = open_ok_view [OF ok st]
  have cons: "views_consistent ?j s"
    using ov(1,2) by (auto simp: views_consistent_def fun_eq_iff)
  note loop = match_sources_view [OF matched(6) cons, unfolded snd_enumerate_comp]
  have reg: "0 < slots (requirements (extra reg))"
    using ov(3) matched(2) by (auto simp: registrable_def)
  then have len: "length ?ps = slots (requirements (extra reg))" "length ?ps < 2 ^ 8"
    using matched(5) by (auto split: if_splits)
  have ps: "assigned_to ?j s1 = ?ps"
    using arg_cong [OF conjunct1 [OF conjunct2 [OF conjunct2 [OF conjunct2 [OF loop]]]], of jv_procs]
      ov(1) by simp
  have v1: "job_view_of ?j s1 = ?v\<lparr>jv_procs := ?ps, jv_match := (\<lambda>p. get_match p ?j s1)\<rparr>"
    using loop ov(1) by simp
  have v': "?v' = (job_view_of ?j s1)\<lparr>jv_status := Some Matched\<rparr>"
    by (simp add: matched(10) view_simps)
  have out: "outstanding ?v' = outstanding (job_view_of ?j s1)" by (simp add: v' outstanding_def)
  have "outstanding ?v = 0" using ov(1) by (simp add: outstanding_def)
  then have "t = outstanding ?v'" using loop out by simp
  then have sum: "outstanding ?v' + (total - t) = total_reward reg"
    using total_reward_amount_Inr [OF matched(7)] matched(8) by simp
  have dom: "dom (\<lambda>p. get_match p ?j s1) = set ?ps" and dist: "distinct ?ps"
    using loop unfolding views_consistent_def ps by (auto simp: dom_def)
  have fresh: "\<forall>p a. get_match p ?j s1 = Some a \<longrightarrow> fresh_assignment reg a"
    using loop ov(2) by (auto simp: fun_eq_iff)
  have "match_result ?v reg (total - t) ?v'"
    unfolding match_result_def
    using st matched(2) dist len dom fresh sum v' v1 by simp
  moreover have "same_but_matches s s'"
    using loop by (simp add: matched(10) same_but_matches_def same_acurast_storage_def
        deposit_market_event_def set_status_def)
  moreover have "\<forall>k. k \<noteq> ?j \<longrightarrow> job_view_of k s' = job_view_of k s"
    using loop by (simp add: matched(10) view_simps)
  ultimately show ?thesis using matched(1,9) by blast
qed

text \<open>The whole loop, relative to the state \<open>s0\<close> it starts in.\<close>

definition matched_from :: "('c, 'z) market_state_scheme \<Rightarrow> (job_id \<times> balance) list \<Rightarrow> ('c, 'z) market_state_scheme \<Rightarrow> bool" where
  "matched_from s0 rs s \<longleftrightarrow> distinct (map fst rs) \<and> same_but_matches s0 s \<and>
     (\<forall>j. case map_of rs j of
            None \<Rightarrow> job_view_of j s = job_view_of j s0
          | Some d \<Rightarrow> \<exists>r. match_result (job_view_of j s0) r d (job_view_of j s))"

lemma match_result_step:
  assumes "match_result v r d v'" and "job_ok n v" and "share \<le> d"
  shows "job_step n v (v'\<lparr>jv_budget := jv_budget v - share\<rparr>)"
proof -
  have v': "v'\<lparr>jv_budget := jv_budget v - share\<rparr> = v\<lparr>jv_status := Some Matched, jv_procs := jv_procs v',
      jv_match := jv_match v', jv_budget := jv_budget v - share\<rparr>"
    using assms(1) by (cases v; cases v') (simp add: match_result_def)
  have "share \<le> total_reward r" using assms(1,3) by (simp add: match_result_def)
  also have "total_reward r \<le> jv_budget v"
    using assms(1,2) by (auto simp: match_result_def job_ok_def)
  finally have "share \<le> jv_budget v" .
  then show ?thesis unfolding v' using assms(1,3)
    by (intro job_step.match_job [of _ r]) (auto simp: match_result_def outstanding_def)
qed

lemma match_result_budget:
  "match_result v r d v' \<Longrightarrow> match_result (v\<lparr>jv_budget := x\<rparr>) r d (v'\<lparr>jv_budget := x\<rparr>)"
  by (cases v; cases v') (simp add: match_result_def outstanding_def)

lemma match_result_status:
  assumes "match_result v r d v'"
  shows "jv_status v' = Some Matched"
  using assms by (cases v; cases v') (simp add: match_result_def)

lemma matched_from_None: "matched_from s0 rs s \<Longrightarrow> map_of rs j = None \<Longrightarrow> job_view_of j s = job_view_of j s0"
  unfolding matched_from_def by (drule conjunct2, drule conjunct2, drule spec [of _ j]) simp

lemma matched_from_Some:
  "matched_from s0 rs s \<Longrightarrow> map_of rs j = Some d \<Longrightarrow> \<exists>r. match_result (job_view_of j s0) r d (job_view_of j s)"
  unfolding matched_from_def by (drule conjunct2, drule conjunct2, drule spec [of _ j]) simp

lemma matched_from_ok:
  assumes "matched_from s0 rs s" and "open_ok n (job_view_of j s0)"
  shows "open_ok n (job_view_of j s)"
proof (cases "map_of rs j")
  case None
  then show ?thesis using matched_from_None [OF assms(1)] assms(2) by simp
next
  case (Some d)
  then have "jv_status (job_view_of j s) = Some Matched"
    using matched_from_Some [OF assms(1)] match_result_status by blast
  then show ?thesis by (simp add: open_ok_def)
qed

lemma matched_from_step:
  assumes mf: "matched_from s0 rs s" and ok: "\<And>j. open_ok n (job_view_of j s0)"
    and step: "process_match cfg m (rs, s) = Inr (rs', s')"
  shows "matched_from s0 rs' s'"
  using process_match_view [OF step matched_from_ok [OF mf ok]]
proof (elim disjE exE conjE)
  fix r d
  let ?j = "match_job_id m"
  assume st: "stored_job_status s ?j = Some Open" and rs': "rs' = rs @ [(?j, d)]"
    and res: "match_result (job_view_of ?j s) r d (job_view_of ?j s')"
    and same: "same_but_matches s s'"
    and other: "\<forall>k. k \<noteq> ?j \<longrightarrow> job_view_of k s' = job_view_of k s"
  have none: "map_of rs ?j = None"
  proof (rule ccontr)
    assume "map_of rs ?j \<noteq> None"
    then have "jv_status (job_view_of ?j s) = Some Matched"
      using matched_from_Some [OF mf] match_result_status by blast
    with st show False by simp
  qed
  note vj = matched_from_None [OF mf none]
  have "?j \<notin> set (map fst rs)" using none by (simp add: map_of_eq_None_iff)
  then have "distinct (map fst rs')" using mf by (simp add: rs' matched_from_def)
  moreover have "same_but_matches s0 s'"
    using mf same by (auto simp: matched_from_def intro: same_but_matches_trans)
  moreover have "case map_of rs' k of None \<Rightarrow> job_view_of k s' = job_view_of k s0
      | Some d \<Rightarrow> \<exists>r. match_result (job_view_of k s0) r d (job_view_of k s')" for k
  proof (cases "k = ?j")
    case True
    then show ?thesis using none res vj by (auto simp: rs' map_add_def)
  next
    case False
    then have "map_of rs' k = map_of rs k" by (simp add: rs' map_add_def split: option.splits)
    moreover have "job_view_of k s' = job_view_of k s" using other False by blast
    ultimately show ?thesis
      using matched_from_None [OF mf, of k] matched_from_Some [OF mf, of k] by (simp split: option.splits)
  qed
  ultimately show ?thesis by (simp add: matched_from_def)
qed (use mf in simp)

lemma process_matching_view:
  assumes "process_matching cfg matching s0 = Inr (rs, s)" and ok: "\<And>j. open_ok n (job_view_of j s0)"
  shows "matched_from s0 rs s"
proof -
  have "case_prod (matched_from s0) (rs, s)"
  proof (rule fold_r_invariant [where f = "process_match cfg" and xs = matching and s = "([], s0)"])
    show "fold_r (process_match cfg) matching ([], s0) = Inr (rs, s)"
      using assms(1) by (simp add: process_matching_def)
    show "case_prod (matched_from s0) ([], s0)" by (simp add: matched_from_def)
    show "case_prod (matched_from s0) x'"
      if "case_prod (matched_from s0) x" and "process_match cfg m x = Inr x'" for m x x'
      using matched_from_step [OF _ ok] that by (cases x; cases x') simp
  qed
  then show ?thesis by simp
qed

lemma match_source_frame: "match_source cfg now reg j x (t, s) = Inr (t', s') \<Longrightarrow> same_but_matches s s'"
  by (cases x; simp only:; erule match_source_Inr;
      simp add: same_but_matches_def same_acurast_storage_def put_match_def)

lemma match_sources_frame:
  "fold_r (match_source cfg now reg j) xs (t, s) = Inr (t', s') \<Longrightarrow> same_but_matches s s'"
  by (induction xs arbitrary: t s)
    (auto simp: bind_r_Inr intro: same_but_matches_trans dest: match_source_frame)

lemma process_match_frame: "process_match cfg m (rs, s) = Inr (rs', s') \<Longrightarrow> same_but_matches s s'"
  by (erule process_match_Inr)
    (auto dest!: match_sources_frame simp: same_but_matches_def same_acurast_storage_def
      deposit_market_event_def set_status_def)

lemma process_matching_frame: "process_matching cfg ms s = Inr (rs, s') \<Longrightarrow> same_but_matches s s'"
  unfolding process_matching_def
proof (induction ms arbitrary: rs s' rule: rev_induct)
  case (snoc m ms)
  then show ?case
    by (auto simp: fold_r_append bind_r_Inr intro: same_but_matches_trans dest: process_match_frame)
qed simp

text \<open>
  The checks a source passes for a job, apart from those on its other matches (capacity and
  schedule).
\<close>

definition eligible ::
  "('c, 'z) market_config \<Rightarrow> u64 \<Rightarrow> market_registration \<Rightarrow> job_id \<Rightarrow> planned_execution \<Rightarrow>
   ('c, 'z) market_state_scheme \<Rightarrow> bool" where
  "eligible cfg now reg j pe s \<longleftrightarrow>
     (allow_only_verified_sources reg \<longrightarrow> ensure_source_verified (pe_source pe) s = Inr ()) \<and>
     is_source_whitelisted (pe_source pe) (allowed_sources reg) \<and>
     (case (stored_advertisement_restriction s (pe_source pe), stored_advertisement_pricing s (pe_source pe)) of
        (Some ad, Some pricing) \<Rightarrow>
          set (required_modules reg) \<subseteq> set (available_modules ad) \<and> memory reg \<le> max_memory ad \<and>
          is_consumer_whitelisted (fst j) (allowed_consumers ad) \<and>
          check_scheduling_window (pr_scheduling_window pricing) (job_schedule reg) now (pe_start_delay pe) = Inr () \<and>
          check_network_request_quota_sufficient ad (job_schedule reg) (network_requests reg) = Inr () \<and>
          check_min_reputation (fixed_point cfg) (min_reputation (requirements (extra reg))) (pe_source pe) s = Inr () \<and>
          (\<exists>fee. fee_per_execution (job_schedule reg) (storage reg) pricing = Inr fee \<and>
             fee \<le> reward (requirements (extra reg)))
      | _ \<Rightarrow> False)"

lemma check_modules_Inr: "check_modules ms ad = Inr () \<longleftrightarrow> set ms \<subseteq> set (available_modules ad)"
  by (induction ms) (auto simp: result_simps)

lemma eligible_cong:
  assumes "same_but_matches s s'"
  shows "eligible cfg now reg j pe s' = eligible cfg now reg j pe s"
proof -
  from assms have eqs: "stored_advertisement_restriction s' = stored_advertisement_restriction s"
    "stored_advertisement_pricing s' = stored_advertisement_pricing s"
    "ensure_source_verified (pe_source pe) s' = ensure_source_verified (pe_source pe) s"
    and rep: "stored_reputation s' = stored_reputation s"
    by (simp_all add: same_but_matches_def ensure_source_verified_cong)
  have "check_min_reputation F m p s' = check_min_reputation F m p s" for F m p
    unfolding check_min_reputation_def rep ..
  from this [of "fixed_point cfg" "min_reputation (requirements (extra reg))" "pe_source pe"]
  show ?thesis unfolding eligible_def eqs by (simp cong: option.case_cong)
qed

lemma match_source_eligible:
  assumes "match_source cfg now reg j (i, pe) (t, s) = Inr (t', s')"
  shows "eligible cfg now reg j pe s"
  using assms
  by (rule match_source_Inr) (auto simp: eligible_def check_modules_Inr is_ok_ex)

lemma match_source_start_delay:
  assumes "match_source cfg now reg j (i, pe) (t, s) = Inr (t', s')"
  shows "\<exists>a. get_match (pe_source pe) j s' = Some a \<and> as_start_delay a = pe_start_delay pe"
    and "get_match p j s = Some b \<Longrightarrow> get_match p j s' = Some b"
  using assms
  by (auto elim!: match_source_Inr simp: get_match_def put_match_def update_conv' new_assignment_def)

lemma match_sources_eligible:
  assumes "fold_r (match_source cfg now reg j) xs (t, s) = Inr (t', s')"
  shows "(\<forall>(i, pe) \<in> set xs. eligible cfg now reg j pe s \<and>
      (\<exists>a. get_match (pe_source pe) j s' = Some a \<and> as_start_delay a = pe_start_delay pe)) \<and>
    (\<forall>p b. get_match p j s = Some b \<longrightarrow> get_match p j s' = Some b)"
  using assms
proof (induction xs arbitrary: t s)
  case (Cons x xs)
  obtain i pe where x: "x = (i, pe)" by (cases x)
  from Cons.prems obtain t1 s1 where step: "match_source cfg now reg j (i, pe) (t, s) = Inr (t1, s1)"
    and rest: "fold_r (match_source cfg now reg j) xs (t1, s1) = Inr (t', s')"
    by (auto simp: x bind_r_Inr)
  have "same_but_matches s s1" using step by (rule match_source_frame)
  then have "eligible cfg now reg j p s1 = eligible cfg now reg j p s" for p by (rule eligible_cong)
  then show ?case
    using Cons.IH [OF rest] match_source_eligible [OF step] match_source_start_delay [OF step]
    by (fastforce simp: x)
qed simp

section \<open>Properties\<close>



end
