(* ===== verification/Market_Moves.thy ===== *)
theory Market_Moves
  imports Market_Refinement
begin

text \<open>
  The marketplace refines the life cycle of its jobs: every extrinsic and every job hook moves
  the view of each job by moves of \<open>job_step\<close> only. The marketplace's hooks also keep the
  contract \<open>job_hooks\<close> pallet acurast relies on (a sublocale of \<open>market_env\<close>).
\<close>

definition jobs_ok :: "('c, 'z) market_config \<Rightarrow> ('c, 'z) market_state_scheme \<Rightarrow> bool" where
  "jobs_ok cfg s \<longleftrightarrow> (\<forall>j. job_ok (mp_max_slots cfg) (job_view_of j s))"

definition jobs_move :: "('c, 'z) market_config \<Rightarrow> ('c, 'z) market_state_scheme \<Rightarrow> ('c, 'z) market_state_scheme \<Rightarrow> bool" where
  "jobs_move cfg s s' \<longleftrightarrow> (\<forall>j. (job_step (mp_max_slots cfg))\<^sup>*\<^sup>* (job_view_of j s) (job_view_of j s'))"

lemma jobs_okD: "jobs_ok cfg s \<Longrightarrow> job_ok (mp_max_slots cfg) (job_view_of j s)"
  by (simp add: jobs_ok_def)

lemma jobs_move_ok: "jobs_move cfg s s' \<Longrightarrow> jobs_ok cfg s \<Longrightarrow> jobs_ok cfg s'"
  unfolding jobs_move_def jobs_ok_def using job_steps_ok by blast

lemma jobs_move_refl [simp]: "jobs_move cfg s s"
  by (simp add: jobs_move_def)

lemma jobs_move_trans: "jobs_move cfg s t \<Longrightarrow> jobs_move cfg t u \<Longrightarrow> jobs_move cfg s u"
  unfolding jobs_move_def by (meson rtranclp_trans)

text \<open>A single job moves, the others keep their view.\<close>

lemma jobs_move_one:
  assumes "(job_step (mp_max_slots cfg))\<^sup>*\<^sup>* (job_view_of j s) (job_view_of j s')"
    and "\<And>k. k \<noteq> j \<Longrightarrow> job_view_of k s' = job_view_of k s"
  shows "jobs_move cfg s s'"
  unfolding jobs_move_def
proof
  fix k
  show "(job_step (mp_max_slots cfg))\<^sup>*\<^sup>* (job_view_of k s) (job_view_of k s')"
    using assms by (cases "k = j") auto
qed

lemma jobs_move_none: "(\<And>k. job_view_of k s' = job_view_of k s) \<Longrightarrow> jobs_move cfg s s'"
  by (simp add: jobs_move_def)

lemma with_funds_Inr:
  "with_funds f s = Inr s' \<longleftrightarrow>
     (\<exists>b c. f (job_budgets s, market_currency s) = Inr (b, c) \<and> s' = s\<lparr>job_budgets := b, market_currency := c\<rparr>)"
  by (auto simp: with_funds_def bind_r_Inr)

lemma reserved_jb [simp]: "reserved job_budget_ops b = b"
  by (simp add: job_budget_ops_def)

context market_env
begin

lemma propose_matching_moves:
  assumes "propose_matching cfg o' matches s = Inr s'" and ok: "jobs_ok cfg s"
  shows "jobs_move cfg s s'"
proof -
  let ?P = "payments cfg"
  from assms(1) obtain who rs s1 b c where pm: "process_matching cfg matches s = Inr (rs, s1)"
    and pay: "pay_matcher_reward job_budget_ops ?P rs who (job_budgets s1, market_currency s1) = Inr (b, c)"
    and s': "s' = s1\<lparr>job_budgets := b, market_currency := c\<rparr>"
    by (auto simp: propose_matching_def bind_r_Inr with_funds_Inr)
  note mf = process_matching_view [OF pm job_ok_open_ok [OF jobs_okD [OF ok]]]
  have dist: "distinct (map fst rs)" and bud: "job_budgets s1 = job_budgets s"
    using mf by (auto simp: matched_from_def same_but_matches_def)
  from pay obtain m where col: "collect_matcher_fees job_budget_ops ?P rs 0 (job_budgets s1) = Inr (m, b)"
    by (auto simp: pay_matcher_reward_def bind_r_Inr Let_def)
  note fees = jb.collect_matcher_fees_budgets [OF col dist, unfolded reserved_jb bud]
  have v': "job_view_of j s' = (job_view_of j s1)\<lparr>jv_budget := b j\<rparr>" for j
    by (simp add: s' view_simps)
  show ?thesis
    unfolding jobs_move_def
  proof
    fix j
    show "(job_step (mp_max_slots cfg))\<^sup>*\<^sup>* (job_view_of j s) (job_view_of j s')"
    proof (cases "map_of rs j")
      case None
      have "b j = job_budgets s j" using fees [of j] None by simp
      then have "job_view_of j s' = job_view_of j s"
        unfolding v' matched_from_None [OF mf None] by (simp add: job_view_of_def)
      then show ?thesis by simp
    next
      case (Some d)
      obtain r where res: "match_result (job_view_of j s) r d (job_view_of j s1)"
        using matched_from_Some [OF mf Some] by blast
      let ?share = "mul_floor ?P (get_matcher_percentage ?P) d"
      have "?share \<le> d" using currency by (simp add: currency_laws_def)
      from match_result_step [OF res jobs_okD [OF ok] this] show ?thesis
        using fees [of j] Some by (auto simp: v')
    qed
  qed
qed

end

lemma ack_count_small:
  assumes "job_ok n v" and "jv_match v p = Some a" and "\<not> acknowledged a" and "jv_status v = Some (Assigned k)"
  shows "k + 1 < 2 ^ 8"
proof -
  have "p \<in> unacked v" using assms(1-3) by (auto simp: unacked_def job_ok_def)
  then have "0 < card (unacked v)" by (simp add: card_gt_0_iff) blast
  moreover obtain r where "jv_reg v = Some r"
    using assms(1,4) by (auto simp: job_ok_def split: option.splits)
  with assms(1,4) have "k + card (unacked v) \<le> slots (requirements (extra r)) \<and> slots (requirements (extra r)) < 2 ^ 8"
    by (simp add: job_ok_def)
  ultimately show ?thesis by linarith
qed

lemma status_case_Inr:
  "(case st of Open \<Rightarrow> Inl e | Matched \<Rightarrow> Inr x | Assigned k \<Rightarrow> Inr (f k)) = Inr y \<longleftrightarrow>
     st = Matched \<and> y = x \<or> (\<exists>k. st = Assigned k \<and> y = f k)"
  by (cases st) auto

lemma put_match_fields [simp]:
  "stored_job_registration (put_match p k x s) = stored_job_registration s"
  "stored_job_status (put_match p k x s) = stored_job_status s"
  "market_now (put_match p k x s) = market_now s" "job_budgets (put_match p k x s) = job_budgets s"
  "market_currency (put_match p k x s) = market_currency s"
  by (simp_all add: put_match_def market_now_def now_millis_def)

context market_env
begin

lemma acknowledge_match_moves:
  assumes "acknowledge_match cfg o' j keys s = Inr s'" and ok: "jobs_ok cfg s"
  shows "jobs_move cfg s s'"
proof -
  from assms(1) obtain who a where a: "get_match who j s = Some a"
    and step: "acknowledge_match cfg (Signed who) j keys s = Inr s'"
    by (auto simp: acknowledge_match_def result_simps)
  let ?b = "a\<lparr>acknowledged := True, pub_keys := keys\<rparr>" and ?v = "job_view_of j s"
  have m: "jv_match ?v who = Some a" using a by simp
  show ?thesis
  proof (cases "acknowledged a")
    case True
    then have s': "s' = put_match who j ?b s"
      using step a by (simp add: acknowledge_match_def)
    show ?thesis
      using job_step.change_keys [OF m True, of "mp_max_slots cfg" keys]
      by (intro jobs_move_one [of cfg j]) (auto simp: s' view_simps)
  next
    case False
    from step a False obtain st st' s2 where st: "stored_job_status s j = Some st"
      and st': "st = Matched \<and> st' = Assigned 1 \<or> (\<exists>k. st = Assigned k \<and> st' = Assigned (wrapping_add 8 k 1))"
      and hook: "assign_job cfg j keys (set_status j (Some st') (put_match who j ?b s)) = Inr s2"
      and s': "s' = deposit_market_event (JobRegistrationAssigned j who ?b) s2"
      by (auto simp: acknowledge_match_def result_simps Let_def status_case_Inr)
    have v: "job_view_of k s' = job_view_of k (set_status j (Some st') (put_match who j ?b s))" for k
      unfolding s' view_unchanged by (rule view_truncate [OF assign_job_frame [OF hook]])
    obtain k where k: "jv_status ?v = Some Matched \<and> k = 0 \<or> jv_status ?v = Some (Assigned k)"
      and st'': "st' = Assigned (k + 1)"
    proof (cases st)
      case (Assigned k)
      have "k + 1 < 2 ^ 8"
        using ack_count_small [OF jobs_okD [OF ok] m False] st Assigned by simp
      with Assigned st st' show ?thesis
        using that [of k] by (auto simp: wrapping_add_exact)
    qed (use st st' that [of 0] in auto)
    from job_step.acknowledge [OF m False k, of "mp_max_slots cfg" keys] show ?thesis
      by (intro jobs_move_one [of cfg j]) (auto simp: v view_simps st'')
  qed
qed

lemma report_Inr:
  assumes "report cfg o' j res s = Inr s'"
  obtains who a reg now manager b c where
    "o' = Signed who" "get_match who j s = Some a" "acknowledged a"
    "sla_met (assignment_sla a) < sla_total (assignment_sla a)"
    "stored_job_registration s j = Some reg" "market_now s = Inr now"
    "overlaps (job_schedule reg) (as_start_delay a)
       (fst (the (schedule_range (job_schedule reg) (as_start_delay a)))) (now + report_tolerance cfg) = Some True"
    "manager_of cfg who = Inr manager"
    "pay_reward job_budget_ops (payments cfg) j (fee_per_execution_of a) manager
       (job_budgets s, market_currency s) = Inr (b, c)"
    "s' = deposit_market_event (Reported j who (a\<lparr>assignment_sla := (assignment_sla a)
              \<lparr>sla_met := wrapping_add 64 (sla_met (assignment_sla a)) 1\<rparr>\<rparr>))
           (deposit_market_event (execution_event j res)
             ((put_match who j (a\<lparr>assignment_sla := (assignment_sla a)
                 \<lparr>sla_met := wrapping_add 64 (sla_met (assignment_sla a)) 1\<rparr>\<rparr>) s)
               \<lparr>job_budgets := b, market_currency := c\<rparr>))"
  using assms
  by (clarsimp simp: report_def Let_def result_simps with_funds_Inr checked_add_Some)

lemma report_moves:
  assumes "report cfg o' j res s = Inr s'" and ok: "jobs_ok cfg s"
  shows "jobs_move cfg s s'"
  using assms(1)
proof (rule report_Inr)
  fix who a reg now manager b c
  assume a: "get_match who j s = Some a" "acknowledged a"
    "sla_met (assignment_sla a) < sla_total (assignment_sla a)"
    and pay: "pay_reward job_budget_ops (payments cfg) j (fee_per_execution_of a) manager
       (job_budgets s, market_currency s) = Inr (b, c)"
    and s': "s' = deposit_market_event (Reported j who (a\<lparr>assignment_sla := (assignment_sla a)
              \<lparr>sla_met := wrapping_add 64 (sla_met (assignment_sla a)) 1\<rparr>\<rparr>))
           (deposit_market_event (execution_event j res)
             ((put_match who j (a\<lparr>assignment_sla := (assignment_sla a)
                 \<lparr>sla_met := wrapping_add 64 (sla_met (assignment_sla a)) 1\<rparr>\<rparr>) s)
               \<lparr>job_budgets := b, market_currency := c\<rparr>))"
  let ?v = "job_view_of j s"
  have m: "jv_match ?v who = Some a" using a(1) by simp
  note eff = jb.pay_reward_effect(1,2) [OF pay, unfolded reserved_jb]
  have "sla_total (assignment_sla a) \<le> MAX_EXECUTIONS_PER_JOB"
    using jobs_okD [OF ok, of j] m by (simp add: job_ok_def)
  then have w: "wrapping_add 64 (sla_met (assignment_sla a)) 1 = sla_met (assignment_sla a) + 1"
    using a(3) by (intro wrapping_add_exact) (simp add: MAX_EXECUTIONS_PER_JOB_def)
  have bud: "fee_per_execution_of a \<le> jv_budget ?v" using eff(1) by simp
  show ?thesis
    using job_step.report_execution [OF m a(2,3) bud, of "mp_max_slots cfg"] eff(2)
    by (intro jobs_move_one [of cfg j]) (auto simp: s' w [simplified] view_simps)
qed

end

lemma delete_keys_list: "map fst (AList.delete k al) = filter (\<lambda>q. q \<noteq> k) (map fst al)"
  by (induction al) auto

lemma update_reputation_same:
  assumes "update_reputation cfg who a s = Inr s'"
  shows "job_view_of j s' = job_view_of j s" "assigned_processors s' = assigned_processors s"
    "job_budgets s' = job_budgets s" "market_currency s' = market_currency s"
    "same_acurast_storage s s'"
  using assms
  by (auto simp: update_reputation_def Let_def result_simps job_view_of_def get_match_def
      assigned_to_def same_acurast_storage_def split: if_splits)

text \<open>Releasing all processors of a job empties its matches.\<close>

lemma release_processor_view:
  "job_view_of k (release_processor j x p s) =
     (if k = j then (job_view_of k s)\<lparr>jv_match := (\<lambda>q. get_match q k s)(p := None)\<rparr> else job_view_of k s)"
  by (simp add: release_processor_def view_simps)

lemma release_all_view:
  "job_view_of k (fold (release_processor j x) ps s) =
     (if k = j then (job_view_of k s)\<lparr>jv_match := (\<lambda>q. if q \<in> set ps then None else get_match q k s)\<rparr>
      else job_view_of k s)"
proof (induction ps arbitrary: s)
  case Nil
  then show ?case by (simp add: job_view_of_def)
next
  case (Cons p ps)
  have "get_match q k (release_processor j x p s) = (if k = j \<and> q = p then None else get_match q k s)" for q
    using arg_cong [OF release_processor_view [of k j x p s], of "\<lambda>v. jv_match v q"] by auto
  then show ?case
    using Cons.IH [of "release_processor j x p s"]
    by (auto simp: release_processor_view job_view.defs fun_eq_iff intro!: arg_cong [where f = "\<lambda>m. v\<lparr>jv_match := m\<rparr>" for v])
qed

lemma release_processor_fields [simp]:
  "job_budgets (release_processor j x p s) = job_budgets s"
  "market_currency (release_processor j x p s) = market_currency s"
  "assigned_processors (release_processor j x p s) = assigned_processors s"
  "stored_job_registration (release_processor j x p s) = stored_job_registration s"
  "same_acurast_storage s' (release_processor j x p s) = same_acurast_storage s' s"
  by (simp_all add: release_processor_def release_capacity_def remove_match_def same_acurast_storage_def)

lemma release_all_fields [simp]:
  "job_budgets (fold (release_processor j x) ps s) = job_budgets s"
  "market_currency (fold (release_processor j x) ps s) = market_currency s"
  "stored_job_registration (fold (release_processor j x) ps s) = stored_job_registration s"
  "same_acurast_storage s' (fold (release_processor j x) ps s) = same_acurast_storage s' s"
  by (induction ps arbitrary: s) simp_all

context market_env
begin

lemma finalize_job_Inr:
  assumes "finalize_job cfg o' j s = Inr s'"
  obtains who reg a s1 where "o' = Signed who" "stored_job_registration s j = Some reg"
    "get_match who j s = Some a" "actual_schedule_ended cfg (job_schedule reg) a s = Inr True"
    "update_reputation cfg who a s = Inr s1"
    "s' = deposit_market_event (JobFinalized j) (release_capacity who (storage reg)
        ((remove_match who j s1)\<lparr>assigned_processors := (assigned_processors (remove_match who j s1))
           (j := AList.delete who (assigned_processors (remove_match who j s1) j))\<rparr>))"
  using assms by (clarsimp simp: finalize_job_def result_simps Let_def)

lemma finalize_job_moves:
  assumes "finalize_job cfg o' j s = Inr s'"
  shows "jobs_move cfg s s'"
  using assms
proof (rule finalize_job_Inr)
  fix who reg a s1
  assume a: "get_match who j s = Some a"
    and rep: "update_reputation cfg who a s = Inr s1"
    and s': "s' = deposit_market_event (JobFinalized j) (release_capacity who (storage reg)
        ((remove_match who j s1)\<lparr>assigned_processors := (assigned_processors (remove_match who j s1))
           (j := AList.delete who (assigned_processors (remove_match who j s1) j))\<rparr>))"
  have ap: "assigned_processors (remove_match who j s1) = assigned_processors s"
    using update_reputation_same [OF rep] by (simp add: remove_match_def)
  have gm: "get_match p j s1 = get_match p j s" for p
    using arg_cong [OF update_reputation_same(1) [OF rep, of j], of "\<lambda>v. jv_match v p"] by simp
  have "job_view_of j s' = (job_view_of j s)\<lparr>jv_procs := filter (\<lambda>q. q \<noteq> who) (assigned_to j s),
      jv_match := (\<lambda>p. get_match p j s)(who := None)\<rparr>"
    by (simp add: s' view_simps delete_keys_list) (simp add: ap assigned_to_def gm update_reputation_same [OF rep])
  then have "job_step (mp_max_slots cfg) (job_view_of j s) (job_view_of j s')"
    using job_step.finish_slot [of "job_view_of j s" who "mp_max_slots cfg"] a by simp
  then show ?thesis
    by (intro jobs_move_one [of cfg j]) (auto simp: s' view_simps update_reputation_same [OF rep])
qed

lemma refund_and_notify_effect:
  assumes "refund_and_notify cfg j s = Inr s'"
  obtains b c where "refund job_budget_ops (payments cfg) j (job_budgets s, market_currency s) = Inr (job_budgets s j, b, c)"
    and "b = (job_budgets s)(j := 0)"
    and "market_state.truncate s' = market_state.truncate (s\<lparr>job_budgets := b, market_currency := c\<rparr>)"
proof -
  from assms obtain r b c where ref: "refund job_budget_ops (payments cfg) j (job_budgets s, market_currency s) = Inr (r, b, c)"
    and hook: "finalize_job_hook cfg j r (s\<lparr>job_budgets := b, market_currency := c\<rparr>) = Inr s'"
    by (auto simp: refund_and_notify_def refund_job_def bind_r_Inr)
  note eff = jb.refund_effect [OF ref, unfolded reserved_jb]
  show ?thesis using that [OF _ eff(2)] ref eff(1) finalize_hook_frame [OF hook] by simp
qed

lemma refund_and_notify_view:
  assumes "refund_and_notify cfg j s = Inr s'"
  shows "job_view_of k s' = (if k = j then (job_view_of k s)\<lparr>jv_budget := 0\<rparr> else job_view_of k s)"
    and "same_acurast_storage s s'"
  using assms
proof (atomize (full), rule refund_and_notify_effect)
  fix b c
  assume b: "b = (job_budgets s)(j := 0)"
    and tr: "market_state.truncate s' = market_state.truncate (s\<lparr>job_budgets := b, market_currency := c\<rparr>)"
  show "job_view_of k s' = (if k = j then (job_view_of k s)\<lparr>jv_budget := 0\<rparr> else job_view_of k s) \<and>
      same_acurast_storage s s'"
    using view_truncate [OF tr, of k] truncate_fields [OF tr]
    by (simp add: b view_simps same_acurast_storage_def)
qed

end

lemma job_ok_length: "job_ok n v \<Longrightarrow> length (jv_procs v) \<le> n"
  using acked_unacked_card [of v]
  by (auto simp: job_ok_def registrable_def split: option.splits job_status.splits)

lemma job_ok_match_None: "job_ok n v \<Longrightarrow> p \<notin> set (jv_procs v) \<Longrightarrow> jv_match v p = None"
  by (auto simp: job_ok_def)

definition closed_view :: job_view where
  "closed_view = \<lparr>jv_status = None, jv_reg = None, jv_procs = [], jv_match = Map.empty, jv_budget = 0\<rparr>"

lemma jobs_move_close:
  assumes "stored_job_status s j \<noteq> None" and "job_view_of j s' = closed_view"
    and "\<And>k. k \<noteq> j \<Longrightarrow> job_view_of k s' = job_view_of k s"
  shows "jobs_move cfg s s'"
  using job_step.close_job [of "job_view_of j s" "mp_max_slots cfg"] assms
  by (intro jobs_move_one [of cfg j]) (auto simp: closed_view_def)

lemma same_acurast_simps [simp]:
  "same_acurast_storage s (set_status j st s') = same_acurast_storage s s'"
  "same_acurast_storage s (clear_assigned n j s') = same_acurast_storage s s'"
  "same_acurast_storage s (deposit_market_event e s') = same_acurast_storage s s'"
  "same_acurast_storage s (s'\<lparr>job_budgets := b, market_currency := c\<rparr>) = same_acurast_storage s s'"
  by (simp_all add: same_acurast_storage_def set_status_def clear_assigned_def deposit_market_event_def)

context market_env
begin

abbreviation "max_slots \<equiv> mp_max_slots cfg"

text \<open>What is left of a job's view once its processors are released.\<close>

lemma release_clear_view:
  assumes "job_ok max_slots (job_view_of j s)"
  shows "job_view_of j (clear_assigned max_slots j (fold (release_processor j x) (assigned_to j s) s)) =
      (job_view_of j s)\<lparr>jv_procs := [], jv_match := Map.empty\<rparr>"
    and "k \<noteq> j \<Longrightarrow> job_view_of k (clear_assigned max_slots j (fold (release_processor j x) (assigned_to j s) s)) =
      job_view_of k s"
proof -
  have "(\<lambda>q. if q \<in> set (assigned_to j s) then None else get_match q j s) = Map.empty"
    using job_ok_match_None [OF assms] by (auto simp: fun_eq_iff)
  moreover have "drop max_slots (assigned_to j s) = []"
    using job_ok_length [OF assms] by simp
  moreover have "assigned_to j (fold (release_processor j x) (assigned_to j s) s) = assigned_to j s"
    using arg_cong [OF release_all_view [of j j x "assigned_to j s" s], of jv_procs] by simp
  ultimately show "job_view_of j (clear_assigned max_slots j (fold (release_processor j x) (assigned_to j s) s)) =
      (job_view_of j s)\<lparr>jv_procs := [], jv_match := Map.empty\<rparr>"
    by (simp add: view_simps release_all_view)
qed (simp add: view_simps release_all_view)

lemma finalize_job_for_Inr:
  assumes "finalize_job_for cfg j s = Inr s'"
  obtains st reg s3 where "stored_job_status s j = Some st" "stored_job_registration s j = Some reg"
    "can_finalize cfg j st reg s = Inr ()"
    "refund_and_notify cfg j (clear_assigned max_slots j
       (fold (release_processor j (storage reg)) (assigned_to j s) s)) = Inr s3"
    "s' = deposit_market_event (JobFinalized j)
       ((set_status j None (clear_environment_for max_slots j s3))
         \<lparr>stored_job_registration := (stored_job_registration (set_status j None (clear_environment_for max_slots j s3)))(j := None)\<rparr>)"
  using assms by (clarsimp simp: finalize_job_for_def result_simps Let_def)

lemma finalize_job_for_closes:
  assumes "finalize_job_for cfg j s = Inr s'" and ok: "jobs_ok cfg s"
  shows "job_view_of j s' = closed_view" and "k \<noteq> j \<Longrightarrow> job_view_of k s' = job_view_of k s"
    and "stored_job_status s j \<noteq> None"
  using assms(1)
proof (atomize (full), rule finalize_job_for_Inr)
  fix st reg s3
  assume st: "stored_job_status s j = Some st"
    and ref: "refund_and_notify cfg j (clear_assigned max_slots j
       (fold (release_processor j (storage reg)) (assigned_to j s) s)) = Inr s3"
    and s': "s' = deposit_market_event (JobFinalized j)
       ((set_status j None (clear_environment_for max_slots j s3))
         \<lparr>stored_job_registration := (stored_job_registration (set_status j None (clear_environment_for max_slots j s3)))(j := None)\<rparr>)"
  have v3: "job_view_of j s3 = (job_view_of j s)\<lparr>jv_procs := [], jv_match := Map.empty, jv_budget := 0\<rparr>"
    "k \<noteq> j \<Longrightarrow> job_view_of k s3 = job_view_of k s"
    using refund_and_notify_view(1) [OF ref, of j] refund_and_notify_view(1) [OF ref, of k]
      release_clear_view(2) [OF jobs_okD [OF ok], of k j]
    by (simp_all only: release_clear_view(1) [OF jobs_okD [OF ok]] if_True if_False refl not_False_eq_True)
  show "job_view_of j s' = closed_view \<and> (k \<noteq> j \<longrightarrow> job_view_of k s' = job_view_of k s) \<and> stored_job_status s j \<noteq> None"
    using st by (simp add: s' view_simps v3) (simp add: job_view_of_def closed_view_def)
qed

lemma can_finalize_status:
  "finalize_job_for cfg j s = Inr s' \<Longrightarrow> stored_job_status s j \<noteq> Some Open"
  by (auto elim!: finalize_job_for_Inr simp: can_finalize_def)

lemma finalize_jobs_for_closes:
  assumes "finalize_jobs_for cfg js s = Inr s'" and "jobs_ok cfg s"
  shows "distinct js \<and>
    (\<forall>j \<in> set js. stored_job_status s j \<notin> {None, Some Open} \<and> job_view_of j s' = closed_view) \<and>
    (\<forall>k. k \<notin> set js \<longrightarrow> job_view_of k s' = job_view_of k s)"
  using assms unfolding finalize_jobs_for_def
proof (induction js arbitrary: s)
  case (Cons j js)
  then obtain s1 where one: "finalize_job_for cfg j s = Inr s1"
    and rest: "fold_r (finalize_job_for cfg) js s1 = Inr s'" by (auto simp: bind_r_Inr)
  note c = finalize_job_for_closes [OF one Cons.prems(2)]
  have "jobs_ok cfg s1"
    using jobs_move_close [OF c(3,1,2)] Cons.prems(2) jobs_move_ok by blast
  note IH = Cons.IH [OF rest this]
  have none: "stored_job_status s1 j = None"
    using arg_cong [OF c(1), of jv_status] by (simp add: closed_view_def)
  with IH have j: "j \<notin> set js" by auto
  have st: "stored_job_status s1 k = stored_job_status s k" if "k \<noteq> j" for k
    using arg_cong [OF c(2) [OF that], of jv_status] by simp
  have "stored_job_status s k \<notin> {None, Some Open} \<and> job_view_of k s' = closed_view" if "k \<in> set (j # js)" for k
  proof (cases "k = j")
    case True
    then show ?thesis using IH j c(1,3) can_finalize_status [OF one] by auto
  next
    case False
    then have "k \<in> set js" using that by simp
    with IH st [OF False] show ?thesis by (metis (no_types, lifting))
  qed
  moreover have "job_view_of k s' = job_view_of k s" if "k \<notin> set (j # js)" for k
    using that IH c(2) [of k] by simp
  ultimately show ?case using IH j by (simp del: not_None_eq)
qed simp

lemma finalize_jobs_for_moves:
  assumes "finalize_jobs_for cfg js s = Inr s'" and ok: "jobs_ok cfg s"
  shows "jobs_move cfg s s'"
proof -
  have step: "jobs_move cfg t t'" if "finalize_job_for cfg j t = Inr t'" "jobs_ok cfg t" for j t t'
    using finalize_job_for_closes [OF that] by (intro jobs_move_close [of t j]) auto
  show ?thesis
    using fold_r_invariant [where P = "\<lambda>t. jobs_move cfg s t" and f = "finalize_job_for cfg" and xs = js]
      assms step jobs_move_ok jobs_move_trans unfolding finalize_jobs_for_def
    by (metis (no_types, lifting) jobs_move_refl)
qed

lemma pay_and_release_view:
  assumes "pay_and_release cfg j x r p s = Inr s'"
  shows "k \<noteq> j \<Longrightarrow> job_view_of k s' = job_view_of k s"
    and "\<exists>b. job_view_of j s' = (job_view_of j s)\<lparr>jv_match := (\<lambda>q. get_match q j s)(p := None), jv_budget := b\<rparr>"
    and "same_acurast_storage s s'"
proof -
  from assms obtain s1 where s': "s' = release_processor j x p s1"
    and s1: "s1 = s \<or> (\<exists>manager. with_funds (pay_reward job_budget_ops (payments cfg) j r manager) s = Inr s1)"
    by (auto simp: pay_and_release_def bind_r_Inr split: if_splits)
  have "\<exists>b c. s1 = s\<lparr>job_budgets := b, market_currency := c\<rparr> \<and> (\<forall>k. k \<noteq> j \<longrightarrow> b k = job_budgets s k)"
    using s1
  proof
    assume "s1 = s"
    then show ?thesis by (intro exI [of _ "job_budgets s"] exI [of _ "market_currency s"]) simp
  next
    assume "\<exists>manager. with_funds (pay_reward job_budget_ops (payments cfg) j r manager) s = Inr s1"
    then show ?thesis by (auto simp: with_funds_Inr dest!: jb.pay_reward_effect(2))
  qed
  then obtain b c where s1: "s1 = s\<lparr>job_budgets := b, market_currency := c\<rparr>"
    and b: "\<And>k. k \<noteq> j \<Longrightarrow> b k = job_budgets s k"
    by blast
  have gm: "get_match q k s1 = get_match q k s" for q k by (simp add: s1 get_match_def)
  show "k \<noteq> j \<Longrightarrow> job_view_of k s' = job_view_of k s"
    using b [of k] by (simp add: s' s1 release_processor_view view_simps)
  show "\<exists>b. job_view_of j s' = (job_view_of j s)\<lparr>jv_match := (\<lambda>q. get_match q j s)(p := None), jv_budget := b\<rparr>"
    unfolding s' release_processor_view gm by (auto simp: s1 view_simps)
  show "same_acurast_storage s s'" by (simp add: s' s1)
qed

end

context market_env
begin

lemma pay_release_all_view:
  assumes "fold_r (pay_and_release cfg j x r) ps s = Inr s'"
  shows "(k \<noteq> j \<longrightarrow> job_view_of k s' = job_view_of k s) \<and> same_acurast_storage s s' \<and>
    (\<exists>b. job_view_of j s' = (job_view_of j s)
       \<lparr>jv_match := (\<lambda>q. if q \<in> set ps then None else get_match q j s), jv_budget := b\<rparr>)"
  using assms
proof (induction ps arbitrary: s)
  case Nil
  then show ?case
    by (auto intro!: exI [of _ "job_budgets s' j"] simp: job_view_of_def)
next
  case (Cons p ps)
  then obtain s1 where p: "pay_and_release cfg j x r p s = Inr s1"
    and rest: "fold_r (pay_and_release cfg j x r) ps s1 = Inr s'"
    by (auto simp: bind_r_Inr)
  note one = pay_and_release_view [OF p]
  obtain b where v1: "job_view_of j s1 = (job_view_of j s)\<lparr>jv_match := (\<lambda>q. get_match q j s)(p := None), jv_budget := b\<rparr>"
    using one(2) by blast
  have gm: "get_match q j s1 = (if q = p then None else get_match q j s)" for q
    using arg_cong [OF v1, of "\<lambda>v. jv_match v q"] by auto
  obtain b' where "job_view_of j s' = (job_view_of j s1)
       \<lparr>jv_match := (\<lambda>q. if q \<in> set ps then None else get_match q j s1), jv_budget := b'\<rparr>"
    using Cons.IH [OF rest] by blast
  moreover have "(\<lambda>q. if q \<in> set ps then None else get_match q j s1) =
      (\<lambda>q. if q \<in> set (p # ps) then None else get_match q j s)"
    by (auto simp: gm fun_eq_iff)
  ultimately have "job_view_of j s' = (job_view_of j s)
       \<lparr>jv_match := (\<lambda>q. if q \<in> set (p # ps) then None else get_match q j s), jv_budget := b'\<rparr>"
    by (simp add: v1 view_simps)
  then show ?case
    using Cons.IH [OF rest] one(1) [of k] one(3) same_acurast_storage_trans by auto
qed

lemma match_none_after:
  "job_ok n (job_view_of j s) \<Longrightarrow>
     (\<lambda>q. if q \<in> set (assigned_to j s) then None else get_match q j s) = Map.empty"
  using job_ok_match_None [of n "job_view_of j s"] by (auto simp: fun_eq_iff)

text \<open>A job whose matches are gone and whose budget is refunded is closed but for its registration.\<close>

lemma closed_from:
  assumes "job_ok max_slots (job_view_of j s)"
    and "job_view_of j t = (job_view_of j s)\<lparr>jv_match := Map.empty, jv_budget := 0\<rparr>"
  shows "job_view_of j (set_status j None (clear_assigned max_slots j t)) =
    closed_view\<lparr>jv_reg := stored_job_registration s j\<rparr>"
proof -
  have "assigned_to j t = assigned_to j s" using arg_cong [OF assms(2), of jv_procs] by simp
  then show ?thesis
    using job_ok_length [OF assms(1)] assms(2)
    by (simp add: view_simps) (simp add: job_view_of_def closed_view_def)
qed

text \<open>The three branches of \<open>deregister_hook\<close>.\<close>

lemma deregister_hook_cases:
  assumes "mp_deregister_hook cfg j s = Inr s'"
  obtains
    (open_) s1 where "stored_job_status s j = Some Open" "refund_and_notify cfg j s = Inr s1"
      "s' = set_status j None s1"
  | (matched) s1 reg where "stored_job_status s j = Some Matched" "refund_and_notify cfg j s = Inr s1"
      "stored_job_registration s1 j = Some reg"
      "s' = set_status j None (clear_assigned max_slots j
          (fold (release_processor j (storage reg)) (assigned_to j s1) s1))"
  | (assigned) n reg s1 s2 where "stored_job_status s j = Some (Assigned n)"
      "stored_job_registration s j = Some reg" "0 < slots (requirements (extra reg))"
      "fold_r (pay_and_release cfg j (storage reg) (job_budgets s j div slots (requirements (extra reg))))
         (assigned_to j s) s = Inr s1"
      "refund_and_notify cfg j s1 = Inr s2"
      "s' = set_status j None (clear_assigned max_slots j s2)"
  using assms
  by (cases "stored_job_status s j"; simp add: mp_deregister_hook_def; rename_tac st; case_tac st;
      clarsimp simp: result_simps Let_def checked_div_Some)

lemma deregister_hook_frame:
  assumes "mp_deregister_hook cfg j s = Inr s'"
  shows "same_acurast_storage s s'"
  using assms
proof (cases rule: deregister_hook_cases)
  case (assigned n reg s1 s2)
  then show ?thesis
    using pay_release_all_view [OF assigned(4), of j] refund_and_notify_view(2) [OF assigned(5)]
      same_acurast_storage_trans by auto
qed (auto dest: refund_and_notify_view(2))

lemma deregister_hook_view:
  assumes "mp_deregister_hook cfg j s = Inr s'" and ok: "jobs_ok cfg s"
  shows "job_view_of j s' = closed_view\<lparr>jv_reg := stored_job_registration s j\<rparr> \<and>
    stored_job_status s j \<noteq> None \<and> (\<forall>k. k \<noteq> j \<longrightarrow> job_view_of k s' = job_view_of k s)"
  using assms(1)
proof (cases rule: deregister_hook_cases)
  case (open_ s1)
  note o = open_ok_view [OF job_ok_open_ok [OF jobs_okD [OF ok]], unfolded view_fields, OF open_(1)]
  show ?thesis
    using open_ refund_and_notify_view(1) [OF open_(2)] o
    by (simp add: view_simps) (simp add: job_view_of_def closed_view_def)
next
  case (matched s1 reg)
  note v1 = refund_and_notify_view(1) [OF matched(2)]
  have as1: "assigned_to j s1 = assigned_to j s"
    using arg_cong [OF v1 [of j], of jv_procs] by simp
  have gm: "get_match q j s1 = get_match q j s" for q
    using arg_cong [OF v1 [of j], of "\<lambda>v. jv_match v q"] by simp
  let ?t = "fold (release_processor j (storage reg)) (assigned_to j s1) s1"
  have "job_view_of j ?t = (job_view_of j s)\<lparr>jv_match := Map.empty, jv_budget := 0\<rparr>"
    unfolding release_all_view as1 gm match_none_after [OF jobs_okD [OF ok]] by (simp add: v1 view_simps)
  from closed_from [OF jobs_okD [OF ok] this] show ?thesis
    using matched(1,4) v1 by (simp add: view_simps release_all_view)
next
  case (assigned n reg s1 s2)
  have "\<exists>b. job_view_of j s1 = (job_view_of j s)\<lparr>jv_match := Map.empty, jv_budget := b\<rparr>"
    using pay_release_all_view [OF assigned(4), of j] match_none_after [OF jobs_okD [OF ok, of j]] by simp
  then have "job_view_of j s2 = (job_view_of j s)\<lparr>jv_match := Map.empty, jv_budget := 0\<rparr>"
    using refund_and_notify_view(1) [OF assigned(5), of j] by (auto simp: view_simps)
  from closed_from [OF jobs_okD [OF ok] this] show ?thesis
    using assigned(1,6) pay_release_all_view [OF assigned(4)] refund_and_notify_view(1) [OF assigned(5)]
    by (simp add: view_simps)
qed

end

lemma validate_registration_Inr:
  "validate_registration cfg r s = Inr () \<Longrightarrow> registrable (mp_max_slots cfg) r"
  by (auto simp: validate_registration_def registrable_def Let_def result_simps)

lemma instant_match_view:
  assumes "process_match cfg \<lparr>match_job_id = j, match_sources = srcs\<rparr> ([], s1) = Inr (rs, s2)"
    and "\<And>k. open_ok n (job_view_of k s1)"
  shows "s2 = s1 \<or> (\<exists>r' d. match_result (job_view_of j s1) r' d (job_view_of j s2) \<and>
      job_budgets s2 = job_budgets s1 \<and> (\<forall>k. k \<noteq> j \<longrightarrow> job_view_of k s2 = job_view_of k s1))"
  using process_match_view [OF assms] by (simp add: same_but_matches_def) blast

context market_env
begin

lemma register_hook_cases:
  assumes "mp_register_hook cfg who j r s = Inr s'"
  obtains s1 s2 b c where "registrable max_slots r"
    "stored_job_status s j = None \<and> s1 = set_status j (Some Open) s \<or> stored_job_status s j = Some Open \<and> s1 = s"
    "s2 = s1 \<or> (\<exists>srcs rs. process_match cfg \<lparr>match_job_id = j, match_sources = srcs\<rparr> ([], s1) = Inr (rs, s2))"
    "lock_reward job_budget_ops (payments cfg) j (total_reward r) (job_budgets s2, market_currency s2) = Inr (b, c)"
    "s' = s2\<lparr>job_budgets := b, market_currency := c\<rparr>"
proof -
  from assms obtain s1 s2 total where val: "validate_registration cfg r s = Inr ()"
    and s1: "(case stored_job_status s j of
               Some job_status \<Rightarrow>
                 bind_r (ensure (job_status = Open) (mp_err JobRegistrationUnmodifiable)) (\<lambda>_. Inr s)
             | None \<Rightarrow> Inr (set_status j (Some Open) s)) = Inr s1"
    and s2: "(case instant_match (requirements (extra r)) of
               Some sources \<Rightarrow>
                 bind_r (process_matching cfg [\<lparr>match_job_id = j, match_sources = sources\<rparr>] s1)
                   (\<lambda>(_, s2). Inr s2)
             | None \<Rightarrow> Inr s1) = Inr s2"
    and total: "total_reward_amount r = Inr total"
    and lock: "with_funds (lock_reward job_budget_ops (payments cfg) j total) s2 = Inr s'"
    unfolding mp_register_hook_def bind_r_Inr lift_mp_Inr by (elim exE conjE) simp
  have "stored_job_status s j = None \<and> s1 = set_status j (Some Open) s \<or> stored_job_status s j = Some Open \<and> s1 = s"
    using s1 by (auto simp: result_simps split: option.splits)
  moreover have "s2 = s1 \<or> (\<exists>srcs rs. process_match cfg \<lparr>match_job_id = j, match_sources = srcs\<rparr> ([], s1) = Inr (rs, s2))"
    using s2 by (auto simp: result_simps process_matching_def split: option.splits)
  moreover obtain b c where "lock_reward job_budget_ops (payments cfg) j (total_reward r)
      (job_budgets s2, market_currency s2) = Inr (b, c)" "s' = s2\<lparr>job_budgets := b, market_currency := c\<rparr>"
    using lock total_reward_amount_Inr [OF total] by (auto simp: with_funds_Inr)
  ultimately show ?thesis using that validate_registration_Inr [OF val] by blast
qed

lemma register_hook_frame:
  assumes "mp_register_hook cfg who j r s = Inr s'"
  shows "same_acurast_storage s s'"
  using assms
proof (cases rule: register_hook_cases)
  case (1 s1 s2 b c)
  then have "same_acurast_storage s s1" "same_acurast_storage s1 s2"
    by (auto dest: process_match_frame simp: same_but_matches_def)
  then show ?thesis using 1(5) same_acurast_storage_trans by auto
qed

end

sublocale market_env \<subseteq> mp: job_hooks "mp_register_hook cfg" "mp_deregister_hook cfg" mp_update_allowed_sources_hook
  by unfold_locales
    (auto simp: register_hook_frame deregister_hook_frame mp_update_allowed_sources_hook_def result_simps)

context market_env
begin

lemma register_hook_view:
  assumes hook: "mp_register_hook cfg who j r s = Inr s'"
    and reg: "s = s0\<lparr>stored_job_registration := (stored_job_registration s0)(j \<mapsto> r)\<rparr>"
    and ok: "jobs_ok cfg s0"
  shows "jobs_move cfg s0 s'"
  using hook
proof (cases rule: register_hook_cases)
  case (1 s1 s2 b c)
  let ?v = "job_view_of j s0"
  have st: "jv_status ?v = None \<or> jv_status ?v = Some Open" using 1(2) by (auto simp: reg)
  have v1: "job_view_of j s1 = ?v\<lparr>jv_status := Some Open, jv_reg := Some r\<rparr>"
    using 1(2) by (auto simp: reg view_simps)
  have v1k: "job_view_of k s1 = job_view_of k s0" if "k \<noteq> j" for k
    using 1(2) that by (auto simp: reg view_simps)
  have bud: "job_budgets s1 = job_budgets s0" using 1(2) by (auto simp: reg set_status_def)
  let ?v1 = "?v\<lparr>jv_status := Some Open, jv_reg := Some r, jv_budget := jv_budget ?v + total_reward r\<rparr>"
  have step1: "job_step max_slots ?v ?v1" using st 1(1) by (rule job_step.open_job)
  note ok1 = job_step_ok [OF step1 jobs_okD [OF ok]]
  have empty: "jv_procs ?v = []" "jv_match ?v = Map.empty"
    using jobs_okD [OF ok, of j] st by (auto simp: job_ok_def split: option.splits)
  have open1: "open_ok max_slots (job_view_of k s1)" for k
  proof (cases "k = j")
    case True
    then show ?thesis unfolding True v1 open_ok_def using empty 1(1) by simp
  next
    case False
    then show ?thesis using v1k job_ok_open_ok [OF jobs_okD [OF ok]] by simp
  qed
  have b: "b = (job_budgets s2)(j := job_budgets s2 j + total_reward r)"
    using jb.lock_reward_effect(1) [OF 1(4)] by simp
  have res: "s2 = s1 \<or> (\<exists>r' d. match_result (job_view_of j s1) r' d (job_view_of j s2) \<and>
      job_budgets s2 = job_budgets s1 \<and> (\<forall>k. k \<noteq> j \<longrightarrow> job_view_of k s2 = job_view_of k s1))"
    using 1(3) instant_match_view [OF _ open1] by blast
  then have bud2: "job_budgets s2 = job_budgets s0" using bud by auto
  have v': "job_view_of j s' = (job_view_of j s2)\<lparr>jv_budget := jv_budget ?v + total_reward r\<rparr>"
    by (simp add: 1(5) b bud2 view_simps)
  have "(job_step max_slots)\<^sup>*\<^sup>* ?v1 (job_view_of j s')"
    using res
  proof (elim disjE exE conjE)
    assume "s2 = s1"
    then show ?thesis by (simp add: v' v1)
  next
    fix r' d
    assume "match_result (job_view_of j s1) r' d (job_view_of j s2)"
    from match_result_step [OF match_result_budget [OF this, of "jv_budget ?v + total_reward r"], of max_slots 0] ok1
    show ?thesis by (simp add: v' v1)
  qed
  then have "(job_step max_slots)\<^sup>*\<^sup>* ?v (job_view_of j s')"
    using step1 by (rule converse_rtranclp_into_rtranclp [rotated])
  moreover have "job_view_of k s' = job_view_of k s0" if "k \<noteq> j" for k
    using res that v1k [OF that] by (auto simp: 1(5) b view_simps)
  ultimately show ?thesis by (rule jobs_move_one)
qed

end

end
