(* ===== verification/Market_Runtime.thy ===== *)
theory Market_Runtime
  imports Market_Moves
begin

text \<open>
  The two pallets together: the calls that change their storage, and the invariants of every
  sequence of calls, namely \<open>jobs_ok\<close> (every job is well-formed and its budget covers what it
  owes) and \<open>market_solvent\<close> (the pallet's account covers all budgets).
\<close>

definition market_solvent :: "('c, 'z) market_config \<Rightarrow> ('c, 'z) market_state_scheme \<Rightarrow> bool" where
  "market_solvent cfg s \<longleftrightarrow> solvent job_budget_ops (payments cfg) (job_budgets s, market_currency s)"

lemma market_solvent_cong:
  "job_budgets s' = job_budgets s \<Longrightarrow> market_currency s' = market_currency s \<Longrightarrow>
     market_solvent cfg s' = market_solvent cfg s"
  by (simp add: market_solvent_def)

context market_env
begin

section \<open>Calls of pallet acurast with the marketplace's hooks\<close>

lemma register_for_moves:
  assumes "register_for acfg (mp_register_hook cfg) j r s = Inr s'" and "jobs_ok cfg s"
  shows "jobs_move cfg s s'"
proof -
  from assms(1) obtain s2 where
    hook: "mp_register_hook cfg (fst j) j r (s\<lparr>stored_job_registration := (stored_job_registration s)(j \<mapsto> r)\<rparr>) = Inr s2"
    and s': "s' = deposit_acurast_event (JobRegistrationStored r j) s2"
    by (auto simp: register_for_def bind_r_Inr Let_def)
  from register_hook_view [OF hook refl assms(2)] show ?thesis
    by (simp add: jobs_move_def s' view_simps)
qed

lemma register_moves:
  assumes "register acfg (mp_register_hook cfg) o' r s = Inr s'" and "jobs_ok cfg s"
  shows "jobs_move cfg s s'"
proof -
  from assms(1) obtain j n where reg: "register_for acfg (mp_register_hook cfg) j r (s\<lparr>local_job_id_sequence := n\<rparr>) = Inr s'"
    by (auto simp: register_def next_job_id_def bind_r_Inr Let_def)
  have v: "job_view_of k (s\<lparr>local_job_id_sequence := n\<rparr>) = job_view_of k s" for k
    by (simp add: job_view_of_def get_match_def assigned_to_def)
  then have "jobs_ok cfg (s\<lparr>local_job_id_sequence := n\<rparr>)" using assms(2) by (simp add: jobs_ok_def)
  from register_for_moves [OF reg this] show ?thesis by (simp add: jobs_move_def v)
qed

lemma deregister_for_moves:
  assumes "deregister_for acfg (mp_deregister_hook cfg) j s = Inr s'" and ok: "jobs_ok cfg s"
  shows "jobs_move cfg s s'"
    and "stored_job_status s j \<noteq> None \<and> job_view_of j s' = closed_view \<and>
      (\<forall>k. k \<noteq> j \<longrightarrow> job_view_of k s' = job_view_of k s)"
proof -
  from assms(1) obtain s1 where hook: "mp_deregister_hook cfg j s = Inr s1"
    and s': "s' = deposit_acurast_event (JobRegistrationRemoved j)
      ((clear_environment_for (MaxSlots acfg) j s1)\<lparr>stored_job_registration :=
         (stored_job_registration (clear_environment_for (MaxSlots acfg) j s1))(j := None)\<rparr>)"
    by (auto simp: deregister_for_def bind_r_Inr Let_def)
  note v = deregister_hook_view [OF hook ok]
  have "job_view_of j s' = closed_view"
    using v by (simp add: s' view_simps) (simp add: closed_view_def)
  then show closes: "stored_job_status s j \<noteq> None \<and> job_view_of j s' = closed_view \<and>
      (\<forall>k. k \<noteq> j \<longrightarrow> job_view_of k s' = job_view_of k s)"
    using v by (simp add: s' view_simps)
  then show "jobs_move cfg s s'"
    by (intro jobs_move_close [of s j]) blast+
qed

lemmas deregister_for_closes = deregister_for_moves(2)

lemma update_allowed_sources_moves:
  assumes "update_allowed_sources acfg mp_update_allowed_sources_hook o' n us s = Inr s'"
  shows "jobs_move cfg s s'"
proof -
  from assms obtain who r srcs where r: "stored_job_registration s (Acurast who, n) = Some r"
    and st: "stored_job_status s (Acurast who, n) = Some Open"
    and s': "s' = deposit_acurast_event (AllowedSourcesUpdated (Acurast who, n) r us)
      (s\<lparr>stored_job_registration := (stored_job_registration s)((Acurast who, n) \<mapsto> r\<lparr>allowed_sources := srcs\<rparr>)\<rparr>)"
    by (auto simp: update_allowed_sources_def mp_update_allowed_sources_hook_def bind_r_Inr ok_or_Inr
        ensure_Inr Let_def)
  let ?j = "(Acurast who, n)"
  have "job_step max_slots (job_view_of ?j s) (job_view_of ?j s')"
    using job_step.change_sources [of "job_view_of ?j s" r max_slots srcs] r st by (simp add: s' view_simps)
  then show ?thesis by (intro jobs_move_one [of cfg ?j]) (auto simp: s' view_simps)
qed

section \<open>Solvency\<close>

lemma propose_matching_solvent:
  assumes "propose_matching cfg o' ms s = Inr s'" and "market_solvent cfg s"
  shows "market_solvent cfg s'"
proof -
  from assms(1) obtain who rs s1 b c where pm: "process_matching cfg ms s = Inr (rs, s1)"
    and pay: "pay_matcher_reward job_budget_ops (payments cfg) rs who (job_budgets s1, market_currency s1) = Inr (b, c)"
    and s': "s' = s1\<lparr>job_budgets := b, market_currency := c\<rparr>"
    by (auto simp: propose_matching_def bind_r_Inr with_funds_Inr)
  have "solvent job_budget_ops (payments cfg) (job_budgets s1, market_currency s1)"
    using process_matching_frame [OF pm] assms(2) by (simp add: same_but_matches_def market_solvent_def)
  from jb.pay_matcher_reward_solvent [OF currency this pay] show ?thesis
    by (simp add: market_solvent_def s')
qed

lemma assign_job_funds:
  "assign_job cfg j keys s = Inr s' \<Longrightarrow> job_budgets s' = job_budgets s \<and> market_currency s' = market_currency s"
  by (drule assign_job_frame) (simp add: truncate_fields(11,12) [of s' s])

lemma acknowledge_match_solvent:
  assumes "acknowledge_match cfg o' j keys s = Inr s'"
  shows "market_solvent cfg s' = market_solvent cfg s"
proof -
  from assms obtain who a where a: "get_match who j s = Some a" and "o' = Signed who"
    by (auto simp: acknowledge_match_def result_simps)
  with assms have "job_budgets s' = job_budgets s \<and> market_currency s' = market_currency s"
    by (cases "acknowledged a")
      (auto simp: acknowledge_match_def Let_def result_simps set_status_def deposit_market_event_def
        dest!: assign_job_funds)
  then show ?thesis by (simp add: market_solvent_def)
qed

lemma pay_reward_market_solvent:
  assumes "with_funds (pay_reward job_budget_ops (payments cfg) j r manager) s = Inr s'" and "market_solvent cfg s"
  shows "market_solvent cfg s'"
  using assms by (auto simp: with_funds_Inr market_solvent_def intro: jb.pay_reward_solvent [OF currency])

lemma report_solvent:
  assumes "report cfg o' j res s = Inr s'" and "market_solvent cfg s"
  shows "market_solvent cfg s'"
  using assms(1)
proof (rule report_Inr)
  fix who a reg now manager b c
  assume "pay_reward job_budget_ops (payments cfg) j (fee_per_execution_of a) manager
       (job_budgets s, market_currency s) = Inr (b, c)"
    and "s' = deposit_market_event (Reported j who (a\<lparr>assignment_sla := (assignment_sla a)
              \<lparr>sla_met := wrapping_add 64 (sla_met (assignment_sla a)) 1\<rparr>\<rparr>))
           (deposit_market_event (execution_event j res)
             ((put_match who j (a\<lparr>assignment_sla := (assignment_sla a)
                 \<lparr>sla_met := wrapping_add 64 (sla_met (assignment_sla a)) 1\<rparr>\<rparr>) s)
               \<lparr>job_budgets := b, market_currency := c\<rparr>))"
  then show ?thesis
    using jb.pay_reward_solvent [OF currency] assms(2)
    by (simp add: market_solvent_def deposit_market_event_def)
qed

lemma finalize_job_solvent:
  assumes "finalize_job cfg o' j s = Inr s'"
  shows "market_solvent cfg s' = market_solvent cfg s"
  using assms
proof (rule finalize_job_Inr)
  fix who reg a s1
  assume "update_reputation cfg who a s = Inr s1"
    and "s' = deposit_market_event (JobFinalized j) (release_capacity who (storage reg)
        ((remove_match who j s1)\<lparr>assigned_processors := (assigned_processors (remove_match who j s1))
           (j := AList.delete who (assigned_processors (remove_match who j s1) j))\<rparr>))"
  then show ?thesis
    using update_reputation_same(3,4) [of cfg who a s s1]
    by (simp add: market_solvent_def deposit_market_event_def release_capacity_def remove_match_def)
qed

lemma refund_and_notify_solvent:
  assumes "refund_and_notify cfg j s = Inr s'" and "market_solvent cfg s"
  shows "market_solvent cfg s'"
  using assms(1)
proof (rule refund_and_notify_effect)
  fix b c
  assume ref: "refund job_budget_ops (payments cfg) j (job_budgets s, market_currency s) = Inr (job_budgets s j, b, c)"
    and tr: "market_state.truncate s' = market_state.truncate (s\<lparr>job_budgets := b, market_currency := c\<rparr>)"
  show ?thesis
    using jb.refund_solvent [OF currency _ ref] assms(2) truncate_fields(11,12) [OF tr]
    by (simp add: market_solvent_def)
qed

lemma finalize_jobs_for_solvent:
  assumes "finalize_jobs_for cfg js s = Inr s'" and "market_solvent cfg s"
  shows "market_solvent cfg s'"
proof (rule fold_r_invariant [OF assms(1) [unfolded finalize_jobs_for_def], where P = "market_solvent cfg"])
  fix j t t'
  assume "market_solvent cfg t" and "finalize_job_for cfg j t = Inr t'"
  then show "market_solvent cfg t'"
    by (auto elim!: finalize_job_for_Inr dest!: refund_and_notify_solvent
        simp: market_solvent_def deposit_market_event_def set_status_def clear_environment_for_def clear_assigned_def)
qed (rule assms(2))

lemma pay_release_all_solvent:
  assumes "fold_r (pay_and_release cfg j x r) ps s = Inr s'" and "market_solvent cfg s"
  shows "market_solvent cfg s'"
proof (rule fold_r_invariant [OF assms(1), where P = "market_solvent cfg"])
  fix p t t'
  assume "market_solvent cfg t" and "pay_and_release cfg j x r p t = Inr t'"
  moreover have "market_solvent cfg (release_processor j x p u) = market_solvent cfg u" for u
    by (simp add: market_solvent_def)
  ultimately show "market_solvent cfg t'"
    by (auto simp: pay_and_release_def bind_r_Inr dest: pay_reward_market_solvent split: if_splits)
qed (rule assms(2))

lemma deregister_hook_solvent:
  assumes "mp_deregister_hook cfg j s = Inr s'" and "market_solvent cfg s"
  shows "market_solvent cfg s'"
proof -
  have same: "market_solvent cfg (set_status j None t) = market_solvent cfg t"
    "market_solvent cfg (clear_assigned max_slots j t) = market_solvent cfg t"
    "market_solvent cfg (fold (release_processor j x) ps t) = market_solvent cfg t" for t x ps
    by (simp_all add: market_solvent_def set_status_def clear_assigned_def)
  from assms(1) show ?thesis
  proof (cases rule: deregister_hook_cases)
    case (assigned n reg s1 s2)
    then show ?thesis
      using pay_release_all_solvent [OF assigned(4) assms(2)] refund_and_notify_solvent [OF assigned(5)]
      by (simp add: same)
  qed (use assms(2) refund_and_notify_solvent in \<open>auto simp: same\<close>)
qed

lemma register_hook_solvent:
  assumes "mp_register_hook cfg who j r s = Inr s'" and "market_solvent cfg s"
    and "funds_account (payments cfg) j \<noteq> pallet_account (payments cfg)"
  shows "market_solvent cfg s'"
  using assms(1)
proof (cases rule: register_hook_cases)
  case (1 s1 s2 b c)
  then have "market_solvent cfg s2"
    using assms(2) by (auto dest!: process_match_frame simp: market_solvent_def set_status_def same_but_matches_def)
  then show ?thesis
    using jb.lock_reward_solvent [OF currency assms(3) 1(4)] 1(5) by (simp add: market_solvent_def)
qed

end

section \<open>Calls\<close>

text \<open>
  The calls that change the storage of the two pallets: their extrinsics, the internal entry
  points the hyperdrive uses (\<open>register_for\<close>, \<open>deregister_for\<close>, \<open>set_environment_for\<close>,
  \<open>finalize_jobs_for\<close>), and the advance of the clock. A call that fails leaves the storage as
  it was.
\<close>

datatype market_call =
    Register market_registration
  | Deregister job_id_sequence
  | Update_Allowed_Sources job_id_sequence "account_id list_update list"
  | Submit_Attestation "bytes list"
  | Update_Certificate_Revocation_List "serial_number list_update list"
  | Set_Environment job_id_sequence account_id environment
  | Set_Environments job_id_sequence "(account_id \<times> environment) list"
  | Advertise advertisement
  | Delete_Advertisement
  | Propose_Matching "match_for list"
  | Acknowledge_Match job_id "pub_key list"
  | Report_Execution job_id execution_result
  | Finalize_Job job_id
  | Finalize_Jobs "job_id_sequence list"
  | Register_For job_id market_registration
  | Deregister_For job_id
  | Set_Environment_For job_id account_id environment
  | Finalize_Jobs_For "job_id list"
  | Set_Time u128

fun dispatch ::
  "('cert, 'kd) acurast_config \<Rightarrow> ('c, 'z) market_config \<Rightarrow> origin \<Rightarrow> market_call \<Rightarrow>
   ('c, 'z) market_state_scheme \<Rightarrow> runtime_dispatch_error + ('c, 'z) market_state_scheme" where
  "dispatch ac cfg o' (Register r) s = register ac (mp_register_hook cfg) o' r s"
| "dispatch ac cfg o' (Deregister n) s = deregister ac (mp_deregister_hook cfg) o' n s"
| "dispatch ac cfg o' (Update_Allowed_Sources n us) s =
     update_allowed_sources ac mp_update_allowed_sources_hook o' n us s"
| "dispatch ac cfg o' (Submit_Attestation chain) s = submit_attestation ac o' chain s"
| "dispatch ac cfg o' (Update_Certificate_Revocation_List us) s = update_certificate_revocation_list ac o' us s"
| "dispatch ac cfg o' (Set_Environment n p e) s = set_environment o' n p e s"
| "dispatch ac cfg o' (Set_Environments n es) s = set_environments o' n es s"
| "dispatch ac cfg o' (Advertise ad) s = advertise cfg o' ad s"
| "dispatch ac cfg o' Delete_Advertisement s = delete_advertisement o' s"
| "dispatch ac cfg o' (Propose_Matching ms) s = propose_matching cfg o' ms s"
| "dispatch ac cfg o' (Acknowledge_Match j keys) s = acknowledge_match cfg o' j keys s"
| "dispatch ac cfg o' (Report_Execution j res) s = report cfg o' j res s"
| "dispatch ac cfg o' (Finalize_Job j) s = finalize_job cfg o' j s"
| "dispatch ac cfg o' (Finalize_Jobs ns) s = finalize_jobs cfg o' ns s"
| "dispatch ac cfg o' (Register_For j r) s = register_for ac (mp_register_hook cfg) j r s"
| "dispatch ac cfg o' (Deregister_For j) s = deregister_for ac (mp_deregister_hook cfg) j s"
| "dispatch ac cfg o' (Set_Environment_For j p e) s = set_environment_for j p e s"
| "dispatch ac cfg o' (Finalize_Jobs_For js) s = finalize_jobs_for cfg js s"
| "dispatch ac cfg o' (Set_Time t) s = Inr (s\<lparr>unix_millis := t\<rparr>)"

text \<open>Nobody holds the key of the pallet's own account, so it registers no job.\<close>

fun payer_ok :: "'c payment_config \<Rightarrow> origin \<Rightarrow> market_call \<Rightarrow> bool" where
  "payer_ok P (Signed who) (Register r) = (who \<noteq> pallet_account P)"
| "payer_ok P o' (Register_For j r) = (funds_account P j \<noteq> pallet_account P)"
| "payer_ok P o' call = True"

definition run_call ::
  "('cert, 'kd) acurast_config \<Rightarrow> ('c, 'z) market_config \<Rightarrow> origin \<times> market_call \<Rightarrow>
   ('c, 'z) market_state_scheme \<Rightarrow> ('c, 'z) market_state_scheme" where
  "run_call ac cfg = (\<lambda>(o', call) s. case dispatch ac cfg o' call s of Inl _ \<Rightarrow> s | Inr s' \<Rightarrow> s')"

lemma funds_account_Acurast [simp]: "funds_account P (Acurast who, n) = who"
  by (simp add: funds_account_def)

lemma set_environment_for_view:
  "set_environment_for j p e s = Inr s' \<Longrightarrow>
     job_view_of k s' = job_view_of k s \<and> job_budgets s' = job_budgets s \<and> market_currency s' = market_currency s"
  by (auto simp: set_environment_for_def result_simps job_view_of_def get_match_def assigned_to_def)

lemma set_environments_view:
  assumes "fold_r (\<lambda>(p, e). set_environment_for j p e) es s = Inr s'"
  shows "job_view_of k s' = job_view_of k s \<and> job_budgets s' = job_budgets s \<and> market_currency s' = market_currency s"
  by (rule fold_r_invariant [OF assms, where P = "\<lambda>t. job_view_of k t = job_view_of k s \<and>
      job_budgets t = job_budgets s \<and> market_currency t = market_currency s"])
    (auto dest: set_environment_for_view [where k = k])

text \<open>Calls that touch neither jobs nor funds.\<close>

lemma neutral_calls:
  assumes "dispatch ac cfg o' call s = Inr s'"
    and "(\<exists>chain. call = Submit_Attestation chain) \<or> (\<exists>us. call = Update_Certificate_Revocation_List us) \<or>
      (\<exists>n p e. call = Set_Environment n p e) \<or> (\<exists>n es. call = Set_Environments n es) \<or>
      (\<exists>j p e. call = Set_Environment_For j p e) \<or> (\<exists>ad. call = Advertise ad) \<or>
      call = Delete_Advertisement \<or> (\<exists>t. call = Set_Time t)"
  shows "job_view_of k s' = job_view_of k s \<and> job_budgets s' = job_budgets s \<and> market_currency s' = market_currency s"
  using assms(2)
proof (elim disjE exE)
  fix n p e assume "call = Set_Environment n p e"
  with assms(1) obtain who s1 where env: "set_environment_for (Acurast who, n) p e s = Inr s1"
    and s': "s' = deposit_acurast_event (ExecutionEnvironmentUpdated (Acurast who, n) p) s1"
    by (auto simp: set_environment_def bind_r_Inr Let_def)
  show ?thesis
    using set_environment_for_view [OF env, where k = k]
    by (simp add: s' view_simps) (simp add: deposit_acurast_event_def)
next
  fix n es assume "call = Set_Environments n es"
  then show ?thesis
    using assms(1) by (auto simp: set_environments_def result_simps dest!: set_environments_view [where k = k])
next
  fix j p e assume "call = Set_Environment_For j p e"
  then show ?thesis using assms(1) by (auto dest!: set_environment_for_view [where k = k])
qed (use assms(1) in \<open>auto simp: submit_attestation_def update_certificate_revocation_list_def
    advertise_def do_advertise_def delete_advertisement_def result_simps Let_def job_view_of_def get_match_def
    assigned_to_def deposit_acurast_event_def deposit_market_event_def\<close>)

context market_env
begin

lemma dispatch_moves:
  assumes d: "dispatch ac cfg o' call s = Inr s'" and ok: "jobs_ok cfg s"
  shows "jobs_move cfg s s'"
proof (cases call)
  case (Deregister n)
  with d obtain who where "deregister_for ac (mp_deregister_hook cfg) (Acurast who, n) s = Inr s'"
    by (auto simp: deregister_def bind_r_Inr)
  then show ?thesis using deregister_for_moves(1) ok by blast
next
  case (Finalize_Jobs ns)
  with d show ?thesis using ok by (auto simp: finalize_jobs_def bind_r_Inr intro: finalize_jobs_for_moves)
next
  case (Register r)
  with d ok show ?thesis by (auto intro: register_moves)
next
  case (Update_Allowed_Sources n us)
  with d show ?thesis by (auto intro: update_allowed_sources_moves)
next
  case (Propose_Matching ms)
  with d ok show ?thesis by (auto intro: propose_matching_moves)
next
  case (Acknowledge_Match j keys)
  with d ok show ?thesis by (auto intro: acknowledge_match_moves)
next
  case (Report_Execution j res)
  with d ok show ?thesis by (auto intro: report_moves)
next
  case (Finalize_Job j)
  with d show ?thesis by (auto intro: finalize_job_moves)
next
  case (Register_For j r)
  with d ok show ?thesis by (auto intro: register_for_moves)
next
  case (Deregister_For j)
  with d ok show ?thesis by (auto intro: deregister_for_moves(1))
next
  case (Finalize_Jobs_For js)
  with d ok show ?thesis by (auto intro: finalize_jobs_for_moves)
qed (use neutral_calls [OF d] in \<open>auto intro!: jobs_move_none\<close>)

lemma register_for_solvent:
  assumes "register_for ac (mp_register_hook cfg) j r s = Inr s'" and "market_solvent cfg s"
    and "funds_account (payments cfg) j \<noteq> pallet_account (payments cfg)"
  shows "market_solvent cfg s'"
proof -
  from assms(1) obtain s2 where
    hook: "mp_register_hook cfg (fst j) j r (s\<lparr>stored_job_registration := (stored_job_registration s)(j \<mapsto> r)\<rparr>) = Inr s2"
    and s': "s' = deposit_acurast_event (JobRegistrationStored r j) s2"
    by (auto simp: register_for_def bind_r_Inr Let_def)
  from register_hook_solvent [OF hook _ assms(3)] assms(2) show ?thesis
    by (simp add: s' market_solvent_def deposit_acurast_event_def)
qed

lemma deregister_for_solvent:
  assumes "deregister_for ac (mp_deregister_hook cfg) j s = Inr s'" and "market_solvent cfg s"
  shows "market_solvent cfg s'"
  using assms deregister_hook_solvent [of j s]
  by (auto simp: deregister_for_def bind_r_Inr Let_def market_solvent_def deposit_acurast_event_def
      clear_environment_for_def)

lemma dispatch_solvent:
  assumes d: "dispatch ac cfg o' call s = Inr s'" and sol: "market_solvent cfg s"
    and payer: "payer_ok (payments cfg) o' call"
  shows "market_solvent cfg s'"
proof (cases call)
  case (Deregister n)
  with d sol show ?thesis by (auto simp: deregister_def bind_r_Inr intro: deregister_for_solvent)
next
  case (Finalize_Jobs ns)
  with d sol show ?thesis by (auto simp: finalize_jobs_def bind_r_Inr intro: finalize_jobs_for_solvent)
next
  case (Register r)
  with d obtain who n where o: "o' = Signed who" and reg:
    "register_for ac (mp_register_hook cfg) (Acurast who, n) r (s\<lparr>local_job_id_sequence := n\<rparr>) = Inr s'"
    by (auto simp: register_def next_job_id_def bind_r_Inr Let_def ensure_signed_Inr)
  have "market_solvent cfg (s\<lparr>local_job_id_sequence := n\<rparr>)" using sol by (simp add: market_solvent_def)
  with register_for_solvent [OF reg] show ?thesis using payer Register o by simp
next
  case (Update_Allowed_Sources n us)
  with d sol show ?thesis
    by (auto simp: update_allowed_sources_def mp_update_allowed_sources_hook_def bind_r_Inr Let_def
        market_solvent_def deposit_acurast_event_def)
next
  case (Propose_Matching ms)
  with d sol show ?thesis by (auto intro: propose_matching_solvent)
next
  case (Acknowledge_Match j keys)
  with d sol show ?thesis by (auto simp: acknowledge_match_solvent)
next
  case (Report_Execution j res)
  with d sol show ?thesis by (auto intro: report_solvent)
next
  case (Finalize_Job j)
  with d sol show ?thesis by (auto simp: finalize_job_solvent)
next
  case (Register_For j r)
  with d sol payer show ?thesis by (auto intro: register_for_solvent)
next
  case (Deregister_For j)
  with d sol show ?thesis by (auto intro: deregister_for_solvent)
next
  case (Finalize_Jobs_For js)
  with d sol show ?thesis by (auto intro: finalize_jobs_for_solvent)
qed (use neutral_calls [OF d] sol in \<open>auto simp: market_solvent_def\<close>)

lemma run_calls_invariant:
  assumes "jobs_ok cfg s" and "market_solvent cfg s"
    and "\<And>o' call. (o', call) \<in> set calls \<Longrightarrow> payer_ok (payments cfg) o' call"
  shows "jobs_ok cfg (fold (run_call ac cfg) calls s) \<and> market_solvent cfg (fold (run_call ac cfg) calls s)"
  using assms
proof (induction calls arbitrary: s)
  case (Cons x calls)
  obtain o' call where x: "x = (o', call)" by (cases x)
  have "jobs_ok cfg (run_call ac cfg x s) \<and> market_solvent cfg (run_call ac cfg x s)"
  proof (cases "dispatch ac cfg o' call s")
    case (Inr s')
    then show ?thesis
      using Cons.prems dispatch_moves [OF Inr] dispatch_solvent [OF Inr] jobs_move_ok
      by (auto simp: run_call_def x)
  qed (use Cons.prems in \<open>simp add: run_call_def x\<close>)
  then show ?case using Cons by simp
qed simp

end

interpretation demo_market: market_env demo_market_config
  by unfold_locales (simp_all add: demo_market_config_def plain_payments_laws unit_assign_job_def unit_finalize_job_def)

lemma empty_market_jobs_ok: "jobs_ok cfg (empty_market c)"
proof -
  have "job_view_of j (empty_market c) = closed_view" for j
    by (simp add: job_view_of_def empty_market_def closed_view_def assigned_to_def get_match_def)
  then show ?thesis by (simp add: jobs_ok_def closed_view_def job_ok_close)
qed

lemma empty_market_solvent: "currency_balance (payments cfg) c (pallet_account (payments cfg)) < 2 ^ 128 \<Longrightarrow>
  market_solvent cfg (empty_market c)"
  by (simp add: market_solvent_def solvent_def empty_market_def budget_support_def budget_total_def)

lemma demo_open_market_jobs_ok: "jobs_ok demo_market_config demo_open_market"
proof -
  have count: "execution_count demo_schedule = 4" by (simp add: demo_schedule_def execution_count_eq)
  have "job_ok 4 (job_view_of j demo_open_market)" for j
    by (simp add: job_ok_def job_view_of_def demo_open_market_def empty_market_def get_match_def
        assigned_to_def registrable_def demo_market_registration_def MAX_EXECUTIONS_PER_JOB_def
        outstanding_def total_reward_def count)
      (simp add: demo_schedule_def)
  then show ?thesis by (simp add: jobs_ok_def demo_market_config_def)
qed

lemma demo_deregister_ok:
  "is_ok (deregister demo_config (mp_deregister_hook demo_market_config) (Signed 1) 1 demo_open_market)"
  by (simp add: deregister_def deregister_for_def mp_deregister_hook_def refund_and_notify_def refund_job_def
      refund_def demo_open_market_def empty_market_def demo_market_config_def plain_payments_def plain_transfer_def
      job_budget_ops_def jb_unreserve_remaining_def unit_finalize_job_def funds_account_def Let_def)

section \<open>Properties\<close>

text \<open>
  C1: refinement. Every call of the two pallets that succeeds in a state whose jobs are
  well-formed moves the view of every job (status, registration, processors, assignments,
  budget) by moves of the abstract job life cycle only.
\<close>

theorem dispatch_refines_lifecycle:
  assumes "market_env cfg" and "jobs_ok cfg s" and "dispatch ac cfg o' call s = Inr s'"
  shows "(job_step (mp_max_slots cfg))\<^sup>*\<^sup>* (job_view_of j s) (job_view_of j s')"
  using market_env.dispatch_moves [OF assms(1,3,2)] by (simp add: jobs_move_def)

theorem dispatch_refines_lifecycle_witness:
  "\<exists>s'. dispatch demo_config demo_market_config (Signed 1) (Deregister 1) demo_open_market = Inr s' \<and>
    (job_step 4)\<^sup>*\<^sup>* (job_view_of (Acurast 1, 1) demo_open_market) (job_view_of (Acurast 1, 1) s')"
proof -
  obtain s' where s': "dispatch demo_config demo_market_config (Signed 1) (Deregister 1) demo_open_market = Inr s'"
    using demo_deregister_ok unfolding is_ok_ex by auto
  have "mp_max_slots demo_market_config = 4" by (simp add: demo_market_config_def)
  with dispatch_refines_lifecycle [OF demo_market.market_env_axioms demo_open_market_jobs_ok s', of "(Acurast 1, 1)"] s'
  show ?thesis by auto
qed

text \<open>
  C2: from a state with well-formed jobs and a solvent pallet account, after any sequence of
  calls (failing calls included) every job is well-formed again and the pallet's account covers
  all job budgets. In particular a job's budget always covers the fees of all executions still
  to be reported, its processors are exactly those it is matched with, at most one per slot, and
  a job that is not registered holds no funds.
\<close>

theorem calls_keep_invariants:
  assumes "market_env cfg" and "jobs_ok cfg s" and "market_solvent cfg s"
    and "\<And>o' call. (o', call) \<in> set calls \<Longrightarrow> payer_ok (payments cfg) o' call"
  shows "jobs_ok cfg (fold (run_call ac cfg) calls s) \<and> market_solvent cfg (fold (run_call ac cfg) calls s)"
  by (rule market_env.run_calls_invariant [OF assms])

theorem calls_keep_invariants_witness:
  "jobs_ok demo_market_config (fold (run_call demo_config demo_market_config)
     [(Signed 20, Delete_Advertisement),
      (Signed 1, Register (demo_market_registration demo_schedule)),
      (Signed 1, Deregister 1)] (empty_market (\<lambda>_. 1000))) \<and>
   market_solvent demo_market_config (fold (run_call demo_config demo_market_config)
     [(Signed 20, Delete_Advertisement),
      (Signed 1, Register (demo_market_registration demo_schedule)),
      (Signed 1, Deregister 1)] (empty_market (\<lambda>_. 1000)))"
  by (rule calls_keep_invariants [OF demo_market.market_env_axioms empty_market_jobs_ok empty_market_solvent])
    (auto simp: demo_market_config_def plain_payments_def)

text \<open>
  C8: deregistering a job of the signer succeeds only for a job that has a status; afterwards
  the job has no status, no registration, no processors, no assignments and no budget left, and
  every other job is as before.
\<close>

theorem deregister_closes_job:
  assumes "market_env cfg" and "jobs_ok cfg s"
    and "deregister ac (mp_deregister_hook cfg) (Signed who) n s = Inr s'"
  shows "stored_job_status s (Acurast who, n) \<noteq> None \<and> job_view_of (Acurast who, n) s' = closed_view \<and>
    (\<forall>j. j \<noteq> (Acurast who, n) \<longrightarrow> job_view_of j s' = job_view_of j s)"
proof -
  from assms(3) have "deregister_for ac (mp_deregister_hook cfg) (Acurast who, n) s = Inr s'"
    by (simp add: deregister_def)
  from market_env.deregister_for_closes [OF assms(1) this assms(2)] show ?thesis by blast
qed

theorem deregister_closes_job_witness:
  "\<exists>s'. deregister demo_config (mp_deregister_hook demo_market_config) (Signed 1) 1 demo_open_market = Inr s' \<and>
     job_view_of (Acurast 1, 1) s' = closed_view"
proof -
  obtain s' where "deregister demo_config (mp_deregister_hook demo_market_config) (Signed 1) 1 demo_open_market = Inr s'"
    using demo_deregister_ok unfolding is_ok_ex by blast
  with deregister_closes_job [OF demo_market.market_env_axioms demo_open_market_jobs_ok this] show ?thesis by blast
qed


definition demo_assigned_market :: "u128 \<Rightarrow> (account_id \<Rightarrow> balance) market_state" where
  "demo_assigned_market now = demo_open_market
     \<lparr>unix_millis := now, stored_job_status := [(Acurast 1, 1) \<mapsto> Assigned 1],
      stored_matches := (\<lambda>_. [])(20 := [((Acurast 1, 1),
        \<lparr>slot = 0, as_start_delay = 0, fee_per_execution_of = 7, acknowledged = True,
         assignment_sla = \<lparr>sla_total = 4, sla_met = 0\<rparr>, pub_keys = []\<rparr>)]),
      assigned_processors := (\<lambda>_. [])((Acurast 1, 1) := [(20, ())]),
      stored_storage_capacity := [20 \<mapsto> 5]\<rparr>"

lemma demo_assigned_market_jobs_ok: "jobs_ok demo_market_config (demo_assigned_market now)"
proof -
  have count: "execution_count demo_schedule = 4" by (simp add: demo_schedule_def execution_count_eq)
  let ?j = "(Acurast 1, 1) :: job_id" and ?s = "demo_assigned_market now"
  have vj: "job_view_of ?j ?s = \<lparr>jv_status = Some (Assigned 1), jv_reg = Some (demo_market_registration demo_schedule),
      jv_procs = [20], jv_match = [20 \<mapsto> \<lparr>slot = 0, as_start_delay = 0, fee_per_execution_of = 7, acknowledged = True,
         assignment_sla = \<lparr>sla_total = 4, sla_met = 0\<rparr>, pub_keys = []\<rparr>], jv_budget = 40\<rparr>"
    by (simp add: job_view_of_def demo_assigned_market_def demo_open_market_def empty_market_def assigned_to_def
        get_match_def fun_eq_iff)
  have "job_ok 4 (job_view_of ?j ?s)"
    unfolding vj by (simp add: job_ok_def outstanding_def registrable_def demo_market_registration_def count
        MAX_EXECUTIONS_PER_JOB_def acked_def unacked_def Collect_conv_if) (simp add: demo_schedule_def)
  moreover have "job_ok 4 (job_view_of k ?s)" if "k \<noteq> ?j" for k
  proof -
    have "job_view_of k ?s = closed_view"
      using that by (simp add: job_view_of_def demo_assigned_market_def demo_open_market_def empty_market_def
          assigned_to_def get_match_def closed_view_def fun_eq_iff)
    then show ?thesis by (simp add: closed_view_def job_ok_close)
  qed
  ultimately show ?thesis unfolding jobs_ok_def demo_market_config_def by (metis market_config.select_convs(1))
qed


lemma demo_report_ok:
  "is_ok (report demo_market_config (Signed 20) (Acurast 1, 1) (Success []) (demo_assigned_market 3))"
proof -
  have count: "execution_count demo_schedule = 4" by (simp add: demo_schedule_def execution_count_eq)
  have range: "schedule_range demo_schedule 0 = Some (2, 33)"
    by (simp add: schedule_range_def count checked_add_def checked_mul_def) (simp add: demo_schedule_def)
  have ov: "overlaps demo_schedule 0 2 4 = Some True"
    using overlaps_from_start [OF range, of 4] count by (simp add: demo_schedule_def)
  show ?thesis
    by (simp add: report_def demo_assigned_market_def demo_open_market_def empty_market_def get_match_def
        demo_market_config_def lift_mp_def market_now_def now_millis_def checked_add_def Let_def put_match_def
        demo_market_registration_def range ov with_funds_def pay_reward_def job_budget_ops_def jb_unreserve_def
        checked_sub_def plain_payments_def plain_transfer_def wrapping_sub_def)
qed

lemma lift_mp_Inl: "lift_mp r = Inl e \<longleftrightarrow> (\<exists>e'. r = Inl e' \<and> e = mp_err e')"
  by (cases r) (auto simp: lift_mp_def)

context market_env
begin

lemma mp_hooks: "job_hooks (mp_register_hook cfg) (mp_deregister_hook cfg) mp_update_allowed_sources_hook"
  by unfold_locales

lemma report_effect_aux:
  assumes "report cfg (Signed p) j res s = Inr s'" and ok: "jobs_ok cfg s"
  shows "\<exists>a reg now. get_match p j s = Some a \<and> acknowledged a \<and>
    sla_met (assignment_sla a) < sla_total (assignment_sla a) \<and>
    get_match p j s' = Some (a\<lparr>assignment_sla := (assignment_sla a)\<lparr>sla_met := sla_met (assignment_sla a) + 1\<rparr>\<rparr>) \<and>
    fee_per_execution_of a \<le> job_budgets s j \<and>
    job_budgets s' = (job_budgets s)(j := job_budgets s j - fee_per_execution_of a) \<and>
    (\<forall>k. k \<noteq> j \<longrightarrow> job_view_of k s' = job_view_of k s) \<and>
    stored_job_registration s j = Some reg \<and> market_now s = Inr now \<and>
    start_time (job_schedule reg) + as_start_delay a < now + report_tolerance cfg"
  using assms(1)
proof (rule report_Inr)
  fix who a reg now manager b c
  assume o: "Signed p = Signed who" and a: "get_match who j s = Some a" "acknowledged a"
    "sla_met (assignment_sla a) < sla_total (assignment_sla a)"
    and reg: "stored_job_registration s j = Some reg" "market_now s = Inr now"
    and ov: "overlaps (job_schedule reg) (as_start_delay a)
       (fst (the (schedule_range (job_schedule reg) (as_start_delay a)))) (now + report_tolerance cfg) = Some True"
    and pay: "pay_reward job_budget_ops (payments cfg) j (fee_per_execution_of a) manager
       (job_budgets s, market_currency s) = Inr (b, c)"
    and s': "s' = deposit_market_event (Reported j who (a\<lparr>assignment_sla := (assignment_sla a)
              \<lparr>sla_met := wrapping_add 64 (sla_met (assignment_sla a)) 1\<rparr>\<rparr>))
           (deposit_market_event (execution_event j res)
             ((put_match who j (a\<lparr>assignment_sla := (assignment_sla a)
                 \<lparr>sla_met := wrapping_add 64 (sla_met (assignment_sla a)) 1\<rparr>\<rparr>) s)
               \<lparr>job_budgets := b, market_currency := c\<rparr>))"
  note eff = jb.pay_reward_effect(1,2) [OF pay, unfolded reserved_jb]
  have jok: "job_ok max_slots (job_view_of j s)" using ok by (rule jobs_okD)
  have "sla_total (assignment_sla a) \<le> MAX_EXECUTIONS_PER_JOB"
    using jok a(1) by (simp add: job_ok_def)
  then have w: "wrapping_add 64 (sla_met (assignment_sla a)) 1 = sla_met (assignment_sla a) + 1"
    using a(3) by (intro wrapping_add_exact) (simp add: MAX_EXECUTIONS_PER_JOB_def)
  have regs: "0 < duration (job_schedule reg)" "0 < execution_count (job_schedule reg)"
    using jok reg(1) by (auto simp: job_ok_def registrable_def)
  have gm: "get_match p j s' = Some (a\<lparr>assignment_sla := (assignment_sla a)\<lparr>sla_met := sla_met (assignment_sla a) + 1\<rparr>\<rparr>)"
    using o by (simp add: s' w [simplified] get_match_def put_match_def deposit_market_event_def update_conv')
  obtain st en where range: "schedule_range (job_schedule reg) (as_start_delay a) = Some (st, en)"
    using ov by (cases "schedule_range (job_schedule reg) (as_start_delay a)") (auto simp: overlaps_def)
  have "st = start_time (job_schedule reg) + as_start_delay a"
    using range by (auto simp: schedule_range_def bind_eq_Some_conv int_simps Let_def split: if_splits)
  moreover have "st < now + report_tolerance cfg"
    using ov overlaps_from_start [OF range regs] by (simp add: range)
  moreover have "\<forall>k. k \<noteq> j \<longrightarrow> job_view_of k s' = job_view_of k s"
    using eff(2) by (simp add: s' view_simps)
  moreover have "job_budgets s' = (job_budgets s)(j := job_budgets s j - fee_per_execution_of a)"
    using eff(2) by (simp add: s' deposit_market_event_def)
  ultimately show ?thesis using a reg gm eff(1) o by auto
qed

lemma report_fee_reserved:
  assumes ok: "jobs_ok cfg s" and a: "get_match p j s = Some a"
    "sla_met (assignment_sla a) < sla_total (assignment_sla a)"
  shows "fee_per_execution_of a \<le> job_budgets s j"
proof -
  have dom: "p \<in> set (assigned_to j s)" and bud: "outstanding (job_view_of j s) \<le> job_budgets s j"
    using jobs_okD [OF ok, of j] a(1) by (auto simp: job_ok_def)
  have "fee_per_execution_of a \<le> owed (get_match p j s)" using a by auto
  also have "\<dots> \<le> (\<Sum>q\<in>set (assigned_to j s). owed (get_match q j s))"
    using dom by (intro member_le_sum) auto
  finally show ?thesis using bud by (simp add: outstanding_def)
qed

lemma report_funded_aux:
  assumes ok: "jobs_ok cfg s"
    and tr: "\<And>src dst x c. currency_transfer (payments cfg) src dst x c \<noteq> Inl (Other ''Severe Error: JobBudget::unreserve failed'')"
    and man: "manager_of cfg p \<noteq> Inl (Other ''Severe Error: JobBudget::unreserve failed'')"
  shows "report cfg (Signed p) j res s \<noteq> Inl (Other ''Severe Error: JobBudget::unreserve failed'')"
proof -
  let ?e = "Other ''Severe Error: JobBudget::unreserve failed'' :: runtime_dispatch_error"
  have pay: "with_funds (pay_reward job_budget_ops (payments cfg) j (fee_per_execution_of a) m) t \<noteq> Inl ?e"
    if a: "get_match p j s = Some a" "sla_met (assignment_sla a) < sla_total (assignment_sla a)"
      and t: "job_budgets t = job_budgets s" for a m t
  proof -
    have "is_ok (unreserve job_budget_ops j (fee_per_execution_of a) (job_budgets t))"
      using report_fee_reserved [OF ok a] t by (intro jb.unreserve_ok) simp
    then obtain b where "unreserve job_budget_ops j (fee_per_execution_of a) (job_budgets t) = Inr b"
      unfolding is_ok_ex by blast
    then show ?thesis using tr by (auto simp: with_funds_def pay_reward_def Let_def bind_r_Inl)
  qed
  show ?thesis
    using man by (auto simp: report_def Let_def result_simps lift_mp_Inl) (metis pay put_match_fields(4))
qed

end



text \<open>
  C3: a report is never refused for lack of budget: whatever happened before, the reserved
  budget of a well-formed job covers the fee of every execution that its processors may still
  report.
\<close>

theorem report_never_underfunded:
  assumes "market_env cfg" and "jobs_ok cfg s"
    and "\<And>src dst x c. currency_transfer (payments cfg) src dst x c \<noteq> Inl (Other ''Severe Error: JobBudget::unreserve failed'')"
    and "manager_of cfg p \<noteq> Inl (Other ''Severe Error: JobBudget::unreserve failed'')"
  shows "report cfg (Signed p) j res s \<noteq> Inl (Other ''Severe Error: JobBudget::unreserve failed'')"
  by (rule market_env.report_funded_aux [OF assms])

theorem report_never_underfunded_witness:
  "report demo_market_config (Signed 20) (Acurast 1, 1) (Success []) (demo_assigned_market 3)
     \<noteq> Inl (Other ''Severe Error: JobBudget::unreserve failed'')"
  by (rule report_never_underfunded [OF demo_market.market_env_axioms demo_assigned_market_jobs_ok])
    (auto simp: demo_market_config_def plain_payments_def plain_transfer_def)

interpretation mp_sources: job_hooks unit_register_hook unit_deregister_hook mp_update_allowed_sources_hook
  by unfold_locales
    (auto simp: unit_register_hook_def unit_deregister_hook_def mp_update_allowed_sources_hook_def result_simps)

text \<open>
  Through the marketplace's hooks, the allowed sources of a job can only be changed while
  the job is open and by its owner; afterwards a source is on the list exactly when the last
  update naming it added it, or no update names it and it was on the list before; an empty list
  is stored as no restriction, and the list stays within \<open>MaxAllowedSources\<close>.
\<close>

theorem update_allowed_sources_spec:
  assumes "update_allowed_sources ac mp_update_allowed_sources_hook (Signed who) n us s = Inr s'"
    and "stored_job_registration s (Acurast who, n) = Some r"
    and "distinct (unwrap_or (allowed_sources r) [])"
  shows "stored_job_status s (Acurast who, n) = Some Open \<and>
    (\<exists>srcs. stored_job_registration s' (Acurast who, n) =
        Some (r\<lparr>allowed_sources := if srcs = [] then None else Some srcs\<rparr>) \<and>
      distinct srcs \<and> length srcs \<le> MaxAllowedSources ac \<and>
      (\<forall>x. x \<in> set srcs \<longleftrightarrow>
        (case last_update us x of None \<Rightarrow> x \<in> set (unwrap_or (allowed_sources r) []) | Some opn \<Rightarrow> opn = Add))) \<and>
    (\<forall>j. j \<noteq> (Acurast who, n) \<longrightarrow> stored_job_registration s' j = stored_job_registration s j)"
proof -
  let ?srcs = "fold apply_source_update us (unwrap_or (allowed_sources r) [])"
  obtain r' where "stored_job_registration s (Acurast who, n) = Some r'"
    and eff': "stored_job_registration s' = (stored_job_registration s)((Acurast who, n) \<mapsto>
        r'\<lparr>allowed_sources :=
            (let srcs = fold apply_source_update us (unwrap_or (allowed_sources r') [])
             in if srcs = [] then None else Some srcs)\<rparr>)"
      "length (fold apply_source_update us (unwrap_or (allowed_sources r') [])) \<le> MaxAllowedSources ac"
    using assms(1) by (rule mp_sources.update_allowed_sources_effect)
  then have "r' = r" using assms(2) by simp
  note eff = eff' [unfolded this Let_def]
  have st: "stored_job_status s (Acurast who, n) = Some Open"
    using assms(1) by (auto simp: update_allowed_sources_def mp_update_allowed_sources_hook_def result_simps Let_def)
  show ?thesis
    by (intro conjI exI [of _ ?srcs] allI impI)
      (simp_all add: eff st fold_source_updates_distinct [OF assms(3)] fold_source_updates_mem [OF assms(3)])
qed

theorem update_allowed_sources_spec_witness:
  "\<exists>s'. update_allowed_sources demo_config mp_update_allowed_sources_hook (Signed 1) 1
       [\<lparr>operation = Add, item = 20\<rparr>, \<lparr>operation = Add, item = 21\<rparr>, \<lparr>operation = Remove, item = 20\<rparr>] demo_open_market = Inr s' \<and>
     (\<exists>srcs. stored_job_registration s' (Acurast 1, 1) = Some ((demo_market_registration demo_schedule)
        \<lparr>allowed_sources := if srcs = [] then None else Some srcs\<rparr>) \<and> 21 \<in> set srcs \<and> 20 \<notin> set srcs)"
proof -
  let ?us = "[\<lparr>operation = Add, item = 20\<rparr>, \<lparr>operation = Add, item = 21\<rparr>, \<lparr>operation = Remove, item = 20\<rparr>]"
  have "is_ok (update_allowed_sources demo_config mp_update_allowed_sources_hook (Signed 1) 1 ?us demo_open_market)"
    by (simp add: update_allowed_sources_def demo_open_market_def demo_market_registration_def
        mp_update_allowed_sources_hook_def bounded_allowed_sources_def demo_config_def Let_def)
  then obtain s' where s': "update_allowed_sources demo_config mp_update_allowed_sources_hook (Signed 1) 1 ?us
      demo_open_market = Inr s'"
    unfolding is_ok_ex by blast
  have "stored_job_registration demo_open_market (Acurast 1, 1) = Some (demo_market_registration demo_schedule)"
    "distinct (unwrap_or (allowed_sources (demo_market_registration demo_schedule)) [])"
    by (simp_all add: demo_open_market_def demo_market_registration_def)
  from update_allowed_sources_spec [OF s' this] obtain srcs where
    reg: "stored_job_registration s' (Acurast 1, 1) = Some ((demo_market_registration demo_schedule)
        \<lparr>allowed_sources := if srcs = [] then None else Some srcs\<rparr>)"
    and mem: "\<And>x. x \<in> set srcs \<longleftrightarrow> (case last_update ?us x of
        None \<Rightarrow> x \<in> set (unwrap_or (allowed_sources (demo_market_registration demo_schedule)) []) | Some opn \<Rightarrow> opn = Add)"
    by blast
  have "21 \<in> set srcs" "20 \<notin> set srcs" by (simp_all add: mem)
  with s' reg show ?thesis by blast
qed

text \<open>
  A registration through pallet acurast with the marketplace's hooks stores the job under the
  next identifier of the local sequence and changes no other registration; the script has the
  required form. As long as the sequence has not wrapped around and all local identifiers in use
  are at most its value, the identifier is fresh: nothing is overwritten.
\<close>

theorem register_stores_fresh_job:
  assumes "market_env cfg" and "register ac (mp_register_hook cfg) (Signed who) r s = Inr s'"
    and "local_job_id_sequence s + 1 < 2 ^ 128"
    and "\<And>a n. stored_job_registration s (Acurast a, n) \<noteq> None \<Longrightarrow> n \<le> local_job_id_sequence s"
  shows "is_valid_script (script r) \<and>
    stored_job_registration s (Acurast who, local_job_id_sequence s + 1) = None \<and>
    stored_job_registration s' = (stored_job_registration s)((Acurast who, local_job_id_sequence s + 1) \<mapsto> r) \<and>
    local_job_id_sequence s' = local_job_id_sequence s + 1 \<and>
    (\<forall>a n. stored_job_registration s' (Acurast a, n) \<noteq> None \<longrightarrow> n \<le> local_job_id_sequence s')"
proof -
  note hooks = market_env.mp_hooks [OF assms(1)]
  have w: "wrapping_add 128 (local_job_id_sequence s) 1 = local_job_id_sequence s + 1"
    using assms(3) by (rule wrapping_add_exact)
  note eff = job_hooks.register_effect [OF hooks assms(2), unfolded w]
  have fresh: "stored_job_registration s (Acurast who, local_job_id_sequence s + 1) = None"
    using assms(4) by (metis not_less_eq_eq order_refl Suc_eq_plus1)
  have "is_valid_script (script r)"
    using assms(2) by (auto simp: register_def next_job_id_def register_for_def result_simps Let_def)
  moreover have "n \<le> local_job_id_sequence s + 1" if "stored_job_registration s' (Acurast a, n) \<noteq> None" for a n
    using that assms(4) [of a n] by (auto simp: eff(1) split: if_splits)
  ultimately show ?thesis using eff fresh by simp
qed

theorem register_stores_fresh_job_witness:
  "\<exists>s'. register demo_config (mp_register_hook demo_market_config) (Signed 1)
       (demo_market_registration demo_schedule) (empty_market (\<lambda>_. 1000)) = Inr s' \<and>
     stored_job_registration s' = [(Acurast 1, 1) \<mapsto> demo_market_registration demo_schedule]"
proof -
  have count: "execution_count demo_schedule = 4" by (simp add: demo_schedule_def execution_count_eq)
  have "validate_registration demo_market_config (demo_market_registration demo_schedule) s = Inr ()"
    if "unix_millis s = 0" for s :: "(account_id \<Rightarrow> balance) market_state"
    using that by (simp add: validate_registration_def demo_market_registration_def count demo_market_config_def
        MAX_EXECUTIONS_PER_JOB_def market_now_def now_millis_def) (simp add: demo_schedule_def)
  then have "is_ok (register demo_config (mp_register_hook demo_market_config) (Signed 1)
       (demo_market_registration demo_schedule) (empty_market (\<lambda>_. 1000)))"
    by (simp add: register_def next_job_id_def register_for_def mp_register_hook_def lift_mp_def empty_market_def
        set_status_def total_reward_amount_def checked_mul_def with_funds_def lock_reward_def Let_def
        demo_market_config_def plain_payments_def plain_transfer_def job_budget_ops_def jb_reserve_def checked_add_def)
      (simp add: demo_market_registration_def count is_valid_script_def SCRIPT_PREFIX_def SCRIPT_LENGTH_def
        funds_account_def)
  then obtain s' where s': "register demo_config (mp_register_hook demo_market_config) (Signed 1)
       (demo_market_registration demo_schedule) (empty_market (\<lambda>_. 1000)) = Inr s'"
    unfolding is_ok_ex by blast
  from register_stores_fresh_job [OF demo_market.market_env_axioms s'] s' show ?thesis
    by (simp add: empty_market_def)
qed

end
