(* ===== verification/Mountain_Range.thy ===== *)
theory Mountain_Range
  imports Dispatch
begin

text \<open>
  The Merkle mountain range of the outgoing side of Hyperdrive: the index arithmetic of
  \<open>pallets/hyperdrive-outgoing/src/utils.rs\<close>, and the parts of \<open>mmr/mmr.rs\<close> and
  \<open>mmr/storage.rs\<close> that work on positions.

  The mountain range itself is the crate \<open>ckb-merkle-mountain-range\<close>. The functions of its module
  \<open>helper\<close> that the code calls are the record \<open>mmr_helper\<close>; what they compute is
  \<open>mmr_helper_laws\<close>, stated over the reference definitions of this theory: \<open>mmr_size n\<close> is the number
  of nodes over \<open>n\<close> leaves, \<open>peak_heights n\<close> lists the heights of the mountains from left to right,
  and \<open>peak_positions n\<close> the positions of their peaks.
\<close>

section \<open>Bits\<close>

fun count_ones :: "nat \<Rightarrow> nat" where
  "count_ones n = (if n = 0 then 0 else n mod 2 + count_ones (n div 2))"

function trailing_ones :: "nat \<Rightarrow> nat" where
  "trailing_ones n = (if odd n then Suc (trailing_ones (n div 2)) else 0)"
  by pat_completeness auto
termination
  by (relation "measure id") (auto elim: oddE)

declare count_ones.simps [simp del] trailing_ones.simps [simp del]

section \<open>The reference\<close>

definition mmr_size :: "nat \<Rightarrow> nat" where
  "mmr_size n = 2 * n - count_ones n"

fun peak_heights :: "nat \<Rightarrow> nat list" where
  "peak_heights n = (if n = 0 then [] else map Suc (peak_heights (n div 2)) @ (if odd n then [0] else []))"

declare peak_heights.simps [simp del]

fun positions :: "nat \<Rightarrow> nat list \<Rightarrow> nat list" where
  "positions off [] = []"
| "positions off (h # hs) = (off + 2 ^ Suc h - 2) # positions (off + 2 ^ Suc h - 1) hs"

definition peak_positions :: "nat \<Rightarrow> nat list" where
  "peak_positions n = positions 0 (peak_heights n)"

section \<open>The helper functions of the library\<close>

record mmr_helper =
  get_peaks :: "u64 \<Rightarrow> u64 list"
  pos_height_in_tree :: "u64 \<Rightarrow> u32"
  parent_offset :: "u32 \<Rightarrow> u64"
  sibling_offset :: "u32 \<Rightarrow> u64"
  leaf_index_to_pos :: "u64 \<Rightarrow> u64"

text \<open>
  Leaf \<open>n\<close> is at position \<open>mmr_size n\<close>; adding it also adds \<open>trailing_ones n\<close> inner nodes, of heights
  1, 2 and so on, right after it. From a parent of height \<open>h + 1\<close> it is \<open>parent_offset h\<close> back to its
  left child, and \<open>sibling_offset h\<close> from there to the right one.
\<close>

definition mmr_helper_laws :: "mmr_helper \<Rightarrow> bool" where
  "mmr_helper_laws H \<longleftrightarrow>
     (\<forall>n. 0 < n \<longrightarrow> get_peaks H (mmr_size n) = peak_positions n) \<and>
     (\<forall>n j. j \<le> trailing_ones n \<longrightarrow> pos_height_in_tree H (mmr_size n + j) = j) \<and>
     (\<forall>h. parent_offset H h = 2 ^ Suc h) \<and>
     (\<forall>h. sibling_offset H h = 2 ^ Suc h - 1) \<and>
     (\<forall>n. leaf_index_to_pos H n = mmr_size n)"

section \<open>NodesUtils (utils.rs)\<close>

definition number_of_peaks :: "u64 \<Rightarrow> u64" where
  "number_of_peaks no_of_leaves = count_ones no_of_leaves"

definition nodes_size :: "u64 \<Rightarrow> u64" where
  "nodes_size no_of_leaves = wrapping_sub 64 (wrapping_mul 64 2 no_of_leaves) (number_of_peaks no_of_leaves)"

definition leaf_node_pos_to_leaf_index :: "mmr_helper \<Rightarrow> u64 \<Rightarrow> u64" where
  "leaf_node_pos_to_leaf_index H pos =
     (if pos = 0 then 0 else wrapping_add 64 pos (length (get_peaks H pos)) div 2)"

definition rightmost_leaf_node_index_from_pos :: "mmr_helper \<Rightarrow> u64 \<Rightarrow> u64" where
  "rightmost_leaf_node_index_from_pos H pos = wrapping_sub 64 pos (pos_height_in_tree H pos)"

definition leaf_index_that_added_node :: "mmr_helper \<Rightarrow> u64 \<Rightarrow> u64" where
  "leaf_index_that_added_node H node_index =
     leaf_node_pos_to_leaf_index H (rightmost_leaf_node_index_from_pos H node_index)"

definition right_branch_ending_in_leaf :: "mmr_helper \<Rightarrow> u64 \<Rightarrow> u64 list" where
  "right_branch_ending_in_leaf H leaf_index =
     (let pos = leaf_index_to_pos H leaf_index; num_parents = trailing_ones leaf_index
      in [pos ..< Suc (wrapping_add 64 pos num_parents)])"

section \<open>Peaks to prune and to store (storage.rs)\<close>

text \<open>
  The loop that consumes the common prefix compares two \<open>peek()\<close>s. When both sequences end together,
  \<open>None == None\<close> stays true for ever: the loop does not return.
\<close>

fun consume_common :: "u64 list \<Rightarrow> u64 list \<Rightarrow> (u64 list \<times> u64 list) option" where
  "consume_common [] [] = None"
| "consume_common (x # xs) (y # ys) = (if x = y then consume_common xs ys else Some (x # xs, y # ys))"
| "consume_common xs ys = Some (xs, ys)"

definition peaks_to_prune_and_store :: "mmr_helper \<Rightarrow> u64 \<Rightarrow> u64 \<Rightarrow> (u64 list \<times> u64 list) option" where
  "peaks_to_prune_and_store H old_size new_size =
     (let peaks_before = (if old_size = 0 then [] else get_peaks H old_size);
          peaks_after = get_peaks H new_size
      in consume_common peaks_before peaks_after)"

section \<open>Indices within a mountain (mmr.rs)\<close>

text \<open>
  \<open>take_while_vec\<close> drains the longest prefix that satisfies the predicate. \<open>k_index_loop h pos\<close> is the
  loop over the heights from \<open>h\<close> down to 1, with \<open>index\<close> and \<open>parent_pos\<close> as accumulators.
\<close>

definition take_while_vec :: "('a \<Rightarrow> bool) \<Rightarrow> 'a list \<Rightarrow> 'a list \<times> 'a list" where
  "take_while_vec p v = (takeWhile p v, dropWhile p v)"

fun k_index_loop :: "mmr_helper \<Rightarrow> nat \<Rightarrow> u64 \<Rightarrow> nat \<Rightarrow> u64 \<Rightarrow> nat" where
  "k_index_loop H 0 pos index parent_pos = index"
| "k_index_loop H (Suc height) pos index parent_pos =
     (let left_child = wrapping_sub 64 parent_pos (parent_offset H height);
          right_child = wrapping_add 64 left_child (sibling_offset H height);
          index = wrapping_mul 64 index 2
      in if left_child \<ge> pos then k_index_loop H height pos index left_child
         else k_index_loop H height pos (wrapping_add 64 index 1) right_child)"

fun k_indices :: "mmr_helper \<Rightarrow> u64 list \<Rightarrow> u64 list \<Rightarrow> (u64 \<times> nat) list" where
  "k_indices H [] leaf_positions = []"
| "k_indices H (peak # peaks) leaf_positions =
     (let (leaves, rest) = take_while_vec (\<lambda>pos. pos \<le> peak) leaf_positions
      in map (\<lambda>pos. (pos, k_index_loop H (pos_height_in_tree H peak) pos 0 peak)) leaves @ k_indices H peaks rest)"

definition node_pos_to_k_index :: "mmr_helper \<Rightarrow> u64 list \<Rightarrow> u64 \<Rightarrow> (u64 \<times> nat) list" where
  "node_pos_to_k_index H leaf_positions sz = k_indices H (get_peaks H sz) leaf_positions"

section \<open>Sizes and peaks\<close>

lemma count_ones_0 [simp]: "count_ones 0 = 0"
  by (simp add: count_ones.simps)

lemma count_ones_even: "count_ones (2 * n) = count_ones n"
  by (cases "n = 0") (simp_all add: count_ones.simps [of "2 * n"])

lemma count_ones_odd: "count_ones (Suc (2 * n)) = Suc (count_ones n)"
  by (simp add: count_ones.simps [of "Suc (2 * n)"])

lemma trailing_ones_even: "trailing_ones (2 * n) = 0"
  by (simp add: trailing_ones.simps)

lemma trailing_ones_odd: "trailing_ones (Suc (2 * n)) = Suc (trailing_ones n)"
  by (simp add: trailing_ones.simps [of "Suc (2 * n)"])

lemma peak_heights_0 [simp]: "peak_heights 0 = []"
  by (simp add: peak_heights.simps)

lemma peak_heights_even: "peak_heights (2 * n) = map Suc (peak_heights n)"
  by (cases "n = 0") (simp_all add: peak_heights.simps [of "2 * n"])

lemma peak_heights_odd: "peak_heights (Suc (2 * n)) = map Suc (peak_heights n) @ [0]"
  by (simp add: peak_heights.simps [of "Suc (2 * n)"])

lemmas bit_rules = count_ones_even count_ones_odd trailing_ones_even trailing_ones_odd
  peak_heights_even peak_heights_odd

text \<open>Induction along the bits of a number.\<close>

lemma binary_induct [case_names zero even odd]:
  assumes "P 0" and "\<And>n. 0 < n \<Longrightarrow> P n \<Longrightarrow> P (2 * n)" and "\<And>n. P n \<Longrightarrow> P (Suc (2 * n))"
  shows "P (n::nat)"
proof (induction n rule: less_induct)
  case (less n)
  show ?case
  proof (cases "n = 0")
    case False
    then have "P (n div 2)" by (intro less) simp
    with assms False show ?thesis
      by (cases "even n") (metis dvd_mult_div_cancel nat_0_less_mult_iff neq0_conv, metis odd_two_times_div_two_succ Suc_eq_plus1)
  qed (simp add: assms(1))
qed

lemma count_ones_le: "count_ones n \<le> n"
  by (induction n rule: binary_induct) (simp_all add: bit_rules)

lemma count_ones_Suc: "count_ones (Suc n) + trailing_ones n = Suc (count_ones n)"
proof (induction n rule: binary_induct)
  case (odd n)
  have "Suc (Suc (2 * n)) = 2 * Suc n" by simp
  then show ?case using odd by (simp only: bit_rules)
qed (use bit_rules(2,3) in \<open>simp_all add: bit_rules trailing_ones.simps [of 0] count_ones.simps [of "Suc 0"]\<close>)

lemma mmr_size_0 [simp]: "mmr_size 0 = 0"
  by (simp add: mmr_size_def)

lemma mmr_size_Suc: "mmr_size (Suc n) = Suc (mmr_size n + trailing_ones n)"
  using count_ones_Suc [of n] count_ones_le [of n] by (simp add: mmr_size_def)

lemma mmr_size_strict_mono: "m < n \<Longrightarrow> mmr_size m < mmr_size n"
proof (induction n)
  case (Suc n)
  then show ?case by (cases "m = n") (auto simp: mmr_size_Suc)
qed simp

lemma mmr_size_le_iff: "mmr_size m \<le> mmr_size n \<longleftrightarrow> m \<le> n"
  by (metis less_imp_le linorder_not_less mmr_size_strict_mono order_le_less)

lemma mmr_size_less_iff: "mmr_size m < mmr_size n \<longleftrightarrow> m < n"
  using mmr_size_le_iff by (metis linorder_not_less)

lemma mmr_size_ge: "n \<le> mmr_size n" "mmr_size n \<le> 2 * n"
  using count_ones_le [of n] by (simp_all add: mmr_size_def)

lemma peak_heights_Suc:
  "\<exists>A. peak_heights n = A @ rev [0 ..< trailing_ones n] \<and> peak_heights (Suc n) = A @ [trailing_ones n]"
proof (induction n rule: binary_induct)
  case zero
  show ?case by (simp add: trailing_ones.simps peak_heights.simps [of "Suc 0"])
next
  case (even n)
  show ?case by (simp only: bit_rules) simp
next
  case (odd n)
  then obtain A where A: "peak_heights n = A @ rev [0 ..< trailing_ones n]" "peak_heights (Suc n) = A @ [trailing_ones n]"
    by blast
  have "Suc (Suc (2 * n)) = 2 * Suc n" by simp
  moreover have "map Suc (rev [0 ..< t]) @ [0] = rev [0 ..< Suc t]" for t
    by (simp only: upt_conv_Cons [of 0 "Suc t"] map_Suc_upt [symmetric] zero_less_Suc rev.simps rev_map)
  ultimately show ?case
    using A by (intro exI [of _ "map Suc A"]) (simp only: bit_rules, simp)
qed

definition nodes_of :: "nat list \<Rightarrow> nat" where
  "nodes_of hs = (\<Sum>h\<leftarrow>hs. 2 ^ Suc h - 1)"

definition leaves_of :: "nat list \<Rightarrow> nat" where
  "leaves_of hs = (\<Sum>h\<leftarrow>hs. 2 ^ h)"

lemma two_power_ge: "1 \<le> 2 * (2::nat) ^ a" "2 \<le> 2 * (2::nat) ^ a"
  by simp_all

lemma nodes_of_simps [simp]: "nodes_of [] = 0" "nodes_of (h # hs) = 2 ^ Suc h - 1 + nodes_of hs"
    "nodes_of (as @ bs) = nodes_of as + nodes_of bs"
  by (simp_all add: nodes_of_def)

lemma leaves_of_simps [simp]: "leaves_of [] = 0" "leaves_of (h # hs) = 2 ^ h + leaves_of hs"
    "leaves_of (as @ bs) = leaves_of as + leaves_of bs" "leaves_of (map Suc hs) = 2 * leaves_of hs"
  by (simp_all add: leaves_of_def sum_list_const_mult comp_def)

lemma leaves_of_peak_heights: "leaves_of (peak_heights n) = n"
  by (induction n rule: binary_induct) (simp_all only: bit_rules leaves_of_simps peak_heights_0, simp_all)

lemma length_peak_heights: "length (peak_heights n) = count_ones n"
  by (induction n rule: binary_induct) (simp_all only: bit_rules length_map length_append, simp_all)

lemma nodes_of_leaves: "nodes_of hs + length hs = 2 * leaves_of hs"
proof (induction hs)
  case (Cons a hs)
  with two_power_ge(1) [of a] show ?case
    by (simp only: nodes_of_simps leaves_of_simps list.size power_Suc distrib_left)
qed simp

lemma nodes_of_peak_heights: "nodes_of (peak_heights n) = mmr_size n"
  using nodes_of_leaves [of "peak_heights n"] by (simp add: leaves_of_peak_heights length_peak_heights mmr_size_def)

lemma positions_append: "positions off (as @ bs) = positions off as @ positions (off + nodes_of as) bs"
proof (induction as arbitrary: off)
  case (Cons a as)
  have "off + 2 ^ Suc a - 1 + nodes_of as = off + (2 ^ Suc a - 1 + nodes_of as)"
    using two_power_ge(1) [of a] by (simp only: power_Suc)
  with Cons show ?case by (simp only: append_Cons positions.simps nodes_of_simps)
qed simp

lemma nodes_of_descending: "nodes_of (rev [0 ..< t]) + t + 2 = 2 ^ Suc t"
  by (induction t) (auto simp: nodes_of_def)

section \<open>Positions of leaves\<close>

lemma nodes_size_exact: "n < 2 ^ 63 \<Longrightarrow> nodes_size n = mmr_size n"
  using count_ones_le [of n]
  by (simp add: nodes_size_def number_of_peaks_def mmr_size_def wrapping_mul_exact wrapping_sub_exact)

lemma length_positions [simp]: "length (positions off hs) = length hs"
  by (induction hs arbitrary: off) simp_all

lemma length_peak_positions: "length (peak_positions n) = count_ones n"
  by (simp add: peak_positions_def length_peak_heights)

text \<open>The nodes that a leaf adds, and back.\<close>

lemma leaf_added_node:
  assumes "mmr_helper_laws H" and "n < 2 ^ 62" and "j \<le> trailing_ones n"
  shows "leaf_index_that_added_node H (mmr_size n + j) = n"
proof -
  have h: "pos_height_in_tree H (mmr_size n + j) = j" using assms by (simp add: mmr_helper_laws_def)
  have "mmr_size n + j < mmr_size (Suc n)" using assms(3) by (simp add: mmr_size_Suc)
  also have "\<dots> \<le> 2 * Suc n" by (rule mmr_size_ge)
  finally have small: "mmr_size n + j < 2 ^ 64" using assms(2) by simp
  have right: "rightmost_leaf_node_index_from_pos H (mmr_size n + j) = mmr_size n"
    using small by (simp add: rightmost_leaf_node_index_from_pos_def h wrapping_sub_exact)
  show ?thesis
  proof (cases "n = 0")
    case False
    have "mmr_size n + count_ones n = 2 * n" using count_ones_le [of n] by (simp add: mmr_size_def)
    moreover have "get_peaks H (mmr_size n) = peak_positions n" using assms(1) False by (simp add: mmr_helper_laws_def)
    moreover have "mmr_size n \<noteq> 0" using mmr_size_ge(1) [of n] False by simp
    ultimately show ?thesis
      using assms(2) False
      by (simp add: leaf_index_that_added_node_def right leaf_node_pos_to_leaf_index_def length_peak_positions
          wrapping_add_exact)
  next
    case True
    with right show ?thesis by (simp add: leaf_index_that_added_node_def leaf_node_pos_to_leaf_index_def)
  qed
qed

lemma right_branch_nodes:
  assumes "mmr_helper_laws H" and "n < 2 ^ 62"
  shows "right_branch_ending_in_leaf H n = [mmr_size n ..< mmr_size (Suc n)]"
proof -
  have "mmr_size n + trailing_ones n < 2 ^ 64"
    using mmr_size_ge(2) [of "Suc n"] assms(2) by (simp add: mmr_size_Suc)
  then show ?thesis
    using assms(1) by (simp add: right_branch_ending_in_leaf_def mmr_helper_laws_def mmr_size_Suc wrapping_add_exact Let_def)
qed

section \<open>Pruning and storing peaks\<close>

lemma consume_common_append: "consume_common (xs @ as) (xs @ bs) = consume_common as bs"
  by (induction xs) simp_all

lemma new_peak_position:
  assumes "peak_heights n = A @ rev [0 ..< trailing_ones n]"
  shows "nodes_of A + 2 ^ Suc (trailing_ones n) - 2 = mmr_size n + trailing_ones n"
  using nodes_of_peak_heights [of n] nodes_of_descending [of "trailing_ones n"] assms by simp

lemma positions_bound: "p \<in> set (positions off hs) \<Longrightarrow> off \<le> p \<and> p < off + nodes_of hs"
proof (induction hs arbitrary: off)
  case (Cons h hs)
  have "off + 2 ^ Suc h - 2 < off + (2 ^ Suc h - 1)" "off \<le> off + 2 ^ Suc h - 2" "off \<le> off + 2 ^ Suc h - 1"
    using two_power_ge(2) [of h] by (simp_all only: power_Suc)
  moreover have "off + 2 ^ Suc h - 1 + nodes_of hs = off + nodes_of (h # hs)"
    using two_power_ge(1) [of h] by (simp only: nodes_of_simps power_Suc)
  ultimately show ?case using Cons by (fastforce simp del: power_Suc)
qed simp

lemma distinct_positions: "distinct (positions off hs)"
proof (induction hs arbitrary: off)
  case (Cons h hs)
  have "off + 2 ^ Suc h - 2 < off + 2 ^ Suc h - 1" using two_power_ge(2) [of h] by (simp only: power_Suc)
  with Cons show ?case using positions_bound by (fastforce simp del: power_Suc)
qed simp

lemma peak_positions_bound: "p \<in> set (peak_positions n) \<Longrightarrow> p < mmr_size n"
  using positions_bound [of p 0 "peak_heights n"] by (simp add: peak_positions_def nodes_of_peak_heights)

lemma peaks_diff:
  assumes "mmr_helper_laws H"
  obtains A where "peak_heights n = A @ rev [0 ..< trailing_ones n]" "peak_heights (Suc n) = A @ [trailing_ones n]"
    "peak_positions n = positions 0 A @ positions (nodes_of A) (rev [0 ..< trailing_ones n])"
    "peak_positions (Suc n) = positions 0 A @ [mmr_size n + trailing_ones n]"
    "peaks_to_prune_and_store H (mmr_size n) (mmr_size (Suc n)) =
       Some (positions (nodes_of A) (rev [0 ..< trailing_ones n]), [mmr_size n + trailing_ones n])"
proof -
  let ?t = "trailing_ones n"
  obtain A where A: "peak_heights n = A @ rev [0 ..< ?t]" "peak_heights (Suc n) = A @ [?t]"
    using peak_heights_Suc by blast
  define pruned where "pruned = positions (nodes_of A) (rev [0 ..< ?t])"
  have n: "peak_positions n = positions 0 A @ pruned"
    by (simp add: peak_positions_def A(1) positions_append pruned_def)
  have Sn: "peak_positions (Suc n) = positions 0 A @ [mmr_size n + ?t]"
    using new_peak_position [OF A(1)]
    by (simp add: peak_positions_def A(2) positions_append del: power_Suc)
  have "consume_common pruned [mmr_size n + ?t] = Some (pruned, [mmr_size n + ?t])"
    using peak_positions_bound [of _ n] n by (cases pruned) fastforce+
  moreover have "(if mmr_size n = 0 then [] else get_peaks H (mmr_size n)) = peak_positions n"
    using assms mmr_size_ge [of n] by (cases "n = 0") (auto simp: mmr_helper_laws_def peak_positions_def)
  moreover have "get_peaks H (mmr_size (Suc n)) = peak_positions (Suc n)"
    using assms by (simp add: mmr_helper_laws_def)
  ultimately have "peaks_to_prune_and_store H (mmr_size n) (mmr_size (Suc n)) = Some (pruned, [mmr_size n + ?t])"
    by (simp add: peaks_to_prune_and_store_def Let_def n Sn consume_common_append)
  with A n Sn that show thesis unfolding pruned_def by blast
qed

section \<open>Indices within a mountain\<close>

text \<open>The reference: a leaf's index among the leaves of the mountain it belongs to.\<close>

fun mountain_index :: "nat list \<Rightarrow> nat \<Rightarrow> nat" where
  "mountain_index [] j = j"
| "mountain_index (h # hs) j = (if j < 2 ^ h then j else mountain_index hs (j - 2 ^ h))"

lemma count_ones_add: "i < 2 ^ h \<Longrightarrow> count_ones (2 ^ h * m + i) = count_ones m + count_ones i"
proof (induction h arbitrary: i)
  case (Suc h)
  show ?case
  proof (cases "even i")
    case True
    then obtain k where k: "i = 2 * k" by (elim evenE)
    have "2 ^ Suc h * m + i = 2 * (2 ^ h * m + k)" by (simp add: k)
    then show ?thesis using Suc k by (simp only: count_ones_even) simp
  next
    case False
    then obtain k where k: "i = Suc (2 * k)" by (elim oddE) simp
    have "2 ^ Suc h * m + i = Suc (2 * (2 ^ h * m + k))" by (simp add: k)
    then show ?thesis using Suc k by (simp only: count_ones_odd) simp
  qed
qed simp

lemma mmr_size_add: "i < 2 ^ h \<Longrightarrow> mmr_size (2 ^ h * m + i) = mmr_size (2 ^ h * m) + mmr_size i"
  using count_ones_add [of i h m] count_ones_add [of 0 h m] count_ones_le [of "2 ^ h * m"] count_ones_le [of i]
  by (simp add: mmr_size_def)

lemma count_ones_power: "count_ones (2 ^ h) = 1"
  by (induction h) (simp_all add: count_ones_even count_ones.simps [of "Suc 0"])

lemma mmr_size_power: "mmr_size (2 ^ h) = 2 ^ Suc h - 1"
  by (simp add: mmr_size_def count_ones_power)

lemma mmr_size_power_le: "i < 2 ^ h \<Longrightarrow> mmr_size i \<le> 2 ^ Suc h - 2"
  using mmr_size_strict_mono [of i "2 ^ h"] by (simp add: mmr_size_power del: power_Suc)

lemma k_index_loop_spec:
  assumes "mmr_helper_laws H" and "i < 2 ^ h" and "off + 2 ^ Suc h < 2 ^ 64" and "Suc idx * 2 ^ h < 2 ^ 64"
  shows "k_index_loop H h (off + mmr_size i) idx (off + 2 ^ Suc h - 2) = idx * 2 ^ h + i"
  using assms(2-)
proof (induction h arbitrary: i off idx)
  case (Suc h)
  let ?left = "off + 2 ^ Suc h - 2" and ?off = "off + (2 ^ Suc h - 1)"
  have offs: "parent_offset H h = 2 ^ Suc h" "sibling_offset H h = 2 ^ Suc h - 1"
    using assms(1) by (simp_all add: mmr_helper_laws_def)
  have p: "2 \<le> (2::nat) ^ Suc h" "(2::nat) ^ Suc (Suc h) = 2 * 2 ^ Suc h" by simp_all
  have left: "wrapping_sub 64 (off + 2 ^ Suc (Suc h) - 2) (2 ^ Suc h) = ?left"
    using Suc.prems(2) p by (subst wrapping_sub_exact) linarith+
  have right: "wrapping_add 64 ?left (2 ^ Suc h - 1) = ?off + 2 ^ Suc h - 2"
    using Suc.prems(2) p by (subst wrapping_add_exact) linarith+
  have idx2: "2 * (Suc idx * 2 ^ h) < 2 ^ 64" using Suc.prems(3) by (simp only: power_Suc mult.left_commute)
  have "2 * (Suc idx * 1) \<le> 2 * (Suc idx * 2 ^ h)" by (intro mult_le_mono2) simp
  then have "2 * (Suc idx * 1) < 2 ^ 64" using idx2 by (rule le_less_trans)
  then have small: "idx * 2 + 1 < 2 ^ 64" by simp
  then have idx: "wrapping_mul 64 idx 2 = idx * 2" "wrapping_add 64 (idx * 2) 1 = idx * 2 + 1"
    by (simp_all add: wrapping_mul_exact wrapping_add_exact)
  have bounds: "Suc (idx * 2) * 2 ^ h < 2 ^ 64" "Suc (idx * 2 + 1) * 2 ^ h < 2 ^ 64"
    using idx2 by (simp_all add: algebra_simps)
  show ?case
  proof (cases "i < 2 ^ h")
    case True
    then have "off + mmr_size i \<le> ?left" using mmr_size_power_le [OF True] p by linarith
    moreover have "off + 2 ^ Suc h < 2 ^ 64" using Suc.prems(2) p by linarith
    ultimately show ?thesis
      using Suc.IH [OF True, of off "idx * 2"] bounds
      by (simp only: k_index_loop.simps offs left right idx Let_def) simp
  next
    case False
    define k where "k = i - 2 ^ h"
    have i: "i = 2 ^ h * 1 + k" "k < 2 ^ h" using False Suc.prems(1) by (simp_all add: k_def)
    have size: "mmr_size i = 2 ^ Suc h - 1 + mmr_size k"
      using mmr_size_add [OF i(2), of 1] by (simp add: i(1) mmr_size_power)
    then have "\<not> off + mmr_size i \<le> ?left" using p by linarith
    moreover have "off + mmr_size i = ?off + mmr_size k" using size by (simp only: add.assoc)
    moreover have "?off + 2 ^ Suc h < 2 ^ 64" using Suc.prems(2) p by linarith
    ultimately show ?thesis
      using Suc.IH [OF i(2), of ?off "idx * 2 + 1"] bounds
      by (simp only: k_index_loop.simps offs left right idx Let_def if_False) (simp add: i(1) algebra_simps)
  qed
qed simp

lemma power_two_Suc:
  obtains q where "(2::nat) ^ h = Suc q"
  by (metis gr0_implies_Suc zero_less_numeral zero_less_power)

lemma trailing_ones_ge: "h \<le> trailing_ones (2 ^ h * m + (2 ^ h - 1))"
proof (induction h)
  case (Suc h)
  obtain q where "(2::nat) ^ h = Suc q" by (rule power_two_Suc)
  then have "2 ^ Suc h * m + (2 ^ Suc h - 1) = Suc (2 * (2 ^ h * m + (2 ^ h - 1)))" by simp
  then show ?case using Suc by (simp only: trailing_ones_odd)
qed simp

lemma count_ones_ones: "count_ones (2 ^ h - 1) = h"
proof (induction h)
  case (Suc h)
  obtain q where "(2::nat) ^ h = Suc q" by (rule power_two_Suc)
  then have "(2::nat) ^ Suc h - 1 = Suc (2 * (2 ^ h - 1))" by simp
  then show ?case using Suc by (simp only: count_ones_odd)
qed simp

text \<open>The peak of a mountain of height \<open>h\<close> that starts with leaf \<open>2 ^ h * m\<close>.\<close>

lemma peak_height:
  assumes "mmr_helper_laws H"
  shows "pos_height_in_tree H (mmr_size (2 ^ h * m) + 2 ^ Suc h - 2) = h"
proof -
  let ?n = "2 ^ h * m + (2 ^ h - 1)"
  obtain q where q: "(2::nat) ^ h = Suc q" by (rule power_two_Suc)
  have ones: "count_ones q = h" using count_ones_ones [of h] by (simp add: q)
  then have "mmr_size q + h = 2 * q" using count_ones_le [of q] by (simp add: mmr_size_def)
  moreover have "mmr_size ?n = mmr_size (2 ^ h * m) + mmr_size (2 ^ h - 1)" by (rule mmr_size_add) simp
  ultimately have "mmr_size ?n + h = mmr_size (2 ^ h * m) + 2 ^ Suc h - 2" by (simp add: q)
  moreover have "pos_height_in_tree H (mmr_size ?n + h) = h"
    using assms trailing_ones_ge [of h m] by (simp add: mmr_helper_laws_def)
  ultimately show ?thesis by simp
qed

lemma takeWhile_sorted_leaves:
  assumes "sorted js"
  shows "\<forall>j\<in>set (dropWhile (\<lambda>j. j < b) js). b \<le> (j::nat)"
  using assms by (induction js) auto

lemma k_indices_spec:
  assumes "mmr_helper_laws H" and "sorted js" and "\<forall>j\<in>set js. F \<le> j \<and> j < F + leaves_of hs"
    and "sorted_wrt (>) hs" and "\<forall>h\<in>set hs. 2 ^ Suc h dvd F" and "F + leaves_of hs < 2 ^ 62"
  shows "k_indices H (positions (mmr_size F) hs) (map mmr_size js) = map (\<lambda>j. (mmr_size j, mountain_index hs (j - F))) js"
  using assms(2-)
proof (induction hs arbitrary: F js)
  case Nil
  then show ?case by (cases js) auto
next
  case (Cons h hs)
  let ?F = "F + 2 ^ h" and ?peak = "mmr_size F + 2 ^ Suc h - 2" and ?in = "\<lambda>j. j < F + 2 ^ h"
  obtain m where F: "F = 2 ^ h * m" using Cons.prems(4) by (auto elim: dvdE simp: mult.assoc)
  have "2 ^ Suc h dvd F" using Cons.prems(4) by simp
  then have even: "even m" by (simp add: F)
  have sizeF: "mmr_size ?F = mmr_size F + (2 ^ Suc h - 1)"
  proof -
    have "count_ones (m + 1) = count_ones m + 1"
      using even by (elim evenE) (use count_ones_even count_ones_odd in auto)
    then have "count_ones ?F = count_ones F + 1"
      using count_ones_add [of 0 h "m + 1"] count_ones_add [of 0 h m] by (simp add: F add.commute)
    then show ?thesis using count_ones_le [of F] by (simp add: mmr_size_def)
  qed
  have p: "2 \<le> (2::nat) ^ Suc h" by simp
  have in_iff: "mmr_size j \<le> ?peak \<longleftrightarrow> ?in j" for j
    using mmr_size_less_iff [of j ?F] sizeF p by linarith
  have height: "pos_height_in_tree H ?peak = h"
    using peak_height [OF assms(1), of h m] by (simp only: F)
  have first: "k_index_loop H h (mmr_size j) 0 ?peak = j - F" if "F \<le> j" "?in j" for j
  proof -
    have j: "j = 2 ^ h * m + (j - F)" "j - F < 2 ^ h" using that by (simp_all add: F)
    have "mmr_size j = mmr_size F + mmr_size (j - F)" using mmr_size_add [OF j(2), of m] j(1) by (simp add: F)
    moreover have "mmr_size F + 2 ^ Suc h < 2 ^ 64"
      using mmr_size_ge(2) [of F] Cons.prems(5) by simp
    moreover have "Suc 0 * 2 ^ h < (2::nat) ^ 64" using Cons.prems(5) by simp
    ultimately show ?thesis using k_index_loop_spec [OF assms(1) j(2), of "mmr_size F" 0] by simp
  qed
  have rest: "k_indices H (positions (mmr_size ?F) hs) (map mmr_size (dropWhile ?in js)) =
      map (\<lambda>j. (mmr_size j, mountain_index hs (j - ?F))) (dropWhile ?in js)"
  proof (rule Cons.IH)
    show "sorted (dropWhile ?in js)" using Cons.prems(1) by (rule sorted_dropWhile)
    show "\<forall>j\<in>set (dropWhile ?in js). ?F \<le> j \<and> j < ?F + leaves_of hs"
      using takeWhile_sorted_leaves [OF Cons.prems(1), of ?F] Cons.prems(2) by (auto dest!: set_dropWhileD)
    show "\<forall>h\<in>set hs. 2 ^ Suc h dvd ?F"
      using Cons.prems(3,4) by (auto intro!: dvd_add le_imp_power_dvd simp del: power_Suc)
  qed (use Cons.prems in simp_all)
  have tw: "takeWhile (\<lambda>pos. pos \<le> ?peak) (map mmr_size js) = map mmr_size (takeWhile ?in js)"
    "dropWhile (\<lambda>pos. pos \<le> ?peak) (map mmr_size js) = map mmr_size (dropWhile ?in js)"
    by (simp_all add: takeWhile_map dropWhile_map comp_def in_iff del: power_Suc)
  have "k_indices H (positions (mmr_size F) (h # hs)) (map mmr_size js) =
      map (\<lambda>j. (mmr_size j, k_index_loop H h (mmr_size j) 0 ?peak)) (takeWhile ?in js) @
      map (\<lambda>j. (mmr_size j, mountain_index hs (j - ?F))) (dropWhile ?in js)"
    using rest sizeF
    by (simp add: take_while_vec_def tw height comp_def del: power_Suc)
  also have "\<dots> = map (\<lambda>j. (mmr_size j, mountain_index (h # hs) (j - F))) (takeWhile ?in js) @
      map (\<lambda>j. (mmr_size j, mountain_index (h # hs) (j - F))) (dropWhile ?in js)"
  proof -
    have "\<forall>j\<in>set (takeWhile ?in js). k_index_loop H h (mmr_size j) 0 ?peak = mountain_index (h # hs) (j - F)"
      using Cons.prems(2) first by (auto dest!: set_takeWhileD)
    moreover have "\<forall>j\<in>set (dropWhile ?in js). mountain_index hs (j - ?F) = mountain_index (h # hs) (j - F)"
      using takeWhile_sorted_leaves [OF Cons.prems(1), of ?F] by auto
    ultimately show ?thesis by simp
  qed
  also have "\<dots> = map (\<lambda>j. (mmr_size j, mountain_index (h # hs) (j - F))) js"
    by (metis map_append takeWhile_dropWhile_id)
  finally show ?case .
qed

lemma peak_heights_descending: "sorted_wrt (>) (peak_heights n)"
proof (induction n rule: binary_induct)
  case (even n)
  then show ?case by (simp add: peak_heights_even sorted_wrt_map)
next
  case (odd n)
  then show ?case by (simp add: peak_heights_odd sorted_wrt_map sorted_wrt_append)
qed simp

text \<open>
  The k-indices of a proof: for any leaves of a mountain range with \<open>n\<close> leaves, in ascending order,
  \<open>node_pos_to_k_index\<close>, which walks down from each peak by position arithmetic, yields every leaf with
  its index among the leaves of the mountain it belongs to.
\<close>
lemma node_pos_to_k_index_eq:
  assumes "mmr_helper_laws H" and "n < 2 ^ 62" and "sorted js" and "\<forall>j\<in>set js. j < n"
  shows "node_pos_to_k_index H (map (leaf_index_to_pos H) js) (mmr_size n) =
    map (\<lambda>j. (mmr_size j, mountain_index (peak_heights n) j)) js"
proof (cases "n = 0")
  case True
  with assms(4) have "js = []" by (cases js) auto
  have "k_indices H ps [] = []" for ps by (induction ps) (simp_all add: take_while_vec_def)
  with \<open>js = []\<close> show ?thesis by (simp add: node_pos_to_k_index_def)
next
  case False
  with assms(1) have "get_peaks H (mmr_size n) = positions (mmr_size 0) (peak_heights n)"
    by (simp add: mmr_helper_laws_def peak_positions_def)
  moreover have "leaf_index_to_pos H = mmr_size" using assms(1) by (auto simp: mmr_helper_laws_def)
  ultimately show ?thesis
    using k_indices_spec [OF assms(1,3), of 0 "peak_heights n"] assms(2,4)
    by (simp add: node_pos_to_k_index_def leaves_of_peak_heights peak_heights_descending)
qed

section \<open>A concrete instance of the helper functions\<close>

text \<open>Every position is the leaf or an inner node that exactly one leaf adds.\<close>

fun demo_leaf_of :: "nat \<Rightarrow> nat \<Rightarrow> nat" where
  "demo_leaf_of 0 pos = 0"
| "demo_leaf_of (Suc k) pos = (if mmr_size (Suc k) \<le> pos then Suc k else demo_leaf_of k pos)"

fun demo_peaks :: "nat \<Rightarrow> nat \<Rightarrow> nat list" where
  "demo_peaks 0 n = []"
| "demo_peaks (Suc k) n = (if mmr_size (Suc k) = n then peak_positions (Suc k) else demo_peaks k n)"

definition demo_mmr_helper :: mmr_helper where
  "demo_mmr_helper =
     \<lparr>get_peaks = (\<lambda>s. demo_peaks s s), pos_height_in_tree = (\<lambda>p. p - mmr_size (demo_leaf_of p p)),
      parent_offset = (\<lambda>h. 2 ^ Suc h), sibling_offset = (\<lambda>h. 2 ^ Suc h - 1), leaf_index_to_pos = mmr_size\<rparr>"

lemma demo_leaf_of_eq:
  assumes "j \<le> trailing_ones n" and "n \<le> k"
  shows "demo_leaf_of k (mmr_size n + j) = n"
  using assms(2)
proof (induction k)
  case (Suc k)
  have "mmr_size (Suc k) \<le> mmr_size n + j \<longleftrightarrow> Suc k \<le> n"
  proof
    assume "mmr_size (Suc k) \<le> mmr_size n + j"
    with assms(1) have "mmr_size (Suc k) < mmr_size (Suc n)" by (simp add: mmr_size_Suc)
    then show "Suc k \<le> n" by (simp only: mmr_size_less_iff)
  next
    assume "Suc k \<le> n"
    then show "mmr_size (Suc k) \<le> mmr_size n + j" by (metis mmr_size_le_iff trans_le_add1)
  qed
  with Suc show ?case by auto
qed simp

lemma demo_peaks_eq: "0 < n \<Longrightarrow> n \<le> k \<Longrightarrow> demo_peaks k (mmr_size n) = peak_positions n"
proof (induction k)
  case (Suc k)
  have "mmr_size (Suc k) = mmr_size n \<longleftrightarrow> n = Suc k"
    using mmr_size_le_iff [of "Suc k" n] mmr_size_le_iff [of n "Suc k"] by auto
  with Suc show ?case by auto
qed simp

lemma demo_mmr_helper_laws: "mmr_helper_laws demo_mmr_helper"
  using demo_leaf_of_eq demo_peaks_eq mmr_size_ge(1)
  by (simp add: mmr_helper_laws_def demo_mmr_helper_def trans_le_add1)

end
