(* ===== verification/Hyperdrive_Outgoing.thy ===== *)
theory Hyperdrive_Outgoing
  imports Market_Types Mountain_Range
begin

text \<open>
  The outgoing side of Hyperdrive, \<open>pallets/hyperdrive-outgoing/src\<close>: messages to a target chain are
  appended as leaves to a Merkle mountain range (\<open>lib.rs\<close>, \<open>types.rs\<close>, \<open>mmr/mod.rs\<close>, \<open>mmr/mmr.rs\<close>,
  \<open>mmr/storage.rs\<close>), and every few blocks the root is recorded as a snapshot.

  The range itself is a library, called with the merge function and the storage of this code: the
  record \<open>mmr_lib\<close>, whose errors are \<open>()\<close>. A hash is the type \<open>'h\<close>, a block hash \<open>'b\<close>; the encoder of
  the target chain and the hasher are fields of the configuration, as are the SCALE encodings of nodes
  and keys of the off-chain database. Where the code can run for ever or panic, the result is an
  option with \<^const>\<open>None\<close> for that.
\<close>

section \<open>Messages\<close>

datatype out_action = AssignJobAction u128 pub_key | FinalizeJobAction u128 u128 | NoopAction

datatype out_raw_action = RawAssignJob | RawFinalizeJob | RawNoop

fun out_raw_action_of :: "out_action \<Rightarrow> out_raw_action" where
  "out_raw_action_of (AssignJobAction _ _) = RawAssignJob"
| "out_raw_action_of (FinalizeJobAction _ _) = RawFinalizeJob"
| "out_raw_action_of NoopAction = RawNoop"

fun out_raw_action_index :: "out_raw_action \<Rightarrow> u16" where
  "out_raw_action_index RawAssignJob = 0"
| "out_raw_action_index RawFinalizeJob = 1"
| "out_raw_action_index RawNoop = 255"

record out_message =
  out_id :: u64
  out_action_of :: out_action

datatype 'h mmr_node = Data out_message | Hash 'h

datatype mmr_error =
    Push
  | GetRoot
  | Commit
  | InconsistentSnapshotMeta
  | GenerateProof
  | GenerateProofNoSnapshot
  | GenerateProofFutureSnapshot
  | GenerateProofFutureMessage
  | VerifyError
  | LeafNotFound

record 'h mmr_proof =
  leaf_indices :: "u64 list"
  leaf_count :: u64
  proof_items :: "'h list"

record target_chain_proof_leaf =
  k_index :: u64
  position :: u64
  leaf_message :: bytes

record 'h target_chain_proof =
  tp_leaves :: "target_chain_proof_leaf list"
  tp_mmr_size :: u64
  tp_items :: "'h list"

section \<open>Libraries, configuration and storage\<close>

type_synonym 'h merge = "'h mmr_node \<Rightarrow> 'h mmr_node \<Rightarrow> unit + 'h mmr_node"
type_synonym 'h get_elem = "u64 \<Rightarrow> unit + 'h mmr_node option"

record 'h mmr_lib =
  lib_push :: "'h merge \<Rightarrow> 'h get_elem \<Rightarrow> u64 \<Rightarrow> 'h mmr_node \<Rightarrow> unit + u64 \<times> 'h mmr_node list"
  lib_get_root :: "'h merge \<Rightarrow> 'h get_elem \<Rightarrow> u64 \<Rightarrow> 'h mmr_node list \<Rightarrow> unit + 'h mmr_node"
  lib_gen_proof :: "'h merge \<Rightarrow> 'h get_elem \<Rightarrow> u64 \<Rightarrow> u64 list \<Rightarrow> unit + 'h mmr_node list"
  lib_verify :: "'h merge \<Rightarrow> u64 \<Rightarrow> 'h mmr_node list \<Rightarrow> 'h mmr_node \<Rightarrow> (u64 \<times> 'h mmr_node) list \<Rightarrow> unit + bool"

record ('h, 'b, 'env) out_config =
  helper :: mmr_helper
  mmr :: "'h mmr_lib"
  MaximumBlocksBeforeSnapshot :: block_number
  encode_leaf :: "out_message \<Rightarrow> unit + bytes"
  hasher :: "bytes \<Rightarrow> 'h"
  as_ref :: "'h \<Rightarrow> bytes"
  on_new_root :: "'h \<Rightarrow> 'env \<Rightarrow> 'env"
  temp_key :: "u64 \<Rightarrow> 'b \<Rightarrow> 'h \<Rightarrow> bytes"
  canon_key :: "u64 \<Rightarrow> bytes"
  encode_node :: "'h mmr_node \<Rightarrow> bytes"
  decode_node :: "bytes \<Rightarrow> 'h mmr_node option"

record ('h, 'b, 'env) out_state =
  message_numbers :: "u64 \<times> u64"
  first_mmr_block_number :: "block_number option"
  leaf_meta :: "u64 \<rightharpoonup> 'b \<times> 'h"
  block_leaf_index :: "block_number \<rightharpoonup> u64"
  next_snapshot_number :: u64
  snapshot_meta :: "u64 \<rightharpoonup> 'h \<times> block_number \<times> u64"
  root_hash :: 'h
  number_of_leaves :: u64
  nodes :: "u64 \<rightharpoonup> 'h"
  parent_hash :: 'b
  offchain_db :: "bytes \<rightharpoonup> bytes"
  sent_messages :: "out_message list"
  out_env :: 'env

section \<open>Hashing nodes\<close>

definition hash_for_target :: "('h, 'b, 'env) out_config \<Rightarrow> out_message \<Rightarrow> unit + 'h" where
  "hash_for_target C leaf = bind_r (encode_leaf C leaf) (\<lambda>bytes. Inr (hasher C bytes))"

fun hash_node :: "('h, 'b, 'env) out_config \<Rightarrow> 'h mmr_node \<Rightarrow> unit + 'h" where
  "hash_node C (Data leaf) = hash_for_target C leaf"
| "hash_node C (Hash h) = Inr h"

definition merger :: "('h, 'b, 'env) out_config \<Rightarrow> 'h merge" where
  "merger C left right =
     bind_r (hash_node C left) (\<lambda>l.
     bind_r (hash_node C right) (\<lambda>r.
     Inr (Hash (hasher C (as_ref C l @ as_ref C r)))))"

section \<open>Storage of the range (storage.rs)\<close>

definition offchain_get_elem :: "('h, 'b, 'env) out_config \<Rightarrow> ('h, 'b, 'env) out_state \<Rightarrow> 'h get_elem" where
  "offchain_get_elem C s pos =
     (let leaf_index = leaf_index_that_added_node (helper C) pos in
      case offchain_db s (canon_key C pos) of
        Some elem \<Rightarrow> Inr (decode_node C elem)
      | None \<Rightarrow>
          bind_r (ok_or (leaf_meta s leaf_index) ()) (\<lambda>(ancestor_parent_hash, root).
          Inr (Option.bind (offchain_db s (temp_key C pos ancestor_parent_hash root)) (decode_node C))))"

definition runtime_get_elem :: "('h, 'b, 'env) out_state \<Rightarrow> 'h get_elem" where
  "runtime_get_elem s pos = Inr (map_option Hash (nodes s pos))"

definition store_to_offchain ::
  "('h, 'b, 'env) out_config \<Rightarrow> u64 \<Rightarrow> u64 \<Rightarrow> 'h mmr_node \<Rightarrow> 'h \<Rightarrow>
   ('h, 'b, 'env) out_state \<Rightarrow> ('h, 'b, 'env) out_state" where
  "store_to_offchain C leaf_index pos node unique s =
     s\<lparr>leaf_meta := (leaf_meta s)(leaf_index \<mapsto> (parent_hash s, unique)),
       offchain_db := (offchain_db s)(temp_key C pos (parent_hash s) unique \<mapsto> encode_node C node)\<rparr>"

text \<open>The loop over the new nodes, with the peaks that are left to store.\<close>

fun append_elems ::
  "('h, 'b, 'env) out_config \<Rightarrow> 'h \<Rightarrow> 'h mmr_node list \<Rightarrow> u64 \<Rightarrow> u64 \<Rightarrow> u64 list \<Rightarrow>
   ('h, 'b, 'env) out_state \<Rightarrow> unit + u64 \<times> ('h, 'b, 'env) out_state" where
  "append_elems C unique [] leaf_index node_index to_store s = Inr (leaf_index, s)"
| "append_elems C unique (elem # elems) leaf_index node_index to_store s =
     bind_r (case to_store of
               p # rest \<Rightarrow>
                 if p = node_index
                 then bind_r (hash_node C elem) (\<lambda>h. Inr (rest, s\<lparr>nodes := (nodes s)(node_index \<mapsto> h)\<rparr>))
                 else Inr (to_store, s)
             | [] \<Rightarrow> Inr (to_store, s)) (\<lambda>(to_store', s1).
     let s2 = store_to_offchain C leaf_index node_index elem unique s1;
         leaf_index' = (case elem of Data _ \<Rightarrow> wrapping_add 64 leaf_index 1 | Hash _ \<Rightarrow> leaf_index)
     in append_elems C unique elems leaf_index' (wrapping_add 64 node_index 1) to_store' s2)"

definition append ::
  "('h, 'b, 'env) out_config \<Rightarrow> u64 \<Rightarrow> 'h mmr_node list \<Rightarrow> 'h \<Rightarrow>
   ('h, 'b, 'env) out_state \<Rightarrow> (unit + ('h, 'b, 'env) out_state) option" where
  "append C pos elems unique s =
     (if elems = [] then Some (Inr s)
      else let leaves = number_of_leaves s; sz = nodes_size leaves in
        if pos \<noteq> sz then Some (Inl ())
        else let new_size = wrapping_add 64 sz (length elems) in
          case peaks_to_prune_and_store (helper C) sz new_size of
            None \<Rightarrow> None
          | Some (to_prune, to_store) \<Rightarrow>
              Some (bind_r (append_elems C unique elems leaves sz to_store s) (\<lambda>(leaf_index, s1).
                    let s2 = s1\<lparr>number_of_leaves := leaf_index\<rparr>
                    in Inr (s2\<lparr>nodes := (nodes s2) |` (- set to_prune)\<rparr>))))"

section \<open>The wrapper of the range (mmr.rs)\<close>

text \<open>A pointer to a range: its size and leaves, and the nodes pushed but not yet committed.\<close>

record 'h mmr_pointer =
  mp_size :: u64
  mp_leaves :: u64
  mp_batch :: "'h mmr_node list"

definition mmr_new :: "u64 \<Rightarrow> 'h mmr_pointer" where
  "mmr_new leaves = \<lparr>mp_size = nodes_size leaves, mp_leaves = leaves, mp_batch = []\<rparr>"

definition mmr_push ::
  "('h, 'b, 'env) out_config \<Rightarrow> ('h, 'b, 'env) out_state \<Rightarrow> out_message \<Rightarrow> 'h mmr_pointer \<Rightarrow> (u64 \<times> 'h mmr_pointer) option" where
  "mmr_push C s leaf m =
     (case lib_push (mmr C) (merger C) (runtime_get_elem s) (mp_size m) (Data leaf) of
        Inl _ \<Rightarrow> None
      | Inr (pos, elems) \<Rightarrow>
          Some (pos, m\<lparr>mp_batch := mp_batch m @ elems, mp_leaves := wrapping_add 64 (mp_leaves m) 1\<rparr>))"

definition mmr_finalize ::
  "('h, 'b, 'env) out_config \<Rightarrow> 'h mmr_pointer \<Rightarrow> ('h, 'b, 'env) out_state \<Rightarrow>
   (mmr_error + (u64 \<times> 'h) \<times> ('h, 'b, 'env) out_state) option" where
  "mmr_finalize C m s =
     (case map_err (\<lambda>_. GetRoot) (lib_get_root (mmr C) (merger C) (runtime_get_elem s) (mp_size m) (mp_batch m)) of
        Inl e \<Rightarrow> Some (Inl e)
      | Inr root \<Rightarrow>
          (case map_err (\<lambda>_. Commit) (hash_node C root) of
             Inl e \<Rightarrow> Some (Inl e)
           | Inr h \<Rightarrow>
               map_option (\<lambda>r. bind_r (map_err (\<lambda>_. Commit) r) (\<lambda>s1. Inr ((mp_leaves m, h), s1)))
                 (append C (mp_size m) (mp_batch m) h s)))"

definition leaf_of_elem :: "unit + 'h mmr_node option \<Rightarrow> mmr_error + out_message" where
  "leaf_of_elem r = (case r of Inr (Some (Data leaf)) \<Rightarrow> Inr leaf | _ \<Rightarrow> Inl LeafNotFound)"

definition mmr_generate_proof ::
  "('h, 'b, 'env) out_config \<Rightarrow> ('h, 'b, 'env) out_state \<Rightarrow> 'h mmr_pointer \<Rightarrow> u64 list \<Rightarrow>
   mmr_error + out_message list \<times> 'h mmr_proof" where
  "mmr_generate_proof C s m indices =
     (let poss = map (leaf_index_to_pos (helper C)) indices in
      bind_r (collect_r (\<lambda>pos. leaf_of_elem (offchain_get_elem C s pos)) poss) (\<lambda>leaves.
      bind_r (map_err (\<lambda>_. GenerateProof) (lib_gen_proof (mmr C) (merger C) (offchain_get_elem C s) (mp_size m) poss)) (\<lambda>items.
      bind_r (map_err (\<lambda>_. GenerateProof) (collect_r (hash_node C) items)) (\<lambda>hashes.
      Inr (leaves, \<lparr>leaf_indices = indices, leaf_count = mp_leaves m, proof_items = hashes\<rparr>)))))"

definition mmr_verify_leaves_proof ::
  "('h, 'b, 'env) out_config \<Rightarrow> ('h, 'b, 'env) out_state \<Rightarrow> 'h mmr_pointer \<Rightarrow> out_message list \<Rightarrow> 'h mmr_proof \<Rightarrow> mmr_error + bool" where
  "mmr_verify_leaves_proof C s m leaves prf =
     bind_r (ensure (length leaves = length (leaf_indices prf)) VerifyError) (\<lambda>_.
     let data = zip (map (leaf_index_to_pos (helper C)) (leaf_indices prf)) (map Data leaves) in
     bind_r (map_err (\<lambda>_. GetRoot) (lib_get_root (mmr C) (merger C) (offchain_get_elem C s) (mp_size m) (mp_batch m))) (\<lambda>root.
     map_err (\<lambda>_. VerifyError) (lib_verify (mmr C) (merger C) (mp_size m) (map Hash (proof_items prf)) root data)))"

definition verify_leaves_proof ::
  "('h, 'b, 'env) out_config \<Rightarrow> 'h \<Rightarrow> 'h mmr_node list \<Rightarrow> 'h mmr_proof \<Rightarrow> mmr_error + bool" where
  "verify_leaves_proof C root leaves prf =
     (let sz = nodes_size (leaf_count prf) in
      bind_r (ensure (length leaves = length (leaf_indices prf)) VerifyError) (\<lambda>_.
      let data = zip (map (leaf_index_to_pos (helper C)) (leaf_indices prf)) leaves in
      map_err (\<lambda>_. VerifyError) (lib_verify (mmr C) (merger C) sz (map Hash (proof_items prf)) (Hash root) data)))"

section \<open>The pallet (lib.rs)\<close>

definition send_message ::
  "('h, 'b, 'env) out_config \<Rightarrow> out_action \<Rightarrow> ('h, 'b, 'env) out_state \<Rightarrow>
   (mmr_error + ('h, 'b, 'env) out_state) option" where
  "send_message C action s =
     (case message_numbers s of
        (included_message_number_excl, next_message_number) \<Rightarrow>
          let message = \<lparr>out_id = next_message_number, out_action_of = action\<rparr> in
          case mmr_push C s message (mmr_new (number_of_leaves s)) of
            None \<Rightarrow> Some (Inl Push)
          | Some (_, m) \<Rightarrow>
              map_option (\<lambda>r. bind_r r (\<lambda>((leaves, root), s1).
                let s2 = s1\<lparr>out_env := on_new_root C root (out_env s1)\<rparr>;
                    s3 = s2\<lparr>number_of_leaves := leaves, root_hash := root,
                            message_numbers := (included_message_number_excl, wrapping_add 64 next_message_number 1)\<rparr>
                in Inr (s3\<lparr>sent_messages := sent_messages s3 @ [message]\<rparr>)))
                (mmr_finalize C m s))"

definition send_test_message ::
  "('h, 'b, 'env) out_config \<Rightarrow> origin \<Rightarrow> ('h, 'b, 'env) out_state \<Rightarrow>
   (mmr_error dispatch_error + ('h, 'b, 'env) out_state) option" where
  "send_test_message C o' s =
     (case ensure_root o' of
        Inl e \<Rightarrow> Some (Inl e)
      | Inr _ \<Rightarrow> map_option (map_err (\<lambda>_. Module Push)) (send_message C NoopAction s))"

definition maximum_blocks_before_snapshot_reached ::
  "('h, 'b, 'env) out_config \<Rightarrow> block_number \<Rightarrow> ('h, 'b, 'env) out_state \<Rightarrow> bool" where
  "maximum_blocks_before_snapshot_reached C current_block s =
     (case first_mmr_block_number s of
        Some first_block_number \<Rightarrow>
          (let last_block = unwrap_or (map_option (\<lambda>(_, last_block, _). last_block)
                 (snapshot_meta s (next_snapshot_number s - 1))) first_block_number
           in current_block - last_block \<ge> MaximumBlocksBeforeSnapshot C)
      | None \<Rightarrow> False)"

definition on_finalize ::
  "('h, 'b, 'env) out_config \<Rightarrow> block_number \<Rightarrow> ('h, 'b, 'env) out_state \<Rightarrow> ('h, 'b, 'env) out_state" where
  "on_finalize C current_block s =
     (case message_numbers s of
        (included_message_number_excl, next_message_number) \<Rightarrow>
          let s1 = (if included_message_number_excl < next_message_number \<and>
                       maximum_blocks_before_snapshot_reached C current_block s
                    then s\<lparr>next_snapshot_number := wrapping_add 64 (next_snapshot_number s) 1,
                           snapshot_meta := (snapshot_meta s)
                             (next_snapshot_number s \<mapsto> (root_hash s, current_block, next_message_number)),
                           message_numbers := (next_message_number, next_message_number)\<rparr>
                    else s);
              s2 = s1\<lparr>block_leaf_index := (block_leaf_index s1)(current_block \<mapsto> next_message_number)\<rparr>
          in if first_mmr_block_number s2 = None
             then s2\<lparr>first_mmr_block_number := Some current_block\<rparr> else s2)"

definition generate_proof ::
  "('h, 'b, 'env) out_config \<Rightarrow> u64 \<Rightarrow> u64 option \<Rightarrow> u64 \<Rightarrow> ('h, 'b, 'env) out_state \<Rightarrow>
   mmr_error + (out_message list \<times> 'h mmr_proof) option" where
  "generate_proof C next_message_number maximum_messages latest_known_snapshot_number s =
     bind_r (ok_or (snapshot_meta s latest_known_snapshot_number) GenerateProofFutureSnapshot)
       (\<lambda>(_, _, last_message_excl).
     bind_r (ensure (next_message_number \<le> last_message_excl) GenerateProofFutureMessage) (\<lambda>_.
     let last_message_excl =
           (case maximum_messages of
              Some maximum \<Rightarrow> min last_message_excl (wrapping_add 64 next_message_number maximum)
            | None \<Rightarrow> last_message_excl) in
     if next_message_number = last_message_excl then Inr None
     else
       bind_r (mmr_generate_proof C s (mmr_new last_message_excl) [next_message_number ..< last_message_excl])
         (\<lambda>result. Inr (Some result))))"

text \<open>The \<open>assert_eq!\<close> on the positions panics when they differ.\<close>

definition generate_target_chain_proof ::
  "('h, 'b, 'env) out_config \<Rightarrow> u64 \<Rightarrow> u64 option \<Rightarrow> u64 \<Rightarrow> ('h, 'b, 'env) out_state \<Rightarrow>
   (mmr_error + 'h target_chain_proof option) option" where
  "generate_target_chain_proof C next_message_number maximum_messages latest_known_snapshot_number s =
     (case generate_proof C next_message_number maximum_messages latest_known_snapshot_number s of
        Inl e \<Rightarrow> Some (Inl e)
      | Inr None \<Rightarrow> Some (Inr None)
      | Inr (Some (leaves, prf)) \<Rightarrow>
          (let sz = nodes_size (leaf_count prf);
               leaf_positions = map (leaf_index_to_pos (helper C)) (leaf_indices prf);
               zipped = zip (zip leaf_positions (node_pos_to_k_index (helper C) leaf_positions sz)) leaves
           in if \<exists>((position, (pos, _)), _) \<in> set zipped. pos \<noteq> position then None
              else Some (bind_r (collect_r (\<lambda>((position, (_, k)), leaf).
                     bind_r (map_err (\<lambda>_. GenerateProof) (encode_leaf C leaf)) (\<lambda>m.
                     Inr \<lparr>k_index = k, position = position, leaf_message = m\<rparr>)) zipped) (\<lambda>tls.
                   Inr (Some \<lparr>tp_leaves = tls, tp_mmr_size = sz, tp_items = proof_items prf\<rparr>)))))"

definition snapshot_roots ::
  "u64 \<Rightarrow> ('h, 'b, 'env) out_state \<Rightarrow> (mmr_error + u64 \<times> 'h) list" where
  "snapshot_roots next_expected s =
     map (\<lambda>n. case snapshot_meta s n of
                Some (root, _, _) \<Rightarrow> Inr (n, root)
              | None \<Rightarrow> Inl InconsistentSnapshotMeta)
       [next_expected ..< next_snapshot_number s]"

definition pallet_verify_proof ::
  "('h, 'b, 'env) out_config \<Rightarrow> out_message list \<Rightarrow> 'h mmr_proof \<Rightarrow> ('h, 'b, 'env) out_state \<Rightarrow> mmr_error + unit" where
  "pallet_verify_proof C leaves prf s =
     (if leaf_count prf > number_of_leaves s \<or> leaf_count prf = 0 \<or>
         length (proof_items prf) + length leaves > leaf_count prf
      then Inl VerifyError
      else bind_r (mmr_verify_leaves_proof C s (mmr_new (leaf_count prf)) leaves prf) (\<lambda>is_valid.
           ensure is_valid VerifyError))"

definition verify_proof_stateless ::
  "('h, 'b, 'env) out_config \<Rightarrow> 'h \<Rightarrow> out_message list \<Rightarrow> 'h mmr_proof \<Rightarrow> mmr_error + unit" where
  "verify_proof_stateless C root leaves prf =
     bind_r (verify_leaves_proof C root (map Data leaves) prf) (\<lambda>is_valid. ensure is_valid VerifyError)"

section \<open>The reference: hashes of mountains\<close>

text \<open>
  The hash of a mountain of height \<open>h\<close> over \<open>2 ^ h\<close> messages, the peaks of a range, and the node of
  height \<open>k\<close> that closes with leaf \<open>j\<close>.
\<close>

definition leaf_hash :: "('h, 'b, 'env) out_config \<Rightarrow> out_message \<Rightarrow> 'h" where
  "leaf_hash C m = projr (hash_for_target C m)"

fun tree_hash :: "('h, 'b, 'env) out_config \<Rightarrow> nat \<Rightarrow> out_message list \<Rightarrow> 'h" where
  "tree_hash C 0 ms = leaf_hash C (hd ms)"
| "tree_hash C (Suc h) ms =
     hasher C (as_ref C (tree_hash C h (take (2 ^ h) ms)) @ as_ref C (tree_hash C h (drop (2 ^ h) ms)))"

fun peak_hashes :: "('h, 'b, 'env) out_config \<Rightarrow> nat list \<Rightarrow> out_message list \<Rightarrow> 'h list" where
  "peak_hashes C [] ms = []"
| "peak_hashes C (h # hs) ms = tree_hash C h (take (2 ^ h) ms) # peak_hashes C hs (drop (2 ^ h) ms)"

definition node_at :: "('h, 'b, 'env) out_config \<Rightarrow> out_message list \<Rightarrow> nat \<Rightarrow> nat \<Rightarrow> 'h mmr_node" where
  "node_at C ms j k = (if k = 0 then Data (ms ! j) else Hash (tree_hash C k (drop (Suc j - 2 ^ k) (take (Suc j) ms))))"

section \<open>What the library is relied on for\<close>

text \<open>
  Pushing a leaf on a range of \<open>n\<close> leaves merges it with the rightmost peak, the result with the next
  one, and so on for the \<open>trailing_ones n\<close> mountains it completes; the new nodes are returned in that
  order. The root is merged from them and the peaks: if those nodes are in a set on which merging does
  not fail or leave the set, the root is computed and in the set.
\<close>

fun merge_up :: "'h merge \<Rightarrow> 'h get_elem \<Rightarrow> u64 list \<Rightarrow> 'h mmr_node \<Rightarrow> unit + 'h mmr_node list" where
  "merge_up mg get [] e = Inr []"
| "merge_up mg get (p # ps) e =
     bind_r (get p) (\<lambda>l. bind_r (ok_or l ()) (\<lambda>left.
     bind_r (mg left e) (\<lambda>x. bind_r (merge_up mg get ps x) (\<lambda>xs. Inr (x # xs)))))"

definition mmr_lib_laws :: "'h mmr_lib \<Rightarrow> bool" where
  "mmr_lib_laws L \<longleftrightarrow>
     (\<forall>mg get n leaf. lib_push L mg get (mmr_size n) leaf =
        bind_r (merge_up mg get (take (trailing_ones n) (rev (peak_positions n))) leaf)
          (\<lambda>xs. Inr (mmr_size n, leaf # xs))) \<and>
     (\<forall>mg get n leaf xs G. (\<forall>l\<in>G. \<forall>r\<in>G. \<exists>x\<in>G. mg l r = Inr x) \<longrightarrow>
        (\<forall>p\<in>set (peak_positions n). \<exists>e\<in>G. get p = Inr (Some e)) \<longrightarrow> leaf \<in> G \<longrightarrow>
        lib_push L mg get (mmr_size n) leaf = Inr (mmr_size n, xs) \<longrightarrow>
        (\<exists>e\<in>G. lib_get_root L mg get (mmr_size n) xs = Inr e))"

text \<open>
  Keys of the off-chain database for different positions differ, as
  do temporary and canonical keys; decoding inverts encoding.
\<close>

definition out_config_laws :: "('h, 'b, 'env) out_config \<Rightarrow> bool" where
  "out_config_laws C \<longleftrightarrow>
     mmr_helper_laws (helper C) \<and> mmr_lib_laws (mmr C) \<and>
     (\<forall>p q h h' u u'. temp_key C p h u = temp_key C q h' u' \<longrightarrow> p = q) \<and>
     (\<forall>p q h u. temp_key C p h u \<noteq> canon_key C q) \<and> (\<forall>x. decode_node C (encode_node C x) = Some x)"

text \<open>
  An encoder rejects messages it has no encoding for; the nodes that can be hashed are the hashes and
  the messages that can be encoded.
\<close>

definition encodable :: "('h, 'b, 'env) out_config \<Rightarrow> out_message \<Rightarrow> bool" where
  "encodable C m = is_ok (encode_leaf C m)"

definition hashable :: "('h, 'b, 'env) out_config \<Rightarrow> 'h mmr_node set" where
  "hashable C = {x. is_ok (hash_node C x)}"

lemma hash_for_target_ok: "encodable C m \<Longrightarrow> hash_for_target C m = Inr (leaf_hash C m)"
  by (auto simp: encodable_def leaf_hash_def hash_for_target_def is_ok_ex)

lemma hash_for_target_fails: "\<not> encodable C m \<Longrightarrow> hash_for_target C m = Inl ()"
  by (cases "encode_leaf C m") (simp_all add: encodable_def hash_for_target_def)

lemma hashable_simps [simp]: "Hash h \<in> hashable C" "Data m \<in> hashable C \<longleftrightarrow> encodable C m"
  by (simp add: hashable_def) (cases "encodable C m"; simp add: hashable_def hash_for_target_ok hash_for_target_fails)

lemma merger_hashable: "l \<in> hashable C \<Longrightarrow> r \<in> hashable C \<Longrightarrow> \<exists>x\<in>hashable C. merger C l r = Inr x"
  by (auto simp: hashable_def merger_def is_ok_ex)

section \<open>Completing mountains\<close>

lemma leaves_of_descending: "leaves_of (rev [0 ..< t]) = 2 ^ t - 1"
  using leaves_of_simps(4) by (induction t) (auto simp: leaves_of_def)

lemma peak_hashes_append:
  "peak_hashes C (as @ bs) ms = peak_hashes C as ms @ peak_hashes C bs (drop (leaves_of as) ms)"
  by (induction as arbitrary: ms) (simp_all add: add.commute)

lemma length_peak_hashes [simp]: "length (peak_hashes C hs ms) = length hs"
  by (induction hs arbitrary: ms) simp_all

lemma peak_hashes_extend: "leaves_of hs \<le> length ms \<Longrightarrow> peak_hashes C hs (ms @ ns) = peak_hashes C hs ms"
  by (induction hs arbitrary: ms) simp_all

lemma descending_peak_hashes:
  assumes "i < t" and "length ds = 2 ^ t - 1"
  shows "rev (peak_hashes C (rev [0 ..< t]) ds) ! i = tree_hash C i (take (2 ^ i) (drop (2 ^ t - 2 ^ Suc i) ds))"
  using assms
proof (induction t arbitrary: ds)
  case (Suc t)
  have len: "length (drop (2 ^ t) ds) = 2 ^ t - 1" using Suc.prems(2) by simp
  show ?case
  proof (cases "i = t")
    case False
    with Suc.prems(1) have "i < t" by simp
    then have "(2::nat) ^ Suc i \<le> 2 ^ t" by (intro power_increasing) auto
    then have "2 ^ t + (2 ^ t - 2 ^ Suc i) = (2::nat) ^ Suc t - 2 ^ Suc i" by simp
    with Suc.IH [OF \<open>i < t\<close> len] \<open>i < t\<close> show ?thesis
      by (simp add: nth_append add.commute del: power_Suc)
  qed (simp add: nth_append)
qed simp

text \<open>From the node of height \<open>k\<close> that closes with the last leaf up to height \<open>t\<close>.\<close>

lemma node_at_merge:
  assumes "encodable C (ms ! j)" and "Suc j = length ms" and "2 ^ Suc k \<le> length ms"
  shows "merger C (Hash (tree_hash C k (take (2 ^ k) (drop (Suc j - 2 ^ Suc k) ms)))) (node_at C ms j k) =
    Inr (node_at C ms j (Suc k))"
proof -
  have "hash_node C (node_at C ms j k) = Inr (tree_hash C k (drop (Suc j - 2 ^ k) ms))"
    using assms(1,2) by (cases "k = 0") (simp_all add: node_at_def hash_for_target_ok hd_drop_conv_nth flip: assms(2))
  moreover have "2 ^ k + (Suc j - 2 ^ Suc k) = Suc j - 2 ^ k" using assms(2,3) by simp
  ultimately show ?thesis using assms(2) by (simp add: merger_def node_at_def add.commute)
qed

lemma merge_up_chain:
  assumes "encodable C (ms ! j)" and "Suc j = length ms" and "2 ^ t \<le> length ms" and "length sibs = t - k" and "k \<le> t"
    and "\<And>i. i < t - k \<Longrightarrow>
      get (sibs ! i) = Inr (Some (Hash (tree_hash C (k + i) (take (2 ^ (k + i)) (drop (Suc j - 2 ^ Suc (k + i)) ms)))))"
  shows "merge_up (merger C) get sibs (node_at C ms j k) = Inr (map (node_at C ms j) [Suc k ..< Suc t])"
  using assms(4-)
proof (induction sibs arbitrary: k)
  case (Cons p ps)
  then have kt: "k < t" by simp
  then have "(2::nat) ^ Suc k \<le> 2 ^ t" by (intro power_increasing) auto
  with assms(3) have "2 ^ Suc k \<le> length ms" by simp
  note step = node_at_merge [OF assms(1,2) this]
  have "get p = Inr (Some (Hash (tree_hash C k (take (2 ^ k) (drop (Suc j - 2 ^ Suc k) ms)))))"
    using Cons.prems(3) [of 0] kt by simp
  moreover have "get (ps ! i) =
      Inr (Some (Hash (tree_hash C (Suc k + i) (take (2 ^ (Suc k + i)) (drop (Suc j - 2 ^ Suc (Suc k + i)) ms)))))"
    if "i < t - Suc k" for i
    using Cons.prems(3) [of "Suc i"] that by (simp del: power_Suc)
  then have "merge_up (merger C) get ps (node_at C ms j (Suc k)) = Inr (map (node_at C ms j) [Suc (Suc k) ..< Suc t])"
    using Cons.prems(1) kt by (intro Cons.IH) auto
  moreover have "[Suc k ..< Suc t] = Suc k # [Suc (Suc k) ..< Suc t]" using kt by (simp add: upt_conv_Cons)
  ultimately show ?case using step by (simp del: power_Suc upt_Suc)
qed simp

section \<open>The invariant of the storage\<close>

definition range_ok :: "('h, 'b, 'env) out_config \<Rightarrow> ('h, 'b, 'env) out_state \<Rightarrow> bool" where
  "range_ok C s \<longleftrightarrow>
     (let n = number_of_leaves s; ms = sent_messages s in
      length ms = n \<and> (\<forall>m\<in>set ms. encodable C m) \<and> dom (nodes s) = set (peak_positions n) \<and>
      map (nodes s) (peak_positions n) = map Some (peak_hashes C (peak_heights n) ms) \<and>
      (\<forall>j<n. \<forall>k\<le>trailing_ones j. \<exists>h u. leaf_meta s j = Some (h, u) \<and>
         offchain_db s (temp_key C (mmr_size j + k) h u) = Some (encode_node C (node_at C ms j k))) \<and>
      (\<forall>p. offchain_db s (canon_key C p) = None))"

lemma push_nodes:
  assumes "out_config_laws C" and "range_ok C s" and "n = number_of_leaves s" and "encodable C m"
  shows "lib_push (mmr C) (merger C) (runtime_get_elem s) (mmr_size n) (Data m) =
    Inr (mmr_size n, map (node_at C (sent_messages s @ [m]) n) [0 ..< Suc (trailing_ones n)])"
proof -
  let ?t = "trailing_ones n" and ?ms = "sent_messages s"
  have H: "mmr_helper_laws (helper C)" and L: "mmr_lib_laws (mmr C)" using assms(1) by (auto simp: out_config_laws_def)
  have len: "length ?ms = n" and peaks: "map (nodes s) (peak_positions n) = map Some (peak_hashes C (peak_heights n) ?ms)"
    using assms(2,3) by (auto simp: range_ok_def Let_def)
  obtain A where A: "peak_heights n = A @ rev [0 ..< ?t]"
      "peak_positions n = positions 0 A @ positions (nodes_of A) (rev [0 ..< ?t])"
    using peaks_diff [OF H, of n] by metis
  define pruned where "pruned = positions (nodes_of A) (rev [0 ..< ?t])"
  have n: "leaves_of A + (2 ^ ?t - 1) = n"
    using leaves_of_peak_heights [of n] by (simp add: A(1) leaves_of_descending)
  define ds where "ds = drop (leaves_of A) ?ms"
  have lds: "length ds = 2 ^ ?t - 1" using n len by (simp add: ds_def)
  have "map (nodes s) (positions 0 A) @ map (nodes s) pruned =
      map Some (peak_hashes C A ?ms) @ map Some (peak_hashes C (rev [0 ..< ?t]) ds)"
    using peaks by (simp add: A pruned_def ds_def peak_hashes_append)
  then have "map (nodes s) pruned = map Some (peak_hashes C (rev [0 ..< ?t]) ds)"
    by (simp add: append_eq_append_conv)
  then have "map (nodes s) (rev pruned) = map Some (rev (peak_hashes C (rev [0 ..< ?t]) ds))" by (metis rev_map)
  then have sib: "nodes s (rev pruned ! i) = Some (rev (peak_hashes C (rev [0 ..< ?t]) ds) ! i)" if "i < ?t" for i
    using that length_positions pruned_def by (metis (no_types, lifting) length_map length_peak_hashes length_rev length_upt minus_nat.diff_0 nth_map)
  have eq: "take (2 ^ i) (drop (2 ^ ?t - 2 ^ Suc i) ds) = take (2 ^ i) (drop (Suc n - 2 ^ Suc i) (?ms @ [m]))"
    if "i < ?t" for i
  proof -
    from that have i: "(2::nat) ^ Suc i \<le> 2 ^ ?t" by (intro power_increasing) auto
    moreover have "Suc n = leaves_of A + 2 ^ ?t" using n one_le_power [of "2::nat" ?t] by linarith
    ultimately have "2 ^ i < (2::nat) ^ Suc i" "Suc n - 2 ^ Suc i = leaves_of A + (2 ^ ?t - 2 ^ Suc i)" by simp_all
    with i len n show ?thesis by (simp add: ds_def add.commute)
  qed
  have "take ?t (rev (peak_positions n)) = rev pruned" by (simp add: A pruned_def)
  moreover have "encodable C ((?ms @ [m]) ! n)" using assms(4) len by (simp add: nth_append)
  then have "merge_up (merger C) (runtime_get_elem s) (rev pruned) (node_at C (?ms @ [m]) n 0) =
      Inr (map (node_at C (?ms @ [m]) n) [Suc 0 ..< Suc ?t])"
    using len n sib descending_peak_hashes [OF _ lds] eq
    by (intro merge_up_chain) (simp_all add: pruned_def runtime_get_elem_def del: power_Suc, simp_all)
  moreover have "node_at C (?ms @ [m]) n 0 = Data m" using len by (simp add: node_at_def nth_append)
  ultimately show ?thesis
    using L by (simp add: mmr_lib_laws_def upt_conv_Cons del: upt_Suc)
qed

section \<open>Sending a message\<close>

lemma temp_key_position: "out_config_laws C \<Longrightarrow> temp_key C p h u = temp_key C q h' u' \<Longrightarrow> p = q"
  unfolding out_config_laws_def by blast

text \<open>Appending inner nodes: the last one is the new peak, all of them go to the off-chain database.\<close>

lemma append_inner_nodes:
  assumes "out_config_laws C" and "ni + length hs < 2 ^ 64" and "\<forall>e\<in>set hs. \<exists>h. e = Hash h"
  shows "\<exists>lm db. append_elems C u hs li ni (if hs = [] then [] else [ni + length hs - 1]) s =
      Inr (li, s\<lparr>nodes := (if hs = [] then nodes s
                           else (nodes s)(ni + length hs - 1 \<mapsto> projr (hash_node C (last hs)))),
                 leaf_meta := lm, offchain_db := db\<rparr>) \<and>
    (\<forall>i. i \<noteq> li \<longrightarrow> lm i = leaf_meta s i) \<and>
    (\<forall>key. (\<forall>j h u. ni \<le> j \<longrightarrow> key \<noteq> temp_key C j h u) \<longrightarrow> db key = offchain_db s key) \<and>
    (\<forall>k<length hs. db (temp_key C (ni + k) (parent_hash s) u) = Some (encode_node C (hs ! k)))"
  using assms(2,3)
proof (induction hs arbitrary: ni s)
  case Nil
  show ?case by (rule exI [of _ "leaf_meta s"], rule exI [of _ "offchain_db s"]) simp
next
  case (Cons e hs)
  note inj = temp_key_position [OF assms(1)]
  obtain x where e: "e = Hash x" using Cons.prems by auto
  define s1 where "s1 = (if hs = [] then s\<lparr>nodes := (nodes s)(ni \<mapsto> x)\<rparr> else s)"
  define s2 where "s2 = store_to_offchain C li ni e u s1"
  have ni: "wrapping_add 64 ni 1 = Suc ni" using Cons.prems by (simp add: wrapping_add_exact)
  have step: "append_elems C u (e # hs) li ni [ni + length hs] s =
      append_elems C u hs li (Suc ni) (if hs = [] then [] else [Suc ni + length hs - 1]) s2"
    using ni by (simp add: e s2_def s1_def)
  obtain lm db where IH:
    "append_elems C u hs li (Suc ni) (if hs = [] then [] else [Suc ni + length hs - 1]) s2 =
      Inr (li, s2\<lparr>nodes := (if hs = [] then nodes s2
                            else (nodes s2)(Suc ni + length hs - 1 \<mapsto> projr (hash_node C (last hs)))),
                 leaf_meta := lm, offchain_db := db\<rparr>)"
    "\<forall>i. i \<noteq> li \<longrightarrow> lm i = leaf_meta s2 i"
    "\<forall>key. (\<forall>j h u. Suc ni \<le> j \<longrightarrow> key \<noteq> temp_key C j h u) \<longrightarrow> db key = offchain_db s2 key"
    "\<forall>k<length hs. db (temp_key C (Suc ni + k) (parent_hash s2) u) = Some (encode_node C (hs ! k))"
    using Cons.IH [of "Suc ni" s2] Cons.prems by auto
  have 1: "append_elems C u (e # hs) li ni [ni + length hs] s =
      Inr (li, s\<lparr>nodes := (nodes s)(ni + length hs \<mapsto> projr (hash_node C (last (e # hs)))),
                 leaf_meta := lm, offchain_db := db\<rparr>)"
    unfolding step IH(1) by (simp add: s2_def s1_def store_to_offchain_def e)
  have 2: "\<forall>i. i \<noteq> li \<longrightarrow> lm i = leaf_meta s i"
    using IH(2) by (simp add: s2_def s1_def store_to_offchain_def)
  have old: "offchain_db s2 key = (if key = temp_key C ni (parent_hash s) u then Some (encode_node C e) else offchain_db s key)" for key
    by (simp add: s2_def s1_def store_to_offchain_def)
  have 3: "\<forall>key. (\<forall>j h u. ni \<le> j \<longrightarrow> key \<noteq> temp_key C j h u) \<longrightarrow> db key = offchain_db s key"
    using IH(3) old by (metis Suc_leD order_refl)
  have first: "db (temp_key C ni (parent_hash s) u) = Some (encode_node C e)"
    using IH(3) old inj by (metis Suc_n_not_le_n)
  have par: "parent_hash s2 = parent_hash s" by (simp add: s2_def s1_def store_to_offchain_def)
  have 4: "\<forall>k<length (e # hs). db (temp_key C (ni + k) (parent_hash s) u) = Some (encode_node C ((e # hs) ! k))"
    using first IH(4) unfolding par by (auto simp: less_Suc_eq_0_disj)
  show ?case
    by (rule exI [of _ lm], rule exI [of _ db]) (use 1 2 3 4 in \<open>simp add: fun_upd_def del: append_elems.simps\<close>)
qed

lemma append_leaf_nodes:
  assumes "out_config_laws C" and "ni + Suc (length hs) < 2 ^ 64" and "Suc li < 2 ^ 64"
    and "\<forall>e\<in>set hs. \<exists>h. e = Hash h"
    and "encodable C m"
  obtains lm db where
    "append_elems C u (Data m # hs) li ni [ni + length hs] s =
      Inr (Suc li, s\<lparr>nodes := (nodes s)(ni + length hs \<mapsto> projr (hash_node C (last (Data m # hs)))),
                 leaf_meta := lm, offchain_db := db\<rparr>)"
    "\<forall>i<li. lm i = leaf_meta s i" "lm li = Some (parent_hash s, u)"
    "\<forall>key. (\<forall>j h u. ni \<le> j \<longrightarrow> key \<noteq> temp_key C j h u) \<longrightarrow> db key = offchain_db s key"
    "\<forall>k\<le>length hs. db (temp_key C (ni + k) (parent_hash s) u) = Some (encode_node C ((Data m # hs) ! k))"
proof -
  note inj = temp_key_position [OF assms(1)]
  define s1 where "s1 = (if hs = [] then s\<lparr>nodes := (nodes s)(ni \<mapsto> leaf_hash C m)\<rparr> else s)"
  define s2 where "s2 = store_to_offchain C li ni (Data m) u s1"
  have ni: "wrapping_add 64 ni 1 = Suc ni" "wrapping_add 64 li 1 = Suc li"
    using assms(2,3) by (simp_all add: wrapping_add_exact)
  have step: "append_elems C u (Data m # hs) li ni [ni + length hs] s =
      append_elems C u hs (Suc li) (Suc ni) (if hs = [] then [] else [Suc ni + length hs - 1]) s2"
    using ni by (simp add: s2_def s1_def hash_for_target_ok [OF assms(5)])
  obtain lm db where app:
    "append_elems C u hs (Suc li) (Suc ni) (if hs = [] then [] else [Suc ni + length hs - 1]) s2 =
      Inr (Suc li, s2\<lparr>nodes := (if hs = [] then nodes s2
                            else (nodes s2)(Suc ni + length hs - 1 \<mapsto> projr (hash_node C (last hs)))),
                 leaf_meta := lm, offchain_db := db\<rparr>)"
    "\<forall>i. i \<noteq> Suc li \<longrightarrow> lm i = leaf_meta s2 i"
    "\<forall>key. (\<forall>j h u. Suc ni \<le> j \<longrightarrow> key \<noteq> temp_key C j h u) \<longrightarrow> db key = offchain_db s2 key"
    "\<forall>k<length hs. db (temp_key C (Suc ni + k) (parent_hash s2) u) = Some (encode_node C (hs ! k))"
    using append_inner_nodes [OF assms(1), of "Suc ni" hs u "Suc li" s2] assms(2,4) by auto
  have old: "offchain_db s2 key =
      (if key = temp_key C ni (parent_hash s) u then Some (encode_node C (Data m)) else offchain_db s key)" for key
    by (simp add: s2_def s1_def store_to_offchain_def)
  have par: "parent_hash s2 = parent_hash s" by (simp add: s2_def s1_def store_to_offchain_def)
  show thesis
  proof (rule that)
    show "append_elems C u (Data m # hs) li ni [ni + length hs] s =
      Inr (Suc li, s\<lparr>nodes := (nodes s)(ni + length hs \<mapsto> projr (hash_node C (last (Data m # hs)))),
                 leaf_meta := lm, offchain_db := db\<rparr>)"
      unfolding step app(1) by (simp add: s2_def s1_def store_to_offchain_def hash_for_target_ok [OF assms(5)])
    show "\<forall>i<li. lm i = leaf_meta s i"
      using app(2) by (simp add: s2_def s1_def store_to_offchain_def)
    show "lm li = Some (parent_hash s, u)"
      using app(2) by (simp add: s2_def s1_def store_to_offchain_def)
    show "\<forall>key. (\<forall>j h u. ni \<le> j \<longrightarrow> key \<noteq> temp_key C j h u) \<longrightarrow> db key = offchain_db s key"
      using app(3) old by (metis Suc_leD order_refl)
    show "\<forall>k\<le>length hs. db (temp_key C (ni + k) (parent_hash s) u) = Some (encode_node C ((Data m # hs) ! k))"
    proof (intro allI impI)
      fix k
      assume "k \<le> length hs"
      with app(3,4) old inj par show "db (temp_key C (ni + k) (parent_hash s) u) = Some (encode_node C ((Data m # hs) ! k))"
        by (cases k) (simp, metis Suc_n_not_le_n, simp)
    qed
  qed
qed

lemma node_at_prefix: "j < length ms \<Longrightarrow> node_at C (ms @ ns) j k = node_at C ms j k"
  by (simp add: node_at_def nth_append)

lemma peaks_after_append:
  assumes A: "peak_heights n = A @ rev [0 ..< trailing_ones n]" "peak_heights (Suc n) = A @ [trailing_ones n]"
      "peak_positions n = positions 0 A @ pruned" "peak_positions (Suc n) = positions 0 A @ [mmr_size n + trailing_ones n]"
    and ms: "length ms = n" and dom: "dom ns = set (peak_positions n)"
    and peaks: "map ns (peak_positions n) = map Some (peak_hashes C (peak_heights n) ms)"
    and ns': "ns' = ns(mmr_size n + trailing_ones n \<mapsto> tree_hash C (trailing_ones n) (drop (leaves_of A) (ms @ [m]))) |` (- set pruned)"
  shows "dom ns' = set (peak_positions (Suc n))"
    and "map ns' (peak_positions (Suc n)) = map Some (peak_hashes C (peak_heights (Suc n)) (ms @ [m]))"
proof -
  let ?t = "trailing_ones n" and ?new = "mmr_size n + trailing_ones n"
  have lt: "\<forall>p\<in>set (peak_positions n). p < mmr_size n" using peak_positions_bound by blast
  have dist: "distinct (peak_positions n)" by (simp add: peak_positions_def distinct_positions)
  have L: "Suc n = leaves_of A + 2 ^ ?t" using leaves_of_peak_heights [of "Suc n"] by (simp add: A(2))
  have "dom ns' = insert ?new (dom ns) \<inter> - set pruned" by (auto simp: ns')
  then show "dom ns' = set (peak_positions (Suc n))" using dist lt by (auto simp: dom A(3,4))
  have "ns' p = ns p" if "p \<in> set (positions 0 A)" for p
    using that dist lt by (auto simp: ns' A(3) restrict_map_def)
  then have "map ns' (positions 0 A) = map ns (positions 0 A)" by simp
  moreover have "leaves_of A \<le> length ms" using L ms one_le_power [of "2::nat" ?t] by linarith
  then have "map ns (positions 0 A) = map Some (peak_hashes C A (ms @ [m]))"
    using peaks by (simp add: A(1,3) peak_hashes_append peak_hashes_extend append_eq_append_conv length_positions)
  moreover have "ns' ?new = Some (tree_hash C ?t (drop (leaves_of A) (ms @ [m])))" using lt by (auto simp: ns' A(3))
  moreover have "take (2 ^ ?t) (drop (leaves_of A) (ms @ [m])) = drop (leaves_of A) (ms @ [m])" using L ms by simp
  ultimately show "map ns' (peak_positions (Suc n)) = map Some (peak_hashes C (peak_heights (Suc n)) (ms @ [m]))"
    by (simp add: A(2,4) peak_hashes_append)
qed

lemma hash_of_new_peak:
  assumes "encodable C m" and "length ms = n" and "Suc n = leaves_of A + 2 ^ trailing_ones n"
  shows "hash_node C (node_at C (ms @ [m]) n (trailing_ones n)) =
    Inr (tree_hash C (trailing_ones n) (drop (leaves_of A) (ms @ [m])))"
proof -
  have "Suc n - 2 ^ trailing_ones n = leaves_of A" using assms(3) by simp
  then show ?thesis
    using assms(2,3) hash_for_target_ok [OF assms(1)]
    by (cases "trailing_ones n = 0") (auto simp: node_at_def nth_append)
qed

lemma range_ok_append:
  assumes "out_config_laws C" and "range_ok C s" and n: "number_of_leaves s = n" and "n < 2 ^ 62"
    and "encodable C m"
  obtains ns lm db where
    "append C (mmr_size n) (map (node_at C (sent_messages s @ [m]) n) [0 ..< Suc (trailing_ones n)]) u s =
       Some (Inr (s\<lparr>number_of_leaves := Suc n, nodes := ns, leaf_meta := lm, offchain_db := db\<rparr>))"
    "range_ok C (s\<lparr>number_of_leaves := Suc n, nodes := ns, leaf_meta := lm, offchain_db := db,
       sent_messages := sent_messages s @ [m]\<rparr>)"
proof -
  let ?t = "trailing_ones n" and ?ms = "sent_messages s @ [m]"
  let ?new = "mmr_size n + ?t"
  define hs where "hs = map (node_at C ?ms n) [Suc 0 ..< Suc ?t]"
  have H: "mmr_helper_laws (helper C)" using assms(1) by (auto simp: out_config_laws_def)
  have s: "length (sent_messages s) = n" "dom (nodes s) = set (peak_positions n)"
      "map (nodes s) (peak_positions n) = map Some (peak_hashes C (peak_heights n) (sent_messages s))"
      "\<And>p. offchain_db s (canon_key C p) = None" "\<forall>m\<in>set (sent_messages s). encodable C m"
    using assms(2) by (auto simp: range_ok_def Let_def n)
  have small: "mmr_size n + Suc (Suc ?t) < 2 ^ 64"
    using mmr_size_ge(2) [of "Suc n"] assms(4) by (simp add: mmr_size_Suc)
  have elems: "map (node_at C ?ms n) [0 ..< Suc ?t] = Data m # hs"
    using s(1) by (simp add: hs_def upt_conv_Cons node_at_def nth_append del: upt_Suc)
  have len: "length hs = ?t" and hash: "\<forall>e\<in>set hs. \<exists>h. e = Hash h" by (auto simp: hs_def node_at_def)
  have "last (map (node_at C ?ms n) [0 ..< Suc ?t]) = node_at C ?ms n ?t" by simp
  then have last: "last (Data m # hs) = node_at C ?ms n ?t" by (simp only: elems)
  obtain A where A: "peak_heights n = A @ rev [0 ..< ?t]" "peak_heights (Suc n) = A @ [?t]"
      "peak_positions n = positions 0 A @ positions (nodes_of A) (rev [0 ..< ?t])"
      "peak_positions (Suc n) = positions 0 A @ [?new]"
      "peaks_to_prune_and_store (helper C) (mmr_size n) (mmr_size (Suc n)) =
         Some (positions (nodes_of A) (rev [0 ..< ?t]), [?new])"
    using peaks_diff [OF H, of n] by metis
  have L: "Suc n = leaves_of A + 2 ^ ?t" using leaves_of_peak_heights [of "Suc n"] by (simp add: A(2))
  have bounds: "mmr_size n + Suc (length hs) < 2 ^ 64" "Suc n < 2 ^ 64" using small assms(4) len by simp_all
  obtain lm db where app:
    "append_elems C u (Data m # hs) n (mmr_size n) [mmr_size n + length hs] s =
      Inr (Suc n, s\<lparr>nodes := (nodes s)(mmr_size n + length hs \<mapsto> projr (hash_node C (last (Data m # hs)))),
                 leaf_meta := lm, offchain_db := db\<rparr>)"
    "\<forall>i<n. lm i = leaf_meta s i" "lm n = Some (parent_hash s, u)"
    "\<forall>key. (\<forall>j h u. mmr_size n \<le> j \<longrightarrow> key \<noteq> temp_key C j h u) \<longrightarrow> db key = offchain_db s key"
    "\<forall>k\<le>length hs. db (temp_key C (mmr_size n + k) (parent_hash s) u) = Some (encode_node C ((Data m # hs) ! k))"
    by (rule append_leaf_nodes [OF assms(1) bounds hash assms(5), of u s])
  define ns where "ns = (nodes s)(?new \<mapsto> tree_hash C ?t (drop (leaves_of A) ?ms)) |` (- set (positions (nodes_of A) (rev [0 ..< ?t])))"
  have "append C (mmr_size n) (Data m # hs) u s =
      Some (Inr (s\<lparr>number_of_leaves := Suc n, nodes := ns, leaf_meta := lm, offchain_db := db\<rparr>))"
    using app(1) A(5) small len assms(4) hash_of_new_peak [OF assms(5) s(1) L]
    by (simp add: append_def Let_def n nodes_size_exact wrapping_add_exact mmr_size_Suc ns_def last del: last.simps)
  moreover have "\<exists>h u. lm j = Some (h, u) \<and> db (temp_key C (mmr_size j + k) h u) = Some (encode_node C (node_at C ?ms j k))"
    if jk: "j < Suc n" "k \<le> trailing_ones j" for j k
  proof (cases "j = n")
    case True
    with jk(2) app(3,5) elems len show ?thesis
      by (metis add_0 diff_zero le_imp_less_Suc length_upt nth_map nth_upt)
  next
    case False
    with jk have j: "j < n" by simp
    then have "mmr_size (Suc j) \<le> mmr_size n" by (simp only: mmr_size_le_iff)
    with jk(2) have less: "mmr_size j + k < mmr_size n" by (simp add: mmr_size_Suc)
    obtain h v where hv: "leaf_meta s j = Some (h, v)"
        "offchain_db s (temp_key C (mmr_size j + k) h v) = Some (encode_node C (node_at C (sent_messages s) j k))"
      using assms(2) j jk(2) unfolding range_ok_def Let_def n by blast
    have "db (temp_key C (mmr_size j + k) h v) = offchain_db s (temp_key C (mmr_size j + k) h v)"
      using less temp_key_position [OF assms(1)] by (intro app(4) [rule_format]) fastforce
    then show ?thesis using hv app(2) j s(1) by (simp add: node_at_prefix)
  qed
  moreover have "db (canon_key C p) = None" for p
    using app(4) s(4) assms(1) unfolding out_config_laws_def by metis
  ultimately show thesis
    using s(1,5) assms(5) peaks_after_append [OF A(1-4) s(1-3) ns_def] elems
    by (intro that [where ns = ns and lm = lm and db = db]) (simp_all add: range_ok_def Let_def)
qed

end
