(* ===== verification/Outgoing_Runs.thy ===== *)
theory Outgoing_Runs
  imports Hyperdrive_Outgoing
begin

text \<open>
  Runs of the outgoing pallet: what sending a message does to the whole state, the invariant over any
  sequence of blocks and messages, the time until a message is in a snapshot, and the proofs generated
  for a snapshot.
\<close>

section \<open>Sending a message, in all\<close>

lemma lib_get_root_ok:
  assumes "mmr_lib_laws L" and "\<And>l r. l \<in> G \<Longrightarrow> r \<in> G \<Longrightarrow> \<exists>x\<in>G. mg l r = Inr x"
    and "\<forall>p\<in>set (peak_positions n). \<exists>e\<in>G. get p = Inr (Some e)" and "leaf \<in> G"
    and "lib_push L mg get (mmr_size n) leaf = Inr (mmr_size n, xs)"
  shows "\<exists>e\<in>G. lib_get_root L mg get (mmr_size n) xs = Inr e"
  using assms unfolding mmr_lib_laws_def by blast

lemma send_message_step:
  assumes "out_config_laws C" and "range_ok C s" and "message_numbers s = (i, n)" and n: "number_of_leaves s = n" and "n < 2 ^ 62"
    and "encodable C \<lparr>out_id = n, out_action_of = action\<rparr>"
  obtains ns lm db root where
    "send_message C action s = Some (Inr (s\<lparr>number_of_leaves := Suc n, nodes := ns, leaf_meta := lm, offchain_db := db,
       out_env := on_new_root C root (out_env s), root_hash := root, message_numbers := (i, Suc n),
       sent_messages := sent_messages s @ [\<lparr>out_id = n, out_action_of = action\<rparr>]\<rparr>))"
    "range_ok C (s\<lparr>number_of_leaves := Suc n, nodes := ns, leaf_meta := lm, offchain_db := db,
       sent_messages := sent_messages s @ [\<lparr>out_id = n, out_action_of = action\<rparr>]\<rparr>)"
proof -
  let ?m = "\<lparr>out_id = n, out_action_of = action\<rparr>"
  let ?elems = "map (node_at C (sent_messages s @ [?m]) n) [0 ..< Suc (trailing_ones n)]"
  have push: "lib_push (mmr C) (merger C) (runtime_get_elem s) (mmr_size n) (Data ?m) = Inr (mmr_size n, ?elems)"
    using push_nodes [OF assms(1,2) _ assms(6)] n by simp
  have "\<forall>p\<in>set (peak_positions n). \<exists>e\<in>hashable C. runtime_get_elem s p = Inr (Some e)"
  proof
    fix p
    assume "p \<in> set (peak_positions n)"
    then have "p \<in> dom (nodes s)" using assms(2) n by (simp add: range_ok_def Let_def)
    then obtain h where "nodes s p = Some h" by blast
    then show "\<exists>e\<in>hashable C. runtime_get_elem s p = Inr (Some e)" by (intro bexI [of _ "Hash h"]) (simp_all add: runtime_get_elem_def)
  qed
  then have "\<exists>x\<in>hashable C. lib_get_root (mmr C) (merger C) (runtime_get_elem s) (mmr_size n) ?elems = Inr x"
    using assms(1,6) push merger_hashable by (intro lib_get_root_ok) (auto simp: out_config_laws_def)
  then obtain x root where root: "lib_get_root (mmr C) (merger C) (runtime_get_elem s) (mmr_size n) ?elems = Inr x"
      "hash_node C x = Inr root"
    unfolding hashable_def is_ok_ex by blast
  obtain ns lm db where app:
    "append C (mmr_size n) ?elems root s = Some (Inr (s\<lparr>number_of_leaves := Suc n, nodes := ns, leaf_meta := lm, offchain_db := db\<rparr>))"
    "range_ok C (s\<lparr>number_of_leaves := Suc n, nodes := ns, leaf_meta := lm, offchain_db := db,
       sent_messages := sent_messages s @ [?m]\<rparr>)"
    by (rule range_ok_append [OF assms(1,2) n assms(5,6)])
  have "nodes_size n = mmr_size n" "wrapping_add 64 n 1 = Suc n"
    using assms(5) by (simp_all add: nodes_size_exact wrapping_add_exact)
  then show thesis
    using push root app assms(3)
    by (intro that [where ns = ns and lm = lm and db = db and root = root])
      (simp_all add: send_message_def mmr_push_def mmr_new_def mmr_finalize_def n Let_def del: upt_Suc)
qed

text \<open>A message without an encoding is refused, by one step or another.\<close>

lemma send_message_refused:
  assumes "out_config_laws C" and "range_ok C s" and "message_numbers s = (i, n)" and n: "number_of_leaves s = n" and "n < 2 ^ 62"
    and "\<not> encodable C \<lparr>out_id = n, out_action_of = action\<rparr>"
  shows "\<exists>e. send_message C action s = Some (Inl e)"
proof -
  let ?m = "\<lparr>out_id = n, out_action_of = action\<rparr>" and ?get = "runtime_get_elem s"
  have sz: "nodes_size n = mmr_size n" using assms(5) by (simp add: nodes_size_exact)
  have H: "mmr_helper_laws (helper C)" and L: "mmr_lib_laws (mmr C)" using assms(1) by (auto simp: out_config_laws_def)
  obtain A where A: "peaks_to_prune_and_store (helper C) (mmr_size n) (mmr_size (Suc n)) =
      Some (positions (nodes_of A) (rev [0 ..< trailing_ones n]), [mmr_size n + trailing_ones n])"
    using peaks_diff [OF H, of n] by metis
  have small: "Suc (mmr_size n) < 2 ^ 64" using mmr_size_ge(2) [of n] assms(5) by simp
  have bad: "\<not> is_ok (merger C l (Data ?m))" for l
    using hash_for_target_fails [OF assms(6)] by (cases "hash_node C l") (simp_all add: merger_def)
  define ps where "ps = take (trailing_ones n) (rev (peak_positions n))"
  have push: "lib_push (mmr C) (merger C) ?get (mmr_size n) (Data ?m) =
      bind_r (merge_up (merger C) ?get ps (Data ?m)) (\<lambda>xs. Inr (mmr_size n, Data ?m # xs))"
    using L by (simp add: mmr_lib_laws_def ps_def)
  show ?thesis
  proof (cases ps)
    case Nil
    then have "trailing_ones n = 0 \<or> peak_positions n = []" by (auto simp: ps_def)
    then have "trailing_ones n = 0"
      using peaks_diff [OF H, of n] by (metis Nil_is_append_conv length_0_conv length_positions length_rev length_upt diff_zero)
    with A small Nil push show ?thesis
      using assms(3) hash_for_target_fails [OF assms(6)]
      by (auto simp: send_message_def mmr_push_def mmr_new_def mmr_finalize_def append_def Let_def n sz
          wrapping_add_exact mmr_size_Suc split: sum.splits)
  next
    case (Cons p ps')
    with bad have "\<not> is_ok (merge_up (merger C) ?get ps (Data ?m))"
      by (auto simp: is_ok_ex result_simps)
    with push assms(3) show ?thesis
      by (auto simp: send_message_def mmr_push_def mmr_new_def n sz Let_def is_ok_def split: sum.splits)
  qed
qed

section \<open>Runs of the pallet\<close>

text \<open>
  A run of the chain as the pallet sees it: the start of a block, which sets the hash of its parent,
  messages sent in it, and its finalization. An error of \<^const>\<open>send_message\<close> leaves the state; a call
  that does not return ends the run.
\<close>

datatype 'b out_op = StartBlock 'b | Send out_action | Finalize block_number

fun out_exec :: "('h, 'b, 'env) out_config \<Rightarrow> 'b out_op \<Rightarrow> ('h, 'b, 'env) out_state \<Rightarrow> ('h, 'b, 'env) out_state option" where
  "out_exec C (StartBlock h) s = Some (s\<lparr>parent_hash := h\<rparr>)"
| "out_exec C (Send action) s = map_option (\<lambda>r. case r of Inl _ \<Rightarrow> s | Inr s' \<Rightarrow> s') (send_message C action s)"
| "out_exec C (Finalize b) s = Some (on_finalize C b s)"

fun out_run :: "('h, 'b, 'env) out_config \<Rightarrow> 'b out_op list \<Rightarrow> ('h, 'b, 'env) out_state \<Rightarrow> ('h, 'b, 'env) out_state option" where
  "out_run C [] s = Some s"
| "out_run C (op # ops) s = Option.bind (out_exec C op s) (out_run C ops)"

definition out_init :: "'h \<Rightarrow> 'b \<Rightarrow> 'env \<Rightarrow> ('h, 'b, 'env) out_state" where
  "out_init root parent env =
     \<lparr>message_numbers = (0, 0), first_mmr_block_number = None, leaf_meta = Map.empty, block_leaf_index = Map.empty,
      next_snapshot_number = 0, snapshot_meta = Map.empty, root_hash = root, number_of_leaves = 0,
      nodes = Map.empty, parent_hash = parent, offchain_db = Map.empty, sent_messages = [], out_env = env\<rparr>"

fun sends :: "'b out_op list \<Rightarrow> out_action list" where
  "sends [] = []"
| "sends (Send a # ops) = a # sends ops"
| "sends (_ # ops) = sends ops"

text \<open>Of the actions sent, those the encoder takes, with the numbers they get.\<close>

fun accepted_messages :: "('h, 'b, 'env) out_config \<Rightarrow> u64 \<Rightarrow> out_action list \<Rightarrow> out_message list" where
  "accepted_messages C n [] = []"
| "accepted_messages C n (a # as) =
     (let m = \<lparr>out_id = n, out_action_of = a\<rparr> in
      if encodable C m then m # accepted_messages C (Suc n) as else accepted_messages C n as)"

text \<open>
  Messages are numbered from 0; snapshots too, each over more messages than the one before. The last
  snapshot covers the included messages.
\<close>

definition snapshots_ok :: "('h, 'b, 'env) out_state \<Rightarrow> bool" where
  "snapshots_ok s \<longleftrightarrow>
     dom (snapshot_meta s) = {..<next_snapshot_number s} \<and> next_snapshot_number s \<le> fst (message_numbers s) \<and>
     (\<forall>k. next_snapshot_number s = Suc k \<longrightarrow> (\<exists>r b. snapshot_meta s k = Some (r, b, fst (message_numbers s)))) \<and>
     (next_snapshot_number s = 0 \<longrightarrow> fst (message_numbers s) = 0) \<and>
     (\<forall>k r b l. snapshot_meta s k = Some (r, b, l) \<longrightarrow> 0 < l \<and> l \<le> fst (message_numbers s)) \<and>
     (\<forall>k k' r b l r' b' l'. k < k' \<longrightarrow> snapshot_meta s k = Some (r, b, l) \<longrightarrow> snapshot_meta s k' = Some (r', b', l') \<longrightarrow> l < l')"

definition out_inv :: "('h, 'b, 'env) out_config \<Rightarrow> ('h, 'b, 'env) out_state \<Rightarrow> bool" where
  "out_inv C s \<longleftrightarrow> range_ok C s \<and> snapshots_ok s \<and>
     snd (message_numbers s) = number_of_leaves s \<and> fst (message_numbers s) \<le> number_of_leaves s \<and>
     map out_id (sent_messages s) = [0 ..< number_of_leaves s]"

lemma range_ok_cong:
  assumes "number_of_leaves s' = number_of_leaves s" and "sent_messages s' = sent_messages s" and "nodes s' = nodes s"
    and "leaf_meta s' = leaf_meta s" and "offchain_db s' = offchain_db s"
  shows "range_ok C s' = range_ok C s"
  using assms by (simp add: range_ok_def)

lemma out_inv_init: "out_inv C (out_init root parent env)"
  by (simp add: out_inv_def out_init_def range_ok_def snapshots_ok_def peak_positions_def)

lemma out_inv_send:
  assumes "out_config_laws C" and "out_inv C s" and "number_of_leaves s < 2 ^ 62"
  obtains s' where "out_exec C (Send a) s = Some s'" "out_inv C s'"
    "sent_messages s' = sent_messages s @ accepted_messages C (number_of_leaves s) [a]"
    "number_of_leaves s' = number_of_leaves s + length (accepted_messages C (number_of_leaves s) [a])"
    "fst (message_numbers s') = fst (message_numbers s)" "next_snapshot_number s' = next_snapshot_number s"
    "snapshot_meta s' = snapshot_meta s" "first_mmr_block_number s' = first_mmr_block_number s"
proof -
  let ?n = "number_of_leaves s" and ?i = "fst (message_numbers s)"
  have mn: "message_numbers s = (?i, ?n)" and ok: "range_ok C s" using assms(2) by (auto simp: out_inv_def prod_eq_iff)
  show thesis
  proof (cases "encodable C \<lparr>out_id = ?n, out_action_of = a\<rparr>")
    case False
    with send_message_refused [OF assms(1) ok mn refl assms(3) False] assms(2) show thesis
      by (intro that [of s]) auto
  next
    case True
    obtain ns lm db root where send:
      "send_message C a s = Some (Inr (s\<lparr>number_of_leaves := Suc ?n, nodes := ns, leaf_meta := lm, offchain_db := db,
         out_env := on_new_root C root (out_env s), root_hash := root, message_numbers := (?i, Suc ?n),
         sent_messages := sent_messages s @ [\<lparr>out_id = ?n, out_action_of = a\<rparr>]\<rparr>))" (is "_ = Some (Inr ?s')")
      "range_ok C (s\<lparr>number_of_leaves := Suc ?n, nodes := ns, leaf_meta := lm, offchain_db := db,
         sent_messages := sent_messages s @ [\<lparr>out_id = ?n, out_action_of = a\<rparr>]\<rparr>)"
      by (rule send_message_step [OF assms(1) ok mn refl assms(3) True])
    have "range_ok C ?s'" using send(2) by (subst (asm) range_ok_cong [where s = ?s']) simp_all
    moreover have "snapshots_ok ?s'" using assms(2) by (simp add: out_inv_def snapshots_ok_def)
    ultimately have "out_inv C ?s'" using assms(2) by (simp add: out_inv_def)
    with send(1) True show thesis by (intro that [of ?s']) simp_all
  qed
qed

lemma snapshots_ok_extend:
  assumes "snapshots_ok s" and "fst (message_numbers s) < l" and "next_snapshot_number s < 2 ^ 62"
    and "next_snapshot_number s' = wrapping_add 64 (next_snapshot_number s) 1"
    and "snapshot_meta s' = (snapshot_meta s)(next_snapshot_number s \<mapsto> (r, b, l))" and "message_numbers s' = (l, l)"
  shows "snapshots_ok s'"
proof -
  have next': "next_snapshot_number s' = Suc (next_snapshot_number s)" using assms(3,4) by (simp add: wrapping_add_exact)
  have old: "0 < l \<and> l \<le> fst (message_numbers s)" if "snapshot_meta s k = Some (r, b, l)" for k r b l
    using assms(1) that unfolding snapshots_ok_def by blast
  have incr: "l < l'" if "k < k'" "snapshot_meta s k = Some (r, b, l)" "snapshot_meta s k' = Some (r', b', l')"
    for k k' r b l r' b' l'
    using assms(1) that unfolding snapshots_ok_def by blast
  have below: "k < next_snapshot_number s" if "snapshot_meta s k = Some x" for k x
    using assms(1) that by (auto simp: snapshots_ok_def)
  show ?thesis
    unfolding snapshots_ok_def
  proof (intro conjI allI impI)
    show "dom (snapshot_meta s') = {..<next_snapshot_number s'}"
      using assms(1,5) next' by (auto simp: snapshots_ok_def)
    show "next_snapshot_number s' \<le> fst (message_numbers s')"
      using assms(1,2,6) next' by (simp add: snapshots_ok_def)
    show "fst (message_numbers s') = 0" if "next_snapshot_number s' = 0" using that next' by simp
    show "\<exists>r b. snapshot_meta s' k = Some (r, b, fst (message_numbers s'))" if "next_snapshot_number s' = Suc k" for k
      using that next' assms(5,6) by simp
  next
    fix k r' b' l'
    assume "snapshot_meta s' k = Some (r', b', l')"
    then show "0 < l'" "l' \<le> fst (message_numbers s')"
      using assms(2) old [of k] by (auto simp: assms(5,6) split: if_splits)
  next
    fix k k' r1 b1 l1 r2 b2 l2
    assume "k < k'" "snapshot_meta s' k = Some (r1, b1, l1)" "snapshot_meta s' k' = Some (r2, b2, l2)"
    then show "l1 < l2"
      using assms(2) below [of k'] old [of k] incr [of k k'] by (cases "k' = next_snapshot_number s") (auto simp: assms(5))
  qed
qed

lemma out_inv_finalize:
  assumes "out_inv C s" and "number_of_leaves s < 2 ^ 62"
  shows "out_inv C (on_finalize C b s)" and "number_of_leaves (on_finalize C b s) = number_of_leaves s"
    and "sent_messages (on_finalize C b s) = sent_messages s"
proof -
  let ?s' = "on_finalize C b s"
  show same: "number_of_leaves ?s' = number_of_leaves s" "sent_messages ?s' = sent_messages s"
    by (simp_all add: on_finalize_def Let_def split: prod.splits)
  have "range_ok C ?s' = range_ok C s"
    by (rule range_ok_cong) (simp_all add: on_finalize_def Let_def split: prod.splits)
  moreover have mn: "snd (message_numbers ?s') = snd (message_numbers s)" "fst (message_numbers ?s') \<le> number_of_leaves s"
    using assms(1) by (auto simp: on_finalize_def Let_def out_inv_def split: prod.splits)
  moreover have "snapshots_ok ?s'"
  proof (cases "fst (message_numbers s) < snd (message_numbers s) \<and> maximum_blocks_before_snapshot_reached C b s")
    case True
    have "next_snapshot_number s < 2 ^ 62" using assms by (auto simp: out_inv_def snapshots_ok_def)
    with True assms(1) show ?thesis
      by (intro snapshots_ok_extend [of s "snd (message_numbers s)" ?s' "root_hash s" b])
        (auto simp: out_inv_def on_finalize_def Let_def split: prod.splits)
  next
    case False
    then have "snapshot_meta ?s' = snapshot_meta s" "next_snapshot_number ?s' = next_snapshot_number s" "message_numbers ?s' = message_numbers s"
      by (auto simp: on_finalize_def Let_def split: prod.splits)
    with assms(1) show ?thesis by (simp add: out_inv_def snapshots_ok_def)
  qed
  ultimately show "out_inv C ?s'" using assms(1) same by (simp add: out_inv_def)
qed

lemma accepted_messages_append:
  "accepted_messages C n (as @ bs) = accepted_messages C n as @ accepted_messages C (n + length (accepted_messages C n as)) bs"
  by (induction as arbitrary: n) (simp_all add: Let_def)

lemma length_accepted_messages: "length (accepted_messages C n as) \<le> length as"
  by (induction as arbitrary: n) (simp_all add: Let_def le_SucI)

lemma out_inv_start_block: "out_inv C s \<Longrightarrow> out_inv C (s\<lparr>parent_hash := h\<rparr>)"
  using range_ok_cong [of "s\<lparr>parent_hash := h\<rparr>" s C] by (simp add: out_inv_def snapshots_ok_def)

lemma out_run_inv:
  assumes "out_config_laws C" and "out_inv C s" and "number_of_leaves s + length ops < 2 ^ 62"
  shows "\<exists>s'. out_run C ops s = Some s' \<and> out_inv C s' \<and>
    sent_messages s' = sent_messages s @ accepted_messages C (number_of_leaves s) (sends ops)"
  using assms(2,3)
proof (induction ops arbitrary: s)
  case (Cons op ops)
  then have small: "number_of_leaves s < 2 ^ 62" by simp
  show ?case
  proof (cases op)
    case (StartBlock h)
    with Cons.IH [of "s\<lparr>parent_hash := h\<rparr>"] out_inv_start_block [OF Cons.prems(1)] Cons.prems(2) show ?thesis by auto
  next
    case (Send a)
    obtain s' where s': "out_exec C (Send a) s = Some s'" "out_inv C s'"
      "sent_messages s' = sent_messages s @ accepted_messages C (number_of_leaves s) [a]"
      "number_of_leaves s' = number_of_leaves s + length (accepted_messages C (number_of_leaves s) [a])"
      by (rule out_inv_send [OF assms(1) Cons.prems(1) small])
    have "number_of_leaves s' + length ops < 2 ^ 62"
      using Cons.prems(2) s'(4) length_accepted_messages [of C "number_of_leaves s" "[a]"] by simp
    from Cons.IH [OF s'(2) this] obtain s'' where "out_run C ops s' = Some s''" "out_inv C s''"
      "sent_messages s'' = sent_messages s' @ accepted_messages C (number_of_leaves s') (sends ops)" by blast
    with s' accepted_messages_append [of C "number_of_leaves s" "[a]" "sends ops"] Send show ?thesis
      by (simp del: accepted_messages.simps out_exec.simps)
  next
    case (Finalize b)
    with Cons.IH [OF out_inv_finalize(1) [OF Cons.prems(1) small]] Cons.prems(2)
      out_inv_finalize(2,3) [OF Cons.prems(1) small] show ?thesis by auto
  qed
qed simp

text \<open>
  C33: Sending is total and the mountain range is the reference. Whatever blocks and messages a run
  has (fewer than \<open>2 ^ 62\<close> of them), every call returns; the messages sent are exactly those the encoder
  takes, numbered from 0 in their order; on chain exactly the peaks are stored, each with the hash of the
  mountain over its messages; off chain every node is stored under the key of the leaf that added it; and
  the snapshots are consecutive and cover ever more messages.
\<close>
theorem outgoing_range_correct:
  assumes "out_config_laws C" and "length ops < 2 ^ 62"
  shows "\<exists>s. out_run C ops (out_init root parent env) = Some s \<and> out_inv C s \<and>
    sent_messages s = accepted_messages C 0 (sends ops)"
  using out_run_inv [OF assms(1) out_inv_init, of root parent env ops] assms(2) by (simp add: out_init_def)

section \<open>When a message reaches a snapshot\<close>

text \<open>Blocks numbered from \<open>b\<close>, each with the hash of its parent and the messages sent in it.\<close>

fun block_ops :: "block_number \<Rightarrow> ('b \<times> out_action list) list \<Rightarrow> 'b out_op list" where
  "block_ops b [] = []"
| "block_ops b ((parent, actions) # blocks) =
     StartBlock parent # map Send actions @ Finalize b # block_ops (Suc b) blocks"

fun block_messages :: "('b \<times> out_action list) list \<Rightarrow> nat" where
  "block_messages [] = 0"
| "block_messages ((_, actions) # blocks) = length actions + block_messages blocks"

lemma out_run_append: "out_run C (xs @ ys) s = Option.bind (out_run C xs s) (out_run C ys)"
proof (induction xs arbitrary: s)
  case (Cons x xs)
  then show ?case by (cases "out_exec C x s") simp_all
qed simp

lemma out_run_sends:
  assumes "out_config_laws C" and "out_inv C s" and "number_of_leaves s + length actions < 2 ^ 62"
  shows "\<exists>s'. out_run C (map Send actions) s = Some s' \<and> out_inv C s' \<and>
    number_of_leaves s' = number_of_leaves s + length (accepted_messages C (number_of_leaves s) actions) \<and> fst (message_numbers s') = fst (message_numbers s) \<and>
    next_snapshot_number s' = next_snapshot_number s \<and>
    snapshot_meta s' = snapshot_meta s \<and> first_mmr_block_number s' = first_mmr_block_number s"
  using assms(2,3)
proof (induction actions arbitrary: s)
  case (Cons a actions)
  then have small: "number_of_leaves s < 2 ^ 62" by simp
  obtain s1 where s1: "out_exec C (Send a) s = Some s1" "out_inv C s1"
    "number_of_leaves s1 = number_of_leaves s + length (accepted_messages C (number_of_leaves s) [a])"
    "fst (message_numbers s1) = fst (message_numbers s)" "next_snapshot_number s1 = next_snapshot_number s"
    "snapshot_meta s1 = snapshot_meta s" "first_mmr_block_number s1 = first_mmr_block_number s"
    by (rule out_inv_send [OF assms(1) Cons.prems(1) small])
  have "number_of_leaves s1 + length actions < 2 ^ 62"
    using Cons.prems(2) s1(3) length_accepted_messages [of C "number_of_leaves s" "[a]"] by simp
  with Cons.IH [OF s1(2)] s1 accepted_messages_append [of C "number_of_leaves s" "[a]" actions] show ?case
    by (auto simp del: accepted_messages.simps out_exec.simps)
qed simp

text \<open>
  Message numbers below \<open>m\<close> were sent by the end of block \<open>b\<close>: they are in a snapshot, or no snapshot
  was taken since the start of \<open>b\<close>.
\<close>

definition awaited :: "block_number \<Rightarrow> u64 \<Rightarrow> ('h, 'b, 'env) out_state \<Rightarrow> bool" where
  "awaited b m s \<longleftrightarrow> m \<le> fst (message_numbers s) \<or>
     (\<forall>k r c l. snapshot_meta s k = Some (r, c, l) \<longrightarrow> c < b) \<and> (\<exists>f\<le>b. first_mmr_block_number s = Some f)"

lemma snapshot_due:
  assumes "awaited b m s" and "\<not> m \<le> fst (message_numbers s)" and "b + MaximumBlocksBeforeSnapshot C \<le> c"
  shows "maximum_blocks_before_snapshot_reached C c s"
proof -
  obtain f where f: "first_mmr_block_number s = Some f" "f \<le> b" using assms(1,2) by (auto simp: awaited_def)
  show ?thesis
  proof (cases "snapshot_meta s (next_snapshot_number s - 1)")
    case None
    with f assms(3) show ?thesis by (simp add: maximum_blocks_before_snapshot_reached_def)
  next
    case (Some x)
    then obtain r d l where x: "snapshot_meta s (next_snapshot_number s - 1) = Some (r, d, l)" by (cases x) auto
    then have "d < b" using assms(1,2) by (auto simp: awaited_def)
    with x f assms(3) show ?thesis by (simp add: maximum_blocks_before_snapshot_reached_def)
  qed
qed

lemma on_finalize_taken:
  assumes "fst (message_numbers s) < snd (message_numbers s)" and "maximum_blocks_before_snapshot_reached C c s"
  shows "fst (message_numbers (on_finalize C c s)) = snd (message_numbers s)"
  using assms by (auto simp: on_finalize_def Let_def split: prod.splits)

lemma on_finalize_not_taken:
  assumes "\<not> (fst (message_numbers s) < snd (message_numbers s) \<and> maximum_blocks_before_snapshot_reached C c s)"
  shows "message_numbers (on_finalize C c s) = message_numbers s" "snapshot_meta (on_finalize C c s) = snapshot_meta s"
    "first_mmr_block_number (on_finalize C c s) = Some (unwrap_or (first_mmr_block_number s) c)"
  using assms by (auto simp: on_finalize_def Let_def split: prod.splits option.splits)

lemma on_finalize_awaited:
  assumes "out_inv C s" and "m \<le> number_of_leaves s" and "awaited b m s"
  shows "awaited b m (on_finalize C c s)"
    and "b + MaximumBlocksBeforeSnapshot C \<le> c \<Longrightarrow> m \<le> fst (message_numbers (on_finalize C c s))"
proof -
  let ?taken = "fst (message_numbers s) < snd (message_numbers s) \<and> maximum_blocks_before_snapshot_reached C c s"
  have n: "snd (message_numbers s) = number_of_leaves s" using assms(1) by (simp add: out_inv_def)
  show "awaited b m (on_finalize C c s)"
  proof (cases ?taken)
    case True
    with assms(2) n show ?thesis by (simp add: awaited_def on_finalize_taken)
  next
    case False
    with assms(3) on_finalize_not_taken [OF False] show ?thesis by (auto simp: awaited_def)
  qed
  assume late: "b + MaximumBlocksBeforeSnapshot C \<le> c"
  show "m \<le> fst (message_numbers (on_finalize C c s))"
  proof (cases ?taken)
    case True
    with assms(2) n show ?thesis by (simp add: on_finalize_taken)
  next
    case False
    with snapshot_due [OF assms(3) _ late] assms(2) n show ?thesis
      using on_finalize_not_taken(1) [OF False] by fastforce
  qed
qed

lemma run_block:
  assumes "out_config_laws C" and "out_inv C s" and "number_of_leaves s + length actions < 2 ^ 62"
  obtains s1 where "out_run C (StartBlock h # map Send actions @ [Finalize c]) s = Some (on_finalize C c s1)"
    "out_inv C s1" "out_inv C (on_finalize C c s1)"
    "number_of_leaves s1 = number_of_leaves s + length (accepted_messages C (number_of_leaves s) actions)"
    "number_of_leaves (on_finalize C c s1) = number_of_leaves s1"
    "fst (message_numbers s1) = fst (message_numbers s)" "snapshot_meta s1 = snapshot_meta s"
    "first_mmr_block_number s1 = first_mmr_block_number s"
proof -
  obtain s1 where s1: "out_run C (map Send actions) (s\<lparr>parent_hash := h\<rparr>) = Some s1" "out_inv C s1"
    "number_of_leaves s1 = number_of_leaves s + length (accepted_messages C (number_of_leaves s) actions)" "fst (message_numbers s1) = fst (message_numbers s)"
    "snapshot_meta s1 = snapshot_meta s" "first_mmr_block_number s1 = first_mmr_block_number s"
    using out_run_sends [OF assms(1) out_inv_start_block [OF assms(2)], of h actions] assms(3) by auto
  with out_inv_finalize [OF s1(2), of c] assms(3) length_accepted_messages [of C "number_of_leaves s" actions] show thesis
    by (intro that [of s1]) (simp_all add: out_run_append)
qed

lemma out_run_block:
  assumes "out_run C (StartBlock h # map Send actions @ [Finalize b]) s = Some s1"
  shows "out_run C (block_ops b ((h, actions) # blocks)) s = out_run C (block_ops (Suc b) blocks) s1"
proof -
  have "block_ops b ((h, actions) # blocks) = (StartBlock h # map Send actions @ [Finalize b]) @ block_ops (Suc b) blocks"
    by simp
  then show ?thesis by (simp only: out_run_append assms bind.simps)
qed

lemma run_blocks_awaited:
  assumes "out_config_laws C" and "out_inv C s" and "number_of_leaves s + block_messages blocks < 2 ^ 62"
    and "m \<le> number_of_leaves s" and "awaited b m s"
  shows "\<exists>s'. out_run C (block_ops c blocks) s = Some s' \<and> out_inv C s' \<and> awaited b m s' \<and>
    (blocks \<noteq> [] \<longrightarrow> b + MaximumBlocksBeforeSnapshot C < c + length blocks \<longrightarrow> m \<le> fst (message_numbers s'))"
  using assms(2-)
proof (induction blocks arbitrary: s c)
  case (Cons block blocks)
  obtain h actions where block: "block = (h, actions)" by (cases block) auto
  have "number_of_leaves s + length actions < 2 ^ 62" using Cons.prems(2) block by simp
  from run_block [OF assms(1) Cons.prems(1) this, of h c] obtain s1 where s1:
    "out_run C (StartBlock h # map Send actions @ [Finalize c]) s = Some (on_finalize C c s1)"
    "out_inv C s1" "out_inv C (on_finalize C c s1)"
    "number_of_leaves s1 = number_of_leaves s + length (accepted_messages C (number_of_leaves s) actions)"
    "number_of_leaves (on_finalize C c s1) = number_of_leaves s1"
    "fst (message_numbers s1) = fst (message_numbers s)" "snapshot_meta s1 = snapshot_meta s"
    "first_mmr_block_number s1 = first_mmr_block_number s" by metis
  have aw: "awaited b m s1" using Cons.prems(4) s1 by (simp add: awaited_def)
  have le: "m \<le> number_of_leaves s1" using Cons.prems(3) s1(4) by simp
  note fin = on_finalize_awaited [OF s1(2) le aw, of c]
  have few: "number_of_leaves (on_finalize C c s1) + block_messages blocks < 2 ^ 62"
    using Cons.prems(2) s1(4,5) block length_accepted_messages [of C "number_of_leaves s" actions] by simp
  show ?case
  proof (cases "blocks = []")
    case True
    with s1(3) fin show ?thesis unfolding block out_run_block [OF s1(1)] by auto
  next
    case False
    with Cons.IH [OF s1(3) few _ fin(1), of "Suc c"] le s1(5) show ?thesis
      unfolding block out_run_block [OF s1(1)] by auto
  qed
qed simp

text \<open>
  C34: A message is in a snapshot in time, as the documentation of
  \<open>MaximumBlocksBeforeSnapshot\<close> promises. From a state of the invariant whose
  snapshots were taken before block \<open>b\<close>, run block \<open>b\<close> and the
  \<open>MaximumBlocksBeforeSnapshot\<close> blocks after it, with any messages: every message
  accepted by the end of block \<open>b\<close> is then covered by a snapshot. The very first
  block only records its number, so in it a maximum of 0 would not do.
\<close>
theorem snapshot_in_time:
  assumes "out_config_laws C" and "out_inv C s"
    and "number_of_leaves s + block_messages ((h, actions) # blocks) < 2 ^ 62"
    and "length blocks = MaximumBlocksBeforeSnapshot C"
    and "\<forall>k r c l. snapshot_meta s k = Some (r, c, l) \<longrightarrow> c < b"
    and "case first_mmr_block_number s of Some f \<Rightarrow> f \<le> b | None \<Rightarrow> 0 < MaximumBlocksBeforeSnapshot C"
    and "m = number_of_leaves s + length (accepted_messages C (number_of_leaves s) actions)" and "0 < m"
  shows "\<exists>s' k r c l. out_run C (block_ops b ((h, actions) # blocks)) s = Some s' \<and>
    snapshot_meta s' k = Some (r, c, l) \<and> m \<le> l"
proof -
  have "number_of_leaves s + length actions < 2 ^ 62" using assms(3) by simp
  from run_block [OF assms(1,2) this, of h b] obtain s1 where s1:
    "out_run C (StartBlock h # map Send actions @ [Finalize b]) s = Some (on_finalize C b s1)"
    "out_inv C s1" "out_inv C (on_finalize C b s1)" "number_of_leaves s1 = m"
    "number_of_leaves (on_finalize C b s1) = number_of_leaves s1" "snapshot_meta s1 = snapshot_meta s"
    "first_mmr_block_number s1 = first_mmr_block_number s" unfolding assms(7) by metis
  have few: "number_of_leaves (on_finalize C b s1) + block_messages blocks < 2 ^ 62"
    using assms(3,7) s1(4,5) length_accepted_messages [of C "number_of_leaves s" actions] by simp
  have aw: "awaited b m (on_finalize C b s1) \<and> (blocks = [] \<longrightarrow> m \<le> fst (message_numbers (on_finalize C b s1)))"
  proof (cases "first_mmr_block_number s")
    case (Some f)
    then have "awaited b m s1" using assms(5,6) s1 by (auto simp: awaited_def)
    with on_finalize_awaited [OF s1(2) _ this, of b] s1(4) assms(4) show ?thesis by auto
  next
    case None
    with s1(7) have "\<not> maximum_blocks_before_snapshot_reached C b s1"
      by (simp add: maximum_blocks_before_snapshot_reached_def)
    then show ?thesis
      using on_finalize_not_taken [of s1 C b] None assms(4-6) s1 by (auto simp: awaited_def)
  qed
  then obtain s' where s': "out_run C (block_ops (Suc b) blocks) (on_finalize C b s1) = Some s'" "out_inv C s'"
      "m \<le> fst (message_numbers s')"
    using run_blocks_awaited [OF assms(1) s1(3) few, of m b "Suc b"] assms(4) s1(4,5) by (cases "blocks = []") auto
  have "next_snapshot_number s' \<noteq> 0" using s'(2,3) assms(8) by (auto simp: out_inv_def snapshots_ok_def)
  then obtain k where "next_snapshot_number s' = Suc k" using not0_implies_Suc by blast
  with s'(2) obtain r c where "snapshot_meta s' k = Some (r, c, fst (message_numbers s'))"
    by (auto simp: out_inv_def snapshots_ok_def)
  with s' out_run_block [OF s1(1)] show ?thesis by metis
qed

section \<open>Proofs for the target chain\<close>

lemma offchain_node:
  assumes "out_config_laws C" and "out_inv C s" and "number_of_leaves s \<le> 2 ^ 62" and "j < number_of_leaves s"
    and "k \<le> trailing_ones j"
  shows "offchain_get_elem C s (mmr_size j + k) = Inr (Some (node_at C (sent_messages s) j k))"
proof -
  obtain h u where "leaf_meta s j = Some (h, u)"
      "offchain_db s (temp_key C (mmr_size j + k) h u) = Some (encode_node C (node_at C (sent_messages s) j k))"
    using assms(2,4,5) unfolding out_inv_def range_ok_def Let_def by blast
  moreover have "offchain_db s (canon_key C (mmr_size j + k)) = None"
    using assms(2) by (simp add: out_inv_def range_ok_def Let_def)
  moreover have "leaf_index_that_added_node (helper C) (mmr_size j + k) = j"
    using assms by (intro leaf_added_node) (auto simp: out_config_laws_def)
  ultimately show ?thesis using assms(1) by (simp add: offchain_get_elem_def out_config_laws_def)
qed

text \<open>The range of messages that a proof covers: \<open>[a ..< proof_end mx a l]\<close>.\<close>

definition proof_end :: "u64 option \<Rightarrow> u64 \<Rightarrow> u64 \<Rightarrow> u64" where
  "proof_end mx a l = (case mx of None \<Rightarrow> l | Some x \<Rightarrow> min l (a + x))"

lemma ok_projr: "is_ok r \<Longrightarrow> r = Inr (projr r)"
  by (cases r) simp_all

lemma collect_r_ok: "(\<And>x. x \<in> set xs \<Longrightarrow> f x = Inr (g x)) \<Longrightarrow> collect_r f xs = Inr (map g xs)"
  using collect_r_map [of xs f id g] by simp

lemma generate_proof_spec:
  assumes "out_config_laws C" and "out_inv C s" and "number_of_leaves s \<le> 2 ^ 62"
    and "snapshot_meta s k = Some (r, b, l)" and "a < e" and "e = proof_end mx a l"
    and "case mx of None \<Rightarrow> True | Some x \<Rightarrow> a + x < 2 ^ 64"
  shows "generate_proof C a mx k s =
    (case bind_r (lib_gen_proof (mmr C) (merger C) (offchain_get_elem C s) (mmr_size e) (map mmr_size [a ..< e]))
        (collect_r (hash_node C)) of
       Inl _ \<Rightarrow> Inl GenerateProof
     | Inr hashes \<Rightarrow> Inr (Some (map (\<lambda>i. sent_messages s ! i) [a ..< e],
         \<lparr>leaf_indices = [a ..< e], leaf_count = e, proof_items = hashes\<rparr>)))"
proof -
  have l: "l \<le> number_of_leaves s" and el: "e \<le> l"
    using assms(2,4,6) unfolding out_inv_def snapshots_ok_def by (force, auto simp: proof_end_def split: option.splits)
  have end': "(case mx of Some maximum \<Rightarrow> min l (wrapping_add 64 a maximum) | None \<Rightarrow> l) = e"
    using assms(6,7) by (auto simp: proof_end_def wrapping_add_exact split: option.splits)
  have pos: "leaf_index_to_pos (helper C) = mmr_size"
    using assms(1) by (auto simp: out_config_laws_def mmr_helper_laws_def)
  have sz: "nodes_size e = mmr_size e" using el l assms(3) by (intro nodes_size_exact) simp
  have "leaf_of_elem (offchain_get_elem C s (mmr_size i)) = Inr (sent_messages s ! i)" if "i \<in> set [a ..< e]" for i
    using offchain_node [OF assms(1-3), of i 0] that l el by (simp add: leaf_of_elem_def node_at_def)
  then have leaves: "collect_r (\<lambda>p. leaf_of_elem (offchain_get_elem C s p)) (map mmr_size [a ..< e]) =
      Inr (map (\<lambda>i. sent_messages s ! i) [a ..< e])"
    by (intro collect_r_map) auto
  have err: "bind_r (map_err (\<lambda>_. GenerateProof) r) (\<lambda>xs. bind_r (map_err (\<lambda>_. GenerateProof) (f xs)) k) =
      (case bind_r r f of Inl _ \<Rightarrow> Inl GenerateProof | Inr y \<Rightarrow> k y)" for r and f :: "_ \<Rightarrow> unit + _" and k
    by (cases r) (auto split: sum.splits simp: map_err_def)
  show ?thesis
    using assms(4,5) el end'
    by (auto simp: generate_proof_def mmr_generate_proof_def mmr_new_def Let_def pos sz leaves err result_simps
        split: sum.splits)
qed

text \<open>
  C35: Proofs for the target chain. For a snapshot over \<open>l\<close> messages,
  \<open>generate_target_chain_proof\<close> from message \<open>a\<close> on does not panic;
  unless the library or the hasher reports an error, it holds exactly the messages from
  \<open>a\<close> to the end of the range, encoded for the target chain, each with its position
  and its index in its mountain. With \<open>maximum_messages\<close> the end \<open>e\<close> lies
  below \<open>l\<close>: the proof is then one for the range of \<open>e\<close> leaves, not for
  the range of \<open>l\<close> leaves that the snapshot's root belongs to.
\<close>
theorem target_chain_proof_spec:
  assumes "out_config_laws C" and "out_inv C s" and "number_of_leaves s < 2 ^ 62"
    and "snapshot_meta s k = Some (r, b, l)" and "a < e" and "e = proof_end mx a l"
    and "case mx of None \<Rightarrow> True | Some x \<Rightarrow> a + x < 2 ^ 64"
  shows "generate_target_chain_proof C a mx k s = Some
    (case bind_r (lib_gen_proof (mmr C) (merger C) (offchain_get_elem C s) (mmr_size e) (map mmr_size [a ..< e]))
        (collect_r (hash_node C)) of
       Inl _ \<Rightarrow> Inl GenerateProof
     | Inr hashes \<Rightarrow> Inr (Some
         \<lparr>tp_leaves = map (\<lambda>i. \<lparr>k_index = mountain_index (peak_heights e) i, position = mmr_size i,
            leaf_message = projr (encode_leaf C (sent_messages s ! i))\<rparr>) [a ..< e],
          tp_mmr_size = mmr_size e, tp_items = hashes\<rparr>))"
proof -
  have el: "e < 2 ^ 62"
    using assms(2,3,4,6) unfolding out_inv_def snapshots_ok_def
    by (fastforce simp: proof_end_def min_def split: option.splits if_splits)
  have H: "mmr_helper_laws (helper C)" using assms(1) by (simp add: out_config_laws_def)
  have pos: "map (leaf_index_to_pos (helper C)) js = map mmr_size js" for js
    using H by (simp add: mmr_helper_laws_def)
  have ks: "node_pos_to_k_index (helper C) (map mmr_size [a ..< e]) (mmr_size e) =
      map (\<lambda>j. (mmr_size j, mountain_index (peak_heights e) j)) [a ..< e]"
    using node_pos_to_k_index_eq [OF H el, of "[a ..< e]"] by (simp add: pos)
  have zips: "zip (zip (map f xs) (map g xs)) (map h xs) = map (\<lambda>x. ((f x, g x), h x)) xs" for f g h and xs :: "nat list"
    by (induction xs) simp_all
  have el': "e \<le> length (sent_messages s)"
    using assms(2,4,6) unfolding out_inv_def snapshots_ok_def range_ok_def Let_def
    by (fastforce simp: proof_end_def min_def split: option.splits if_splits)
  have enc: "bind_r (map_err (\<lambda>_. GenerateProof) (encode_leaf C (sent_messages s ! i))) f =
      f (projr (encode_leaf C (sent_messages s ! i)))" if "i \<in> set [a ..< e]" for i and f :: "bytes \<Rightarrow> _"
  proof -
    have "sent_messages s ! i \<in> set (sent_messages s)" using that el' by simp
    then have "is_ok (encode_leaf C (sent_messages s ! i))"
      using assms(2) by (simp add: out_inv_def range_ok_def Let_def encodable_def)
    then show ?thesis by (subst ok_projr [of "encode_leaf C (sent_messages s ! i)"]) simp_all
  qed
  have tls: "collect_r (\<lambda>((position, _, k), leaf). bind_r (map_err (\<lambda>_. GenerateProof) (encode_leaf C leaf)) (\<lambda>m.
        Inr \<lparr>k_index = k, position = position, leaf_message = m\<rparr>))
      (map (\<lambda>i. ((mmr_size i, mmr_size i, mountain_index (peak_heights e) i), sent_messages s ! i)) [a ..< e]) =
      Inr (map (\<lambda>i. \<lparr>k_index = mountain_index (peak_heights e) i, position = mmr_size i,
        leaf_message = projr (encode_leaf C (sent_messages s ! i))\<rparr>) [a ..< e])"
    by (intro collect_r_map) (simp add: enc)
  show ?thesis
    using generate_proof_spec [OF assms(1,2) less_imp_le [OF assms(3)] assms(4-7)] el
    by (auto simp: generate_target_chain_proof_def Let_def ks pos zips tls nodes_size_exact split: sum.splits)
qed

section \<open>A concrete instance\<close>

text \<open>
  A library that works as described, over hashes that are the bytes themselves, and injective
  encodings.
\<close>

definition demo_bag :: "'h merge \<Rightarrow> 'h get_elem \<Rightarrow> u64 list \<Rightarrow> 'h mmr_node \<Rightarrow> unit + 'h mmr_node" where
  "demo_bag mg get = fold_r (\<lambda>p acc. bind_r (get p) (\<lambda>l. bind_r (ok_or l ()) (\<lambda>left. mg left acc)))"

definition demo_mmr_lib :: "'h mmr_lib" where
  "demo_mmr_lib =
     \<lparr>lib_push = (\<lambda>mg get sz leaf. let n = demo_leaf_of sz sz in
        bind_r (merge_up mg get (take (trailing_ones n) (rev (peak_positions n))) leaf) (\<lambda>xs. Inr (sz, leaf # xs))),
      lib_get_root = (\<lambda>mg get sz batch. let n = demo_leaf_of sz sz in
        demo_bag mg get (drop (trailing_ones n) (rev (peak_positions n))) (last batch)),
      lib_gen_proof = (\<lambda>mg get sz poss. Inr []),
      lib_verify = (\<lambda>mg sz items root data. Inr (root \<in> set items))\<rparr>"

fun demo_encode_key :: "pub_key \<Rightarrow> bytes" where
  "demo_encode_key (SECP256r1 b) = 0 # b"
| "demo_encode_key (SECP256k1 b) = 1 # b"
| "demo_encode_key (ED25519 b) = 2 # b"

fun demo_encode_action :: "out_action \<Rightarrow> bytes" where
  "demo_encode_action (AssignJobAction j key) = 0 # j # demo_encode_key key"
| "demo_encode_action (FinalizeJobAction j amount) = [1, j, amount]"
| "demo_encode_action NoopAction = [2]"

fun demo_encode_node :: "bytes mmr_node \<Rightarrow> bytes" where
  "demo_encode_node (Data m) = 0 # out_id m # demo_encode_action (out_action_of m)"
| "demo_encode_node (Hash h) = 1 # h"

fun demo_decode_key :: "bytes \<Rightarrow> pub_key option" where
  "demo_decode_key [] = None"
| "demo_decode_key (t # b) = (if t = 0 then Some (SECP256r1 b) else if t = 1 then Some (SECP256k1 b)
     else if t = 2 then Some (ED25519 b) else None)"

fun demo_decode_action :: "bytes \<Rightarrow> out_action option" where
  "demo_decode_action (t # b) =
     (if t = 0 then (case b of j # key \<Rightarrow> map_option (AssignJobAction j) (demo_decode_key key) | [] \<Rightarrow> None)
      else if t = 1 then (case b of [j, amount] \<Rightarrow> Some (FinalizeJobAction j amount) | _ \<Rightarrow> None)
      else if b = [] then Some NoopAction else None)"
| "demo_decode_action [] = None"

fun demo_decode_node :: "bytes \<Rightarrow> bytes mmr_node option" where
  "demo_decode_node (t # b) =
     (if t = 1 then Some (Hash b)
      else case b of i # a \<Rightarrow> map_option (\<lambda>x. Data \<lparr>out_id = i, out_action_of = x\<rparr>) (demo_decode_action a) | [] \<Rightarrow> None)"
| "demo_decode_node [] = None"

definition demo_out_config :: "(bytes, unit, unit) out_config" where
  "demo_out_config =
     \<lparr>helper = demo_mmr_helper, mmr = demo_mmr_lib, MaximumBlocksBeforeSnapshot = 2,
      encode_leaf = (\<lambda>m. case out_action_of m of AssignJobAction _ (ED25519 _) \<Rightarrow> Inl () | _ \<Rightarrow> Inr (demo_encode_node (Data m))), hasher = (\<lambda>b. b), as_ref = (\<lambda>b. b), on_new_root = (\<lambda>_ e. e),
      temp_key = (\<lambda>pos _ _. [0, pos]), canon_key = (\<lambda>pos. [1, pos]),
      encode_node = demo_encode_node, decode_node = demo_decode_node\<rparr>"

lemma demo_decode_encode: "demo_decode_node (demo_encode_node x) = Some x"
proof -
  have key: "demo_decode_key (demo_encode_key k) = Some k" for k by (cases k) simp_all
  have action: "demo_decode_action (demo_encode_action a) = Some a" for a by (cases a) (simp_all add: key)
  show ?thesis by (cases x) (simp_all add: action)
qed

lemma demo_bag_ok:
  assumes "\<forall>l\<in>G. \<forall>r\<in>G. \<exists>x\<in>G. mg l r = Inr x" and "\<forall>p\<in>set ps. \<exists>e\<in>G. get p = Inr (Some e)" and "acc \<in> G"
  shows "\<exists>e\<in>G. demo_bag mg get ps acc = Inr e"
  using assms(2,3)
proof (induction ps arbitrary: acc)
  case (Cons p ps)
  then obtain e where "get p = Inr (Some e)" "e \<in> G" by auto
  moreover obtain x where "mg e acc = Inr x" "x \<in> G" using assms(1) \<open>e \<in> G\<close> Cons.prems(2) by blast
  ultimately show ?case using Cons by (simp add: demo_bag_def)
qed (simp add: demo_bag_def)

lemma merge_up_in:
  assumes "\<forall>l\<in>G. \<forall>r\<in>G. \<exists>x\<in>G. mg l r = Inr x" and "\<forall>p\<in>set ps. \<exists>e\<in>G. get p = Inr (Some e)"
    and "merge_up mg get ps e = Inr xs" and "e \<in> G"
  shows "set xs \<subseteq> G"
  using assms(2-)
proof (induction ps arbitrary: e xs)
  case (Cons p ps)
  then obtain l where l: "get p = Inr (Some l)" "l \<in> G" by auto
  then obtain x where x: "mg l e = Inr x" "x \<in> G" using assms(1) Cons.prems(3) by blast
  with Cons.prems l obtain ys where "merge_up mg get ps x = Inr ys" "xs = x # ys" by (auto simp: result_simps)
  with Cons.IH [of x ys] Cons.prems(1) x show ?case by simp
qed simp

lemma demo_mmr_lib_laws: "mmr_lib_laws demo_mmr_lib"
proof -
  have leaves: "demo_leaf_of (mmr_size n) (mmr_size n) = n" for n
    using demo_leaf_of_eq [of 0 n "mmr_size n"] mmr_size_ge(1) [of n] by simp
  have root: "\<exists>e\<in>G. lib_get_root demo_mmr_lib mg get (mmr_size n) xs = Inr e"
    if *: "\<forall>l\<in>G. \<forall>r\<in>G. \<exists>x\<in>G. mg l r = Inr x" "\<forall>p\<in>set (peak_positions n). \<exists>e\<in>G. get p = Inr (Some e)" "leaf \<in> G"
      "lib_push demo_mmr_lib mg get (mmr_size n) leaf = Inr (mmr_size n, xs)" for mg get n leaf xs G
  proof -
    define ps where "ps = rev (peak_positions n)"
    obtain ys where ys: "merge_up mg get (take (trailing_ones n) ps) leaf = Inr ys" "xs = leaf # ys"
      using *(4) by (auto simp: demo_mmr_lib_def leaves Let_def result_simps ps_def)
    have ps: "\<forall>p\<in>set (take k ps). \<exists>e\<in>G. get p = Inr (Some e)" "\<forall>p\<in>set (drop k ps). \<exists>e\<in>G. get p = Inr (Some e)" for k
      using *(2) by (auto simp: ps_def dest: in_set_takeD in_set_dropD)
    then have "set xs \<subseteq> G" using merge_up_in [OF *(1) _ ys(1) *(3)] ys(2) *(3) by simp
    then have "last xs \<in> G" using ys(2) by (metis last_in_set list.distinct(1) subsetD)
    then show ?thesis
      using demo_bag_ok [OF *(1), of "drop (trailing_ones n) ps" get "last xs"] ps
      by (simp add: demo_mmr_lib_def leaves Let_def ps_def)
  qed
  have push: "lib_push demo_mmr_lib mg get (mmr_size n) leaf =
      bind_r (merge_up mg get (take (trailing_ones n) (rev (peak_positions n))) leaf) (\<lambda>xs. Inr (mmr_size n, leaf # xs))"
    for mg get n leaf by (simp add: demo_mmr_lib_def leaves Let_def)
  show ?thesis unfolding mmr_lib_laws_def using push root by blast
qed

lemma demo_out_config_laws: "out_config_laws demo_out_config"
  by (simp add: out_config_laws_def demo_out_config_def demo_mmr_helper_laws demo_mmr_lib_laws demo_decode_encode)

lemma demo_encodable:
  "encodable demo_out_config m \<longleftrightarrow> (case out_action_of m of AssignJobAction _ (ED25519 _) \<Rightarrow> False | _ \<Rightarrow> True)"
  by (simp add: encodable_def demo_out_config_def split: out_action.splits pub_key.splits)

theorem outgoing_range_correct_witness:
  "\<exists>s. out_run demo_out_config [StartBlock (), Send NoopAction, Send (AssignJobAction 1 (ED25519 [])), Send (FinalizeJobAction 7 5), Finalize 1]
     (out_init [] () ()) = Some s \<and> out_inv demo_out_config s \<and>
     sent_messages s = [\<lparr>out_id = 0, out_action_of = NoopAction\<rparr>, \<lparr>out_id = 1, out_action_of = FinalizeJobAction 7 5\<rparr>]"
  using outgoing_range_correct [OF demo_out_config_laws,
      of "[StartBlock (), Send NoopAction, Send (AssignJobAction 1 (ED25519 [])), Send (FinalizeJobAction 7 5), Finalize 1]"
      "[]" "()" "()"]
  by (simp add: Let_def demo_encodable)

theorem snapshot_in_time_witness:
  "\<exists>s' k r c l. out_run demo_out_config
     (block_ops 5 [((), [NoopAction, NoopAction]), ((), []), ((), [FinalizeJobAction 1 2])]) (out_init [] () ()) = Some s' \<and>
     snapshot_meta s' k = Some (r, c, l) \<and> 2 \<le> l"
proof -
  let ?s = "out_init [] () () :: (bytes, unit, unit) out_state"
  have "MaximumBlocksBeforeSnapshot demo_out_config = 2" "number_of_leaves ?s = 0"
      "snapshot_meta ?s = Map.empty" "first_mmr_block_number ?s = None"
    by (simp_all add: demo_out_config_def out_init_def)
  moreover have "2 = number_of_leaves ?s + length (accepted_messages demo_out_config (number_of_leaves ?s) [NoopAction, NoopAction])"
    by (simp add: Let_def demo_encodable out_init_def)
  ultimately show ?thesis
    by (intro snapshot_in_time [OF demo_out_config_laws out_inv_init]) simp_all
qed

text \<open>The state after two messages and a snapshot over them.\<close>

definition demo_out_state :: "(bytes, unit, unit) out_state" where
  "demo_out_state =
     \<lparr>message_numbers = (2, 2), first_mmr_block_number = Some 5, leaf_meta = [0 \<mapsto> ((), []), 1 \<mapsto> ((), [])],
      block_leaf_index = [5 \<mapsto> 2], next_snapshot_number = 1, snapshot_meta = [0 \<mapsto> ([0, 0, 2, 0, 1, 2], 7, 2)],
      root_hash = [0, 0, 2, 0, 1, 2], number_of_leaves = 2, nodes = [2 \<mapsto> [0, 0, 2, 0, 1, 2]], parent_hash = (),
      offchain_db = [[0, 0] \<mapsto> [0, 0, 2], [0, 1] \<mapsto> [0, 1, 2], [0, 2] \<mapsto> [1, 0, 0, 2, 0, 1, 2]],
      sent_messages = [\<lparr>out_id = 0, out_action_of = NoopAction\<rparr>, \<lparr>out_id = 1, out_action_of = NoopAction\<rparr>],
      out_env = ()\<rparr>"

lemma two_leaves: "peak_positions 2 = [2]" "peak_heights 2 = [1]" "trailing_ones 0 = 0" "trailing_ones (Suc 0) = 1"
    "mmr_size (Suc 0) = 1" "peak_heights (Suc 0) = [0]"
  by code_simp+

lemma demo_out_state_inv: "out_inv demo_out_config demo_out_state"
proof -
  have "range_ok demo_out_config demo_out_state"
    by (simp add: range_ok_def Let_def demo_out_state_def demo_out_config_def two_leaves leaf_hash_def hash_for_target_def
        node_at_def less_2_cases_iff le_Suc_eq all_conj_distrib encodable_def)
  moreover have "snapshots_ok demo_out_state"
    by (auto simp: snapshots_ok_def demo_out_state_def split: if_splits)
  ultimately show ?thesis by (simp add: out_inv_def demo_out_state_def upt_rec)
qed

theorem target_chain_proof_spec_witness:
  "\<exists>items. generate_target_chain_proof demo_out_config 0 (Some 1) 0 demo_out_state = Some (Inr (Some
     \<lparr>tp_leaves = [\<lparr>k_index = 0, position = 0, leaf_message = [0, 0, 2]\<rparr>], tp_mmr_size = 1, tp_items = items\<rparr>))"
proof -
  have "lib_gen_proof (mmr demo_out_config) (merger demo_out_config) (offchain_get_elem demo_out_config demo_out_state) (mmr_size 1)
      (map mmr_size [0 ..< 1]) = Inr []"
    by (simp add: demo_out_config_def demo_mmr_lib_def)
  then show ?thesis
    using target_chain_proof_spec [OF demo_out_config_laws demo_out_state_inv, of 0 "[0, 0, 2, 0, 1, 2]" 7 2 0 1 "Some 1"]
    by (simp add: demo_out_state_def proof_end_def two_leaves) (simp add: demo_out_config_def)
qed

end
