(* ===== verification/Attestation_Bounds.thy ===== *)
theory Attestation_Bounds
  imports Attestation_Types
begin

text \<open>
  The conversion of a parsed attestation into the bounded types that are stored:
  \<open>pallets/acurast/common/src/attestation/asn.rs\<close> (the structs of the attestation extension in its
  five layouts) and the \<open>TryFrom\<close> implementations of
  \<open>pallets/acurast/common/src/types/bounded_attestation.rs\<close>.

  ASN.1 is decoded by a library. An integer is an \<open>i64\<close>, a set is the list of its elements, a
  byte string is its bytes and \<open>Option<Null>\<close> is a \<^typ>\<open>unit option\<close>. The one place where the
  conversion itself calls the decoder, for the application identifier, takes it as an argument.
  All errors of the conversions are \<open>()\<close>.
\<close>

section \<open>The attestation extension (asn.rs)\<close>

record asn_root_of_trust_v1v2 =
  r1_verified_boot_key :: bytes
  r1_device_locked :: bool
  r1_verified_boot_state :: int

record asn_root_of_trust =
  rt_verified_boot_key :: bytes
  rt_device_locked :: bool
  rt_verified_boot_state :: int
  rt_verified_boot_hash :: bytes

record asn_attestation_package_info =
  asn_package_name :: bytes
  asn_version :: i64

record asn_attestation_application_id =
  asn_package_infos :: "asn_attestation_package_info list"
  asn_signature_digests :: "bytes list"

record authorization_list_v1 =
  a1_purpose :: "i64 list option"
  a1_algorithm :: "i64 option"
  a1_key_size :: "i64 option"
  a1_digest :: "i64 list option"
  a1_padding :: "i64 list option"
  a1_ec_curve :: "i64 option"
  a1_rsa_public_exponent :: "i64 option"
  a1_rollback_resistance :: "unit option"
  a1_active_date_time :: "i64 option"
  a1_origination_expire_date_time :: "i64 option"
  a1_usage_expire_date_time :: "i64 option"
  a1_no_auth_required :: "unit option"
  a1_user_auth_type :: "i64 option"
  a1_auth_timeout :: "i64 option"
  a1_allow_while_on_body :: "unit option"
  a1_trusted_user_presence_required :: "unit option"
  a1_trusted_confirmation_required :: "unit option"
  a1_unlocked_device_required :: "unit option"
  a1_all_applications :: "unit option"
  a1_application_id :: "bytes option"
  a1_creation_date_time :: "i64 option"
  a1_origin :: "i64 option"
  a1_root_of_trust :: "asn_root_of_trust_v1v2 option"
  a1_os_version :: "i64 option"
  a1_os_patch_level :: "i64 option"

record authorization_list_v2 =
  a2_purpose :: "i64 list option"
  a2_algorithm :: "i64 option"
  a2_key_size :: "i64 option"
  a2_digest :: "i64 list option"
  a2_padding :: "i64 list option"
  a2_ec_curve :: "i64 option"
  a2_rsa_public_exponent :: "i64 option"
  a2_rollback_resistance :: "unit option"
  a2_active_date_time :: "i64 option"
  a2_origination_expire_date_time :: "i64 option"
  a2_usage_expire_date_time :: "i64 option"
  a2_no_auth_required :: "unit option"
  a2_user_auth_type :: "i64 option"
  a2_auth_timeout :: "i64 option"
  a2_allow_while_on_body :: "unit option"
  a2_trusted_user_presence_required :: "unit option"
  a2_trusted_confirmation_required :: "unit option"
  a2_unlocked_device_required :: "unit option"
  a2_all_applications :: "unit option"
  a2_application_id :: "bytes option"
  a2_creation_date_time :: "i64 option"
  a2_origin :: "i64 option"
  a2_root_of_trust :: "asn_root_of_trust_v1v2 option"
  a2_os_version :: "i64 option"
  a2_os_patch_level :: "i64 option"
  a2_attestation_application_id :: "bytes option"
  a2_attestation_id_brand :: "bytes option"
  a2_attestation_id_device :: "bytes option"
  a2_attestation_id_product :: "bytes option"
  a2_attestation_id_serial :: "bytes option"
  a2_attestation_id_imei :: "bytes option"
  a2_attestation_id_meid :: "bytes option"
  a2_attestation_id_manufacturer :: "bytes option"
  a2_attestation_id_model :: "bytes option"

record authorization_list_v3 =
  a3_purpose :: "i64 list option"
  a3_algorithm :: "i64 option"
  a3_key_size :: "i64 option"
  a3_digest :: "i64 list option"
  a3_padding :: "i64 list option"
  a3_ec_curve :: "i64 option"
  a3_rsa_public_exponent :: "i64 option"
  a3_rollback_resistance :: "unit option"
  a3_active_date_time :: "i64 option"
  a3_origination_expire_date_time :: "i64 option"
  a3_usage_expire_date_time :: "i64 option"
  a3_no_auth_required :: "unit option"
  a3_user_auth_type :: "i64 option"
  a3_auth_timeout :: "i64 option"
  a3_allow_while_on_body :: "unit option"
  a3_all_applications :: "unit option"
  a3_application_id :: "bytes option"
  a3_creation_date_time :: "i64 option"
  a3_origin :: "i64 option"
  a3_root_of_trust :: "asn_root_of_trust option"
  a3_os_version :: "i64 option"
  a3_os_patch_level :: "i64 option"
  a3_attestation_application_id :: "bytes option"
  a3_attestation_id_brand :: "bytes option"
  a3_attestation_id_device :: "bytes option"
  a3_attestation_id_product :: "bytes option"
  a3_attestation_id_serial :: "bytes option"
  a3_attestation_id_imei :: "bytes option"
  a3_attestation_id_meid :: "bytes option"
  a3_attestation_id_manufacturer :: "bytes option"
  a3_attestation_id_model :: "bytes option"
  a3_vendor_patch_level :: "i64 option"
  a3_boot_patch_level :: "i64 option"

record authorization_list_v4 =
  a4_purpose :: "i64 list option"
  a4_algorithm :: "i64 option"
  a4_key_size :: "i64 option"
  a4_digest :: "i64 list option"
  a4_padding :: "i64 list option"
  a4_ec_curve :: "i64 option"
  a4_rsa_public_exponent :: "i64 option"
  a4_rollback_resistance :: "unit option"
  a4_early_boot_only :: "unit option"
  a4_active_date_time :: "i64 option"
  a4_origination_expire_date_time :: "i64 option"
  a4_usage_expire_date_time :: "i64 option"
  a4_no_auth_required :: "unit option"
  a4_user_auth_type :: "i64 option"
  a4_auth_timeout :: "i64 option"
  a4_allow_while_on_body :: "unit option"
  a4_trusted_user_presence_required :: "unit option"
  a4_trusted_confirmation_required :: "unit option"
  a4_unlocked_device_required :: "unit option"
  a4_all_applications :: "unit option"
  a4_application_id :: "bytes option"
  a4_creation_date_time :: "i64 option"
  a4_origin :: "i64 option"
  a4_root_of_trust :: "asn_root_of_trust option"
  a4_os_version :: "i64 option"
  a4_os_patch_level :: "i64 option"
  a4_attestation_application_id :: "bytes option"
  a4_attestation_id_brand :: "bytes option"
  a4_attestation_id_device :: "bytes option"
  a4_attestation_id_product :: "bytes option"
  a4_attestation_id_serial :: "bytes option"
  a4_attestation_id_imei :: "bytes option"
  a4_attestation_id_meid :: "bytes option"
  a4_attestation_id_manufacturer :: "bytes option"
  a4_attestation_id_model :: "bytes option"
  a4_vendor_patch_level :: "i64 option"
  a4_boot_patch_level :: "i64 option"
  a4_device_unique_attestation :: "unit option"

record authorization_list_key_mint =
  km_purpose :: "i64 list option"
  km_algorithm :: "i64 option"
  km_key_size :: "i64 option"
  km_digest :: "i64 list option"
  km_padding :: "i64 list option"
  km_ec_curve :: "i64 option"
  km_rsa_public_exponent :: "i64 option"
  km_mgf_digest :: "i64 list option"
  km_rollback_resistance :: "unit option"
  km_early_boot_only :: "unit option"
  km_active_date_time :: "i64 option"
  km_origination_expire_date_time :: "i64 option"
  km_usage_expire_date_time :: "i64 option"
  km_usage_count_limit :: "i64 option"
  km_no_auth_required :: "unit option"
  km_user_auth_type :: "i64 option"
  km_auth_timeout :: "i64 option"
  km_allow_while_on_body :: "unit option"
  km_trusted_user_presence_required :: "unit option"
  km_trusted_confirmation_required :: "unit option"
  km_unlocked_device_required :: "unit option"
  km_creation_date_time :: "i64 option"
  km_origin :: "i64 option"
  km_root_of_trust :: "asn_root_of_trust option"
  km_os_version :: "i64 option"
  km_os_patch_level :: "i64 option"
  km_attestation_application_id :: "bytes option"
  km_attestation_id_brand :: "bytes option"
  km_attestation_id_device :: "bytes option"
  km_attestation_id_product :: "bytes option"
  km_attestation_id_serial :: "bytes option"
  km_attestation_id_imei :: "bytes option"
  km_attestation_id_meid :: "bytes option"
  km_attestation_id_manufacturer :: "bytes option"
  km_attestation_id_model :: "bytes option"
  km_vendor_patch_level :: "i64 option"
  km_boot_patch_level :: "i64 option"
  km_device_unique_attestation :: "unit option"

text \<open>The five structs \<open>KeyDescription*\<close> differ in the type of the two authorization lists only.\<close>

record 'al asn_key_description =
  kd_attestation_version :: i64
  kd_attestation_security_level :: int
  kd_key_mint_version :: i64
  kd_key_mint_security_level :: int
  kd_attestation_challenge :: bytes
  kd_unique_id :: bytes
  kd_software_enforced :: 'al
  kd_tee_enforced :: 'al

type_synonym key_description_v1 = "authorization_list_v1 asn_key_description"
type_synonym key_description_v2 = "authorization_list_v2 asn_key_description"
type_synonym key_description_v3 = "authorization_list_v3 asn_key_description"
type_synonym key_description_v4 = "authorization_list_v4 asn_key_description"
type_synonym key_description_key_mint = "authorization_list_key_mint asn_key_description"

datatype asn_description =
    V1 key_description_v1
  | V2 key_description_v2
  | V3 key_description_v3
  | V4 key_description_v4
  | V100 key_description_key_mint
  | V200 key_description_key_mint
  | V300 key_description_key_mint

section \<open>Bounds\<close>

definition PURPOSE_MAX_LENGTH :: u32 where "PURPOSE_MAX_LENGTH = 50"
definition DIGEST_MAX_LENGTH :: u32 where "DIGEST_MAX_LENGTH = 32"
definition PADDING_MAX_LENGTH :: u32 where "PADDING_MAX_LENGTH = 32"
definition MGF_DIGEST_MAX_LENGTH :: u32 where "MGF_DIGEST_MAX_LENGTH = 32"
definition VERIFIED_BOOT_KEY_MAX_LENGTH :: u32 where "VERIFIED_BOOT_KEY_MAX_LENGTH = 32"
definition VERIFIED_BOOT_HASH_MAX_LENGTH :: u32 where "VERIFIED_BOOT_HASH_MAX_LENGTH = 32"
definition ATTESTATION_ID_MAX_LENGTH :: u32 where "ATTESTATION_ID_MAX_LENGTH = 256"
definition PACKAGE_NAME_MAX_LENGTH :: u32 where "PACKAGE_NAME_MAX_LENGTH = 128"
definition SIGNATURE_DIGEST_SET_MAX_LENGTH :: u32 where "SIGNATURE_DIGEST_SET_MAX_LENGTH = 16"
definition PACKAGE_INFO_SET_MAX_LENGTH :: u32 where "PACKAGE_INFO_SET_MAX_LENGTH = 16"

text \<open>\<open>BoundedVec::try_from\<close>, \<open>TryFrom<i64>\<close> for unsigned integers, and \<open>Option::transpose\<close>.\<close>

definition try_bytes :: "u32 \<Rightarrow> 'a list \<Rightarrow> unit + 'a list" where
  "try_bytes n xs = (if length xs \<le> n then Inr xs else Inl ())"

definition try_unsigned :: "nat \<Rightarrow> i64 \<Rightarrow> unit + nat" where
  "try_unsigned w v = (if 0 \<le> v \<and> v < 2 ^ w then Inr (nat v) else Inl ())"

fun transpose :: "('a \<Rightarrow> 'e + 'b) \<Rightarrow> 'a option \<Rightarrow> 'e + 'b option" where
  "transpose f None = Inr None"
| "transpose f (Some x) = bind_r (f x) (\<lambda>y. Inr (Some y))"

definition try_bound :: "nat \<Rightarrow> i64 option \<Rightarrow> unit + nat option" where
  "try_bound w v = transpose (try_unsigned w) v"

definition try_bound_set :: "nat \<Rightarrow> u32 \<Rightarrow> i64 list option \<Rightarrow> unit + nat list option" where
  "try_bound_set w n v =
     bind_r (transpose (collect_r (try_unsigned w)) v) (transpose (try_bytes n))"

section \<open>Root of trust and application identifier\<close>

definition root_of_trust_v1v2_try_from :: "asn_root_of_trust_v1v2 \<Rightarrow> unit + bounded_root_of_trust" where
  "root_of_trust_v1v2_try_from d =
     bind_r (try_bytes VERIFIED_BOOT_KEY_MAX_LENGTH (r1_verified_boot_key d)) (\<lambda>key.
     Inr \<lparr>verified_boot_key = key, device_locked = r1_device_locked d,
          boot_state = verified_boot_state_of (r1_verified_boot_state d), verified_boot_hash = None\<rparr>)"

definition root_of_trust_try_from :: "asn_root_of_trust \<Rightarrow> unit + bounded_root_of_trust" where
  "root_of_trust_try_from d =
     bind_r (try_bytes VERIFIED_BOOT_KEY_MAX_LENGTH (rt_verified_boot_key d)) (\<lambda>key.
     bind_r (try_bytes VERIFIED_BOOT_HASH_MAX_LENGTH (rt_verified_boot_hash d)) (\<lambda>h.
     Inr \<lparr>verified_boot_key = key, device_locked = rt_device_locked d,
          boot_state = verified_boot_state_of (rt_verified_boot_state d), verified_boot_hash = Some h\<rparr>))"

definition package_info_try_from :: "asn_attestation_package_info \<Rightarrow> unit + bounded_attestation_package_info" where
  "package_info_try_from d =
     bind_r (try_bytes PACKAGE_NAME_MAX_LENGTH (asn_package_name d)) (\<lambda>name.
     Inr \<lparr>package_name = name, package_version = asn_version d\<rparr>)"

definition application_id_try_from :: "asn_attestation_application_id \<Rightarrow> unit + bounded_attestation_application_id" where
  "application_id_try_from d =
     bind_r (bind_r (collect_r package_info_try_from (asn_package_infos d)) (try_bytes PACKAGE_INFO_SET_MAX_LENGTH)) (\<lambda>infos.
     bind_r (bind_r (collect_r (try_bytes DIGEST_MAX_LENGTH) (asn_signature_digests d))
               (try_bytes SIGNATURE_DIGEST_SET_MAX_LENGTH)) (\<lambda>digests.
     Inr \<lparr>package_infos = infos, signature_digests = digests\<rparr>))"

definition parse_application_id ::
  "(bytes \<Rightarrow> asn_attestation_application_id option) \<Rightarrow> bytes \<Rightarrow> unit + bounded_attestation_application_id" where
  "parse_application_id parse bytes = bind_r (ok_or (parse bytes) ()) application_id_try_from"

section \<open>Authorization lists\<close>

definition authorization_list_v1_try_from ::
  "(bytes \<Rightarrow> asn_attestation_application_id option) \<Rightarrow> authorization_list_v1 \<Rightarrow> unit + bounded_authorization_list" where
  "authorization_list_v1_try_from parse d =
     bind_r (try_bound_set 8 PURPOSE_MAX_LENGTH (a1_purpose d)) (\<lambda>purpose.
     bind_r (try_bound 8 (a1_algorithm d)) (\<lambda>algorithm.
     bind_r (try_bound 16 (a1_key_size d)) (\<lambda>key_size.
     bind_r (try_bound_set 8 DIGEST_MAX_LENGTH (a1_digest d)) (\<lambda>digest.
     bind_r (try_bound_set 8 PADDING_MAX_LENGTH (a1_padding d)) (\<lambda>padding.
     bind_r (try_bound 8 (a1_ec_curve d)) (\<lambda>ec_curve.
     bind_r (try_bound 64 (a1_rsa_public_exponent d)) (\<lambda>rsa_public_exponent.
     bind_r (try_bound 64 (a1_active_date_time d)) (\<lambda>active_date_time.
     bind_r (try_bound 64 (a1_origination_expire_date_time d)) (\<lambda>origination_expire_date_time.
     bind_r (try_bound 64 (a1_usage_expire_date_time d)) (\<lambda>usage_expire_date_time.
     bind_r (try_bound 8 (a1_user_auth_type d)) (\<lambda>user_auth_type.
     bind_r (try_bound 32 (a1_user_auth_type d)) (\<lambda>auth_timeout.
     bind_r (transpose (try_bytes ATTESTATION_ID_MAX_LENGTH) (a1_application_id d)) (\<lambda>application_id.
     bind_r (try_bound 64 (a1_creation_date_time d)) (\<lambda>creation_date_time.
     bind_r (try_bound 8 (a1_origin d)) (\<lambda>origin.
     bind_r (transpose root_of_trust_v1v2_try_from (a1_root_of_trust d)) (\<lambda>root_of_trust.
     bind_r (try_bound 32 (a1_os_version d)) (\<lambda>os_version.
     bind_r (try_bound 32 (a1_os_patch_level d)) (\<lambda>os_patch_level.
     Inr \<lparr>al_purpose = purpose, al_algorithm = algorithm, al_key_size = key_size, al_digest = digest,
          al_padding = padding, al_ec_curve = ec_curve, al_rsa_public_exponent = rsa_public_exponent,
          al_mgf_digest = None, al_rollback_resistance = Some (a1_rollback_resistance d \<noteq> None),
          al_early_boot_only = None, al_active_date_time = active_date_time,
          al_origination_expire_date_time = origination_expire_date_time,
          al_usage_expire_date_time = usage_expire_date_time, al_usage_count_limit = None,
          al_no_auth_required = (a1_no_auth_required d \<noteq> None), al_user_auth_type = user_auth_type,
          al_auth_timeout = auth_timeout, al_allow_while_on_body = (a1_allow_while_on_body d \<noteq> None),
          al_trusted_user_presence_required = None, al_trusted_confirmation_required = None,
          al_unlocked_device_required = None,
          al_all_applications = Some (a1_all_applications d \<noteq> None),
          al_application_id = application_id, al_creation_date_time = creation_date_time,
          al_origin = origin, al_root_of_trust = root_of_trust, al_os_version = os_version,
          al_os_patch_level = os_patch_level, al_attestation_application_id = None,
          al_attestation_id_brand = None, al_attestation_id_device = None, al_attestation_id_product = None,
          al_attestation_id_serial = None, al_attestation_id_imei = None, al_attestation_id_meid = None,
          al_attestation_id_manufacturer = None, al_attestation_id_model = None,
          al_vendor_patch_level = None, al_boot_patch_level = None, al_device_unique_attestation = None\<rparr>))))))))))))))))))"

definition authorization_list_v2_try_from ::
  "(bytes \<Rightarrow> asn_attestation_application_id option) \<Rightarrow> authorization_list_v2 \<Rightarrow> unit + bounded_authorization_list" where
  "authorization_list_v2_try_from parse d =
     bind_r (try_bound_set 8 PURPOSE_MAX_LENGTH (a2_purpose d)) (\<lambda>purpose.
     bind_r (try_bound 8 (a2_algorithm d)) (\<lambda>algorithm.
     bind_r (try_bound 16 (a2_key_size d)) (\<lambda>key_size.
     bind_r (try_bound_set 8 DIGEST_MAX_LENGTH (a2_digest d)) (\<lambda>digest.
     bind_r (try_bound_set 8 PADDING_MAX_LENGTH (a2_padding d)) (\<lambda>padding.
     bind_r (try_bound 8 (a2_ec_curve d)) (\<lambda>ec_curve.
     bind_r (try_bound 64 (a2_rsa_public_exponent d)) (\<lambda>rsa_public_exponent.
     bind_r (try_bound 64 (a2_active_date_time d)) (\<lambda>active_date_time.
     bind_r (try_bound 64 (a2_origination_expire_date_time d)) (\<lambda>origination_expire_date_time.
     bind_r (try_bound 64 (a2_usage_expire_date_time d)) (\<lambda>usage_expire_date_time.
     bind_r (try_bound 8 (a2_user_auth_type d)) (\<lambda>user_auth_type.
     bind_r (try_bound 32 (a2_user_auth_type d)) (\<lambda>auth_timeout.
     bind_r (transpose (try_bytes ATTESTATION_ID_MAX_LENGTH) (a2_application_id d)) (\<lambda>application_id.
     bind_r (try_bound 64 (a2_creation_date_time d)) (\<lambda>creation_date_time.
     bind_r (try_bound 8 (a2_origin d)) (\<lambda>origin.
     bind_r (transpose root_of_trust_v1v2_try_from (a2_root_of_trust d)) (\<lambda>root_of_trust.
     bind_r (try_bound 32 (a2_os_version d)) (\<lambda>os_version.
     bind_r (try_bound 32 (a2_os_patch_level d)) (\<lambda>os_patch_level.
     bind_r (transpose (parse_application_id parse) (a2_attestation_application_id d)) (\<lambda>attestation_application_id.
     bind_r (transpose (try_bytes ATTESTATION_ID_MAX_LENGTH) (a2_attestation_id_brand d)) (\<lambda>attestation_id_brand.
     bind_r (transpose (try_bytes ATTESTATION_ID_MAX_LENGTH) (a2_attestation_id_device d)) (\<lambda>attestation_id_device.
     bind_r (transpose (try_bytes ATTESTATION_ID_MAX_LENGTH) (a2_attestation_id_product d)) (\<lambda>attestation_id_product.
     bind_r (transpose (try_bytes ATTESTATION_ID_MAX_LENGTH) (a2_attestation_id_serial d)) (\<lambda>attestation_id_serial.
     bind_r (transpose (try_bytes ATTESTATION_ID_MAX_LENGTH) (a2_attestation_id_imei d)) (\<lambda>attestation_id_imei.
     bind_r (transpose (try_bytes ATTESTATION_ID_MAX_LENGTH) (a2_attestation_id_meid d)) (\<lambda>attestation_id_meid.
     bind_r (transpose (try_bytes ATTESTATION_ID_MAX_LENGTH) (a2_attestation_id_manufacturer d)) (\<lambda>attestation_id_manufacturer.
     bind_r (transpose (try_bytes ATTESTATION_ID_MAX_LENGTH) (a2_attestation_id_model d)) (\<lambda>attestation_id_model.
     Inr \<lparr>al_purpose = purpose, al_algorithm = algorithm, al_key_size = key_size, al_digest = digest,
          al_padding = padding, al_ec_curve = ec_curve, al_rsa_public_exponent = rsa_public_exponent,
          al_mgf_digest = None, al_rollback_resistance = Some (a2_rollback_resistance d \<noteq> None),
          al_early_boot_only = None, al_active_date_time = active_date_time,
          al_origination_expire_date_time = origination_expire_date_time,
          al_usage_expire_date_time = usage_expire_date_time, al_usage_count_limit = None,
          al_no_auth_required = (a2_no_auth_required d \<noteq> None), al_user_auth_type = user_auth_type,
          al_auth_timeout = auth_timeout, al_allow_while_on_body = (a2_allow_while_on_body d \<noteq> None),
          al_trusted_user_presence_required = None, al_trusted_confirmation_required = None,
          al_unlocked_device_required = None,
          al_all_applications = Some (a2_all_applications d \<noteq> None),
          al_application_id = application_id, al_creation_date_time = creation_date_time,
          al_origin = origin, al_root_of_trust = root_of_trust, al_os_version = os_version,
          al_os_patch_level = os_patch_level, al_attestation_application_id = attestation_application_id,
          al_attestation_id_brand = attestation_id_brand, al_attestation_id_device = attestation_id_device,
          al_attestation_id_product = attestation_id_product,
          al_attestation_id_serial = attestation_id_serial, al_attestation_id_imei = attestation_id_imei,
          al_attestation_id_meid = attestation_id_meid,
          al_attestation_id_manufacturer = attestation_id_manufacturer,
          al_attestation_id_model = attestation_id_model, al_vendor_patch_level = None,
          al_boot_patch_level = None, al_device_unique_attestation = None\<rparr>)))))))))))))))))))))))))))"

definition authorization_list_v3_try_from ::
  "(bytes \<Rightarrow> asn_attestation_application_id option) \<Rightarrow> authorization_list_v3 \<Rightarrow> unit + bounded_authorization_list" where
  "authorization_list_v3_try_from parse d =
     bind_r (try_bound_set 8 PURPOSE_MAX_LENGTH (a3_purpose d)) (\<lambda>purpose.
     bind_r (try_bound 8 (a3_algorithm d)) (\<lambda>algorithm.
     bind_r (try_bound 16 (a3_key_size d)) (\<lambda>key_size.
     bind_r (try_bound_set 8 DIGEST_MAX_LENGTH (a3_digest d)) (\<lambda>digest.
     bind_r (try_bound_set 8 PADDING_MAX_LENGTH (a3_padding d)) (\<lambda>padding.
     bind_r (try_bound 8 (a3_ec_curve d)) (\<lambda>ec_curve.
     bind_r (try_bound 64 (a3_rsa_public_exponent d)) (\<lambda>rsa_public_exponent.
     bind_r (try_bound 64 (a3_active_date_time d)) (\<lambda>active_date_time.
     bind_r (try_bound 64 (a3_origination_expire_date_time d)) (\<lambda>origination_expire_date_time.
     bind_r (try_bound 64 (a3_usage_expire_date_time d)) (\<lambda>usage_expire_date_time.
     bind_r (try_bound 8 (a3_user_auth_type d)) (\<lambda>user_auth_type.
     bind_r (try_bound 32 (a3_user_auth_type d)) (\<lambda>auth_timeout.
     bind_r (transpose (try_bytes ATTESTATION_ID_MAX_LENGTH) (a3_application_id d)) (\<lambda>application_id.
     bind_r (try_bound 64 (a3_creation_date_time d)) (\<lambda>creation_date_time.
     bind_r (try_bound 8 (a3_origin d)) (\<lambda>origin.
     bind_r (transpose root_of_trust_try_from (a3_root_of_trust d)) (\<lambda>root_of_trust.
     bind_r (try_bound 32 (a3_os_version d)) (\<lambda>os_version.
     bind_r (try_bound 32 (a3_os_patch_level d)) (\<lambda>os_patch_level.
     bind_r (transpose (parse_application_id parse) (a3_attestation_application_id d)) (\<lambda>attestation_application_id.
     bind_r (transpose (try_bytes ATTESTATION_ID_MAX_LENGTH) (a3_attestation_id_brand d)) (\<lambda>attestation_id_brand.
     bind_r (transpose (try_bytes ATTESTATION_ID_MAX_LENGTH) (a3_attestation_id_device d)) (\<lambda>attestation_id_device.
     bind_r (transpose (try_bytes ATTESTATION_ID_MAX_LENGTH) (a3_attestation_id_product d)) (\<lambda>attestation_id_product.
     bind_r (transpose (try_bytes ATTESTATION_ID_MAX_LENGTH) (a3_attestation_id_serial d)) (\<lambda>attestation_id_serial.
     bind_r (transpose (try_bytes ATTESTATION_ID_MAX_LENGTH) (a3_attestation_id_imei d)) (\<lambda>attestation_id_imei.
     bind_r (transpose (try_bytes ATTESTATION_ID_MAX_LENGTH) (a3_attestation_id_meid d)) (\<lambda>attestation_id_meid.
     bind_r (transpose (try_bytes ATTESTATION_ID_MAX_LENGTH) (a3_attestation_id_manufacturer d)) (\<lambda>attestation_id_manufacturer.
     bind_r (transpose (try_bytes ATTESTATION_ID_MAX_LENGTH) (a3_attestation_id_model d)) (\<lambda>attestation_id_model.
     bind_r (try_bound 32 (a3_vendor_patch_level d)) (\<lambda>vendor_patch_level.
     bind_r (try_bound 32 (a3_boot_patch_level d)) (\<lambda>boot_patch_level.
     Inr \<lparr>al_purpose = purpose, al_algorithm = algorithm, al_key_size = key_size, al_digest = digest,
          al_padding = padding, al_ec_curve = ec_curve, al_rsa_public_exponent = rsa_public_exponent,
          al_mgf_digest = None, al_rollback_resistance = Some (a3_rollback_resistance d \<noteq> None),
          al_early_boot_only = None, al_active_date_time = active_date_time,
          al_origination_expire_date_time = origination_expire_date_time,
          al_usage_expire_date_time = usage_expire_date_time, al_usage_count_limit = None,
          al_no_auth_required = (a3_no_auth_required d \<noteq> None), al_user_auth_type = user_auth_type,
          al_auth_timeout = auth_timeout, al_allow_while_on_body = (a3_allow_while_on_body d \<noteq> None),
          al_trusted_user_presence_required = None, al_trusted_confirmation_required = None,
          al_unlocked_device_required = None,
          al_all_applications = Some (a3_all_applications d \<noteq> None),
          al_application_id = application_id, al_creation_date_time = creation_date_time,
          al_origin = origin, al_root_of_trust = root_of_trust, al_os_version = os_version,
          al_os_patch_level = os_patch_level, al_attestation_application_id = attestation_application_id,
          al_attestation_id_brand = attestation_id_brand, al_attestation_id_device = attestation_id_device,
          al_attestation_id_product = attestation_id_product,
          al_attestation_id_serial = attestation_id_serial, al_attestation_id_imei = attestation_id_imei,
          al_attestation_id_meid = attestation_id_meid,
          al_attestation_id_manufacturer = attestation_id_manufacturer,
          al_attestation_id_model = attestation_id_model, al_vendor_patch_level = vendor_patch_level,
          al_boot_patch_level = boot_patch_level, al_device_unique_attestation = None\<rparr>)))))))))))))))))))))))))))))"

definition authorization_list_v4_try_from ::
  "(bytes \<Rightarrow> asn_attestation_application_id option) \<Rightarrow> authorization_list_v4 \<Rightarrow> unit + bounded_authorization_list" where
  "authorization_list_v4_try_from parse d =
     bind_r (try_bound_set 8 PURPOSE_MAX_LENGTH (a4_purpose d)) (\<lambda>purpose.
     bind_r (try_bound 8 (a4_algorithm d)) (\<lambda>algorithm.
     bind_r (try_bound 16 (a4_key_size d)) (\<lambda>key_size.
     bind_r (try_bound_set 8 DIGEST_MAX_LENGTH (a4_digest d)) (\<lambda>digest.
     bind_r (try_bound_set 8 PADDING_MAX_LENGTH (a4_padding d)) (\<lambda>padding.
     bind_r (try_bound 8 (a4_ec_curve d)) (\<lambda>ec_curve.
     bind_r (try_bound 64 (a4_rsa_public_exponent d)) (\<lambda>rsa_public_exponent.
     bind_r (try_bound 64 (a4_active_date_time d)) (\<lambda>active_date_time.
     bind_r (try_bound 64 (a4_origination_expire_date_time d)) (\<lambda>origination_expire_date_time.
     bind_r (try_bound 64 (a4_usage_expire_date_time d)) (\<lambda>usage_expire_date_time.
     bind_r (try_bound 8 (a4_user_auth_type d)) (\<lambda>user_auth_type.
     bind_r (try_bound 32 (a4_user_auth_type d)) (\<lambda>auth_timeout.
     bind_r (transpose (try_bytes ATTESTATION_ID_MAX_LENGTH) (a4_application_id d)) (\<lambda>application_id.
     bind_r (try_bound 64 (a4_creation_date_time d)) (\<lambda>creation_date_time.
     bind_r (try_bound 8 (a4_origin d)) (\<lambda>origin.
     bind_r (transpose root_of_trust_try_from (a4_root_of_trust d)) (\<lambda>root_of_trust.
     bind_r (try_bound 32 (a4_os_version d)) (\<lambda>os_version.
     bind_r (try_bound 32 (a4_os_patch_level d)) (\<lambda>os_patch_level.
     bind_r (transpose (parse_application_id parse) (a4_attestation_application_id d)) (\<lambda>attestation_application_id.
     bind_r (transpose (try_bytes ATTESTATION_ID_MAX_LENGTH) (a4_attestation_id_brand d)) (\<lambda>attestation_id_brand.
     bind_r (transpose (try_bytes ATTESTATION_ID_MAX_LENGTH) (a4_attestation_id_device d)) (\<lambda>attestation_id_device.
     bind_r (transpose (try_bytes ATTESTATION_ID_MAX_LENGTH) (a4_attestation_id_product d)) (\<lambda>attestation_id_product.
     bind_r (transpose (try_bytes ATTESTATION_ID_MAX_LENGTH) (a4_attestation_id_serial d)) (\<lambda>attestation_id_serial.
     bind_r (transpose (try_bytes ATTESTATION_ID_MAX_LENGTH) (a4_attestation_id_imei d)) (\<lambda>attestation_id_imei.
     bind_r (transpose (try_bytes ATTESTATION_ID_MAX_LENGTH) (a4_attestation_id_meid d)) (\<lambda>attestation_id_meid.
     bind_r (transpose (try_bytes ATTESTATION_ID_MAX_LENGTH) (a4_attestation_id_manufacturer d)) (\<lambda>attestation_id_manufacturer.
     bind_r (transpose (try_bytes ATTESTATION_ID_MAX_LENGTH) (a4_attestation_id_model d)) (\<lambda>attestation_id_model.
     bind_r (try_bound 32 (a4_vendor_patch_level d)) (\<lambda>vendor_patch_level.
     bind_r (try_bound 32 (a4_boot_patch_level d)) (\<lambda>boot_patch_level.
     Inr \<lparr>al_purpose = purpose, al_algorithm = algorithm, al_key_size = key_size, al_digest = digest,
          al_padding = padding, al_ec_curve = ec_curve, al_rsa_public_exponent = rsa_public_exponent,
          al_mgf_digest = None, al_rollback_resistance = Some (a4_rollback_resistance d \<noteq> None),
          al_early_boot_only = Some (a4_early_boot_only d \<noteq> None),
          al_active_date_time = active_date_time,
          al_origination_expire_date_time = origination_expire_date_time,
          al_usage_expire_date_time = usage_expire_date_time, al_usage_count_limit = None,
          al_no_auth_required = (a4_no_auth_required d \<noteq> None), al_user_auth_type = user_auth_type,
          al_auth_timeout = auth_timeout, al_allow_while_on_body = (a4_allow_while_on_body d \<noteq> None),
          al_trusted_user_presence_required = Some (a4_trusted_user_presence_required d \<noteq> None),
          al_trusted_confirmation_required = Some (a4_trusted_confirmation_required d \<noteq> None),
          al_unlocked_device_required = Some (a4_unlocked_device_required d \<noteq> None),
          al_all_applications = Some (a4_all_applications d \<noteq> None),
          al_application_id = application_id, al_creation_date_time = creation_date_time,
          al_origin = origin, al_root_of_trust = root_of_trust, al_os_version = os_version,
          al_os_patch_level = os_patch_level, al_attestation_application_id = attestation_application_id,
          al_attestation_id_brand = attestation_id_brand, al_attestation_id_device = attestation_id_device,
          al_attestation_id_product = attestation_id_product,
          al_attestation_id_serial = attestation_id_serial, al_attestation_id_imei = attestation_id_imei,
          al_attestation_id_meid = attestation_id_meid,
          al_attestation_id_manufacturer = attestation_id_manufacturer,
          al_attestation_id_model = attestation_id_model, al_vendor_patch_level = vendor_patch_level,
          al_boot_patch_level = boot_patch_level,
          al_device_unique_attestation = Some (a4_device_unique_attestation d \<noteq> None)\<rparr>)))))))))))))))))))))))))))))"

definition authorization_list_key_mint_try_from ::
  "(bytes \<Rightarrow> asn_attestation_application_id option) \<Rightarrow> authorization_list_key_mint \<Rightarrow> unit + bounded_authorization_list" where
  "authorization_list_key_mint_try_from parse d =
     bind_r (try_bound_set 8 PURPOSE_MAX_LENGTH (km_purpose d)) (\<lambda>purpose.
     bind_r (try_bound 8 (km_algorithm d)) (\<lambda>algorithm.
     bind_r (try_bound 16 (km_key_size d)) (\<lambda>key_size.
     bind_r (try_bound_set 8 DIGEST_MAX_LENGTH (km_digest d)) (\<lambda>digest.
     bind_r (try_bound_set 8 PADDING_MAX_LENGTH (km_padding d)) (\<lambda>padding.
     bind_r (try_bound 8 (km_ec_curve d)) (\<lambda>ec_curve.
     bind_r (try_bound 64 (km_rsa_public_exponent d)) (\<lambda>rsa_public_exponent.
     bind_r (try_bound_set 8 MGF_DIGEST_MAX_LENGTH (km_mgf_digest d)) (\<lambda>mgf_digest.
     bind_r (try_bound 64 (km_active_date_time d)) (\<lambda>active_date_time.
     bind_r (try_bound 64 (km_origination_expire_date_time d)) (\<lambda>origination_expire_date_time.
     bind_r (try_bound 64 (km_usage_expire_date_time d)) (\<lambda>usage_expire_date_time.
     bind_r (try_bound 64 (km_usage_count_limit d)) (\<lambda>usage_count_limit.
     bind_r (try_bound 8 (km_user_auth_type d)) (\<lambda>user_auth_type.
     bind_r (try_bound 32 (km_user_auth_type d)) (\<lambda>auth_timeout.
     bind_r (try_bound 64 (km_creation_date_time d)) (\<lambda>creation_date_time.
     bind_r (try_bound 8 (km_origin d)) (\<lambda>origin.
     bind_r (transpose root_of_trust_try_from (km_root_of_trust d)) (\<lambda>root_of_trust.
     bind_r (try_bound 32 (km_os_version d)) (\<lambda>os_version.
     bind_r (try_bound 32 (km_os_patch_level d)) (\<lambda>os_patch_level.
     bind_r (transpose (parse_application_id parse) (km_attestation_application_id d)) (\<lambda>attestation_application_id.
     bind_r (transpose (try_bytes ATTESTATION_ID_MAX_LENGTH) (km_attestation_id_brand d)) (\<lambda>attestation_id_brand.
     bind_r (transpose (try_bytes ATTESTATION_ID_MAX_LENGTH) (km_attestation_id_device d)) (\<lambda>attestation_id_device.
     bind_r (transpose (try_bytes ATTESTATION_ID_MAX_LENGTH) (km_attestation_id_product d)) (\<lambda>attestation_id_product.
     bind_r (transpose (try_bytes ATTESTATION_ID_MAX_LENGTH) (km_attestation_id_serial d)) (\<lambda>attestation_id_serial.
     bind_r (transpose (try_bytes ATTESTATION_ID_MAX_LENGTH) (km_attestation_id_imei d)) (\<lambda>attestation_id_imei.
     bind_r (transpose (try_bytes ATTESTATION_ID_MAX_LENGTH) (km_attestation_id_meid d)) (\<lambda>attestation_id_meid.
     bind_r (transpose (try_bytes ATTESTATION_ID_MAX_LENGTH) (km_attestation_id_manufacturer d)) (\<lambda>attestation_id_manufacturer.
     bind_r (transpose (try_bytes ATTESTATION_ID_MAX_LENGTH) (km_attestation_id_model d)) (\<lambda>attestation_id_model.
     bind_r (try_bound 32 (km_vendor_patch_level d)) (\<lambda>vendor_patch_level.
     bind_r (try_bound 32 (km_boot_patch_level d)) (\<lambda>boot_patch_level.
     Inr \<lparr>al_purpose = purpose, al_algorithm = algorithm, al_key_size = key_size, al_digest = digest,
          al_padding = padding, al_ec_curve = ec_curve, al_rsa_public_exponent = rsa_public_exponent,
          al_mgf_digest = mgf_digest,
          al_rollback_resistance = Some (km_rollback_resistance d \<noteq> None),
          al_early_boot_only = Some (km_early_boot_only d \<noteq> None),
          al_active_date_time = active_date_time,
          al_origination_expire_date_time = origination_expire_date_time,
          al_usage_expire_date_time = usage_expire_date_time, al_usage_count_limit = usage_count_limit,
          al_no_auth_required = (km_no_auth_required d \<noteq> None), al_user_auth_type = user_auth_type,
          al_auth_timeout = auth_timeout, al_allow_while_on_body = (km_allow_while_on_body d \<noteq> None),
          al_trusted_user_presence_required = Some (km_trusted_user_presence_required d \<noteq> None),
          al_trusted_confirmation_required = Some (km_trusted_confirmation_required d \<noteq> None),
          al_unlocked_device_required = Some (km_unlocked_device_required d \<noteq> None),
          al_all_applications = None, al_application_id = None, al_creation_date_time = creation_date_time,
          al_origin = origin, al_root_of_trust = root_of_trust, al_os_version = os_version,
          al_os_patch_level = os_patch_level, al_attestation_application_id = attestation_application_id,
          al_attestation_id_brand = attestation_id_brand, al_attestation_id_device = attestation_id_device,
          al_attestation_id_product = attestation_id_product,
          al_attestation_id_serial = attestation_id_serial, al_attestation_id_imei = attestation_id_imei,
          al_attestation_id_meid = attestation_id_meid,
          al_attestation_id_manufacturer = attestation_id_manufacturer,
          al_attestation_id_model = attestation_id_model, al_vendor_patch_level = vendor_patch_level,
          al_boot_patch_level = boot_patch_level,
          al_device_unique_attestation = Some (km_device_unique_attestation d \<noteq> None)\<rparr>))))))))))))))))))))))))))))))"

section \<open>Key descriptions\<close>

definition key_description_try_from ::
  "('al \<Rightarrow> unit + bounded_authorization_list) \<Rightarrow> 'al asn_key_description \<Rightarrow> unit + bounded_key_description" where
  "key_description_try_from conv d =
     bind_r (conv (kd_software_enforced d)) (\<lambda>software.
     bind_r (conv (kd_tee_enforced d)) (\<lambda>tee.
     Inr \<lparr>attestation_security_level_of = security_level_of (kd_attestation_security_level d),
          key_mint_security_level = security_level_of (kd_key_mint_security_level d),
          software_enforced = software, tee_enforced = tee\<rparr>))"

fun bounded_key_description_try_from ::
  "(bytes \<Rightarrow> asn_attestation_application_id option) \<Rightarrow> asn_description \<Rightarrow> unit + bounded_key_description" where
  "bounded_key_description_try_from parse (V1 kd) = key_description_try_from (authorization_list_v1_try_from parse) kd"
| "bounded_key_description_try_from parse (V2 kd) = key_description_try_from (authorization_list_v2_try_from parse) kd"
| "bounded_key_description_try_from parse (V3 kd) = key_description_try_from (authorization_list_v3_try_from parse) kd"
| "bounded_key_description_try_from parse (V4 kd) = key_description_try_from (authorization_list_v4_try_from parse) kd"
| "bounded_key_description_try_from parse (V100 kd) = key_description_try_from (authorization_list_key_mint_try_from parse) kd"
| "bounded_key_description_try_from parse (V200 kd) = key_description_try_from (authorization_list_key_mint_try_from parse) kd"
| "bounded_key_description_try_from parse (V300 kd) = key_description_try_from (authorization_list_key_mint_try_from parse) kd"

section \<open>The invariant of the bounded types\<close>

definition fits :: "nat \<Rightarrow> nat option \<Rightarrow> bool" where
  "fits w v \<longleftrightarrow> (\<forall>x\<in>set_option v. x < 2 ^ w)"

definition fits_set :: "nat \<Rightarrow> nat \<Rightarrow> nat list option \<Rightarrow> bool" where
  "fits_set w n v \<longleftrightarrow> (\<forall>xs\<in>set_option v. length xs \<le> n \<and> (\<forall>x\<in>set xs. x < 2 ^ w))"

definition fits_bytes :: "nat \<Rightarrow> 'a list option \<Rightarrow> bool" where
  "fits_bytes n v \<longleftrightarrow> (\<forall>xs\<in>set_option v. length xs \<le> n)"

definition root_of_trust_ok :: "bounded_root_of_trust \<Rightarrow> bool" where
  "root_of_trust_ok r \<longleftrightarrow>
     length (verified_boot_key r) \<le> VERIFIED_BOOT_KEY_MAX_LENGTH \<and>
     fits_bytes VERIFIED_BOOT_HASH_MAX_LENGTH (verified_boot_hash r)"

definition application_id_ok :: "bounded_attestation_application_id \<Rightarrow> bool" where
  "application_id_ok a \<longleftrightarrow>
     length (package_infos a) \<le> PACKAGE_INFO_SET_MAX_LENGTH \<and>
     (\<forall>p\<in>set (package_infos a). length (package_name p) \<le> PACKAGE_NAME_MAX_LENGTH) \<and>
     length (signature_digests a) \<le> SIGNATURE_DIGEST_SET_MAX_LENGTH \<and>
     (\<forall>d\<in>set (signature_digests a). length d \<le> DIGEST_MAX_LENGTH)"

definition authorization_list_ok :: "bounded_authorization_list \<Rightarrow> bool" where
  "authorization_list_ok a \<longleftrightarrow>
     fits_set 8 PURPOSE_MAX_LENGTH (al_purpose a) \<and> fits 8 (al_algorithm a) \<and> fits 16 (al_key_size a) \<and>
     fits_set 8 DIGEST_MAX_LENGTH (al_digest a) \<and> fits_set 8 PADDING_MAX_LENGTH (al_padding a) \<and>
     fits 8 (al_ec_curve a) \<and> fits 64 (al_rsa_public_exponent a) \<and>
     fits_set 8 MGF_DIGEST_MAX_LENGTH (al_mgf_digest a) \<and> fits 64 (al_active_date_time a) \<and>
     fits 64 (al_origination_expire_date_time a) \<and> fits 64 (al_usage_expire_date_time a) \<and>
     fits 64 (al_usage_count_limit a) \<and> fits 8 (al_user_auth_type a) \<and> fits 32 (al_auth_timeout a) \<and>
     fits_bytes ATTESTATION_ID_MAX_LENGTH (al_application_id a) \<and> fits 64 (al_creation_date_time a) \<and>
     fits 8 (al_origin a) \<and> pred_option root_of_trust_ok (al_root_of_trust a) \<and>
     fits 32 (al_os_version a) \<and> fits 32 (al_os_patch_level a) \<and>
     pred_option application_id_ok (al_attestation_application_id a) \<and>
     (\<forall>v\<in>{al_attestation_id_brand a, al_attestation_id_device a, al_attestation_id_product a,
           al_attestation_id_serial a, al_attestation_id_imei a, al_attestation_id_meid a,
           al_attestation_id_manufacturer a, al_attestation_id_model a}. fits_bytes ATTESTATION_ID_MAX_LENGTH v) \<and>
     fits 32 (al_vendor_patch_level a) \<and> fits 32 (al_boot_patch_level a)"

definition key_description_ok :: "bounded_key_description \<Rightarrow> bool" where
  "key_description_ok k \<longleftrightarrow>
     authorization_list_ok (software_enforced k) \<and> authorization_list_ok (tee_enforced k)"

text \<open>The expiry dates and the kinds of user authentication a parsed description certifies.\<close>

fun certified_expiry :: "asn_description \<Rightarrow> i64 option \<times> i64 option" where
  "certified_expiry (V1 kd) = (a1_usage_expire_date_time (kd_software_enforced kd), a1_usage_expire_date_time (kd_tee_enforced kd))"
| "certified_expiry (V2 kd) = (a2_usage_expire_date_time (kd_software_enforced kd), a2_usage_expire_date_time (kd_tee_enforced kd))"
| "certified_expiry (V3 kd) = (a3_usage_expire_date_time (kd_software_enforced kd), a3_usage_expire_date_time (kd_tee_enforced kd))"
| "certified_expiry (V4 kd) = (a4_usage_expire_date_time (kd_software_enforced kd), a4_usage_expire_date_time (kd_tee_enforced kd))"
| "certified_expiry (V100 kd) = (km_usage_expire_date_time (kd_software_enforced kd), km_usage_expire_date_time (kd_tee_enforced kd))"
| "certified_expiry (V200 kd) = (km_usage_expire_date_time (kd_software_enforced kd), km_usage_expire_date_time (kd_tee_enforced kd))"
| "certified_expiry (V300 kd) = (km_usage_expire_date_time (kd_software_enforced kd), km_usage_expire_date_time (kd_tee_enforced kd))"

section \<open>Lemmas\<close>

named_theorems conv_dests \<open>what a successful conversion of a field says\<close>

lemma fits_None [simp]: "fits w None" "fits_set w n None" "fits_bytes n None"
  by (simp_all add: fits_def fits_set_def fits_bytes_def)

lemma try_bytes_Inr [result_simps]: "try_bytes n xs = Inr ys \<longleftrightarrow> ys = xs \<and> length xs \<le> n"
  by (auto simp: try_bytes_def)

lemma try_unsigned_Inr: "try_unsigned w v = Inr n \<longleftrightarrow> n < 2 ^ w \<and> v = int n"
proof -
  have "0 \<le> v \<Longrightarrow> v < 2 ^ w \<Longrightarrow> nat v < 2 ^ w" by (simp add: nat_less_iff)
  then show ?thesis by (auto simp: try_unsigned_def)
qed

lemma try_bound_Inr: "try_bound w v = Inr r \<longleftrightarrow> fits w r \<and> v = map_option int r"
  by (cases v; cases r) (auto simp: try_bound_def result_simps try_unsigned_Inr fits_def)

lemma try_bound_dest [conv_dests]: "try_bound w v = Inr r \<Longrightarrow> fits w r \<and> v = map_option int r"
  by (simp add: try_bound_Inr)

lemma collect_unsigned_dest: "collect_r (try_unsigned w) xs = Inr ys \<Longrightarrow> \<forall>y\<in>set ys. y < 2 ^ w"
  by (erule collect_r_all) (simp add: try_unsigned_Inr)

lemma try_bound_set_dest [conv_dests]: "try_bound_set w n v = Inr r \<Longrightarrow> fits_set w n r"
  by (cases v; cases r) (auto simp: try_bound_set_def result_simps fits_set_def dest: collect_unsigned_dest)

lemma transpose_bytes_dest [conv_dests]: "transpose (try_bytes n) v = Inr r \<Longrightarrow> fits_bytes n r"
  by (cases v; cases r) (auto simp: result_simps fits_bytes_def)

lemma root_of_trust_dest [conv_dests]:
  "transpose root_of_trust_try_from v = Inr r \<Longrightarrow> pred_option root_of_trust_ok r"
  "transpose root_of_trust_v1v2_try_from v1 = Inr r \<Longrightarrow> pred_option root_of_trust_ok r"
  by (cases v; cases r; auto simp: result_simps root_of_trust_try_from_def root_of_trust_ok_def fits_bytes_def)
    (cases v1; cases r; auto simp: result_simps root_of_trust_v1v2_try_from_def root_of_trust_ok_def fits_bytes_def)

lemma application_id_ok_of:
  assumes "application_id_try_from d = Inr a"
  shows "application_id_ok a"
proof -
  from assms obtain infos digests where a: "a = \<lparr>package_infos = infos, signature_digests = digests\<rparr>"
    and i: "collect_r package_info_try_from (asn_package_infos d) = Inr infos" "length infos \<le> PACKAGE_INFO_SET_MAX_LENGTH"
    and ds: "collect_r (try_bytes DIGEST_MAX_LENGTH) (asn_signature_digests d) = Inr digests"
      "length digests \<le> SIGNATURE_DIGEST_SET_MAX_LENGTH"
    by (auto simp: application_id_try_from_def result_simps)
  have "\<forall>p\<in>set infos. length (package_name p) \<le> PACKAGE_NAME_MAX_LENGTH"
    using i(1) by (rule collect_r_all) (auto simp: package_info_try_from_def result_simps)
  moreover have "\<forall>x\<in>set digests. length x \<le> DIGEST_MAX_LENGTH"
    using ds(1) by (rule collect_r_all) (simp add: result_simps)
  ultimately show ?thesis using i(2) ds(2) by (simp add: a application_id_ok_def)
qed

lemma application_id_dest [conv_dests]:
  "transpose (parse_application_id parse) v = Inr r \<Longrightarrow> pred_option application_id_ok r"
  by (cases v; cases r) (auto simp: result_simps parse_application_id_def application_id_ok_of)

text \<open>One lemma per layout of the authorization list.\<close>

lemma authorization_list_v1_ok:
  assumes "authorization_list_v1_try_from parse d = Inr b"
  shows "authorization_list_ok b \<and> a1_user_auth_type d = map_option int (al_auth_timeout b) \<and>
    a1_usage_expire_date_time d = map_option int (al_usage_expire_date_time b)"
  using assms unfolding authorization_list_v1_try_from_def
  by (auto simp: result_simps authorization_list_ok_def dest!: conv_dests)

lemma authorization_list_v2_ok:
  assumes "authorization_list_v2_try_from parse d = Inr b"
  shows "authorization_list_ok b \<and> a2_user_auth_type d = map_option int (al_auth_timeout b) \<and>
    a2_usage_expire_date_time d = map_option int (al_usage_expire_date_time b)"
  using assms unfolding authorization_list_v2_try_from_def
  by (auto simp: result_simps authorization_list_ok_def dest!: conv_dests)

lemma authorization_list_v3_ok:
  assumes "authorization_list_v3_try_from parse d = Inr b"
  shows "authorization_list_ok b \<and> a3_user_auth_type d = map_option int (al_auth_timeout b) \<and>
    a3_usage_expire_date_time d = map_option int (al_usage_expire_date_time b)"
  using assms unfolding authorization_list_v3_try_from_def
  by (auto simp: result_simps authorization_list_ok_def dest!: conv_dests)

lemma authorization_list_v4_ok:
  assumes "authorization_list_v4_try_from parse d = Inr b"
  shows "authorization_list_ok b \<and> a4_user_auth_type d = map_option int (al_auth_timeout b) \<and>
    a4_usage_expire_date_time d = map_option int (al_usage_expire_date_time b)"
  using assms unfolding authorization_list_v4_try_from_def
  by (auto simp: result_simps authorization_list_ok_def dest!: conv_dests)

lemma authorization_list_key_mint_ok:
  assumes "authorization_list_key_mint_try_from parse d = Inr b"
  shows "authorization_list_ok b \<and> km_user_auth_type d = map_option int (al_auth_timeout b) \<and>
    km_usage_expire_date_time d = map_option int (al_usage_expire_date_time b)"
  using assms unfolding authorization_list_key_mint_try_from_def
  by (auto simp: result_simps authorization_list_ok_def dest!: conv_dests)

lemmas authorization_lists_ok = authorization_list_v1_ok authorization_list_v2_ok
  authorization_list_v3_ok authorization_list_v4_ok authorization_list_key_mint_ok

fun certified_user_auth_type :: "asn_description \<Rightarrow> i64 option \<times> i64 option" where
  "certified_user_auth_type (V1 kd) = (a1_user_auth_type (kd_software_enforced kd), a1_user_auth_type (kd_tee_enforced kd))"
| "certified_user_auth_type (V2 kd) = (a2_user_auth_type (kd_software_enforced kd), a2_user_auth_type (kd_tee_enforced kd))"
| "certified_user_auth_type (V3 kd) = (a3_user_auth_type (kd_software_enforced kd), a3_user_auth_type (kd_tee_enforced kd))"
| "certified_user_auth_type (V4 kd) = (a4_user_auth_type (kd_software_enforced kd), a4_user_auth_type (kd_tee_enforced kd))"
| "certified_user_auth_type (V100 kd) = (km_user_auth_type (kd_software_enforced kd), km_user_auth_type (kd_tee_enforced kd))"
| "certified_user_auth_type (V200 kd) = (km_user_auth_type (kd_software_enforced kd), km_user_auth_type (kd_tee_enforced kd))"
| "certified_user_auth_type (V300 kd) = (km_user_auth_type (kd_software_enforced kd), km_user_auth_type (kd_tee_enforced kd))"

lemma key_description_try_from_Inr:
  "key_description_try_from conv kd = Inr b \<longleftrightarrow>
     conv (kd_software_enforced kd) = Inr (software_enforced b) \<and> conv (kd_tee_enforced kd) = Inr (tee_enforced b) \<and>
     attestation_security_level_of b = security_level_of (kd_attestation_security_level kd) \<and>
     key_mint_security_level b = security_level_of (kd_key_mint_security_level kd)"
  by (cases b) (auto simp: key_description_try_from_def result_simps)

text \<open>
  C31: A stored attestation keeps its bounds and the certified expiry. When the conversion of a parsed
  key description, of any version, succeeds, every bounded field of the result is within its
  \<open>BoundedVec\<close> length and integer width, and the usage expiry dates of both authorization lists are
  the certified ones, so \<open>ensure_not_expired\<close> checks what the certificate says. The
  authentication timeout, however, is the certified kind of user authentication, not the certified
  timeout.
\<close>
theorem bounded_key_description_faithful:
  assumes "bounded_key_description_try_from parse d = Inr b"
  shows "key_description_ok b \<and>
    certified_expiry d = (map_option int (al_usage_expire_date_time (software_enforced b)),
                          map_option int (al_usage_expire_date_time (tee_enforced b))) \<and>
    certified_user_auth_type d = (map_option int (al_auth_timeout (software_enforced b)),
                                  map_option int (al_auth_timeout (tee_enforced b)))"
  using assms
  by (cases d) (auto simp: key_description_try_from_Inr key_description_ok_def dest!: authorization_lists_ok)

definition sample_authorization_list :: "i64 option \<Rightarrow> authorization_list_v1" where
  "sample_authorization_list expiry =
     \<lparr>a1_purpose = Some [2, 3], a1_algorithm = Some 3, a1_key_size = Some 256, a1_digest = Some [4],
      a1_padding = None, a1_ec_curve = Some 1, a1_rsa_public_exponent = None, a1_rollback_resistance = None,
      a1_active_date_time = None, a1_origination_expire_date_time = None, a1_usage_expire_date_time = expiry,
      a1_no_auth_required = None, a1_user_auth_type = Some 2, a1_auth_timeout = Some 3600,
      a1_allow_while_on_body = None, a1_trusted_user_presence_required = None,
      a1_trusted_confirmation_required = None, a1_unlocked_device_required = None, a1_all_applications = None,
      a1_application_id = None, a1_creation_date_time = None, a1_origin = Some 0,
      a1_root_of_trust = Some \<lparr>r1_verified_boot_key = [1, 2], r1_device_locked = True, r1_verified_boot_state = 0\<rparr>,
      a1_os_version = Some 120000, a1_os_patch_level = None\<rparr>"

definition sample_key_description :: key_description_v1 where
  "sample_key_description =
     \<lparr>kd_attestation_version = 1, kd_attestation_security_level = 1, kd_key_mint_version = 2,
      kd_key_mint_security_level = 1, kd_attestation_challenge = [], kd_unique_id = [],
      kd_software_enforced = sample_authorization_list None, kd_tee_enforced = sample_authorization_list (Some 1800000000000)\<rparr>"

lemmas conversion_defs = key_description_try_from_def authorization_list_v1_try_from_def try_bound_def
  try_bound_set_def try_unsigned_def try_bytes_def root_of_trust_v1v2_try_from_def PURPOSE_MAX_LENGTH_def
  DIGEST_MAX_LENGTH_def VERIFIED_BOOT_KEY_MAX_LENGTH_def

theorem bounded_key_description_faithful_witness:
  "\<exists>b. bounded_key_description_try_from (\<lambda>_. None) (V1 sample_key_description) = Inr b \<and> key_description_ok b \<and>
     map_option int (al_usage_expire_date_time (tee_enforced b)) = Some 1800000000000 \<and>
     map_option int (al_auth_timeout (tee_enforced b)) = Some 2"
proof -
  have "is_ok (bounded_key_description_try_from (\<lambda>_. None) (V1 sample_key_description))"
    by (simp add: sample_key_description_def sample_authorization_list_def conversion_defs)
  then obtain b where b: "bounded_key_description_try_from (\<lambda>_. None) (V1 sample_key_description) = Inr b"
    by (auto simp: is_ok_ex)
  from bounded_key_description_faithful [OF b] b show ?thesis
    by (auto simp: sample_key_description_def sample_authorization_list_def)
qed

end
