(* ===== verification/Certificate_Chain.thy ===== *)
theory Certificate_Chain
  imports Acurast Attestation_Bounds
begin

text \<open>
  Validation of an attestation's certificate chain, \<open>pallets/acurast/common/src/attestation.rs\<close>,
  with the X.509 structs and the conversion of dates of \<open>attestation/asn.rs\<close> and the errors of
  \<open>attestation/error.rs\<close>; and its composition with pallet acurast.

  The decoder (crate \<open>asn1\<close>), the curves, the hashes, the big integers and the calendar (crate
  \<open>chrono\<close>) are libraries: the record \<open>cert_lib\<close>. A name is the type \<open>'n\<close>, a P-256 key \<open>'vk\<close>, a
  coordinate of a P-384 point \<open>'fe\<close> and a signature over one of the curves \<open>'sig\<close>. A big integer
  is a natural number and a date is the record \<open>date_time\<close>. Object identifiers are lists of their
  arcs. A function that can panic returns an option, with \<^const>\<open>None\<close> for the panic.
\<close>

section \<open>Certificates (asn.rs)\<close>

type_synonym oid = "nat list"

record date_time =
  year :: int
  month :: nat
  day :: nat
  hour :: nat
  minute :: nat
  second :: nat

datatype cert_time = UTCTime date_time | GeneralizedTime date_time

record asn_validity =
  asn_not_before :: cert_time
  asn_not_after :: cert_time

record algorithm_identifier =
  algorithm :: oid
  parameters :: "bytes option"

record subject_public_key_info =
  spki_algorithm :: algorithm_identifier
  subject_public_key :: bytes

record cert_extension =
  extn_id :: oid
  critical :: bool
  extn_value :: bytes

record 'n tbs_certificate =
  tbs_version :: u64
  tbs_serial_number :: bytes
  tbs_signature :: algorithm_identifier
  issuer :: 'n
  tbs_validity :: asn_validity
  subject :: 'n
  tbs_subject_public_key_info :: subject_public_key_info
  issuer_unique_id :: "bytes option"
  subject_unique_id :: "bytes option"
  extensions :: "cert_extension list option"

record 'n certificate =
  tbs_certificate_of :: "'n tbs_certificate"
  signature_algorithm :: algorithm_identifier
  signature_value :: bytes

datatype validation_error =
    ParseKeyDescription
  | ChainTooShort
  | ChainTooLong
  | DecodeError
  | ParseErr
  | UntrustedRoot
  | ExtensionMissing
  | ParseExtension
  | UnsupportedAttestationVersion i64
  | ParseP256PublicKey
  | ParseP384PublicKey
  | MissingECDSAAlgorithmTyp
  | MissingPublicKey
  | InvalidSignatureEncoding
  | InvalidSignature
  | UnsupportedSignatureAlgorithm
  | UnsupportedPublicKeyAlgorithm
  | InvalidIssuer
  | SignatureMismatch

section \<open>Libraries\<close>

record ('n, 'vk, 'fe, 'sig) cert_lib =
  parse_certificate :: "bytes \<Rightarrow> 'n certificate option"
  parse_raw_payload :: "bytes \<Rightarrow> bytes option"
  write_name :: "'n \<Rightarrow> bytes option"
  parse_spki :: "bytes \<Rightarrow> subject_public_key_info option"
  parse_object_identifier :: "bytes \<Rightarrow> oid option"
  parse_rsa_public_key :: "bytes \<Rightarrow> (bytes \<times> bytes) option"
  read_sequence :: "bytes \<Rightarrow> bytes option"
  read_i64 :: "bytes \<Rightarrow> i64 option"
  parse_kd_v1 :: "bytes \<Rightarrow> key_description_v1 option"
  parse_kd_v2 :: "bytes \<Rightarrow> key_description_v2 option"
  parse_kd_v3 :: "bytes \<Rightarrow> key_description_v3 option"
  parse_kd_v4 :: "bytes \<Rightarrow> key_description_v4 option"
  parse_kd_key_mint :: "bytes \<Rightarrow> key_description_key_mint option"
  parse_application_id_der :: "bytes \<Rightarrow> asn_attestation_application_id option"
  from_bytes_be :: "bytes \<Rightarrow> nat"
  to_bytes_be :: "nat \<Rightarrow> bytes"
  modpow :: "nat \<Rightarrow> nat \<Rightarrow> nat \<Rightarrow> nat option"
  sha256 :: "bytes \<Rightarrow> bytes"
  sha384 :: "bytes \<Rightarrow> bytes"
  p256_key_from_sec1 :: "bytes \<Rightarrow> 'vk option"
  p256_key_to_bytes :: "'vk \<Rightarrow> bytes"
  p256_signature_from_der :: "bytes \<Rightarrow> 'sig option"
  p256_verify :: "'vk \<Rightarrow> bytes \<Rightarrow> 'sig \<Rightarrow> bool"
  p384_field_from_be :: "bytes \<Rightarrow> 'fe option"
  p384_signature_from_der :: "bytes \<Rightarrow> 'sig option"
  p384_verify_prehashed :: "'fe \<times> 'fe \<Rightarrow> bytes \<Rightarrow> 'sig \<Rightarrow> bool"
  trusted_root_pub_key :: bytes
  dt_default :: date_time
  with_second :: "date_time \<Rightarrow> nat \<Rightarrow> date_time option"
  with_minute :: "date_time \<Rightarrow> nat \<Rightarrow> date_time option"
  with_hour :: "date_time \<Rightarrow> nat \<Rightarrow> date_time option"
  with_day :: "date_time \<Rightarrow> nat \<Rightarrow> date_time option"
  with_month :: "date_time \<Rightarrow> nat \<Rightarrow> date_time option"
  with_year :: "date_time \<Rightarrow> int \<Rightarrow> date_time option"
  dt_timestamp_millis :: "date_time \<Rightarrow> i64"

section \<open>Results that may panic\<close>

type_synonym 'a outcome = "(validation_error + 'a) option"

section \<open>Dates\<close>

definition as_datetime :: "cert_time \<Rightarrow> date_time" where
  "as_datetime t = (case t of UTCTime d \<Rightarrow> d | GeneralizedTime d \<Rightarrow> d)"

text \<open>The final \<open>try_into().unwrap()\<close> from \<open>i64\<close> to \<open>u64\<close> panics on a negative number.\<close>

definition timestamp_millis :: "('n, 'vk, 'fe, 'sig) cert_lib \<Rightarrow> cert_time \<Rightarrow> u64 option" where
  "timestamp_millis L t =
     (let d = as_datetime t;
          milliseconds = unwrap_or (map_option (dt_timestamp_millis L)
            (do {
               t1 \<leftarrow> with_second L (dt_default L) (second d);
               t2 \<leftarrow> with_minute L t1 (minute d);
               t3 \<leftarrow> with_hour L t2 (hour d);
               t4 \<leftarrow> with_day L t3 (day d);
               t5 \<leftarrow> with_month L t4 (month d);
               with_year L t5 (year d)
             })) 0
      in if milliseconds < 0 then None else Some (nat milliseconds))"

section \<open>Public keys\<close>

record rsa_pbk =
  exponent :: nat
  modulus :: nat

datatype ('vk, 'fe) ecdsa_curve = CurveP256 'vk | CurveP384 "'fe \<times> 'fe"

datatype ('vk, 'fe) public_key_parsed = RSAKey rsa_pbk | ECDSAKey "('vk, 'fe) ecdsa_curve"

definition RSA_ALGORITHM :: oid where "RSA_ALGORITHM = [1, 2, 840, 113549, 1, 1, 11]"
definition ECDSA_WITH_SHA256_ALGORITHM :: oid where "ECDSA_WITH_SHA256_ALGORITHM = [1, 2, 840, 10045, 4, 3, 2]"
definition ECDSA_WITH_SHA384_ALGORITHM :: oid where "ECDSA_WITH_SHA384_ALGORITHM = [1, 2, 840, 10045, 4, 3, 3]"
definition RSA_PBK :: oid where "RSA_PBK = [1, 2, 840, 113549, 1, 1, 1]"
definition ECDSA_PBK :: oid where "ECDSA_PBK = [1, 2, 840, 10045, 2, 1]"
definition CURVE_P256 :: oid where "CURVE_P256 = [1, 2, 840, 10045, 3, 1, 7]"
definition CURVE_P384 :: oid where "CURVE_P384 = [1, 3, 132, 0, 34]"
definition KEY_ATTESTATION_OID :: oid where "KEY_ATTESTATION_OID = [1, 3, 6, 1, 4, 1, 11129, 2, 1, 17]"

definition parse_rsa_pbk :: "('n, 'vk, 'fe, 'sig) cert_lib \<Rightarrow> bytes \<Rightarrow> validation_error + rsa_pbk" where
  "parse_rsa_pbk L data =
     bind_r (ok_or (parse_rsa_public_key L data) ParseExtension) (\<lambda>(m, e).
     Inr \<lparr>exponent = from_bytes_be L e, modulus = from_bytes_be L m\<rparr>)"

text \<open>\<open>as_bytes()[1..]\<close> panics on an empty key.\<close>

definition parse_p384_point :: "('n, 'vk, 'fe, 'sig) cert_lib \<Rightarrow> bytes \<Rightarrow> ('fe \<times> 'fe) outcome" where
  "parse_p384_point L key =
     (if key = [] then None
      else let encoded = tl key; middle = length encoded div 2 in
        Some (bind_r (ok_or (p384_field_from_be L (take middle encoded)) ParseP384PublicKey) (\<lambda>x.
              bind_r (ok_or (p384_field_from_be L (drop middle encoded)) ParseP384PublicKey) (\<lambda>y.
              Inr (x, y)))))"

definition public_key_parse ::
  "('n, 'vk, 'fe, 'sig) cert_lib \<Rightarrow> subject_public_key_info \<Rightarrow> ('vk, 'fe) public_key_parsed outcome" where
  "public_key_parse L info =
     (if algorithm (spki_algorithm info) = RSA_PBK then
        Some (bind_r (parse_rsa_pbk L (subject_public_key info)) (\<lambda>pbk. Inr (RSAKey pbk)))
      else if algorithm (spki_algorithm info) = ECDSA_PBK then
        bind_p (Some (ok_or (parameters (spki_algorithm info)) MissingECDSAAlgorithmTyp)) (\<lambda>pbk_param.
        bind_p (Some (ok_or (parse_object_identifier L pbk_param) ParseExtension)) (\<lambda>typ.
          if typ = CURVE_P256 then
            Some (bind_r (ok_or (p256_key_from_sec1 L (subject_public_key info)) ParseP256PublicKey)
                    (\<lambda>k. Inr (ECDSAKey (CurveP256 k))))
          else if typ = CURVE_P384 then
            bind_p (parse_p384_point L (subject_public_key info)) (\<lambda>p. Some (Inr (ECDSAKey (CurveP384 p))))
          else Some (Inl UnsupportedSignatureAlgorithm)))
      else Some (Inl UnsupportedPublicKeyAlgorithm))"

section \<open>Signatures\<close>

text \<open>
  \<open>modpow\<close> panics for modulus zero, and the slice of the last bytes panics when the power has fewer
  bytes than the digest.
\<close>

definition validate_rsa :: "('n, 'vk, 'fe, 'sig) cert_lib \<Rightarrow> bytes \<Rightarrow> bytes \<Rightarrow> rsa_pbk \<Rightarrow> unit outcome" where
  "validate_rsa L payload sig pbk =
     (case modpow L (from_bytes_be L sig) (exponent pbk) (modulus pbk) of
        None \<Rightarrow> None
      | Some c \<Rightarrow>
          (let computed = to_bytes_be L c; hashed = sha256 L payload in
           if length computed < length hashed then None
           else let unpadded = drop (length computed - length hashed) computed in
             Some (ensure (hashed = unpadded) InvalidSignature)))"

text \<open>
  The digest is the type argument of the source; only the branch of P-384 uses it.
  \<open>copy_from_slice\<close> panics on a digest that is neither 32 nor 48 bytes long.
\<close>

definition validate_ecdsa ::
  "('n, 'vk, 'fe, 'sig) cert_lib \<Rightarrow> (bytes \<Rightarrow> bytes) \<Rightarrow> bytes \<Rightarrow> bytes \<Rightarrow> ('vk, 'fe) ecdsa_curve \<Rightarrow> unit outcome" where
  "validate_ecdsa L digest_d payload sig curve =
     (case curve of
        CurveP256 verifying_key \<Rightarrow>
          Some (bind_r (ok_or (p256_signature_from_der L sig) InvalidSignatureEncoding) (\<lambda>signature.
                ensure (p256_verify L verifying_key payload signature) InvalidSignature))
      | CurveP384 point \<Rightarrow>
          bind_p (Some (ok_or (p384_signature_from_der L sig) InvalidSignatureEncoding)) (\<lambda>signature.
          let hashed = digest_d payload in
          if length hashed = 32 then
            Some (ensure (p384_verify_prehashed L point (replicate 16 0 @ hashed) signature) InvalidSignature)
          else if length hashed = 48 then
            Some (ensure (p384_verify_prehashed L point hashed signature) InvalidSignature)
          else None))"

definition validate ::
  "('n, 'vk, 'fe, 'sig) cert_lib \<Rightarrow> 'n certificate \<Rightarrow> bytes \<Rightarrow> ('vk, 'fe) public_key_parsed \<Rightarrow> unit outcome" where
  "validate L cert payload pbk =
     (let alg = algorithm (signature_algorithm cert) in
      if alg \<noteq> algorithm (tbs_signature (tbs_certificate_of cert)) then Some (Inl SignatureMismatch)
      else if alg = RSA_ALGORITHM then
        (case pbk of RSAKey k \<Rightarrow> validate_rsa L payload (signature_value cert) k
                   | _ \<Rightarrow> Some (Inl UnsupportedPublicKeyAlgorithm))
      else if alg = ECDSA_WITH_SHA256_ALGORITHM then
        (case pbk of ECDSAKey k \<Rightarrow> validate_ecdsa L (sha256 L) payload (signature_value cert) k
                   | _ \<Rightarrow> Some (Inl UnsupportedPublicKeyAlgorithm))
      else if alg = ECDSA_WITH_SHA384_ALGORITHM then
        (case pbk of ECDSAKey k \<Rightarrow> validate_ecdsa L (sha384 L) payload (signature_value cert) k
                   | _ \<Rightarrow> Some (Inl UnsupportedPublicKeyAlgorithm))
      else Some (Inl UnsupportedSignatureAlgorithm))"

section \<open>The chain\<close>

definition unique_id :: "('n, 'vk, 'fe, 'sig) cert_lib \<Rightarrow> 'n \<Rightarrow> bytes \<Rightarrow> validation_error + (bytes \<times> bytes)" where
  "unique_id L iss serial = bind_r (ok_or (write_name L iss) InvalidIssuer) (\<lambda>i. Inr (i, serial))"

definition parse_cert :: "('n, 'vk, 'fe, 'sig) cert_lib \<Rightarrow> bytes \<Rightarrow> validation_error + 'n certificate" where
  "parse_cert L serialized = ok_or (parse_certificate L serialized) ParseExtension"

definition parse_cert_payload :: "('n, 'vk, 'fe, 'sig) cert_lib \<Rightarrow> bytes \<Rightarrow> validation_error + bytes" where
  "parse_cert_payload L serialized = ok_or (parse_raw_payload L serialized) ParseExtension"

text \<open>The body of the \<open>try_fold\<close>: the accumulator also carries the list \<open>cert_ids\<close>.\<close>

type_synonym ('n, 'vk, 'fe) chain_state =
  "('vk, 'fe) public_key_parsed option \<times> 'n certificate option \<times> (bytes \<times> bytes) list"

definition chain_link ::
  "('n, 'vk, 'fe, 'sig) cert_lib \<Rightarrow> ('vk, 'fe) public_key_parsed \<Rightarrow> bytes \<Rightarrow>
   ('n, 'vk, 'fe) chain_state \<Rightarrow> ('n, 'vk, 'fe) chain_state outcome" where
  "chain_link L root_pub_key cert_data = (\<lambda>(prev_pbk, _, cert_ids).
     bind_p (Some (parse_cert L cert_data)) (\<lambda>cert.
     bind_p (Some (parse_cert_payload L cert_data)) (\<lambda>payload.
     bind_p (public_key_parse L (tbs_subject_public_key_info (tbs_certificate_of cert))) (\<lambda>current_pbk.
     if prev_pbk = None \<and> current_pbk \<noteq> root_pub_key then Some (Inl UntrustedRoot)
     else
       bind_p (validate L cert payload (unwrap_or prev_pbk current_pbk)) (\<lambda>_.
       bind_p (Some (unique_id L (issuer (tbs_certificate_of cert)) (tbs_serial_number (tbs_certificate_of cert)))) (\<lambda>i.
       Some (Inr (Some current_pbk, Some cert, cert_ids @ [i]))))))))"

fun chain_fold ::
  "('n, 'vk, 'fe, 'sig) cert_lib \<Rightarrow> ('vk, 'fe) public_key_parsed \<Rightarrow> bytes list \<Rightarrow>
   ('n, 'vk, 'fe) chain_state \<Rightarrow> ('n, 'vk, 'fe) chain_state outcome" where
  "chain_fold L root [] acc = Some (Inr acc)"
| "chain_fold L root (c # cs) acc = bind_p (chain_link L root c acc) (chain_fold L root cs)"

definition validate_chain ::
  "('n, 'vk, 'fe, 'sig) cert_lib \<Rightarrow> bytes list \<Rightarrow>
   ((bytes \<times> bytes) list \<times> 'n tbs_certificate \<times> ('vk, 'fe) public_key_parsed) outcome" where
  "validate_chain L chain =
     bind_p (Some (ok_or (parse_spki L (trusted_root_pub_key L)) ParseExtension)) (\<lambda>root_info.
     bind_p (public_key_parse L root_info) (\<lambda>root_pub_key.
     bind_p (chain_fold L root_pub_key chain (None, None, [])) (\<lambda>(pbk, cert, cert_ids).
     bind_p (Some (ok_or cert ChainTooShort)) (\<lambda>last_cert.
     bind_p (Some (ok_or pbk MissingPublicKey)) (\<lambda>last_cert_pbk.
     Some (Inr (cert_ids, tbs_certificate_of last_cert, last_cert_pbk)))))))"

section \<open>The attestation extension\<close>

text \<open>
  The version is read from the start of the sequence; the error of the inner parser, which does not
  read the sequence to its end, is ignored, so that the version stays 0 when it cannot be read.
\<close>

definition peek_attestation_version :: "('n, 'vk, 'fe, 'sig) cert_lib \<Rightarrow> bytes \<Rightarrow> validation_error + i64" where
  "peek_attestation_version L data =
     bind_r (ok_or (read_sequence L data) ParseExtension) (\<lambda>content.
     Inr (unwrap_or (read_i64 L content) 0))"

definition extract_key_description ::
  "('n, 'vk, 'fe, 'sig) cert_lib \<Rightarrow> cert_extension list option \<Rightarrow> validation_error + asn_description" where
  "extract_key_description L exts =
     bind_r (ok_or exts ExtensionMissing) (\<lambda>es.
     bind_r (ok_or (List.find (\<lambda>e. extn_id e = KEY_ATTESTATION_OID) es) ExtensionMissing) (\<lambda>extension.
     let v = extn_value extension in
     bind_r (peek_attestation_version L v) (\<lambda>version.
     if version = 1 then bind_r (ok_or (parse_kd_v1 L v) ParseExtension) (\<lambda>kd. Inr (V1 kd))
     else if version = 2 then bind_r (ok_or (parse_kd_v2 L v) ParseExtension) (\<lambda>kd. Inr (V2 kd))
     else if version = 3 then bind_r (ok_or (parse_kd_v3 L v) ParseExtension) (\<lambda>kd. Inr (V3 kd))
     else if version = 4 then bind_r (ok_or (parse_kd_v4 L v) ParseExtension) (\<lambda>kd. Inr (V4 kd))
     else if version = 100 then bind_r (ok_or (parse_kd_key_mint L v) ParseExtension) (\<lambda>kd. Inr (V100 kd))
     else if version = 200 then bind_r (ok_or (parse_kd_key_mint L v) ParseExtension) (\<lambda>kd. Inr (V200 kd))
     else if version = 300 then bind_r (ok_or (parse_kd_key_mint L v) ParseExtension) (\<lambda>kd. Inr (V300 kd))
     else Inl (UnsupportedAttestationVersion version))))"

section \<open>Composition with pallet acurast\<close>

text \<open>
  The configuration of pallet acurast with this validation. A panic aborts the call like an error
  does, so both appear as a failing validation; the dates are converted there as well, since that
  conversion can panic.
\<close>

record 'n validated_cert =
  vc_tbs :: "'n tbs_certificate"
  vc_not_before :: u64
  vc_not_after :: u64

fun key_kind :: "('n, 'vk, 'fe, 'sig) cert_lib \<Rightarrow> ('vk, 'fe) public_key_parsed \<Rightarrow> public_key_kind" where
  "key_kind L (RSAKey _) = RSA"
| "key_kind L (ECDSAKey (CurveP256 vk)) = ECDSA_P256 (p256_key_to_bytes L vk)"
| "key_kind L (ECDSAKey (CurveP384 _)) = ECDSA_P384"

definition validated_chain ::
  "('n, 'vk, 'fe, 'sig) cert_lib \<Rightarrow> bytes list \<Rightarrow> unit + ((bytes \<times> bytes) list \<times> 'n validated_cert \<times> public_key_kind)" where
  "validated_chain L chain =
     (case validate_chain L chain of
        Some (Inr (ids, tbs, pbk)) \<Rightarrow>
          (case (timestamp_millis L (asn_not_before (tbs_validity tbs)), timestamp_millis L (asn_not_after (tbs_validity tbs))) of
             (Some nb, Some na) \<Rightarrow> Inr (ids, \<lparr>vc_tbs = tbs, vc_not_before = nb, vc_not_after = na\<rparr>, key_kind L pbk)
           | _ \<Rightarrow> Inl ())
      | _ \<Rightarrow> Inl ())"

definition with_certificates ::
  "('n, 'vk, 'fe, 'sig) cert_lib \<Rightarrow> ('n validated_cert, asn_description) acurast_config \<Rightarrow>
   ('n validated_cert, asn_description) acurast_config" where
  "with_certificates L cfg =
     cfg\<lparr>validate_certificate_chain := validated_chain L,
         cert_not_before := vc_not_before, cert_not_after := vc_not_after,
         extract_attestation := (\<lambda>c. map_err (\<lambda>_. ()) (extract_key_description L (extensions (vc_tbs c)))),
         bounded_key_description_of := bounded_key_description_try_from (parse_application_id_der L)\<rparr>"

section \<open>The chain is signed from the trusted root on\<close>

text \<open>
  The links of a chain: each certificate with its key. Every certificate is signed by the key of its
  predecessor, the first one by its own key.
\<close>

fun signed_links ::
  "('n, 'vk, 'fe, 'sig) cert_lib \<Rightarrow> ('vk, 'fe) public_key_parsed option \<Rightarrow>
   (bytes \<times> 'n certificate \<times> ('vk, 'fe) public_key_parsed) list \<Rightarrow> bool" where
  "signed_links L prev [] = True"
| "signed_links L prev ((data, cert, key) # ls) =
     (parse_certificate L data = Some cert \<and>
      public_key_parse L (tbs_subject_public_key_info (tbs_certificate_of cert)) = Some (Inr key) \<and>
      (case parse_raw_payload L data of
         None \<Rightarrow> False
       | Some payload \<Rightarrow> validate L cert payload (unwrap_or prev key) = Some (Inr ())) \<and>
      signed_links L (Some key) ls)"

definition trusted_root_key :: "('n, 'vk, 'fe, 'sig) cert_lib \<Rightarrow> ('vk, 'fe) public_key_parsed outcome" where
  "trusted_root_key L =
     bind_p (Some (ok_or (parse_spki L (trusted_root_pub_key L)) ParseExtension)) (public_key_parse L)"

lemma chain_link_effect:
  assumes "chain_link L root data (prev, c0, ids) = Some (Inr acc)"
  obtains cert key i where "acc = (Some key, Some cert, ids @ [i])"
    "\<And>ls. signed_links L prev ((data, cert, key) # ls) = signed_links L (Some key) ls"
    "prev = None \<Longrightarrow> key = root"
  using assms that
  by (auto simp: chain_link_def parse_cert_def parse_cert_payload_def result_simps split: if_splits)

lemma chain_fold_links:
  assumes "chain_fold L root chain (prev, c0, ids) = Some (Inr (pbk, cert, ids'))"
  shows "\<exists>links. map fst links = chain \<and> signed_links L prev links \<and>
    (links \<noteq> [] \<longrightarrow> pbk = Some (snd (snd (last links))) \<and> cert = Some (fst (snd (last links))) \<and>
       (prev = None \<longrightarrow> snd (snd (hd links)) = root))"
  using assms
proof (induction chain arbitrary: prev c0 ids)
  case Nil
  then show ?case by (intro exI [of _ "[]"]) simp
next
  case (Cons data chain)
  then obtain acc where link: "chain_link L root data (prev, c0, ids) = Some (Inr acc)"
    and rest: "chain_fold L root chain acc = Some (Inr (pbk, cert, ids'))"
    by (auto simp: result_simps)
  from link show ?case
  proof (rule chain_link_effect)
    fix c key i
    assume acc: "acc = (Some key, Some c, ids @ [i])"
      and signed: "\<And>ls. signed_links L prev ((data, c, key) # ls) = signed_links L (Some key) ls"
      and root: "prev = None \<Longrightarrow> key = root"
    from Cons.IH [OF rest [unfolded acc]] obtain links where links: "map fst links = chain"
      "signed_links L (Some key) links"
      "links \<noteq> [] \<longrightarrow> pbk = Some (snd (snd (last links))) \<and> cert = Some (fst (snd (last links)))"
      by auto
    have "links = [] \<Longrightarrow> pbk = Some key \<and> cert = Some c" using rest links(1) by (auto simp: acc)
    then show ?thesis
      using links signed root by (intro exI [of _ "(data, c, key) # links"]) (auto simp del: signed_links.simps)
  qed
qed

lemma validate_chain_links:
  assumes "validate_chain L chain = Some (Inr (ids, tbs, pbk))"
  shows "\<exists>links root. map fst links = chain \<and> links \<noteq> [] \<and> signed_links L None links \<and>
    trusted_root_key L = Some (Inr root) \<and> snd (snd (hd links)) = root \<and>
    pbk = snd (snd (last links)) \<and> tbs = tbs_certificate_of (fst (snd (last links)))"
proof -
  from assms obtain root cert ids' where root: "trusted_root_key L = Some (Inr root)"
    and fold: "chain_fold L root chain (None, None, []) = Some (Inr (Some pbk, Some cert, ids'))"
    and tbs: "tbs = tbs_certificate_of cert"
    by (auto simp: validate_chain_def trusted_root_key_def result_simps)
  from chain_fold_links [OF fold] obtain links where links: "map fst links = chain" "signed_links L None links"
    "links \<noteq> [] \<longrightarrow> Some pbk = Some (snd (snd (last links))) \<and> Some cert = Some (fst (snd (last links))) \<and>
       snd (snd (hd links)) = root" by auto
  have "links \<noteq> []" using links(1) fold by auto
  with links root tbs show ?thesis by auto
qed

text \<open>
  C30: Only chains from the trusted root attest a source. When \<open>submit_attestation\<close> succeeds, the
  submitted certificates, at least two, form a chain whose first certificate carries the trusted root
  key and in which every certificate is signed by the key before it; the key of the last one is a
  P-256 key whose hash is the signer's account; and the stored attestation has the validity of the last
  certificate and the bounded form of the key description found in its attestation extension.
\<close>
theorem attestation_rooted:
  assumes "submit_attestation (with_certificates L cfg) (Signed who) chain s = Inr s'"
  shows "\<exists>links root vk a d.
    map fst links = chain \<and> 2 \<le> length chain \<and> signed_links L None links \<and>
    trusted_root_key L = Some (Inr root) \<and> snd (snd (hd links)) = root \<and>
    snd (snd (last links)) = ECDSAKey (CurveP256 vk) \<and>
    encode_account cfg who = blake2_256 cfg (p256_key_to_bytes L vk) \<and>
    stored_attestation s' who = Some a \<and>
    (let tbs = tbs_certificate_of (fst (snd (last links))) in
       timestamp_millis L (asn_not_before (tbs_validity tbs)) = Some (not_before (validity a)) \<and>
       timestamp_millis L (asn_not_after (tbs_validity tbs)) = Some (not_after (validity a)) \<and>
       extract_key_description L (extensions tbs) = Inr d \<and>
       bounded_key_description_try_from (parse_application_id_der L) d = Inr (key_description a))"
proof -
  let ?cfg = "with_certificates L cfg"
  from assms obtain a where a: "validate_and_extract_attestation ?cfg who chain = Inr a"
    and len: "2 \<le> length chain" and s': "stored_attestation s' who = Some a"
    by (auto simp: submit_attestation_def result_simps Let_def deposit_acurast_event_def)
  from a obtain ids cert pk d where
    v: "validated_chain L chain = Inr (ids, cert, pk)" and pk: "ensure_valid_public_key_for_source ?cfg who pk = Inr ()"
    and d: "extract_key_description L (extensions (vc_tbs cert)) = Inr d"
      "bounded_key_description_try_from (parse_application_id_der L) d = Inr (key_description a)"
    and val: "validity a = \<lparr>not_before = vc_not_before cert, not_after = vc_not_after cert\<rparr>"
    by (auto simp: validate_and_extract_attestation_def with_certificates_def result_simps)
  from v obtain pbk where chain: "validate_chain L chain = Some (Inr (ids, vc_tbs cert, pbk))"
    and kind: "pk = key_kind L pbk"
    and dates: "timestamp_millis L (asn_not_before (tbs_validity (vc_tbs cert))) = Some (vc_not_before cert)"
      "timestamp_millis L (asn_not_after (tbs_validity (vc_tbs cert))) = Some (vc_not_after cert)"
    by (auto simp: validated_chain_def split: option.splits sum.splits prod.splits)
  from validate_chain_links [OF chain] obtain links root where links:
    "map fst links = chain" "signed_links L None links" "trusted_root_key L = Some (Inr root)"
    "snd (snd (hd links)) = root" "pbk = snd (snd (last links))" "vc_tbs cert = tbs_certificate_of (fst (snd (last links)))"
    by auto
  from pk kind obtain vk where "pbk = ECDSAKey (CurveP256 vk)" "encode_account cfg who = blake2_256 cfg (p256_key_to_bytes L vk)"
    by (cases "(L, pbk)" rule: key_kind.cases)
      (auto simp: ensure_valid_public_key_for_source_def with_certificates_def result_simps)
  with links len s' dates d val show ?thesis
    by (intro exI [of _ links] exI [of _ root] exI [of _ vk] exI [of _ a] exI [of _ d]) simp
qed

section \<open>Dates of certificates\<close>

definition leap_year :: "int \<Rightarrow> bool" where
  "leap_year y \<longleftrightarrow> 4 dvd y \<and> (\<not> 100 dvd y \<or> 400 dvd y)"

definition days_in_month :: "int \<Rightarrow> nat \<Rightarrow> nat" where
  "days_in_month y m = (if m = 2 then (if leap_year y then 29 else 28) else if m \<in> {4, 6, 9, 11} then 30 else 31)"

definition valid_date_time :: "date_time \<Rightarrow> bool" where
  "valid_date_time t \<longleftrightarrow> 1 \<le> month t \<and> month t \<le> 12 \<and> 1 \<le> day t \<and> day t \<le> days_in_month (year t) (month t) \<and>
     hour t < 24 \<and> minute t < 60 \<and> second t < 60 \<and> 0 \<le> year t \<and> year t \<le> 9999"

text \<open>
  The documented behaviour of \<open>chrono::NaiveDateTime\<close>: the default is the start of 1970, each
  \<open>with_*\<close> replaces one component and fails when the resulting date does not exist, and the
  timestamp is negative exactly before 1970.
\<close>

definition chrono_laws :: "('n, 'vk, 'fe, 'sig) cert_lib \<Rightarrow> bool" where
  "chrono_laws L \<longleftrightarrow>
     dt_default L = \<lparr>year = 1970, month = 1, day = 1, hour = 0, minute = 0, second = 0\<rparr> \<and>
     (\<forall>t n. with_second L t n = (if n < 60 then Some (t\<lparr>second := n\<rparr>) else None)) \<and>
     (\<forall>t n. with_minute L t n = (if n < 60 then Some (t\<lparr>minute := n\<rparr>) else None)) \<and>
     (\<forall>t n. with_hour L t n = (if n < 24 then Some (t\<lparr>hour := n\<rparr>) else None)) \<and>
     (\<forall>t n. with_day L t n = (if 1 \<le> n \<and> n \<le> days_in_month (year t) (month t) then Some (t\<lparr>day := n\<rparr>) else None)) \<and>
     (\<forall>t n. with_month L t n = (if 1 \<le> n \<and> n \<le> 12 \<and> day t \<le> days_in_month (year t) n then Some (t\<lparr>month := n\<rparr>) else None)) \<and>
     (\<forall>t y. 0 \<le> y \<longrightarrow> y \<le> 9999 \<longrightarrow>
        with_year L t y = (if day t \<le> days_in_month y (month t) then Some (t\<lparr>year := y\<rparr>) else None)) \<and>
     (\<forall>t. valid_date_time t \<longrightarrow> (dt_timestamp_millis L t < 0 \<longleftrightarrow> year t < 1970))"

lemma days_in_month_le: "days_in_month y m \<le> 31" "m \<noteq> 2 \<Longrightarrow> days_in_month y m = days_in_month y' m"
  by (simp_all add: days_in_month_def)

text \<open>
  The 29th of February is read as 1970. With a calendar that behaves as documented, the timestamp
  of every valid date from 1970 on is the calendar's, except for the 29th of February, which becomes 0:
  the components are set one by one starting from a date in 1970, and 29 February 1970 does not exist.
  A certificate that expires on a leap day is rejected as expired, and one that starts on a leap day is
  accepted before. A valid date before 1970 makes the conversion panic.
\<close>
theorem timestamp_millis_spec:
  assumes "chrono_laws L" and "valid_date_time (as_datetime t)"
  shows "timestamp_millis L t =
    (if month (as_datetime t) = 2 \<and> day (as_datetime t) = 29 then Some 0
     else if year (as_datetime t) < 1970 then None
     else Some (nat (dt_timestamp_millis L (as_datetime t))))"
proof -
  let ?d = "as_datetime t"
  have fields: "\<lparr>year = year ?d, month = month ?d, day = day ?d, hour = hour ?d, minute = minute ?d, second = second ?d\<rparr> = ?d"
    by simp
  have v: "1 \<le> month ?d" "month ?d \<le> 12" "1 \<le> day ?d" "day ?d \<le> days_in_month (year ?d) (month ?d)"
    "hour ?d < 24" "minute ?d < 60" "second ?d < 60" "0 \<le> year ?d" "year ?d \<le> 9999"
    using assms(2) by (simp_all add: valid_date_time_def)
  have day31: "day ?d \<le> days_in_month 1970 1"
    using v(4) days_in_month_le(1) [of "year ?d" "month ?d"] by (simp add: days_in_month_def split: if_splits)
  have leap: "day ?d \<le> days_in_month 1970 (month ?d) \<longleftrightarrow> \<not> (month ?d = 2 \<and> day ?d = 29)"
  proof (cases "month ?d = 2")
    case True
    with v(4) show ?thesis by (auto simp: days_in_month_def leap_year_def split: if_splits)
  next
    case False
    with v(4) days_in_month_le(2) [OF False] show ?thesis by metis
  qed
  let ?t5 = "\<lparr>year = 1970, month = month ?d, day = day ?d, hour = hour ?d, minute = minute ?d, second = second ?d\<rparr>"
  have built: "do {
      t1 \<leftarrow> with_second L (dt_default L) (second ?d);
      t2 \<leftarrow> with_minute L t1 (minute ?d);
      t3 \<leftarrow> with_hour L t2 (hour ?d);
      t4 \<leftarrow> with_day L t3 (day ?d);
      t5 \<leftarrow> with_month L t4 (month ?d);
      with_year L t5 (year ?d)
    } = (if month ?d = 2 \<and> day ?d = 29 then None else Some ?d)" (is "?chain = _")
  proof -
    have "?chain = (if day ?d \<le> days_in_month 1970 (month ?d) then with_year L ?t5 (year ?d) else None)"
      using assms(1) v day31 by (simp add: chrono_laws_def)
    also have "\<dots> = (if month ?d = 2 \<and> day ?d = 29 then None else with_year L ?t5 (year ?d))"
      by (simp only: leap if_not_P) simp
    also have "with_year L ?t5 (year ?d) = Some ?d"
      using assms(1) v by (simp add: chrono_laws_def)
    finally show ?thesis .
  qed
  have "dt_timestamp_millis L ?d < 0 \<longleftrightarrow> year ?d < 1970"
    using assms by (simp add: chrono_laws_def)
  then show ?thesis unfolding timestamp_millis_def Let_def built by simp
qed

section \<open>RSA signatures\<close>

definition be_value :: "bytes \<Rightarrow> nat" where
  "be_value bs = foldl (\<lambda>n b. 256 * n + b) 0 bs"

text \<open>The documented behaviour of \<open>num_bigint::BigUint\<close>, and the shape of a SHA-256 digest.\<close>

definition biguint_laws :: "('n, 'vk, 'fe, 'sig) cert_lib \<Rightarrow> bool" where
  "biguint_laws L \<longleftrightarrow>
     (\<forall>bs. from_bytes_be L bs = be_value bs) \<and>
     (\<forall>n. be_value (to_bytes_be L n) = n \<and> (\<forall>b\<in>set (to_bytes_be L n). b < 256)) \<and>
     (\<forall>a e m. 0 < m \<longrightarrow> modpow L a e m = Some (a ^ e mod m))"

definition sha256_laws :: "('n, 'vk, 'fe, 'sig) cert_lib \<Rightarrow> bool" where
  "sha256_laws L \<longleftrightarrow> (\<forall>p. length (sha256 L p) = 32 \<and> (\<forall>b\<in>set (sha256 L p). b < 256))"

text \<open>A cube root modulo a power of two, bit by bit.\<close>

primrec cube_root_mod :: "nat \<Rightarrow> nat \<Rightarrow> nat" where
  "cube_root_mod h 0 = 1"
| "cube_root_mod h (Suc k) =
     (let x = cube_root_mod h k in
      if k = 0 \<or> x ^ 3 mod 2 ^ Suc k = h mod 2 ^ Suc k then x else x + 2 ^ k)"

definition forged_signature :: "('n, 'vk, 'fe, 'sig) cert_lib \<Rightarrow> bytes \<Rightarrow> bytes" where
  "forged_signature L digest = to_bytes_be L (cube_root_mod (be_value digest) 256 + 2 ^ 256)"

lemma be_value_snoc: "be_value (bs @ [b]) = 256 * be_value bs + b"
  by (simp add: be_value_def)

lemma be_value_Nil [simp]: "be_value [] = 0"
  by (simp add: be_value_def)

lemma be_value_append: "be_value (as @ bs) = be_value as * 256 ^ length bs + be_value bs"
proof (induction bs rule: rev_induct)
  case (snoc b bs)
  have "be_value (as @ bs @ [b]) = 256 * be_value (as @ bs) + b" by (metis append_assoc be_value_snoc)
  with snoc show ?case by (simp add: be_value_snoc distrib_left)
qed simp

lemma be_value_less: "\<forall>b\<in>set bs. b < 256 \<Longrightarrow> be_value bs < 256 ^ length bs"
proof (induction bs rule: rev_induct)
  case (snoc b bs)
  then have "be_value bs + 1 \<le> 256 ^ length bs" "b < 256" by simp_all
  then have "256 * (be_value bs + 1) \<le> 256 * 256 ^ length bs" by (intro mult_le_mono2)
  with \<open>b < 256\<close> show ?case by (simp add: be_value_snoc)
qed simp

lemma be_value_inject:
  assumes "length as = length bs" "\<forall>b\<in>set as. b < 256" "\<forall>b\<in>set bs. b < 256" "be_value as = be_value bs"
  shows "as = bs"
  using assms
proof (induction as arbitrary: bs rule: rev_induct)
  case (snoc a as)
  then obtain b bs' where bs: "bs = bs' @ [b]" by (cases bs rule: rev_cases) auto
  with snoc.prems have eq: "256 * be_value as + a = 256 * be_value bs' + b" "a < 256" "b < 256"
    by (simp_all add: be_value_snoc)
  then have "(256 * be_value as + a) mod 256 = (256 * be_value bs' + b) mod 256" by simp
  with eq(2,3) have "a = b" by simp
  with eq(1) have "be_value as = be_value bs'" by simp
  with snoc \<open>a = b\<close> bs show ?case by simp
qed simp

lemma cube_step:
  assumes "odd x"
  shows "(x + 2 ^ Suc j) ^ 3 mod 2 ^ Suc (Suc j) = (x ^ 3 + 2 ^ Suc j) mod (2 ^ Suc (Suc j) :: nat)"
proof -
  from assms obtain m where x: "x = 2 * m + 1" by (auto elim: oddE)
  have "(x + 2 ^ Suc j) ^ 3 = x ^ 3 + 2 ^ Suc j + 2 ^ Suc (Suc j) * (6 * m * m + 6 * m + 1 + 3 * x * 2 ^ j + 2 * 2 ^ j * 2 ^ j)"
    by (simp add: x power3_eq_cube power2_eq_square algebra_simps)
  then show ?thesis by (simp only: mod_mult_self2)
qed

lemma cube_root_mod_odd: "odd (cube_root_mod h k)"
  by (induction k) (simp_all add: Let_def)

lemma cube_root_mod_less: "cube_root_mod h k < 2 ^ Suc k"
  by (induction k) (auto simp: Let_def)

lemma parity_flip: "q mod 2 \<noteq> r mod 2 \<Longrightarrow> (q + 1) mod 2 = r mod (2::nat)"
  by presburger

lemma mod_two_cases:
  assumes "(a::nat) mod 2 ^ Suc j = b mod 2 ^ Suc j" and "a mod 2 ^ Suc (Suc j) \<noteq> b mod 2 ^ Suc (Suc j)"
  shows "(a + 2 ^ Suc j) mod 2 ^ Suc (Suc j) = b mod 2 ^ Suc (Suc j)"
proof -
  let ?m = "2 ^ Suc j :: nat"
  have split: "n mod 2 ^ Suc (Suc j) = n mod ?m + ?m * (n div ?m mod 2)" for n :: nat
    by (metis add.commute mod_mult2_eq mult.commute power_Suc)
  have "a div ?m mod 2 \<noteq> b div ?m mod 2" using assms by (auto simp only: split)
  then have "(a div ?m + 1) mod 2 = b div ?m mod 2" by (rule parity_flip)
  moreover have "(a + ?m) div ?m = a div ?m + 1" by (rule div_add_self2) simp
  moreover have "(a + ?m) mod ?m = b mod ?m" using assms(1) by (simp only: mod_add_self2)
  ultimately show ?thesis by (simp only: split)
qed

lemma cube_root_mod_cube:
  assumes "odd h"
  shows "cube_root_mod h (Suc k) ^ 3 mod 2 ^ Suc k = h mod 2 ^ Suc k"
proof (induction k)
  case 0
  show ?case using assms by (simp add: Let_def odd_iff_mod_2_eq_one)
next
  case (Suc j)
  let ?x = "cube_root_mod h (Suc j)"
  show ?case
  proof (cases "?x ^ 3 mod 2 ^ Suc (Suc j) = h mod 2 ^ Suc (Suc j)")
    case True
    then show ?thesis by (simp only: cube_root_mod.simps(2) [of h "Suc j"] Let_def if_True simp_thms)
  next
    case False
    with mod_two_cases [OF Suc this] cube_step [OF cube_root_mod_odd, of h "Suc j" j]
    show ?thesis by (simp only: cube_root_mod.simps(2) [of h "Suc j"] Let_def if_False simp_thms nat.simps)
  qed
qed

lemma cube_root_mod_pos: "odd h \<Longrightarrow> 0 < k \<Longrightarrow> cube_root_mod h k ^ 3 mod 2 ^ k = h mod 2 ^ k"
  by (cases k) (use cube_root_mod_cube in auto)


section \<open>Witnesses\<close>

text \<open>
  A small library: certificates are named by one byte, a signature is the key followed by the payload,
  dates are counted in years of 366 days, and big integers are written in base 256.
\<close>

fun be_bytes :: "nat \<Rightarrow> bytes" where
  "be_bytes n = (if n < 256 then [n] else be_bytes (n div 256) @ [n mod 256])"

declare be_bytes.simps [simp del]

lemma be_value_be_bytes: "be_value (be_bytes n) = n \<and> (\<forall>b\<in>set (be_bytes n). b < 256)"
proof (induction n rule: be_bytes.induct)
  case (1 n)
  show ?case
  proof (cases "n < 256")
    case True
    then show ?thesis by (simp add: be_bytes.simps [of n] be_value_def)
  next
    case False
    with 1 show ?thesis by (simp add: be_bytes.simps [of n] be_value_snoc)
  qed
qed

definition sample_tbs :: "bytes \<Rightarrow> unit tbs_certificate" where
  "sample_tbs key =
     \<lparr>tbs_version = 3, tbs_serial_number = key,
      tbs_signature = \<lparr>algorithm = ECDSA_WITH_SHA256_ALGORITHM, parameters = None\<rparr>, issuer = (),
      tbs_validity = \<lparr>asn_not_before = UTCTime \<lparr>year = 1970, month = 1, day = 1, hour = 0, minute = 0, second = 0\<rparr>,
                      asn_not_after = GeneralizedTime \<lparr>year = 2048, month = 1, day = 1, hour = 0, minute = 0, second = 0\<rparr>\<rparr>,
      subject = (),
      tbs_subject_public_key_info = \<lparr>spki_algorithm = \<lparr>algorithm = ECDSA_PBK, parameters = Some CURVE_P256\<rparr>, subject_public_key = key\<rparr>,
      issuer_unique_id = None, subject_unique_id = None,
      extensions = Some [\<lparr>extn_id = KEY_ATTESTATION_OID, critical = False, extn_value = [1]\<rparr>]\<rparr>"

definition sample_cert :: "bytes \<Rightarrow> bytes \<Rightarrow> unit certificate" where
  "sample_cert signer key =
     \<lparr>tbs_certificate_of = sample_tbs key,
      signature_algorithm = \<lparr>algorithm = ECDSA_WITH_SHA256_ALGORITHM, parameters = None\<rparr>,
      signature_value = signer @ key\<rparr>"

definition sample_lib :: "(unit, bytes, unit, bytes) cert_lib" where
  "sample_lib =
     \<lparr>parse_certificate = (\<lambda>d. if d = [7] then Some (sample_cert [7] [7]) else if d = [8] then Some (sample_cert [7] [8]) else None),
      parse_raw_payload = Some, write_name = (\<lambda>_. Some []),
      parse_spki = (\<lambda>d. Some \<lparr>spki_algorithm = \<lparr>algorithm = ECDSA_PBK, parameters = Some CURVE_P256\<rparr>, subject_public_key = d\<rparr>),
      parse_object_identifier = Some, parse_rsa_public_key = (\<lambda>_. None),
      read_sequence = Some, read_i64 = (\<lambda>d. Some 1),
      parse_kd_v1 = (\<lambda>_. Some sample_key_description), parse_kd_v2 = (\<lambda>_. None), parse_kd_v3 = (\<lambda>_. None),
      parse_kd_v4 = (\<lambda>_. None), parse_kd_key_mint = (\<lambda>_. None), parse_application_id_der = (\<lambda>_. None),
      from_bytes_be = be_value, to_bytes_be = be_bytes,
      modpow = (\<lambda>a e m. if m = 0 then None else Some (a ^ e mod m)),
      sha256 = (\<lambda>p. replicate 31 0 @ [1]), sha384 = (\<lambda>p. replicate 48 0),
      p256_key_from_sec1 = Some, p256_key_to_bytes = id,
      p256_signature_from_der = Some, p256_verify = (\<lambda>k p sig. sig = k @ p),
      p384_field_from_be = (\<lambda>_. None), p384_signature_from_der = (\<lambda>_. None), p384_verify_prehashed = (\<lambda>_ _ _. False),
      trusted_root_pub_key = [7],
      dt_default = \<lparr>year = 1970, month = 1, day = 1, hour = 0, minute = 0, second = 0\<rparr>,
      with_second = (\<lambda>t n. if n < 60 then Some (t\<lparr>second := n\<rparr>) else None),
      with_minute = (\<lambda>t n. if n < 60 then Some (t\<lparr>minute := n\<rparr>) else None),
      with_hour = (\<lambda>t n. if n < 24 then Some (t\<lparr>hour := n\<rparr>) else None),
      with_day = (\<lambda>t n. if 1 \<le> n \<and> n \<le> days_in_month (year t) (month t) then Some (t\<lparr>day := n\<rparr>) else None),
      with_month = (\<lambda>t n. if 1 \<le> n \<and> n \<le> 12 \<and> day t \<le> days_in_month (year t) n then Some (t\<lparr>month := n\<rparr>) else None),
      with_year = (\<lambda>t y. if day t \<le> days_in_month y (month t) then Some (t\<lparr>year := y\<rparr>) else None),
      dt_timestamp_millis = (\<lambda>t. (year t - 1970) * 31622400000)\<rparr>"

lemma sample_lib_laws: "chrono_laws sample_lib" "biguint_laws sample_lib" "sha256_laws sample_lib"
  using be_value_be_bytes
  by (simp_all add: chrono_laws_def biguint_laws_def sha256_laws_def sample_lib_def mult_less_0_iff)

theorem timestamp_millis_spec_witness:
  "timestamp_millis sample_lib (UTCTime \<lparr>year = 2024, month = 2, day = 29, hour = 12, minute = 0, second = 0\<rparr>) = Some 0 \<and>
   timestamp_millis sample_lib (UTCTime \<lparr>year = 2024, month = 3, day = 1, hour = 12, minute = 0, second = 0\<rparr>) = Some (54 * 31622400000)"
  using timestamp_millis_spec [OF sample_lib_laws(1), of "UTCTime \<lparr>year = 2024, month = 2, day = 29, hour = 12, minute = 0, second = 0\<rparr>"]
    timestamp_millis_spec [OF sample_lib_laws(1), of "UTCTime \<lparr>year = 2024, month = 3, day = 1, hour = 12, minute = 0, second = 0\<rparr>"]
  by (simp add: as_datetime_def valid_date_time_def days_in_month_def leap_year_def) (simp add: sample_lib_def)


definition sample_acurast_config :: "(unit validated_cert, asn_description) acurast_config" where
  "sample_acurast_config =
     \<lparr>MaxAllowedSources = 5, MaxSlots = 1, can_update_revocation_list = (\<lambda>_ _. False),
      accept_attestation_for_origin = (\<lambda>_ _. True), validate_certificate_chain = (\<lambda>_. Inl ()),
      cert_not_before = (\<lambda>_. 0), cert_not_after = (\<lambda>_. 0), extract_attestation = (\<lambda>_. Inl ()),
      bounded_key_description_of = (\<lambda>_. Inl ()), blake2_256 = id, encode_account = (\<lambda>a. [a])\<rparr>"

lemmas chain_defs = validated_chain_def validate_chain_def chain_link_def parse_cert_def parse_cert_payload_def
  public_key_parse_def validate_def validate_ecdsa_def unique_id_def timestamp_millis_def as_datetime_def
  extract_key_description_def peek_attestation_version_def sample_cert_def sample_tbs_def
  RSA_PBK_def ECDSA_PBK_def CURVE_P256_def RSA_ALGORITHM_def ECDSA_WITH_SHA256_ALGORITHM_def KEY_ATTESTATION_OID_def

lemma sample_submission_ok:
  "is_ok (submit_attestation (with_certificates sample_lib sample_acurast_config) (Signed 8) [[7], [8]] demo_state)"
proof -
  have chain: "validated_chain sample_lib [[7], [8]] =
      Inr ([([], [7]), ([], [8])], \<lparr>vc_tbs = sample_tbs [8], vc_not_before = 0, vc_not_after = 78 * 31622400000\<rparr>, ECDSA_P256 [8])"
    by (simp add: chain_defs sample_lib_def days_in_month_def leap_year_def)
  have ext: "extract_key_description sample_lib (extensions (sample_tbs [8])) = Inr (V1 sample_key_description)"
    by (simp add: chain_defs sample_lib_def)
  have "is_ok (bounded_key_description_try_from (\<lambda>_. None) (V1 sample_key_description))"
    by (simp add: sample_key_description_def sample_authorization_list_def conversion_defs)
  then obtain b where b: "bounded_key_description_try_from (\<lambda>_. None) (V1 sample_key_description) = Inr b"
    by (auto simp: is_ok_ex)
  have exp: "al_usage_expire_date_time (tee_enforced b) = Some 1800000000000"
    using b by (auto simp: sample_key_description_def sample_authorization_list_def conversion_defs)
  have lib: "parse_application_id_der sample_lib = (\<lambda>_. None)" by (simp add: sample_lib_def)
  show ?thesis
    using b exp
    by (simp add: submit_attestation_def validate_and_extract_attestation_def with_certificates_def chain ext
        ensure_valid_public_key_for_source_def sample_acurast_config_def bounded_cert_id_def ensure_not_expired_def
        usage_expiry_def now_millis_def ensure_not_revoked_def demo_state_def lib Let_def)
qed

theorem attestation_rooted_witness:
  "\<exists>s' links. submit_attestation (with_certificates sample_lib sample_acurast_config) (Signed 8) [[7], [8]] demo_state = Inr s' \<and>
     map fst links = [[7], [8]] \<and> signed_links sample_lib None links \<and>
     trusted_root_key sample_lib = Some (Inr (snd (snd (hd links))))"
proof -
  from sample_submission_ok obtain s' where
    s': "submit_attestation (with_certificates sample_lib sample_acurast_config) (Signed 8) [[7], [8]] demo_state = Inr s'"
    by (auto simp: is_ok_ex)
  from attestation_rooted [OF this] obtain links root where "map fst links = [[7], [8]]"
    "signed_links sample_lib None links" "trusted_root_key sample_lib = Some (Inr root)" "snd (snd (hd links)) = root"
    by metis
  with s' show ?thesis by (intro exI [of _ s'] exI [of _ links]) simp
qed

end
