(* ===== verification/Processor_Manager.thy ===== *)
theory Processor_Manager
  imports Acurast
begin

text \<open>
  The pallet \<open>pallets/processor-manager\<close>: the pairing of processors with the manager accounts
  that own them (\<open>lib.rs\<close>, \<open>functions.rs\<close>), the pairing proofs (\<open>types.rs\<close>) and the
  interfaces of \<open>traits.rs\<close>.

  The manager identifiers are tokens of a provider outside the pallet
  (\<open>T::ManagerIdProvider\<close>); recovering assets and advertising act on other pallets. Their
  combined storage is the component \<open>pm_env\<close> of the state, and their operations are fields of
  the configuration, with signature verification and the SCALE encodings of the signed message.
\<close>

section \<open>Types\<close>

type_synonym manager_id = nat
type_synonym counter = nat
type_synonym binary_hash = bytes

record 'sig proof_data =
  timestamp :: u128
  signature :: 'sig

record 'sig processor_pairing =
  account :: account_id
  pairing_proof :: "'sig proof_data option"

definition new_with_proof :: "account_id \<Rightarrow> u128 \<Rightarrow> 'sig \<Rightarrow> 'sig processor_pairing" where
  "new_with_proof acc t sig = \<lparr>account = acc, pairing_proof = Some \<lparr>timestamp = t, signature = sig\<rparr>\<rparr>"

definition new_pairing :: "account_id \<Rightarrow> 'sig processor_pairing" where
  "new_pairing acc = \<lparr>account = acc, pairing_proof = None\<rparr>"

record version =
  platform :: u32
  build_number :: u32

record update_info =
  info_version :: version
  binary_location :: bytes

datatype pm_error =
    FailedToCreateManagerId
  | ProcessorAlreadyPaired
  | ProcessorPairedWithAnotherManager
  | InvalidPairingProof
  | ProcessorHasNoManager
  | CounterOverflow
  | PairingProofExpired
  | UnknownProcessorVersion

datatype ('sig, 'ad) pm_event =
    ManagerCreated account_id manager_id
  | ProcessorPairingsUpdated account_id "'sig processor_pairing list_update list"
  | ProcessorFundsRecovered account_id account_id
  | ProcessorPaired account_id "'sig processor_pairing"
  | ProcessorHeartbeat account_id
  | ProcessorAdvertisement account_id account_id 'ad
  | ProcessorHeartbeatWithVersion account_id version
  | BinaryHashUpdated version "binary_hash option"
  | ProcessorUpdateInfoSet account_id update_info

record ('sig, 'ad, 'env) pm_state =
  pm_now :: u128
  last_manager_id :: "manager_id option"
  managed_processors :: "manager_id \<Rightarrow> account_id set"
  manager_id_for_processor :: "account_id \<rightharpoonup> manager_id"
  counter_for_manager :: "account_id \<rightharpoonup> counter"
  processor_last_seen :: "account_id \<rightharpoonup> u128"
  processor_version :: "account_id \<rightharpoonup> version"
  known_binary_hash :: "version \<rightharpoonup> binary_hash"
  processor_update_info :: "account_id \<rightharpoonup> update_info"
  pm_events :: "('sig, 'ad) pm_event list"
  pm_env :: 'env

type_synonym 'a pm_result = "pm_error dispatch_error + 'a"

text \<open>
  \<open>Config\<close>: the widths of the generic integer types \<open>ManagerId\<close> and \<open>Counter\<close>, the time a
  pairing proof is valid, the provider of manager identifiers, the two handlers, and the library
  functions that encode and verify a proof.
\<close>

record ('sig, 'ad, 'env) pm_config =
  manager_id_bits :: nat
  counter_bits :: nat
  PairingProofExpirationTime :: u128
  create_manager_id :: "manager_id \<Rightarrow> account_id \<Rightarrow> 'env \<Rightarrow> 'env pm_result"
  manager_id_for :: "account_id \<Rightarrow> 'env \<Rightarrow> manager_id pm_result"
  owner_for :: "manager_id \<Rightarrow> 'env \<Rightarrow> account_id pm_result"
  recover_assets :: "account_id \<Rightarrow> account_id \<Rightarrow> 'env \<Rightarrow> 'env pm_result"
  handler_advertise_for :: "account_id \<Rightarrow> 'ad \<Rightarrow> 'env \<Rightarrow> 'env pm_result"
  encode_account_id :: "account_id \<Rightarrow> bytes"
  encode_u128 :: "u128 \<Rightarrow> bytes"
  encode_counter :: "counter \<Rightarrow> bytes"
  verify :: "'sig \<Rightarrow> bytes \<Rightarrow> account_id \<Rightarrow> bool"

text \<open>\<open>impl AdvertisementHandler<T> for ()\<close>.\<close>

definition unit_advertise_for :: "account_id \<Rightarrow> 'ad \<Rightarrow> 'env \<Rightarrow> 'env pm_result" where
  "unit_advertise_for processor advertisement env = Inr env"

section \<open>Pairing proofs (types.rs)\<close>

definition validate_timestamp ::
  "('sig, 'ad, 'env) pm_config \<Rightarrow> 'sig processor_pairing \<Rightarrow> ('sig, 'ad, 'env) pm_state \<Rightarrow> bool" where
  "validate_timestamp cfg self s =
     (case pairing_proof self of
        Some prf \<Rightarrow>
          (case checked_sub (pm_now s) (timestamp prf) of
             Some diff \<Rightarrow> timestamp prf \<le> pm_now s \<and> diff < PairingProofExpirationTime cfg
           | None \<Rightarrow> False)
      | None \<Rightarrow> False)"

text \<open>\<open>b"<Bytes>"\<close> and \<open>b"</Bytes>"\<close>.\<close>

definition BYTES_OPEN :: bytes where
  "BYTES_OPEN = [60, 66, 121, 116, 101, 115, 62]"

definition BYTES_CLOSE :: bytes where
  "BYTES_CLOSE = [60, 47, 66, 121, 116, 101, 115, 62]"

definition pairing_message ::
  "('sig, 'ad, 'env) pm_config \<Rightarrow> account_id \<Rightarrow> u128 \<Rightarrow> counter \<Rightarrow> bytes" where
  "pairing_message cfg account_id t counter =
     concat [BYTES_OPEN, encode_account_id cfg account_id, encode_u128 cfg t,
       encode_counter cfg counter, BYTES_CLOSE]"

definition validate_signature ::
  "('sig, 'ad, 'env) pm_config \<Rightarrow> 'sig processor_pairing \<Rightarrow> account_id \<Rightarrow> counter \<Rightarrow> bool" where
  "validate_signature cfg self account_id counter =
     (case pairing_proof self of
        Some prf \<Rightarrow>
          verify cfg (signature prf) (pairing_message cfg account_id (timestamp prf) counter) (account self)
      | None \<Rightarrow> False)"

section \<open>Internal operations (functions.rs)\<close>

definition deposit_pm_event :: "('sig, 'ad) pm_event \<Rightarrow> ('sig, 'ad, 'env) pm_state \<Rightarrow> ('sig, 'ad, 'env) pm_state" where
  "deposit_pm_event e s = s\<lparr>pm_events := pm_events s @ [e]\<rparr>"

definition manager_for_processor ::
  "('sig, 'ad, 'env) pm_config \<Rightarrow> account_id \<Rightarrow> ('sig, 'ad, 'env) pm_state \<Rightarrow> account_id option" where
  "manager_for_processor cfg processor_account s =
     do {
       mid \<leftarrow> manager_id_for_processor s processor_account;
       case owner_for cfg mid (pm_env s) of Inr owner \<Rightarrow> Some owner | Inl _ \<Rightarrow> None
     }"

definition do_get_or_create_manager_id ::
  "('sig, 'ad, 'env) pm_config \<Rightarrow> account_id \<Rightarrow> ('sig, 'ad, 'env) pm_state \<Rightarrow>
   ((manager_id \<times> bool) \<times> ('sig, 'ad, 'env) pm_state) pm_result" where
  "do_get_or_create_manager_id cfg manager s =
     (case manager_id_for cfg manager (pm_env s) of
        Inr mid \<Rightarrow> Inr ((mid, False), s)
      | Inl _ \<Rightarrow>
          bind_r (ok_or (checked_add (manager_id_bits cfg) (unwrap_or (last_manager_id s) 0) 1)
                    (Module FailedToCreateManagerId)) (\<lambda>mid.
          bind_r (create_manager_id cfg mid manager (pm_env s)) (\<lambda>env.
          Inr ((mid, True), s\<lparr>pm_env := env, last_manager_id := Some mid\<rparr>))))"

definition do_add_processor_manager_pairing ::
  "account_id \<Rightarrow> manager_id \<Rightarrow> ('sig, 'ad, 'env) pm_state \<Rightarrow> ('sig, 'ad, 'env) pm_state pm_result" where
  "do_add_processor_manager_pairing processor_account manager_id s =
     (case manager_id_for_processor s processor_account of
        Some mid \<Rightarrow>
          (if mid = manager_id then Inl (Module ProcessorAlreadyPaired)
           else Inl (Module ProcessorPairedWithAnotherManager))
      | None \<Rightarrow>
          Inr (s\<lparr>managed_processors := (managed_processors s)
                   (manager_id := insert processor_account (managed_processors s manager_id)),
                 manager_id_for_processor := (manager_id_for_processor s)(processor_account \<mapsto> manager_id)\<rparr>))"

definition do_remove_processor_manager_pairing ::
  "account_id \<Rightarrow> manager_id \<Rightarrow> ('sig, 'ad, 'env) pm_state \<Rightarrow> ('sig, 'ad, 'env) pm_state pm_result" where
  "do_remove_processor_manager_pairing processor_account manager_id s =
     (case manager_id_for_processor s processor_account of
        Some mid \<Rightarrow>
          (if mid \<noteq> manager_id then Inl (Module ProcessorPairedWithAnotherManager)
           else Inr (s\<lparr>managed_processors := (managed_processors s)
                         (manager_id := managed_processors s manager_id - {processor_account}),
                       manager_id_for_processor := (manager_id_for_processor s)(processor_account := None)\<rparr>))
      | None \<Rightarrow> Inr s)"

definition ensure_managed ::
  "('sig, 'ad, 'env) pm_config \<Rightarrow> account_id \<Rightarrow> account_id \<Rightarrow> ('sig, 'ad, 'env) pm_state \<Rightarrow> manager_id pm_result" where
  "ensure_managed cfg manager processor s =
     bind_r (manager_id_for cfg manager (pm_env s)) (\<lambda>manager_id.
     bind_r (ok_or (manager_id_for_processor s processor) (Module ProcessorHasNoManager)) (\<lambda>processor_manager_id.
     if manager_id \<noteq> processor_manager_id then Inl (Module ProcessorPairedWithAnotherManager)
     else Inr manager_id))"

text \<open>\<open>counter_for_manager(who).unwrap_or(0).checked_add(1)\<close>.\<close>

definition next_counter ::
  "('sig, 'ad, 'env) pm_config \<Rightarrow> account_id \<Rightarrow> ('sig, 'ad, 'env) pm_state \<Rightarrow> counter pm_result" where
  "next_counter cfg who s =
     ok_or (checked_add (counter_bits cfg) (unwrap_or (counter_for_manager s who) 0) 1) (Module CounterOverflow)"

section \<open>Dispatchables\<close>

definition announce_manager ::
  "account_id \<Rightarrow> manager_id \<Rightarrow> bool \<Rightarrow> ('sig, 'ad, 'env) pm_state \<Rightarrow> ('sig, 'ad, 'env) pm_state" where
  "announce_manager who manager_id created s =
     (if created then deposit_pm_event (ManagerCreated who manager_id) s else s)"

definition apply_pairing_update ::
  "('sig, 'ad, 'env) pm_config \<Rightarrow> account_id \<Rightarrow> manager_id \<Rightarrow> 'sig processor_pairing list_update \<Rightarrow>
   ('sig, 'ad, 'env) pm_state \<Rightarrow> ('sig, 'ad, 'env) pm_state pm_result" where
  "apply_pairing_update cfg who manager_id upd s =
     (case operation upd of
        Add \<Rightarrow>
          bind_r (ensure (validate_timestamp cfg (item upd) s) (Module PairingProofExpired)) (\<lambda>_.
          bind_r (next_counter cfg who s) (\<lambda>counter.
          bind_r (ensure (validate_signature cfg (item upd) who counter) (Module InvalidPairingProof)) (\<lambda>_.
          bind_r (do_add_processor_manager_pairing (account (item upd)) manager_id s) (\<lambda>s1.
          Inr (s1\<lparr>counter_for_manager := (counter_for_manager s1)(who \<mapsto> counter)\<rparr>)))))
      | Remove \<Rightarrow> do_remove_processor_manager_pairing (account (item upd)) manager_id s)"

definition update_processor_pairings ::
  "('sig, 'ad, 'env) pm_config \<Rightarrow> origin \<Rightarrow> 'sig processor_pairing list_update list \<Rightarrow>
   ('sig, 'ad, 'env) pm_state \<Rightarrow> ('sig, 'ad, 'env) pm_state pm_result" where
  "update_processor_pairings cfg o' pairing_updates s =
     bind_r (ensure_signed o') (\<lambda>who.
     bind_r (do_get_or_create_manager_id cfg who s) (\<lambda>((manager_id, created), s1).
     bind_r (fold_r (apply_pairing_update cfg who manager_id) pairing_updates
               (announce_manager who manager_id created s1)) (\<lambda>s2.
     Inr (deposit_pm_event (ProcessorPairingsUpdated who pairing_updates) s2))))"

definition pair_with_manager ::
  "('sig, 'ad, 'env) pm_config \<Rightarrow> origin \<Rightarrow> 'sig processor_pairing \<Rightarrow>
   ('sig, 'ad, 'env) pm_state \<Rightarrow> ('sig, 'ad, 'env) pm_state pm_result" where
  "pair_with_manager cfg o' pairing s =
     bind_r (ensure_signed o') (\<lambda>who.
     bind_r (ensure (validate_timestamp cfg pairing s) (Module PairingProofExpired)) (\<lambda>_.
     bind_r (do_get_or_create_manager_id cfg (account pairing) s) (\<lambda>((manager_id, created), s1).
     let s2 = announce_manager (account pairing) manager_id created s1 in
     bind_r (next_counter cfg (account pairing) s2) (\<lambda>counter.
     bind_r (ensure (validate_signature cfg pairing (account pairing) counter) (Module InvalidPairingProof)) (\<lambda>_.
     bind_r (do_add_processor_manager_pairing who manager_id s2) (\<lambda>s3.
     Inr (deposit_pm_event (ProcessorPaired who pairing)
           (s3\<lparr>counter_for_manager := (counter_for_manager s3)(account pairing \<mapsto> counter)\<rparr>))))))))"

definition recover_funds ::
  "('sig, 'ad, 'env) pm_config \<Rightarrow> origin \<Rightarrow> account_id \<Rightarrow> account_id \<Rightarrow>
   ('sig, 'ad, 'env) pm_state \<Rightarrow> ('sig, 'ad, 'env) pm_state pm_result" where
  "recover_funds cfg o' processor destination s =
     bind_r (ensure_signed o') (\<lambda>who.
     bind_r (ensure_managed cfg who processor s) (\<lambda>_.
     bind_r (recover_assets cfg processor destination (pm_env s)) (\<lambda>env.
     Inr (deposit_pm_event (ProcessorFundsRecovered processor destination) (s\<lparr>pm_env := env\<rparr>)))))"

definition heartbeat ::
  "origin \<Rightarrow> ('sig, 'ad, 'env) pm_state \<Rightarrow> ('sig, 'ad, 'env) pm_state pm_result" where
  "heartbeat o' s =
     bind_r (ensure_signed o') (\<lambda>who.
     bind_r (ok_or (manager_id_for_processor s who) (Module ProcessorHasNoManager)) (\<lambda>_.
     Inr (deposit_pm_event (ProcessorHeartbeat who)
           (s\<lparr>processor_last_seen := (processor_last_seen s)(who \<mapsto> pm_now s)\<rparr>))))"

definition advertise_for ::
  "('sig, 'ad, 'env) pm_config \<Rightarrow> origin \<Rightarrow> account_id \<Rightarrow> 'ad \<Rightarrow>
   ('sig, 'ad, 'env) pm_state \<Rightarrow> ('sig, 'ad, 'env) pm_state pm_result" where
  "advertise_for cfg o' processor advertisement s =
     bind_r (ensure_signed o') (\<lambda>who.
     bind_r (ensure_managed cfg who processor s) (\<lambda>_.
     bind_r (handler_advertise_for cfg processor advertisement (pm_env s)) (\<lambda>env.
     Inr (deposit_pm_event (ProcessorAdvertisement who processor advertisement) (s\<lparr>pm_env := env\<rparr>)))))"

definition heartbeat_with_version ::
  "origin \<Rightarrow> version \<Rightarrow> ('sig, 'ad, 'env) pm_state \<Rightarrow> ('sig, 'ad, 'env) pm_state pm_result" where
  "heartbeat_with_version o' v s =
     bind_r (ensure_signed o') (\<lambda>who.
     bind_r (ok_or (manager_id_for_processor s who) (Module ProcessorHasNoManager)) (\<lambda>_.
     Inr (deposit_pm_event (ProcessorHeartbeatWithVersion who v)
           (s\<lparr>processor_last_seen := (processor_last_seen s)(who \<mapsto> pm_now s),
              processor_version := (processor_version s)(who \<mapsto> v)\<rparr>))))"

definition update_binary_hash ::
  "origin \<Rightarrow> version \<Rightarrow> binary_hash option \<Rightarrow> ('sig, 'ad, 'env) pm_state \<Rightarrow> ('sig, 'ad, 'env) pm_state pm_result" where
  "update_binary_hash o' v hash s =
     bind_r (ensure_root o') (\<lambda>_.
     Inr (deposit_pm_event (BinaryHashUpdated v hash)
           (s\<lparr>known_binary_hash := (known_binary_hash s)(v := hash)\<rparr>)))"

definition set_info_for ::
  "('sig, 'ad, 'env) pm_config \<Rightarrow> account_id \<Rightarrow> update_info \<Rightarrow> account_id \<Rightarrow>
   ('sig, 'ad, 'env) pm_state \<Rightarrow> ('sig, 'ad, 'env) pm_state pm_result" where
  "set_info_for cfg who info processor s =
     bind_r (ensure_managed cfg who processor s) (\<lambda>_.
     Inr (s\<lparr>processor_update_info := (processor_update_info s)(processor \<mapsto> info)\<rparr>))"

definition set_processor_update_info ::
  "('sig, 'ad, 'env) pm_config \<Rightarrow> origin \<Rightarrow> update_info \<Rightarrow> account_id list \<Rightarrow>
   ('sig, 'ad, 'env) pm_state \<Rightarrow> ('sig, 'ad, 'env) pm_state pm_result" where
  "set_processor_update_info cfg o' info processors s =
     bind_r (ensure_signed o') (\<lambda>who.
     bind_r (ok_or (known_binary_hash s (info_version info)) (Module UnknownProcessorVersion)) (\<lambda>_.
     bind_r (fold_r (set_info_for cfg who info) processors s) (\<lambda>s1.
     Inr (deposit_pm_event (ProcessorUpdateInfoSet who info) s1))))"

section \<open>Genesis\<close>

text \<open>
  \<open>BuildGenesisConfig::build\<close>. The additions are unchecked there, and the \<open>expect\<close> on
  \<open>create_manager_id\<close> panics: the build has no result then.
\<close>

definition genesis_processor ::
  "('sig, 'ad, 'env) pm_config \<Rightarrow> account_id \<Rightarrow> manager_id \<Rightarrow> account_id \<Rightarrow>
   ('sig, 'ad, 'env) pm_state \<Rightarrow> ('sig, 'ad, 'env) pm_state" where
  "genesis_processor cfg manager manager_id processor s =
     s\<lparr>managed_processors := (managed_processors s)
         (manager_id := insert processor (managed_processors s manager_id)),
       manager_id_for_processor := (manager_id_for_processor s)(processor \<mapsto> manager_id),
       counter_for_manager := (counter_for_manager s)
         (manager \<mapsto> wrapping_add (counter_bits cfg) (unwrap_or (counter_for_manager s manager) 0) 1)\<rparr>"

definition genesis_manager ::
  "('sig, 'ad, 'env) pm_config \<Rightarrow> account_id \<times> account_id list \<Rightarrow> ('sig, 'ad, 'env) pm_state \<Rightarrow>
   ('sig, 'ad, 'env) pm_state pm_result" where
  "genesis_manager cfg = (\<lambda>(manager, processors) s.
     bind_r (case manager_id_for cfg manager (pm_env s) of
               Inr mid \<Rightarrow> Inr (mid, s)
             | Inl _ \<Rightarrow>
                 (let mid = wrapping_add (manager_id_bits cfg) (unwrap_or (last_manager_id s) 0) 1 in
                  bind_r (create_manager_id cfg mid manager (pm_env s)) (\<lambda>env.
                  Inr (mid, s\<lparr>pm_env := env, last_manager_id := Some mid\<rparr>)))) (\<lambda>(manager_id, s1).
     Inr (fold (genesis_processor cfg manager manager_id) processors s1)))"

definition pm_genesis ::
  "('sig, 'ad, 'env) pm_config \<Rightarrow> (account_id \<times> account_id list) list \<Rightarrow>
   ('sig, 'ad, 'env) pm_state \<Rightarrow> ('sig, 'ad, 'env) pm_state pm_result" where
  "pm_genesis cfg managers s = fold_r (genesis_manager cfg) managers s"

section \<open>Steps\<close>

text \<open>
  An accepted pairing proof: the manager whose counter it uses, the signed message, the signer
  and the signature.
\<close>

type_synonym 'sig accepted = "account_id \<times> bytes \<times> account_id \<times> 'sig"

definition accepted_proof ::
  "('sig, 'ad, 'env) pm_config \<Rightarrow> account_id \<Rightarrow> 'sig processor_pairing \<Rightarrow> counter \<Rightarrow> 'sig accepted list" where
  "accepted_proof cfg manager p c =
     (case pairing_proof p of
        None \<Rightarrow> []
      | Some prf \<Rightarrow> [(manager, pairing_message cfg manager (timestamp prf) c, account p, signature prf)])"

fun accepted_updates ::
  "('sig, 'ad, 'env) pm_config \<Rightarrow> account_id \<Rightarrow> 'sig processor_pairing list_update list \<Rightarrow> counter \<Rightarrow> 'sig accepted list" where
  "accepted_updates cfg who [] c = []"
| "accepted_updates cfg who (u # us) c =
     (if operation u = Add then accepted_proof cfg who (item u) (Suc c) @ accepted_updates cfg who us (Suc c)
      else accepted_updates cfg who us c)"

definition current_counter :: "('sig, 'ad, 'env) pm_state \<Rightarrow> account_id \<Rightarrow> counter" where
  "current_counter s m = unwrap_or (counter_for_manager s m) 0"

text \<open>
  One dispatchable, with the proofs it accepts; or a change of time or of the storage of other
  pallets, which this pallet does not control.
\<close>

inductive pm_step ::
  "('sig, 'ad, 'env) pm_config \<Rightarrow> ('sig, 'ad, 'env) pm_state \<Rightarrow> 'sig accepted list \<Rightarrow> ('sig, 'ad, 'env) pm_state \<Rightarrow> bool"
  for cfg where
  step_update: "update_processor_pairings cfg (Signed who) us s = Inr s' \<Longrightarrow>
    pm_step cfg s (accepted_updates cfg who us (current_counter s who)) s'"
| step_pair: "pair_with_manager cfg o' p s = Inr s' \<Longrightarrow>
    pm_step cfg s (accepted_proof cfg (account p) p (Suc (current_counter s (account p)))) s'"
| step_recover: "recover_funds cfg o' p d s = Inr s' \<Longrightarrow> pm_step cfg s [] s'"
| step_heartbeat: "heartbeat o' s = Inr s' \<Longrightarrow> pm_step cfg s [] s'"
| step_advertise: "advertise_for cfg o' p ad s = Inr s' \<Longrightarrow> pm_step cfg s [] s'"
| step_version: "heartbeat_with_version o' v s = Inr s' \<Longrightarrow> pm_step cfg s [] s'"
| step_hash: "update_binary_hash o' v h s = Inr s' \<Longrightarrow> pm_step cfg s [] s'"
| step_info: "set_processor_update_info cfg o' info ps s = Inr s' \<Longrightarrow> pm_step cfg s [] s'"
| step_env: "pm_step cfg s [] (s\<lparr>pm_now := t, pm_env := env\<rparr>)"

inductive pm_run ::
  "('sig, 'ad, 'env) pm_config \<Rightarrow> ('sig, 'ad, 'env) pm_state \<Rightarrow> 'sig accepted list \<Rightarrow> ('sig, 'ad, 'env) pm_state \<Rightarrow> bool"
  for cfg where
  run_refl: "pm_run cfg s [] s"
| run_step: "pm_run cfg s log s1 \<Longrightarrow> pm_step cfg s1 log' s2 \<Longrightarrow> pm_run cfg s (log @ log') s2"

section \<open>The pairing index as an interface\<close>

text \<open>
  The two storage maps of a pairing: the index of a processor and the members of a manager.
\<close>

definition pairing_consistent :: "(account_id \<rightharpoonup> manager_id) \<Rightarrow> (manager_id \<Rightarrow> account_id set) \<Rightarrow> bool" where
  "pairing_consistent index members \<longleftrightarrow> (\<forall>p m. p \<in> members m \<longleftrightarrow> index p = Some m)"

locale pairing_store =
  fixes index :: "'s \<Rightarrow> account_id \<rightharpoonup> manager_id"
    and members :: "'s \<Rightarrow> manager_id \<Rightarrow> account_id set"
    and add :: "account_id \<Rightarrow> manager_id \<Rightarrow> 's \<Rightarrow> 'e + 's"
    and remove :: "account_id \<Rightarrow> manager_id \<Rightarrow> 's \<Rightarrow> 'e + 's"
  assumes add_law: "add p m s = Inr s' \<Longrightarrow> index s p = None \<and> index s' = (index s)(p \<mapsto> m) \<and>
      members s' = (members s)(m := insert p (members s m))"
    and remove_law: "remove p m s = Inr s' \<Longrightarrow> index s p \<in> {None, Some m} \<and>
      index s' = (index s)(p := None) \<and> members s' = (\<lambda>n. if n = m \<and> index s p = Some m then members s n - {p} else members s n)"
begin

lemma add_consistent:
  assumes "add p m s = Inr s'" and "pairing_consistent (index s) (members s)"
  shows "pairing_consistent (index s') (members s')"
  using add_law [OF assms(1)] assms(2) by (auto simp: pairing_consistent_def)

lemma remove_consistent:
  assumes "remove p m s = Inr s'" and "pairing_consistent (index s) (members s)"
  shows "pairing_consistent (index s') (members s')"
  using remove_law [OF assms(1)] assms(2) by (auto simp: pairing_consistent_def)

end

interpretation pm_store: pairing_store manager_id_for_processor managed_processors
    do_add_processor_manager_pairing do_remove_processor_manager_pairing
  by unfold_locales
    (auto simp: do_add_processor_manager_pairing_def do_remove_processor_manager_pairing_def
      split: option.splits if_splits)

section \<open>Lemmas\<close>

lemma pairing_frames:
  "do_add_processor_manager_pairing p m s = Inr s' \<Longrightarrow> counter_for_manager s' = counter_for_manager s"
  "do_remove_processor_manager_pairing p m s = Inr s' \<Longrightarrow> counter_for_manager s' = counter_for_manager s"
  by (auto simp: do_add_processor_manager_pairing_def do_remove_processor_manager_pairing_def
      split: option.splits if_splits)

lemma announce_manager_frames [simp]:
  "manager_id_for_processor (announce_manager who m b s) = manager_id_for_processor s"
  "managed_processors (announce_manager who m b s) = managed_processors s"
  "counter_for_manager (announce_manager who m b s) = counter_for_manager s"
  "pm_env (announce_manager who m b s) = pm_env s"
  "pm_now (announce_manager who m b s) = pm_now s"
  by (simp_all add: announce_manager_def deposit_pm_event_def)

lemma get_or_create_frames:
  assumes "do_get_or_create_manager_id cfg who s = Inr (r, s')"
  shows "manager_id_for_processor s' = manager_id_for_processor s"
    and "managed_processors s' = managed_processors s"
    and "counter_for_manager s' = counter_for_manager s"
    and "pm_now s' = pm_now s"
  using assms
  by (auto simp: do_get_or_create_manager_id_def result_simps split: sum.splits)

lemma next_counter_Inr:
  "next_counter cfg who s = Inr c \<longleftrightarrow> c = Suc (current_counter s who) \<and> c < 2 ^ counter_bits cfg"
  by (auto simp: next_counter_def current_counter_def result_simps int_simps)

lemma validate_signature_accepted:
  "validate_signature cfg p m c \<longleftrightarrow>
     accepted_proof cfg m p c \<noteq> [] \<and> (\<forall>(m', msg, signer, sig) \<in> set (accepted_proof cfg m p c). verify cfg sig msg signer)"
  by (auto simp: validate_signature_def accepted_proof_def split: option.splits)

lemma apply_pairing_update_effect:
  assumes "apply_pairing_update cfg who mid u s = Inr s'"
  shows "manager_id_for_processor s (account (item u)) \<in> {None, Some mid}"
    and "manager_id_for_processor s' =
      (manager_id_for_processor s)(account (item u) := if operation u = Add then Some mid else None)"
    and "current_counter s' =
      (current_counter s)(who := if operation u = Add then Suc (current_counter s who) else current_counter s who)"
    and "operation u = Add \<Longrightarrow> validate_signature cfg (item u) who (Suc (current_counter s who)) \<and>
      Suc (current_counter s who) < 2 ^ counter_bits cfg"
    and "pairing_consistent (manager_id_for_processor s) (managed_processors s) \<Longrightarrow>
      pairing_consistent (manager_id_for_processor s') (managed_processors s')"
proof -
  note simps = apply_pairing_update_def result_simps next_counter_Inr current_counter_def
  show "manager_id_for_processor s (account (item u)) \<in> {None, Some mid}"
    using assms pm_store.add_law pm_store.remove_law
    by (fastforce simp: simps split: list_update_operation.splits)
  show "manager_id_for_processor s' =
      (manager_id_for_processor s)(account (item u) := if operation u = Add then Some mid else None)"
    using assms pm_store.add_law pm_store.remove_law
    by (fastforce simp: simps split: list_update_operation.splits)
  show "current_counter s' =
      (current_counter s)(who := if operation u = Add then Suc (current_counter s who) else current_counter s who)"
    using assms
    by (auto simp: simps fun_eq_iff dest!: pairing_frames split: list_update_operation.splits)
  show "validate_signature cfg (item u) who (Suc (current_counter s who)) \<and>
      Suc (current_counter s who) < 2 ^ counter_bits cfg" if "operation u = Add"
    using assms that by (auto simp: simps)
  show "pairing_consistent (manager_id_for_processor s') (managed_processors s')"
    if "pairing_consistent (manager_id_for_processor s) (managed_processors s)"
    using assms that
    by (auto simp: simps split: list_update_operation.splits dest: pm_store.add_consistent pm_store.remove_consistent)
qed

lemma pairing_updates_index:
  assumes "fold_r (apply_pairing_update cfg who mid) us s = Inr s'"
  shows "manager_id_for_processor s' p =
      (case last_update (map (\<lambda>u. \<lparr>operation = operation u, item = account (item u)\<rparr>) us) p of
         None \<Rightarrow> manager_id_for_processor s p | Some Add \<Rightarrow> Some mid | Some Remove \<Rightarrow> None) \<and>
    (p \<in> (\<lambda>u. account (item u)) ` set us \<longrightarrow> manager_id_for_processor s p \<in> {None, Some mid})"
  using assms
proof (induction us arbitrary: s)
  case (Cons u us)
  then obtain s1 where s1: "apply_pairing_update cfg who mid u s = Inr s1"
    and rest: "fold_r (apply_pairing_update cfg who mid) us s1 = Inr s'"
    by (auto simp: result_simps)
  note eff = apply_pairing_update_effect(1,2) [OF s1]
  show ?case
    using Cons.IH [OF rest] eff
    by (cases "operation u"; cases "p = account (item u)")
      (auto split: option.splits list_update_operation.splits if_splits)
qed simp

lemma pairing_updates_consistent:
  assumes "fold_r (apply_pairing_update cfg who mid) us s = Inr s'"
    and "pairing_consistent (manager_id_for_processor s) (managed_processors s)"
  shows "pairing_consistent (manager_id_for_processor s') (managed_processors s')"
  using assms(1) by (rule fold_r_invariant) (use assms(2) apply_pairing_update_effect(5) in blast)+

text \<open>
  What the library's encodings guarantee: the encoding of a \<open>u128\<close> has 16 bytes, and two counters
  have the same encoding only if they are equal.
\<close>

definition encoding_laws :: "('sig, 'ad, 'env) pm_config \<Rightarrow> bool" where
  "encoding_laws cfg \<longleftrightarrow> (\<forall>t. length (encode_u128 cfg t) = 16) \<and>
     inj_on (encode_counter cfg) {..< 2 ^ counter_bits cfg}"

lemma pairing_message_counter:
  assumes "encoding_laws cfg" and "c < 2 ^ counter_bits cfg" and "c' < 2 ^ counter_bits cfg"
    and "pairing_message cfg m t c = pairing_message cfg m t' c'"
  shows "c = c'"
proof -
  have "encode_u128 cfg t @ encode_counter cfg c = encode_u128 cfg t' @ encode_counter cfg c'"
    using assms(4) by (simp add: pairing_message_def)
  then have "encode_counter cfg c = encode_counter cfg c'"
    using assms(1) by (simp add: encoding_laws_def append_eq_append_conv)
  with assms(1-3) show ?thesis by (auto simp: encoding_laws_def dest: inj_onD)
qed

text \<open>
  A log of accepted proofs between two states: all verified, each with a counter between those
  of the states, no two with the same message for the same manager.
\<close>

definition log_fresh ::
  "('sig, 'ad, 'env) pm_config \<Rightarrow> ('sig, 'ad, 'env) pm_state \<Rightarrow> 'sig accepted list \<Rightarrow> ('sig, 'ad, 'env) pm_state \<Rightarrow> bool" where
  "log_fresh cfg s log s' \<longleftrightarrow>
     (\<forall>m. current_counter s m \<le> current_counter s' m) \<and>
     (\<forall>(m, msg, signer, sig) \<in> set log. verify cfg sig msg signer \<and>
        (\<exists>c t. msg = pairing_message cfg m t c \<and> current_counter s m < c \<and> c \<le> current_counter s' m \<and>
           c < 2 ^ counter_bits cfg)) \<and>
     distinct (map (\<lambda>(m, msg, signer, sig). (m, msg)) log)"

lemma log_fresh_refl: "current_counter s' = current_counter s \<Longrightarrow> log_fresh cfg s [] s'"
  by (simp add: log_fresh_def)

lemma log_fresh_append:
  assumes laws: "encoding_laws cfg" and a: "log_fresh cfg s log s1" and b: "log_fresh cfg s1 log' s2"
  shows "log_fresh cfg s (log @ log') s2"
proof -
  have mono: "current_counter s m \<le> current_counter s1 m" "current_counter s1 m \<le> current_counter s2 m" for m
    using a b by (auto simp: log_fresh_def)
  have "\<not> (\<exists>signer sig signer' sig'. (m, msg, signer, sig) \<in> set log \<and> (m, msg, signer', sig') \<in> set log')" for m msg
  proof
    assume "\<exists>signer sig signer' sig'. (m, msg, signer, sig) \<in> set log \<and> (m, msg, signer', sig') \<in> set log'"
    then obtain c t c' t' where "msg = pairing_message cfg m t c" "c \<le> current_counter s1 m" "c < 2 ^ counter_bits cfg"
      "msg = pairing_message cfg m t' c'" "current_counter s1 m < c'" "c' < 2 ^ counter_bits cfg"
      using a b unfolding log_fresh_def by fastforce
    with pairing_message_counter [OF laws, of c c' m t t'] show False by simp
  qed
  then have "set (map (\<lambda>(m, msg, signer, sig). (m, msg)) log) \<inter> set (map (\<lambda>(m, msg, signer, sig). (m, msg)) log') = {}"
    by (auto split: prod.splits)
  moreover have "\<forall>(m, msg, signer, sig) \<in> set log. verify cfg sig msg signer \<and>
        (\<exists>c t. msg = pairing_message cfg m t c \<and> current_counter s m < c \<and> c \<le> current_counter s2 m \<and>
           c < 2 ^ counter_bits cfg)"
    using a mono unfolding log_fresh_def by (fastforce dest: order_trans)
  moreover have "\<forall>(m, msg, signer, sig) \<in> set log'. verify cfg sig msg signer \<and>
        (\<exists>c t. msg = pairing_message cfg m t c \<and> current_counter s m < c \<and> c \<le> current_counter s2 m \<and>
           c < 2 ^ counter_bits cfg)"
    using b mono unfolding log_fresh_def by (fastforce dest: le_less_trans)
  moreover have "current_counter s m \<le> current_counter s2 m" for m
    using mono [of m] by simp
  ultimately show ?thesis
    using a b unfolding log_fresh_def by auto
qed

lemma accepted_proof_fresh:
  assumes "validate_signature cfg p m (Suc (current_counter s m))"
    and "Suc (current_counter s m) < 2 ^ counter_bits cfg"
    and "current_counter s' = (current_counter s)(m := Suc (current_counter s m))"
  shows "log_fresh cfg s (accepted_proof cfg m p (Suc (current_counter s m))) s'"
  using assms
  by (auto simp: log_fresh_def accepted_proof_def validate_signature_def split: option.splits)

lemma pairing_updates_fresh:
  assumes laws: "encoding_laws cfg" and "fold_r (apply_pairing_update cfg who mid) us s = Inr s'"
  shows "log_fresh cfg s (accepted_updates cfg who us (current_counter s who)) s'"
  using assms(2)
proof (induction us arbitrary: s)
  case (Cons u us)
  then obtain s1 where s1: "apply_pairing_update cfg who mid u s = Inr s1"
    and rest: "fold_r (apply_pairing_update cfg who mid) us s1 = Inr s'"
    by (auto simp: result_simps)
  note eff = apply_pairing_update_effect(3,4) [OF s1]
  show ?case
  proof (cases "operation u")
    case Add
    with eff have "log_fresh cfg s (accepted_proof cfg who (item u) (Suc (current_counter s who))) s1"
      by (intro accepted_proof_fresh) auto
    from log_fresh_append [OF laws this Cons.IH [OF rest]] Add eff(1) show ?thesis by simp
  next
    case Remove
    with eff(1) have same: "current_counter s1 = current_counter s" by simp
    from log_fresh_append [OF laws log_fresh_refl [OF same] Cons.IH [OF rest]] Remove same show ?thesis by simp
  qed
qed (simp add: log_fresh_refl)

lemma pm_event_frames [simp]:
  "manager_id_for_processor (deposit_pm_event e s) = manager_id_for_processor s"
  "managed_processors (deposit_pm_event e s) = managed_processors s"
  "counter_for_manager (deposit_pm_event e s) = counter_for_manager s"
  "pm_env (deposit_pm_event e s) = pm_env s"
  by (simp_all add: deposit_pm_event_def)

lemma log_fresh_cong:
  assumes "counter_for_manager s1 = counter_for_manager s" and "counter_for_manager s1' = counter_for_manager s'"
  shows "log_fresh cfg s1 log s1' = log_fresh cfg s log s'"
  using assms by (simp add: log_fresh_def current_counter_def)

lemma update_processor_pairings_loop:
  assumes "update_processor_pairings cfg (Signed who) us s = Inr s'"
  obtains mid created s1 s2 where "do_get_or_create_manager_id cfg who s = Inr ((mid, created), s1)"
    and "fold_r (apply_pairing_update cfg who mid) us (announce_manager who mid created s1) = Inr s2"
    and "s' = deposit_pm_event (ProcessorPairingsUpdated who us) s2"
  using assms that by (auto simp: update_processor_pairings_def result_simps)

lemma pair_with_manager_effect:
  assumes "pair_with_manager cfg o' p s = Inr s'"
  shows "log_fresh cfg s (accepted_proof cfg (account p) p (Suc (current_counter s (account p)))) s'"
    and "pairing_consistent (manager_id_for_processor s) (managed_processors s) \<Longrightarrow>
      pairing_consistent (manager_id_for_processor s') (managed_processors s')"
proof -
  obtain who mid created s1 s3 where
    create: "do_get_or_create_manager_id cfg (account p) s = Inr ((mid, created), s1)"
    and bound: "Suc (current_counter s1 (account p)) < 2 ^ counter_bits cfg"
    and sig: "validate_signature cfg p (account p) (Suc (current_counter s1 (account p)))"
    and add: "do_add_processor_manager_pairing who mid (announce_manager (account p) mid created s1) = Inr s3"
    and s': "s' = deposit_pm_event (ProcessorPaired who p)
      (s3\<lparr>counter_for_manager := (counter_for_manager s3)(account p \<mapsto> Suc (current_counter s1 (account p)))\<rparr>)"
    using assms
    by (auto simp: pair_with_manager_def result_simps Let_def next_counter_Inr current_counter_def)
  note frames = get_or_create_frames [OF create]
  show "log_fresh cfg s (accepted_proof cfg (account p) p (Suc (current_counter s (account p)))) s'"
    using sig bound pairing_frames(1) [OF add] frames(3)
    by (intro accepted_proof_fresh) (auto simp: s' current_counter_def fun_eq_iff)
  show "pairing_consistent (manager_id_for_processor s') (managed_processors s')"
    if "pairing_consistent (manager_id_for_processor s) (managed_processors s)"
    using pm_store.add_consistent [OF add] that frames by (simp add: s')
qed

lemma set_info_loop_frames:
  assumes "fold_r (set_info_for cfg who info) ps s = Inr s'"
  shows "manager_id_for_processor s' = manager_id_for_processor s \<and> managed_processors s' = managed_processors s \<and>
    counter_for_manager s' = counter_for_manager s \<and> pm_env s' = pm_env s"
  using assms
  by (rule fold_r_invariant [where P = "\<lambda>x. manager_id_for_processor x = manager_id_for_processor s \<and>
    managed_processors x = managed_processors s \<and> counter_for_manager x = counter_for_manager s \<and> pm_env x = pm_env s"])
    (auto simp: set_info_for_def result_simps)

lemma pm_step_consistent:
  assumes "pm_step cfg s log s'" and "pairing_consistent (manager_id_for_processor s) (managed_processors s)"
  shows "pairing_consistent (manager_id_for_processor s') (managed_processors s')"
  using assms
proof cases
  case (step_update who us)
  from step_update(2) show ?thesis
    by (rule update_processor_pairings_loop)
      (use assms(2) pairing_updates_consistent get_or_create_frames(1,2) in fastforce)
next
  case (step_pair o' p)
  with pair_with_manager_effect(2) assms(2) show ?thesis by blast
next
  case (step_info o' info ps)
  with assms(2) show ?thesis
    by (auto simp: set_processor_update_info_def result_simps dest!: set_info_loop_frames)
qed (auto simp: recover_funds_def heartbeat_def advertise_for_def heartbeat_with_version_def
    update_binary_hash_def result_simps)

lemma pm_step_fresh:
  assumes laws: "encoding_laws cfg" and "pm_step cfg s log s'"
  shows "log_fresh cfg s log s'"
  using assms(2)
proof cases
  case (step_update who us)
  from step_update(2) obtain mid created s1 s2 where
    create: "do_get_or_create_manager_id cfg who s = Inr ((mid, created), s1)"
    and loop: "fold_r (apply_pairing_update cfg who mid) us (announce_manager who mid created s1) = Inr s2"
    and s': "s' = deposit_pm_event (ProcessorPairingsUpdated who us) s2"
    by (rule update_processor_pairings_loop)
  show ?thesis
    using pairing_updates_fresh [OF laws loop] get_or_create_frames(3) [OF create]
    by (simp add: step_update(1) s' log_fresh_def current_counter_def)
next
  case (step_pair o' p)
  with pair_with_manager_effect(1) show ?thesis by blast
next
  case (step_info o' info ps)
  then show ?thesis
    by (auto simp: set_processor_update_info_def result_simps log_fresh_def current_counter_def
        dest!: set_info_loop_frames)
qed (auto simp: recover_funds_def heartbeat_def advertise_for_def heartbeat_with_version_def
    update_binary_hash_def result_simps log_fresh_def current_counter_def)

lemma pm_run_consistent:
  assumes "pm_run cfg s log s'" and "pairing_consistent (manager_id_for_processor s) (managed_processors s)"
  shows "pairing_consistent (manager_id_for_processor s') (managed_processors s')"
  using assms by (induction rule: pm_run.induct) (auto dest: pm_step_consistent)

lemma pm_run_fresh:
  assumes "pm_run cfg s log s'" and "encoding_laws cfg"
  shows "log_fresh cfg s log s'"
  using assms
  by (induction rule: pm_run.induct) (auto simp: log_fresh_refl dest: pm_step_fresh intro: log_fresh_append)

lemma genesis_processors_consistent:
  assumes "pairing_consistent (manager_id_for_processor s) (managed_processors s)"
    and "distinct ps" and "\<forall>p \<in> set ps. manager_id_for_processor s p = None"
  shows "pairing_consistent (manager_id_for_processor (fold (genesis_processor cfg m mid) ps s))
      (managed_processors (fold (genesis_processor cfg m mid) ps s)) \<and>
    (\<forall>p. p \<notin> set ps \<longrightarrow> manager_id_for_processor (fold (genesis_processor cfg m mid) ps s) p = manager_id_for_processor s p)"
  using assms
proof (induction ps arbitrary: s)
  case (Cons p ps)
  have "pairing_consistent (manager_id_for_processor (genesis_processor cfg m mid p s))
      (managed_processors (genesis_processor cfg m mid p s))"
    using Cons.prems by (auto simp: pairing_consistent_def genesis_processor_def)
  moreover have "\<forall>q \<in> set ps. manager_id_for_processor (genesis_processor cfg m mid p s) q = None"
    using Cons.prems by (auto simp: genesis_processor_def)
  ultimately have IH: "pairing_consistent
      (manager_id_for_processor (fold (genesis_processor cfg m mid) ps (genesis_processor cfg m mid p s)))
      (managed_processors (fold (genesis_processor cfg m mid) ps (genesis_processor cfg m mid p s))) \<and>
    (\<forall>q. q \<notin> set ps \<longrightarrow>
      manager_id_for_processor (fold (genesis_processor cfg m mid) ps (genesis_processor cfg m mid p s)) q =
      manager_id_for_processor (genesis_processor cfg m mid p s) q)"
    using Cons.IH Cons.prems(2) by simp
  have "manager_id_for_processor (genesis_processor cfg m mid p s) q = manager_id_for_processor s q" if "q \<noteq> p" for q
    using that by (simp add: genesis_processor_def)
  with IH show ?case by simp
qed simp

lemma genesis_manager_effect:
  assumes "genesis_manager cfg (m, ps) s = Inr s'"
    and "pairing_consistent (manager_id_for_processor s) (managed_processors s)"
    and "distinct ps" and "\<forall>p \<in> set ps. manager_id_for_processor s p = None"
  shows "pairing_consistent (manager_id_for_processor s') (managed_processors s') \<and>
    (\<forall>p. p \<notin> set ps \<longrightarrow> manager_id_for_processor s' p = manager_id_for_processor s p)"
proof -
  obtain mid s1 where s': "s' = fold (genesis_processor cfg m mid) ps s1"
    and frames: "manager_id_for_processor s1 = manager_id_for_processor s" "managed_processors s1 = managed_processors s"
    using assms(1) by (auto simp: genesis_manager_def result_simps Let_def split: sum.splits)
  show ?thesis
    using genesis_processors_consistent [of s1 ps cfg m mid] assms(2-4) frames by (simp add: s')
qed

lemma pm_genesis_consistent:
  assumes "pm_genesis cfg managers s = Inr s'"
    and "pairing_consistent (manager_id_for_processor s) (managed_processors s)"
    and "distinct (concat (map snd managers))"
    and "\<forall>p \<in> set (concat (map snd managers)). manager_id_for_processor s p = None"
  shows "pairing_consistent (manager_id_for_processor s') (managed_processors s')"
  using assms unfolding pm_genesis_def
proof (induction managers arbitrary: s)
  case (Cons mp managers)
  obtain m ps where mp: "mp = (m, ps)" by fastforce
  from Cons.prems(1) obtain s1 where s1: "genesis_manager cfg (m, ps) s = Inr s1"
    and rest: "fold_r (genesis_manager cfg) managers s1 = Inr s'"
    by (auto simp: mp result_simps)
  have disj: "distinct ps" "\<forall>p \<in> set ps. manager_id_for_processor s p = None"
    using Cons.prems(3,4) by (auto simp: mp)
  note eff = genesis_manager_effect [OF s1 Cons.prems(2) disj]
  have "\<forall>p \<in> set (concat (map snd managers)). p \<notin> set ps \<and> manager_id_for_processor s p = None"
    using Cons.prems(3,4) by (auto simp: mp)
  with eff have "\<forall>p \<in> set (concat (map snd managers)). manager_id_for_processor s1 p = None" by simp
  with eff Cons.prems(3) show ?case by (intro Cons.IH [OF rest]) (simp_all add: mp)
qed simp

section \<open>Sample data\<close>

text \<open>A provider that keeps the tokens in a list, and signatures that repeat the message.\<close>

definition demo_pm_config :: "(bytes \<times> account_id, unit, (manager_id \<times> account_id) list) pm_config" where
  "demo_pm_config = \<lparr>manager_id_bits = 8, counter_bits = 8, PairingProofExpirationTime = 600000,
     create_manager_id = (\<lambda>mid who env. Inr ((mid, who) # env)),
     manager_id_for = (\<lambda>who env. case find (\<lambda>t. snd t = who) env of
        Some t \<Rightarrow> Inr (fst t) | None \<Rightarrow> Inl (Other ''no token'')),
     owner_for = (\<lambda>mid env. case map_of env mid of Some who \<Rightarrow> Inr who | None \<Rightarrow> Inl (Other ''no token'')),
     recover_assets = (\<lambda>p d env. Inr env), handler_advertise_for = unit_advertise_for,
     encode_account_id = (\<lambda>a. [a]), encode_u128 = (\<lambda>t. replicate 15 0 @ [t]), encode_counter = (\<lambda>c. [c]),
     verify = (\<lambda>sig msg who. sig = (msg, who))\<rparr>"

definition demo_pm_state :: "(bytes \<times> account_id, unit, (manager_id \<times> account_id) list) pm_state" where
  "demo_pm_state = \<lparr>pm_now = 1000, last_manager_id = None, managed_processors = (\<lambda>_. {}),
     manager_id_for_processor = Map.empty, counter_for_manager = Map.empty, processor_last_seen = Map.empty,
     processor_version = Map.empty, known_binary_hash = Map.empty, processor_update_info = Map.empty,
     pm_events = [], pm_env = []\<rparr>"

definition demo_pairing :: "account_id \<Rightarrow> account_id \<Rightarrow> counter \<Rightarrow> (bytes \<times> account_id) processor_pairing" where
  "demo_pairing signer manager c =
     new_with_proof signer 900 (pairing_message demo_pm_config manager 900 c, signer)"

lemma demo_pm_simps:
  "counter_bits demo_pm_config = 8" "manager_id_bits demo_pm_config = 8"
  "PairingProofExpirationTime demo_pm_config = 600000"
  "create_manager_id demo_pm_config mid who env = Inr ((mid, who) # env)"
  "manager_id_for demo_pm_config who env =
     (case find (\<lambda>t. snd t = who) env of Some t \<Rightarrow> Inr (fst t) | None \<Rightarrow> Inl (Other ''no token''))"
  "verify demo_pm_config sig msg who \<longleftrightarrow> sig = (msg, who)"
  "checked_add 8 0 (Suc 0) = Some (Suc 0)" "checked_add 8 (Suc 0) (Suc 0) = Some 2"
  by (simp_all add: demo_pm_config_def checked_add_def)

lemmas demo_pm_eval = demo_pm_simps demo_pm_state_def demo_pairing_def new_with_proof_def new_pairing_def
  validate_timestamp_def validate_signature_def checked_sub_def next_counter_def do_get_or_create_manager_id_def
  announce_manager_def deposit_pm_event_def do_add_processor_manager_pairing_def
  do_remove_processor_manager_pairing_def Let_def

lemma demo_encoding_laws: "encoding_laws demo_pm_config"
  by (simp add: encoding_laws_def demo_pm_config_def inj_on_def)

section \<open>Properties\<close>

text \<open>
  C19: from a genesis state in which no processor is listed twice, after any calls and any changes
  outside the pallet, the two pairing maps agree: a processor is among the processors of a manager
  exactly when its index names that manager. In particular it has at most one manager.
\<close>

theorem pairing_maps_agree:
  assumes "pm_genesis cfg managers s0 = Inr s" and "distinct (concat (map snd managers))"
    and "manager_id_for_processor s0 = Map.empty" and "managed_processors s0 = (\<lambda>_. {})"
    and "pm_run cfg s log s'"
  shows "\<forall>p m. p \<in> managed_processors s' m \<longleftrightarrow> manager_id_for_processor s' p = Some m"
proof -
  have "pairing_consistent (manager_id_for_processor s) (managed_processors s)"
    by (rule pm_genesis_consistent [OF assms(1)]) (use assms(2-4) in \<open>simp_all add: pairing_consistent_def\<close>)
  from pm_run_consistent [OF assms(5) this] show ?thesis by (simp add: pairing_consistent_def)
qed

theorem pairing_maps_agree_witness:
  "\<exists>s s'. pm_genesis demo_pm_config [(7, [30])] demo_pm_state = Inr s \<and>
     pair_with_manager demo_pm_config (Signed 31) (demo_pairing 7 7 2) s = Inr s' \<and>
     manager_id_for_processor s' 31 = Some 1 \<and>
     (\<forall>p m. p \<in> managed_processors s' m \<longleftrightarrow> manager_id_for_processor s' p = Some m)"
proof -
  let ?s = "demo_pm_state\<lparr>last_manager_id := Some 1, managed_processors := (\<lambda>_. {})(1 := {30}),
    manager_id_for_processor := [30 \<mapsto> 1], counter_for_manager := [7 \<mapsto> 1], pm_env := [(1, 7)]\<rparr>"
  have gen: "pm_genesis demo_pm_config [(7, [30])] demo_pm_state = Inr ?s"
    by (simp add: pm_genesis_def genesis_manager_def genesis_processor_def wrapping_add_def demo_pm_eval)
  have "is_ok (pair_with_manager demo_pm_config (Signed 31) (demo_pairing 7 7 2) ?s)"
    by (simp add: pair_with_manager_def demo_pm_eval)
  then obtain s' where s': "pair_with_manager demo_pm_config (Signed 31) (demo_pairing 7 7 2) ?s = Inr s'"
    unfolding is_ok_ex by blast
  then have "manager_id_for_processor s' 31 = Some 1"
    by (simp add: pair_with_manager_def demo_pm_eval) auto
  moreover have "\<forall>p m. p \<in> managed_processors s' m \<longleftrightarrow> manager_id_for_processor s' p = Some m"
    by (rule pairing_maps_agree [OF gen _ _ _ run_step [OF run_refl step_pair [OF s']]])
      (simp_all add: demo_pm_state_def)
  ultimately show ?thesis using gen s' by blast
qed

text \<open>
  C18: in every run, each accepted pairing proof carries a valid signature of its signer, and no
  two accepted proofs of the same manager have the same signed message: a proof cannot be
  replayed. This rests on the encodings: a fixed length for timestamps, different bytes for
  different counters.
\<close>

theorem pairing_proofs_not_replayed:
  assumes "encoding_laws cfg" and "pm_run cfg s log s'"
  shows "distinct (map (\<lambda>(manager, msg, signer, sig). (manager, msg)) log) \<and>
    (\<forall>(manager, msg, signer, sig) \<in> set log. verify cfg sig msg signer)"
  using pm_run_fresh [OF assms(2,1)] by (auto simp: log_fresh_def)

theorem pairing_proofs_not_replayed_witness:
  "\<exists>s'. update_processor_pairings demo_pm_config (Signed 7)
       [\<lparr>operation = Add, item = demo_pairing 30 7 1\<rparr>, \<lparr>operation = Add, item = demo_pairing 31 7 2\<rparr>] demo_pm_state = Inr s' \<and>
     pairing_message demo_pm_config 7 900 1 \<noteq> pairing_message demo_pm_config 7 900 2"
proof -
  let ?us = "[\<lparr>operation = Add, item = demo_pairing 30 7 1\<rparr>, \<lparr>operation = Add, item = demo_pairing 31 7 2\<rparr>]"
  have "is_ok (update_processor_pairings demo_pm_config (Signed 7) ?us demo_pm_state)"
    by (simp add: update_processor_pairings_def apply_pairing_update_def demo_pm_eval)
  then obtain s' where s': "update_processor_pairings demo_pm_config (Signed 7) ?us demo_pm_state = Inr s'"
    unfolding is_ok_ex by blast
  have "current_counter demo_pm_state 7 = 0" by (simp add: current_counter_def demo_pm_state_def)
  then have log: "accepted_updates demo_pm_config 7 ?us (current_counter demo_pm_state 7) =
    [(7, pairing_message demo_pm_config 7 900 1, 30, pairing_message demo_pm_config 7 900 1, 30),
     (7, pairing_message demo_pm_config 7 900 2, 31, pairing_message demo_pm_config 7 900 2, 31)]"
    by (simp add: accepted_proof_def demo_pairing_def new_with_proof_def numeral_2_eq_2)
  from pairing_proofs_not_replayed [OF demo_encoding_laws run_step [OF run_refl step_update [OF s']], unfolded log] s'
  show ?thesis by simp
qed

text \<open>
  A successful \<open>update_processor_pairings\<close> gives every processor the pairing its last update
  says (none if it was removed), leaves all others as they were, and touches no processor that
  belongs to another manager.
\<close>

theorem update_processor_pairings_effect:
  assumes "update_processor_pairings cfg (Signed who) us s = Inr s'"
  shows "\<exists>mid.
    (\<forall>p. manager_id_for_processor s' p =
      (case last_update (map (\<lambda>u. \<lparr>operation = operation u, item = account (item u)\<rparr>) us) p of
         None \<Rightarrow> manager_id_for_processor s p | Some Add \<Rightarrow> Some mid | Some Remove \<Rightarrow> None)) \<and>
    (\<forall>u \<in> set us. manager_id_for_processor s (account (item u)) \<in> {None, Some mid}) \<and>
    (manager_id_for cfg who (pm_env s) = Inr mid \<or>
     (\<not> is_ok (manager_id_for cfg who (pm_env s)) \<and> mid = unwrap_or (last_manager_id s) 0 + 1 \<and>
      mid < 2 ^ manager_id_bits cfg))"
proof -
  from assms obtain mid created s1 s2 where
    create: "do_get_or_create_manager_id cfg who s = Inr ((mid, created), s1)"
    and loop: "fold_r (apply_pairing_update cfg who mid) us (announce_manager who mid created s1) = Inr s2"
    and s': "s' = deposit_pm_event (ProcessorPairingsUpdated who us) s2"
    by (rule update_processor_pairings_loop)
  have "manager_id_for cfg who (pm_env s) = Inr mid \<or>
     (\<not> is_ok (manager_id_for cfg who (pm_env s)) \<and> mid = unwrap_or (last_manager_id s) 0 + 1 \<and>
      mid < 2 ^ manager_id_bits cfg)"
    using create by (auto simp: do_get_or_create_manager_id_def result_simps int_simps split: sum.splits)
  moreover note pairing_updates_index [OF loop, unfolded announce_manager_frames get_or_create_frames(1) [OF create]]
  ultimately show ?thesis
    by (intro exI [of _ mid]) (simp add: s')
qed

theorem update_processor_pairings_effect_witness:
  "\<exists>s'. update_processor_pairings demo_pm_config (Signed 7)
       [\<lparr>operation = Add, item = demo_pairing 30 7 1\<rparr>, \<lparr>operation = Remove, item = new_pairing 30\<rparr>,
        \<lparr>operation = Add, item = demo_pairing 31 7 2\<rparr>] demo_pm_state = Inr s' \<and>
     manager_id_for_processor s' 30 = None \<and> manager_id_for_processor s' 31 = Some 1"
proof -
  let ?us = "[\<lparr>operation = Add, item = demo_pairing 30 7 1\<rparr>, \<lparr>operation = Remove, item = new_pairing 30\<rparr>,
        \<lparr>operation = Add, item = demo_pairing 31 7 2\<rparr>]"
  have "is_ok (update_processor_pairings demo_pm_config (Signed 7) ?us demo_pm_state)"
    by (simp add: update_processor_pairings_def apply_pairing_update_def demo_pm_eval)
  then obtain s' where s': "update_processor_pairings demo_pm_config (Signed 7) ?us demo_pm_state = Inr s'"
    unfolding is_ok_ex by blast
  have "\<not> is_ok (manager_id_for demo_pm_config 7 (pm_env demo_pm_state))" "last_manager_id demo_pm_state = None"
    by (simp_all add: demo_pm_config_def demo_pm_state_def)
  with update_processor_pairings_effect [OF s'] s' show ?thesis
    by (auto simp: demo_pairing_def new_pairing_def new_with_proof_def)
qed

text \<open>
  C20: if the provider reports as owner of a manager identifier the account it found the
  identifier for, then funds are recovered from a processor, advertisements are made for it and
  its update information is set only by the account that is its manager at that time.
\<close>

theorem managed_calls_authorized:
  assumes "\<And>who mid env. manager_id_for cfg who env = Inr mid \<Longrightarrow> owner_for cfg mid env = Inr who"
  shows "(is_ok (recover_funds cfg (Signed who) p d s) \<longrightarrow> manager_for_processor cfg p s = Some who) \<and>
    (is_ok (advertise_for cfg (Signed who) p ad s) \<longrightarrow> manager_for_processor cfg p s = Some who) \<and>
    (is_ok (set_processor_update_info cfg (Signed who) info ps s) \<longrightarrow>
      known_binary_hash s (info_version info) \<noteq> None \<and> (\<forall>p \<in> set ps. manager_for_processor cfg p s = Some who))"
proof -
  have managed: "manager_for_processor cfg p s = Some who" if "ensure_managed cfg who p s = Inr mid" for p mid s
    using that assms by (auto simp: ensure_managed_def manager_for_processor_def result_simps split: if_splits)
  have loop: "\<forall>p \<in> set ps. manager_for_processor cfg p s = Some who"
    if "fold_r (set_info_for cfg who info) ps s = Inr s'" for s s'
    using that
  proof (induction ps arbitrary: s)
    case (Cons p ps)
    then obtain s1 where s1: "set_info_for cfg who info p s = Inr s1"
      and rest: "fold_r (set_info_for cfg who info) ps s1 = Inr s'"
      by (auto simp: result_simps)
    have "manager_for_processor cfg q s1 = manager_for_processor cfg q s" for q
      using s1 by (auto simp: set_info_for_def manager_for_processor_def result_simps)
    moreover have "manager_for_processor cfg p s = Some who"
      using s1 managed by (auto simp: set_info_for_def result_simps)
    ultimately show ?case using Cons.IH [OF rest] by simp
  qed simp
  show ?thesis
    using managed loop
    by (auto simp: recover_funds_def advertise_for_def set_processor_update_info_def result_simps)
qed

theorem managed_calls_authorized_witness:
  "is_ok (recover_funds (demo_pm_config\<lparr>manager_id_for := (\<lambda>who env. case find (\<lambda>t. snd t = who \<and> map_of env (fst t) = Some who) env of
        Some t \<Rightarrow> Inr (fst t) | None \<Rightarrow> Inl (Other ''no token''))\<rparr>) (Signed 7) 30 9
      (demo_pm_state\<lparr>manager_id_for_processor := [30 \<mapsto> 1], pm_env := [(1, 7)]\<rparr>)) \<and>
   manager_for_processor (demo_pm_config\<lparr>manager_id_for := (\<lambda>who env. case find (\<lambda>t. snd t = who \<and> map_of env (fst t) = Some who) env of
        Some t \<Rightarrow> Inr (fst t) | None \<Rightarrow> Inl (Other ''no token''))\<rparr>) 30
      (demo_pm_state\<lparr>manager_id_for_processor := [30 \<mapsto> 1], pm_env := [(1, 7)]\<rparr>) = Some 7"
proof -
  let ?cfg = "demo_pm_config\<lparr>manager_id_for := (\<lambda>who env. case find (\<lambda>t. snd t = who \<and> map_of env (fst t) = Some who) env of
        Some t \<Rightarrow> Inr (fst t) | None \<Rightarrow> Inl (Other ''no token''))\<rparr>"
  let ?s = "demo_pm_state\<lparr>manager_id_for_processor := [30 \<mapsto> 1], pm_env := [(1, 7)]\<rparr>"
  have laws: "owner_for ?cfg mid env = Inr who" if "manager_id_for ?cfg who env = Inr mid" for who mid env
    using that by (auto simp: demo_pm_config_def find_Some_iff split: option.splits)
  have "is_ok (recover_funds ?cfg (Signed 7) 30 9 ?s)"
    by (simp add: recover_funds_def ensure_managed_def demo_pm_config_def demo_pm_state_def)
  with managed_calls_authorized [of ?cfg 7 30 9 ?s, OF laws] show ?thesis by blast
qed

end
