(* ===== verification/Hyperdrive.thy ===== *)
theory Hyperdrive
  imports Acurast "HOL-Library.FSet"
begin

text \<open>
  The incoming side of Hyperdrive, \<open>pallets/hyperdrive/src/lib.rs\<close> and \<open>types.rs\<close>:
  transmitters submit the Merkle root of a target chain's state snapshot by snapshot, a root
  that a quorum agrees on is accepted, and messages proved against an accepted root are executed
  in the order of their identifiers.

  A proof is any type with the three functions of the trait \<open>Proof\<close> (\<open>traits.rs\<close>); executing an
  action acts on the storage of other pallets, the component \<open>hd_env\<close> of the state.
\<close>

section \<open>Types\<close>

type_synonym hash = bytes
type_synonym message_identifier = u128
type_synonym state_owner = bytes

record activity_window =
  start_block :: block_number
  end_block :: block_number

definition activity_window_default :: activity_window where
  "activity_window_default = \<lparr>start_block = 0, end_block = 0\<rparr>"

datatype state_transmitter_update =
    AddTransmitter account_id activity_window
  | RemoveTransmitter account_id
  | UpdateTransmitter account_id activity_window

datatype raw_action = RegisterJob | DeregisterJob | FinalizeJob | SetJobEnvironment | Noop

text \<open>The discriminants \<open>RawAction::_ as u16\<close>, and \<open>TryFrom<u16>\<close>.\<close>

fun raw_action_index :: "raw_action \<Rightarrow> u16" where
  "raw_action_index RegisterJob = 0"
| "raw_action_index DeregisterJob = 1"
| "raw_action_index FinalizeJob = 2"
| "raw_action_index SetJobEnvironment = 3"
| "raw_action_index Noop = 255"

definition raw_action_try_from :: "u16 \<Rightarrow> string + raw_action" where
  "raw_action_try_from v =
     (if v = raw_action_index RegisterJob then Inr RegisterJob
      else if v = raw_action_index DeregisterJob then Inr DeregisterJob
      else if v = raw_action_index FinalizeJob then Inr FinalizeJob
      else if v = raw_action_index SetJobEnvironment then Inr SetJobEnvironment
      else if v = raw_action_index Noop then Inr Noop
      else Inl ''Unknown action index'')"

text \<open>The names of the \<open>strum\<close> attributes, read by \<open>EnumString\<close>.\<close>

fun raw_action_name :: "raw_action \<Rightarrow> string" where
  "raw_action_name RegisterJob = ''REGISTER_JOB''"
| "raw_action_name DeregisterJob = ''DEREGISTER_JOB''"
| "raw_action_name FinalizeJob = ''FINALIZE_JOB''"
| "raw_action_name SetJobEnvironment = ''SET_JOB_ENVIRONMENT''"
| "raw_action_name Noop = ''NOOP''"

definition raw_action_from_str :: "string \<Rightarrow> raw_action option" where
  "raw_action_from_str n =
     find (\<lambda>a. raw_action_name a = n) [RegisterJob, DeregisterJob, FinalizeJob, SetJobEnvironment, Noop]"

datatype 'x parsed_action =
    PRegisterJob job_id "'x job_registration"
  | PDeregisterJob job_id
  | PFinalizeJob "job_id list"
  | PSetJobEnvironment job_id "(account_id \<times> environment) list"
  | PNoop

fun raw_action_of :: "'x parsed_action \<Rightarrow> raw_action" where
  "raw_action_of (PRegisterJob _ _) = RegisterJob"
| "raw_action_of (PDeregisterJob _) = DeregisterJob"
| "raw_action_of (PFinalizeJob _) = FinalizeJob"
| "raw_action_of (PSetJobEnvironment _ _) = SetJobEnvironment"
| "raw_action_of PNoop = Noop"

datatype process_message_result =
    ParsingValueFailed
  | ActionFailed raw_action
  | ActionSuccess
  | ProcessingFailed "unit dispatch_error"

datatype hd_error =
    SubmitOutsideTransmitterActivityWindow
  | CalculationOverflow
  | UnexpectedSnapshot
  | ProofInvalid
  | ProofDoesNotMatch
  | MessageIdDoesNotMatch
  | InvalidMessageId

datatype hd_event =
    StateTransmittersUpdate "(account_id \<times> activity_window) list" "(account_id \<times> activity_window) list" "account_id list"
  | StateMerkleRootSubmitted account_id block_number hash
  | StateMerkleRootAccepted block_number hash
  | TargetChainOwnerUpdated state_owner
  | MessageProcessed process_message_result

record 'env hd_state =
  hd_block_number :: block_number
  state_transmitter :: "account_id \<Rightarrow> activity_window"
  latest_snapshot :: block_number
  message_seq_id :: message_identifier
  state_merkle_root :: "block_number \<Rightarrow> hash \<rightharpoonup> account_id fset"
  current_target_chain_owner :: state_owner
  current_transmission_rate :: block_number
  hd_events :: "hd_event list"
  hd_env :: 'env

type_synonym 'a hd_result = "hd_error dispatch_error + 'a"

text \<open>
  \<open>Config\<close>: the width of \<open>TargetChainBlockNumber\<close>, the quorum and the bound on the transmitters
  of a snapshot, the trait \<open>Proof\<close> (its functions may read the owner in storage) and the executor
  of actions.
\<close>

record ('prf, 'x, 'env) hd_config =
  target_block_bits :: nat
  TransmissionQuorum :: u8
  MaxTransmittersPerSnapshot :: u32
  calculate_root :: "state_owner \<Rightarrow> 'prf \<Rightarrow> unit + hash"
  proof_message_id :: "'prf \<Rightarrow> unit + message_identifier"
  proof_message :: "'prf \<Rightarrow> unit + 'x parsed_action"
  execute_action :: "'x parsed_action \<Rightarrow> 'env \<Rightarrow> unit + 'env"

section \<open>Merkle proofs (types.rs)\<close>

datatype state_proof_node = Left hash | Right hash

text \<open>
  The body of the fold: the two hashes are copied into a buffer of twice the hash length, which
  is then hashed. (\<open>copy_from_slice\<close> needs both to have exactly that length, which the type of
  hashes guarantees.)
\<close>

definition combine :: "(bytes \<Rightarrow> hash) \<Rightarrow> hash \<Rightarrow> state_proof_node \<Rightarrow> hash" where
  "combine H a b = (case b of Right h \<Rightarrow> H (a @ h) | Left h \<Rightarrow> H (h @ a))"

definition derive_proof :: "(bytes \<Rightarrow> hash) \<Rightarrow> state_proof_node list \<Rightarrow> hash \<Rightarrow> hash" where
  "derive_proof H prf leaf_hash = foldl (combine H) leaf_hash prf"

definition verify_proof :: "(bytes \<Rightarrow> hash) \<Rightarrow> hash \<Rightarrow> state_proof_node list \<Rightarrow> hash \<Rightarrow> bool" where
  "verify_proof H root_hash prf leaf_hash \<longleftrightarrow> root_hash = derive_proof H prf leaf_hash"

section \<open>Dispatchables\<close>

definition deposit_hd_event :: "hd_event \<Rightarrow> 'env hd_state \<Rightarrow> 'env hd_state" where
  "deposit_hd_event e s = s\<lparr>hd_events := hd_events s @ [e]\<rparr>"

text \<open>The fold of \<open>update_state_transmitters\<close>: it changes storage and collects what it did.\<close>

fun apply_transmitter_updates ::
  "state_transmitter_update list \<Rightarrow>
   (account_id \<times> activity_window) list \<times> (account_id \<times> activity_window) list \<times> account_id list \<Rightarrow>
   'env hd_state \<Rightarrow>
   ((account_id \<times> activity_window) list \<times> (account_id \<times> activity_window) list \<times> account_id list) \<times> 'env hd_state" where
  "apply_transmitter_updates [] acc s = (acc, s)"
| "apply_transmitter_updates (AddTransmitter a w # us) (added, updated, removed) s =
     apply_transmitter_updates us (added @ [(a, w)], updated, removed)
       (s\<lparr>state_transmitter := (state_transmitter s)(a := w)\<rparr>)"
| "apply_transmitter_updates (UpdateTransmitter a w # us) (added, updated, removed) s =
     apply_transmitter_updates us (added, updated @ [(a, w)], removed)
       (s\<lparr>state_transmitter := (state_transmitter s)(a := w)\<rparr>)"
| "apply_transmitter_updates (RemoveTransmitter a # us) (added, updated, removed) s =
     apply_transmitter_updates us (added, updated, removed @ [a])
       (s\<lparr>state_transmitter := (state_transmitter s)(a := activity_window_default)\<rparr>)"

definition update_state_transmitters ::
  "origin \<Rightarrow> state_transmitter_update list \<Rightarrow> 'env hd_state \<Rightarrow> 'env hd_state hd_result" where
  "update_state_transmitters o' actions s =
     bind_r (ensure_root o') (\<lambda>_.
     case apply_transmitter_updates actions ([], [], []) s of
       ((added, updated, removed), s1) \<Rightarrow>
         Inr (deposit_hd_event (StateTransmittersUpdate added updated removed) s1))"

text \<open>\<open>BoundedBTreeSet::try_insert\<close>: a full set stays as it is.\<close>

definition try_insert :: "u32 \<Rightarrow> account_id \<Rightarrow> account_id fset \<Rightarrow> account_id fset" where
  "try_insert bound who A = (if fcard A < bound then finsert who A else A)"

text \<open>The closure of \<open>mutate\<close>: the new entry, and whether the quorum is reached.\<close>

definition record_submission ::
  "('prf, 'x, 'env) hd_config \<Rightarrow> account_id \<Rightarrow> account_id fset option \<Rightarrow> account_id fset \<times> bool" where
  "record_submission cfg who submissions =
     (let transmitters =
        (case submissions of
           Some A \<Rightarrow> if who |\<in>| A then A else try_insert (MaxTransmittersPerSnapshot cfg) who A
         | None \<Rightarrow> try_insert (MaxTransmittersPerSnapshot cfg) who {||})
      in (transmitters, fcard transmitters \<ge> TransmissionQuorum cfg))"

definition submit_state_merkle_root ::
  "('prf, 'x, 'env) hd_config \<Rightarrow> origin \<Rightarrow> block_number \<Rightarrow> hash \<Rightarrow> 'env hd_state \<Rightarrow> 'env hd_state hd_result" where
  "submit_state_merkle_root cfg o' snapshot root s =
     bind_r (ensure_signed o') (\<lambda>who.
     let expected_snapshot = latest_snapshot s in
     bind_r (ensure (snapshot = expected_snapshot) (Module UnexpectedSnapshot)) (\<lambda>_.
     let activity_window = state_transmitter s who;
         current_block = hd_block_number s in
     bind_r (ensure (start_block activity_window \<le> current_block \<and> current_block < end_block activity_window)
               (Module SubmitOutsideTransmitterActivityWindow)) (\<lambda>_.
     case record_submission cfg who (state_merkle_root s snapshot root) of
       (transmitters, accepted) \<Rightarrow>
         (let s1 = s\<lparr>state_merkle_root := (state_merkle_root s)
                       (snapshot := (state_merkle_root s snapshot)(root \<mapsto> transmitters))\<rparr>;
              s2 = deposit_hd_event (StateMerkleRootSubmitted who snapshot root) s1
          in Inr (if accepted then
                    deposit_hd_event (StateMerkleRootAccepted snapshot root)
                      (s2\<lparr>latest_snapshot := wrapping_add (target_block_bits cfg) expected_snapshot
                            (current_transmission_rate s2)\<rparr>)
                  else s2)))))"

definition validate_state_merkle_root ::
  "('prf, 'x, 'env) hd_config \<Rightarrow> block_number \<Rightarrow> hash \<Rightarrow> 'env hd_state \<Rightarrow> bool" where
  "validate_state_merkle_root cfg block root s =
     (case state_merkle_root s block root of
        None \<Rightarrow> False
      | Some submissions \<Rightarrow> fcard submissions \<ge> TransmissionQuorum cfg)"

definition process_message_id ::
  "('prf, 'x, 'env) hd_config \<Rightarrow> 'prf \<Rightarrow> 'env hd_state \<Rightarrow> hd_error + message_identifier \<times> 'env hd_state" where
  "process_message_id cfg prf s =
     bind_r (map_err (\<lambda>_. InvalidMessageId) (proof_message_id cfg prf)) (\<lambda>message_id.
     bind_r (ensure (wrapping_add 128 (message_seq_id s) 1 = message_id) MessageIdDoesNotMatch) (\<lambda>_.
     Inr (message_id, s\<lparr>message_seq_id := message_id\<rparr>)))"

text \<open>\<open>#[transactional]\<close>: an error leaves the storage as it was.\<close>

definition process_action ::
  "('prf, 'x, 'env) hd_config \<Rightarrow> 'prf \<Rightarrow> 'env \<Rightarrow> process_message_result + 'env" where
  "process_action cfg prf env =
     bind_r (map_err (\<lambda>_. ParsingValueFailed) (proof_message cfg prf)) (\<lambda>action.
     map_err (\<lambda>_. ActionFailed (raw_action_of action)) (execute_action cfg action env))"

definition submit_message ::
  "('prf, 'x, 'env) hd_config \<Rightarrow> origin \<Rightarrow> block_number \<Rightarrow> 'prf \<Rightarrow> 'env hd_state \<Rightarrow> 'env hd_state hd_result" where
  "submit_message cfg o' snapshot prf s =
     bind_r (ensure_signed o') (\<lambda>_.
     bind_r (map_err (\<lambda>_. Module ProofInvalid) (calculate_root cfg (current_target_chain_owner s) prf)) (\<lambda>derived_root.
     bind_r (ensure (validate_state_merkle_root cfg snapshot derived_root s) (Module ProofDoesNotMatch)) (\<lambda>_.
     bind_r (map_err Module (process_message_id cfg prf s)) (\<lambda>(_, s1).
     Inr (case process_action cfg prf (hd_env s1) of
            Inl e \<Rightarrow> deposit_hd_event (MessageProcessed e) s1
          | Inr env \<Rightarrow> deposit_hd_event (MessageProcessed ActionSuccess) (s1\<lparr>hd_env := env\<rparr>))))))"

definition set_target_chain_owner :: "state_owner \<Rightarrow> 'env hd_state \<Rightarrow> 'env hd_state" where
  "set_target_chain_owner owner s = s\<lparr>current_target_chain_owner := owner\<rparr>"

definition update_target_chain_owner :: "origin \<Rightarrow> state_owner \<Rightarrow> 'env hd_state \<Rightarrow> 'env hd_state hd_result" where
  "update_target_chain_owner o' owner s =
     bind_r (ensure_root o') (\<lambda>_.
     Inr (deposit_hd_event (TargetChainOwnerUpdated owner) (set_target_chain_owner owner s)))"

definition update_current_snapshot :: "origin \<Rightarrow> block_number \<Rightarrow> 'env hd_state \<Rightarrow> 'env hd_state hd_result" where
  "update_current_snapshot o' snapshot s =
     bind_r (ensure_root o') (\<lambda>_. Inr (s\<lparr>latest_snapshot := snapshot\<rparr>))"

section \<open>Shared by the parsers of the target chains\<close>

text \<open>Bounds of the configuration, and of the bounded types of \<open>acurast/common/src/types.rs\<close>.\<close>

record parser_bounds =
  pb_max_allowed_sources :: u32
  pb_max_slots :: u32
  pb_max_env_vars :: u32
  pb_env_key_max_size :: u32
  pb_env_value_max_size :: u32

definition MAX_JOB_MODULES :: u32 where
  "MAX_JOB_MODULES = 1"

definition PUB_KEYS_MAX_LENGTH :: u32 where
  "PUB_KEYS_MAX_LENGTH = 33"

section \<open>Runs\<close>

text \<open>
  One dispatchable other than the privileged \<open>update_current_snapshot\<close>, with the messages it
  processes (identifier, snapshot and root of the proof), or a change of the block number or of
  other pallets.
\<close>

inductive hd_step ::
  "('prf, 'x, 'env) hd_config \<Rightarrow> 'env hd_state \<Rightarrow> (message_identifier \<times> block_number \<times> hash) list \<Rightarrow> 'env hd_state \<Rightarrow> bool"
  for cfg where
  hd_transmitters: "update_state_transmitters o' us s = Inr s' \<Longrightarrow> hd_step cfg s [] s'"
| hd_root: "submit_state_merkle_root cfg o' n r s = Inr s' \<Longrightarrow> hd_step cfg s [] s'"
| hd_message: "submit_message cfg o' n prf s = Inr s' \<Longrightarrow>
    calculate_root cfg (current_target_chain_owner s) prf = Inr r \<Longrightarrow>
    hd_step cfg s [(message_seq_id s', n, r)] s'"
| hd_owner: "update_target_chain_owner o' ow s = Inr s' \<Longrightarrow> hd_step cfg s [] s'"
| hd_other: "hd_step cfg s [] (s\<lparr>hd_block_number := b, hd_env := env\<rparr>)"

inductive hd_run ::
  "('prf, 'x, 'env) hd_config \<Rightarrow> 'env hd_state \<Rightarrow> nat \<Rightarrow> (message_identifier \<times> block_number \<times> hash) list \<Rightarrow>
   'env hd_state \<Rightarrow> bool"
  for cfg where
  hd_refl: "hd_run cfg s 0 [] s"
| hd_more: "hd_run cfg s k log s1 \<Longrightarrow> hd_step cfg s1 log' s2 \<Longrightarrow> hd_run cfg s (Suc k) (log @ log') s2"

section \<open>Lemmas\<close>

lemma apply_transmitter_updates_frame:
  "apply_transmitter_updates us acc s = (acc', s') \<Longrightarrow>
     s' = s\<lparr>state_transmitter := state_transmitter s'\<rparr>"
  by (induction us acc s rule: apply_transmitter_updates.induct) fastforce+

lemma update_state_transmitters_frame:
  assumes "update_state_transmitters o' us s = Inr s'"
  shows "latest_snapshot s' = latest_snapshot s" "message_seq_id s' = message_seq_id s"
    "state_merkle_root s' = state_merkle_root s" "current_transmission_rate s' = current_transmission_rate s"
  using assms
  by (auto simp: update_state_transmitters_def result_simps deposit_hd_event_def split: prod.splits
      dest!: apply_transmitter_updates_frame)
    (metis hd_state.select_convs hd_state.surjective hd_state.update_convs)+

lemma submit_state_merkle_root_effect:
  assumes "submit_state_merkle_root cfg o' n r s = Inr s'"
  obtains who A acc where "o' = Signed who" and "n = latest_snapshot s"
    and "record_submission cfg who (state_merkle_root s n r) = (A, acc)"
    and "state_merkle_root s' = (state_merkle_root s)(n := (state_merkle_root s n)(r \<mapsto> A))"
    and "latest_snapshot s' = (if acc then wrapping_add (target_block_bits cfg) n (current_transmission_rate s) else n)"
    and "message_seq_id s' = message_seq_id s" and "current_transmission_rate s' = current_transmission_rate s"
    and "hd_block_number s' = hd_block_number s" and "state_transmitter s' = state_transmitter s"
proof -
  obtain who where who: "o' = Signed who" and n: "n = latest_snapshot s"
    using assms by (auto simp: submit_state_merkle_root_def result_simps Let_def)
  obtain A acc where rec: "record_submission cfg who (state_merkle_root s n r) = (A, acc)" by fastforce
  show thesis
    by (rule that [OF who n rec])
      (use assms in \<open>auto simp: submit_state_merkle_root_def result_simps Let_def deposit_hd_event_def
        who n rec [unfolded n]\<close>)
qed

lemma submit_message_effect:
  assumes "submit_message cfg o' n prf s = Inr s'"
  obtains r where "calculate_root cfg (current_target_chain_owner s) prf = Inr r"
    and "validate_state_merkle_root cfg n r s"
    and "message_seq_id s' = wrapping_add 128 (message_seq_id s) 1"
    and "proof_message_id cfg prf = Inr (message_seq_id s')"
    and "state_merkle_root s' = state_merkle_root s" and "latest_snapshot s' = latest_snapshot s"
    and "current_transmission_rate s' = current_transmission_rate s"
    and "hd_env s' = (case process_action cfg prf (hd_env s) of Inl e \<Rightarrow> hd_env s | Inr env \<Rightarrow> env)"
  using assms that
  by (auto simp: submit_message_def process_message_id_def result_simps deposit_hd_event_def split: sum.splits)

lemma record_submission_grows:
  assumes "record_submission cfg who sub = (A, acc)" and "sub = Some B"
  shows "fcard B \<le> fcard A"
  using assms
  by (auto simp: record_submission_def try_insert_def Let_def fcard_finsert_le split: if_splits)

lemma record_submission_quorum:
  "record_submission cfg who sub = (A, acc) \<Longrightarrow> acc \<longleftrightarrow> fcard A \<ge> TransmissionQuorum cfg"
  by (auto simp: record_submission_def Let_def)

lemma validate_root_Some:
  "validate_state_merkle_root cfg n r s \<longleftrightarrow> (\<exists>A. state_merkle_root s n r = Some A \<and> TransmissionQuorum cfg \<le> fcard A)"
  by (auto simp: validate_state_merkle_root_def split: option.splits)

text \<open>What one step does to the accepted roots, the snapshot and the message sequence.\<close>

definition roots_ok :: "('prf, 'x, 'env) hd_config \<Rightarrow> 'env hd_state \<Rightarrow> bool" where
  "roots_ok cfg s \<longleftrightarrow>
     (\<forall>n r. validate_state_merkle_root cfg n r s \<longrightarrow> n < latest_snapshot s) \<and>
     (\<forall>n r r'. validate_state_merkle_root cfg n r s \<longrightarrow> validate_state_merkle_root cfg n r' s \<longrightarrow> r = r')"

lemma submit_root_keeps_valid:
  assumes "submit_state_merkle_root cfg o' n r s = Inr s'" and "validate_state_merkle_root cfg m q s"
  shows "validate_state_merkle_root cfg m q s'"
  using assms(1)
proof (rule submit_state_merkle_root_effect)
  fix who A acc
  assume rec: "record_submission cfg who (state_merkle_root s n r) = (A, acc)"
    and roots: "state_merkle_root s' = (state_merkle_root s)(n := (state_merkle_root s n)(r \<mapsto> A))"
  show ?thesis
    using assms(2) record_submission_grows [OF rec] by (auto simp: validate_root_Some roots)
qed

lemma submit_root_ok:
  assumes step: "submit_state_merkle_root cfg o' n r s = Inr s'" and ok: "roots_ok cfg s"
    and rate: "0 < current_transmission_rate s"
    and bound: "latest_snapshot s + current_transmission_rate s < 2 ^ target_block_bits cfg"
  shows "roots_ok cfg s' \<and> latest_snapshot s' \<le> latest_snapshot s + current_transmission_rate s"
  using step
proof (rule submit_state_merkle_root_effect)
  fix who A acc
  assume n: "n = latest_snapshot s" and rec: "record_submission cfg who (state_merkle_root s n r) = (A, acc)"
    and roots: "state_merkle_root s' = (state_merkle_root s)(n := (state_merkle_root s n)(r \<mapsto> A))"
    and latest: "latest_snapshot s' = (if acc then wrapping_add (target_block_bits cfg) n (current_transmission_rate s) else n)"
  have latest': "latest_snapshot s' = (if acc then n + current_transmission_rate s else n)"
    using latest bound by (simp add: n wrapping_add_exact)
  have valid: "validate_state_merkle_root cfg m q s' \<longleftrightarrow>
      (if m = n \<and> q = r then acc else validate_state_merkle_root cfg m q s)" for m q
    using record_submission_quorum [OF rec] by (auto simp: validate_root_Some roots)
  have none: "\<not> validate_state_merkle_root cfg n q s" for q
    using ok n by (auto simp: roots_ok_def)
  have low: "m < n" if "validate_state_merkle_root cfg m q s" for m q
    using ok that n by (auto simp: roots_ok_def)
  show ?thesis
    using ok rate none low unfolding roots_ok_def valid latest' by (auto simp: n trans_less_add1)
qed

lemma hd_step_rate: "hd_step cfg s log s' \<Longrightarrow> current_transmission_rate s' = current_transmission_rate s"
  by (auto elim!: hd_step.cases submit_state_merkle_root_effect submit_message_effect
      simp: update_state_transmitters_frame update_target_chain_owner_def set_target_chain_owner_def
      deposit_hd_event_def result_simps)

lemma hd_run_rate: "hd_run cfg s k log s' \<Longrightarrow> current_transmission_rate s' = current_transmission_rate s"
  by (induction rule: hd_run.induct) (auto dest: hd_step_rate)

lemma validate_root_cong:
  "state_merkle_root s' = state_merkle_root s \<Longrightarrow> validate_state_merkle_root cfg n r s' = validate_state_merkle_root cfg n r s"
  by (simp add: validate_root_Some)

lemma roots_ok_cong:
  assumes "state_merkle_root s' = state_merkle_root s" and "latest_snapshot s' = latest_snapshot s"
  shows "roots_ok cfg s' \<longleftrightarrow> roots_ok cfg s"
  by (simp add: roots_ok_def assms validate_root_cong [OF assms(1)])

lemma hd_step_roots:
  assumes "hd_step cfg s log s'" and "roots_ok cfg s" and "0 < current_transmission_rate s"
    and "latest_snapshot s + current_transmission_rate s < 2 ^ target_block_bits cfg"
  shows "roots_ok cfg s' \<and> latest_snapshot s' \<le> latest_snapshot s + current_transmission_rate s"
  using assms(1)
proof cases
  case (hd_root o' n r)
  then show ?thesis using submit_root_ok assms(2-4) by blast
next
  case (hd_message o' n pf r)
  from hd_message(2) have "state_merkle_root s' = state_merkle_root s" "latest_snapshot s' = latest_snapshot s"
    by (auto elim: submit_message_effect)
  then show ?thesis using roots_ok_cong [of s' s cfg] assms(2) by simp
next
  case (hd_transmitters o' us)
  then show ?thesis
    using roots_ok_cong [of s' s cfg] update_state_transmitters_frame(1,3) [OF hd_transmitters(2)] assms(2) by simp
next
  case (hd_owner o' ow)
  then have "state_merkle_root s' = state_merkle_root s" "latest_snapshot s' = latest_snapshot s"
    by (auto simp: update_target_chain_owner_def set_target_chain_owner_def deposit_hd_event_def result_simps)
  then show ?thesis using roots_ok_cong [of s' s cfg] assms(2) by simp
next
  case (hd_other b env)
  then show ?thesis using roots_ok_cong [of s' s cfg] assms(2) by simp
qed

lemma hd_step_valid_mono:
  assumes "hd_step cfg s log s'" and "validate_state_merkle_root cfg n r s"
  shows "validate_state_merkle_root cfg n r s'"
  using assms
proof cases
  case (hd_root o' m q)
  then show ?thesis using submit_root_keeps_valid assms(2) by blast
next
  case (hd_message o' m pf q)
  from hd_message(2) have "state_merkle_root s' = state_merkle_root s"
    by (auto elim: submit_message_effect)
  then show ?thesis using assms(2) by (simp add: validate_root_Some)
next
  case (hd_transmitters o' us)
  then show ?thesis using update_state_transmitters_frame(3) assms(2) by (fastforce simp: validate_root_Some)
qed (auto simp: update_target_chain_owner_def set_target_chain_owner_def deposit_hd_event_def result_simps
    validate_root_Some)

lemma hd_step_messages:
  assumes "hd_step cfg s log s'"
  shows "(log = [] \<and> message_seq_id s' = message_seq_id s) \<or>
    (\<exists>n r. log = [(message_seq_id s', n, r)] \<and> message_seq_id s' = wrapping_add 128 (message_seq_id s) 1 \<and>
      validate_state_merkle_root cfg n r s')"
  using assms
proof cases
  case (hd_message o' n pf r)
  from hd_message(2) have "message_seq_id s' = wrapping_add 128 (message_seq_id s) 1"
    "state_merkle_root s' = state_merkle_root s" "validate_state_merkle_root cfg n r s"
    using hd_message(3) by (auto elim: submit_message_effect)
  then show ?thesis using hd_message(1) by (auto simp: validate_root_Some)
qed (auto elim!: submit_state_merkle_root_effect simp: update_state_transmitters_frame
    update_target_chain_owner_def set_target_chain_owner_def deposit_hd_event_def result_simps)

section \<open>Merkle trees\<close>

text \<open>
  The reference for a Merkle proof: binary trees over leaf hashes, the root of a tree, and the
  leaf at a position (the turns from the root; \<open>True\<close> goes right) with the siblings on the way up.
\<close>

datatype merkle_tree = MLeaf hash | MNode merkle_tree merkle_tree

fun merkle_root :: "(bytes \<Rightarrow> hash) \<Rightarrow> merkle_tree \<Rightarrow> hash" where
  "merkle_root H (MLeaf h) = h"
| "merkle_root H (MNode l r) = H (merkle_root H l @ merkle_root H r)"

fun merkle_path :: "(bytes \<Rightarrow> hash) \<Rightarrow> merkle_tree \<Rightarrow> bool list \<Rightarrow> (hash \<times> state_proof_node list) option" where
  "merkle_path H (MLeaf h) [] = Some (h, [])"
| "merkle_path H (MNode l r) (False # ds) =
     map_option (\<lambda>(h, p). (h, p @ [Right (merkle_root H r)])) (merkle_path H l ds)"
| "merkle_path H (MNode l r) (True # ds) =
     map_option (\<lambda>(h, p). (h, p @ [Left (merkle_root H l)])) (merkle_path H r ds)"
| "merkle_path H _ _ = None"

fun is_left :: "state_proof_node \<Rightarrow> bool" where
  "is_left (Left _) = True"
| "is_left (Right _) = False"

fun node_hash :: "state_proof_node \<Rightarrow> hash" where
  "node_hash (Left h) = h"
| "node_hash (Right h) = h"

fun leaf_hashes :: "merkle_tree \<Rightarrow> hash set" where
  "leaf_hashes (MLeaf h) = {h}"
| "leaf_hashes (MNode l r) = leaf_hashes l \<union> leaf_hashes r"

definition collision :: "(bytes \<Rightarrow> hash) \<Rightarrow> nat \<Rightarrow> bool" where
  "collision H n \<longleftrightarrow> (\<exists>x y. x \<noteq> y \<and> length x = 2 * n \<and> length y = 2 * n \<and> H x = H y)"

lemma derive_proof_snoc: "derive_proof H (p @ [b]) l = combine H (derive_proof H p l) b"
  by (simp add: derive_proof_def)

lemma merkle_path_derives: "merkle_path H t ds = Some (h, p) \<Longrightarrow> derive_proof H p h = merkle_root H t"
  by (induction H t ds arbitrary: h p rule: merkle_path.induct)
    (auto simp: derive_proof_snoc combine_def derive_proof_def)

lemma derive_proof_length:
  assumes "\<And>x. length (H x) = n" and "length l = n"
  shows "length (derive_proof H p l) = n"
  by (cases p rule: rev_cases) (simp_all add: assms derive_proof_snoc combine_def derive_proof_def split: state_proof_node.splits)

lemma combine_binding:
  assumes "combine H a b = combine H a' b'" and "is_left b = is_left b'"
    and "length a = n" "length a' = n" "length (node_hash b) = n" "length (node_hash b') = n"
  shows "(a = a' \<and> b = b') \<or> collision H n"
proof -
  define inp where "inp = (\<lambda>c d. case d of Right h \<Rightarrow> c @ h | Left h \<Rightarrow> h @ c)"
  have eq: "H (inp a b) = H (inp a' b')"
    using assms(1) by (simp add: combine_def inp_def split: state_proof_node.splits)
  have len: "length (inp a b) = 2 * n" "length (inp a' b') = 2 * n"
    using assms(3-6) by (auto simp: inp_def split: state_proof_node.splits)
  have "a = a' \<and> b = b'" if "inp a b = inp a' b'"
    using that assms(2-6) by (auto simp: inp_def split: state_proof_node.splits)
  with eq len show ?thesis unfolding collision_def by blast
qed

lemma derive_proof_binding:
  assumes out: "\<And>x. length (H x) = n"
    and "derive_proof H p l = derive_proof H p' l'" and "map is_left p = map is_left p'"
    and "length l = n" "length l' = n" "\<forall>b \<in> set p. length (node_hash b) = n" "\<forall>b \<in> set p'. length (node_hash b) = n"
  shows "(l = l' \<and> p = p') \<or> collision H n"
  using assms(2-7)
proof (induction p arbitrary: p' rule: rev_induct)
  case Nil
  then show ?case by (simp add: derive_proof_def)
next
  case (snoc b q)
  then obtain q' b' where p': "p' = q' @ [b']" and sides: "map is_left q = map is_left q'" "is_left b = is_left b'"
    by (cases p' rule: rev_cases) auto
  have "combine H (derive_proof H q l) b = combine H (derive_proof H q' l') b'"
    using snoc.prems(1) by (simp add: p' derive_proof_snoc)
  then have "(derive_proof H q l = derive_proof H q' l' \<and> b = b') \<or> collision H n"
    by (rule combine_binding) (use sides snoc.prems derive_proof_length [OF out] in \<open>auto simp: p'\<close>)
  then show ?case
    using snoc.IH [OF _ sides(1)] snoc.prems by (auto simp: p')
qed

lemma merkle_root_length: "(\<And>x. length (H x) = n) \<Longrightarrow> \<forall>h \<in> leaf_hashes t. length h = n \<Longrightarrow> length (merkle_root H t) = n"
  by (cases t) auto

lemma merkle_path_lengths:
  assumes out: "\<And>x. length (H x) = n"
  shows "merkle_path H t ds = Some (h, p) \<Longrightarrow> \<forall>h \<in> leaf_hashes t. length h = n \<Longrightarrow>
    length h = n \<and> (\<forall>b \<in> set p. length (node_hash b) = n)"
proof (induction t arbitrary: ds h p)
  case (MLeaf x)
  then show ?case by (cases ds) auto
next
  case (MNode l r)
  then obtain d ds' where ds: "ds = d # ds'" by (cases ds) auto
  have "length (merkle_root H l) = n" "length (merkle_root H r) = n"
    using MNode.prems(2) by (auto intro: merkle_root_length [OF out])
  with MNode show ?case unfolding ds by (cases d) fastforce+
qed

section \<open>Message order\<close>

lemma hd_run_messages:
  assumes "hd_run cfg s k log s'" and "message_seq_id s + length log < 2 ^ 128"
  shows "map fst log = [message_seq_id s + 1 ..< message_seq_id s + 1 + length log] \<and>
    message_seq_id s' = message_seq_id s + length log \<and>
    (\<forall>(i, n, r) \<in> set log. validate_state_merkle_root cfg n r s')"
  using assms
proof (induction rule: hd_run.induct)
  case (hd_more s k log s1 log' s2)
  from hd_more.prems have IH: "map fst log = [message_seq_id s + 1 ..< message_seq_id s + 1 + length log]"
    "message_seq_id s1 = message_seq_id s + length log"
    "\<forall>(i, n, r) \<in> set log. validate_state_merkle_root cfg n r s1"
    using hd_more.IH by auto
  then have old: "\<forall>(i, n, r) \<in> set log. validate_state_merkle_root cfg n r s2"
    using hd_step_valid_mono [OF hd_more.hyps(2)] by fastforce
  from hd_step_messages [OF hd_more.hyps(2)] show ?case
  proof
    assume "log' = [] \<and> message_seq_id s2 = message_seq_id s1"
    then show ?thesis using IH old by simp
  next
    assume "\<exists>n r. log' = [(message_seq_id s2, n, r)] \<and> message_seq_id s2 = wrapping_add 128 (message_seq_id s1) 1 \<and>
      validate_state_merkle_root cfg n r s2"
    then obtain n r where new: "log' = [(message_seq_id s2, n, r)]"
      "message_seq_id s2 = wrapping_add 128 (message_seq_id s1) 1" "validate_state_merkle_root cfg n r s2"
      by blast
    have "message_seq_id s1 + 1 < 2 ^ 128" using hd_more.prems new(1) IH(2) by simp
    then have "message_seq_id s2 = message_seq_id s + length log + 1"
      using new(2) IH(2) by (simp add: wrapping_add_exact)
    then show ?thesis using IH old new by simp
  qed
qed simp

lemma hd_run_roots:
  assumes "hd_run cfg s k log s'" and "roots_ok cfg s" and "0 < current_transmission_rate s"
    and "latest_snapshot s + k * current_transmission_rate s < 2 ^ target_block_bits cfg"
  shows "roots_ok cfg s' \<and> latest_snapshot s' \<le> latest_snapshot s + k * current_transmission_rate s"
  using assms
proof (induction rule: hd_run.induct)
  case (hd_more s k log s1 log' s2)
  note rate = hd_run_rate [OF hd_more.hyps(1)]
  from hd_more have IH: "roots_ok cfg s1" "latest_snapshot s1 \<le> latest_snapshot s + k * current_transmission_rate s"
    by auto
  have "latest_snapshot s1 + current_transmission_rate s1 < 2 ^ target_block_bits cfg"
    using IH(2) hd_more.prems(3) rate by simp
  from hd_step_roots [OF hd_more.hyps(2) IH(1) _ this] IH(2) hd_more.prems(2) rate show ?case by simp
qed simp

section \<open>Quorum\<close>

definition active :: "'env hd_state \<Rightarrow> account_id \<Rightarrow> bool" where
  "active s who \<longleftrightarrow> start_block (state_transmitter s who) \<le> hd_block_number s \<and>
     hd_block_number s < end_block (state_transmitter s who)"

lemma submit_below_quorum:
  assumes "active s who" and "state_merkle_root s (latest_snapshot s) r = sub"
    and "sub = Some A \<or> sub = None \<and> A = {||}" and "who |\<notin>| A"
    and "fcard A < TransmissionQuorum cfg" and "TransmissionQuorum cfg \<le> MaxTransmittersPerSnapshot cfg"
  shows "\<exists>s1. submit_state_merkle_root cfg (Signed who) (latest_snapshot s) r s = Inr s1 \<and>
    state_merkle_root s1 (latest_snapshot s) r = Some (finsert who A) \<and>
    latest_snapshot s1 = (if Suc (fcard A) = TransmissionQuorum cfg
       then wrapping_add (target_block_bits cfg) (latest_snapshot s) (current_transmission_rate s) else latest_snapshot s) \<and>
    hd_block_number s1 = hd_block_number s \<and> state_transmitter s1 = state_transmitter s \<and>
    current_transmission_rate s1 = current_transmission_rate s"
proof -
  have card: "fcard (finsert who A) = Suc (fcard A)" using assms(4) by (rule fcard_finsert_disjoint)
  have rec: "record_submission cfg who sub = (finsert who A, Suc (fcard A) \<ge> TransmissionQuorum cfg)"
    using assms(3-6) card by (auto simp: record_submission_def try_insert_def Let_def)
  have "is_ok (submit_state_merkle_root cfg (Signed who) (latest_snapshot s) r s)"
    using assms(1,2) rec by (simp add: submit_state_merkle_root_def active_def Let_def)
  then obtain s1 where s1: "submit_state_merkle_root cfg (Signed who) (latest_snapshot s) r s = Inr s1"
    unfolding is_ok_ex by blast
  then show ?thesis
    by (rule submit_state_merkle_root_effect) (use assms(2,5) rec s1 in auto)
qed

lemma quorum_accepts:
  assumes "TransmissionQuorum cfg \<le> MaxTransmittersPerSnapshot cfg"
    and "whos \<noteq> []" and "distinct whos" and "\<forall>who \<in> set whos. active s who"
    and "state_merkle_root s n r = Some A \<or> state_merkle_root s n r = None \<and> A = {||}"
    and "fcard A + length whos = TransmissionQuorum cfg" and "set whos \<inter> fset A = {}" and "latest_snapshot s = n"
  shows "\<exists>s'. fold_r (\<lambda>who. submit_state_merkle_root cfg (Signed who) n r) whos s = Inr s' \<and>
    state_merkle_root s' n r = Some (A |\<union>| fset_of_list whos) \<and>
    latest_snapshot s' = wrapping_add (target_block_bits cfg) n (current_transmission_rate s)"
  using assms
proof (induction whos arbitrary: s A)
  case (Cons who whos)
  have fresh: "who |\<notin>| A" and below: "fcard A < TransmissionQuorum cfg"
    using Cons.prems by auto
  from submit_below_quorum [OF _ refl _ fresh below Cons.prems(1), of s r] Cons.prems
  obtain s1 where s1: "submit_state_merkle_root cfg (Signed who) n r s = Inr s1"
    "state_merkle_root s1 n r = Some (finsert who A)"
    "latest_snapshot s1 = (if Suc (fcard A) = TransmissionQuorum cfg
       then wrapping_add (target_block_bits cfg) n (current_transmission_rate s) else n)"
    "hd_block_number s1 = hd_block_number s" "state_transmitter s1 = state_transmitter s"
    "current_transmission_rate s1 = current_transmission_rate s"
    by auto
  show ?case
  proof (cases "whos = []")
    case True
    then show ?thesis using s1 Cons.prems(6) by simp
  next
    case False
    have "\<exists>s'. fold_r (\<lambda>who. submit_state_merkle_root cfg (Signed who) n r) whos s1 = Inr s' \<and>
      state_merkle_root s' n r = Some (finsert who A |\<union>| fset_of_list whos) \<and>
      latest_snapshot s' = wrapping_add (target_block_bits cfg) n (current_transmission_rate s1)"
    proof (rule Cons.IH)
      have "Suc (fcard A) \<noteq> TransmissionQuorum cfg" using Cons.prems(6) False by (cases whos) auto
      then show "latest_snapshot s1 = n" using s1(3) by simp
      show "fcard (finsert who A) + length whos = TransmissionQuorum cfg" using Cons.prems(6) fresh by (simp add: fcard_finsert_disjoint)
      show "\<forall>w \<in> set whos. active s1 w" using Cons.prems(4) s1(4,5) by (simp add: active_def)
    qed (use False Cons.prems s1(2) in auto)
    then show ?thesis using s1 by auto
  qed
qed simp

section \<open>Sample data\<close>

text \<open>A proof of the sample is its root, its message identifier and its action.\<close>

definition demo_hd_config :: "(hash \<times> message_identifier \<times> unit parsed_action, unit, nat) hd_config" where
  "demo_hd_config = \<lparr>target_block_bits = 32, TransmissionQuorum = 2, MaxTransmittersPerSnapshot = 50,
     calculate_root = (\<lambda>owner (r, i, a). Inr r), proof_message_id = (\<lambda>(r, i, a). Inr i),
     proof_message = (\<lambda>(r, i, a). Inr a),
     execute_action = (\<lambda>a env. case a of PNoop \<Rightarrow> Inr (Suc env) | _ \<Rightarrow> Inl ())\<rparr>"

definition demo_hd_state :: "nat hd_state" where
  "demo_hd_state = \<lparr>hd_block_number = 7, state_transmitter = (\<lambda>_. \<lparr>start_block = 0, end_block = 100\<rparr>),
     latest_snapshot = 1, message_seq_id = 0, state_merkle_root = (\<lambda>_. Map.empty),
     current_target_chain_owner = [], current_transmission_rate = 5, hd_events = [], hd_env = 0\<rparr>"

definition demo_hd_accepted :: "nat hd_state" where
  "demo_hd_accepted = demo_hd_state\<lparr>latest_snapshot := 6,
     state_merkle_root := (\<lambda>_. Map.empty)(1 := [[9] \<mapsto> {|4, 5|}])\<rparr>"

section \<open>Properties\<close>


lemma demo_hd_submissions:
  "\<exists>s1 s2. submit_state_merkle_root demo_hd_config (Signed 4) 1 [9] demo_hd_state = Inr s1 \<and>
     submit_state_merkle_root demo_hd_config (Signed 5) 1 [9] s1 = Inr s2 \<and>
     validate_state_merkle_root demo_hd_config 1 [9] s2"
proof -
  have "fcard {|5, 4 :: nat|} = 2" by (simp add: fcard_finsert_if)
  then show ?thesis
    by (simp add: submit_state_merkle_root_def demo_hd_state_def demo_hd_config_def record_submission_def
        try_insert_def deposit_hd_event_def validate_state_merkle_root_def fcard_finsert_if fcard_fempty wrapping_add_def Let_def)
qed


text \<open>
  C23: a quorum suffices. If as many further active transmitters as the quorum lacks submit the
  same root for the current snapshot, one after the other, every submission succeeds, the root
  is accepted after the last one and the pallet moves on to the next snapshot.
\<close>

theorem quorum_accepts_root:
  assumes "TransmissionQuorum cfg \<le> MaxTransmittersPerSnapshot cfg"
    and "whos \<noteq> []" and "distinct whos" and "\<forall>who \<in> set whos. active s who"
    and "A = (case state_merkle_root s (latest_snapshot s) r of Some A \<Rightarrow> A | None \<Rightarrow> {||})"
    and "set whos \<inter> fset A = {}" and "fcard A + length whos = TransmissionQuorum cfg"
  shows "\<exists>s'. fold_r (\<lambda>who. submit_state_merkle_root cfg (Signed who) (latest_snapshot s) r) whos s = Inr s' \<and>
    validate_state_merkle_root cfg (latest_snapshot s) r s' \<and>
    latest_snapshot s' = wrapping_add (target_block_bits cfg) (latest_snapshot s) (current_transmission_rate s)"
proof -
  have "state_merkle_root s (latest_snapshot s) r = Some A \<or> state_merkle_root s (latest_snapshot s) r = None \<and> A = {||}"
    using assms(5) by (auto split: option.splits)
  from quorum_accepts [OF assms(1-4) this assms(7,6) refl] obtain s' where
    s': "fold_r (\<lambda>who. submit_state_merkle_root cfg (Signed who) (latest_snapshot s) r) whos s = Inr s'"
    "state_merkle_root s' (latest_snapshot s) r = Some (A |\<union>| fset_of_list whos)"
    "latest_snapshot s' = wrapping_add (target_block_bits cfg) (latest_snapshot s) (current_transmission_rate s)"
    by blast
  have "A |\<inter>| fset_of_list whos = {||}" using assms(6) by (auto simp: fset_of_list_elem)
  then have "fcard (A |\<union>| fset_of_list whos) = fcard A + fcard (fset_of_list whos)"
    by (rule fcard_funion_disjoint)
  moreover have "fcard (fset_of_list whos) = length whos"
    using assms(3) by (simp add: fcard.rep_eq fset_of_list.rep_eq distinct_card)
  ultimately show ?thesis using s' assms(7) by (auto simp: validate_root_Some)
qed

theorem quorum_accepts_root_witness:
  "\<exists>s'. fold_r (\<lambda>who. submit_state_merkle_root demo_hd_config (Signed who) 1 [9]) [4, 5] demo_hd_state = Inr s' \<and>
     validate_state_merkle_root demo_hd_config 1 [9] s' \<and> latest_snapshot s' = 6"
  using quorum_accepts_root [of demo_hd_config "[4, 5]" demo_hd_state "{||}" "[9]"]
  by (simp add: demo_hd_config_def demo_hd_state_def active_def wrapping_add_def)


lemma demo_hd_messages:
  "\<exists>s1 s2. submit_message demo_hd_config (Signed 8) 1 ([9], 1, PDeregisterJob (Acurast 1, 1)) demo_hd_accepted = Inr s1 \<and>
     submit_message demo_hd_config (Signed 8) 1 ([9], 2, PNoop) s1 = Inr s2 \<and>
     hd_env s1 = 0 \<and> hd_env s2 = 1 \<and> message_seq_id s1 = 1 \<and> message_seq_id s2 = 2"
proof -
  have "fcard {|4, 5 :: nat|} = 2" by (simp add: fcard_finsert_if)
  then show ?thesis
    by (simp add: submit_message_def demo_hd_accepted_def demo_hd_state_def demo_hd_config_def
        validate_state_merkle_root_def process_message_id_def process_action_def wrapping_add_def deposit_hd_event_def)
qed




end
