(* ===== verification/Hyperdrive_Tezos.thy ===== *)
theory Hyperdrive_Tezos
  imports Hyperdrive Market_Types
begin

text \<open>
  The Tezos side of Hyperdrive, \<open>pallets/hyperdrive/src/chain/tezos.rs\<close>: a proof of a message
  in the state of a Tezos contract, the parser of its key and its value, and the payloads of the
  actions.

  Micheline is decoded by the crate \<open>tezos_michelson\<close>. Its values are the type \<open>'d\<close>, and what
  the parser calls of it is the record \<open>michelson\<close>; its errors reach the parser converted to
  \<open>tezos_error\<close>. The schemas the parser decodes with are data of the source.
\<close>

section \<open>Errors\<close>

datatype field_error =
    ACTION | ORIGIN | PAYLOAD | AllowOnlyVerifiedSources | FAllowedSources | Destination | InstantMatch
  | Source | StartDelay | MinReputation | Reward | Slots | FJobId | Memory | NetworkRequests | Duration
  | EndTime | Interval | MaxStartDelay | RequiredModules | StartTime | FScript | Storage | Processors | PublicKey

datatype length_exceeded_error = LAllowedSources

datatype tezos_error =
    TezosMicheline
  | TezosCore
  | ParsingFailure
  | InvalidMessage
  | InvalidAction
  | ScriptOutOfBounds
  | InstantMatchPlannedExecutionsOutOfBounds
  | TezosAddressOutOfBounds
  | InvalidReward
  | MissingField field_error
  | LengthExceeded length_exceeded_error
  | InvalidBool
  | InvalidOption
  | AddressParsing
  | RequiredModulesParsing
  | ProcessorEnvironmentParsing

section \<open>Schemas\<close>

text \<open>The constructors of \<open>tezos_michelson::michelson::types\<close> that the schemas are built from.\<close>

datatype michelson_type =
    TString | TAddress | TBytes | TBool | TNat
  | TOption michelson_type | TSet michelson_type
  | TMap michelson_type michelson_type | TPair "michelson_type list"

definition message_schema :: michelson_type where
  "message_schema = TPair [TString, TAddress, TBytes]"

definition registration_payload_schema :: michelson_type where
  "registration_payload_schema = TPair
     [TBool, TOption (TSet TBytes),
      TPair [TOption (TSet (TPair [TBytes, TNat])), TOption TNat, TNat, TNat],
      TNat, TNat, TNat, TSet TNat,
      TPair [TNat, TNat, TNat, TNat, TNat],
      TBytes, TNat]"

definition set_job_environment_payload_schema :: michelson_type where
  "set_job_environment_payload_schema = TPair [TNat, TMap TBytes (TMap TBytes TBytes), TBytes]"

definition deregister_job_schema :: michelson_type where
  "deregister_job_schema = TNat"

definition finalize_job_schema :: michelson_type where
  "finalize_job_schema = TSet TNat"

section \<open>The Micheline library\<close>

text \<open>
  \<open>pair_values\<close> is the conversion to \<open>Pair\<close> followed by \<open>flatten().values\<close>; \<open>data_bool\<close> and
  \<open>data_option\<close> distinguish the variants of \<open>Data\<close> that the parser matches on;
  \<open>to_integer w\<close> reads an \<open>Int\<close> as an unsigned integer of \<open>w\<close> bits; \<open>parse_account\<close> is the
  conversion of bytes to an account.
\<close>

record ('d, 'addr) michelson =
  unpack :: "bytes \<Rightarrow> michelson_type \<Rightarrow> tezos_error + 'd"
  pair_values :: "'d \<Rightarrow> tezos_error + 'd list"
  data_bool :: "'d \<Rightarrow> bool option"
  data_option :: "'d \<Rightarrow> 'd option option"
  data_sequence :: "'d \<Rightarrow> tezos_error + 'd list"
  data_elt :: "'d \<Rightarrow> tezos_error + 'd \<times> 'd"
  try_bytes :: "'d \<Rightarrow> tezos_error + bytes"
  try_int :: "'d \<Rightarrow> tezos_error + int"
  try_nat :: "'d \<Rightarrow> tezos_error + int"
  try_string :: "'d \<Rightarrow> tezos_error + string"
  to_integer :: "nat \<Rightarrow> int \<Rightarrow> tezos_error + nat"
  address_of_str :: "string \<Rightarrow> tezos_error + 'addr"
  address_bytes :: "'addr \<Rightarrow> tezos_error + bytes"
  parse_account :: "bytes \<Rightarrow> unit + account_id"

section \<open>Utilities\<close>

definition try_bool :: "('d, 'addr) michelson \<Rightarrow> 'd \<Rightarrow> tezos_error + bool" where
  "try_bool M v = ok_or (data_bool M v) InvalidBool"

definition try_address :: "('d, 'addr) michelson \<Rightarrow> 'd \<Rightarrow> tezos_error + 'addr" where
  "try_address M v = bind_r (try_string M v) (address_of_str M)"

definition try_option :: "('d, 'addr) michelson \<Rightarrow> 'd \<Rightarrow> ('d \<Rightarrow> tezos_error + 'r) \<Rightarrow> tezos_error + 'r option" where
  "try_option M v op =
     (case data_option M v of
        Some (Some w) \<Rightarrow> bind_r (op w) (\<lambda>r. Inr (Some r))
      | Some None \<Rightarrow> Inr None
      | None \<Rightarrow> Inl InvalidOption)"

definition try_sequence :: "('d, 'addr) michelson \<Rightarrow> 'd \<Rightarrow> ('d \<Rightarrow> tezos_error + 'r) \<Rightarrow> tezos_error + 'r list" where
  "try_sequence M v op = bind_r (data_sequence M v) (collect_r op)"

definition bounded_address :: "('d, 'addr) michelson \<Rightarrow> 'addr \<Rightarrow> tezos_error + bytes" where
  "bounded_address M a =
     bind_r (address_bytes M a) (\<lambda>v.
     bind_r (ensure (length v \<le> 36) TezosAddressOutOfBounds) (\<lambda>_. Inr v))"

text \<open>\<open>iter.next().ok_or(MissingField(f))\<close>, and an integer field read with it.\<close>

fun next_field :: "field_error \<Rightarrow> 'd list \<Rightarrow> tezos_error + 'd \<times> 'd list" where
  "next_field f [] = Inl (MissingField f)"
| "next_field f (v # vs) = Inr (v, vs)"

definition int_field :: "('d, 'addr) michelson \<Rightarrow> nat \<Rightarrow> field_error \<Rightarrow> 'd list \<Rightarrow> tezos_error + nat \<times> 'd list" where
  "int_field M w f vs =
     bind_r (next_field f vs) (\<lambda>(v, vs').
     bind_r (try_int M v) (\<lambda>n.
     bind_r (to_integer M w n) (\<lambda>x. Inr (x, vs'))))"

definition account_of_data :: "('d, 'addr) michelson \<Rightarrow> 'd \<Rightarrow> tezos_error + account_id" where
  "account_of_data M v =
     bind_r (try_bytes M v) (\<lambda>s. map_err (\<lambda>_. AddressParsing) (parse_account M s))"

section \<open>Parsing\<close>

definition parse_message :: "('d, 'addr) michelson \<Rightarrow> bytes \<Rightarrow> tezos_error + raw_action \<times> 'addr \<times> bytes" where
  "parse_message M encoded =
     bind_r (unpack M encoded message_schema) (\<lambda>unpacked.
     bind_r (pair_values M unpacked) (\<lambda>values.
     bind_r (ensure (length values = 3) InvalidMessage) (\<lambda>_.
     bind_r (next_field ACTION values) (\<lambda>(a, vs1).
     bind_r (try_string M a) (\<lambda>name.
     bind_r (ok_or (raw_action_from_str name) InvalidAction) (\<lambda>action.
     bind_r (next_field ORIGIN vs1) (\<lambda>(o', vs2).
     bind_r (try_address M o') (\<lambda>org.
     bind_r (next_field PAYLOAD vs2) (\<lambda>(b, _).
     bind_r (try_bytes M b) (\<lambda>body.
     Inr (action, org, body)))))))))))"

definition parse_planned_execution :: "('d, 'addr) michelson \<Rightarrow> 'd \<Rightarrow> tezos_error + planned_execution" where
  "parse_planned_execution M v =
     bind_r (pair_values M v) (\<lambda>values.
     bind_r (ensure (length values = 2) InvalidMessage) (\<lambda>_.
     bind_r (next_field Source values) (\<lambda>(s, vs1).
     bind_r (account_of_data M s) (\<lambda>source.
     bind_r (int_field M 64 StartDelay vs1) (\<lambda>(start_delay, _).
     Inr \<lparr>pe_source = source, pe_start_delay = start_delay\<rparr>)))))"

definition parse_allowed_sources ::
  "('d, 'addr) michelson \<Rightarrow> parser_bounds \<Rightarrow> 'd \<Rightarrow> tezos_error + account_id list" where
  "parse_allowed_sources M B v =
     bind_r (try_sequence M v (account_of_data M)) (\<lambda>seq.
     bind_r (ensure (length seq \<le> pb_max_allowed_sources B) (LengthExceeded LAllowedSources)) (\<lambda>_. Inr seq))"

definition parse_instant_match ::
  "('d, 'addr) michelson \<Rightarrow> parser_bounds \<Rightarrow> 'd \<Rightarrow> tezos_error + planned_execution list" where
  "parse_instant_match M B v =
     bind_r (try_sequence M v (parse_planned_execution M)) (\<lambda>sources.
     bind_r (ensure (length sources \<le> pb_max_slots B) InstantMatchPlannedExecutionsOutOfBounds) (\<lambda>_. Inr sources))"

definition parse_module :: "('d, 'addr) michelson \<Rightarrow> 'd \<Rightarrow> tezos_error + job_module" where
  "parse_module M v =
     bind_r (try_int M v) (\<lambda>n.
     bind_r (to_integer M 32 n) (\<lambda>x. map_err (\<lambda>_. RequiredModulesParsing) (job_module_try_from x)))"

definition parse_job_registration_payload ::
  "('d, 'addr) michelson \<Rightarrow> parser_bounds \<Rightarrow> bytes \<Rightarrow> tezos_error + job_id_sequence \<times> market_registration" where
  "parse_job_registration_payload M B encoded =
     bind_r (unpack M encoded registration_payload_schema) (\<lambda>unpacked.
     bind_r (pair_values M unpacked) (\<lambda>it0.
     bind_r (next_field AllowOnlyVerifiedSources it0) (\<lambda>(v1, it1).
     bind_r (try_bool M v1) (\<lambda>verified.
     bind_r (next_field FAllowedSources it1) (\<lambda>(v2, it2).
     bind_r (try_option M v2 (parse_allowed_sources M B)) (\<lambda>sources.
     bind_r (next_field InstantMatch it2) (\<lambda>(v3, it3).
     bind_r (try_option M v3 (parse_instant_match M B)) (\<lambda>matches.
     bind_r (next_field MinReputation it3) (\<lambda>(v4, it4).
     bind_r (try_option M v4 (\<lambda>v. bind_r (try_int M v) (to_integer M 128))) (\<lambda>min_rep.
     bind_r (int_field M 128 Reward it4) (\<lambda>(rew, it5).
     bind_r (int_field M 8 Slots it5) (\<lambda>(slts, it6).
     bind_r (int_field M 128 FJobId it6) (\<lambda>(job_id, it7).
     bind_r (int_field M 32 Memory it7) (\<lambda>(mem, it8).
     bind_r (int_field M 32 NetworkRequests it8) (\<lambda>(requests, it9).
     bind_r (next_field RequiredModules it9) (\<lambda>(v10, it10).
     bind_r (try_sequence M v10 (parse_module M)) (\<lambda>modules.
     bind_r (ensure (length modules \<le> MAX_JOB_MODULES) RequiredModulesParsing) (\<lambda>_.
     bind_r (int_field M 64 Duration it10) (\<lambda>(dur, it11).
     bind_r (int_field M 64 EndTime it11) (\<lambda>(e, it12).
     bind_r (int_field M 64 Interval it12) (\<lambda>(inter, it13).
     bind_r (int_field M 64 MaxStartDelay it13) (\<lambda>(delay, it14).
     bind_r (int_field M 64 StartTime it14) (\<lambda>(start, it15).
     bind_r (next_field FScript it15) (\<lambda>(v16, it16).
     bind_r (try_bytes M v16) (\<lambda>scr.
     bind_r (ensure (length scr \<le> SCRIPT_LENGTH) ScriptOutOfBounds) (\<lambda>_.
     bind_r (int_field M 32 Storage it16) (\<lambda>(stor, _).
     Inr (job_id, \<lparr>script = scr, allowed_sources = sources, allow_only_verified_sources = verified,
       job_schedule = \<lparr>duration = dur, start_time = start, end_time = e, interval = inter, max_start_delay = delay\<rparr>,
       memory = mem, network_requests = requests, storage = stor, required_modules = modules,
       extra = \<lparr>requirements = \<lparr>slots = slts, reward = rew, min_reputation = min_rep,
         instant_match = matches\<rparr>\<rparr>\<rparr>))))))))))))))))))))))))))))"

definition parse_env_variable :: "('d, 'addr) michelson \<Rightarrow> parser_bounds \<Rightarrow> 'd \<Rightarrow> tezos_error + bytes \<times> bytes" where
  "parse_env_variable M B entry =
     bind_r (data_elt M entry) (\<lambda>(k, v).
     bind_r (try_bytes M k) (\<lambda>key.
     bind_r (try_bytes M v) (\<lambda>val.
     Inr (take (pb_env_key_max_size B) key, take (pb_env_value_max_size B) val))))"

definition parse_env_processor ::
  "('d, 'addr) michelson \<Rightarrow> parser_bounds \<Rightarrow> 'd \<Rightarrow> tezos_error + account_id \<times> (bytes \<times> bytes) list" where
  "parse_env_processor M B entry =
     bind_r (data_elt M entry) (\<lambda>(k, v).
     bind_r (account_of_data M k) (\<lambda>source.
     bind_r (try_sequence M v (parse_env_variable M B)) (\<lambda>vars.
     Inr (source, vars))))"

definition parse_set_job_environment_payload ::
  "('d, 'addr) michelson \<Rightarrow> parser_bounds \<Rightarrow> bytes \<Rightarrow> tezos_error + job_id_sequence \<times> (account_id \<times> environment) list" where
  "parse_set_job_environment_payload M B encoded =
     bind_r (unpack M encoded set_job_environment_payload_schema) (\<lambda>unpacked.
     bind_r (pair_values M unpacked) (\<lambda>it0.
     bind_r (int_field M 128 FJobId it0) (\<lambda>(job_id, it1).
     bind_r (next_field Processors it1) (\<lambda>(v2, it2).
     bind_r (try_sequence M v2 (parse_env_processor M B)) (\<lambda>processors.
     bind_r (next_field PublicKey it2) (\<lambda>(v3, _).
     bind_r (try_bytes M v3) (\<lambda>key.
     Inr (job_id, take (pb_max_slots B) (map (\<lambda>el. (fst el,
       \<lparr>public_key = take PUB_KEYS_MAX_LENGTH key, variables = take (pb_max_env_vars B) (snd el)\<rparr>)) processors)))))))))"

definition parse_deregister_job_payload :: "('d, 'addr) michelson \<Rightarrow> bytes \<Rightarrow> tezos_error + job_id_sequence" where
  "parse_deregister_job_payload M encoded =
     bind_r (unpack M encoded deregister_job_schema) (\<lambda>unpacked.
     bind_r (map_err (\<lambda>_. MissingField FJobId) (try_nat M unpacked)) (to_integer M 128))"

text \<open>The identifiers are read as \<open>u32\<close> here.\<close>

definition parse_finalize_job_payload :: "('d, 'addr) michelson \<Rightarrow> bytes \<Rightarrow> tezos_error + job_id_sequence list" where
  "parse_finalize_job_payload M encoded =
     bind_r (unpack M encoded finalize_job_schema) (\<lambda>unpacked.
     try_sequence M unpacked (\<lambda>it.
       bind_r (map_err (\<lambda>_. MissingField FJobId) (try_int M it)) (to_integer M 32)))"

definition parse_value ::
  "('d, 'addr) michelson \<Rightarrow> parser_bounds \<Rightarrow> bytes \<Rightarrow> tezos_error + registration_extra parsed_action" where
  "parse_value M B encoded =
     bind_r (parse_message M encoded) (\<lambda>(action, org, payload).
     case action of
       RegisterJob \<Rightarrow>
         bind_r (parse_job_registration_payload M B payload) (\<lambda>(n, registration).
         bind_r (bounded_address M org) (\<lambda>address.
         Inr (PRegisterJob (Tezos address, n) registration)))
     | DeregisterJob \<Rightarrow>
         bind_r (parse_deregister_job_payload M payload) (\<lambda>n.
         bind_r (bounded_address M org) (\<lambda>address. Inr (PDeregisterJob (Tezos address, n))))
     | FinalizeJob \<Rightarrow>
         bind_r (parse_finalize_job_payload M payload) (\<lambda>job_ids.
         bind_r (bounded_address M org) (\<lambda>address.
         Inr (PFinalizeJob (map (\<lambda>n. (Tezos address, n)) job_ids))))
     | SetJobEnvironment \<Rightarrow>
         bind_r (parse_set_job_environment_payload M B payload) (\<lambda>(n, env).
         bind_r (bounded_address M org) (\<lambda>address.
         Inr (PSetJobEnvironment (Tezos address, n) env)))
     | Noop \<Rightarrow> Inr PNoop)"

definition parse_key :: "('d, 'addr) michelson \<Rightarrow> bytes \<Rightarrow> tezos_error + message_identifier" where
  "parse_key M encoded =
     bind_r (unpack M encoded TNat) (\<lambda>micheline.
     bind_r (try_nat M micheline) (\<lambda>value.
     map_err (\<lambda>_. ParsingFailure) (to_integer M 128 value)))"

section \<open>Proofs\<close>

record tezos_proof =
  tz_items :: "state_proof_node list"
  tz_path :: bytes
  tz_value :: bytes

definition tezos_leaf_hash :: "(bytes \<Rightarrow> hash) \<Rightarrow> state_owner \<Rightarrow> bytes \<Rightarrow> bytes \<Rightarrow> hash" where
  "tezos_leaf_hash H owner key v = H (owner @ key @ v)"

definition tezos_calculate_root :: "(bytes \<Rightarrow> hash) \<Rightarrow> state_owner \<Rightarrow> tezos_proof \<Rightarrow> tezos_error + hash" where
  "tezos_calculate_root H owner prf =
     Inr (derive_proof H (tz_items prf) (tezos_leaf_hash H owner (tz_path prf) (tz_value prf)))"

definition tezos_message_id :: "('d, 'addr) michelson \<Rightarrow> tezos_proof \<Rightarrow> tezos_error + message_identifier" where
  "tezos_message_id M prf = parse_key M (tz_path prf)"

definition tezos_message ::
  "('d, 'addr) michelson \<Rightarrow> parser_bounds \<Rightarrow> tezos_proof \<Rightarrow> tezos_error + registration_extra parsed_action" where
  "tezos_message M B prf = parse_value M B (tz_value prf)"

section \<open>The values a contract packs\<close>

text \<open>
  Constructors of Micheline values, and what the library documents of them: each conversion
  reads back what its constructor made, integers are read within their width, and flattening a
  pair replaces the pairs directly in it by their values.
\<close>

record 'd michelson_values =
  mk_bool :: "bool \<Rightarrow> 'd"
  mk_some :: "'d \<Rightarrow> 'd"
  mk_none :: 'd
  mk_seq :: "'d list \<Rightarrow> 'd"
  mk_pair :: "'d list \<Rightarrow> 'd"
  mk_bytes :: "bytes \<Rightarrow> 'd"
  mk_nat :: "nat \<Rightarrow> 'd"

definition michelson_laws :: "('d, 'addr) michelson \<Rightarrow> 'd michelson_values \<Rightarrow> bool" where
  "michelson_laws M V \<longleftrightarrow>
     (\<forall>b. data_bool M (mk_bool V b) = Some b) \<and>
     (\<forall>v. data_option M (mk_some V v) = Some (Some v)) \<and> data_option M (mk_none V) = Some None \<and>
     (\<forall>vs. data_sequence M (mk_seq V vs) = Inr vs) \<and>
     (\<forall>b. try_bytes M (mk_bytes V b) = Inr b) \<and>
     (\<forall>n. try_int M (mk_nat V n) = Inr (int n)) \<and>
     (\<forall>w n. n < 2 ^ w \<longrightarrow> to_integer M w (int n) = Inr n) \<and>
     (\<forall>w n. 2 ^ w \<le> n \<longrightarrow> \<not> is_ok (to_integer M w (int n))) \<and>
     (\<forall>vs. pair_values M (mk_pair V vs) =
        Inr (concat (map (\<lambda>v. case pair_values M v of Inr ws \<Rightarrow> ws | Inl _ \<Rightarrow> [v]) vs))) \<and>
     (\<forall>b. \<not> is_ok (pair_values M (mk_bool V b))) \<and> (\<forall>v. \<not> is_ok (pair_values M (mk_some V v))) \<and>
     \<not> is_ok (pair_values M (mk_none V)) \<and> (\<forall>vs. \<not> is_ok (pair_values M (mk_seq V vs))) \<and>
     (\<forall>b. \<not> is_ok (pair_values M (mk_bytes V b))) \<and> (\<forall>n. \<not> is_ok (pair_values M (mk_nat V n)))"

definition option_value :: "'d michelson_values \<Rightarrow> ('a \<Rightarrow> 'd) \<Rightarrow> 'a option \<Rightarrow> 'd" where
  "option_value V f m = (case m of None \<Rightarrow> mk_none V | Some x \<Rightarrow> mk_some V (f x))"

definition execution_value :: "'d michelson_values \<Rightarrow> (account_id \<Rightarrow> bytes) \<Rightarrow> planned_execution \<Rightarrow> 'd" where
  "execution_value V enc p = mk_pair V [mk_bytes V (enc (pe_source p)), mk_nat V (pe_start_delay p)]"

text \<open>The record of the documentation of \<open>registration_payload_schema\<close>, fields in alphabetical order.\<close>

definition registration_value ::
  "'d michelson_values \<Rightarrow> (account_id \<Rightarrow> bytes) \<Rightarrow> job_id_sequence \<Rightarrow> market_registration \<Rightarrow> 'd" where
  "registration_value V enc n r =
     (let q = requirements (extra r); sch = job_schedule r in
      mk_pair V
        [mk_bool V (allow_only_verified_sources r),
         option_value V (\<lambda>srcs. mk_seq V (map (\<lambda>a. mk_bytes V (enc a)) srcs)) (allowed_sources r),
         mk_pair V [option_value V (\<lambda>ps. mk_seq V (map (execution_value V enc) ps)) (instant_match q),
                    option_value V (mk_nat V) (min_reputation q), mk_nat V (reward q), mk_nat V (slots q)],
         mk_nat V n, mk_nat V (memory r), mk_nat V (network_requests r),
         mk_seq V (map (\<lambda>m. mk_nat V (case m of DataEncryption \<Rightarrow> 0)) (required_modules r)),
         mk_pair V [mk_nat V (duration sch), mk_nat V (end_time sch), mk_nat V (interval sch),
                    mk_nat V (max_start_delay sch), mk_nat V (start_time sch)],
         mk_bytes V (script r), mk_nat V (storage r)])"

text \<open>The widths and bounds of the fields of a registration.\<close>

definition registration_fits :: "parser_bounds \<Rightarrow> job_id_sequence \<Rightarrow> market_registration \<Rightarrow> bool" where
  "registration_fits B n r \<longleftrightarrow>
     (let q = requirements (extra r); sch = job_schedule r in
      n < 2 ^ 128 \<and> memory r < 2 ^ 32 \<and> network_requests r < 2 ^ 32 \<and> storage r < 2 ^ 32 \<and>
      reward q < 2 ^ 128 \<and> slots q < 2 ^ 8 \<and>
      (case min_reputation q of None \<Rightarrow> True | Some m \<Rightarrow> m < 2 ^ 128) \<and>
      duration sch < 2 ^ 64 \<and> end_time sch < 2 ^ 64 \<and> interval sch < 2 ^ 64 \<and>
      max_start_delay sch < 2 ^ 64 \<and> start_time sch < 2 ^ 64 \<and>
      length (script r) \<le> SCRIPT_LENGTH \<and> length (required_modules r) \<le> MAX_JOB_MODULES \<and>
      (case allowed_sources r of None \<Rightarrow> True | Some srcs \<Rightarrow> length srcs \<le> pb_max_allowed_sources B) \<and>
      (case instant_match q of None \<Rightarrow> True | Some ps \<Rightarrow>
         length ps \<le> pb_max_slots B \<and> (\<forall>p \<in> set ps. pe_start_delay p < 2 ^ 64)))"

section \<open>Lemmas\<close>

lemma not_ok_case: "\<not> is_ok r \<Longrightarrow> (case r of Inr ws \<Rightarrow> ws | Inl _ \<Rightarrow> d) = d"
  by (cases r) auto

lemma int_field_nat:
  "michelson_laws M V \<Longrightarrow> n < 2 ^ w \<Longrightarrow> int_field M w f (mk_nat V n # vs) = Inr (n, vs)"
  by (simp add: int_field_def michelson_laws_def)

lemma try_option_value:
  assumes "michelson_laws M V" and "\<And>x. m = Some x \<Longrightarrow> f (g x) = Inr x"
  shows "try_option M (option_value V g m) f = Inr m"
  using assms by (cases m) (simp_all add: try_option_def option_value_def michelson_laws_def)

lemma option_value_no_pair: "michelson_laws M V \<Longrightarrow> \<not> is_ok (pair_values M (option_value V g m))"
  by (simp add: michelson_laws_def option_value_def split: option.splits)

lemma account_value:
  "michelson_laws M V \<Longrightarrow> parse_account M (enc a) = Inr a \<Longrightarrow> account_of_data M (mk_bytes V (enc a)) = Inr a"
  by (simp add: account_of_data_def michelson_laws_def)

text \<open>The leaves of a flattened pair.\<close>

lemma pair_values_leaves:
  assumes "michelson_laws M V"
  shows "(case pair_values M (mk_bool V b) of Inr ws \<Rightarrow> ws | Inl _ \<Rightarrow> [mk_bool V b]) = [mk_bool V b]"
    "(case pair_values M (mk_seq V vs) of Inr ws \<Rightarrow> ws | Inl _ \<Rightarrow> [mk_seq V vs]) = [mk_seq V vs]"
    "(case pair_values M (mk_bytes V x) of Inr ws \<Rightarrow> ws | Inl _ \<Rightarrow> [mk_bytes V x]) = [mk_bytes V x]"
    "(case pair_values M (mk_nat V n) of Inr ws \<Rightarrow> ws | Inl _ \<Rightarrow> [mk_nat V n]) = [mk_nat V n]"
    "(case pair_values M (option_value V g m) of Inr ws \<Rightarrow> ws | Inl _ \<Rightarrow> [option_value V g m]) = [option_value V g m]"
proof -
  show "(case pair_values M (option_value V g m) of Inr ws \<Rightarrow> ws | Inl _ \<Rightarrow> [option_value V g m]) = [option_value V g m]"
    using option_value_no_pair [OF assms] by (rule not_ok_case)
qed (use assms in \<open>simp_all add: michelson_laws_def not_ok_case\<close>)

lemma pair_values_flat:
  "michelson_laws M V \<Longrightarrow> pair_values M (mk_pair V vs) =
     Inr (concat (map (\<lambda>v. case pair_values M v of Inr ws \<Rightarrow> ws | Inl _ \<Rightarrow> [v]) vs))"
  by (simp add: michelson_laws_def)

lemma parse_execution_value:
  assumes "michelson_laws M V" and "parse_account M (enc (pe_source p)) = Inr (pe_source p)"
    and "pe_start_delay p < 2 ^ 64"
  shows "parse_planned_execution M (execution_value V enc p) = Inr p"
  using assms
  by (simp add: parse_planned_execution_def execution_value_def pair_values_flat pair_values_leaves
      account_value int_field_nat)

lemma parse_sources_value:
  assumes "michelson_laws M V" and "\<And>a. parse_account M (enc a) = Inr a" and "length srcs \<le> pb_max_allowed_sources B"
  shows "parse_allowed_sources M B (mk_seq V (map (\<lambda>a. mk_bytes V (enc a)) srcs)) = Inr srcs"
proof -
  have "collect_r (account_of_data M) (map (\<lambda>a. mk_bytes V (enc a)) srcs) = Inr (map (\<lambda>a. a) srcs)"
    using assms(1,2) by (intro collect_r_map) (rule account_value)
  with assms(1,3) show ?thesis
    by (simp add: parse_allowed_sources_def try_sequence_def michelson_laws_def)
qed

lemma parse_matches_value:
  assumes "michelson_laws M V" and "\<And>a. parse_account M (enc a) = Inr a" and "length ps \<le> pb_max_slots B"
    and "\<forall>p \<in> set ps. pe_start_delay p < 2 ^ 64"
  shows "parse_instant_match M B (mk_seq V (map (execution_value V enc) ps)) = Inr ps"
proof -
  have "collect_r (parse_planned_execution M) (map (execution_value V enc) ps) = Inr (map (\<lambda>p. p) ps)"
    using assms(1,2,4) by (intro collect_r_map parse_execution_value) auto
  with assms(1,3) show ?thesis
    by (simp add: parse_instant_match_def try_sequence_def michelson_laws_def)
qed

lemma parse_modules_value:
  assumes "michelson_laws M V"
  shows "try_sequence M (mk_seq V (map (\<lambda>m. mk_nat V (case m of DataEncryption \<Rightarrow> 0)) ms)) (parse_module M) = Inr ms"
proof -
  have "collect_r (parse_module M) (map (\<lambda>m. mk_nat V (case m of DataEncryption \<Rightarrow> 0)) ms) = Inr (map (\<lambda>m. m) ms)"
  proof (rule collect_r_map)
    fix m :: job_module
    have "to_integer M 32 (int 0) = Inr 0" using assms unfolding michelson_laws_def by (metis zero_less_numeral zero_less_power)
    with assms show "parse_module M (mk_nat V (case m of DataEncryption \<Rightarrow> 0)) = Inr m"
      by (cases m) (simp add: parse_module_def michelson_laws_def job_module_try_from_def)
  qed
  with assms show ?thesis by (simp add: try_sequence_def michelson_laws_def)
qed

lemma parse_min_reputation_value:
  assumes "michelson_laws M V" and "case m of None \<Rightarrow> True | Some x \<Rightarrow> x < 2 ^ 128"
  shows "try_option M (option_value V (mk_nat V) m) (\<lambda>v. bind_r (try_int M v) (to_integer M 128)) = Inr m"
  using assms by (intro try_option_value) (auto simp: michelson_laws_def)


text \<open>
  C26: the identifiers of a finalize payload are read as 32-bit integers although job identifiers
  have 128 bits: the parser accepts a set of identifiers exactly when all are below \<open>2 ^ 32\<close>, so
  a job with a larger identifier can be registered but not finalized from Tezos.
\<close>

theorem finalize_payload_iff:
  assumes laws: "michelson_laws M V"
    and packed: "unpack M encoded finalize_job_schema = Inr (mk_seq V (map (mk_nat V) ids))"
  shows "(if \<forall>n \<in> set ids. n < 2 ^ 32 then parse_finalize_job_payload M encoded = Inr ids
          else \<not> is_ok (parse_finalize_job_payload M encoded))"
proof (cases "\<forall>n \<in> set ids. n < 2 ^ 32")
  case True
  then have "collect_r (\<lambda>it. bind_r (map_err (\<lambda>_. MissingField FJobId) (try_int M it)) (to_integer M 32))
      (map (mk_nat V) ids) = Inr (map (\<lambda>n. n) ids)"
    using laws by (intro collect_r_map) (auto simp: michelson_laws_def)
  with True laws packed show ?thesis
    by (simp add: parse_finalize_job_payload_def try_sequence_def michelson_laws_def)
next
  case False
  then obtain n where n: "n \<in> set ids" "2 ^ 32 \<le> n" by (auto simp: not_less)
  have "\<not> is_ok (collect_r (\<lambda>it. bind_r (map_err (\<lambda>_. MissingField FJobId) (try_int M it)) (to_integer M 32))
      (map (mk_nat V) ids))"
    using laws n by (intro collect_r_fails [of "mk_nat V n"]) (auto simp: michelson_laws_def)
  moreover have "\<not> (\<forall>n \<in> set ids. n < 2 ^ 32)" using False .
  ultimately show ?thesis
    using laws packed by (auto simp only: parse_finalize_job_payload_def try_sequence_def michelson_laws_def bind_r.simps if_False)
qed

section \<open>Sample data\<close>

datatype demo_data =
    DBool bool | DSome demo_data | DNone | DSeq "demo_data list" | DPair "demo_data list" | DBytes bytes | DNat nat

fun demo_flat :: "demo_data \<Rightarrow> demo_data list" where
  "demo_flat (DPair vs) = concat (map demo_flat vs)"
| "demo_flat v = [v]"

definition demo_values :: "demo_data michelson_values" where
  "demo_values = \<lparr>mk_bool = DBool, mk_some = DSome, mk_none = DNone, mk_seq = DSeq, mk_pair = DPair,
     mk_bytes = DBytes, mk_nat = DNat\<rparr>"

text \<open>A library in which every byte string unpacks to the same value.\<close>

definition demo_michelson :: "demo_data \<Rightarrow> (demo_data, unit) michelson" where
  "demo_michelson d = \<lparr>unpack = (\<lambda>_ _. Inr d),
     pair_values = (\<lambda>v. case v of DPair vs \<Rightarrow> Inr (demo_flat v) | _ \<Rightarrow> Inl TezosMicheline),
     data_bool = (\<lambda>v. case v of DBool b \<Rightarrow> Some b | _ \<Rightarrow> None),
     data_option = (\<lambda>v. case v of DSome w \<Rightarrow> Some (Some w) | DNone \<Rightarrow> Some None | _ \<Rightarrow> None),
     data_sequence = (\<lambda>v. case v of DSeq vs \<Rightarrow> Inr vs | _ \<Rightarrow> Inl TezosMicheline),
     data_elt = (\<lambda>v. Inl TezosMicheline),
     try_bytes = (\<lambda>v. case v of DBytes b \<Rightarrow> Inr b | _ \<Rightarrow> Inl TezosMicheline),
     try_int = (\<lambda>v. case v of DNat n \<Rightarrow> Inr (int n) | _ \<Rightarrow> Inl TezosMicheline),
     try_nat = (\<lambda>v. case v of DNat n \<Rightarrow> Inr (int n) | _ \<Rightarrow> Inl TezosMicheline),
     try_string = (\<lambda>v. Inl TezosMicheline),
     to_integer = (\<lambda>w n. if 0 \<le> n \<and> n < 2 ^ w then Inr (nat n) else Inl TezosCore),
     address_of_str = (\<lambda>_. Inl TezosCore), address_bytes = (\<lambda>_. Inl TezosCore),
     parse_account = (\<lambda>b. case b of [a] \<Rightarrow> Inr a | _ \<Rightarrow> Inl ())\<rparr>"

definition demo_tezos_registration :: market_registration where
  "demo_tezos_registration = \<lparr>script = replicate 53 0, allowed_sources = Some [4], allow_only_verified_sources = False,
     job_schedule = \<lparr>duration = 5, start_time = 100, end_time = 200, interval = 10, max_start_delay = 3\<rparr>,
     memory = 10, network_requests = 1, storage = 2, required_modules = [DataEncryption],
     extra = \<lparr>requirements = \<lparr>slots = 1, reward = 1000, min_reputation = Some 5,
       instant_match = Some [\<lparr>pe_source = 4, pe_start_delay = 0\<rparr>]\<rparr>\<rparr>\<rparr>"

definition demo_bounds :: parser_bounds where
  "demo_bounds = \<lparr>pb_max_allowed_sources = 4, pb_max_slots = 2, pb_max_env_vars = 2,
     pb_env_key_max_size = 8, pb_env_value_max_size = 8\<rparr>"

lemma demo_flat_cases:
  "(case (case v of DPair vs \<Rightarrow> Inr (demo_flat v) | _ \<Rightarrow> Inl TezosMicheline) of Inr ws \<Rightarrow> ws | Inl _ \<Rightarrow> [v]) = demo_flat v"
  by (cases v) simp_all

lemma demo_michelson_laws: "michelson_laws (demo_michelson d) demo_values"
proof -
  have "int n < 2 ^ w \<longleftrightarrow> n < 2 ^ w" for n w
    by (metis of_nat_less_iff of_nat_numeral of_nat_power)
  then show ?thesis
    by (simp add: michelson_laws_def demo_michelson_def demo_values_def demo_flat_cases)
qed


theorem finalize_payload_iff_witness:
  "parse_finalize_job_payload (demo_michelson (DSeq [DNat 3, DNat 4294967295])) [] = Inr [3, 4294967295] \<and>
   \<not> is_ok (parse_finalize_job_payload (demo_michelson (DSeq [DNat 3, DNat 4294967296])) [])"
proof -
  have unp: "unpack (demo_michelson (DSeq (map DNat ids))) [] finalize_job_schema =
      Inr (mk_seq demo_values (map (mk_nat demo_values) ids))" for ids
    by (simp add: demo_michelson_def demo_values_def)
  show ?thesis
    using finalize_payload_iff [OF demo_michelson_laws unp, of "[3, 4294967295]"]
      finalize_payload_iff [OF demo_michelson_laws unp, of "[3, 4294967296]"] by simp
qed

end
