(* ===== verification/Hyperdrive_Ethereum.thy ===== *)
theory Hyperdrive_Ethereum
  imports Hyperdrive Market_Types
begin

text \<open>
  The Ethereum side of Hyperdrive: Merkle-Patricia proofs of
  \<open>pallets/hyperdrive/src/chain/util/evm.rs\<close>, and the proof type with its message parser of
  \<open>chain/ethereum.rs\<close>.

  RLP, Keccak and the Solidity ABI are libraries: their functions are the records \<open>rlp_ops\<close>
  and \<open>sol_ops\<close>. A function that can panic returns an option, with \<^const>\<open>None\<close> for the panic.
\<close>

section \<open>Nibbles (evm.rs)\<close>

datatype evm_error =
    NodeDoesNotExist
  | InvalidNode
  | InvalidRlpValue
  | InvalidProof
  | BadFirstProofPart
  | BadHash
  | EmptyBytes
  | InvalidLength
  | UnexpectedFirstNibble
  | ContinuingBranchHasDepletedPath
  | InvalidExclusionProof
  | UnexpectedEndOfProof

definition nibble_at :: "bytes \<Rightarrow> nat \<Rightarrow> u8" where
  "nibble_at bs pos = (if pos mod 2 = 0 then bs ! (pos div 2) div 16 mod 16 else bs ! (pos div 2) mod 16)"

definition to_nibbles :: "bytes \<Rightarrow> nat \<Rightarrow> evm_error + u8 list" where
  "to_nibbles bs nibbles_to_skip =
     (if bs = [] then Inl EmptyBytes
      else let nibbles_count = length bs * 2 in
        if nibbles_count < nibbles_count then Inl InvalidLength
        else Inr (map (nibble_at bs) [nibbles_to_skip ..< nibbles_count]))"

text \<open>Indexing out of range panics.\<close>

definition get_nibble :: "bytes \<Rightarrow> nat \<Rightarrow> u8 option" where
  "get_nibble path offset =
     (if offset div 2 < length path then
        (let byte = path ! (offset div 2) in Some (if offset mod 2 = 0 then byte div 16 else byte mod 16))
      else None)"

text \<open>The loop of \<open>shared_prefix_length\<close>, from index \<open>i\<close> on.\<close>

fun prefix_loop :: "bytes \<Rightarrow> bytes \<Rightarrow> nat \<Rightarrow> nat \<Rightarrow> nat option" where
  "prefix_loop p q i 0 = Some 0"
| "prefix_loop p q i (Suc k) =
     do {
       a \<leftarrow> get_nibble p i;
       b \<leftarrow> get_nibble q i;
       if a = b then map_option Suc (prefix_loop p q (Suc i) k) else Some 0
     }"

definition shared_prefix_length :: "u8 list \<Rightarrow> nat \<Rightarrow> u8 list \<Rightarrow> nat option" where
  "shared_prefix_length path path_offset node_path =
     (if path_offset \<le> length path then
        (let path_without_offset = drop path_offset path;
             len = min (length node_path) (length path_without_offset)
         in prefix_loop path_without_offset node_path 0 len)
      else None)"

definition merkle_patricia_compact_decode :: "bytes \<Rightarrow> evm_error + u8 list" where
  "merkle_patricia_compact_decode compact =
     (if compact = [] then Inl EmptyBytes
      else let first_nibble = compact ! 0 div 16 mod 16 in
        if first_nibble = 0 \<or> first_nibble = 2 then to_nibbles compact 2
        else if first_nibble = 1 \<or> first_nibble = 3 then to_nibbles compact 1
        else Inl UnexpectedFirstNibble)"

definition get_next_hash :: "bytes \<Rightarrow> evm_error + bytes" where
  "get_next_hash bs = (if length bs = 32 then Inr bs else Inl InvalidNode)"

section \<open>Merkle-Patricia proofs (evm.rs)\<close>

text \<open>
  \<open>rlp_iter\<close>: the items of \<open>Rlp::new(node).iter()\<close> with their raw bytes; \<open>rlp_as_val\<close>: \<open>as_val\<close>;
  \<open>rlp_data\<close>: \<open>data\<close>; \<open>rlp_decode_list\<close>: the function \<open>decode_list\<close>, which expects valid input.
\<close>

record rlp_ops =
  rlp_iter :: "bytes \<Rightarrow> bytes list"
  rlp_as_val :: "bytes \<Rightarrow> unit + bytes"
  rlp_is_list :: "bytes \<Rightarrow> bool"
  rlp_data :: "bytes \<Rightarrow> unit + bytes"
  rlp_decode_list :: "bytes \<Rightarrow> bytes list option"
  rlp_encode_u128 :: "u128 \<Rightarrow> bytes"
  rlp_encode_u8 :: "u8 \<Rightarrow> bytes"
  keccak256 :: "bytes \<Rightarrow> hash"

definition EMPTY_TRIE_ROOT_HASH :: bytes where
  "EMPTY_TRIE_ROOT_HASH =
     [0x56, 0xe8, 0x1f, 0x17, 0x1b, 0xcc, 0x55, 0xa6, 0xff, 0x83, 0x45, 0xe6, 0x92, 0xc0, 0xf8, 0x6e,
      0x5b, 0x48, 0xe0, 0x1b, 0x99, 0x6c, 0xad, 0xc0, 0x01, 0x62, 0x2f, 0xb5, 0xe3, 0x63, 0xb4, 0x21]"

type_synonym 'a evm_outcome = "(evm_error + 'a) option"

text \<open>The \<open>?\<close> operator on an outcome.\<close>

definition try_evm :: "'a evm_outcome \<Rightarrow> ('a \<Rightarrow> 'b evm_outcome) \<Rightarrow> 'b evm_outcome" where
  "try_evm m f = (case m of None \<Rightarrow> None | Some (Inl e) \<Rightarrow> Some (Inl e) | Some (Inr x) \<Rightarrow> f x)"

definition bytes_without_prefix :: "rlp_ops \<Rightarrow> bytes \<Rightarrow> evm_error + bytes" where
  "bytes_without_prefix R raw = map_err (\<lambda>_. InvalidRlpValue) (rlp_as_val R raw)"

text \<open>\<open>node_list.get(k).ok_or(NodeDoesNotExist)\<close>.\<close>

definition get_item :: "bytes list \<Rightarrow> nat \<Rightarrow> evm_error + bytes" where
  "get_item node_list k = (if k < length node_list then Inr (node_list ! k) else Inl NodeDoesNotExist)"

definition child_hash :: "rlp_ops \<Rightarrow> bytes \<Rightarrow> bytes \<Rightarrow> evm_error + hash" where
  "child_hash R raw without_prefix =
     (if rlp_is_list R raw then Inr (keccak256 R raw) else get_next_hash without_prefix)"

text \<open>
  One node of the proof: \<open>Inl v\<close> for a \<open>return Ok(v)\<close>, \<open>Inr (path_offset, next_hash)\<close> to go on.
\<close>

definition extension_or_leaf ::
  "rlp_ops \<Rightarrow> u8 list \<Rightarrow> bytes list \<Rightarrow> bool \<Rightarrow> nat \<Rightarrow> (bytes + nat \<times> hash) evm_outcome" where
  "extension_or_leaf R nibbles node_list is_last path_offset =
     try_evm (Some (bind_r (get_item node_list 0) (bytes_without_prefix R))) (\<lambda>node_without_prefix.
     try_evm (Some (merkle_patricia_compact_decode node_without_prefix)) (\<lambda>node_path.
     case shared_prefix_length nibbles path_offset node_path of
       None \<Rightarrow> None
     | Some shared \<Rightarrow>
         (let path_offset = path_offset + shared in
          try_evm (Some (get_item node_list 1)) (\<lambda>children.
          try_evm (Some (bytes_without_prefix R children)) (\<lambda>children_without_prefix.
          if is_last then
            Some (if path_offset = length nibbles then Inr (Inl children_without_prefix)
                  else Inl UnexpectedEndOfProof)
          else
            try_evm (Some (child_hash R children children_without_prefix)) (\<lambda>h.
            Some (Inr (Inr (path_offset, h)))))))))"

definition branch ::
  "rlp_ops \<Rightarrow> bytes \<Rightarrow> u8 list \<Rightarrow> bytes list \<Rightarrow> bool \<Rightarrow> nat \<Rightarrow> (bytes + nat \<times> hash) evm_outcome" where
  "branch R path nibbles node_list is_last path_offset =
     (if is_last then
        (if path_offset + 1 = length nibbles then
           try_evm (Some (bind_r (get_item node_list 16) (bytes_without_prefix R))) (\<lambda>v. Some (Inr (Inl v)))
         else
           (case get_nibble path path_offset of
              None \<Rightarrow> None
            | Some children_index \<Rightarrow>
                try_evm (Some (bind_r (get_item node_list children_index) (bytes_without_prefix R))) (\<lambda>v.
                Some (if length v = 0 then Inr (Inl []) else Inl InvalidExclusionProof))))
      else if path_offset < length nibbles then
        (case get_nibble path path_offset of
           None \<Rightarrow> None
         | Some children_index \<Rightarrow>
             try_evm (Some (get_item node_list children_index)) (\<lambda>children.
             try_evm (Some (bytes_without_prefix R children)) (\<lambda>children_without_prefix.
             try_evm (Some (child_hash R children children_without_prefix)) (\<lambda>h.
             Some (Inr (Inr (path_offset + 1, h)))))))
      else Some (Inl ContinuingBranchHasDepletedPath))"

definition proof_node ::
  "rlp_ops \<Rightarrow> bytes \<Rightarrow> u8 list \<Rightarrow> bytes \<Rightarrow> bool \<Rightarrow> nat \<Rightarrow> (bytes + nat \<times> hash) evm_outcome" where
  "proof_node R path nibbles node is_last path_offset =
     (let node_list = rlp_iter R node in
      if length node_list = 2 then extension_or_leaf R nibbles node_list is_last path_offset
      else if length node_list = 17 then branch R path nibbles node_list is_last path_offset
      else Some (Inl InvalidLength))"

text \<open>
  The loop. The first node is compared with the root, each later one with the hash its
  predecessor names; the error of a mismatch says which it was.
\<close>

fun proof_loop ::
  "rlp_ops \<Rightarrow> bytes \<Rightarrow> u8 list \<Rightarrow> evm_error \<Rightarrow> bytes list \<Rightarrow> nat \<Rightarrow> hash \<Rightarrow> bytes evm_outcome" where
  "proof_loop R path nibbles err [] path_offset next_hash = Some (Inl InvalidProof)"
| "proof_loop R path nibbles err (node # nodes) path_offset next_hash =
     (if next_hash \<noteq> keccak256 R node then Some (Inl err)
      else try_evm (proof_node R path nibbles node (nodes = []) path_offset) (\<lambda>r.
        case r of
          Inl v \<Rightarrow> Some (Inr v)
        | Inr (path_offset', next_hash') \<Rightarrow> proof_loop R path nibbles BadHash nodes path_offset' next_hash'))"

definition validate_proof :: "rlp_ops \<Rightarrow> bytes list \<Rightarrow> hash \<Rightarrow> bytes \<Rightarrow> bytes evm_outcome" where
  "validate_proof R prf root path =
     try_evm (Some (to_nibbles path 0)) (\<lambda>nibbles.
     if prf = [] then
       Some (if root = EMPTY_TRIE_ROOT_HASH then Inr [] else Inl InvalidProof)
     else proof_loop R path nibbles BadFirstProofPart prf 0 root)"

text \<open>\<open>storage_path\<close>: the key of the message in the contract's mapping, hashed twice.\<close>

definition storage_path :: "rlp_ops \<Rightarrow> u8 \<Rightarrow> message_identifier \<Rightarrow> hash" where
  "storage_path R storage_index message_id =
     (let enc = rlp_encode_u128 R message_id;
          key_bytes = replicate (32 - length enc) 0 @ enc;
          storage_index_bytes = replicate 31 0 @ [hd (rlp_encode_u8 R storage_index)]
      in keccak256 R (keccak256 R (key_bytes @ storage_index_bytes)))"

section \<open>Ethereum proofs (ethereum.rs)\<close>

datatype eth_error =
    InvalidAccountProof
  | InvalidStorageProof
  | UnknownAction u16
  | IllFormattedMessage
  | IllFormattedJobRegistration
  | IllFormattedEnvironmentVariablesPayload
  | InvalidOriginAddress
  | InvalidJobModule
  | CouldNotParseAcurastAddress
  | CouldNotDecodeRegisterJobPayload
  | CouldNotDecodeDeregisterJobPayload
  | CouldNotDecodeFinalizeJobPayload
  | TooManyPlannedExecutions
  | TooManyAllowedSources
  | TooManyJobModules
  | InvalidRlpEncoding

definition STORAGE_INDEX :: u8 where
  "STORAGE_INDEX = 7"

record ethereum_proof =
  account_proof :: "bytes list"
  storage_proof :: "bytes list"
  eth_message_id :: message_identifier
  eth_value :: bytes

definition validate_storage_proof ::
  "rlp_ops \<Rightarrow> bytes \<Rightarrow> bytes \<Rightarrow> bytes list \<Rightarrow> bytes list \<Rightarrow> (eth_error + bytes) option" where
  "validate_storage_proof R account_path sto_path acc_proof sto_proof =
     (if acc_proof = [] then None
      else let root_hash = keccak256 R (acc_proof ! 0) in
        case validate_proof R acc_proof root_hash account_path of
          None \<Rightarrow> None
        | Some (Inl _) \<Rightarrow> Some (Inl InvalidAccountProof)
        | Some (Inr rlp) \<Rightarrow>
            (case rlp_decode_list R rlp of
               None \<Rightarrow> None
             | Some account_state \<Rightarrow>
                 if length account_state \<le> 2 then Some (Inl InvalidAccountProof)
                 else map_option (map_err (\<lambda>_. InvalidStorageProof))
                        (validate_proof R sto_proof (account_state ! 2) sto_path)))"

definition eth_calculate_root :: "rlp_ops \<Rightarrow> state_owner \<Rightarrow> ethereum_proof \<Rightarrow> (eth_error + hash) option" where
  "eth_calculate_root R owner prf =
     (case validate_storage_proof R (keccak256 R owner) (storage_path R STORAGE_INDEX (eth_message_id prf))
             (account_proof prf) (storage_proof prf) of
        None \<Rightarrow> None
      | Some (Inl e) \<Rightarrow> Some (Inl e)
      | Some (Inr verified_value) \<Rightarrow>
          Some (bind_r (map_err (\<lambda>_. InvalidRlpEncoding) (rlp_data R verified_value)) (\<lambda>verified_message_hash.
                bind_r (ensure (verified_message_hash = keccak256 R (eth_value prf)) InvalidStorageProof) (\<lambda>_.
                Inr (keccak256 R (account_proof prf ! 0))))))"

section \<open>Ethereum messages (ethereum.rs)\<close>

text \<open>The structs of the \<open>sol!\<close> block.\<close>

record eth_message =
  em_action :: u16
  em_origin :: bytes
  em_payload :: bytes

record eth_job_match =
  ej_source :: bytes
  ej_start_delay :: u64

record eth_job_requirements =
  er_slots :: u8
  er_reward :: u128
  er_min_reputation :: u128
  er_instant_match :: "eth_job_match list"

record eth_job_schedule =
  es_duration :: u64
  es_start_time :: u64
  es_end_time :: u64
  es_interval :: u64
  es_max_start_delay :: u64

record eth_job_registration =
  eg_job_id :: u128
  eg_allowed_sources :: "bytes list"
  eg_allow_only_verified_sources :: bool
  eg_requirements :: eth_job_requirements
  eg_required_modules :: "u16 list"
  eg_script :: bytes
  eg_schedule :: eth_job_schedule
  eg_memory_capacity :: u32
  eg_network_requests :: u32
  eg_storage_capacity :: u32

record eth_processor_environment =
  ep_source :: bytes
  ep_variables :: "(bytes \<times> bytes) list"

record eth_environment_payload =
  ev_job_id :: u128
  ev_public_key :: bytes
  ev_processors :: "eth_processor_environment list"

text \<open>The decoders of the ABI, and the conversion of bytes to an account.\<close>

record sol_ops =
  sol_message :: "bytes \<Rightarrow> unit + eth_message"
  sol_registration :: "bytes \<Rightarrow> unit + eth_job_registration"
  sol_job_id :: "bytes \<Rightarrow> unit + u128"
  sol_job_ids :: "bytes \<Rightarrow> unit + u128 list"
  sol_environment :: "bytes \<Rightarrow> unit + eth_environment_payload"
  sol_account :: "bytes \<Rightarrow> unit + account_id"

definition eth_convert_account_id :: "sol_ops \<Rightarrow> bytes \<Rightarrow> eth_error + account_id" where
  "eth_convert_account_id S b = map_err (\<lambda>_. CouldNotParseAcurastAddress) (sol_account S b)"

definition convert_job_match :: "sol_ops \<Rightarrow> eth_job_match \<Rightarrow> eth_error + planned_execution" where
  "convert_job_match S m =
     bind_r (eth_convert_account_id S (ej_source m)) (\<lambda>source.
     Inr \<lparr>pe_source = source, pe_start_delay = ej_start_delay m\<rparr>)"

definition convert_registration :: "sol_ops \<Rightarrow> parser_bounds \<Rightarrow> eth_job_registration \<Rightarrow> eth_error + market_registration" where
  "convert_registration S B g =
     bind_r (collect_r (convert_job_match S) (er_instant_match (eg_requirements g))) (\<lambda>executions.
     bind_r (ensure (length executions \<le> pb_max_slots B) TooManyPlannedExecutions) (\<lambda>_.
     bind_r (collect_r (eth_convert_account_id S) (eg_allowed_sources g)) (\<lambda>sources.
     bind_r (ensure (length sources \<le> pb_max_allowed_sources B) TooManyAllowedSources) (\<lambda>_.
     bind_r (collect_r (\<lambda>it. map_err (\<lambda>_. InvalidJobModule) (job_module_try_from it)) (eg_required_modules g)) (\<lambda>modules.
     bind_r (ensure (length modules \<le> MAX_JOB_MODULES) TooManyJobModules) (\<lambda>_.
     Inr \<lparr>script = take SCRIPT_LENGTH (eg_script g), allowed_sources = Some sources,
       allow_only_verified_sources = eg_allow_only_verified_sources g,
       job_schedule = \<lparr>duration = es_duration (eg_schedule g), start_time = es_start_time (eg_schedule g),
         end_time = es_end_time (eg_schedule g), interval = es_interval (eg_schedule g),
         max_start_delay = es_max_start_delay (eg_schedule g)\<rparr>,
       memory = eg_memory_capacity g, network_requests = eg_network_requests g, storage = eg_storage_capacity g,
       required_modules = modules,
       extra = \<lparr>requirements = \<lparr>slots = er_slots (eg_requirements g), reward = er_reward (eg_requirements g),
         min_reputation = Some (er_min_reputation (eg_requirements g)), instant_match = Some executions\<rparr>\<rparr>\<rparr>))))))"

definition convert_environment ::
  "sol_ops \<Rightarrow> parser_bounds \<Rightarrow> bytes \<Rightarrow> eth_processor_environment \<Rightarrow> eth_error + account_id \<times> environment" where
  "convert_environment S B key entry =
     bind_r (eth_convert_account_id S (ep_source entry)) (\<lambda>processor.
     Inr (processor, \<lparr>public_key = key, variables = take (pb_max_env_vars B)
       (map (\<lambda>v. (take (pb_env_key_max_size B) (fst v), take (pb_env_value_max_size B) (snd v))) (ep_variables entry))\<rparr>))"

definition eth_message_parse ::
  "sol_ops \<Rightarrow> parser_bounds \<Rightarrow> ethereum_proof \<Rightarrow> eth_error + registration_extra parsed_action" where
  "eth_message_parse S B prf =
     (let v = (if length (eth_value prf) > 32 then drop 32 (eth_value prf) else eth_value prf) in
      bind_r (map_err (\<lambda>_. IllFormattedMessage) (sol_message S v)) (\<lambda>decoded.
      bind_r (map_err (\<lambda>_. UnknownAction (em_action decoded)) (raw_action_try_from (em_action decoded))) (\<lambda>action.
      bind_r (ensure (length (em_origin decoded) \<le> 20) InvalidOriginAddress) (\<lambda>_.
      let org = Ethereum (em_origin decoded) in
      case action of
        RegisterJob \<Rightarrow>
          bind_r (map_err (\<lambda>_. IllFormattedJobRegistration) (sol_registration S (em_payload decoded))) (\<lambda>g.
          bind_r (convert_registration S B g) (\<lambda>registration.
          Inr (PRegisterJob (org, eg_job_id g) registration)))
      | DeregisterJob \<Rightarrow>
          bind_r (map_err (\<lambda>_. CouldNotDecodeDeregisterJobPayload) (sol_job_id S (em_payload decoded))) (\<lambda>n.
          Inr (PDeregisterJob (org, n)))
      | FinalizeJob \<Rightarrow>
          bind_r (map_err (\<lambda>_. CouldNotDecodeFinalizeJobPayload) (sol_job_ids S (em_payload decoded))) (\<lambda>ids.
          Inr (PFinalizeJob (map (\<lambda>n. (org, n)) ids)))
      | SetJobEnvironment \<Rightarrow>
          bind_r (map_err (\<lambda>_. IllFormattedEnvironmentVariablesPayload) (sol_environment S (em_payload decoded))) (\<lambda>payload.
          bind_r (collect_r (convert_environment S B (take PUB_KEYS_MAX_LENGTH (ev_public_key payload)))
                    (ev_processors payload)) (\<lambda>envs.
          Inr (PSetJobEnvironment (org, ev_job_id payload) (take (pb_max_slots B) envs))))
      | Noop \<Rightarrow> Inr PNoop))))"

section \<open>Lemmas\<close>

lemma try_evm_Inr: "try_evm m f = Some (Inr y) \<longleftrightarrow> (\<exists>x. m = Some (Inr x) \<and> f x = Some (Inr y))"
  by (auto simp: try_evm_def split: option.splits sum.splits)

lemma get_item_Inr: "get_item xs k = Inr x \<Longrightarrow> x \<in> set xs"
  by (auto simp: get_item_def split: if_splits)

text \<open>The hash by which a parent node names the child \<open>c\<close>.\<close>

definition names :: "rlp_ops \<Rightarrow> bytes \<Rightarrow> hash \<Rightarrow> bool" where
  "names R c h \<longleftrightarrow> (if rlp_is_list R c then h = keccak256 R c else rlp_as_val R c = Inr h \<and> length h = 32)"

lemma child_hash_names:
  assumes "child_hash R c w = Inr h" and "bytes_without_prefix R c = Inr w"
  shows "names R c h"
  using assms by (auto simp: child_hash_def names_def get_next_hash_def bytes_without_prefix_def result_simps split: if_splits)

lemma proof_node_value:
  assumes "proof_node R path nibbles node is_last off = Some (Inr (Inl v))"
  shows "is_last \<and> (v = [] \<or> (\<exists>c \<in> set (rlp_iter R node). rlp_as_val R c = Inr v))"
  using assms
  by (auto simp: proof_node_def Let_def extension_or_leaf_def branch_def try_evm_Inr result_simps bytes_without_prefix_def
      dest!: get_item_Inr split: if_splits option.splits)

lemma proof_node_next:
  assumes "proof_node R path nibbles node is_last off = Some (Inr (Inr (off', h)))"
  shows "\<not> is_last \<and> (\<exists>c \<in> set (rlp_iter R node). names R c h)"
  using assms
  by (auto simp: proof_node_def Let_def extension_or_leaf_def branch_def try_evm_Inr result_simps
      dest!: get_item_Inr intro: child_hash_names split: if_splits option.splits)

text \<open>A chain of nodes: the first has hash \<open>h\<close>, and every node names the next one.\<close>

fun chained :: "rlp_ops \<Rightarrow> hash \<Rightarrow> bytes list \<Rightarrow> bool" where
  "chained R h [] \<longleftrightarrow> False"
| "chained R h [node] \<longleftrightarrow> keccak256 R node = h"
| "chained R h (node # node' # nodes) \<longleftrightarrow> keccak256 R node = h \<and>
     (\<exists>c \<in> set (rlp_iter R node). \<exists>h'. names R c h' \<and> chained R h' (node' # nodes))"

lemma proof_loop_chained:
  assumes "proof_loop R path nibbles err prf off h = Some (Inr v)"
  shows "chained R h prf \<and> (v = [] \<or> (\<exists>c \<in> set (rlp_iter R (last prf)). rlp_as_val R c = Inr v))"
  using assms
proof (induction R path nibbles err "prf" off h rule: proof_loop.induct)
  case (2 R path nibbles err node nodes off h)
  from 2(2) have h: "keccak256 R node = h" by (simp split: if_splits)
  from 2(2) obtain r where node: "proof_node R path nibbles node (nodes = []) off = Some (Inr r)"
    and rest: "(case r of Inl v' \<Rightarrow> Some (Inr v') | Inr (off', h') \<Rightarrow> proof_loop R path nibbles BadHash nodes off' h') = Some (Inr v)"
    by (auto simp: try_evm_Inr split: if_splits)
  show ?case
  proof (cases r)
    case (Inl v')
    then show ?thesis using proof_node_value [of R path nibbles node "nodes = []" off v'] node rest h by auto
  next
    case (Inr x)
    then obtain off' h' where x: "r = Inr (off', h')" by (cases x) auto
    from proof_node_next [of R path nibbles node "nodes = []" off off' h'] node x
    obtain c where c: "nodes \<noteq> []" "c \<in> set (rlp_iter R node)" "names R c h'" by auto
    then obtain node' nodes' where nodes: "nodes = node' # nodes'" by (cases nodes) auto
    have "\<not> h \<noteq> keccak256 R node" using h by simp
    from 2(1) [OF this, of off' h'] rest x
    have "chained R h' nodes \<and> (v = [] \<or> (\<exists>c \<in> set (rlp_iter R (last nodes)). rlp_as_val R c = Inr v))"
      by simp
    with h c show ?thesis by (auto simp: nodes)
  qed
qed simp

lemma get_nibble_first_half:
  assumes "\<forall>x \<in> set p. x < 16" and "i div 2 < length p"
  shows "get_nibble p i = Some (if even i then 0 else p ! (i div 2))"
proof -
  have "p ! (i div 2) < 16" using assms by simp
  then show ?thesis using assms(2) by (auto simp: get_nibble_def Let_def even_iff_mod_2_eq_zero)
qed

lemma prefix_loop_half:
  assumes "\<forall>x \<in> set p. x < 16" and "\<forall>x \<in> set q. x < 16" and "i + k \<le> length p" and "i + k \<le> length q"
    and "\<forall>j < (i + k) div 2. p ! j = q ! j"
  shows "prefix_loop p q i k = Some k"
  using assms
proof (induction k arbitrary: i)
  case (Suc k)
  have lens: "i div 2 < length p" "i div 2 < length q" using Suc.prems(3,4) by auto
  have "p ! (i div 2) = q ! (i div 2)" if "odd i"
  proof -
    have "i div 2 < (i + Suc k) div 2" using that by (auto elim!: oddE)
    then show ?thesis using Suc.prems(5) by blast
  qed
  then have same: "get_nibble p i = get_nibble q i"
    using get_nibble_first_half [OF Suc.prems(1) lens(1)] get_nibble_first_half [OF Suc.prems(2) lens(2)] by auto
  have rest: "prefix_loop p q (Suc i) k = Some k"
    using Suc.prems by (intro Suc.IH) auto
  obtain a where a: "get_nibble p i = Some a"
    using get_nibble_first_half [OF Suc.prems(1) lens(1)] by blast
  show ?case using rest by (simp add: a same [symmetric, unfolded a])
qed simp

lemma nibble_at_less: "nibble_at bs pos < 16"
  by (simp add: nibble_at_def)

lemma to_nibbles_less: "to_nibbles bs k = Inr ns \<Longrightarrow> \<forall>x \<in> set ns. x < 16"
  by (auto simp: to_nibbles_def Let_def nibble_at_less split: if_splits)

lemma compact_decode_less: "merkle_patricia_compact_decode c = Inr ns \<Longrightarrow> \<forall>x \<in> set ns. x < 16"
  by (auto simp: merkle_patricia_compact_decode_def Let_def dest!: to_nibbles_less split: if_splits)

section \<open>Properties\<close>


text \<open>
  the key is checked only in part. \<open>shared_prefix_length\<close> reads lists of nibbles as if they
  were lists of bytes, and so compares only their first halves: a leaf whose remaining path
  agrees with the key in its first half is accepted as the value of that key, whatever the
  second half is.
\<close>

theorem leaf_key_half_checked:
  assumes "to_nibbles path 0 = Inr nibbles" and "rlp_iter R node = [c, d]"
    and "rlp_as_val R c = Inr compact" and "merkle_patricia_compact_decode compact = Inr leaf_path"
    and "length leaf_path = length nibbles" and "\<forall>j < length nibbles div 2. nibbles ! j = leaf_path ! j"
    and "rlp_as_val R d = Inr v"
  shows "validate_proof R [node] (keccak256 R node) path = Some (Inr v)"
proof -
  have "shared_prefix_length nibbles 0 leaf_path = Some (length nibbles)"
    using prefix_loop_half [OF to_nibbles_less [OF assms(1)] compact_decode_less [OF assms(4)], of 0 "length nibbles"] assms(5,6)
    by (simp add: shared_prefix_length_def)
  with assms show ?thesis
    by (simp add: validate_proof_def try_evm_def proof_node_def extension_or_leaf_def bytes_without_prefix_def get_item_def)
qed

section \<open>Sample data\<close>

text \<open>
  A sample encoding: a node is its number, and the table below gives its items. Node 1 is a leaf
  with path \<open>1 2 9 9\<close>, node 2 an extension with path \<open>1 2\<close> to node 3, a branch.
\<close>

definition demo_hash :: "bytes \<Rightarrow> hash" where
  "demo_hash b = take 32 (b @ replicate 32 0)"

definition demo_rlp :: rlp_ops where
  "demo_rlp = \<lparr>rlp_iter = (\<lambda>node. if node = [1] then [[0x20, 0x12, 0x99], [7]]
       else if node = [2] then [[0x00, 0x12], demo_hash [3]]
       else if node = [3] then replicate 17 [] else []),
     rlp_as_val = Inr, rlp_is_list = (\<lambda>_. False), rlp_data = Inr, rlp_decode_list = (\<lambda>b. None),
     rlp_encode_u128 = (\<lambda>n. [n]), rlp_encode_u8 = (\<lambda>n. [n]), keccak256 = demo_hash\<rparr>"

theorem leaf_key_half_checked_witness:
  "validate_proof demo_rlp [[1]] (demo_hash [1]) [0x12, 0x99] = Some (Inr [7]) \<and>
   validate_proof demo_rlp [[1]] (demo_hash [1]) [0x12, 0x34] = Some (Inr [7])"
proof -
  have upt4: "[0 ..< 4] = [0, 1, 2, 3 :: nat]" and upt6: "[2 ..< 6] = [2, 3, 4, 5 :: nat]" by (simp_all add: upt_conv_Cons)
  have nib: "to_nibbles [0x12, 0x99] 0 = Inr [1, 2, 9, 9]" "to_nibbles [0x12, 0x34] 0 = Inr [1, 2, 3, 4]"
    "merkle_patricia_compact_decode [0x20, 0x12, 0x99] = Inr [1, 2, 9, 9]"
    by (simp_all add: to_nibbles_def merkle_patricia_compact_decode_def nibble_at_def upt4 upt6 Let_def)
  have node: "rlp_iter demo_rlp [1] = [[0x20, 0x12, 0x99], [7]]" "rlp_as_val demo_rlp x = Inr x"
    "keccak256 demo_rlp = demo_hash" for x
    by (simp_all add: demo_rlp_def)
  have half: "\<forall>j < length [1, 2, 3, 4 :: nat] div 2. [1, 2, 3, 4] ! j = [1, 2, 9, 9 :: nat] ! j"
    by (auto simp: less_Suc_eq)
  show ?thesis
    using leaf_key_half_checked [OF nib(1) node(1) node(2) nib(3), of "[7]"]
      leaf_key_half_checked [OF nib(2) node(1) node(2) nib(3) _ half, of "[7]"]
    by (simp add: node)
qed


text \<open>
  validation can panic on data of the submitter's choice. A proof that uses up the key in an
  extension and ends in a branch makes \<open>get_nibble\<close> index past the end of the key; an empty
  account proof is indexed at 0. Both happen in \<open>calculate_root\<close>, before any root is compared
  with an accepted one.
\<close>

theorem validate_proof_panics:
  "validate_proof demo_rlp [[2], [3]] (demo_hash [2]) [0x12] = None \<and>
   eth_calculate_root demo_rlp [8] \<lparr>account_proof = [], storage_proof = [], eth_message_id = 1, eth_value = []\<rparr> = None"
  by code_simp

end
