(* ===== verification/Vesting.thy ===== *)
theory Vesting
  imports Dispatch
begin

text \<open>
  The pallet \<open>pallets/vesting\<close>: accounts lock a stake for a period, rewards are distributed to
  the pool in proportion to vesting power, and a vester leaves after a cooldown or is kicked out.

  \<open>VestingBalance\<close> (\<open>traits.rs\<close>) acts on the storage of other pallets: the component
  \<open>vest_env\<close>. Plain \<open>*\<close> and \<open>+\<close> wrap around; the divisors \<open>BalanceUnit\<close> and
  \<open>MaximumLockingPeriod\<close> are constants of the configuration.
\<close>

section \<open>Types\<close>

record vesting =
  v_stake :: balance
  v_locking_period :: block_number

record vester_state =
  locking_period :: block_number
  power :: balance
  stake :: balance
  accrued :: balance
  vester_s :: balance
  cooldown_started :: "block_number option"

record pool_state =
  total_power :: balance
  total_stake :: balance
  pool_s :: "balance \<times> balance"

definition vesting_of_state :: "vester_state \<Rightarrow> vesting" where
  "vesting_of_state st = \<lparr>v_stake = stake st, v_locking_period = locking_period st\<rparr>"

datatype vesting_error =
    AlreadyVesting
  | MaximumLockingPeriodExceeded
  | NotVesting
  | CannotCooldownDuringCooldown
  | CannotRevestLess
  | CannotRevestWithShorterLockingPeriod
  | CannotDivestBeforeCooldownStarted
  | CannotDivestBeforeCooldownEnds
  | CannotDivestWhenToleranceEnded
  | CannotKickoutBeforeCooldown
  | CannotKickoutBeforeCooldownToleranceEnded
  | CalculationOverflow

datatype vesting_event =
    Vested account_id vester_state
  | Revested account_id vester_state bool
  | CooldownStarted account_id vester_state
  | Divested account_id vester_state
  | KickedOut account_id account_id vester_state
  | RewardDistributed balance

record 'env vesting_pallet =
  vest_block :: block_number
  pool :: pool_state
  vester_states :: "account_id \<rightharpoonup> vester_state"
  vesting_events :: "vesting_event list"
  vest_env :: 'env

type_synonym 'a vesting_result = "vesting_error dispatch_error + 'a"

record 'env vesting_config =
  DivestTolerance :: block_number
  MaximumLockingPeriod :: block_number
  BalanceUnit :: balance
  perbill_from_rational :: "balance \<Rightarrow> balance \<Rightarrow> nat"
  perbill_from_percent :: "nat \<Rightarrow> nat"
  lock_stake :: "account_id \<Rightarrow> balance \<Rightarrow> 'env \<Rightarrow> 'env vesting_result"
  adjust_lock :: "account_id \<Rightarrow> balance \<Rightarrow> 'env \<Rightarrow> 'env"
  pay_accrued :: "account_id \<Rightarrow> balance \<Rightarrow> 'env \<Rightarrow> 'env vesting_result"
  pay_kicker :: "account_id \<Rightarrow> balance \<Rightarrow> 'env \<Rightarrow> 'env vesting_result"
  unlock_stake :: "account_id \<Rightarrow> balance \<Rightarrow> 'env \<Rightarrow> 'env vesting_result"
  power_increased :: "account_id \<Rightarrow> nat \<Rightarrow> 'env \<Rightarrow> 'env vesting_result"
  power_decreased :: "account_id \<Rightarrow> nat \<Rightarrow> 'env \<Rightarrow> 'env vesting_result"

section \<open>Powers and rewards\<close>

definition calculate_power :: "'env vesting_config \<Rightarrow> vesting \<Rightarrow> vesting_error + balance" where
  "calculate_power cfg v =
     bind_r (ok_or (checked_mul 128 (v_locking_period v) (v_stake v)) CalculationOverflow) (\<lambda>x.
     Inr (x div MaximumLockingPeriod cfg))"

definition accrue :: "'env vesting_config \<Rightarrow> pool_state \<Rightarrow> vester_state \<Rightarrow> vesting_error + vester_state" where
  "accrue cfg pl state =
     bind_r (ok_or (checked_mul 128 (power state) (unwrap_or (checked_sub (fst (pool_s pl)) (vester_s state)) 0))
               CalculationOverflow) (\<lambda>x.
     let reward = x div BalanceUnit cfg in
     bind_r (ok_or (checked_add 128 (accrued state) reward) CalculationOverflow) (\<lambda>a.
     Inr (state\<lparr>accrued := a, vester_s := snd (pool_s pl)\<rparr>)))"

definition deposit_vesting_event :: "vesting_event \<Rightarrow> 'env vesting_pallet \<Rightarrow> 'env vesting_pallet" where
  "deposit_vesting_event e s = s\<lparr>vesting_events := vesting_events s @ [e]\<rparr>"

definition distribute_reward :: "'env vesting_config \<Rightarrow> balance \<Rightarrow> 'env vesting_pallet \<Rightarrow> 'env vesting_pallet vesting_result" where
  "distribute_reward cfg reward s =
     bind_r (if total_power (pool s) > 0 then
               bind_r (ok_or (checked_add 128 (fst (pool_s (pool s)))
                         (wrapping_mul 128 reward (BalanceUnit cfg) div total_power (pool s)))
                         (Module CalculationOverflow)) (\<lambda>lower.
               bind_r (ok_or (checked_add 128 reward (total_power (pool s) - 1)) (Module CalculationOverflow)) (\<lambda>r'.
               bind_r (ok_or (checked_add 128 (snd (pool_s (pool s)))
                         (wrapping_mul 128 r' (BalanceUnit cfg) div total_power (pool s)))
                         (Module CalculationOverflow)) (\<lambda>upper.
               Inr (s\<lparr>pool := (pool s)\<lparr>pool_s := (lower, upper)\<rparr>\<rparr>))))
             else Inr s) (\<lambda>s1.
     Inr (deposit_vesting_event (RewardDistributed reward) s1))"

section \<open>Vesting and revesting\<close>

text \<open>The storage changes of \<open>vest_for\<close>: both \<open>try_mutate\<close>s succeed or nothing is written.\<close>

definition store_vester ::
  "'env vesting_config \<Rightarrow> account_id \<Rightarrow> vesting \<Rightarrow> 'env vesting_pallet \<Rightarrow>
   (vester_state \<times> 'env vesting_pallet) vesting_result" where
  "store_vester cfg who v s =
     bind_r (ensure (vester_states s who = None) (Module AlreadyVesting)) (\<lambda>_.
     bind_r (ensure (v_locking_period v \<le> MaximumLockingPeriod cfg) (Module MaximumLockingPeriodExceeded)) (\<lambda>_.
     bind_r (map_err Module (calculate_power cfg v)) (\<lambda>pow.
     let st = \<lparr>locking_period = v_locking_period v, power = pow, stake = v_stake v, accrued = 0,
               vester_s = snd (pool_s (pool s)), cooldown_started = None\<rparr> in
     bind_r (ok_or (checked_add 128 (total_stake (pool s)) (v_stake v)) (Module CalculationOverflow)) (\<lambda>ts.
     bind_r (ok_or (checked_add 128 (total_power (pool s)) pow) (Module CalculationOverflow)) (\<lambda>tp.
     Inr (st, s\<lparr>vester_states := (vester_states s)(who \<mapsto> st),
                pool := (pool s)\<lparr>total_stake := ts, total_power := tp\<rparr>\<rparr>))))))"

definition vest_for ::
  "'env vesting_config \<Rightarrow> account_id \<Rightarrow> vesting \<Rightarrow> 'env vesting_pallet \<Rightarrow>
   (vester_state \<times> 'env vesting_pallet) vesting_result" where
  "vest_for cfg who v s =
     bind_r (store_vester cfg who v s) (\<lambda>(st, s1).
     bind_r (lock_stake cfg who (stake st) (vest_env s1)) (\<lambda>env.
     Inr (st, s1\<lparr>vest_env := env\<rparr>)))"

text \<open>
  In \<open>revest_for\<close> the closure on the pool computes the difference of the powers, but the result
  of \<open>saturating_add\<close> is dropped: the pool is written back unchanged.
\<close>

definition revest_for ::
  "'env vesting_config \<Rightarrow> account_id \<Rightarrow> vesting \<Rightarrow> 'env vesting_pallet \<Rightarrow>
   (vester_state \<times> vester_state \<times> bool \<times> 'env vesting_pallet) vesting_result" where
  "revest_for cfg who v s =
     (let s0 = s\<lparr>vest_env := adjust_lock cfg who (v_stake v) (vest_env s)\<rparr> in
      bind_r (ok_or (vester_states s0 who) (Module NotVesting)) (\<lambda>state_before.
      bind_r (ensure (\<not> v_stake v < stake state_before) (Module CannotRevestLess)) (\<lambda>_.
      bind_r (ensure (\<not> v_locking_period v < locking_period state_before) (Module CannotRevestWithShorterLockingPeriod)) (\<lambda>_.
      bind_r (ensure (v_locking_period v \<le> MaximumLockingPeriod cfg) (Module MaximumLockingPeriodExceeded)) (\<lambda>_.
      bind_r (map_err Module (accrue cfg (pool s0) state_before)) (\<lambda>st.
      let cooldown_started_before = (cooldown_started st \<noteq> None); power_before = power st in
      bind_r (map_err Module (calculate_power cfg v)) (\<lambda>pow.
      let st' = st\<lparr>locking_period := v_locking_period v, power := pow, stake := v_stake v,
                   vester_s := snd (pool_s (pool s0)), cooldown_started := None\<rparr> in
      bind_r (ok_or (checked_sub (power st') power_before) (Module CalculationOverflow)) (\<lambda>_.
      Inr (state_before, st', cooldown_started_before,
           s0\<lparr>vester_states := (vester_states s0)(who \<mapsto> st')\<rparr>)))))))))"

definition compound ::
  "'env vesting_config \<Rightarrow> account_id \<Rightarrow> balance \<Rightarrow> 'env vesting_pallet \<Rightarrow> 'env vesting_pallet vesting_result" where
  "compound cfg acc extra_stake s =
     bind_r (ok_or (vester_states s acc) (Module NotVesting)) (\<lambda>st.
     bind_r (revest_for cfg acc \<lparr>v_stake = saturating_add 128 (stake st) extra_stake, v_locking_period = locking_period st\<rparr> s)
       (\<lambda>(_, _, _, s1). Inr s1))"

section \<open>Dispatchables\<close>

definition vest :: "'env vesting_config \<Rightarrow> origin \<Rightarrow> vesting \<Rightarrow> 'env vesting_pallet \<Rightarrow> 'env vesting_pallet vesting_result" where
  "vest cfg o' v s =
     bind_r (ensure_signed o') (\<lambda>who.
     bind_r (vest_for cfg who v s) (\<lambda>(st, s1).
     Inr (deposit_vesting_event (Vested who st) s1)))"

definition revest :: "'env vesting_config \<Rightarrow> origin \<Rightarrow> vesting \<Rightarrow> 'env vesting_pallet \<Rightarrow> 'env vesting_pallet vesting_result" where
  "revest cfg o' v s =
     bind_r (ensure_signed o') (\<lambda>who.
     bind_r (revest_for cfg who v s) (\<lambda>(state_before, st, cooldown_before, s1).
     bind_r (power_increased cfg who (perbill_from_rational cfg (power state_before) (power st)) (vest_env s1)) (\<lambda>env.
     Inr (deposit_vesting_event (Revested who st cooldown_before) (s1\<lparr>vest_env := env\<rparr>)))))"

text \<open>
  In \<open>cooldown\<close>, too, the closure on the pool only checks the subtraction: its result is dropped.
\<close>

definition cooldown :: "'env vesting_config \<Rightarrow> origin \<Rightarrow> 'env vesting_pallet \<Rightarrow> 'env vesting_pallet vesting_result" where
  "cooldown cfg o' s =
     bind_r (ensure_signed o') (\<lambda>who.
     bind_r (ok_or (vester_states s who) (Module NotVesting)) (\<lambda>state_before.
     bind_r (ensure (cooldown_started state_before = None) (Module CannotCooldownDuringCooldown)) (\<lambda>_.
     bind_r (map_err Module (accrue cfg (pool s) state_before)) (\<lambda>st.
     let st' = st\<lparr>cooldown_started := Some (vest_block s), power := power st div 2\<rparr> in
     bind_r (ok_or (checked_sub (power state_before) (power st')) (Module CalculationOverflow)) (\<lambda>diff.
     bind_r (ok_or (checked_sub (total_power (pool s)) diff) (Module CalculationOverflow)) (\<lambda>_.
     let s1 = s\<lparr>vester_states := (vester_states s)(who \<mapsto> st')\<rparr> in
     bind_r (power_decreased cfg who (perbill_from_percent cfg 50) (vest_env s1)) (\<lambda>env.
     Inr (deposit_vesting_event (CooldownStarted who st') (s1\<lparr>vest_env := env\<rparr>)))))))))"

definition cooldown_end :: "vester_state \<Rightarrow> block_number \<Rightarrow> block_number vesting_result" where
  "cooldown_end st started = ok_or (checked_add 32 started (locking_period st)) (Module CalculationOverflow)"

definition tolerance_end :: "'env vesting_config \<Rightarrow> vester_state \<Rightarrow> block_number \<Rightarrow> block_number vesting_result" where
  "tolerance_end cfg st started =
     bind_r (cooldown_end st started) (\<lambda>e. ok_or (checked_add 32 e (DivestTolerance cfg)) (Module CalculationOverflow))"

definition divest :: "'env vesting_config \<Rightarrow> origin \<Rightarrow> 'env vesting_pallet \<Rightarrow> 'env vesting_pallet vesting_result" where
  "divest cfg o' s =
     bind_r (ensure_signed o') (\<lambda>who.
     bind_r (ok_or (vester_states s who) (Module NotVesting)) (\<lambda>state.
     bind_r (ok_or (cooldown_started state) (Module CannotDivestBeforeCooldownStarted)) (\<lambda>started.
     bind_r (cooldown_end state started) (\<lambda>e.
     bind_r (ensure (\<not> e > vest_block s) (Module CannotDivestBeforeCooldownEnds)) (\<lambda>_.
     bind_r (tolerance_end cfg state started) (\<lambda>t.
     bind_r (ensure (\<not> t < vest_block s) (Module CannotDivestWhenToleranceEnded)) (\<lambda>_.
     bind_r (map_err Module (accrue cfg (pool s) state)) (\<lambda>st.
     let s1 = s\<lparr>vester_states := (vester_states s)(who := None)\<rparr> in
     bind_r (pay_accrued cfg who (accrued st) (vest_env s1)) (\<lambda>env1.
     bind_r (unlock_stake cfg who (stake st) env1) (\<lambda>env2.
     Inr (deposit_vesting_event (Divested who st) (s1\<lparr>vest_env := env2\<rparr>))))))))))))"

definition kick_out :: "'env vesting_config \<Rightarrow> origin \<Rightarrow> account_id \<Rightarrow> 'env vesting_pallet \<Rightarrow> 'env vesting_pallet vesting_result" where
  "kick_out cfg o' vester s =
     bind_r (ensure_signed o') (\<lambda>who.
     bind_r (ok_or (vester_states s vester) (Module NotVesting)) (\<lambda>state.
     bind_r (ok_or (cooldown_started state) (Module CannotKickoutBeforeCooldown)) (\<lambda>started.
     bind_r (tolerance_end cfg state started) (\<lambda>t.
     bind_r (ensure (\<not> t \<ge> vest_block s) (Module CannotKickoutBeforeCooldownToleranceEnded)) (\<lambda>_.
     bind_r (map_err Module (accrue cfg (pool s) state)) (\<lambda>st.
     let s1 = s\<lparr>vester_states := (vester_states s)(vester := None)\<rparr> in
     bind_r (pay_kicker cfg who (accrued st) (vest_env s1)) (\<lambda>env1.
     bind_r (unlock_stake cfg vester (stake st) env1) (\<lambda>env2.
     Inr (deposit_vesting_event (KickedOut vester who st) (s1\<lparr>vest_env := env2\<rparr>))))))))))"

text \<open>
  \<open>GenesisConfig::build\<close> only logs an error. It runs outside a storage transaction, so when
  \<open>lock_stake\<close> fails the vester stays stored.
\<close>

definition genesis_vest :: "'env vesting_config \<Rightarrow> account_id \<times> vesting \<Rightarrow> 'env vesting_pallet \<Rightarrow> 'env vesting_pallet" where
  "genesis_vest cfg = (\<lambda>(who, v) s.
     case store_vester cfg who v s of
       Inl _ \<Rightarrow> s
     | Inr (st, s1) \<Rightarrow>
         (case lock_stake cfg who (stake st) (vest_env s1) of Inl _ \<Rightarrow> s1 | Inr env \<Rightarrow> s1\<lparr>vest_env := env\<rparr>))"

definition vesting_genesis :: "'env vesting_config \<Rightarrow> (account_id \<times> vesting) list \<Rightarrow> 'env vesting_pallet \<Rightarrow> 'env vesting_pallet" where
  "vesting_genesis cfg vesters s = fold (genesis_vest cfg) vesters s"

section \<open>Runs\<close>

text \<open>
  The calls of the pallet, those of other pallets (\<open>distribute_reward\<close>, \<open>compound\<close>) and the
  passing of blocks. A failing call leaves the storage as it was.
\<close>

datatype vesting_op =
    Vest origin vesting
  | Revest origin vesting
  | Cooldown origin
  | Divest origin
  | KickOut origin account_id
  | Distribute balance
  | Compound account_id balance
  | NextBlock

fun vesting_exec :: "'env vesting_config \<Rightarrow> vesting_op \<Rightarrow> 'env vesting_pallet \<Rightarrow> 'env vesting_pallet vesting_result" where
  "vesting_exec cfg (Vest o' v) s = vest cfg o' v s"
| "vesting_exec cfg (Revest o' v) s = revest cfg o' v s"
| "vesting_exec cfg (Cooldown o') s = cooldown cfg o' s"
| "vesting_exec cfg (Divest o') s = divest cfg o' s"
| "vesting_exec cfg (KickOut o' who) s = kick_out cfg o' who s"
| "vesting_exec cfg (Distribute r) s = distribute_reward cfg r s"
| "vesting_exec cfg (Compound who b) s = compound cfg who b s"
| "vesting_exec cfg NextBlock s = Inr (s\<lparr>vest_block := vest_block s + 1\<rparr>)"

definition vesting_apply :: "'env vesting_config \<Rightarrow> vesting_op \<Rightarrow> 'env vesting_pallet \<Rightarrow> 'env vesting_pallet" where
  "vesting_apply cfg c s = (case vesting_exec cfg c s of Inl _ \<Rightarrow> s | Inr s' \<Rightarrow> s')"

definition vesting_run :: "'env vesting_config \<Rightarrow> vesting_op list \<Rightarrow> 'env vesting_pallet \<Rightarrow> 'env vesting_pallet" where
  "vesting_run cfg cs s = fold (vesting_apply cfg) cs s"

text \<open>A call that fits: not a change of an existing stake, and no product of the distribution wraps.\<close>

fun call_fits :: "'env vesting_config \<Rightarrow> vesting_op \<Rightarrow> 'env vesting_pallet \<Rightarrow> bool" where
  "call_fits cfg (Revest o' v) s = False"
| "call_fits cfg (Compound who b) s = False"
| "call_fits cfg (Distribute r) s = ((r + total_power (pool s)) * BalanceUnit cfg \<le> 2 ^ 128)"
| "call_fits cfg _ s = True"

fun run_fits :: "'env vesting_config \<Rightarrow> vesting_op list \<Rightarrow> 'env vesting_pallet \<Rightarrow> bool" where
  "run_fits cfg [] s = True"
| "run_fits cfg (c # cs) s = (call_fits cfg c s \<and> run_fits cfg cs (vesting_apply cfg c s))"

text \<open>What was distributed and what was paid out, read off the events.\<close>

fun event_distributed :: "vesting_event \<Rightarrow> balance" where
  "event_distributed (RewardDistributed r) = r"
| "event_distributed _ = 0"

fun event_paid :: "vesting_event \<Rightarrow> balance" where
  "event_paid (Divested _ st) = accrued st"
| "event_paid (KickedOut _ _ st) = accrued st"
| "event_paid _ = 0"

definition distributed :: "'env vesting_pallet \<Rightarrow> balance" where
  "distributed s = sum_list (map event_distributed (vesting_events s))"

definition paid_out :: "'env vesting_pallet \<Rightarrow> balance" where
  "paid_out s = sum_list (map event_paid (vesting_events s))"

definition vester_sum :: "(vester_state \<Rightarrow> nat) \<Rightarrow> (account_id \<rightharpoonup> vester_state) \<Rightarrow> nat" where
  "vester_sum f m = (\<Sum>a\<in>dom m. f (the (m a)))"

text \<open>The reward a vester could still accrue, in units of \<open>1 / BalanceUnit\<close>.\<close>

definition pending :: "pool_state \<Rightarrow> vester_state \<Rightarrow> nat" where
  "pending pl st = power st * (fst (pool_s pl) - vester_s st)"

definition vesting_inv :: "'env vesting_config \<Rightarrow> 'env vesting_pallet \<Rightarrow> bool" where
  "vesting_inv cfg s \<longleftrightarrow>
     finite (dom (vester_states s)) \<and>
     fst (pool_s (pool s)) \<le> snd (pool_s (pool s)) \<and>
     vester_sum power (vester_states s) \<le> total_power (pool s) \<and>
     BalanceUnit cfg * (paid_out s + vester_sum accrued (vester_states s))
       + vester_sum (pending (pool s)) (vester_states s)
     \<le> BalanceUnit cfg * distributed s"

section \<open>Sums over the vesters\<close>

lemma vester_sum_empty [simp]: "vester_sum f Map.empty = 0"
  by (simp add: vester_sum_def)

lemma vester_sum_insert:
  assumes "finite (dom m)" and "m a = None"
  shows "vester_sum f (m(a \<mapsto> st)) = vester_sum f m + f st"
proof -
  have "a \<notin> dom m" using assms(2) by (simp add: domIff)
  then have "(\<Sum>x\<in>dom m. f (the ((m(a \<mapsto> st)) x))) = (\<Sum>x\<in>dom m. f (the (m x)))"
    by (intro sum.cong) auto
  with \<open>a \<notin> dom m\<close> show ?thesis
    using assms(1) by (simp add: vester_sum_def add.commute)
qed

lemma vester_sum_remove:
  assumes "finite (dom m)" and "m a = Some st"
  shows "vester_sum f m = vester_sum f (m(a := None)) + f st"
proof -
  have "m = (m(a := None))(a \<mapsto> st)" using assms(2) by (auto simp: fun_eq_iff)
  then have "vester_sum f m = vester_sum f ((m(a := None))(a \<mapsto> st))" by simp
  also have "\<dots> = vester_sum f (m(a := None)) + f st"
    using assms(1) by (intro vester_sum_insert) auto
  finally show ?thesis .
qed

lemma vester_sum_update:
  assumes "finite (dom m)" and "m a = Some st"
  shows "vester_sum f (m(a \<mapsto> st')) + f st = vester_sum f m + f st'"
proof -
  have "vester_sum f (m(a \<mapsto> st')) = vester_sum f ((m(a := None))(a \<mapsto> st'))" by simp
  also have "\<dots> = vester_sum f (m(a := None)) + f st'"
    using assms(1) by (intro vester_sum_insert) auto
  finally show ?thesis using vester_sum_remove [OF assms, of f] by simp
qed

lemma vester_sum_mono:
  assumes "\<And>st. f st \<le> g st"
  shows "vester_sum f m \<le> vester_sum g m"
  unfolding vester_sum_def by (intro sum_mono) (simp add: assms)

lemma vester_sum_add: "vester_sum (\<lambda>st. f st + g st) m = vester_sum f m + vester_sum g m"
  by (simp add: vester_sum_def sum.distrib)

lemma vester_sum_scale: "vester_sum (\<lambda>st. f st * c) m = vester_sum f m * (c::nat)"
  by (simp add: vester_sum_def sum_distrib_right)

section \<open>The effect of the operations\<close>

lemma accrue_effect:
  assumes "accrue cfg pl st = Inr st'"
  shows "st' = st\<lparr>accrued := accrued st + pending pl st div BalanceUnit cfg, vester_s := snd (pool_s pl)\<rparr>"
proof -
  have "unwrap_or (checked_sub (fst (pool_s pl)) (vester_s st)) 0 = fst (pool_s pl) - vester_s st"
    by (simp add: checked_sub_def)
  with assms show ?thesis
    by (auto simp: accrue_def pending_def result_simps int_simps Let_def)
qed

lemma store_vester_effect:
  assumes "store_vester cfg who v s = Inr (st, s')"
  shows "vester_states s who = None"
    and "accrued st = 0" and "vester_s st = snd (pool_s (pool s))"
    and "s' = s\<lparr>vester_states := (vester_states s)(who \<mapsto> st),
                pool := (pool s)\<lparr>total_stake := total_stake (pool s) + v_stake v,
                                 total_power := total_power (pool s) + power st\<rparr>\<rparr>"
    and "stake st = v_stake v"
  using assms by (auto simp: store_vester_def result_simps int_simps Let_def)

lemma distribute_reward_effect:
  assumes "distribute_reward cfg r s = Inr s'"
  obtains lo hi where
    "s' = deposit_vesting_event (RewardDistributed r) (s\<lparr>pool := (pool s)\<lparr>pool_s := (lo, hi)\<rparr>\<rparr>)"
    "total_power (pool s) = 0 \<Longrightarrow> (lo, hi) = pool_s (pool s)"
    "0 < total_power (pool s) \<Longrightarrow>
       lo = fst (pool_s (pool s)) + wrapping_mul 128 r (BalanceUnit cfg) div total_power (pool s) \<and>
       hi = snd (pool_s (pool s)) + wrapping_mul 128 (r + (total_power (pool s) - 1)) (BalanceUnit cfg) div total_power (pool s)"
proof (cases "0 < total_power (pool s)")
  case True
  with assms that show ?thesis
    by (auto simp: distribute_reward_def result_simps int_simps)
next
  case False
  with assms that [of "fst (pool_s (pool s))" "snd (pool_s (pool s))"] show ?thesis
    by (auto simp: distribute_reward_def result_simps)
qed

lemma vest_effect:
  assumes "vest cfg o' v s = Inr s'"
  obtains who st env where "vester_states s who = None" "accrued st = 0" "vester_s st = snd (pool_s (pool s))"
    "s' = s\<lparr>vester_states := (vester_states s)(who \<mapsto> st),
            pool := (pool s)\<lparr>total_stake := total_stake (pool s) + v_stake v,
                             total_power := total_power (pool s) + power st\<rparr>,
            vest_env := env, vesting_events := vesting_events s @ [Vested who st]\<rparr>"
proof -
  from assms obtain who st s1 env where
    "store_vester cfg who v s = Inr (st, s1)"
    and "s' = deposit_vesting_event (Vested who st) (s1\<lparr>vest_env := env\<rparr>)"
    by (auto simp: vest_def vest_for_def result_simps split: prod.splits)
  with store_vester_effect [OF this(1)] that [of who st env] show ?thesis
    by (simp add: deposit_vesting_event_def)
qed

lemma cooldown_effect:
  assumes "cooldown cfg o' s = Inr s'"
  obtains who st st1 st2 env where "vester_states s who = Some st" "accrue cfg (pool s) st = Inr st1"
    "st2 = st1\<lparr>cooldown_started := Some (vest_block s), power := power st1 div 2\<rparr>"
    "s' = s\<lparr>vester_states := (vester_states s)(who \<mapsto> st2),
            vest_env := env, vesting_events := vesting_events s @ [CooldownStarted who st2]\<rparr>"
  using assms that by (auto simp: cooldown_def result_simps Let_def deposit_vesting_event_def)

text \<open>Both ways out of the pool: the vester is removed and its accrued reward is paid.\<close>

definition leaves :: "'env vesting_config \<Rightarrow> 'env vesting_pallet \<Rightarrow> 'env vesting_pallet \<Rightarrow> bool" where
  "leaves cfg s s' \<longleftrightarrow>
     (\<exists>a st st1 e env. vester_states s a = Some st \<and> accrue cfg (pool s) st = Inr st1 \<and>
        event_paid e = accrued st1 \<and> event_distributed e = 0 \<and>
        s' = s\<lparr>vester_states := (vester_states s)(a := None),
               vest_env := env, vesting_events := vesting_events s @ [e]\<rparr>)"

lemma leavesI:
  assumes "vester_states s a = Some st" and "accrue cfg (pool s) st = Inr st1"
    and "event_paid e = accrued st1" and "event_distributed e = 0"
  shows "leaves cfg s (s\<lparr>vester_states := (vester_states s)(a := None),
                         vest_env := env, vesting_events := vesting_events s @ [e]\<rparr>)"
  unfolding leaves_def using assms by blast

lemma divest_leaves: "divest cfg o' s = Inr s' \<Longrightarrow> leaves cfg s s'"
  by (auto simp: divest_def result_simps Let_def deposit_vesting_event_def intro: leavesI)

lemma kick_out_leaves: "kick_out cfg o' a s = Inr s' \<Longrightarrow> leaves cfg s s'"
  by (auto simp: kick_out_def result_simps Let_def deposit_vesting_event_def intro: leavesI)

section \<open>Solvency\<close>

lemma event_sums_append:
  "vesting_events s' = vesting_events s @ [e] \<Longrightarrow> distributed s' = distributed s + event_distributed e"
  "vesting_events s' = vesting_events s @ [e] \<Longrightarrow> paid_out s' = paid_out s + event_paid e"
  by (simp_all add: distributed_def paid_out_def)

lemma accrue_backed:
  assumes "accrue cfg pl st = Inr st'" and "fst (pool_s pl) \<le> snd (pool_s pl)"
  shows "BalanceUnit cfg * accrued st' \<le> BalanceUnit cfg * accrued st + pending pl st"
    and "power st' = power st"
    and "p \<le> snd (pool_s pl) \<Longrightarrow> p - vester_s st' = 0"
  using accrue_effect [OF assms(1)] by (simp_all add: distrib_left)

lemma vesting_inv_vest:
  assumes inv: "vesting_inv cfg s" and "vest cfg o' v s = Inr s'"
  shows "vesting_inv cfg s'"
  using assms(2)
proof (rule vest_effect)
  fix who st env
  assume new: "vester_states s who = None" and st: "accrued st = 0" "vester_s st = snd (pool_s (pool s))"
    and s': "s' = s\<lparr>vester_states := (vester_states s)(who \<mapsto> st),
            pool := (pool s)\<lparr>total_stake := total_stake (pool s) + v_stake v,
                             total_power := total_power (pool s) + power st\<rparr>,
            vest_env := env, vesting_events := vesting_events s @ [Vested who st]\<rparr>"
  have "pending (pool s') = pending (pool s)" by (simp add: s' pending_def fun_eq_iff)
  moreover have "pending (pool s) st = 0" using inv by (simp add: pending_def st vesting_inv_def)
  ultimately show ?thesis
    using inv new by (simp add: vesting_inv_def s' vester_sum_insert st event_sums_append distributed_def paid_out_def)
qed

lemma vesting_inv_cooldown:
  assumes inv: "vesting_inv cfg s" and "cooldown cfg o' s = Inr s'"
  shows "vesting_inv cfg s'"
  using assms(2)
proof (rule cooldown_effect)
  fix who st st1 st2 env
  assume st: "vester_states s who = Some st" and ac: "accrue cfg (pool s) st = Inr st1"
    and st2: "st2 = st1\<lparr>cooldown_started := Some (vest_block s), power := power st1 div 2\<rparr>"
    and s': "s' = s\<lparr>vester_states := (vester_states s)(who \<mapsto> st2),
            vest_env := env, vesting_events := vesting_events s @ [CooldownStarted who st2]\<rparr>"
  from inv have fin: "finite (dom (vester_states s))" and le: "fst (pool_s (pool s)) \<le> snd (pool_s (pool s))"
    by (simp_all add: vesting_inv_def)
  note upd = vester_sum_update [OF fin st, of _ st2]
  note backed = accrue_backed [OF ac le]
  have "power st2 \<le> power st" by (simp add: st2 backed)
  moreover have "BalanceUnit cfg * accrued st2 \<le> BalanceUnit cfg * accrued st + pending (pool s) st"
    using backed(1) by (simp add: st2)
  moreover have "pending (pool s) st2 = 0" using backed(3) le by (simp add: st2 pending_def)
  moreover have "BalanceUnit cfg * vester_sum accrued ((vester_states s)(who \<mapsto> st2)) + BalanceUnit cfg * accrued st
      = BalanceUnit cfg * vester_sum accrued (vester_states s) + BalanceUnit cfg * accrued st2"
    using upd [of accrued] by (metis distrib_left)
  ultimately show ?thesis
    using inv upd [of power] upd [of "pending (pool s)"]
    by (simp add: vesting_inv_def s' distributed_def paid_out_def distrib_left)
qed

lemma vesting_inv_leaves:
  assumes inv: "vesting_inv cfg s" and "leaves cfg s s'"
  shows "vesting_inv cfg s'"
proof -
  from assms(2) obtain a st st1 e env where st: "vester_states s a = Some st"
    and ac: "accrue cfg (pool s) st = Inr st1" and e: "event_paid e = accrued st1" "event_distributed e = 0"
    and s': "s' = s\<lparr>vester_states := (vester_states s)(a := None),
                    vest_env := env, vesting_events := vesting_events s @ [e]\<rparr>"
    unfolding leaves_def by blast
  from inv have fin: "finite (dom (vester_states s))" and le: "fst (pool_s (pool s)) \<le> snd (pool_s (pool s))"
    by (simp_all add: vesting_inv_def)
  note rem = vester_sum_remove [OF fin st]
  show ?thesis
    using inv fin accrue_backed(1) [OF ac le]
    by (simp add: vesting_inv_def s' e distributed_def paid_out_def distrib_left
        rem [of power] rem [of accrued] rem [of "pending (pool s)"])
qed

text \<open>A reward raises the lower bound by at most \<open>reward / total_power\<close> per unit of power.\<close>

lemma pending_after_distribution:
  assumes "fst (pool_s pl') \<le> fst (pool_s pl) + d"
  shows "vester_sum (pending pl') m \<le> vester_sum (pending pl) m + vester_sum power m * d"
proof -
  have "pending pl' st \<le> pending pl st + power st * d" for st
  proof -
    have "fst (pool_s pl') - vester_s st \<le> (fst (pool_s pl) - vester_s st) + d" using assms by simp
    then have "power st * (fst (pool_s pl') - vester_s st) \<le> power st * ((fst (pool_s pl) - vester_s st) + d)"
      by (rule mult_le_mono2)
    then show ?thesis by (simp add: pending_def distrib_left)
  qed
  then have "vester_sum (pending pl') m \<le> vester_sum (\<lambda>st. pending pl st + power st * d) m"
    by (rule vester_sum_mono)
  then show ?thesis by (simp add: vester_sum_add vester_sum_scale)
qed

lemma upper_bound_stays:
  assumes "(r + t) * u \<le> 2 ^ 128" and "0 < t"
  shows "wrapping_mul 128 r u div t \<le> wrapping_mul 128 (r + (t - 1)) u div t"
proof (cases "u = 0")
  case False
  have "(r + (t - 1)) * u < (r + t) * u" using assms(2) False by simp
  with assms(1) have fits: "(r + (t - 1)) * u < 2 ^ 128" by linarith
  have "r * u \<le> (r + (t - 1)) * u" by simp
  with fits have "r * u < 2 ^ 128" by linarith
  with fits show ?thesis by (simp only: wrapping_mul_exact) (intro div_le_mono mult_le_mono1, simp)
qed (simp add: wrapping_mul_def)

lemma vesting_inv_distribute:
  assumes inv: "vesting_inv cfg s" and "distribute_reward cfg r s = Inr s'"
    and fits: "(r + total_power (pool s)) * BalanceUnit cfg \<le> 2 ^ 128"
  shows "vesting_inv cfg s'"
  using assms(2)
proof (rule distribute_reward_effect)
  fix lo hi
  let ?t = "total_power (pool s)" and ?u = "BalanceUnit cfg" and ?vs = "vester_states s"
  let ?d = "if ?t = 0 then 0 else wrapping_mul 128 r ?u div ?t"
  assume s': "s' = deposit_vesting_event (RewardDistributed r) (s\<lparr>pool := (pool s)\<lparr>pool_s := (lo, hi)\<rparr>\<rparr>)"
    and none: "?t = 0 \<Longrightarrow> (lo, hi) = pool_s (pool s)"
    and some: "0 < ?t \<Longrightarrow> lo = fst (pool_s (pool s)) + wrapping_mul 128 r ?u div ?t \<and>
       hi = snd (pool_s (pool s)) + wrapping_mul 128 (r + (?t - 1)) ?u div ?t"
  have lo: "lo = fst (pool_s (pool s)) + ?d"
    using none some by (cases "?t = 0") (auto simp: prod_eq_iff)
  have "lo \<le> hi"
    using none some upper_bound_stays [OF fits] inv
    by (cases "?t = 0") (auto simp: vesting_inv_def prod_eq_iff intro: add_mono)
  moreover have "vester_sum (pending (pool s')) ?vs \<le> vester_sum (pending (pool s)) ?vs + vester_sum power ?vs * ?d"
    by (rule pending_after_distribution) (simp add: s' lo deposit_vesting_event_def)
  moreover have "vester_sum power ?vs * ?d \<le> ?u * r"
  proof -
    have "vester_sum power ?vs * ?d \<le> ?t * ?d" using inv by (simp add: vesting_inv_def)
    also have "\<dots> \<le> wrapping_mul 128 r ?u" by simp
    also have "\<dots> \<le> ?u * r" by (simp add: wrapping_mul_def mult.commute)
    finally show ?thesis .
  qed
  ultimately show ?thesis
    using inv by (simp add: vesting_inv_def s' deposit_vesting_event_def distributed_def paid_out_def distrib_left)
qed

lemma vesting_inv_next_block: "vesting_inv cfg s \<Longrightarrow> vesting_inv cfg (s\<lparr>vest_block := b\<rparr>)"
  by (simp add: vesting_inv_def distributed_def paid_out_def)

lemma vesting_inv_apply:
  assumes "vesting_inv cfg s" and "call_fits cfg c s"
  shows "vesting_inv cfg (vesting_apply cfg c s)"
proof (cases "vesting_exec cfg c s")
  case (Inl e)
  with assms show ?thesis by (simp add: vesting_apply_def)
next
  case (Inr s')
  with assms have "vesting_inv cfg s'"
    by (cases c) (auto intro: vesting_inv_vest vesting_inv_cooldown vesting_inv_distribute
        vesting_inv_leaves divest_leaves kick_out_leaves vesting_inv_next_block)
  with Inr show ?thesis by (simp add: vesting_apply_def)
qed

lemma vesting_inv_run: "vesting_inv cfg s \<Longrightarrow> run_fits cfg cs s \<Longrightarrow> vesting_inv cfg (vesting_run cfg cs s)"
  by (induction cs arbitrary: s) (simp_all add: vesting_run_def vesting_inv_apply)

section \<open>Properties\<close>

text \<open>A configuration with the test runtime's shape, over a trivial \<open>VestingBalance\<close>.\<close>

definition sample_vesting_config :: "unit vesting_config" where
  "sample_vesting_config =
     \<lparr>DivestTolerance = 5, MaximumLockingPeriod = 100, BalanceUnit = 1000,
      perbill_from_rational = (\<lambda>p q. if q = 0 then 10 ^ 9 else min (10 ^ 9) (p * 10 ^ 9 div q)),
      perbill_from_percent = (\<lambda>x. x * 10 ^ 7),
      lock_stake = (\<lambda>_ _. Inr), adjust_lock = (\<lambda>_ _ env. env), pay_accrued = (\<lambda>_ _. Inr),
      pay_kicker = (\<lambda>_ _. Inr), unlock_stake = (\<lambda>_ _. Inr),
      power_increased = (\<lambda>_ _. Inr), power_decreased = (\<lambda>_ _. Inr)\<rparr>"

definition sample_vesting_start :: "unit vesting_pallet" where
  "sample_vesting_start =
     \<lparr>vest_block = 10, pool = \<lparr>total_power = 0, total_stake = 0, pool_s = (0, 0)\<rparr>,
      vester_states = Map.empty, vesting_events = [], vest_env = ()\<rparr>"

lemmas vesting_defs = vesting_apply_def vesting_run_def vest_def vest_for_def store_vester_def
  revest_def revest_for_def calculate_power_def accrue_def cooldown_def divest_def kick_out_def
  cooldown_end_def tolerance_end_def distribute_reward_def deposit_vesting_event_def
  checked_add_def checked_sub_def checked_mul_def saturating_add_def wrapping_mul_def Let_def
  sample_vesting_config_def sample_vesting_start_def

text \<open>
  C28: Solvency of the vesting pool. Start from a state without vesters, in which the lower bound of
  the pool's \<open>s\<close> is not above the upper one and no reward has been paid out. After any run of
  \<open>vest\<close>, \<open>cooldown\<close>, \<open>divest\<close>, \<open>kick_out\<close>, \<open>distribute_reward\<close> and new blocks, in any order
  and by any accounts, in which \<open>(reward + total_power) * BalanceUnit\<close> does not exceed \<open>u128\<close> at a
  distribution, the rewards paid out together with those accrued and not yet paid are at most
  the rewards distributed: the rounding of both bounds never favours the vesters. (Runs with
  \<open>revest\<close> or \<open>compound\<close> are excluded: see the next property.)
\<close>
theorem vesting_solvent:
  assumes "0 < BalanceUnit cfg" and "vester_states s = Map.empty" and "paid_out s = 0"
    and "fst (pool_s (pool s)) \<le> snd (pool_s (pool s))" and "run_fits cfg cs s"
  shows "paid_out (vesting_run cfg cs s) + vester_sum accrued (vester_states (vesting_run cfg cs s))
         \<le> distributed (vesting_run cfg cs s)"
proof -
  have "vesting_inv cfg s" using assms by (simp add: vesting_inv_def)
  then have "vesting_inv cfg (vesting_run cfg cs s)" using assms(5) by (rule vesting_inv_run)
  then have "BalanceUnit cfg * (paid_out (vesting_run cfg cs s) + vester_sum accrued (vester_states (vesting_run cfg cs s)))
      \<le> BalanceUnit cfg * distributed (vesting_run cfg cs s)"
    unfolding vesting_inv_def by linarith
  then show ?thesis using assms(1) by simp
qed

definition sample_vesting_calls :: "vesting_op list" where
  "sample_vesting_calls =
     [Vest (Signed 1) \<lparr>v_stake = 100, v_locking_period = 2\<rparr>, Vest (Signed 2) \<lparr>v_stake = 500, v_locking_period = 3\<rparr>,
      Distribute 51, Cooldown (Signed 1), NextBlock, NextBlock, Divest (Signed 1), Cooldown (Signed 2)]"

theorem vesting_solvent_witness:
  "0 < BalanceUnit sample_vesting_config \<and> run_fits sample_vesting_config sample_vesting_calls sample_vesting_start \<and>
   paid_out (vesting_run sample_vesting_config sample_vesting_calls sample_vesting_start) = 6 \<and>
   distributed (vesting_run sample_vesting_config sample_vesting_calls sample_vesting_start) = 51 \<and>
   paid_out (vesting_run sample_vesting_config sample_vesting_calls sample_vesting_start) +
     vester_sum accrued (vester_states (vesting_run sample_vesting_config sample_vesting_calls sample_vesting_start))
   \<le> distributed (vesting_run sample_vesting_config sample_vesting_calls sample_vesting_start)"
proof -
  have fits: "run_fits sample_vesting_config sample_vesting_calls sample_vesting_start"
    by (simp add: vesting_defs sample_vesting_calls_def)
  have "paid_out (vesting_run sample_vesting_config sample_vesting_calls sample_vesting_start) = 6"
    and "distributed (vesting_run sample_vesting_config sample_vesting_calls sample_vesting_start) = 51"
    and "0 < BalanceUnit sample_vesting_config"
    and "paid_out sample_vesting_start = 0"
    by (simp_all add: vesting_defs sample_vesting_calls_def paid_out_def distributed_def)
  with fits vesting_solvent [of sample_vesting_config sample_vesting_start sample_vesting_calls] show ?thesis
    by (simp add: sample_vesting_start_def)
qed


text \<open>
  The windows of leaving. For a vester that started its cooldown at block \<open>c\<close>, whose accrual
  does not overflow and with a \<open>VestingBalance\<close> that accepts the payments: \<open>divest\<close> succeeds
  exactly from block \<open>c + locking_period\<close> to \<open>c + locking_period + DivestTolerance\<close> inclusive, and
  \<open>kick_out\<close>, by anyone, exactly after it, so at no block do both succeed; before, both fail.
\<close>
theorem leaving_windows:
  assumes "vester_states s a = Some st" and "cooldown_started st = Some c"
    and "c + locking_period st + DivestTolerance cfg < 2 ^ 32"
    and "is_ok (accrue cfg (pool s) st)"
    and "\<And>who x env. is_ok (pay_accrued cfg who x env)" and "\<And>who x env. is_ok (pay_kicker cfg who x env)"
    and "\<And>who x env. is_ok (unlock_stake cfg who x env)"
  shows "(is_ok (divest cfg (Signed a) s) \<longleftrightarrow>
            c + locking_period st \<le> vest_block s \<and> vest_block s \<le> c + locking_period st + DivestTolerance cfg) \<and>
         (is_ok (kick_out cfg (Signed k) a s) \<longleftrightarrow> c + locking_period st + DivestTolerance cfg < vest_block s)"
proof -
  have e: "cooldown_end st c = Inr (c + locking_period st)"
    and t: "tolerance_end cfg st c = Inr (c + locking_period st + DivestTolerance cfg)"
    using assms(3) by (simp_all add: cooldown_end_def tolerance_end_def checked_add_def)
  obtain st1 where ac: "accrue cfg (pool s) st = Inr st1" using assms(4) by (auto simp: is_ok_ex)
  obtain e1 where p1: "pay_accrued cfg a (accrued st1) (vest_env s) = Inr e1"
    using assms(5) [of a "accrued st1" "vest_env s"] by (auto simp: is_ok_ex)
  obtain e2 where p2: "pay_kicker cfg k (accrued st1) (vest_env s) = Inr e2"
    using assms(6) [of k "accrued st1" "vest_env s"] by (auto simp: is_ok_ex)
  obtain u1 u2 where u: "unlock_stake cfg a (stake st1) e1 = Inr u1" "unlock_stake cfg a (stake st1) e2 = Inr u2"
    using assms(7) [of a "stake st1"] by (metis is_ok_ex)
  have "is_ok (divest cfg (Signed a) s) \<longleftrightarrow>
      c + locking_period st \<le> vest_block s \<and> vest_block s \<le> c + locking_period st + DivestTolerance cfg"
    by (auto simp: divest_def assms(1,2) e t ac p1 u is_ok_ex result_simps Let_def)
  moreover have "is_ok (kick_out cfg (Signed k) a s) \<longleftrightarrow> c + locking_period st + DivestTolerance cfg < vest_block s"
    by (auto simp: kick_out_def assms(1,2) t ac p2 u is_ok_ex result_simps Let_def)
  ultimately show ?thesis by (rule conjI)
qed

theorem leaving_windows_witness:
  "\<exists>st s. vester_states s 7 = Some st \<and> cooldown_started st = Some 4 \<and> vest_block s = 10 \<and>
     is_ok (divest sample_vesting_config (Signed 7) s) \<and> \<not> is_ok (kick_out sample_vesting_config (Signed 3) 7 s)"
proof -
  define st where "st = \<lparr>locking_period = 2, power = 2, stake = 100, accrued = 0, vester_s = 0, cooldown_started = Some 4\<rparr>"
  define s where "s = sample_vesting_start\<lparr>vester_states := [7 \<mapsto> st]\<rparr>"
  have hyps: "vester_states s 7 = Some st" "cooldown_started st = Some 4"
    "4 + locking_period st + DivestTolerance sample_vesting_config < 2 ^ 32"
    "is_ok (accrue sample_vesting_config (pool s) st)" "vest_block s = 10"
    "is_ok (pay_accrued sample_vesting_config who x env)" "is_ok (pay_kicker sample_vesting_config who x env)"
    "is_ok (unlock_stake sample_vesting_config who x env)" for who x env
    by (simp_all add: s_def st_def vesting_defs)
  show ?thesis
    using leaving_windows [OF hyps(1-4) hyps(6-8), of 3] hyps(1,2,5)
    by (intro exI [of _ st] exI [of _ s]) (simp add: st_def sample_vesting_config_def)
qed

end
