(* ===== verification/Sorted_Vec.thy ===== *)
theory Sorted_Vec
  imports Dispatch
begin

text \<open>
  Vectors that are kept sorted by a key: the binary search of Rust's standard library (the loop of
  \<open>slice::binary_search_by\<close> in the toolchain the repository pins), \<open>OrderedSet\<close> of
  \<open>pallets/parachain-staking/src/set.rs\<close>, and the insertion from greatest to least of
  \<open>types.rs\<close>. An element is compared by its \<open>key\<close> (the implementations of \<open>Ord\<close> for \<open>Bond\<close>
  compare the owner only).

  The locale \<open>keyed_store\<close> is the contract by which the pallet uses such a vector: a finite map from
  keys to elements. It is interpreted on \<open>OrderedSet\<close>.
\<close>

section \<open>Binary search\<close>

datatype ordering = Less | Equal | Greater

definition cmp :: "'k::linorder \<Rightarrow> 'k \<Rightarrow> ordering" where
  "cmp a b = (if a < b then Less else if a = b then Equal else Greater)"

text \<open>\<open>Inr\<close> is \<open>Ok\<close> of the index found, \<open>Inl\<close> is \<open>Err\<close> of the index to insert at.\<close>

function binary_search_loop :: "(nat \<Rightarrow> ordering) \<Rightarrow> nat \<Rightarrow> nat \<Rightarrow> nat + nat" where
  "binary_search_loop f left right =
     (if left < right then
        let mid = left + (right - left) div 2 in
        case f mid of
          Less \<Rightarrow> binary_search_loop f (mid + 1) right
        | Greater \<Rightarrow> binary_search_loop f left mid
        | Equal \<Rightarrow> Inr mid
      else Inl left)"
  by pat_completeness auto
termination
  by (relation "measure (\<lambda>(f, left, right). right - left)") auto

declare binary_search_loop.simps [simp del]

definition binary_search_by :: "('a \<Rightarrow> ordering) \<Rightarrow> 'a list \<Rightarrow> nat + nat" where
  "binary_search_by f xs = binary_search_loop (\<lambda>i. f (xs ! i)) 0 (length xs)"

section \<open>OrderedSet (set.rs)\<close>

fun dedup_by :: "('a \<Rightarrow> 'k) \<Rightarrow> 'a list \<Rightarrow> 'a list" where
  "dedup_by key (x # y # xs) =
     (if key x = key y then dedup_by key (x # xs) else x # dedup_by key (y # xs))"
| "dedup_by key xs = xs"

definition set_from :: "('a \<Rightarrow> 'k::linorder) \<Rightarrow> 'a list \<Rightarrow> 'a list" where
  "set_from key v = dedup_by key (sort_key key v)"

definition set_insert :: "('a \<Rightarrow> 'k::linorder) \<Rightarrow> 'a \<Rightarrow> 'a list \<Rightarrow> 'a list \<times> bool" where
  "set_insert key value xs =
     (case binary_search_by (\<lambda>x. cmp (key x) (key value)) xs of
        Inr _ \<Rightarrow> (xs, False)
      | Inl loc \<Rightarrow> (take loc xs @ value # drop loc xs, True))"

definition set_remove :: "('a \<Rightarrow> 'k::linorder) \<Rightarrow> 'k \<Rightarrow> 'a list \<Rightarrow> 'a list \<times> bool" where
  "set_remove key k xs =
     (case binary_search_by (\<lambda>x. cmp (key x) k) xs of
        Inr loc \<Rightarrow> (take loc xs @ drop (loc + 1) xs, True)
      | Inl _ \<Rightarrow> (xs, False))"

definition set_contains :: "('a \<Rightarrow> 'k::linorder) \<Rightarrow> 'k \<Rightarrow> 'a list \<Rightarrow> bool" where
  "set_contains key k xs = is_ok (binary_search_by (\<lambda>x. cmp (key x) k) xs)"

section \<open>Insertion from greatest to least (types.rs)\<close>

text \<open>The \<open>while\<close> loop behind the element found: first come, first served.\<close>

function skip_equal :: "('a \<Rightarrow> 'k) \<Rightarrow> 'k \<Rightarrow> 'a list \<Rightarrow> nat \<Rightarrow> nat" where
  "skip_equal key k xs i =
     (if i < length xs \<and> key (xs ! i) = k then skip_equal key k xs (i + 1) else i)"
  by pat_completeness auto
termination
  by (relation "measure (\<lambda>(key, k, xs, i). length xs - i)") auto

declare skip_equal.simps [simp del]

definition insert_at :: "nat \<Rightarrow> 'a \<Rightarrow> 'a list \<Rightarrow> 'a list" where
  "insert_at i x xs = take i xs @ x # drop i xs"

definition insert_greatest_to_least :: "('a \<Rightarrow> 'k::linorder) \<Rightarrow> 'a \<Rightarrow> 'a list \<Rightarrow> 'a list" where
  "insert_greatest_to_least key d xs =
     (if xs \<noteq> [] \<and> key (last xs) = key d then xs @ [d]
      else case binary_search_by (\<lambda>x. cmp (key d) (key x)) xs of
             Inr i \<Rightarrow> insert_at (skip_equal key (key d) xs (i + 1)) d xs
           | Inl i \<Rightarrow> insert_at i d xs)"

definition sort_greatest_to_least_by :: "('a \<Rightarrow> 'k::linorder) \<Rightarrow> 'a list \<Rightarrow> 'a list" where
  "sort_greatest_to_least_by key xs = rev (sort_key key (rev xs))"

section \<open>The search on sorted vectors\<close>

lemma cmp_simps [simp]:
  "cmp a b = Less \<longleftrightarrow> a < b" "cmp a b = Equal \<longleftrightarrow> a = b" "cmp a b = Greater \<longleftrightarrow> b < a"
  by (auto simp: cmp_def)

lemma cmp_ord [simp]: "a < b \<Longrightarrow> cmp a b = Less" "b < a \<Longrightarrow> cmp a b = Greater" "cmp a a = Equal"
  by auto

definition parted :: "(nat \<Rightarrow> ordering) \<Rightarrow> nat \<Rightarrow> bool" where
  "parted f n = (\<forall>i j. i < j \<longrightarrow> j < n \<longrightarrow> (f j = Less \<longrightarrow> f i = Less) \<and> (f i = Greater \<longrightarrow> f j = Greater))"

lemma parted_Less: "parted f n \<Longrightarrow> f m = Less \<Longrightarrow> m < n \<Longrightarrow> j \<le> m \<Longrightarrow> f j = Less"
  by (metis parted_def le_neq_implies_less)

lemma parted_Greater: "parted f n \<Longrightarrow> f m = Greater \<Longrightarrow> j < n \<Longrightarrow> m \<le> j \<Longrightarrow> f j = Greater"
  by (metis parted_def le_neq_implies_less)

lemma binary_search_loop_step:
  assumes "l < r" and "mid = l + (r - l) div 2"
  shows "binary_search_loop f l r =
    (case f mid of Less \<Rightarrow> binary_search_loop f (mid + 1) r
     | Greater \<Rightarrow> binary_search_loop f l mid | Equal \<Rightarrow> Inr mid)"
  using assms(1) unfolding assms(2) by (subst binary_search_loop.simps) (simp add: Let_def)

lemma binary_search_loop_Inr:
  "binary_search_loop f l r = Inr i \<Longrightarrow> l \<le> i \<and> i < r \<and> f i = Equal"
proof (induction f l r rule: binary_search_loop.induct)
  case (1 f l r)
  define mid where "mid = l + (r - l) div 2"
  show ?case
  proof (cases "l < r")
    case True
    then have m: "l \<le> mid" "mid < r" by (auto simp: mid_def)
    show ?thesis
      using 1(1,2) [OF True mid_def] 1(3) m
      by (cases "f mid") (auto simp: binary_search_loop_step [OF True mid_def])
  qed (use 1(3) in \<open>simp add: binary_search_loop.simps [of f l r]\<close>)
qed

lemma binary_search_loop_Inl:
  assumes "parted f n" and "binary_search_loop f l r = Inl i" and "l \<le> r" and "r \<le> n"
    and "\<forall>j<l. f j = Less" and "\<forall>j. r \<le> j \<longrightarrow> j < n \<longrightarrow> f j = Greater"
  shows "i \<le> n \<and> (\<forall>j<i. f j = Less) \<and> (\<forall>j. i \<le> j \<longrightarrow> j < n \<longrightarrow> f j = Greater)"
  using assms
proof (induction f l r rule: binary_search_loop.induct)
  case (1 f l r)
  define mid where "mid = l + (r - l) div 2"
  show ?case
  proof (cases "l < r")
    case True
    then have m: "l \<le> mid" "mid < r" by (auto simp: mid_def)
    note step = binary_search_loop_step [OF True mid_def]
    show ?thesis
    proof (cases "f mid")
      case Less
      have "\<forall>j<mid + 1. f j = Less"
        using parted_Less [OF 1(3) Less] m 1(6) by simp
      moreover have "binary_search_loop f (mid + 1) r = Inl i" using 1(4) step Less by simp
      ultimately show ?thesis
        using m by (intro 1(1) [OF True mid_def Less 1(3) _ _ 1(6) _ 1(8)]) simp_all
    next
      case Greater
      have "\<forall>j. mid \<le> j \<longrightarrow> j < n \<longrightarrow> f j = Greater"
        using parted_Greater [OF 1(3) Greater] by simp
      moreover have "binary_search_loop f l mid = Inl i" using 1(4) step Greater by simp
      ultimately show ?thesis
        using m 1(6) by (intro 1(2) [OF True mid_def Greater 1(3) _ _ _ 1(7)]) simp_all
    qed (use 1(4) step in simp)
  next
    case False
    then have "i = l" using 1(4) by (simp add: binary_search_loop.simps [of f l r])
    then show ?thesis using False 1(5-) by auto
  qed
qed

text \<open>On a vector that the comparison parts, the search finds an equal element or the border.\<close>

lemma binary_search_by_Inr:
  "binary_search_by f xs = Inr i \<Longrightarrow> i < length xs \<and> f (xs ! i) = Equal"
  using binary_search_loop_Inr by (fastforce simp: binary_search_by_def)

lemma binary_search_by_Inl:
  assumes "parted (\<lambda>i. f (xs ! i)) (length xs)" and "binary_search_by f xs = Inl i"
  shows "i \<le> length xs \<and> (\<forall>x\<in>set (take i xs). f x = Less) \<and> (\<forall>x\<in>set (drop i xs). f x = Greater)"
proof -
  have b: "i \<le> length xs \<and> (\<forall>j<i. f (xs ! j) = Less) \<and> (\<forall>j. i \<le> j \<longrightarrow> j < length xs \<longrightarrow> f (xs ! j) = Greater)"
    using binary_search_loop_Inl [OF assms(1) assms(2) [unfolded binary_search_by_def]] by simp
  then have "f (drop i xs ! j) = Greater" if "j < length (drop i xs)" for j
    using that by simp
  with b show ?thesis by (metis in_set_conv_nth length_take min_less_iff_conj nth_take)
qed

section \<open>OrderedSet is a finite map\<close>

abbreviation strictly_sorted :: "('a \<Rightarrow> 'k::linorder) \<Rightarrow> 'a list \<Rightarrow> bool" where
  "strictly_sorted key xs \<equiv> sorted_wrt (\<lambda>x y. key x < key y) xs"

lemma strictly_sorted_parted:
  "strictly_sorted key xs \<Longrightarrow> parted (\<lambda>i. cmp (key (xs ! i)) k) (length xs)"
  unfolding parted_def sorted_wrt_iff_nth_less cmp_simps by (blast intro: less_trans)

lemma strictly_sorted_distinct: "strictly_sorted key xs \<Longrightarrow> distinct (map key xs)"
  by (induction xs) auto

lemma strictly_sorted_inj: "strictly_sorted key xs \<Longrightarrow> inj_on key (set xs)"
  using strictly_sorted_distinct by (auto simp: distinct_map)

lemma filter_parts:
  "\<lbrakk>\<forall>x\<in>set ys. P x; \<forall>x\<in>set zs. \<not> P x\<rbrakk> \<Longrightarrow> filter P (ys @ zs) = ys"
  by (simp add: filter_empty_conv)

text \<open>A key that occurs is found; removing it is filtering, inserting it fails.\<close>

lemma search_by_key:
  assumes "strictly_sorted key xs"
  shows "(\<exists>i. binary_search_by (\<lambda>x. cmp (key x) k) xs = Inr i \<and> i < length xs \<and> key (xs ! i) = k \<and>
            take i xs @ drop (i + 1) xs = filter (\<lambda>x. key x \<noteq> k) xs) \<and> k \<in> key ` set xs
       \<or> (\<exists>i. binary_search_by (\<lambda>x. cmp (key x) k) xs = Inl i \<and>
            take i xs = filter (\<lambda>x. key x < k) xs \<and> drop i xs = filter (\<lambda>x. k < key x) xs) \<and>
          k \<notin> key ` set xs"
proof (cases "binary_search_by (\<lambda>x. cmp (key x) k) xs")
  case (Inr i)
  then have i: "i < length xs" "key (xs ! i) = k"
    using binary_search_by_Inr by fastforce+
  have split: "xs = take i xs @ xs ! i # drop (i + 1) xs"
    using i(1) by (simp add: id_take_nth_drop)
  then have "sorted_wrt (\<lambda>x y. key x < key y) (take i xs @ xs ! i # drop (i + 1) xs)"
    using assms by simp
  then have "filter (\<lambda>x. key x \<noteq> k) (take i xs @ xs ! i # drop (i + 1) xs) = take i xs @ drop (i + 1) xs"
    using i(2) by (auto simp: sorted_wrt_append intro!: arg_cong2 [where f = append] filter_True)
  then show ?thesis
    using Inr i split by (metis image_eqI nth_mem)
next
  case (Inl i)
  note b = binary_search_by_Inl [OF strictly_sorted_parted [OF assms] Inl, simplified]
  have "filter (\<lambda>x. key x < k) (take i xs @ drop i xs) = take i xs"
    using b by (intro filter_parts) auto
  moreover have "filter (\<lambda>x. k < key x) (take i xs @ drop i xs) = drop i xs"
    unfolding filter_append using b by (auto simp: filter_empty_conv intro!: filter_True dest: less_asym)
  moreover have "k \<notin> key ` set (take i xs @ drop i xs)"
    using b unfolding set_append by fastforce
  ultimately show ?thesis using Inl by simp
qed

lemma set_remove_sorted:
  "strictly_sorted key xs \<Longrightarrow>
   set_remove key k xs = (filter (\<lambda>x. key x \<noteq> k) xs, k \<in> key ` set xs)"
  using search_by_key [of key xs k] by (auto simp: set_remove_def intro!: filter_True [symmetric])

lemma set_insert_sorted:
  "strictly_sorted key xs \<Longrightarrow>
   set_insert key v xs =
     (if key v \<in> key ` set xs then (xs, False)
      else (filter (\<lambda>x. key x < key v) xs @ v # filter (\<lambda>x. key v < key x) xs, True))"
  using search_by_key [of key xs "key v"] by (auto simp: set_insert_def)

lemma set_contains_sorted:
  "strictly_sorted key xs \<Longrightarrow> set_contains key k xs \<longleftrightarrow> k \<in> key ` set xs"
  using search_by_key [of key xs k] by (auto simp: set_contains_def)

lemma strictly_sorted_filter: "strictly_sorted key xs \<Longrightarrow> strictly_sorted key (filter P xs)"
  by (rule sorted_wrt_filter)

lemma strictly_sorted_insert:
  "strictly_sorted key xs \<Longrightarrow> strictly_sorted key (fst (set_insert key v xs))"
  by (auto simp: set_insert_sorted sorted_wrt_append strictly_sorted_filter)

lemma set_of_insert:
  "strictly_sorted key xs \<Longrightarrow> key v \<notin> key ` set xs \<Longrightarrow> set (fst (set_insert key v xs)) = insert v (set xs)"
  by (fastforce simp: set_insert_sorted)

lemma length_insert:
  "strictly_sorted key xs \<Longrightarrow> key v \<notin> key ` set xs \<Longrightarrow> length (fst (set_insert key v xs)) = Suc (length xs)"
proof -
  assume *: "strictly_sorted key xs" "key v \<notin> key ` set xs"
  have "length (filter (\<lambda>x. key x < key v) xs) + length (filter (\<lambda>x. key v < key x) xs) = length xs"
    using *(2) by (induction xs) (auto simp: neq_iff)
  with * show ?thesis by (simp add: set_insert_sorted)
qed

text \<open>\<open>OrderedSet::from\<close> of a vector without duplicate keys only sorts it.\<close>

lemma dedup_sorted: "strictly_sorted key xs \<Longrightarrow> dedup_by key xs = xs"
  by (induction key xs rule: dedup_by.induct) auto

lemma set_from_sorted: "strictly_sorted key xs \<Longrightarrow> set_from key xs = xs"
proof -
  assume *: "strictly_sorted key xs"
  then have "sorted (map key xs)"
    by (induction xs) (auto simp: less_imp_le)
  then show ?thesis using * by (simp add: set_from_def sorted_sort_id sort_key_id_if_sorted dedup_sorted)
qed

section \<open>The contract of a keyed vector\<close>

text \<open>
  What the pallet relies on: \<open>find\<close>ing an element by its key, inserting one whose key is new, removing
  one. Replacing an element (\<open>update_active\<close>) is removing and inserting it.
\<close>

locale keyed_store =
  fixes valid :: "'s \<Rightarrow> bool"
    and find_key :: "'s \<Rightarrow> 'k \<Rightarrow> 'a option"
    and put :: "'a \<Rightarrow> 's \<Rightarrow> 's"
    and del :: "'k \<Rightarrow> 's \<Rightarrow> 's"
    and key_of :: "'a \<Rightarrow> 'k"
  assumes valid_put: "valid s \<Longrightarrow> valid (put x s)"
    and valid_del: "valid s \<Longrightarrow> valid (del k s)"
    and find_put: "valid s \<Longrightarrow> find_key s (key_of x) = None \<Longrightarrow> find_key (put x s) = (find_key s)(key_of x \<mapsto> x)"
    and find_del: "valid s \<Longrightarrow> find_key (del k s) = (find_key s)(k := None)"
begin

lemma replace_valid: "valid s \<Longrightarrow> valid (put x (del (key_of x) s))"
  by (simp add: valid_put valid_del)

lemma find_replace:
  "valid s \<Longrightarrow> find_key (put x (del (key_of x) s)) = (find_key s)(key_of x \<mapsto> x)"
  by (simp add: find_put find_del valid_del)

lemma find_replace_same:
  "valid s \<Longrightarrow> find_key s (key_of x) = Some x \<Longrightarrow> find_key (put x (del (key_of x) s)) = find_key s"
  by (auto simp: find_replace)

end

definition find_by :: "('a \<Rightarrow> 'k) \<Rightarrow> 'a list \<Rightarrow> 'k \<Rightarrow> 'a option" where
  "find_by key xs k = find (\<lambda>x. key x = k) xs"

lemma find_by_Nil [simp]: "find_by key [] = Map.empty"
  by (auto simp: find_by_def)

lemma find_by_Some:
  "distinct (map key xs) \<Longrightarrow> find_by key xs k = Some x \<longleftrightarrow> x \<in> set xs \<and> key x = k"
  by (induction xs) (auto simp: find_by_def)

lemma find_by_None: "find_by key xs k = None \<longleftrightarrow> k \<notin> key ` set xs"
  by (auto simp: find_by_def find_None_iff)

lemma find_by_member: "find_by key xs k = Some x \<Longrightarrow> x \<in> set xs \<and> key x = k"
  by (auto simp: find_by_def find_Some_iff)

lemma map_ext_Some: "(\<And>k v. m k = Some v \<longleftrightarrow> m' k = Some v) \<Longrightarrow> m = m'"
  by (intro ext) (metis option.exhaust)

interpretation ordered_set: keyed_store
  "strictly_sorted (key :: 'a \<Rightarrow> 'k::linorder)" "find_by key"
  "\<lambda>x xs. fst (set_insert key x xs)" "\<lambda>k xs. fst (set_remove key k xs)" key for key
proof (unfold_locales, goal_cases)
  case (3 xs x)
  then have k: "key x \<notin> key ` set xs" by (simp add: find_by_None)
  note d = strictly_sorted_distinct [OF strictly_sorted_insert [OF 3(1), of x]]
    and d' = strictly_sorted_distinct [OF 3(1)]
  show ?case
    by (rule map_ext_Some)
      (use k in \<open>auto simp: find_by_Some [OF d] find_by_Some [OF d'] set_of_insert [OF 3(1) k] fun_upd_def
        image_iff split: if_splits\<close>)
next
  case (4 xs k)
  note d = strictly_sorted_distinct [OF 4]
    and d' = strictly_sorted_distinct [OF strictly_sorted_filter [OF 4, of "\<lambda>x. key x \<noteq> k"]]
  show ?case
    by (rule map_ext_Some)
      (auto simp: set_remove_sorted [OF 4] find_by_Some [OF d] find_by_Some [OF d'] fun_upd_def)
qed (auto simp: strictly_sorted_insert set_remove_sorted strictly_sorted_filter)

section \<open>Vectors from greatest to least\<close>

abbreviation descending :: "('a \<Rightarrow> 'k::linorder) \<Rightarrow> 'a list \<Rightarrow> bool" where
  "descending key xs \<equiv> sorted_wrt (\<lambda>x y. key y \<le> key x) xs"

text \<open>The reference definition: behind every element that is not smaller, before the first smaller one.\<close>

fun place :: "('a \<Rightarrow> 'k::linorder) \<Rightarrow> 'a \<Rightarrow> 'a list \<Rightarrow> 'a list" where
  "place key d [] = [d]"
| "place key d (x # xs) = (if key d \<le> key x then x # place key d xs else d # x # xs)"

lemma place_border:
  "\<lbrakk>\<forall>x\<in>set xs. key d \<le> key x; \<forall>x\<in>set (take 1 ys). key x < key d\<rbrakk> \<Longrightarrow> place key d (xs @ ys) = xs @ d # ys"
  by (induction xs; cases ys) auto

lemma descending_parted:
  "descending key xs \<Longrightarrow> parted (\<lambda>i. cmp k (key (xs ! i))) (length xs)"
  unfolding parted_def sorted_wrt_iff_nth_less cmp_simps by (meson le_less_trans less_le_trans)

lemma skip_equal_spec:
  assumes "i \<le> length xs"
  shows "i \<le> skip_equal key k xs i \<and> skip_equal key k xs i \<le> length xs \<and>
    (\<forall>j. i \<le> j \<longrightarrow> j < skip_equal key k xs i \<longrightarrow> key (xs ! j) = k) \<and>
    (skip_equal key k xs i < length xs \<longrightarrow> key (xs ! skip_equal key k xs i) \<noteq> k)"
  using assms
proof (induction key k xs i rule: skip_equal.induct)
  case (1 key k xs i)
  show ?case
  proof (cases "i < length xs \<and> key (xs ! i) = k")
    case True
    then have e: "skip_equal key k xs i = skip_equal key k xs (i + 1)"
      by (subst skip_equal.simps) simp
    have "j = i \<or> i + 1 \<le> j" if "i \<le> j" for j using that by auto
    with 1(1) [OF True] True show ?thesis unfolding e by fastforce
  next
    case False
    then have "skip_equal key k xs i = i" by (subst skip_equal.simps) (simp only: if_False)
    with 1(2) False show ?thesis by auto
  qed
qed

lemma descending_nth: "descending key xs \<Longrightarrow> i \<le> j \<Longrightarrow> j < length xs \<Longrightarrow> key (xs ! j) \<le> key (xs ! i)"
  by (cases "i = j") (auto simp: sorted_wrt_iff_nth_less)

text \<open>The insertion of the code is the reference definition.\<close>

lemma insert_greatest_to_least_place:
  assumes "descending key xs"
  shows "insert_greatest_to_least key d xs = place key d xs"
proof (cases "xs \<noteq> [] \<and> key (last xs) = key d")
  case True
  then have "\<forall>x\<in>set xs. key d \<le> key x"
    using descending_nth [OF assms, of _ "length xs - 1"] by (fastforce simp: in_set_conv_nth last_conv_nth)
  with True show ?thesis
    using place_border [of xs key d "[]"] by (simp add: insert_greatest_to_least_def)
next
  case False
  show ?thesis
  proof (cases "binary_search_by (\<lambda>x. cmp (key d) (key x)) xs")
    case (Inl i)
    note b = binary_search_by_Inl [OF descending_parted [OF assms] Inl, simplified]
    then have "place key d (take i xs @ drop i xs) = insert_at i d xs"
      unfolding insert_at_def by (intro place_border) (auto dest: in_set_takeD less_imp_le)
    then show ?thesis using False Inl by (auto simp: insert_greatest_to_least_def)
  next
    case (Inr i)
    then have i: "i < length xs" "key (xs ! i) = key d"
      using binary_search_by_Inr by fastforce+
    define n where "n = skip_equal key (key d) xs (i + 1)"
    have n: "i + 1 \<le> n" "n \<le> length xs" "\<forall>j. i + 1 \<le> j \<longrightarrow> j < n \<longrightarrow> key (xs ! j) = key d"
      "n < length xs \<longrightarrow> key (xs ! n) \<noteq> key d"
      using skip_equal_spec [of "i + 1" xs key "key d"] i(1) by (auto simp: n_def)
    have "key d \<le> key (xs ! j)" if "j < n" for j
      using that n i descending_nth [OF assms, of j i] by (cases "j \<le> i") auto
    then have "\<forall>x\<in>set (take n xs). key d \<le> key x"
      using n(2) by (auto simp: in_set_conv_nth)
    moreover have "\<forall>x\<in>set (take 1 (drop n xs)). key x < key d"
      using n i descending_nth [OF assms, of i n] by (cases "n < length xs") (auto simp: take_Suc_conv_app_nth take_Suc hd_drop_conv_nth)
    ultimately have "place key d (take n xs @ drop n xs) = insert_at n d xs"
      unfolding insert_at_def by (rule place_border)
    then show ?thesis using False Inr by (auto simp: insert_greatest_to_least_def n_def)
  qed
qed

lemma mset_place [simp]: "mset (place key d xs) = add_mset d (mset xs)"
  by (induction xs) auto

lemma set_place [simp]: "set (place key d xs) = insert d (set xs)"
  by (induction xs) auto

lemma length_place [simp]: "length (place key d xs) = Suc (length xs)"
  by (induction xs) auto

lemma place_not_Nil [simp]: "place key d xs \<noteq> []"
  by (cases xs) auto

lemma descending_place: "descending key xs \<Longrightarrow> descending key (place key d xs)"
  by (induction xs) (auto intro: order_trans)

lemma sort_greatest_to_least_by_simps [simp]:
  "mset (sort_greatest_to_least_by key xs) = mset xs"
  "set (sort_greatest_to_least_by key xs) = set xs"
  "length (sort_greatest_to_least_by key xs) = length xs"
  by (simp_all add: sort_greatest_to_least_by_def)

lemma descending_sort: "descending key (sort_greatest_to_least_by key xs)"
  using sorted_sort_key [of key "rev xs"]
  by (simp add: sort_greatest_to_least_by_def sorted_wrt_rev sorted_map)

end
