(* ===== verification/Staking_Types.thy ===== *)
theory Staking_Types
  imports Sorted_Vec
begin

text \<open>
  The data of the pallet \<open>pallets/parachain-staking\<close> (\<open>types.rs\<close>, \<open>delegation_requests.rs\<close>,
  \<open>auto_compound.rs\<close>, \<open>inflation.rs\<close>) with the operations that need no storage: stakes and their
  order, the sorted vectors of delegations, the vectors of auto-compounding shares, scheduled
  requests and rounds.

  A balance is a \<open>u128\<close>, a round index a \<open>u64\<close>; a \<open>Perbill\<close> and a \<open>Percent\<close> are their parts.
\<close>

section \<open>Stakes\<close>

type_synonym round_index = u64
type_synonym perbill = u32
type_synonym percent = u8

datatype stake = Stake (st_power: balance) (st_amount: balance)

text \<open>The derived order compares the fields in the order of the declaration.\<close>

instantiation stake :: linorder
begin

definition less_eq_stake :: "stake \<Rightarrow> stake \<Rightarrow> bool" where
  "less_eq_stake a b \<longleftrightarrow> st_power a < st_power b \<or> st_power a = st_power b \<and> st_amount a \<le> st_amount b"

definition less_stake :: "stake \<Rightarrow> stake \<Rightarrow> bool" where
  "less_stake a b \<longleftrightarrow> st_power a < st_power b \<or> st_power a = st_power b \<and> st_amount a < st_amount b"

instance
  by standard (auto simp: less_eq_stake_def less_stake_def stake.expand)

end

definition new_stake :: "balance \<Rightarrow> balance \<Rightarrow> stake" where
  "new_stake amount pow = Stake pow amount"

definition stake_zero :: stake where
  "stake_zero = Stake 0 0"

definition stake_is_zero :: "stake \<Rightarrow> bool" where
  "stake_is_zero s = (st_amount s = 0 \<and> st_power s = 0)"

definition stake_max_value :: stake where
  "stake_max_value = Stake (2 ^ 128 - 1) (2 ^ 128 - 1)"

definition stake_add :: "stake \<Rightarrow> stake \<Rightarrow> stake" where
  "stake_add a b = Stake (saturating_add 128 (st_power a) (st_power b)) (saturating_add 128 (st_amount a) (st_amount b))"

definition stake_sub :: "stake \<Rightarrow> stake \<Rightarrow> stake" where
  "stake_sub a b = Stake (st_power a - st_power b) (st_amount a - st_amount b)"

text \<open>The derived operator \<open>-\<close>.\<close>

definition stake_minus :: "stake \<Rightarrow> stake \<Rightarrow> stake" where
  "stake_minus a b = Stake (wrapping_sub 128 (st_power a) (st_power b)) (wrapping_sub 128 (st_amount a) (st_amount b))"

section \<open>Bonds and delegations\<close>

record bond =
  owner :: account_id
  bond_stake :: stake

datatype collator_status = Active | Idle | Leaving round_index

record bond_with_auto_compound =
  bac_owner :: account_id
  bac_stake :: stake
  bac_auto_compound :: percent

record collator_snapshot =
  snap_stake :: stake
  snap_delegations :: "bond_with_auto_compound list"
  snap_total :: stake

record delayed_payout =
  round_issuance_of :: balance
  total_staking_reward :: balance
  payout_commission :: perbill

record candidate_bond_less_request =
  less_amount :: balance
  less_when_executable :: round_index

record delegations =
  dels :: "bond list"
  dels_total :: stake

datatype capacity_status = Full | Empty | Partial

record candidate_metadata =
  self_stake :: stake
  delegation_count :: u32
  total_stake_counted :: stake
  lowest_top_delegation :: stake
  highest_bottom_delegation :: stake
  lowest_bottom_delegation :: stake
  top_capacity :: capacity_status
  bottom_capacity :: capacity_status
  bond_less_request :: "candidate_bond_less_request option"
  status :: collator_status

datatype delegator_added = AddedToTop stake | AddedToBottom

datatype delegator_status = DelegatorActive | DelegatorLeaving round_index

record delegator =
  delegator_id :: account_id
  delegations :: "bond list"
  total :: stake
  less_total :: stake
  delegator_status :: delegator_status

record round_info =
  current :: round_index
  first :: block_number
  round_length :: u32

record parachain_bond_config =
  pb_account :: account_id
  pb_percent :: percent

datatype bond_adjust = Increase stake | DecreaseBond

definition empty_delegations :: delegations where
  "empty_delegations = \<lparr>dels = [], dels_total = stake_zero\<rparr>"

definition sort_greatest_to_least :: "delegations \<Rightarrow> delegations" where
  "sort_greatest_to_least d = d\<lparr>dels := sort_greatest_to_least_by bond_stake (dels d)\<rparr>"

definition insert_sorted_greatest_to_least :: "bond \<Rightarrow> delegations \<Rightarrow> delegations" where
  "insert_sorted_greatest_to_least delegation d =
     d\<lparr>dels_total := stake_add (dels_total d) (bond_stake delegation),
       dels := insert_greatest_to_least bond_stake delegation (dels d)\<rparr>"

definition capacity_of :: "u32 \<Rightarrow> delegations \<Rightarrow> capacity_status" where
  "capacity_of max_len d =
     (if length (dels d) mod 2 ^ 32 \<ge> max_len then Full else if dels d = [] then Empty else Partial)"

definition lowest_delegation_amount :: "delegations \<Rightarrow> stake" where
  "lowest_delegation_amount d = (if dels d = [] then stake_zero else bond_stake (last (dels d)))"

definition highest_delegation_amount :: "delegations \<Rightarrow> stake" where
  "highest_delegation_amount d = (if dels d = [] then stake_zero else bond_stake (hd (dels d)))"

definition new_candidate_metadata :: "stake \<Rightarrow> candidate_metadata" where
  "new_candidate_metadata st =
     \<lparr>self_stake = st, delegation_count = 0, total_stake_counted = st,
      lowest_top_delegation = stake_zero, highest_bottom_delegation = stake_zero,
      lowest_bottom_delegation = stake_zero, top_capacity = Empty, bottom_capacity = Empty,
      bond_less_request = None, status = Active\<rparr>"

definition is_active :: "candidate_metadata \<Rightarrow> bool" where
  "is_active m = (status m = Active)"

definition is_leaving :: "candidate_metadata \<Rightarrow> bool" where
  "is_leaving m = (case status m of Leaving _ \<Rightarrow> True | _ \<Rightarrow> False)"

definition new_delegator :: "account_id \<Rightarrow> account_id \<Rightarrow> stake \<Rightarrow> delegator" where
  "new_delegator id' collator st =
     \<lparr>delegator_id = id', delegations = set_from owner [\<lparr>owner = collator, bond_stake = st\<rparr>],
      total = st, less_total = stake_zero, delegator_status = DelegatorActive\<rparr>"

definition delegator_add_delegation :: "bond \<Rightarrow> delegator \<Rightarrow> delegator \<times> bool" where
  "delegator_add_delegation b d =
     (let (ds, inserted) = set_insert owner b (delegations d) in
      if inserted then (d\<lparr>delegations := ds, total := stake_add (total d) (bond_stake b)\<rparr>, True)
      else (d, False))"

definition get_bond_amount :: "account_id \<Rightarrow> delegator \<Rightarrow> stake option" where
  "get_bond_amount collator d = map_option bond_stake (find (\<lambda>b. owner b = collator) (delegations d))"

section \<open>Rounds\<close>

text \<open>The plain subtraction of block numbers wraps around.\<close>

definition should_update :: "round_info \<Rightarrow> block_number \<Rightarrow> bool" where
  "should_update r now = (wrapping_sub 32 now (first r) \<ge> round_length r)"

definition round_update :: "block_number \<Rightarrow> round_info \<Rightarrow> round_info" where
  "round_update now r = r\<lparr>current := saturating_add 64 (current r) 1, first := now\<rparr>"

section \<open>Scheduled requests (delegation_requests.rs)\<close>

datatype delegation_action = Revoke (action_amount: stake) | Decrease (action_amount: stake)

definition is_revoke :: "delegation_action \<Rightarrow> bool" where
  "is_revoke a = (case a of Revoke _ \<Rightarrow> True | Decrease _ \<Rightarrow> False)"

record scheduled_request =
  req_delegator :: account_id
  when_executable :: round_index
  req_action :: delegation_action

record cancelled_scheduled_request =
  cancelled_when :: round_index
  cancelled_action :: delegation_action

definition cancelled_of :: "scheduled_request \<Rightarrow> cancelled_scheduled_request" where
  "cancelled_of r = \<lparr>cancelled_when = when_executable r, cancelled_action = req_action r\<rparr>"

fun position :: "('a \<Rightarrow> bool) \<Rightarrow> 'a list \<Rightarrow> nat option" where
  "position P [] = None"
| "position P (x # xs) = (if P x then Some 0 else map_option Suc (position P xs))"

definition remove_at :: "nat \<Rightarrow> 'a list \<Rightarrow> 'a list" where
  "remove_at i xs = take i xs @ drop (i + 1) xs"

definition cancel_request_with_state ::
  "account_id \<Rightarrow> delegator \<Rightarrow> scheduled_request list \<Rightarrow>
   scheduled_request option \<times> delegator \<times> scheduled_request list" where
  "cancel_request_with_state who state reqs =
     (case position (\<lambda>r. req_delegator r = who) reqs of
        None \<Rightarrow> (None, state, reqs)
      | Some i \<Rightarrow>
          (Some (reqs ! i),
           state\<lparr>less_total := stake_sub (less_total state) (action_amount (req_action (reqs ! i)))\<rparr>,
           remove_at i reqs))"

section \<open>Auto-compounding shares (auto_compound.rs)\<close>

record auto_compound_config =
  acc_delegator :: account_id
  acc_value :: percent

definition get_for_delegator :: "account_id \<Rightarrow> auto_compound_config list \<Rightarrow> percent option" where
  "get_for_delegator who cs =
     (case binary_search_by (\<lambda>d. cmp (acc_delegator d) who) cs of
        Inr i \<Rightarrow> Some (acc_value (cs ! i))
      | Inl _ \<Rightarrow> None)"

definition set_for_delegator ::
  "account_id \<Rightarrow> percent \<Rightarrow> auto_compound_config list \<Rightarrow> auto_compound_config list \<times> bool" where
  "set_for_delegator who v cs =
     (case binary_search_by (\<lambda>d. cmp (acc_delegator d) who) cs of
        Inr i \<Rightarrow> if acc_value (cs ! i) = v then (cs, False) else (cs[i := (cs ! i)\<lparr>acc_value := v\<rparr>], True)
      | Inl i \<Rightarrow> (insert_at i \<lparr>acc_delegator = who, acc_value = v\<rparr> cs, True))"

definition remove_for_delegator ::
  "account_id \<Rightarrow> auto_compound_config list \<Rightarrow> auto_compound_config list \<times> bool" where
  "remove_for_delegator who cs =
     (case binary_search_by (\<lambda>d. cmp (acc_delegator d) who) cs of
        Inr i \<Rightarrow> (remove_at i cs, True)
      | Inl _ \<Rightarrow> (cs, False))"

section \<open>Inflation data (inflation.rs)\<close>

record perbill_range =
  range_min :: perbill
  range_ideal :: perbill

definition range_is_valid :: "perbill_range \<Rightarrow> bool" where
  "range_is_valid r = (range_ideal r \<ge> range_min r)"

record inflation_info_without_round =
  wr_ideal_staked :: perbill
  wr_annual :: perbill_range
  wr_decay_rate :: perbill

record inflation_info =
  ideal_staked :: perbill
  annual :: perbill_range
  round_inflation :: perbill_range
  decay_rate :: perbill

definition BLOCKS_PER_YEAR :: u32 where
  "BLOCKS_PER_YEAR = 31557600 div 12"

section \<open>Errors, events, configuration and storage\<close>

datatype staking_error =
    DelegatorDNE
  | DelegatorDNEinTopNorBottom
  | DelegatorDNEInDelegatorSet
  | CandidateDNE
  | DelegationDNE
  | DelegatorExists
  | CandidateExists
  | CandidateBondBelowMin
  | InsufficientBalance
  | DelegatorBondBelowMin
  | DelegationBelowMin
  | AlreadyOffline
  | AlreadyActive
  | DelegatorAlreadyLeaving
  | DelegatorNotLeaving
  | DelegatorCannotLeaveYet
  | CannotDelegateIfLeaving
  | CandidateAlreadyLeaving
  | CandidateNotLeaving
  | CandidateCannotLeaveYet
  | CannotGoOnlineIfLeaving
  | ExceedMaxDelegationsPerDelegator
  | AlreadyDelegatedCandidate
  | InvalidSchedule
  | CannotSetBelowMin
  | RoundLengthMustBeGreaterThanTotalSelectedCollators
  | NoWritingSameValue
  | TooLowCandidateCountWeightHintJoinCandidates
  | TooLowCandidateCountWeightHintCancelLeaveCandidates
  | TooLowCandidateCountToLeaveCandidates
  | TooLowDelegationCountToDelegate
  | TooLowCandidateDelegationCountToDelegate
  | TooLowCandidateDelegationCountToLeaveCandidates
  | TooLowDelegationCountToLeaveDelegators
  | PendingCandidateRequestsDNE
  | PendingCandidateRequestAlreadyExists
  | PendingCandidateRequestNotDueYet
  | PendingDelegationRequestDNE
  | PendingDelegationRequestAlreadyExists
  | PendingDelegationRequestNotDueYet
  | CannotDelegateLessThanOrEqualToLowestBottomWhenFull
  | PendingDelegationRevoke
  | TooLowDelegationCountToAutoCompound
  | TooLowCandidateAutoCompoundingDelegationCountToAutoCompound
  | TooLowCandidateAutoCompoundingDelegationCountToDelegate
  | AlreadyBootstrapped

type_synonym serr = "staking_error dispatch_error"

datatype staking_event =
    NewRound block_number round_index u32 stake
  | JoinedCollatorCandidates account_id stake stake
  | CollatorChosen round_index account_id stake
  | CandidateBondLessRequested account_id balance round_index
  | CandidateBondedMore account_id stake stake
  | CandidateBondedLess account_id stake stake
  | CandidateWentOffline account_id
  | CandidateBackOnline account_id
  | CandidateScheduledExit round_index account_id round_index
  | CancelledCandidateExit account_id
  | CancelledCandidateBondLess account_id balance round_index
  | CandidateLeft account_id stake stake
  | DelegationDecreaseScheduled account_id account_id stake round_index
  | DelegationIncreased account_id account_id stake bool
  | DelegationDecreased account_id account_id stake bool
  | DelegatorExitScheduled round_index account_id round_index
  | DelegationRevocationScheduled round_index account_id account_id round_index
  | DelegatorLeft account_id stake
  | DelegationRevoked account_id account_id stake
  | DelegationKicked account_id account_id stake
  | DelegatorExitCancelled account_id
  | CancelledDelegationRequest account_id cancelled_scheduled_request account_id
  | Delegation account_id stake account_id delegator_added percent
  | DelegatorLeftCandidate account_id account_id stake stake
  | Rewarded account_id balance
  | ReservedForParachainBond account_id balance
  | ParachainBondAccountSet account_id account_id
  | ParachainBondReservePercentSet percent percent
  | InflationSet perbill perbill perbill perbill
  | StakeExpectationSet perbill "perbill option"
  | TotalSelectedSet u32 u32
  | CollatorCommissionSet perbill perbill
  | BlocksPerRoundSet round_index block_number u32 u32 perbill perbill
  | AutoCompoundSet account_id account_id percent
  | Compounded account_id account_id balance

text \<open>
  The configuration: the constants of \<open>Config\<close>; the currency, the hooks and the runtime behind it,
  which act on the storage of other pallets, the component \<open>staking_env\<close>; and the libraries for
  parts per billion, percentages and fixed-point numbers of type \<open>'fx\<close>.
\<close>

record ('env, 'fx) staking_config =
  MinBlocksPerRound :: u32
  LeaveCandidatesDelay :: round_index
  CandidateBondLessDelay :: round_index
  LeaveDelegatorsDelay :: round_index
  RevokeDelegationDelay :: round_index
  DelegationBondLessDelay :: round_index
  RewardPaymentDelay :: round_index
  MinSelectedCandidates :: u32
  MaxTopDelegationsPerCandidate :: u32
  MaxBottomDelegationsPerCandidate :: u32
  MaxDelegationsPerDelegator :: u32
  MinCandidateStk :: balance
  MinDelegation :: balance
  MinDelegatorStk :: balance
  monetary_governance_origin :: "origin \<Rightarrow> serr + unit"
  block_author :: "'env \<Rightarrow> account_id"
  on_new_round :: "round_index \<Rightarrow> 'env \<Rightarrow> 'env"
  hook_power :: "account_id \<Rightarrow> balance \<Rightarrow> 'env \<Rightarrow> serr + stake"
  get_collator_stakable_balance :: "account_id \<Rightarrow> 'env \<Rightarrow> serr + balance"
  payout_collator_reward :: "round_index \<Rightarrow> account_id \<Rightarrow> balance \<Rightarrow> 'env \<Rightarrow> 'env"
  hook_compound :: "account_id \<Rightarrow> balance \<Rightarrow> 'env \<Rightarrow> (serr + unit) \<times> 'env"
  free_balance :: "'env \<Rightarrow> account_id \<Rightarrow> balance"
  total_issuance :: "'env \<Rightarrow> balance"
  deposit_into_existing :: "account_id \<Rightarrow> balance \<Rightarrow> 'env \<Rightarrow> (balance \<times> 'env) option"
  perbill_from_rational :: "balance \<Rightarrow> balance \<Rightarrow> perbill"
  perbill_mul :: "perbill \<Rightarrow> balance \<Rightarrow> balance"
  perbill_add :: "perbill \<Rightarrow> perbill \<Rightarrow> perbill"
  perbill_sub :: "perbill \<Rightarrow> perbill \<Rightarrow> perbill"
  perbill_times :: "perbill \<Rightarrow> perbill \<Rightarrow> perbill"
  perbill_from_parts :: "u32 \<Rightarrow> perbill"
  saturating_reciprocal_mul_floor :: "perbill \<Rightarrow> balance \<Rightarrow> balance"
  percent_mul :: "percent \<Rightarrow> balance \<Rightarrow> balance"
  percent_mul_ceil :: "percent \<Rightarrow> balance \<Rightarrow> balance"
  compute_inflation :: "perbill \<Rightarrow> perbill \<Rightarrow> perbill \<Rightarrow> perbill"
  fx_from_num :: "nat \<Rightarrow> 'fx"
  fx_add :: "'fx \<Rightarrow> 'fx \<Rightarrow> 'fx"
  fx_sub :: "'fx \<Rightarrow> 'fx \<Rightarrow> 'fx"
  fx_mul :: "'fx \<Rightarrow> 'fx \<Rightarrow> 'fx"
  fx_div :: "'fx \<Rightarrow> 'fx \<Rightarrow> 'fx option"
  floatpow :: "'fx \<Rightarrow> 'fx \<Rightarrow> 'fx option"
  fx_ceil_u32 :: "'fx \<Rightarrow> u32"

text \<open>
  The storage of the pallet. \<open>AtStake\<close> is iterated over in its second key. The locks that the pallet
  sets with its two identifiers are the components \<open>collator_locks\<close> and \<open>delegator_locks\<close>.
\<close>

record 'env staking =
  collator_commission :: perbill
  total_selected :: u32
  parachain_bond_info :: parachain_bond_config
  round_state :: round_info
  delegator_state :: "account_id \<rightharpoonup> delegator"
  candidate_info :: "account_id \<rightharpoonup> candidate_metadata"
  scheduled_requests :: "account_id \<Rightarrow> scheduled_request list"
  auto_compounding :: "account_id \<Rightarrow> auto_compound_config list"
  top_delegations :: "account_id \<rightharpoonup> delegations"
  bottom_delegations :: "account_id \<rightharpoonup> delegations"
  selected_candidates :: "account_id list"
  total_locked :: stake
  candidate_pool :: "bond list"
  at_stake :: "round_index \<Rightarrow> (account_id \<times> collator_snapshot) list"
  delayed_payouts :: "round_index \<rightharpoonup> delayed_payout"
  staked :: "round_index \<Rightarrow> stake"
  inflation_config :: inflation_info
  points :: "round_index \<Rightarrow> u32"
  awarded_pts :: "round_index \<Rightarrow> account_id \<Rightarrow> u32"
  collator_locks :: "account_id \<rightharpoonup> balance"
  delegator_locks :: "account_id \<rightharpoonup> balance"
  staking_events :: "staking_event list"
  staking_env :: 'env

definition deposit_staking_event :: "staking_event \<Rightarrow> 'env staking \<Rightarrow> 'env staking" where
  "deposit_staking_event e s = s\<lparr>staking_events := staking_events s @ [e]\<rparr>"

definition is_delegator :: "account_id \<Rightarrow> 'env staking \<Rightarrow> bool" where
  "is_delegator acc s = (delegator_state s acc \<noteq> None)"

definition is_candidate :: "account_id \<Rightarrow> 'env staking \<Rightarrow> bool" where
  "is_candidate acc s = (candidate_info s acc \<noteq> None)"

definition is_selected_candidate :: "account_id \<Rightarrow> 'env staking \<Rightarrow> bool" where
  "is_selected_candidate acc s = is_ok (binary_search_by (\<lambda>x. cmp x acc) (selected_candidates s))"

definition can_author :: "account_id \<Rightarrow> 'env staking \<Rightarrow> bool" where
  "can_author acc s = is_selected_candidate acc s"

definition get_delegator_stakable_free_balance ::
  "('env, 'fx) staking_config \<Rightarrow> account_id \<Rightarrow> 'env staking \<Rightarrow> serr + stake" where
  "get_delegator_stakable_free_balance cfg acc s =
     bind_r (hook_power cfg acc (free_balance cfg (staking_env s) acc) (staking_env s)) (\<lambda>stakable.
     Inr (case delegator_state s acc of
            Some st \<Rightarrow> stake_sub stakable (total st)
          | None \<Rightarrow> stakable))"

definition get_collator_stakable_free_balance ::
  "('env, 'fx) staking_config \<Rightarrow> account_id \<Rightarrow> 'env staking \<Rightarrow> serr + balance" where
  "get_collator_stakable_free_balance cfg acc s =
     bind_r (get_collator_stakable_balance cfg acc (staking_env s)) (\<lambda>balance.
     Inr (case candidate_info s acc of
            Some info \<Rightarrow> balance - st_amount (self_stake info)
          | None \<Rightarrow> balance))"

definition update_active :: "account_id \<Rightarrow> stake \<Rightarrow> 'env staking \<Rightarrow> 'env staking" where
  "update_active candidate tot s =
     s\<lparr>candidate_pool :=
         fst (set_insert owner \<lparr>owner = candidate, bond_stake = tot\<rparr>
           (fst (set_remove owner candidate (candidate_pool s))))\<rparr>"

section \<open>Locks and requests\<close>

definition set_delegator_lock :: "account_id \<Rightarrow> balance option \<Rightarrow> 'env staking \<Rightarrow> 'env staking" where
  "set_delegator_lock who a s = s\<lparr>delegator_locks := (delegator_locks s)(who := a)\<rparr>"

definition set_collator_lock :: "account_id \<Rightarrow> balance option \<Rightarrow> 'env staking \<Rightarrow> 'env staking" where
  "set_collator_lock who a s = s\<lparr>collator_locks := (collator_locks s)(who := a)\<rparr>"

definition adjust_bond_lock ::
  "('env, 'fx) staking_config \<Rightarrow> bond_adjust \<Rightarrow> delegator \<Rightarrow> 'env staking \<Rightarrow> serr + 'env staking" where
  "adjust_bond_lock cfg adj d s =
     bind_r (case adj of
         Increase st \<Rightarrow>
           bind_r (get_delegator_stakable_free_balance cfg (delegator_id d) s) (\<lambda>free.
           bind_r (ensure (free \<ge> st) (Module InsufficientBalance)) (\<lambda>_.
           ensure (st \<le> total d) (Other ''Invalid additional_required_balance'')))
       | DecreaseBond \<Rightarrow> Inr ()) (\<lambda>_.
     Inr (if stake_is_zero (total d) then set_delegator_lock (delegator_id d) None s
          else set_delegator_lock (delegator_id d) (Some (st_amount (total d))) s))"

definition total_sub ::
  "('env, 'fx) staking_config \<Rightarrow> stake \<Rightarrow> delegator \<Rightarrow> 'env staking \<Rightarrow> serr + (delegator \<times> 'env staking)" where
  "total_sub cfg st d s =
     (let d' = d\<lparr>total := stake_sub (total d) st\<rparr> in
      bind_r (adjust_bond_lock cfg DecreaseBond d' s) (\<lambda>s'. Inr (d', s')))"

text \<open>The amount of the last bond whose owner is sought, as the closures of the source record it.\<close>

definition taken :: "account_id \<Rightarrow> bond list \<Rightarrow> bond option" where
  "taken who bs = (case filter (\<lambda>b. owner b = who) bs of [] \<Rightarrow> None | ms \<Rightarrow> Some (last ms))"

definition others :: "account_id \<Rightarrow> bond list \<Rightarrow> bond list" where
  "others who bs = filter (\<lambda>b. owner b \<noteq> who) bs"

definition adjusted :: "(stake \<Rightarrow> stake) \<Rightarrow> account_id \<Rightarrow> bond list \<Rightarrow> bond list" where
  "adjusted f who bs = map (\<lambda>b. if owner b \<noteq> who then b else b\<lparr>bond_stake := f (bond_stake b)\<rparr>) bs"

text \<open>\<open>Delegator::rm_delegation\<close>; the \<open>expect\<close> on the lock panics if lowering it fails.\<close>

definition rm_delegation ::
  "('env, 'fx) staking_config \<Rightarrow> account_id \<Rightarrow> delegator \<Rightarrow> 'env staking \<Rightarrow>
   (stake option \<times> delegator \<times> 'env staking) option" where
  "rm_delegation cfg collator d s =
     (case taken collator (delegations d) of
        None \<Rightarrow> Some (None, d, s)
      | Some b \<Rightarrow>
          (case total_sub cfg (bond_stake b)
                  (d\<lparr>delegations := set_from owner (others collator (delegations d))\<rparr>) s of
             Inl _ \<Rightarrow> None
           | Inr (d', s') \<Rightarrow> Some (Some (total d'), d', s')))"

definition delegation_remove_request_with_state ::
  "account_id \<Rightarrow> account_id \<Rightarrow> delegator \<Rightarrow> 'env staking \<Rightarrow> delegator \<times> 'env staking" where
  "delegation_remove_request_with_state collator who state s =
     (let reqs = scheduled_requests s collator in
      case position (\<lambda>r. req_delegator r = who) reqs of
        None \<Rightarrow> (state, s)
      | Some i \<Rightarrow>
          (state\<lparr>less_total := stake_sub (less_total state) (action_amount (req_action (reqs ! i)))\<rparr>,
           s\<lparr>scheduled_requests := (scheduled_requests s)(collator := remove_at i reqs)\<rparr>))"

definition delegation_request_exists :: "account_id \<Rightarrow> account_id \<Rightarrow> 'env staking \<Rightarrow> bool" where
  "delegation_request_exists collator who s = list_ex (\<lambda>r. req_delegator r = who) (scheduled_requests s collator)"

definition delegation_request_revoke_exists :: "account_id \<Rightarrow> account_id \<Rightarrow> 'env staking \<Rightarrow> bool" where
  "delegation_request_revoke_exists collator who s =
     list_ex (\<lambda>r. req_delegator r = who \<and> is_revoke (req_action r)) (scheduled_requests s collator)"

definition remove_auto_compound :: "account_id \<Rightarrow> account_id \<Rightarrow> 'env staking \<Rightarrow> 'env staking" where
  "remove_auto_compound candidate who s =
     (case remove_for_delegator who (auto_compounding s candidate) of
        (cs, True) \<Rightarrow> s\<lparr>auto_compounding := (auto_compounding s)(candidate := cs)\<rparr>
      | (_, False) \<Rightarrow> s)"

definition auto_compound :: "account_id \<Rightarrow> account_id \<Rightarrow> 'env staking \<Rightarrow> percent" where
  "auto_compound candidate who s = unwrap_or (get_for_delegator who (auto_compounding s candidate)) 0"

end
