(* ===== verification/Staking_Candidates.thy ===== *)
theory Staking_Candidates
  imports Staking_Types
begin

text \<open>
  The methods of \<open>CandidateMetadata\<close> (\<open>types.rs\<close>). A method takes the metadata \<open>m\<close> (\<open>&mut self\<close>) and
  the storage and returns both; its caller writes \<open>m\<close> back. A method fails before it changes
  anything, so an error carries no state. \<^const>\<open>None\<close> is a panic of an \<open>expect\<close> or an index.
\<close>

type_synonym 'env cand_result = "(serr + (bool \<times> candidate_metadata \<times> 'env staking)) option"

section \<open>Self bond\<close>

definition schedule_leave ::
  "('env, 'fx) staking_config \<Rightarrow> 'env staking \<Rightarrow> candidate_metadata \<Rightarrow> serr + (round_index \<times> round_index \<times> candidate_metadata)" where
  "schedule_leave cfg s m =
     bind_r (ensure (\<not> is_leaving m) (Module CandidateAlreadyLeaving)) (\<lambda>_.
     let now = current (round_state s);
         when = wrapping_add 64 now (LeaveCandidatesDelay cfg) in
     Inr (now, when, m\<lparr>status := Leaving when\<rparr>))"

definition can_leave :: "'env staking \<Rightarrow> candidate_metadata \<Rightarrow> serr + unit" where
  "can_leave s m =
     (case status m of
        Leaving when \<Rightarrow> ensure (current (round_state s) \<ge> when) (Module CandidateCannotLeaveYet)
      | _ \<Rightarrow> Inl (Module CandidateNotLeaving))"

definition cand_go_offline :: "candidate_metadata \<Rightarrow> candidate_metadata" where
  "cand_go_offline m = m\<lparr>status := Idle\<rparr>"

definition cand_go_online :: "candidate_metadata \<Rightarrow> candidate_metadata" where
  "cand_go_online m = m\<lparr>status := Active\<rparr>"

definition bond_more ::
  "account_id \<Rightarrow> stake \<Rightarrow> candidate_metadata \<Rightarrow> 'env staking \<Rightarrow> candidate_metadata \<times> 'env staking" where
  "bond_more who inc m s =
     (let m' = m\<lparr>self_stake := stake_add (self_stake m) inc,
                total_stake_counted := stake_add (total_stake_counted m) inc\<rparr> in
      (m', deposit_staking_event (CandidateBondedMore who inc (self_stake m'))
             (set_collator_lock who (Some (st_amount (self_stake m')))
               (s\<lparr>total_locked := stake_add (total_locked s) inc\<rparr>))))"

definition schedule_bond_less ::
  "('env, 'fx) staking_config \<Rightarrow> balance \<Rightarrow> 'env staking \<Rightarrow> candidate_metadata \<Rightarrow> serr + (round_index \<times> candidate_metadata)" where
  "schedule_bond_less cfg decr s m =
     bind_r (ensure (bond_less_request m = None) (Module PendingCandidateRequestAlreadyExists)) (\<lambda>_.
     bind_r (ensure (st_amount (self_stake m) > decr) (Module CandidateBondBelowMin)) (\<lambda>_.
     bind_r (ensure (st_amount (self_stake m) - decr \<ge> MinCandidateStk cfg) (Module CandidateBondBelowMin)) (\<lambda>_.
     let when = wrapping_add 64 (current (round_state s)) (CandidateBondLessDelay cfg) in
     Inr (when, m\<lparr>bond_less_request := Some \<lparr>less_amount = decr, less_when_executable = when\<rparr>\<rparr>))))"

definition bond_less ::
  "account_id \<Rightarrow> stake \<Rightarrow> candidate_metadata \<Rightarrow> 'env staking \<Rightarrow> candidate_metadata \<times> 'env staking" where
  "bond_less who st m s =
     (let m' = m\<lparr>self_stake := stake_sub (self_stake m) st,
                total_stake_counted := stake_sub (total_stake_counted m) st\<rparr>;
          s1 = set_collator_lock who (Some (st_amount (self_stake m')))
                 (s\<lparr>total_locked := stake_sub (total_locked s) st\<rparr>);
          s2 = (if is_active m' then update_active who (total_stake_counted m') s1 else s1) in
      (m', deposit_staking_event (CandidateBondedLess who st (self_stake m')) s2))"

definition execute_bond_less ::
  "('env, 'fx) staking_config \<Rightarrow> account_id \<Rightarrow> candidate_metadata \<Rightarrow> 'env staking \<Rightarrow>
   serr + (candidate_metadata \<times> 'env staking)" where
  "execute_bond_less cfg who m s =
     bind_r (ok_or (bond_less_request m) (Module PendingCandidateRequestsDNE)) (\<lambda>request.
     bind_r (ensure (less_when_executable request \<le> current (round_state s)) (Module PendingCandidateRequestNotDueYet)) (\<lambda>_.
     bind_r (hook_power cfg who (less_amount request) (staking_env s)) (\<lambda>st.
     let (m', s') = bond_less who st m s in
     Inr (m'\<lparr>bond_less_request := None\<rparr>, s'))))"

definition cancel_bond_less ::
  "account_id \<Rightarrow> candidate_metadata \<Rightarrow> 'env staking \<Rightarrow> serr + (candidate_metadata \<times> 'env staking)" where
  "cancel_bond_less who m s =
     bind_r (ok_or (bond_less_request m) (Module PendingCandidateRequestsDNE)) (\<lambda>request.
     Inr (m\<lparr>bond_less_request := None\<rparr>,
          deposit_staking_event (CancelledCandidateBondLess who (less_amount request) (less_when_executable request)) s))"

section \<open>Metadata of the delegations\<close>

definition reset_top_data ::
  "('env, 'fx) staking_config \<Rightarrow> account_id \<Rightarrow> delegations \<Rightarrow> candidate_metadata \<Rightarrow> 'env staking \<Rightarrow>
   candidate_metadata \<times> 'env staking" where
  "reset_top_data cfg candidate tops m s =
     (let m' = m\<lparr>lowest_top_delegation := lowest_delegation_amount tops,
                top_capacity := capacity_of (MaxTopDelegationsPerCandidate cfg) tops,
                total_stake_counted := stake_add (self_stake m) (dels_total tops)\<rparr> in
      (m', if total_stake_counted m \<noteq> total_stake_counted m' \<and> is_active m'
           then update_active candidate (total_stake_counted m') s else s))"

definition reset_bottom_data ::
  "('env, 'fx) staking_config \<Rightarrow> delegations \<Rightarrow> candidate_metadata \<Rightarrow> candidate_metadata" where
  "reset_bottom_data cfg bots m =
     m\<lparr>lowest_bottom_delegation := lowest_delegation_amount bots,
       highest_bottom_delegation := highest_delegation_amount bots,
       bottom_capacity := capacity_of (MaxBottomDelegationsPerCandidate cfg) bots\<rparr>"

definition put_top :: "account_id \<Rightarrow> delegations \<Rightarrow> 'env staking \<Rightarrow> 'env staking" where
  "put_top candidate tops s = s\<lparr>top_delegations := (top_delegations s)(candidate \<mapsto> tops)\<rparr>"

definition put_bottom :: "account_id \<Rightarrow> delegations \<Rightarrow> 'env staking \<Rightarrow> 'env staking" where
  "put_bottom candidate bots s = s\<lparr>bottom_delegations := (bottom_delegations s)(candidate \<mapsto> bots)\<rparr>"

definition put_delegator :: "account_id \<Rightarrow> delegator option \<Rightarrow> 'env staking \<Rightarrow> 'env staking" where
  "put_delegator who d s = s\<lparr>delegator_state := (delegator_state s)(who := d)\<rparr>"

definition put_candidate :: "account_id \<Rightarrow> candidate_metadata option \<Rightarrow> 'env staking \<Rightarrow> 'env staking" where
  "put_candidate who m s = s\<lparr>candidate_info := (candidate_info s)(who := m)\<rparr>"

section \<open>Adding a delegation\<close>

text \<open>The branch of \<open>add_bottom_delegation\<close> that kicks the lowest bottom delegation.\<close>

definition kick_lowest_bottom ::
  "('env, 'fx) staking_config \<Rightarrow> account_id \<Rightarrow> delegations \<Rightarrow> 'env staking \<Rightarrow> (delegations \<times> 'env staking) option" where
  "kick_lowest_bottom cfg candidate bots s =
     (if dels bots = [] then None
      else let kicked = last (dels bots);
               bots' = bots\<lparr>dels := butlast (dels bots),
                                dels_total := stake_sub (dels_total bots) (bond_stake kicked)\<rparr> in
        case delegator_state s (owner kicked) of
          None \<Rightarrow> None
        | Some d \<Rightarrow>
            let leaving = (length (delegations d) = 1) in
            (case rm_delegation cfg candidate d s of
               None \<Rightarrow> None
             | Some (_, d1, s1) \<Rightarrow>
                 let (d2, s2) = delegation_remove_request_with_state candidate (owner kicked) d1 s1;
                     s3 = deposit_staking_event (DelegationKicked (owner kicked) candidate (bond_stake kicked))
                            (remove_auto_compound candidate (owner kicked) s2) in
                 Some (bots',
                   if leaving
                   then deposit_staking_event (DelegatorLeft (owner kicked) (bond_stake kicked))
                          (put_delegator (owner kicked) None s3)
                   else put_delegator (owner kicked) (Some d2) s3)))"

definition add_bottom_delegation ::
  "('env, 'fx) staking_config \<Rightarrow> bool \<Rightarrow> account_id \<Rightarrow> bond \<Rightarrow> candidate_metadata \<Rightarrow> 'env staking \<Rightarrow>
   (candidate_metadata \<times> 'env staking) option" where
  "add_bottom_delegation cfg bumped_from_top candidate delegation m s =
     Option.bind (bottom_delegations s candidate) (\<lambda>bots.
     Option.bind
       (if length (dels bots) mod 2 ^ 32 = MaxBottomDelegationsPerCandidate cfg
        then map_option (\<lambda>(b, s'). (False, b, s')) (kick_lowest_bottom cfg candidate bots s)
        else Some (\<not> bumped_from_top, bots, s)) (\<lambda>(increase, bottom1, s1).
     let m1 = (if increase then m\<lparr>delegation_count := saturating_add 32 (delegation_count m) 1\<rparr> else m);
         bottom2 = insert_sorted_greatest_to_least delegation bottom1 in
     Some (reset_bottom_data cfg bottom2 m1, put_bottom candidate bottom2 s1)))"

definition add_top_delegation ::
  "('env, 'fx) staking_config \<Rightarrow> account_id \<Rightarrow> bond \<Rightarrow> candidate_metadata \<Rightarrow> 'env staking \<Rightarrow>
   (stake option \<times> candidate_metadata \<times> 'env staking) option" where
  "add_top_delegation cfg candidate delegation m s =
     Option.bind (top_delegations s candidate) (\<lambda>tops.
     Option.bind
       (if length (dels tops) mod 2 ^ 32 = MaxTopDelegationsPerCandidate cfg
        then if dels tops = [] then None
             else let popped = last (dels tops);
                      top1 = tops\<lparr>dels := butlast (dels tops), dels_total := stake_sub (dels_total tops) (bond_stake popped)\<rparr>;
                      decr = (if bottom_capacity m = Full then Some (lowest_bottom_delegation m) else None) in
               map_option (\<lambda>(m1, s1). (decr, top1, m1, s1)) (add_bottom_delegation cfg True candidate popped m s)
        else Some (None, tops, m, s)) (\<lambda>(decr, top1, m1, s1).
     let top2 = insert_sorted_greatest_to_least delegation top1;
         (m2, s2) = reset_top_data cfg candidate top2 m1 s1;
         m3 = (if decr = None then m2\<lparr>delegation_count := saturating_add 32 (delegation_count m2) 1\<rparr> else m2) in
     Some (decr, m3, put_top candidate top2 s2)))"

definition add_delegation ::
  "('env, 'fx) staking_config \<Rightarrow> account_id \<Rightarrow> bond \<Rightarrow> candidate_metadata \<Rightarrow> 'env staking \<Rightarrow>
   (serr + (delegator_added \<times> stake option \<times> candidate_metadata \<times> 'env staking)) option" where
  "add_delegation cfg candidate delegation m s =
     (if top_capacity m = Full then
        if lowest_top_delegation m < bond_stake delegation then
          map_option (\<lambda>(decr, m1, s1). Inr (AddedToTop (total_stake_counted m1), decr, m1, s1))
            (add_top_delegation cfg candidate delegation m s)
        else if bottom_capacity m = Full \<and> \<not> bond_stake delegation > lowest_bottom_delegation m
        then Some (Inl (Module CannotDelegateLessThanOrEqualToLowestBottomWhenFull))
        else map_option (\<lambda>(m1, s1).
               Inr (AddedToBottom, if bottom_capacity m = Full then Some (lowest_bottom_delegation m) else None, m1, s1))
               (add_bottom_delegation cfg False candidate delegation m s)
      else map_option (\<lambda>(_, m1, s1). Inr (AddedToTop (total_stake_counted m1), None, m1, s1))
             (add_top_delegation cfg candidate delegation m s))"

section \<open>Removing a delegation\<close>

definition rm_top_delegation ::
  "('env, 'fx) staking_config \<Rightarrow> account_id \<Rightarrow> account_id \<Rightarrow> candidate_metadata \<Rightarrow> 'env staking \<Rightarrow> 'env cand_result" where
  "rm_top_delegation cfg candidate who m s =
     (case top_delegations s candidate of
        None \<Rightarrow> None
      | Some tops \<Rightarrow>
          bind_p (Some (ok_or (taken who (dels tops)) (Module DelegationDNE))) (\<lambda>actual.
          let top1 = tops\<lparr>dels := others who (dels tops), dels_total := stake_sub (dels_total tops) (bond_stake actual)\<rparr> in
          Option.bind
            (if bottom_capacity m \<noteq> Empty then
               Option.bind (bottom_delegations s candidate) (\<lambda>bots.
               if dels bots = [] then None
               else let highest = hd (dels bots);
                        bottom1 = bots\<lparr>dels := tl (dels bots), dels_total := stake_sub (dels_total bots) (bond_stake highest)\<rparr> in
                 Some (reset_bottom_data cfg bottom1 m, insert_sorted_greatest_to_least highest top1,
                       put_bottom candidate bottom1 s))
             else Some (m, top1, s)) (\<lambda>(m1, top2, s1).
          let (m2, s2) = reset_top_data cfg candidate top2 m1 s1;
              m3 = m2\<lparr>delegation_count := delegation_count m2 - 1\<rparr> in
          Some (Inr (total_stake_counted m = total_stake_counted m3, m3, put_top candidate top2 s2)))))"

definition rm_bottom_delegation ::
  "('env, 'fx) staking_config \<Rightarrow> account_id \<Rightarrow> account_id \<Rightarrow> candidate_metadata \<Rightarrow> 'env staking \<Rightarrow> 'env cand_result" where
  "rm_bottom_delegation cfg candidate who m s =
     (case bottom_delegations s candidate of
        None \<Rightarrow> None
      | Some bots \<Rightarrow>
          bind_p (Some (ok_or (taken who (dels bots)) (Module DelegationDNE))) (\<lambda>actual.
          let bottom1 = bots\<lparr>dels := others who (dels bots), dels_total := stake_sub (dels_total bots) (bond_stake actual)\<rparr>;
              m1 = reset_bottom_data cfg bottom1 m in
          Some (Inr (False, m1\<lparr>delegation_count := delegation_count m1 - 1\<rparr>, put_bottom candidate bottom1 s))))"

text \<open>\<open>result == Err(DelegationDNE)\<close>: then the bottom is tried.\<close>

definition or_in_bottom :: "'env cand_result \<Rightarrow> 'env cand_result \<Rightarrow> 'env cand_result" where
  "or_in_bottom r alt = (if r = Some (Inl (Module DelegationDNE)) then alt else r)"

definition rm_delegation_if_exists ::
  "('env, 'fx) staking_config \<Rightarrow> account_id \<Rightarrow> account_id \<Rightarrow> stake \<Rightarrow> candidate_metadata \<Rightarrow> 'env staking \<Rightarrow> 'env cand_result" where
  "rm_delegation_if_exists cfg candidate who st m s =
     (let amount_geq_lowest_top = (st \<ge> lowest_top_delegation m);
          top_is_not_full = (top_capacity m \<noteq> Full);
          lowest_top_eq_highest_bottom = (lowest_top_delegation m = highest_bottom_delegation m) in
      if top_is_not_full \<or> amount_geq_lowest_top \<and> \<not> lowest_top_eq_highest_bottom
      then rm_top_delegation cfg candidate who m s
      else if amount_geq_lowest_top \<and> lowest_top_eq_highest_bottom
      then or_in_bottom (rm_top_delegation cfg candidate who m s) (rm_bottom_delegation cfg candidate who m s)
      else rm_bottom_delegation cfg candidate who m s)"

section \<open>Increasing a delegation\<close>

definition increase_top_delegation ::
  "('env, 'fx) staking_config \<Rightarrow> account_id \<Rightarrow> account_id \<Rightarrow> stake \<Rightarrow> candidate_metadata \<Rightarrow> 'env staking \<Rightarrow> 'env cand_result" where
  "increase_top_delegation cfg candidate who inc m s =
     (case top_delegations s candidate of
        None \<Rightarrow> None
      | Some tops \<Rightarrow>
          if who \<notin> set (map owner (dels tops)) then Some (Inl (Module DelegationDNE))
          else let top1 = sort_greatest_to_least
                     (tops\<lparr>dels := adjusted (\<lambda>x. stake_add x inc) who (dels tops), dels_total := stake_add (dels_total tops) inc\<rparr>);
                   (m1, s1) = reset_top_data cfg candidate top1 m s in
               Some (Inr (True, m1, put_top candidate top1 s1)))"

definition increase_bottom_delegation ::
  "('env, 'fx) staking_config \<Rightarrow> account_id \<Rightarrow> account_id \<Rightarrow> stake \<Rightarrow> stake \<Rightarrow> candidate_metadata \<Rightarrow> 'env staking \<Rightarrow> 'env cand_result" where
  "increase_bottom_delegation cfg candidate who bnd inc m s =
     (case bottom_delegations s candidate of
        None \<Rightarrow> Some (Inl (Module CandidateDNE))
      | Some bots \<Rightarrow>
          if stake_add bnd inc > lowest_top_delegation m then
            (case taken who (dels bots) of
               None \<Rightarrow> Some (Inl (Module DelegationDNE))
             | Some b \<Rightarrow>
                 let delegation = b\<lparr>bond_stake := stake_add (bond_stake b) inc\<rparr>;
                     bottom1 = bots\<lparr>dels := others who (dels bots), dels_total := stake_sub (dels_total bots) bnd\<rparr> in
                 Option.bind (top_delegations s candidate) (\<lambda>tops.
                 Option.bind
                   (if capacity_of (MaxTopDelegationsPerCandidate cfg) tops = Full then
                      if dels tops = [] then None
                      else let popped = last (dels tops) in
                        Some (tops\<lparr>dels := butlast (dels tops), dels_total := stake_sub (dels_total tops) (bond_stake popped)\<rparr>,
                              insert_sorted_greatest_to_least popped bottom1)
                    else Some (tops, bottom1)) (\<lambda>(top1, bottom2).
                 let top2 = insert_sorted_greatest_to_least delegation top1;
                     (m1, s1) = reset_top_data cfg candidate top2 m s in
                 Some (Inr (True, reset_bottom_data cfg bottom2 m1, put_bottom candidate bottom2 (put_top candidate top2 s1))))))
          else if who \<notin> set (map owner (dels bots)) then Some (Inl (Module DelegationDNE))
          else let bottom1 = sort_greatest_to_least
                     (bots\<lparr>dels := adjusted (\<lambda>x. stake_add x inc) who (dels bots), dels_total := stake_add (dels_total bots) inc\<rparr>) in
               Some (Inr (False, reset_bottom_data cfg bottom1 m, put_bottom candidate bottom1 s)))"

definition cand_increase_delegation ::
  "('env, 'fx) staking_config \<Rightarrow> account_id \<Rightarrow> account_id \<Rightarrow> stake \<Rightarrow> stake \<Rightarrow> candidate_metadata \<Rightarrow> 'env staking \<Rightarrow> 'env cand_result" where
  "cand_increase_delegation cfg candidate who bnd inc m s =
     (let lowest_top_eq_highest_bottom = (lowest_top_delegation m = highest_bottom_delegation m);
          bond_geq_lowest_top = (bnd \<ge> lowest_top_delegation m) in
      if bond_geq_lowest_top \<and> \<not> lowest_top_eq_highest_bottom
      then increase_top_delegation cfg candidate who inc m s
      else if bond_geq_lowest_top \<and> lowest_top_eq_highest_bottom
      then or_in_bottom (increase_top_delegation cfg candidate who inc m s)
             (increase_bottom_delegation cfg candidate who bnd inc m s)
      else increase_bottom_delegation cfg candidate who bnd inc m s)"

section \<open>Decreasing a delegation\<close>

definition decrease_top_delegation ::
  "('env, 'fx) staking_config \<Rightarrow> account_id \<Rightarrow> account_id \<Rightarrow> stake \<Rightarrow> stake \<Rightarrow> candidate_metadata \<Rightarrow> 'env staking \<Rightarrow> 'env cand_result" where
  "decrease_top_delegation cfg candidate who bnd decr m s =
     (let bond_after_less_than_highest_bottom = (stake_sub bnd decr < highest_bottom_delegation m);
          full_top_and_nonempty_bottom = (top_capacity m = Full \<and> bottom_capacity m \<noteq> Empty) in
      case top_delegations s candidate of
        None \<Rightarrow> Some (Inl (Module CandidateDNE))
      | Some tops \<Rightarrow>
          bind_p
            (if bond_after_less_than_highest_bottom \<and> full_top_and_nonempty_bottom then
               (case taken who (dels tops) of
                  None \<Rightarrow> Some (Inl (Module DelegationDNE))
                | Some b \<Rightarrow>
                    let delegation = b\<lparr>bond_stake := stake_sub (bond_stake b) decr\<rparr>;
                        top1 = tops\<lparr>dels := others who (dels tops), 
                          dels_total := fold (\<lambda>x t. stake_sub t (bond_stake x)) (filter (\<lambda>x. owner x = who) (dels tops)) (dels_total tops)\<rparr> in
                    Option.bind (bottom_delegations s candidate) (\<lambda>bots.
                    if dels bots = [] then None
                    else let highest = hd (dels bots);
                             bottom1 = insert_sorted_greatest_to_least delegation
                               (bots\<lparr>dels := tl (dels bots), dels_total := stake_sub (dels_total bots) (bond_stake highest)\<rparr>) in
                      Some (Inr (False, insert_sorted_greatest_to_least highest top1,
                                 reset_bottom_data cfg bottom1 m, put_bottom candidate bottom1 s))))
             else if who \<notin> set (map owner (dels tops)) then Some (Inl (Module DelegationDNE))
             else Some (Inr (True, sort_greatest_to_least
                    (tops\<lparr>dels := adjusted (\<lambda>x. stake_sub x decr) who (dels tops), dels_total := stake_sub (dels_total tops) decr\<rparr>),
                    m, s))) (\<lambda>(in_top_after, top2, m1, s1).
          let (m2, s2) = reset_top_data cfg candidate top2 m1 s1 in
          Some (Inr (in_top_after, m2, put_top candidate top2 s2))))"

definition decrease_bottom_delegation ::
  "('env, 'fx) staking_config \<Rightarrow> account_id \<Rightarrow> account_id \<Rightarrow> stake \<Rightarrow> candidate_metadata \<Rightarrow> 'env staking \<Rightarrow> 'env cand_result" where
  "decrease_bottom_delegation cfg candidate who decr m s =
     (case bottom_delegations s candidate of
        None \<Rightarrow> None
      | Some bots \<Rightarrow>
          if who \<notin> set (map owner (dels bots)) then Some (Inl (Module DelegationDNE))
          else let bottom1 = sort_greatest_to_least (bots\<lparr>dels := adjusted (\<lambda>x. stake_sub x decr) who (dels bots)\<rparr>) in
               Some (Inr (False, reset_bottom_data cfg bottom1 m, put_bottom candidate bottom1 s)))"

definition cand_decrease_delegation ::
  "('env, 'fx) staking_config \<Rightarrow> account_id \<Rightarrow> account_id \<Rightarrow> stake \<Rightarrow> stake \<Rightarrow> candidate_metadata \<Rightarrow> 'env staking \<Rightarrow> 'env cand_result" where
  "cand_decrease_delegation cfg candidate who bnd decr m s =
     (let lowest_top_eq_highest_bottom = (lowest_top_delegation m = highest_bottom_delegation m);
          bond_geq_lowest_top = (bnd \<ge> lowest_top_delegation m) in
      if bond_geq_lowest_top \<and> \<not> lowest_top_eq_highest_bottom
      then decrease_top_delegation cfg candidate who bnd decr m s
      else if bond_geq_lowest_top \<and> lowest_top_eq_highest_bottom
      then or_in_bottom (decrease_top_delegation cfg candidate who bnd decr m s)
             (decrease_bottom_delegation cfg candidate who decr m s)
      else decrease_bottom_delegation cfg candidate who decr m s)"

end
