(* ===== verification/Parachain_Staking.thy ===== *)
theory Parachain_Staking
  imports Staking_Candidates
begin

text \<open>
  The pallet \<open>pallets/parachain-staking\<close>: delegators (\<open>types.rs\<close>), scheduled requests
  (\<open>delegation_requests.rs\<close>), auto-compounding (\<open>auto_compound.rs\<close>), inflation (\<open>inflation.rs\<close>), and
  the calls, hooks and payouts of \<open>lib.rs\<close>. Weights are not modelled.

  A call returns \<open>(error + storage) option\<close>: \<^const>\<open>None\<close> is a panic, an error rolls the storage back.
  Payouts run in \<open>on_initialize\<close>, where an error of a single delegator is logged and nothing is rolled
  back; the functions they call return the storage beside the result.
\<close>

type_synonym 'env call_result = "(serr + 'env staking) option"
type_synonym ('a, 'env) kept_result = "((serr + 'a) \<times> 'env staking) option"

definition roll_back :: "('a, 'env) kept_result \<Rightarrow> (serr + ('a \<times> 'env staking)) option" where
  "roll_back r = map_option (\<lambda>(x, s). bind_r x (\<lambda>a. Inr (a, s))) r"

section \<open>Delegators (types.rs)\<close>

definition increase_delegation ::
  "('env, 'fx) staking_config \<Rightarrow> account_id \<Rightarrow> stake \<Rightarrow> delegator \<Rightarrow> 'env staking \<Rightarrow> (bool, 'env) kept_result" where
  "increase_delegation cfg candidate inc d s =
     (case position (\<lambda>b. owner b = candidate) (delegations d) of
        None \<Rightarrow> Some (Inl (Module DelegationDNE), s)
      | Some i \<Rightarrow>
          let bnd = bond_stake (delegations d ! i);
              d1 = d\<lparr>delegations := (delegations d)[i := (delegations d ! i)\<lparr>bond_stake := stake_add bnd inc\<rparr>],
                     total := stake_add (total d) inc\<rparr> in
          case adjust_bond_lock cfg (Increase inc) d1 s of
            Inl e \<Rightarrow> Some (Inl e, s)
          | Inr s1 \<Rightarrow>
              (case candidate_info s1 candidate of
                 None \<Rightarrow> Some (Inl (Module CandidateDNE), s1)
               | Some m \<Rightarrow>
                   (case cand_increase_delegation cfg candidate (delegator_id d) bnd inc m s1 of
                      None \<Rightarrow> None
                    | Some (Inl e) \<Rightarrow> Some (Inl e, s1)
                    | Some (Inr (in_top, m1, s2)) \<Rightarrow>
                        let s3 = (if is_active m1 \<and> total_stake_counted m \<noteq> total_stake_counted m1
                                  then update_active candidate (total_stake_counted m1) s2 else s2);
                            s4 = put_candidate candidate (Some m1) s3 in
                        Some (Inr in_top, put_delegator (delegator_id d) (Some d1)
                          (s4\<lparr>total_locked := stake_add (total_locked s4) inc\<rparr>)))))"

definition total_sub_if ::
  "('env, 'fx) staking_config \<Rightarrow> stake \<Rightarrow> (stake \<Rightarrow> serr + unit) \<Rightarrow> delegator \<Rightarrow> 'env staking \<Rightarrow> serr + (delegator \<times> 'env staking)" where
  "total_sub_if cfg st check d s =
     (let tot = stake_sub (total d) st in
      bind_r (check tot) (\<lambda>_.
      let d' = d\<lparr>total := tot\<rparr> in
      bind_r (adjust_bond_lock cfg DecreaseBond d' s) (\<lambda>s'. Inr (d', s'))))"

section \<open>Changing a delegation (delegation_requests.rs)\<close>

definition delegator_leaves_candidate ::
  "('env, 'fx) staking_config \<Rightarrow> account_id \<Rightarrow> account_id \<Rightarrow> stake \<Rightarrow> 'env staking \<Rightarrow> 'env call_result" where
  "delegator_leaves_candidate cfg candidate who unstake s =
     bind_p (Some (ok_or (candidate_info s candidate) (Module CandidateDNE))) (\<lambda>m.
     bind_p (rm_delegation_if_exists cfg candidate who unstake m s) (\<lambda>(_, m1, s1).
     let s2 = put_candidate candidate (Some m1) (s1\<lparr>total_locked := stake_sub (total_locked s1) unstake\<rparr>) in
     Some (Inr (deposit_staking_event (DelegatorLeftCandidate who candidate unstake (total_stake_counted m1)) s2))))"

definition revoke_delegator_stake ::
  "('env, 'fx) staking_config \<Rightarrow> account_id \<Rightarrow> account_id \<Rightarrow> stake \<Rightarrow> delegator \<Rightarrow> 'env staking \<Rightarrow>
   (serr + (delegator \<times> 'env staking)) option" where
  "revoke_delegator_stake cfg collator who st d s =
     (let leaving = (length (delegations d) = 1) in
      bind_p (Some (if leaving then Inr ()
                    else ensure (st_amount (total d) - MinDelegatorStk cfg \<ge> st_amount st) (Module DelegatorBondBelowMin))) (\<lambda>_.
      Option.bind (rm_delegation cfg collator (d\<lparr>less_total := stake_sub (less_total d) st\<rparr>) s) (\<lambda>(_, d1, s1).
      bind_p (delegator_leaves_candidate cfg collator who st (remove_auto_compound collator who s1)) (\<lambda>s2.
      Some (Inr (d1, if leaving then deposit_staking_event (DelegatorLeft who st) (put_delegator who None s2)
                     else put_delegator who (Some d1) s2))))))"

text \<open>The local state of the delegator is changed on some of the error paths as well.\<close>

definition decrease_delegator_stake ::
  "('env, 'fx) staking_config \<Rightarrow> account_id \<Rightarrow> account_id \<Rightarrow> stake \<Rightarrow> delegator \<Rightarrow> 'env staking \<Rightarrow>
   ((serr + bool) \<times> delegator \<times> 'env staking) option" where
  "decrease_delegator_stake cfg collator who st d s =
     (let d1 = d\<lparr>less_total := stake_sub (less_total d) st\<rparr> in
      case position (\<lambda>b. owner b = collator) (delegations d1) of
        None \<Rightarrow> Some (Inl (Module DelegationDNE), d1, s)
      | Some i \<Rightarrow>
          let bnd = bond_stake (delegations d1 ! i) in
          if bnd > st then
            let d2 = d1\<lparr>delegations := (delegations d1)[i := (delegations d1 ! i)\<lparr>bond_stake := stake_sub bnd st\<rparr>]\<rparr> in
            (case candidate_info s collator of
               None \<Rightarrow> Some (Inl (Module CandidateDNE), d2, s)
             | Some m \<Rightarrow>
                 (case total_sub_if cfg st
                         (\<lambda>tot. bind_r (ensure (st_amount tot \<ge> MinDelegation cfg) (Module DelegationBelowMin)) (\<lambda>_.
                                ensure (st_amount tot \<ge> MinDelegatorStk cfg) (Module DelegatorBondBelowMin))) d2 s of
                    Inl e \<Rightarrow> Some (Inl e, d2, s)
                  | Inr (d3, s1) \<Rightarrow>
                      (case cand_decrease_delegation cfg collator who bnd st m s1 of
                         None \<Rightarrow> None
                       | Some (Inl e) \<Rightarrow> Some (Inl e, d3, s1)
                       | Some (Inr (in_top, m1, s2)) \<Rightarrow>
                           let s3 = put_candidate collator (Some m1) s2 in
                           Some (Inr in_top, d3, put_delegator who (Some d3)
                             (s3\<lparr>total_locked := stake_sub (total_locked s3) st\<rparr>)))))
          else Some (Inl (Module DelegationBelowMin), d1, s))"

definition set_requests :: "account_id \<Rightarrow> scheduled_request list \<Rightarrow> 'env staking \<Rightarrow> 'env staking" where
  "set_requests collator reqs s = s\<lparr>scheduled_requests := (scheduled_requests s)(collator := reqs)\<rparr>"

definition delegation_schedule_revoke ::
  "('env, 'fx) staking_config \<Rightarrow> account_id \<Rightarrow> account_id \<Rightarrow> 'env staking \<Rightarrow> serr + 'env staking" where
  "delegation_schedule_revoke cfg collator who s =
     bind_r (ok_or (delegator_state s who) (Module DelegatorDNE)) (\<lambda>state.
     let reqs = scheduled_requests s collator in
     bind_r (ensure (\<not> list_ex (\<lambda>r. req_delegator r = who) reqs) (Module PendingDelegationRequestAlreadyExists)) (\<lambda>_.
     bind_r (ok_or (get_bond_amount collator state) (Module DelegationDNE)) (\<lambda>bonded.
     let now = current (round_state s);
         when = saturating_add 64 now (RevokeDelegationDelay cfg);
         reqs' = reqs @ [\<lparr>req_delegator = who, when_executable = when, req_action = Revoke bonded\<rparr>];
         state' = state\<lparr>less_total := stake_add (less_total state) bonded\<rparr> in
     Inr (deposit_staking_event (DelegationRevocationScheduled now who collator when)
           (put_delegator who (Some state') (set_requests collator reqs' s))))))"

definition delegation_schedule_bond_decrease ::
  "('env, 'fx) staking_config \<Rightarrow> account_id \<Rightarrow> account_id \<Rightarrow> stake \<Rightarrow> 'env staking \<Rightarrow> serr + 'env staking" where
  "delegation_schedule_bond_decrease cfg collator who decr s =
     bind_r (ok_or (delegator_state s who) (Module DelegatorDNE)) (\<lambda>state.
     let reqs = scheduled_requests s collator in
     bind_r (ensure (\<not> list_ex (\<lambda>r. req_delegator r = who) reqs) (Module PendingDelegationRequestAlreadyExists)) (\<lambda>_.
     bind_r (ok_or (get_bond_amount collator state) (Module DelegationDNE)) (\<lambda>bonded.
     bind_r (ensure (bonded > decr) (Module DelegatorBondBelowMin)) (\<lambda>_.
     bind_r (ensure (st_amount (stake_minus bonded decr) \<ge> MinDelegation cfg) (Module DelegationBelowMin)) (\<lambda>_.
     let net_total = stake_sub (total state) (less_total state);
         max_subtracted_amount = st_amount net_total - MinDelegatorStk cfg in
     bind_r (ensure (st_amount decr \<le> max_subtracted_amount) (Module DelegatorBondBelowMin)) (\<lambda>_.
     let now = current (round_state s);
         when = saturating_add 64 now (RevokeDelegationDelay cfg);
         reqs' = reqs @ [\<lparr>req_delegator = who, when_executable = when, req_action = Decrease decr\<rparr>];
         state' = state\<lparr>less_total := stake_add (less_total state) decr\<rparr> in
     Inr (deposit_staking_event (DelegationDecreaseScheduled who collator decr when)
           (put_delegator who (Some state') (set_requests collator reqs' s)))))))))"

definition delegation_cancel_request ::
  "account_id \<Rightarrow> account_id \<Rightarrow> 'env staking \<Rightarrow> serr + 'env staking" where
  "delegation_cancel_request collator who s =
     bind_r (ok_or (delegator_state s who) (Module DelegatorDNE)) (\<lambda>state.
     let (req, state', reqs') = cancel_request_with_state who state (scheduled_requests s collator) in
     bind_r (ok_or req (Module PendingDelegationRequestDNE)) (\<lambda>request.
     Inr (deposit_staking_event (CancelledDelegationRequest who (cancelled_of request) collator)
           (put_delegator who (Some state') (set_requests collator reqs' s)))))"

definition delegation_execute_scheduled_request ::
  "('env, 'fx) staking_config \<Rightarrow> account_id \<Rightarrow> account_id \<Rightarrow> 'env staking \<Rightarrow> 'env call_result" where
  "delegation_execute_scheduled_request cfg collator who s =
     (let reqs = scheduled_requests s collator in
      bind_p (Some (ok_or (position (\<lambda>r. req_delegator r = who) reqs) (Module PendingDelegationRequestDNE))) (\<lambda>i.
      let request = reqs ! i in
      bind_p (Some (ensure (when_executable request \<le> current (round_state s)) (Module PendingDelegationRequestNotDueYet))) (\<lambda>_.
      bind_p (Some (ok_or (delegator_state s who) (Module DelegatorDNE))) (\<lambda>state.
      bind_p (case req_action request of
          Revoke st \<Rightarrow>
            bind_p (revoke_delegator_stake cfg collator who st state s) (\<lambda>(_, s1).
            Some (Inr (deposit_staking_event (DelegationRevoked who collator st) s1)))
        | Decrease st \<Rightarrow>
            Option.bind (decrease_delegator_stake cfg collator who st state s) (\<lambda>(r, _, s1).
            Some (bind_r r (\<lambda>in_top.
              Inr (deposit_staking_event (DelegationDecreased who collator st in_top) s1))))) (\<lambda>s1.
      Some (Inr (set_requests collator (remove_at i reqs) s1)))))))"

section \<open>Leaving the set of delegators (delegation_requests.rs)\<close>

definition put_requests :: "(account_id \<times> scheduled_request list) list \<Rightarrow> 'env staking \<Rightarrow> 'env staking" where
  "put_requests updated s = fold (\<lambda>(collator, reqs). set_requests collator reqs) updated s"

text \<open>The loop over the bonds: local state, new vectors of requests, number of requests that were revocations already.\<close>

definition revoke_all_step ::
  "account_id \<Rightarrow> round_index \<Rightarrow> 'env staking \<Rightarrow> bond \<Rightarrow>
   delegator \<times> (account_id \<times> scheduled_request list) list \<times> nat \<Rightarrow>
   delegator \<times> (account_id \<times> scheduled_request list) list \<times> nat" where
  "revoke_all_step who when s b acc =
     (let (state, updated, cnt) = acc;
          (req, state1, reqs) = cancel_request_with_state who state (scheduled_requests s (owner b));
          keep = (case req of Some r \<Rightarrow> is_revoke (req_action r) | None \<Rightarrow> False);
          request = (if keep then the req
                     else \<lparr>req_delegator = who, when_executable = when, req_action = Revoke (bond_stake b)\<rparr>) in
      (state1\<lparr>less_total := stake_add (less_total state1) (bond_stake b)\<rparr>,
       updated @ [(owner b, reqs @ [request])],
       if keep then cnt + 1 else cnt))"

definition delegator_schedule_revoke_all ::
  "('env, 'fx) staking_config \<Rightarrow> account_id \<Rightarrow> 'env staking \<Rightarrow> serr + 'env staking" where
  "delegator_schedule_revoke_all cfg who s =
     bind_r (ok_or (delegator_state s who) (Module DelegatorDNE)) (\<lambda>state0.
     let now = current (round_state s);
         when = saturating_add 64 now (LeaveDelegatorsDelay cfg);
         state = (case delegator_status state0 of
                    DelegatorLeaving _ \<Rightarrow> state0\<lparr>delegator_status := DelegatorActive\<rparr>
                  | DelegatorActive \<Rightarrow> state0);
         (state', updated, existing_revoke_count) =
           fold (revoke_all_step who when s) (delegations state) (state, [], 0) in
     bind_r (ensure (existing_revoke_count \<noteq> length (delegations state')) (Module DelegatorAlreadyLeaving)) (\<lambda>_.
     Inr (deposit_staking_event (DelegatorExitScheduled now who when)
           (put_delegator who (Some state') (put_requests updated s)))))"

definition cancel_all_step ::
  "account_id \<Rightarrow> 'env staking \<Rightarrow> bond \<Rightarrow> delegator \<times> (account_id \<times> scheduled_request list) list \<Rightarrow>
   delegator \<times> (account_id \<times> scheduled_request list) list" where
  "cancel_all_step who s b acc =
     (let (state, updated) = acc;
          (_, state1, reqs) = cancel_request_with_state who state (scheduled_requests s (owner b)) in
      (state1, updated @ [(owner b, reqs)]))"

definition delegator_cancel_scheduled_revoke_all :: "account_id \<Rightarrow> 'env staking \<Rightarrow> serr + 'env staking" where
  "delegator_cancel_scheduled_revoke_all who s =
     bind_r (ok_or (delegator_state s who) (Module DelegatorDNE)) (\<lambda>state.
     case delegator_status state of
       DelegatorLeaving _ \<Rightarrow>
         Inr (deposit_staking_event (DelegatorExitCancelled who)
               (put_delegator who (Some (state\<lparr>delegator_status := DelegatorActive\<rparr>)) s))
     | DelegatorActive \<Rightarrow>
         bind_r (ensure (\<forall>b\<in>set (delegations state).
                   delegation_request_revoke_exists (owner b) who s) (Module DelegatorNotLeaving)) (\<lambda>_.
         let (state', updated) = fold (cancel_all_step who s) (delegations state) (state, []) in
         Inr (deposit_staking_event (DelegatorExitCancelled who)
               (put_delegator who (Some state') (put_requests updated s)))))"

text \<open>The error of \<open>delegator_leaves_candidate\<close> is logged and ignored in both loops.\<close>

definition leave_or_log ::
  "('env, 'fx) staking_config \<Rightarrow> account_id \<Rightarrow> account_id \<Rightarrow> stake \<Rightarrow> 'env staking \<Rightarrow> 'env staking option" where
  "leave_or_log cfg candidate who st s =
     map_option (\<lambda>r. case r of Inl _ \<Rightarrow> s | Inr s' \<Rightarrow> s') (delegator_leaves_candidate cfg candidate who st s)"

fun leave_all_legacy ::
  "('env, 'fx) staking_config \<Rightarrow> account_id \<Rightarrow> bond list \<Rightarrow> delegator \<Rightarrow> 'env staking \<Rightarrow> (delegator \<times> 'env staking) option" where
  "leave_all_legacy cfg who [] state s = Some (state, s)"
| "leave_all_legacy cfg who (b # bs) state s =
     Option.bind (leave_or_log cfg (owner b) who (bond_stake b) s) (\<lambda>s1.
     let (state2, s2) = delegation_remove_request_with_state (owner b) who state s1 in
     leave_all_legacy cfg who bs state2 (remove_auto_compound (owner b) who s2))"

fun leave_all ::
  "('env, 'fx) staking_config \<Rightarrow> account_id \<Rightarrow> (bond \<times> scheduled_request list \<times> nat) list \<Rightarrow> 'env staking \<Rightarrow>
   ((account_id \<times> scheduled_request list) list \<times> 'env staking) option" where
  "leave_all cfg who [] s = Some ([], s)"
| "leave_all cfg who ((b, reqs, i) # vs) s =
     Option.bind (leave_or_log cfg (owner b) who (bond_stake b) s) (\<lambda>s1.
     Option.bind (leave_all cfg who vs (remove_auto_compound (owner b) who s1)) (\<lambda>(updated, s2).
     Some ((owner b, remove_at i reqs) # updated, s2)))"

definition validate_revoke ::
  "account_id \<Rightarrow> 'env staking \<Rightarrow> bond \<Rightarrow> serr + (bond \<times> scheduled_request list \<times> nat)" where
  "validate_revoke who s b =
     (let reqs = scheduled_requests s (owner b) in
      bind_r (ok_or (position (\<lambda>r. req_delegator r = who \<and> is_revoke (req_action r)) reqs) (Module DelegatorNotLeaving)) (\<lambda>i.
      bind_r (ensure (when_executable (reqs ! i) \<le> current (round_state s)) (Module DelegatorCannotLeaveYet)) (\<lambda>_.
      Inr (b, reqs, i))))"

definition delegator_execute_scheduled_revoke_all ::
  "('env, 'fx) staking_config \<Rightarrow> account_id \<Rightarrow> u32 \<Rightarrow> 'env staking \<Rightarrow> 'env call_result" where
  "delegator_execute_scheduled_revoke_all cfg who cnt s =
     bind_p (Some (ok_or (delegator_state s who) (Module DelegatorDNE))) (\<lambda>state.
     bind_p (Some (ensure (cnt \<ge> length (delegations state) mod 2 ^ 32) (Module TooLowDelegationCountToLeaveDelegators))) (\<lambda>_.
     case delegator_status state of
       DelegatorLeaving when \<Rightarrow>
         bind_p (Some (ensure (current (round_state s) \<ge> when) (Module DelegatorCannotLeaveYet))) (\<lambda>_.
         Option.bind (leave_all_legacy cfg who (delegations state) state s) (\<lambda>(state', s1).
         Some (Inr (deposit_staking_event (DelegatorLeft who (total state')) (put_delegator who None s1)))))
     | DelegatorActive \<Rightarrow>
         bind_p (Some (collect_r (validate_revoke who s) (delegations state))) (\<lambda>validated.
         Option.bind (leave_all cfg who validated s) (\<lambda>(updated, s1).
         bind_p (Some (total_sub cfg (total state) state s1)) (\<lambda>(_, s2).
         Some (Inr (put_delegator who None
           (deposit_staking_event (DelegatorLeft who (total state)) (put_requests updated s2)))))))))"

section \<open>Delegating (auto_compound.rs)\<close>

definition pallet_delegate_with_auto_compound ::
  "('env, 'fx) staking_config \<Rightarrow> account_id \<Rightarrow> account_id \<Rightarrow> stake \<Rightarrow> percent \<Rightarrow> u32 \<Rightarrow> u32 \<Rightarrow> u32 \<Rightarrow> 'env staking \<Rightarrow>
   'env call_result" where
  "pallet_delegate_with_auto_compound cfg candidate who st auto cand_hint auto_hint del_hint s =
     bind_p (Some (get_delegator_stakable_free_balance cfg who s)) (\<lambda>free.
     bind_p (Some (ensure (free \<ge> st) (Module InsufficientBalance))) (\<lambda>_.
     bind_p (Some (case delegator_state s who of
         Some state \<Rightarrow>
           bind_r (ensure (st_amount st \<ge> MinDelegation cfg) (Module DelegationBelowMin)) (\<lambda>_.
           bind_r (ensure (del_hint \<ge> length (delegations state) mod 2 ^ 32) (Module TooLowDelegationCountToDelegate)) (\<lambda>_.
           bind_r (ensure (length (delegations state) mod 2 ^ 32 < MaxDelegationsPerDelegator cfg)
                     (Module ExceedMaxDelegationsPerDelegator)) (\<lambda>_.
           let (state', added) = delegator_add_delegation \<lparr>owner = candidate, bond_stake = st\<rparr> state in
           bind_r (ensure added (Module AlreadyDelegatedCandidate)) (\<lambda>_. Inr state'))))
       | None \<Rightarrow>
           bind_r (ensure (st_amount st \<ge> MinDelegatorStk cfg) (Module DelegatorBondBelowMin)) (\<lambda>_.
           bind_r (ensure (\<not> is_candidate who s) (Module CandidateExists)) (\<lambda>_.
           Inr (new_delegator who candidate st))))) (\<lambda>del.
     bind_p (Some (ok_or (candidate_info s candidate) (Module CandidateDNE))) (\<lambda>m.
     bind_p (Some (ensure (cand_hint \<ge> delegation_count m) (Module TooLowCandidateDelegationCountToDelegate))) (\<lambda>_.
     bind_p (Some (if auto \<noteq> 0
         then bind_r (ensure (length (auto_compounding s candidate) mod 2 ^ 32 \<le> auto_hint)
                        (Module TooLowCandidateAutoCompoundingDelegationCountToDelegate)) (\<lambda>_.
              Inr (Some (auto_compounding s candidate)))
         else Inr None)) (\<lambda>auto_state.
     bind_p (add_delegation cfg candidate \<lparr>owner = who, bond_stake = st\<rparr> m s) (\<lambda>(position', decr, m1, s1).
     bind_p (Some (adjust_bond_lock cfg (Increase st) del s1)) (\<lambda>s2.
     let net_total_increase = (case decr of Some l \<Rightarrow> stake_sub st l | None \<Rightarrow> st);
         new_total_locked = stake_add (total_locked s2) net_total_increase;
         s3 = (case auto_state of
                 Some cs \<Rightarrow> s2\<lparr>auto_compounding := (auto_compounding s2)(candidate := fst (set_for_delegator who auto cs))\<rparr>
               | None \<Rightarrow> s2) in
     Some (Inr (deposit_staking_event (Delegation who st candidate position' auto)
       (put_delegator who (Some del) (put_candidate candidate (Some m1) (s3\<lparr>total_locked := new_total_locked\<rparr>)))))))))))))"

definition pallet_set_auto_compound ::
  "account_id \<Rightarrow> account_id \<Rightarrow> percent \<Rightarrow> u32 \<Rightarrow> u32 \<Rightarrow> 'env staking \<Rightarrow> serr + 'env staking" where
  "pallet_set_auto_compound candidate who v auto_hint del_hint s =
     bind_r (ok_or (delegator_state s who) (Module DelegatorDNE)) (\<lambda>state.
     bind_r (ensure (length (delegations state) \<le> del_hint) (Module TooLowDelegationCountToAutoCompound)) (\<lambda>_.
     bind_r (ensure (list_ex (\<lambda>b. owner b = candidate) (delegations state)) (Module DelegationDNE)) (\<lambda>_.
     bind_r (ensure (length (auto_compounding s candidate) mod 2 ^ 32 \<le> auto_hint)
               (Module TooLowCandidateAutoCompoundingDelegationCountToAutoCompound)) (\<lambda>_.
     let (cs, updated) = (if v = 0 then remove_for_delegator who (auto_compounding s candidate)
                          else set_for_delegator who v (auto_compounding s candidate));
         s1 = (if updated then s\<lparr>auto_compounding := (auto_compounding s)(candidate := cs)\<rparr> else s) in
     Inr (deposit_staking_event (AutoCompoundSet candidate who v) s1)))))"

section \<open>Inflation (inflation.rs)\<close>

text \<open>Division by a round length of zero panics; so does the fixed-point division by zero rounds.\<close>

definition rounds_per_year :: "'env staking \<Rightarrow> u32 option" where
  "rounds_per_year s = checked_div BLOCKS_PER_YEAR (round_length (round_state s))"

definition annual_rate_to_round ::
  "('env, 'fx) staking_config \<Rightarrow> 'fx \<Rightarrow> perbill \<Rightarrow> perbill option" where
  "annual_rate_to_round cfg ex rate =
     Option.bind (fx_div cfg (fx_from_num cfg rate) (fx_from_num cfg (10 ^ 9))) (\<lambda>x.
     Option.bind (floatpow cfg (fx_add cfg (fx_from_num cfg 1) x) ex) (\<lambda>y.
     Some (perbill_from_parts cfg
       (fx_ceil_u32 cfg (fx_mul cfg (fx_sub cfg y (fx_from_num cfg 1)) (fx_from_num cfg (10 ^ 9)))))))"

definition perbill_annual_to_perbill_round ::
  "('env, 'fx) staking_config \<Rightarrow> perbill_range \<Rightarrow> u32 \<Rightarrow> perbill_range option" where
  "perbill_annual_to_perbill_round cfg rates rounds =
     Option.bind (fx_div cfg (fx_from_num cfg 1) (fx_from_num cfg rounds)) (\<lambda>ex.
     Option.bind (annual_rate_to_round cfg ex (range_min rates)) (\<lambda>lo.
     Option.bind (annual_rate_to_round cfg ex (range_ideal rates)) (\<lambda>id'.
     Some \<lparr>range_min = lo, range_ideal = id'\<rparr>)))"

definition annual_to_round ::
  "('env, 'fx) staking_config \<Rightarrow> perbill_range \<Rightarrow> 'env staking \<Rightarrow> perbill_range option" where
  "annual_to_round cfg rates s =
     Option.bind (rounds_per_year s) (perbill_annual_to_perbill_round cfg rates)"

definition new_inflation_info ::
  "('env, 'fx) staking_config \<Rightarrow> inflation_info_without_round \<Rightarrow> 'env staking \<Rightarrow> inflation_info option" where
  "new_inflation_info cfg info s =
     map_option (\<lambda>r. \<lparr>ideal_staked = wr_ideal_staked info, annual = wr_annual info, round_inflation = r,
                      decay_rate = wr_decay_rate info\<rparr>) (annual_to_round cfg (wr_annual info) s)"

definition reset_round ::
  "('env, 'fx) staking_config \<Rightarrow> u32 \<Rightarrow> inflation_info \<Rightarrow> inflation_info option" where
  "reset_round cfg new_length info =
     Option.bind (checked_div BLOCKS_PER_YEAR new_length) (\<lambda>periods.
     map_option (\<lambda>r. info\<lparr>round_inflation := r\<rparr>) (perbill_annual_to_perbill_round cfg (annual info) periods))"

definition round_issuance ::
  "('env, 'fx) staking_config \<Rightarrow> inflation_info \<Rightarrow> balance \<Rightarrow> 'env staking \<Rightarrow> balance" where
  "round_issuance cfg info staked_amount s =
     (let circulating = total_issuance cfg (staking_env s);
          staked_percentage = perbill_from_rational cfg staked_amount circulating;
          r = round_inflation info;
          factor = compute_inflation cfg staked_percentage (ideal_staked info) (decay_rate info);
          rate = perbill_add cfg (range_min r) (perbill_times cfg (perbill_sub cfg (range_ideal r) (range_min r)) factor) in
      perbill_mul cfg rate circulating)"

definition compute_issuance :: "('env, 'fx) staking_config \<Rightarrow> balance \<Rightarrow> 'env staking \<Rightarrow> balance" where
  "compute_issuance cfg staked_amount s = round_issuance cfg (inflation_config s) staked_amount s"

section \<open>Calls of the governance (lib.rs)\<close>

definition set_staking_expectation ::
  "('env, 'fx) staking_config \<Rightarrow> origin \<Rightarrow> perbill \<Rightarrow> perbill option \<Rightarrow> 'env staking \<Rightarrow> serr + 'env staking" where
  "set_staking_expectation cfg o' ideal decay s =
     bind_r (monetary_governance_origin cfg o') (\<lambda>_.
     let config = inflation_config s in
     bind_r (ensure (ideal_staked config \<noteq> ideal) (Module NoWritingSameValue)) (\<lambda>_.
     let config1 = config\<lparr>ideal_staked := ideal\<rparr>;
         config2 = (case decay of Some d \<Rightarrow> config1\<lparr>decay_rate := d\<rparr> | None \<Rightarrow> config1) in
     Inr ((deposit_staking_event (StakeExpectationSet ideal decay) s)\<lparr>inflation_config := config2\<rparr>)))"

definition set_inflation ::
  "('env, 'fx) staking_config \<Rightarrow> origin \<Rightarrow> perbill_range \<Rightarrow> 'env staking \<Rightarrow> 'env call_result" where
  "set_inflation cfg o' sched s =
     bind_p (Some (monetary_governance_origin cfg o')) (\<lambda>_.
     bind_p (Some (ensure (range_is_valid sched) (Module InvalidSchedule))) (\<lambda>_.
     bind_p (Some (ensure (annual (inflation_config s) \<noteq> sched) (Module NoWritingSameValue))) (\<lambda>_.
     Option.bind (annual_to_round cfg sched s) (\<lambda>r.
     Some (Inr ((deposit_staking_event (InflationSet (range_min sched) (range_ideal sched) (range_min r) (range_ideal r)) s)
       \<lparr>inflation_config := (inflation_config s)\<lparr>annual := sched, round_inflation := r\<rparr>\<rparr>))))))"

definition set_parachain_bond_account ::
  "('env, 'fx) staking_config \<Rightarrow> origin \<Rightarrow> account_id \<Rightarrow> 'env staking \<Rightarrow> serr + 'env staking" where
  "set_parachain_bond_account cfg o' new s =
     bind_r (monetary_governance_origin cfg o') (\<lambda>_.
     let old = pb_account (parachain_bond_info s) in
     bind_r (ensure (old \<noteq> new) (Module NoWritingSameValue)) (\<lambda>_.
     Inr (deposit_staking_event (ParachainBondAccountSet old new)
       (s\<lparr>parachain_bond_info := (parachain_bond_info s)\<lparr>pb_account := new\<rparr>\<rparr>))))"

definition set_parachain_bond_reserve_percent ::
  "('env, 'fx) staking_config \<Rightarrow> origin \<Rightarrow> percent \<Rightarrow> 'env staking \<Rightarrow> serr + 'env staking" where
  "set_parachain_bond_reserve_percent cfg o' new s =
     bind_r (monetary_governance_origin cfg o') (\<lambda>_.
     let old = pb_percent (parachain_bond_info s) in
     bind_r (ensure (old \<noteq> new) (Module NoWritingSameValue)) (\<lambda>_.
     Inr (deposit_staking_event (ParachainBondReservePercentSet old new)
       (s\<lparr>parachain_bond_info := (parachain_bond_info s)\<lparr>pb_percent := new\<rparr>\<rparr>))))"

definition set_total_selected ::
  "('env, 'fx) staking_config \<Rightarrow> origin \<Rightarrow> u32 \<Rightarrow> 'env staking \<Rightarrow> serr + 'env staking" where
  "set_total_selected cfg o' new s =
     bind_r (ensure_root o') (\<lambda>_.
     bind_r (ensure (new \<ge> MinSelectedCandidates cfg) (Module CannotSetBelowMin)) (\<lambda>_.
     let old = total_selected s in
     bind_r (ensure (old \<noteq> new) (Module NoWritingSameValue)) (\<lambda>_.
     bind_r (ensure (new < round_length (round_state s)) (Module RoundLengthMustBeGreaterThanTotalSelectedCollators)) (\<lambda>_.
     Inr (deposit_staking_event (TotalSelectedSet old new) (s\<lparr>total_selected := new\<rparr>))))))"

definition set_collator_commission :: "origin \<Rightarrow> perbill \<Rightarrow> 'env staking \<Rightarrow> serr + 'env staking" where
  "set_collator_commission o' new s =
     bind_r (ensure_root o') (\<lambda>_.
     let old = collator_commission s in
     bind_r (ensure (old \<noteq> new) (Module NoWritingSameValue)) (\<lambda>_.
     Inr (deposit_staking_event (CollatorCommissionSet old new) (s\<lparr>collator_commission := new\<rparr>))))"

definition set_blocks_per_round ::
  "('env, 'fx) staking_config \<Rightarrow> origin \<Rightarrow> u32 \<Rightarrow> 'env staking \<Rightarrow> 'env call_result" where
  "set_blocks_per_round cfg o' new s =
     bind_p (Some (ensure_root o')) (\<lambda>_.
     bind_p (Some (ensure (new \<ge> MinBlocksPerRound cfg) (Module CannotSetBelowMin))) (\<lambda>_.
     let r = round_state s in
     bind_p (Some (ensure (round_length r \<noteq> new) (Module NoWritingSameValue))) (\<lambda>_.
     bind_p (Some (ensure (new > total_selected s) (Module RoundLengthMustBeGreaterThanTotalSelectedCollators))) (\<lambda>_.
     Option.bind (reset_round cfg new (inflation_config s)) (\<lambda>info.
     Some (Inr ((deposit_staking_event
         (BlocksPerRoundSet (current r) (first r) (round_length r) new
            (range_min (round_inflation info)) (range_ideal (round_inflation info)))
         (s\<lparr>round_state := r\<lparr>round_length := new\<rparr>\<rparr>))\<lparr>inflation_config := info\<rparr>)))))))"

section \<open>Calls of candidates\<close>

definition join_candidates ::
  "('env, 'fx) staking_config \<Rightarrow> origin \<Rightarrow> balance \<Rightarrow> u32 \<Rightarrow> 'env staking \<Rightarrow> serr + 'env staking" where
  "join_candidates cfg o' bnd candidate_count s =
     bind_r (ensure_signed o') (\<lambda>acc.
     bind_r (ensure (\<not> is_candidate acc s) (Module CandidateExists)) (\<lambda>_.
     bind_r (ensure (\<not> is_delegator acc s) (Module DelegatorExists)) (\<lambda>_.
     bind_r (ensure (bnd \<ge> MinCandidateStk cfg) (Module CandidateBondBelowMin)) (\<lambda>_.
     bind_r (ensure (candidate_count \<ge> length (candidate_pool s) mod 2 ^ 32)
               (Module TooLowCandidateCountWeightHintJoinCandidates)) (\<lambda>_.
     bind_r (hook_power cfg acc bnd (staking_env s)) (\<lambda>st.
     let (candidates, inserted) = set_insert owner \<lparr>owner = acc, bond_stake = st\<rparr> (candidate_pool s) in
     bind_r (ensure inserted (Module CandidateExists)) (\<lambda>_.
     bind_r (get_collator_stakable_free_balance cfg acc s) (\<lambda>free.
     bind_r (ensure (free \<ge> bnd) (Module InsufficientBalance)) (\<lambda>_.
     let s1 = set_collator_lock acc (Some bnd) s in
     bind_r (hook_power cfg acc bnd (staking_env s1)) (\<lambda>st'.
     let s2 = put_bottom acc empty_delegations (put_top acc empty_delegations
                (put_candidate acc (Some (new_candidate_metadata st')) s1));
         new_total = stake_add (total_locked s2) st' in
     Inr (deposit_staking_event (JoinedCollatorCandidates acc st' new_total)
       (s2\<lparr>candidate_pool := candidates, total_locked := new_total\<rparr>))))))))))))"

definition schedule_leave_candidates ::
  "('env, 'fx) staking_config \<Rightarrow> origin \<Rightarrow> u32 \<Rightarrow> 'env staking \<Rightarrow> serr + 'env staking" where
  "schedule_leave_candidates cfg o' candidate_count s =
     bind_r (ensure_signed o') (\<lambda>collator.
     bind_r (ok_or (candidate_info s collator) (Module CandidateDNE)) (\<lambda>m.
     bind_r (schedule_leave cfg s m) (\<lambda>(now, when, m').
     bind_r (ensure (candidate_count \<ge> length (candidate_pool s) mod 2 ^ 32) (Module TooLowCandidateCountToLeaveCandidates)) (\<lambda>_.
     let (candidates, removed) = set_remove owner collator (candidate_pool s);
         s1 = (if removed then s\<lparr>candidate_pool := candidates\<rparr> else s) in
     Inr (deposit_staking_event (CandidateScheduledExit now collator when)
       (put_candidate collator (Some m') s1))))))"

text \<open>The closure \<open>return_stake\<close> of \<open>execute_leave_candidates\<close>.\<close>

definition return_stake ::
  "('env, 'fx) staking_config \<Rightarrow> account_id \<Rightarrow> bond \<Rightarrow> 'env staking \<Rightarrow> 'env staking option" where
  "return_stake cfg candidate b s =
     Option.bind (delegator_state s (owner b)) (\<lambda>d.
     Option.bind (rm_delegation cfg candidate d s) (\<lambda>(remaining, d1, s1).
     case remaining of
       Some r \<Rightarrow>
         let (d2, s2) = delegation_remove_request_with_state candidate (owner b) d1 s1;
             s3 = remove_auto_compound candidate (owner b) s2 in
         Some (if stake_is_zero r then set_delegator_lock (owner b) None (put_delegator (owner b) None s3)
               else put_delegator (owner b) (Some d2) s3)
     | None \<Rightarrow> Some (set_delegator_lock (owner b) None s1)))"

fun return_stakes ::
  "('env, 'fx) staking_config \<Rightarrow> account_id \<Rightarrow> bond list \<Rightarrow> 'env staking \<Rightarrow> 'env staking option" where
  "return_stakes cfg candidate [] s = Some s"
| "return_stakes cfg candidate (b # bs) s = Option.bind (return_stake cfg candidate b s) (return_stakes cfg candidate bs)"

definition drop_top :: "account_id \<Rightarrow> 'env staking \<Rightarrow> 'env staking" where
  "drop_top c s = s\<lparr>top_delegations := (top_delegations s)(c := None)\<rparr>"

definition drop_bottom :: "account_id \<Rightarrow> 'env staking \<Rightarrow> 'env staking" where
  "drop_bottom c s = s\<lparr>bottom_delegations := (bottom_delegations s)(c := None)\<rparr>"

definition execute_leave_candidates ::
  "('env, 'fx) staking_config \<Rightarrow> origin \<Rightarrow> account_id \<Rightarrow> u32 \<Rightarrow> 'env staking \<Rightarrow> 'env call_result" where
  "execute_leave_candidates cfg o' candidate candidate_delegation_count s =
     bind_p (Some (ensure_signed o')) (\<lambda>_.
     bind_p (Some (ok_or (candidate_info s candidate) (Module CandidateDNE))) (\<lambda>m.
     bind_p (Some (ensure (delegation_count m \<le> candidate_delegation_count)
                     (Module TooLowCandidateDelegationCountToLeaveCandidates))) (\<lambda>_.
     bind_p (Some (can_leave s m)) (\<lambda>_.
     Option.bind (top_delegations s candidate) (\<lambda>tops.
     Option.bind (return_stakes cfg candidate (dels tops) (drop_top candidate s)) (\<lambda>s1.
     Option.bind (bottom_delegations s1 candidate) (\<lambda>bots.
     Option.bind (return_stakes cfg candidate (dels bots) (drop_bottom candidate s1)) (\<lambda>s2.
     let total_backing = stake_add (stake_add (self_stake m) (dels_total tops)) (dels_total bots);
         s3 = drop_bottom candidate (drop_top candidate (put_candidate candidate None (set_collator_lock candidate None s2)));
         s4 = (set_requests candidate [] s3)\<lparr>auto_compounding := (auto_compounding s3)(candidate := [])\<rparr>;
         new_total = stake_sub (total_locked s4) total_backing in
     Some (Inr (deposit_staking_event (CandidateLeft candidate total_backing new_total)
       (s4\<lparr>total_locked := new_total\<rparr>)))))))))))"

definition cancel_leave_candidates :: "origin \<Rightarrow> u32 \<Rightarrow> 'env staking \<Rightarrow> serr + 'env staking" where
  "cancel_leave_candidates o' candidate_count s =
     bind_r (ensure_signed o') (\<lambda>collator.
     bind_r (ok_or (candidate_info s collator) (Module CandidateDNE)) (\<lambda>m.
     bind_r (ensure (is_leaving m) (Module CandidateNotLeaving)) (\<lambda>_.
     let m' = cand_go_online m in
     bind_r (ensure (length (candidate_pool s) mod 2 ^ 32 \<le> candidate_count)
               (Module TooLowCandidateCountWeightHintCancelLeaveCandidates)) (\<lambda>_.
     let (candidates, inserted) = set_insert owner \<lparr>owner = collator, bond_stake = total_stake_counted m'\<rparr> (candidate_pool s) in
     bind_r (ensure inserted (Module AlreadyActive)) (\<lambda>_.
     Inr (deposit_staking_event (CancelledCandidateExit collator)
       (put_candidate collator (Some m') (s\<lparr>candidate_pool := candidates\<rparr>))))))))"

definition go_offline :: "origin \<Rightarrow> 'env staking \<Rightarrow> serr + 'env staking" where
  "go_offline o' s =
     bind_r (ensure_signed o') (\<lambda>collator.
     bind_r (ok_or (candidate_info s collator) (Module CandidateDNE)) (\<lambda>m.
     bind_r (ensure (is_active m) (Module AlreadyOffline)) (\<lambda>_.
     let m' = cand_go_offline m;
         (candidates, removed) = set_remove owner collator (candidate_pool s);
         s1 = (if removed then s\<lparr>candidate_pool := candidates\<rparr> else s) in
     Inr (deposit_staking_event (CandidateWentOffline collator) (put_candidate collator (Some m') s1)))))"

definition go_online :: "origin \<Rightarrow> 'env staking \<Rightarrow> serr + 'env staking" where
  "go_online o' s =
     bind_r (ensure_signed o') (\<lambda>collator.
     bind_r (ok_or (candidate_info s collator) (Module CandidateDNE)) (\<lambda>m.
     bind_r (ensure (\<not> is_active m) (Module AlreadyActive)) (\<lambda>_.
     bind_r (ensure (\<not> is_leaving m) (Module CannotGoOnlineIfLeaving)) (\<lambda>_.
     let m' = cand_go_online m;
         (candidates, inserted) = set_insert owner \<lparr>owner = collator, bond_stake = total_stake_counted m'\<rparr> (candidate_pool s) in
     bind_r (ensure inserted (Module AlreadyActive)) (\<lambda>_.
     Inr (deposit_staking_event (CandidateBackOnline collator)
       (put_candidate collator (Some m') (s\<lparr>candidate_pool := candidates\<rparr>))))))))"

definition candidate_bond_more ::
  "('env, 'fx) staking_config \<Rightarrow> origin \<Rightarrow> balance \<Rightarrow> 'env staking \<Rightarrow> serr + 'env staking" where
  "candidate_bond_more cfg o' inc s =
     bind_r (ensure_signed o') (\<lambda>collator.
     bind_r (ok_or (candidate_info s collator) (Module CandidateDNE)) (\<lambda>m.
     bind_r (get_collator_stakable_free_balance cfg collator s) (\<lambda>free.
     bind_r (ensure (free \<ge> inc) (Module InsufficientBalance)) (\<lambda>_.
     bind_r (hook_power cfg collator inc (staking_env s)) (\<lambda>more_stake.
     let (m', s1) = bond_more collator more_stake m s;
         s2 = put_candidate collator (Some m') s1 in
     Inr (if is_active m' then update_active collator (total_stake_counted m') s2 else s2))))))"

definition schedule_candidate_bond_less ::
  "('env, 'fx) staking_config \<Rightarrow> origin \<Rightarrow> balance \<Rightarrow> 'env staking \<Rightarrow> serr + 'env staking" where
  "schedule_candidate_bond_less cfg o' decr s =
     bind_r (ensure_signed o') (\<lambda>collator.
     bind_r (ok_or (candidate_info s collator) (Module CandidateDNE)) (\<lambda>m.
     bind_r (schedule_bond_less cfg decr s m) (\<lambda>(when, m').
     Inr (deposit_staking_event (CandidateBondLessRequested collator decr when)
       (put_candidate collator (Some m') s)))))"

definition execute_candidate_bond_less ::
  "('env, 'fx) staking_config \<Rightarrow> origin \<Rightarrow> account_id \<Rightarrow> 'env staking \<Rightarrow> serr + 'env staking" where
  "execute_candidate_bond_less cfg o' candidate s =
     bind_r (ensure_signed o') (\<lambda>_.
     bind_r (ok_or (candidate_info s candidate) (Module CandidateDNE)) (\<lambda>m.
     bind_r (execute_bond_less cfg candidate m s) (\<lambda>(m', s1).
     Inr (put_candidate candidate (Some m') s1))))"

definition cancel_candidate_bond_less :: "origin \<Rightarrow> 'env staking \<Rightarrow> serr + 'env staking" where
  "cancel_candidate_bond_less o' s =
     bind_r (ensure_signed o') (\<lambda>collator.
     bind_r (ok_or (candidate_info s collator) (Module CandidateDNE)) (\<lambda>m.
     bind_r (cancel_bond_less collator m s) (\<lambda>(m', s1).
     Inr (put_candidate collator (Some m') s1))))"

section \<open>Calls of delegators\<close>

definition delegate_with_auto_compound ::
  "('env, 'fx) staking_config \<Rightarrow> origin \<Rightarrow> account_id \<Rightarrow> balance \<Rightarrow> percent \<Rightarrow> u32 \<Rightarrow> u32 \<Rightarrow> u32 \<Rightarrow> 'env staking \<Rightarrow> 'env call_result" where
  "delegate_with_auto_compound cfg o' candidate amt auto cand_hint auto_hint del_hint s =
     bind_p (Some (ensure_signed o')) (\<lambda>who.
     bind_p (Some (hook_power cfg who amt (staking_env s))) (\<lambda>st.
     pallet_delegate_with_auto_compound cfg candidate who st auto cand_hint auto_hint del_hint s))"

definition delegate ::
  "('env, 'fx) staking_config \<Rightarrow> origin \<Rightarrow> account_id \<Rightarrow> balance \<Rightarrow> u32 \<Rightarrow> u32 \<Rightarrow> 'env staking \<Rightarrow> 'env call_result" where
  "delegate cfg o' candidate amt cand_hint del_hint s =
     bind_p (Some (ensure_signed o')) (\<lambda>who.
     bind_p (Some (hook_power cfg who amt (staking_env s))) (\<lambda>st.
     pallet_delegate_with_auto_compound cfg candidate who st 0 cand_hint 0 del_hint s))"

definition schedule_leave_delegators ::
  "('env, 'fx) staking_config \<Rightarrow> origin \<Rightarrow> 'env staking \<Rightarrow> serr + 'env staking" where
  "schedule_leave_delegators cfg o' s = bind_r (ensure_signed o') (\<lambda>who. delegator_schedule_revoke_all cfg who s)"

definition execute_leave_delegators ::
  "('env, 'fx) staking_config \<Rightarrow> origin \<Rightarrow> account_id \<Rightarrow> u32 \<Rightarrow> 'env staking \<Rightarrow> 'env call_result" where
  "execute_leave_delegators cfg o' who cnt s =
     bind_p (Some (ensure_signed o')) (\<lambda>_. delegator_execute_scheduled_revoke_all cfg who cnt s)"

definition cancel_leave_delegators :: "origin \<Rightarrow> 'env staking \<Rightarrow> serr + 'env staking" where
  "cancel_leave_delegators o' s = bind_r (ensure_signed o') (\<lambda>who. delegator_cancel_scheduled_revoke_all who s)"

definition schedule_revoke_delegation ::
  "('env, 'fx) staking_config \<Rightarrow> origin \<Rightarrow> account_id \<Rightarrow> 'env staking \<Rightarrow> serr + 'env staking" where
  "schedule_revoke_delegation cfg o' collator s =
     bind_r (ensure_signed o') (\<lambda>who. delegation_schedule_revoke cfg collator who s)"

definition delegation_bond_more_without_event ::
  "('env, 'fx) staking_config \<Rightarrow> account_id \<Rightarrow> account_id \<Rightarrow> stake \<Rightarrow> 'env staking \<Rightarrow> (bool, 'env) kept_result" where
  "delegation_bond_more_without_event cfg who candidate inc s =
     (if delegation_request_revoke_exists candidate who s then Some (Inl (Module PendingDelegationRevoke), s)
      else case delegator_state s who of
             None \<Rightarrow> Some (Inl (Module DelegatorDNE), s)
           | Some state \<Rightarrow> increase_delegation cfg candidate inc state s)"

definition delegator_bond_more ::
  "('env, 'fx) staking_config \<Rightarrow> origin \<Rightarrow> account_id \<Rightarrow> balance \<Rightarrow> 'env staking \<Rightarrow> 'env call_result" where
  "delegator_bond_more cfg o' candidate inc s =
     bind_p (Some (ensure_signed o')) (\<lambda>who.
     bind_p (Some (hook_power cfg who inc (staking_env s))) (\<lambda>more_stake.
     bind_p (roll_back (delegation_bond_more_without_event cfg who candidate more_stake s)) (\<lambda>(in_top, s1).
     Some (Inr (deposit_staking_event (DelegationIncreased who candidate more_stake in_top) s1)))))"

definition schedule_delegator_bond_less ::
  "('env, 'fx) staking_config \<Rightarrow> origin \<Rightarrow> account_id \<Rightarrow> balance \<Rightarrow> 'env staking \<Rightarrow> serr + 'env staking" where
  "schedule_delegator_bond_less cfg o' candidate decr s =
     bind_r (ensure_signed o') (\<lambda>who.
     bind_r (hook_power cfg who decr (staking_env s)) (\<lambda>less_stake.
     delegation_schedule_bond_decrease cfg candidate who less_stake s))"

definition execute_delegation_request ::
  "('env, 'fx) staking_config \<Rightarrow> origin \<Rightarrow> account_id \<Rightarrow> account_id \<Rightarrow> 'env staking \<Rightarrow> 'env call_result" where
  "execute_delegation_request cfg o' who candidate s =
     bind_p (Some (ensure_signed o')) (\<lambda>_. delegation_execute_scheduled_request cfg candidate who s)"

definition cancel_delegation_request :: "origin \<Rightarrow> account_id \<Rightarrow> 'env staking \<Rightarrow> serr + 'env staking" where
  "cancel_delegation_request o' candidate s =
     bind_r (ensure_signed o') (\<lambda>who. delegation_cancel_request candidate who s)"

definition set_auto_compound ::
  "origin \<Rightarrow> account_id \<Rightarrow> percent \<Rightarrow> u32 \<Rightarrow> u32 \<Rightarrow> 'env staking \<Rightarrow> serr + 'env staking" where
  "set_auto_compound o' candidate v auto_hint del_hint s =
     bind_r (ensure_signed o') (\<lambda>who. pallet_set_auto_compound candidate who v auto_hint del_hint s)"

definition hotfix_remove_delegation_requests_exited_candidates ::
  "origin \<Rightarrow> account_id list \<Rightarrow> 'env staking \<Rightarrow> serr + 'env staking" where
  "hotfix_remove_delegation_requests_exited_candidates o' candidates s =
     bind_r (ensure_signed o') (\<lambda>_.
     bind_r (ensure (length candidates < 100) (Module InsufficientBalance)) (\<lambda>_.
     bind_r (ensure (\<forall>c\<in>set candidates. candidate_info s c = None \<and> scheduled_requests s c = [])
               (Module CandidateNotLeaving)) (\<lambda>_.
     Inr (fold (\<lambda>c. set_requests c []) candidates s))))"

section \<open>Selecting collators\<close>

text \<open>
  \<open>select_nth_unstable_by\<close> leaves the \<open>top_n\<close> greatest candidates in front, in an order that does not
  matter because their accounts are sorted afterwards: here the whole vector is sorted.
\<close>

definition compute_top_candidates :: "'env staking \<Rightarrow> account_id list" where
  "compute_top_candidates s =
     (let top_n = total_selected s; candidates = candidate_pool s in
      if top_n = 0 then []
      else if length candidates > top_n
      then sort (map owner (take top_n (sort_greatest_to_least_by (\<lambda>b. (bond_stake b, owner b)) candidates)))
      else map owner candidates)"

text \<open>The closure of \<open>get_rewardable_delegators\<close>, with the accumulated uncounted stake.\<close>

fun count_delegations :: "(account_id \<rightharpoonup> delegation_action) \<Rightarrow> bond list \<Rightarrow> stake \<Rightarrow> stake \<times> bond list" where
  "count_delegations reqs [] uncounted = (uncounted, [])"
| "count_delegations reqs (b # bs) uncounted =
     (let (uncounted1, st) =
        (case reqs (owner b) of
           None \<Rightarrow> (uncounted, bond_stake b)
         | Some (Revoke _) \<Rightarrow> (stake_add uncounted (bond_stake b), stake_zero)
         | Some (Decrease amt) \<Rightarrow> (stake_add uncounted amt, stake_sub (bond_stake b) amt));
        (uncounted2, bs') = count_delegations reqs bs uncounted1 in
      (uncounted2, b\<lparr>bond_stake := st\<rparr> # bs'))"

definition get_rewardable_delegators :: "account_id \<Rightarrow> 'env staking \<Rightarrow> (stake \<times> bond list) option" where
  "get_rewardable_delegators collator s =
     map_option (\<lambda>tops. count_delegations
         (map_of (rev (map (\<lambda>r. (req_delegator r, req_action r)) (scheduled_requests s collator))))
         (dels tops) stake_zero)
       (top_delegations s collator)"

definition collator_snapshot_of :: "account_id \<Rightarrow> candidate_metadata \<Rightarrow> 'env staking \<Rightarrow> collator_snapshot option" where
  "collator_snapshot_of account m s =
     map_option (\<lambda>(uncounted, rewardable).
         let autos = map_of (rev (map (\<lambda>c. (acc_delegator c, acc_value c)) (auto_compounding s account))) in
         \<lparr>snap_stake = self_stake m,
          snap_delegations = map (\<lambda>d. \<lparr>bac_owner = owner d, bac_stake = bond_stake d,
                                       bac_auto_compound = unwrap_or (autos (owner d)) 0\<rparr>) rewardable,
          snap_total = stake_sub (total_stake_counted m) uncounted\<rparr>)
       (get_rewardable_delegators account s)"

definition put_at_stake :: "round_index \<Rightarrow> account_id \<Rightarrow> collator_snapshot \<Rightarrow> 'env staking \<Rightarrow> 'env staking" where
  "put_at_stake now account snapshot s =
     s\<lparr>at_stake := (at_stake s)(now := AList.update account snapshot (at_stake s now))\<rparr>"

type_synonym selection = "u32 \<times> u32 \<times> stake"

fun snapshot_collators ::
  "round_index \<Rightarrow> account_id list \<Rightarrow> selection \<Rightarrow> 'env staking \<Rightarrow> (selection \<times> 'env staking) option" where
  "snapshot_collators now [] acc s = Some (acc, s)"
| "snapshot_collators now (account # rest) (cc, dc, tot) s =
     Option.bind (candidate_info s account) (\<lambda>m.
     Option.bind (collator_snapshot_of account m s) (\<lambda>snapshot.
     snapshot_collators now rest
       (saturating_add 32 cc 1, saturating_add 32 dc (delegation_count m), stake_add tot (total_stake_counted m))
       (deposit_staking_event (CollatorChosen now account (total_stake_counted m))
         (put_at_stake now account snapshot s))))"

fun copy_snapshots ::
  "round_index \<Rightarrow> (account_id \<times> collator_snapshot) list \<Rightarrow> selection \<Rightarrow> 'env staking \<Rightarrow> selection \<times> 'env staking" where
  "copy_snapshots now [] acc s = (acc, s)"
| "copy_snapshots now ((account, snapshot) # rest) (cc, dc, tot) s =
     copy_snapshots now rest
       (saturating_add 32 cc 1, saturating_add 32 dc (length (snap_delegations snapshot) mod 2 ^ 32), stake_add tot (snap_total snapshot))
       (put_at_stake now account snapshot s)"

fun announce_selected ::
  "round_index \<Rightarrow> (account_id \<rightharpoonup> collator_snapshot) \<Rightarrow> account_id list \<Rightarrow> 'env staking \<Rightarrow> 'env staking option" where
  "announce_selected now snaps [] s = Some s"
| "announce_selected now snaps (candidate # rest) s =
     Option.bind (snaps candidate) (\<lambda>snapshot.
     announce_selected now snaps rest
       (deposit_staking_event (CollatorChosen now candidate (snap_total snapshot)) s))"

definition select_top_candidates :: "round_index \<Rightarrow> 'env staking \<Rightarrow> (selection \<times> 'env staking) option" where
  "select_top_candidates now s =
     (let collators = compute_top_candidates s in
      if collators = [] then
        let last_round = now - 1;
            (sel, s1) = copy_snapshots now (at_stake s last_round) (0, 0, stake_zero) s in
        map_option (\<lambda>s2. (sel, s2))
          (announce_selected now (map_of (at_stake s last_round)) (selected_candidates s1) s1)
      else map_option (\<lambda>(sel, s1). (sel, s1\<lparr>selected_candidates := collators\<rparr>))
             (snapshot_collators now collators (0, 0, stake_zero) s))"

section \<open>Payouts\<close>

definition prepare_staking_payouts ::
  "('env, 'fx) staking_config \<Rightarrow> round_index \<Rightarrow> 'env staking \<Rightarrow> 'env staking" where
  "prepare_staking_payouts cfg now s =
     (if now \<le> RewardPaymentDelay cfg then s
      else let round_to_payout = now - RewardPaymentDelay cfg in
        if points s round_to_payout = 0 then s
        else let s1 = s\<lparr>staked := (staked s)(round_to_payout := stake_zero)\<rparr>;
                 issuance = compute_issuance cfg (st_amount (staked s round_to_payout)) s1;
                 bond_config = parachain_bond_info s1;
                 reserve = percent_mul cfg (pb_percent bond_config) issuance;
                 (left_issuance, s2) =
                   (case deposit_into_existing cfg (pb_account bond_config) reserve (staking_env s1) of
                      Some (imb, env) \<Rightarrow>
                        (issuance - imb,
                         deposit_staking_event (ReservedForParachainBond (pb_account bond_config) imb) (s1\<lparr>staking_env := env\<rparr>))
                    | None \<Rightarrow> (issuance, s1)) in
          s2\<lparr>delayed_payouts := (delayed_payouts s2)(round_to_payout \<mapsto>
              \<lparr>round_issuance_of = issuance, total_staking_reward = left_issuance,
               payout_commission = collator_commission s2\<rparr>)\<rparr>)"

definition mint :: "('env, 'fx) staking_config \<Rightarrow> balance \<Rightarrow> account_id \<Rightarrow> 'env staking \<Rightarrow> 'env staking" where
  "mint cfg amt to s =
     (case deposit_into_existing cfg to amt (staking_env s) of
        Some (_, env) \<Rightarrow> s\<lparr>staking_env := env\<rparr>
      | None \<Rightarrow> s)"

text \<open>The default of the hook \<open>payout_collator_reward\<close>.\<close>

definition mint_collator_reward ::
  "('env, 'fx) staking_config \<Rightarrow> round_index \<Rightarrow> account_id \<Rightarrow> balance \<Rightarrow> 'env staking \<Rightarrow> 'env staking" where
  "mint_collator_reward cfg paid_for_round collator amt s =
     (case deposit_into_existing cfg collator amt (staking_env s) of
        Some (_, env) \<Rightarrow> s\<lparr>staking_env := env\<rparr>
      | None \<Rightarrow> s)"

definition mint_and_compound ::
  "('env, 'fx) staking_config \<Rightarrow> balance \<Rightarrow> percent \<Rightarrow> account_id \<Rightarrow> account_id \<Rightarrow> 'env staking \<Rightarrow> (unit, 'env) kept_result" where
  "mint_and_compound cfg amt compound_percent candidate who s =
     (case deposit_into_existing cfg who amt (staking_env s) of
        None \<Rightarrow> Some (Inr (), s)
      | Some (transferred, env) \<Rightarrow>
          let s1 = deposit_staking_event (Rewarded who transferred) (s\<lparr>staking_env := env\<rparr>);
              compound_amount = percent_mul_ceil cfg compound_percent transferred in
          if compound_amount = 0 then Some (Inr (), s1)
          else case hook_power cfg who compound_amount (staking_env s1) of
            Inl e \<Rightarrow> Some (Inl e, s1)
          | Inr compound_stake \<Rightarrow>
              (case delegation_bond_more_without_event cfg who candidate compound_stake s1 of
                 None \<Rightarrow> None
               | Some (Inl e, s2) \<Rightarrow> Some (Inl e, s2)
               | Some (Inr _, s2) \<Rightarrow>
                   (case hook_compound cfg who compound_amount (staking_env s2) of
                      (Inl e, env2) \<Rightarrow> Some (Inl e, s2\<lparr>staking_env := env2\<rparr>)
                    | (Inr _, env2) \<Rightarrow>
                        Some (Inr (), deposit_staking_event (Compounded candidate who compound_amount)
                                        (s2\<lparr>staking_env := env2\<rparr>)))))"

datatype reward_payment = Paid | Skipped | Finished

definition delegator_due :: "('env, 'fx) staking_config \<Rightarrow> collator_snapshot \<Rightarrow> balance \<Rightarrow> bond_with_auto_compound \<Rightarrow> balance" where
  "delegator_due cfg snapshot amt_due d =
     perbill_mul cfg (perbill_from_rational cfg (st_power (bac_stake d)) (st_power (snap_total snapshot))) amt_due"

text \<open>The loop over the delegators: an error is logged, the next one is paid.\<close>

fun pay_delegators ::
  "('env, 'fx) staking_config \<Rightarrow> account_id \<Rightarrow> collator_snapshot \<Rightarrow> balance \<Rightarrow> bond_with_auto_compound list \<Rightarrow>
   'env staking \<Rightarrow> 'env staking option" where
  "pay_delegators cfg collator snapshot amt_due [] s = Some s"
| "pay_delegators cfg collator snapshot amt_due (d # ds) s =
     (let due = delegator_due cfg snapshot amt_due d in
      if due = 0 then pay_delegators cfg collator snapshot amt_due ds s
      else Option.bind (mint_and_compound cfg due (bac_auto_compound d) collator (bac_owner d) s) (\<lambda>(_, s1).
           pay_delegators cfg collator snapshot amt_due ds s1))"

definition reward_collator ::
  "('env, 'fx) staking_config \<Rightarrow> round_index \<Rightarrow> account_id \<Rightarrow> balance \<Rightarrow> 'env staking \<Rightarrow> 'env staking" where
  "reward_collator cfg paid_for_round collator reward s =
     deposit_staking_event (Rewarded collator reward)
       (s\<lparr>staking_env := payout_collator_reward cfg paid_for_round collator reward (staking_env s)\<rparr>)"

definition pay_one_collator_reward ::
  "('env, 'fx) staking_config \<Rightarrow> round_index \<Rightarrow> delayed_payout \<Rightarrow> 'env staking \<Rightarrow> (reward_payment \<times> 'env staking) option" where
  "pay_one_collator_reward cfg paid_for_round payout s =
     (let total_points = points s paid_for_round in
      if total_points = 0 then Some (Finished, s)
      else let collator_issuance = perbill_mul cfg (payout_commission payout) (round_issuance_of payout) in
        case at_stake s paid_for_round of
          [] \<Rightarrow> Some (Finished, s)
        | (collator, snapshot) # rest \<Rightarrow>
            let s1 = s\<lparr>at_stake := (at_stake s)(paid_for_round := rest)\<rparr>;
                pts = awarded_pts s1 paid_for_round collator;
                s2 = s1\<lparr>awarded_pts := (awarded_pts s1)(paid_for_round := (awarded_pts s1 paid_for_round)(collator := 0))\<rparr> in
            if pts = 0 then Some (Skipped, s2)
            else let pct_due = perbill_from_rational cfg pts total_points;
                     total_paid = perbill_mul cfg pct_due (total_staking_reward payout) in
              if snap_delegations snapshot = []
              then Some (Paid, reward_collator cfg paid_for_round collator total_paid s2)
              else let collator_pct = perbill_from_rational cfg (st_power (snap_stake snapshot)) (st_power (snap_total snapshot));
                       commission = perbill_mul cfg pct_due collator_issuance;
                       amt_due = total_paid - commission;
                       collator_reward = saturating_add 128 (perbill_mul cfg collator_pct amt_due) commission in
                map_option (\<lambda>s3. (Paid, s3))
                  (pay_delegators cfg collator snapshot amt_due (snap_delegations snapshot)
                    (reward_collator cfg paid_for_round collator collator_reward s2)))"

definition handle_delayed_payouts ::
  "('env, 'fx) staking_config \<Rightarrow> round_index \<Rightarrow> 'env staking \<Rightarrow> 'env staking option" where
  "handle_delayed_payouts cfg now s =
     (if now < RewardPaymentDelay cfg then Some s
      else let paid_for_round = now - RewardPaymentDelay cfg in
        case delayed_payouts s paid_for_round of
          None \<Rightarrow> Some s
        | Some payout \<Rightarrow>
            map_option (\<lambda>(result, s1).
              if result = Finished
              then s1\<lparr>delayed_payouts := (delayed_payouts s1)(paid_for_round := None),
                      points := (points s1)(paid_for_round := 0)\<rparr>
              else s1)
              (pay_one_collator_reward cfg paid_for_round payout s))"

section \<open>Hooks of the block\<close>

definition on_initialize :: "('env, 'fx) staking_config \<Rightarrow> block_number \<Rightarrow> 'env staking \<Rightarrow> 'env staking option" where
  "on_initialize cfg n s =
     (if should_update (round_state s) n then
        let r = round_update n (round_state s);
            s1 = s\<lparr>staking_env := on_new_round cfg (current r) (staking_env s)\<rparr>;
            s2 = prepare_staking_payouts cfg (current r) s1 in
        map_option (\<lambda>((collator_count, _, total_staked), s3).
            deposit_staking_event (NewRound (first r) (current r) collator_count total_staked)
              (s3\<lparr>round_state := r, staked := (staked s3)(current r := total_locked s3)\<rparr>))
          (select_top_candidates (current r) s2)
      else handle_delayed_payouts cfg (current (round_state s)) s)"

definition award_points_to_block_author :: "('env, 'fx) staking_config \<Rightarrow> 'env staking \<Rightarrow> 'env staking" where
  "award_points_to_block_author cfg s =
     (let author = block_author cfg (staking_env s);
          now = current (round_state s) in
      s\<lparr>awarded_pts := (awarded_pts s)(now := (awarded_pts s now)(author := saturating_add 32 (awarded_pts s now author) 20)),
        points := (points s)(now := saturating_add 32 (points s now) 20)\<rparr>)"

definition on_finalize :: "('env, 'fx) staking_config \<Rightarrow> block_number \<Rightarrow> 'env staking \<Rightarrow> 'env staking" where
  "on_finalize cfg n s = award_points_to_block_author cfg s"

section \<open>Changes of power, called by the vesting pallet\<close>

fun power_decreased_bonds ::
  "('env, 'fx) staking_config \<Rightarrow> account_id \<Rightarrow> perbill \<Rightarrow> bond list \<Rightarrow> delegator \<Rightarrow> 'env staking \<Rightarrow> 'env call_result" where
  "power_decreased_bonds cfg acc pb [] d s = Some (Inr s)"
| "power_decreased_bonds cfg acc pb (b # bs) d s =
     (let st = new_stake 0 (perbill_mul cfg pb (st_power (bond_stake b))) in
      Option.bind (decrease_delegator_stake cfg (owner b) acc st d s) (\<lambda>(r, d1, s1).
      case r of
        Inr _ \<Rightarrow> power_decreased_bonds cfg acc pb bs d1 s1
      | Inl e \<Rightarrow>
          if e = Module DelegatorBondBelowMin
          then bind_p (revoke_delegator_stake cfg (owner b) acc st d1 s1) (\<lambda>(d2, s2).
               power_decreased_bonds cfg acc pb bs d2 s2)
          else Some (Inl e)))"

definition power_decreased ::
  "('env, 'fx) staking_config \<Rightarrow> account_id \<Rightarrow> perbill \<Rightarrow> 'env staking \<Rightarrow> 'env call_result" where
  "power_decreased cfg acc pb s =
     (let s1 = (case candidate_info s acc of
                  Some m \<Rightarrow>
                    let (m', s') = bond_less acc (new_stake 0 (perbill_mul cfg pb (st_power (self_stake m)))) m s in
                    put_candidate acc (Some m') s'
                | None \<Rightarrow> s) in
      case delegator_state s1 acc of
        None \<Rightarrow> Some (Inr s1)
      | Some d \<Rightarrow> power_decreased_bonds cfg acc pb (delegations d) d s1)"

fun power_increased_bonds ::
  "('env, 'fx) staking_config \<Rightarrow> account_id \<Rightarrow> perbill \<Rightarrow> bond list \<Rightarrow> 'env staking \<Rightarrow> 'env call_result" where
  "power_increased_bonds cfg acc pb [] s = Some (Inr s)"
| "power_increased_bonds cfg acc pb (b # bs) s =
     bind_p (roll_back (delegation_bond_more_without_event cfg acc (owner b)
               (new_stake 0 (saturating_reciprocal_mul_floor cfg pb (st_power (bond_stake b)))) s)) (\<lambda>(_, s1).
     power_increased_bonds cfg acc pb bs s1)"

text \<open>The metadata that \<open>bond_more\<close> changes are a local copy, which is not written back.\<close>

definition power_increased ::
  "('env, 'fx) staking_config \<Rightarrow> account_id \<Rightarrow> perbill \<Rightarrow> 'env staking \<Rightarrow> 'env call_result" where
  "power_increased cfg acc pb s =
     (let s1 = (case candidate_info s acc of
                  Some m \<Rightarrow>
                    snd (bond_more acc (new_stake 0 (saturating_reciprocal_mul_floor cfg pb (st_power (self_stake m)))) m s)
                | None \<Rightarrow> s) in
      case delegator_state s1 acc of
        None \<Rightarrow> Some (Inr s1)
      | Some d \<Rightarrow> power_increased_bonds cfg acc pb (delegations d) s1)"

section \<open>Genesis\<close>

record staking_genesis =
  g_candidates :: "(account_id \<times> balance) list"
  g_delegations :: "(account_id \<times> account_id \<times> balance \<times> percent) list"
  g_inflation_config :: inflation_info_without_round
  g_collator_commission :: perbill
  g_parachain_bond_reserve_percent :: percent
  g_blocks_per_round :: u32
  g_num_selected_candidates :: u32

text \<open>The storage before the genesis block: every item has its default.\<close>

definition empty_staking :: "inflation_info \<Rightarrow> 'env \<Rightarrow> 'env staking" where
  "empty_staking info env =
     \<lparr>collator_commission = 0, total_selected = 0,
      parachain_bond_info = \<lparr>pb_account = 0, pb_percent = 0\<rparr>,
      round_state = \<lparr>current = 1, first = 1, round_length = 20\<rparr>,
      delegator_state = Map.empty, candidate_info = Map.empty,
      scheduled_requests = (\<lambda>_. []), auto_compounding = (\<lambda>_. []),
      top_delegations = Map.empty, bottom_delegations = Map.empty,
      selected_candidates = [], total_locked = stake_zero, candidate_pool = [],
      at_stake = (\<lambda>_. []), delayed_payouts = Map.empty, staked = (\<lambda>_. stake_zero),
      inflation_config = info, points = (\<lambda>_. 0), awarded_pts = (\<lambda>_ _. 0),
      collator_locks = Map.empty, delegator_locks = Map.empty, staking_events = [], staking_env = env\<rparr>"

text \<open>A failing assertion panics; a failing call is logged.\<close>

fun genesis_candidates ::
  "('env, 'fx) staking_config \<Rightarrow> (account_id \<times> balance) list \<Rightarrow> u32 \<Rightarrow> 'env staking \<Rightarrow> 'env staking option" where
  "genesis_candidates cfg [] cnt s = Some s"
| "genesis_candidates cfg ((candidate, balance) # rest) cnt s =
     (case get_collator_stakable_free_balance cfg candidate s of
        Inl _ \<Rightarrow> genesis_candidates cfg rest cnt s
      | Inr free \<Rightarrow>
          if free < balance then None
          else case join_candidates cfg (Signed candidate) balance cnt s of
                 Inl _ \<Rightarrow> genesis_candidates cfg rest cnt s
               | Inr s1 \<Rightarrow> genesis_candidates cfg rest (saturating_add 32 cnt 1) s1)"

definition bump :: "account_id \<Rightarrow> (account_id \<Rightarrow> u32) \<Rightarrow> account_id \<Rightarrow> u32" where
  "bump a f = f(a := saturating_add 32 (f a) 1)"

fun genesis_delegations ::
  "('env, 'fx) staking_config \<Rightarrow> (account_id \<times> account_id \<times> balance \<times> percent) list \<Rightarrow>
   (account_id \<Rightarrow> u32) \<Rightarrow> (account_id \<Rightarrow> u32) \<Rightarrow> (account_id \<Rightarrow> u32) \<Rightarrow> 'env staking \<Rightarrow> 'env staking option" where
  "genesis_delegations cfg [] col auto_col del s = Some s"
| "genesis_delegations cfg ((who, target, balance, auto) # rest) col auto_col del s =
     (case (hook_power cfg who balance (staking_env s), get_delegator_stakable_free_balance cfg who s) of
        (Inr st, Inr free) \<Rightarrow>
          if free < st then None
          else Option.bind (delegate_with_auto_compound cfg (Signed who) target balance auto
                      (col target) (auto_col target) (del who) s) (\<lambda>r.
            case r of
              Inl _ \<Rightarrow> genesis_delegations cfg rest col auto_col del s
            | Inr s1 \<Rightarrow>
                genesis_delegations cfg rest (bump target col)
                  (if auto \<noteq> 0 then bump target auto_col else auto_col) (bump who del) s1)
      | _ \<Rightarrow> None)"

definition genesis_build :: "('env, 'fx) staking_config \<Rightarrow> staking_genesis \<Rightarrow> 'env staking \<Rightarrow> 'env staking option" where
  "genesis_build cfg g s =
     (if g_blocks_per_round g = 0 then None
      else Option.bind (genesis_candidates cfg (g_candidates g) 0 s) (\<lambda>s1.
      Option.bind (genesis_delegations cfg (g_delegations g) (\<lambda>_. 0) (\<lambda>_. 0) (\<lambda>_. 0) s1) (\<lambda>s2.
      if g_num_selected_candidates g < MinSelectedCandidates cfg then None
      else Option.bind (select_top_candidates 1 (s2
          \<lparr>collator_commission := g_collator_commission g,
           parachain_bond_info := \<lparr>pb_account = 0, pb_percent = g_parachain_bond_reserve_percent g\<rparr>,
           total_selected := g_num_selected_candidates g\<rparr>)) (\<lambda>((v_count, _, total_staked), s3).
      let s4 = s3\<lparr>round_state := \<lparr>current = 1, first = 0, round_length = g_blocks_per_round g\<rparr>,
                  staked := (staked s3)(1 := total_locked s3)\<rparr> in
      Option.bind (new_inflation_info cfg (g_inflation_config g) s4) (\<lambda>info.
      Some (deposit_staking_event (NewRound 0 1 v_count total_staked) (s4\<lparr>inflation_config := info\<rparr>)))))))"

end
