(* ===== verification/Staking_Lists.thy ===== *)
theory Staking_Lists
  imports Parachain_Staking
begin

text \<open>
  The top and bottom delegations of a candidate as two lists of bonds: their invariant \<open>lists_ok\<close>, and
  for each edit that the methods of \<open>CandidateMetadata\<close> make (change a bond in place, move it between
  the lists, remove it, add one, kick the lowest) that the invariant is kept and that exactly one
  delegator's bond changes.
\<close>

section \<open>The lists of a candidate\<close>

text \<open>
  The top and the bottom delegations of a candidate: together from greatest to least, one bond per
  delegator, and the bottom is used only when the top is full.
\<close>

definition lists_ok :: "nat \<Rightarrow> nat \<Rightarrow> bond list \<Rightarrow> bond list \<Rightarrow> bool" where
  "lists_ok mt mb T B \<longleftrightarrow>
     descending bond_stake (T @ B) \<and> distinct (map owner (T @ B)) \<and>
     length T \<le> mt \<and> length B \<le> mb \<and> (B \<noteq> [] \<longrightarrow> length T = mt)"

definition stakes_of :: "bond list \<Rightarrow> account_id \<rightharpoonup> stake" where
  "stakes_of xs d = map_option bond_stake (find_by owner xs d)"

text \<open>The list \<open>xs'\<close> has the bond of \<open>d\<close> replaced, removed or added, and is the same otherwise.\<close>

definition edge_upd :: "account_id \<Rightarrow> stake option \<Rightarrow> bond list \<Rightarrow> bond list \<Rightarrow> bool" where
  "edge_upd d v xs xs' \<longleftrightarrow>
     mset xs' = filter_mset (\<lambda>x. owner x \<noteq> d) (mset xs) +
       (case v of None \<Rightarrow> {#} | Some st \<Rightarrow> {#\<lparr>owner = d, bond_stake = st\<rparr>#})"

lemma bond_eta: "b = \<lparr>owner = owner b, bond_stake = bond_stake b\<rparr>"
  by simp

lemma stakes_of_Some:
  "distinct (map owner xs) \<Longrightarrow> stakes_of xs d = Some st \<longleftrightarrow> \<lparr>owner = d, bond_stake = st\<rparr> \<in> set xs"
  by (auto simp: stakes_of_def find_by_Some) (metis bond.surjective old.unit.exhaust)

lemma stakes_of_None: "stakes_of xs d = None \<longleftrightarrow> d \<notin> owner ` set xs"
  by (simp add: stakes_of_def find_by_None)

lemma edge_upd_distinct:
  assumes "distinct (map owner xs)" and "edge_upd d v xs xs'"
  shows "distinct (map owner xs')"
proof -
  let ?ys = "filter (\<lambda>x. owner x \<noteq> d) xs"
  have "mset xs' = mset (case v of None \<Rightarrow> ?ys | Some st \<Rightarrow> \<lparr>owner = d, bond_stake = st\<rparr> # ?ys)"
    using assms(2) by (simp add: edge_upd_def split: option.splits)
  then have "mset (map owner xs') = mset (map owner (case v of None \<Rightarrow> ?ys | Some st \<Rightarrow> \<lparr>owner = d, bond_stake = st\<rparr> # ?ys))"
    by (simp only: mset_map)
  then have "distinct (map owner xs') = distinct (map owner (case v of None \<Rightarrow> ?ys | Some st \<Rightarrow> \<lparr>owner = d, bond_stake = st\<rparr> # ?ys))"
    by (rule mset_eq_imp_distinct_iff)
  with assms(1) show ?thesis by (auto simp: distinct_map_filter split: option.splits)
qed

lemma edge_upd_set:
  "edge_upd d v xs xs' \<Longrightarrow>
   set xs' = {x \<in> set xs. owner x \<noteq> d} \<union> (case v of None \<Rightarrow> {} | Some st \<Rightarrow> {\<lparr>owner = d, bond_stake = st\<rparr>})"
  unfolding edge_upd_def by (drule arg_cong [where f = set_mset]) (auto split: option.splits)

lemma edge_upd_stakes:
  assumes "distinct (map owner xs)" and "edge_upd d v xs xs'"
  shows "stakes_of xs' = (stakes_of xs)(d := v)"
  by (rule map_ext_Some)
    (auto simp: stakes_of_Some [OF edge_upd_distinct [OF assms]] stakes_of_Some [OF assms(1)] edge_upd_set [OF assms(2)]
      split: option.splits)

lemma edge_upd_length:
  assumes "distinct (map owner xs)" and "edge_upd d v xs xs'"
  shows "length xs' = length xs - (if d \<in> owner ` set xs then 1 else 0) + (if v = None then 0 else 1)"
proof -
  have "length (filter (\<lambda>x. owner x \<noteq> d) xs) = length xs - (if d \<in> owner ` set xs then 1 else 0)"
    using assms(1)
  proof (induction xs)
    case (Cons x xs)
    then show ?case by (cases xs) (auto simp: filter_id_conv)
  qed simp
  moreover have "length xs' = length (filter (\<lambda>x. owner x \<noteq> d) xs) + (if v = None then 0 else 1)"
    using arg_cong [OF assms(2) [unfolded edge_upd_def], of size] by (auto split: option.splits simp flip: mset_filter)
  ultimately show ?thesis by simp
qed

section \<open>Pieces of the lists\<close>

lemma taken_Some:
  "distinct (map owner xs) \<Longrightarrow> taken who xs = Some b \<longleftrightarrow> b \<in> set xs \<and> owner b = who"
proof -
  assume *: "distinct (map owner xs)"
  show ?thesis
  proof (cases "filter (\<lambda>x. owner x = who) xs")
    case Nil
    then show ?thesis by (auto simp: taken_def filter_empty_conv)
  next
    case (Cons y ys)
    from * have "distinct (map owner (filter (\<lambda>x. owner x = who) xs))" by (rule distinct_map_filter)
    moreover have "set (map owner (filter (\<lambda>x. owner x = who) xs)) \<subseteq> {who}" by auto
    ultimately have "ys = []" unfolding Cons by (cases ys) auto
    with Cons have f: "filter (\<lambda>x. owner x = who) xs = [y]" by simp
    then have "set [y] = {x \<in> set xs. owner x = who}" by (metis set_filter)
    then show ?thesis unfolding taken_def f by auto
  qed
qed

lemma taken_None: "taken who xs = None \<longleftrightarrow> who \<notin> owner ` set xs"
proof -
  have "taken who xs = None \<longleftrightarrow> filter (\<lambda>b. owner b = who) xs = []" by (simp add: taken_def split: list.split)
  then show ?thesis by (auto simp: filter_empty_conv)
qed

lemma set_others: "set (others who xs) = {x \<in> set xs. owner x \<noteq> who}"
  by (simp add: others_def)

lemma mset_others: "mset (others who xs) = filter_mset (\<lambda>x. owner x \<noteq> who) (mset xs)"
  by (simp add: others_def)

lemma others_absent: "who \<notin> owner ` set xs \<Longrightarrow> others who xs = xs"
  by (auto simp: others_def filter_id_conv)

lemma length_others:
  "distinct (map owner xs) \<Longrightarrow> who \<in> owner ` set xs \<Longrightarrow> length xs = Suc (length (others who xs))"
proof (induction xs)
  case (Cons x xs)
  then show ?case
    by (cases "owner x = who") (use others_absent [of who xs] in \<open>auto simp: others_def\<close>)
qed simp

lemma mset_adjusted:
  assumes "distinct (map owner xs)" and "\<lparr>owner = who, bond_stake = st\<rparr> \<in> set xs"
  shows "mset (adjusted f who xs) = filter_mset (\<lambda>x. owner x \<noteq> who) (mset xs) + {#\<lparr>owner = who, bond_stake = f st\<rparr>#}"
  using assms
proof (induction xs)
  case (Cons x xs)
  show ?case
  proof (cases "owner x = who")
    case True
    then have "who \<notin> owner ` set xs" using Cons.prems by auto
    moreover from this have "x = \<lparr>owner = who, bond_stake = st\<rparr>" using Cons.prems(2) by force
    moreover have "adjusted f who xs = xs" using calculation(1) by (auto simp: adjusted_def image_iff intro!: map_idI)
    moreover have "filter_mset (\<lambda>x. owner x \<noteq> who) (mset xs) = mset xs"
      using calculation(1) by (auto simp: filter_mset_eq_conv)
    ultimately show ?thesis by (simp add: adjusted_def)
  next
    case False
    with Cons show ?thesis by (auto simp: adjusted_def)
  qed
qed simp

lemma filter_mset_absent: "who \<notin> owner ` set xs \<Longrightarrow> filter_mset (\<lambda>x. owner x \<noteq> who) (mset xs) = mset xs"
  by (auto simp: filter_mset_eq_conv)

lemma mset_butlast_last: "xs \<noteq> [] \<Longrightarrow> mset xs = add_mset (last xs) (mset (butlast xs))"
  by (metis append_butlast_last_id mset.simps(2) mset_append union_mset_add_mset_right add.right_neutral mset.simps(1))

lemma mset_hd_tl: "xs \<noteq> [] \<Longrightarrow> mset xs = add_mset (hd xs) (mset (tl xs))"
  by (metis list.collapse mset.simps(2))

section \<open>What the operations do to the lists\<close>

text \<open>\<open>lists_step\<close>: the lists are well-formed again and differ by the bond of one delegator.\<close>

definition lists_step ::
  "nat \<Rightarrow> nat \<Rightarrow> account_id \<Rightarrow> stake option \<Rightarrow> bond list \<Rightarrow> bond list \<Rightarrow> bond list \<Rightarrow> bond list \<Rightarrow> bool" where
  "lists_step mt mb d v T B T' B' \<longleftrightarrow> lists_ok mt mb T' B' \<and> edge_upd d v (T @ B) (T' @ B')"

lemma lists_stepI:
  assumes "lists_ok mt mb T B" and "edge_upd d v (T @ B) (T' @ B')" and "descending bond_stake (T' @ B')"
    and "length T' \<le> mt" and "length B' \<le> mb" and "B' \<noteq> [] \<Longrightarrow> length T' = mt"
  shows "lists_step mt mb d v T B T' B'"
  using assms edge_upd_distinct [OF _ assms(2)] unfolding lists_step_def lists_ok_def by blast

lemma descending_others: "descending bond_stake xs \<Longrightarrow> descending bond_stake (others who xs)"
  unfolding others_def by (rule sorted_wrt_filter)

lemma lists_okD:
  assumes "lists_ok mt mb T B"
  shows "descending bond_stake T" "descending bond_stake B" "distinct (map owner T)" "distinct (map owner B)"
    "\<And>x y. x \<in> set T \<Longrightarrow> y \<in> set B \<Longrightarrow> bond_stake y \<le> bond_stake x"
    "\<And>x. x \<in> set T \<Longrightarrow> owner x \<notin> owner ` set B" "\<And>x. x \<in> set B \<Longrightarrow> owner x \<notin> owner ` set T"
    "length T \<le> mt" "length B \<le> mb" "B \<noteq> [] \<Longrightarrow> length T = mt"
  using assms by (auto simp: lists_ok_def sorted_wrt_append)

lemma descending_last: "descending key xs \<Longrightarrow> x \<in> set xs \<Longrightarrow> key (last xs) \<le> key x"
  using descending_nth [of key xs _ "length xs - 1"] by (cases xs rule: rev_cases) (auto simp: sorted_wrt_append)

lemma descending_hd: "descending key xs \<Longrightarrow> x \<in> set xs \<Longrightarrow> key x \<le> key (hd xs)"
  by (cases xs) auto

lemma descending_butlast: "descending key xs \<Longrightarrow> descending key (butlast xs)"
  by (cases xs rule: rev_cases) (auto simp: sorted_wrt_append)

lemma descending_tl: "descending key xs \<Longrightarrow> descending key (tl xs)"
  by (cases xs) auto

text \<open>A bond changes its stake and stays in its list.\<close>

lemma adjust_in_top:
  assumes ok: "lists_ok mt mb T B" and b: "\<lparr>owner = who, bond_stake = st\<rparr> \<in> set T"
    and above: "\<And>y. y \<in> set B \<Longrightarrow> bond_stake y \<le> f st"
  shows "lists_step mt mb who (Some (f st)) T B (sort_greatest_to_least_by bond_stake (adjusted f who T)) B"
proof (rule lists_stepI [OF ok])
  note D = lists_okD [OF ok]
  note m = mset_adjusted [OF D(3) b, of f]
  have w: "who \<notin> owner ` set B" using D(6) [OF b] by simp
  show "edge_upd who (Some (f st)) (T @ B) (sort_greatest_to_least_by bond_stake (adjusted f who T) @ B)"
    by (simp add: edge_upd_def m filter_mset_absent [OF w])
  have "set (adjusted f who T) = {x \<in> set T. owner x \<noteq> who} \<union> {\<lparr>owner = who, bond_stake = f st\<rparr>}"
    using arg_cong [OF m, of set_mset] by auto
  then show "descending bond_stake (sort_greatest_to_least_by bond_stake (adjusted f who T) @ B)"
    using D(2,5) above by (auto simp: sorted_wrt_append descending_sort)
qed (use lists_okD [OF ok] in \<open>simp_all add: adjusted_def\<close>)

lemma adjust_in_bottom:
  assumes ok: "lists_ok mt mb T B" and b: "\<lparr>owner = who, bond_stake = st\<rparr> \<in> set B"
    and below: "\<And>x. x \<in> set T \<Longrightarrow> f st \<le> bond_stake x"
  shows "lists_step mt mb who (Some (f st)) T B T (sort_greatest_to_least_by bond_stake (adjusted f who B))"
proof (rule lists_stepI [OF ok])
  note D = lists_okD [OF ok]
  note m = mset_adjusted [OF D(4) b, of f]
  have w: "who \<notin> owner ` set T" using D(7) [OF b] by simp
  show "edge_upd who (Some (f st)) (T @ B) (T @ sort_greatest_to_least_by bond_stake (adjusted f who B))"
    by (simp add: edge_upd_def m filter_mset_absent [OF w])
  have "set (adjusted f who B) = {x \<in> set B. owner x \<noteq> who} \<union> {\<lparr>owner = who, bond_stake = f st\<rparr>}"
    using arg_cong [OF m, of set_mset] by auto
  then show "descending bond_stake (T @ sort_greatest_to_least_by bond_stake (adjusted f who B))"
    using D(1,5) below by (auto simp: sorted_wrt_append descending_sort)
  assume "sort_greatest_to_least_by bond_stake (adjusted f who B) \<noteq> []"
  then have "B \<noteq> []" by (auto simp: adjusted_def sort_greatest_to_least_by_def)
  then show "length T = mt" by (rule D(10))
qed (use lists_okD [OF ok] in \<open>simp_all add: adjusted_def\<close>)

text \<open>A bond of the bottom outgrows the lowest top bond: they change places.\<close>

lemma bump_up:
  assumes ok: "lists_ok mt mb T B" and b: "\<lparr>owner = who, bond_stake = st\<rparr> \<in> set B"
    and new: "bond_stake (last T) < st'" and mt: "0 < mt"
  shows "lists_step mt mb who (Some st') T B
    (place bond_stake \<lparr>owner = who, bond_stake = st'\<rparr> (butlast T))
    (place bond_stake (last T) (others who B))"
proof (rule lists_stepI [OF ok])
  note D = lists_okD [OF ok]
  have lt: "length T = mt" using b by (intro D(10)) auto
  then have T: "T \<noteq> []" using mt by auto
  have w: "who \<notin> owner ` set T" using D(7) [OF b] by simp
  have lb: "length B = Suc (length (others who B))" using length_others [OF D(4)] b by force
  show "edge_upd who (Some st') (T @ B)
      (place bond_stake \<lparr>owner = who, bond_stake = st'\<rparr> (butlast T) @ place bond_stake (last T) (others who B))"
    unfolding edge_upd_def mset_append filter_union_mset filter_mset_absent [OF w]
    using mset_butlast_last [OF T] by (simp add: mset_others)
  have sub: "set (butlast T) \<subseteq> set T" by (auto dest: in_set_butlastD)
  have le: "y \<in> set B \<Longrightarrow> bond_stake y \<le> bond_stake (last T)" "y \<in> set B \<Longrightarrow> bond_stake y \<le> st'" for y
    using D(5) T new by (simp, meson last_in_set le_less_trans less_imp_le)
  show "descending bond_stake
      (place bond_stake \<lparr>owner = who, bond_stake = st'\<rparr> (butlast T) @ place bond_stake (last T) (others who B))"
    using D(5) sub T le new descending_last [OF D(1)]
    by (auto simp: sorted_wrt_append set_others
        intro!: descending_place descending_butlast descending_others D(1,2) intro: order_trans less_imp_le)
  show "length (place bond_stake \<lparr>owner = who, bond_stake = st'\<rparr> (butlast T)) \<le> mt" using lt mt by simp
  show "length (place bond_stake (last T) (others who B)) \<le> mb" using lb D(9) by simp
  show "length (place bond_stake \<lparr>owner = who, bond_stake = st'\<rparr> (butlast T)) = mt" using lt mt by simp
qed

text \<open>A bond of the top falls below the highest bottom bond: they change places.\<close>

lemma bump_down:
  assumes ok: "lists_ok mt mb T B" and b: "\<lparr>owner = who, bond_stake = st\<rparr> \<in> set T"
    and B: "B \<noteq> []" and new: "st' \<le> bond_stake (hd B)"
  shows "lists_step mt mb who (Some st') T B
    (place bond_stake (hd B) (others who T))
    (place bond_stake \<lparr>owner = who, bond_stake = st'\<rparr> (tl B))"
proof (rule lists_stepI [OF ok])
  note D = lists_okD [OF ok]
  have w: "who \<notin> owner ` set B" using D(6) [OF b] by simp
  have lt: "length T = Suc (length (others who T))" using length_others [OF D(3)] b by force
  show "edge_upd who (Some st') (T @ B)
      (place bond_stake (hd B) (others who T) @ place bond_stake \<lparr>owner = who, bond_stake = st'\<rparr> (tl B))"
    unfolding edge_upd_def mset_append filter_union_mset filter_mset_absent [OF w]
    using mset_hd_tl [OF B] by (simp add: mset_others)
  have sub: "set (tl B) \<subseteq> set B" using B by (auto dest: list.set_sel(2))
  have hd: "hd B \<in> set B" using B by simp
  show "descending bond_stake
      (place bond_stake (hd B) (others who T) @ place bond_stake \<lparr>owner = who, bond_stake = st'\<rparr> (tl B))"
    using D(5) sub hd new descending_hd [OF D(2)]
    by (auto simp: sorted_wrt_append set_others
        intro!: descending_place descending_tl descending_others D(1,2) intro: order_trans)
  show "length (place bond_stake (hd B) (others who T)) \<le> mt" using D(8) lt by simp
  show "length (place bond_stake \<lparr>owner = who, bond_stake = st'\<rparr> (tl B)) \<le> mb" using D(9) B by simp
  show "length (place bond_stake (hd B) (others who T)) = mt" using D(10) [OF B] lt by simp
qed

text \<open>Removing a bond; the highest bottom bond moves up into a gap of the top.\<close>

lemma remove_from_top:
  assumes ok: "lists_ok mt mb T B" and b: "\<lparr>owner = who, bond_stake = st\<rparr> \<in> set T"
  shows "lists_step mt mb who None T B
    (if B = [] then others who T else place bond_stake (hd B) (others who T)) (tl B)"
proof (rule lists_stepI [OF ok])
  note D = lists_okD [OF ok]
  have w: "who \<notin> owner ` set B" using D(6) [OF b] by simp
  have lt: "length T = Suc (length (others who T))" using length_others [OF D(3)] b by force
  show "edge_upd who None (T @ B) ((if B = [] then others who T else place bond_stake (hd B) (others who T)) @ tl B)"
    unfolding edge_upd_def mset_append filter_union_mset filter_mset_absent [OF w]
    using mset_hd_tl [of B] by (simp add: mset_others)
  have sub: "x \<in> set (tl B) \<Longrightarrow> x \<in> set B" for x by (cases B) auto
  show "descending bond_stake ((if B = [] then others who T else place bond_stake (hd B) (others who T)) @ tl B)"
    using D(5) sub descending_hd [OF D(2)]
    by (auto simp: sorted_wrt_append set_others
        intro!: descending_place descending_tl descending_others D(1,2))
  show "length (if B = [] then others who T else place bond_stake (hd B) (others who T)) \<le> mt" using D(8) lt by simp
  show "length (tl B) \<le> mb" using D(9) by simp
  assume "tl B \<noteq> []"
  then have B: "B \<noteq> []" by auto
  then show "length (if B = [] then others who T else place bond_stake (hd B) (others who T)) = mt"
    using D(10) [OF B] lt by simp
qed

lemma remove_from_bottom:
  assumes ok: "lists_ok mt mb T B" and b: "\<lparr>owner = who, bond_stake = st\<rparr> \<in> set B"
  shows "lists_step mt mb who None T B T (others who B)"
proof (rule lists_stepI [OF ok])
  note D = lists_okD [OF ok]
  have w: "who \<notin> owner ` set T" using D(7) [OF b] by simp
  show "edge_upd who None (T @ B) (T @ others who B)"
    using filter_mset_absent [OF w] by (simp add: edge_upd_def mset_others)
  show "descending bond_stake (T @ others who B)"
    using D(1,2,5) by (auto simp: sorted_wrt_append set_others intro!: descending_others)
  show "length (others who B) \<le> mb" using D(9) length_filter_le [of _ B] unfolding others_def by (meson le_trans)
  show "length T \<le> mt" by (rule D(8))
  assume "others who B \<noteq> []"
  then show "length T = mt" by (intro D(10)) (auto simp: others_def)
qed

text \<open>Adding the bond of a new delegator.\<close>

lemma add_to_top:
  assumes ok: "lists_ok mt mb T B" and w: "owner d \<notin> owner ` set (T @ B)" and room: "length T < mt"
  shows "lists_step mt mb (owner d) (Some (bond_stake d)) T B (place bond_stake d T) B"
proof (rule lists_stepI [OF ok])
  note D = lists_okD [OF ok]
  have B: "B = []" using D(10) room by auto
  show "edge_upd (owner d) (Some (bond_stake d)) (T @ B) (place bond_stake d T @ B)"
    using w by (simp add: edge_upd_def filter_mset_absent B)
  show "descending bond_stake (place bond_stake d T @ B)"
    using D(1) by (simp add: B descending_place)
qed (use lists_okD [OF ok] room in auto)

lemma add_to_bottom:
  assumes ok: "lists_ok mt mb T B" and w: "owner d \<notin> owner ` set (T @ B)" and room: "length B < mb"
    and full: "length T = mt" and low: "\<And>x. x \<in> set T \<Longrightarrow> bond_stake d \<le> bond_stake x"
  shows "lists_step mt mb (owner d) (Some (bond_stake d)) T B T (place bond_stake d B)"
proof (rule lists_stepI [OF ok])
  note D = lists_okD [OF ok]
  have "owner d \<notin> owner ` set T" "owner d \<notin> owner ` set B" using w by auto
  then show "edge_upd (owner d) (Some (bond_stake d)) (T @ B) (T @ place bond_stake d B)"
    by (simp add: edge_upd_def filter_mset_absent)
  show "descending bond_stake (T @ place bond_stake d B)"
    using D(1,2,5) low by (auto simp: sorted_wrt_append intro: descending_place)
qed (use lists_okD [OF ok] room full in auto)

lemma add_to_full_top:
  assumes ok: "lists_ok mt mb T B" and w: "owner d \<notin> owner ` set (T @ B)" and room: "length B < mb"
    and full: "length T = mt" and mt: "0 < mt" and high: "bond_stake (last T) < bond_stake d"
  shows "lists_step mt mb (owner d) (Some (bond_stake d)) T B
    (place bond_stake d (butlast T)) (place bond_stake (last T) B)"
proof (rule lists_stepI [OF ok])
  note D = lists_okD [OF ok]
  have T: "T \<noteq> []" using full mt by auto
  have ww: "owner d \<notin> owner ` set T" "owner d \<notin> owner ` set B" using w by auto
  show "edge_upd (owner d) (Some (bond_stake d)) (T @ B) (place bond_stake d (butlast T) @ place bond_stake (last T) B)"
    unfolding edge_upd_def mset_append filter_union_mset filter_mset_absent [OF ww(1)] filter_mset_absent [OF ww(2)]
    using mset_butlast_last [OF T] by simp
  have sub: "set (butlast T) \<subseteq> set T" by (auto dest: in_set_butlastD)
  have le: "y \<in> set B \<Longrightarrow> bond_stake y \<le> bond_stake (last T)" "y \<in> set B \<Longrightarrow> bond_stake y \<le> bond_stake d" for y
    using D(5) T high by (simp, meson last_in_set le_less_trans less_imp_le)
  show "descending bond_stake (place bond_stake d (butlast T) @ place bond_stake (last T) B)"
    using D(5) sub T le high descending_last [OF D(1)]
    by (auto simp: sorted_wrt_append
        intro!: descending_place descending_butlast D(1,2) intro: order_trans less_imp_le)
qed (use lists_okD [OF ok] room full mt in auto)

text \<open>Kicking the lowest bottom bond.\<close>

lemma kick_lowest:
  assumes ok: "lists_ok mt mb T B" and B: "B \<noteq> []"
  shows "lists_step mt mb (owner (last B)) None T B T (butlast B)"
proof -
  note D = lists_okD [OF ok]
  have "others (owner (last B)) B = butlast B"
    using B D(4) by (cases B rule: rev_cases) (auto simp: others_def filter_id_conv image_iff)
  moreover have "\<lparr>owner = owner (last B), bond_stake = bond_stake (last B)\<rparr> \<in> set B"
    using last_in_set [OF B] by (subst bond_eta [symmetric])
  ultimately show ?thesis using remove_from_bottom [OF ok] by metis
qed

end
