(* ===== verification/Candidate_Books.thy ===== *)
theory Candidate_Books
  imports Staking_Lists
begin

text \<open>
  The methods of \<open>CandidateMetadata\<close> on a candidate whose metadata agree with its lists: they do not
  panic, they find the bond they look for (the comparison of the bond with the lowest top and the
  highest bottom delegation leads to the right list), and their effect is a change of one bond
  (\<open>cand_step\<close>) that leaves metadata, lists and the candidate pool in agreement.
\<close>

section \<open>The books of a candidate\<close>

definition caps_ok :: "('env, 'fx) staking_config \<Rightarrow> bool" where
  "caps_ok cfg \<longleftrightarrow>
     0 < MaxTopDelegationsPerCandidate cfg \<and> 0 < MaxBottomDelegationsPerCandidate cfg \<and>
     MaxTopDelegationsPerCandidate cfg + MaxBottomDelegationsPerCandidate cfg < 2 ^ 32"

abbreviation cand_lists :: "('env, 'fx) staking_config \<Rightarrow> delegations \<Rightarrow> delegations \<Rightarrow> bool" where
  "cand_lists cfg t b \<equiv> lists_ok (MaxTopDelegationsPerCandidate cfg) (MaxBottomDelegationsPerCandidate cfg) (dels t) (dels b)"

text \<open>The metadata agree with the lists they summarise.\<close>

definition meta_ok :: "('env, 'fx) staking_config \<Rightarrow> candidate_metadata \<Rightarrow> delegations \<Rightarrow> delegations \<Rightarrow> bool" where
  "meta_ok cfg m t b \<longleftrightarrow>
     lowest_top_delegation m = lowest_delegation_amount t \<and>
     top_capacity m = capacity_of (MaxTopDelegationsPerCandidate cfg) t \<and>
     lowest_bottom_delegation m = lowest_delegation_amount b \<and>
     highest_bottom_delegation m = highest_delegation_amount b \<and>
     bottom_capacity m = capacity_of (MaxBottomDelegationsPerCandidate cfg) b \<and>
     delegation_count m = length (dels t) + length (dels b)"

text \<open>The entry of a candidate in the pool.\<close>

definition pool_entry :: "account_id \<Rightarrow> candidate_metadata option \<Rightarrow> bond option" where
  "pool_entry c mo =
     (case mo of
        Some m \<Rightarrow> if is_active m then Some \<lparr>owner = c, bond_stake = total_stake_counted m\<rparr> else None
      | None \<Rightarrow> None)"

definition cand_at ::
  "('env, 'fx) staking_config \<Rightarrow> account_id \<Rightarrow> candidate_metadata \<Rightarrow> delegations \<Rightarrow> delegations \<Rightarrow> 'env staking \<Rightarrow> bool" where
  "cand_at cfg c m t b s \<longleftrightarrow>
     top_delegations s c = Some t \<and> bottom_delegations s c = Some b \<and>
     cand_lists cfg t b \<and> meta_ok cfg m t b \<and>
     strictly_sorted owner (candidate_pool s) \<and> find_by owner (candidate_pool s) c = pool_entry c (Some m)"

text \<open>
  The effect of an operation on the delegations of candidate \<open>c\<close>: it writes the two lists and the pool,
  and the bond of \<open>d\<close> becomes \<open>v\<close>.
\<close>

definition same_self :: "candidate_metadata \<Rightarrow> candidate_metadata \<Rightarrow> bool" where
  "same_self m m' \<longleftrightarrow> self_stake m' = self_stake m \<and> status m' = status m"

definition cand_step ::
  "('env, 'fx) staking_config \<Rightarrow> account_id \<Rightarrow> account_id \<Rightarrow> stake option \<Rightarrow>
   candidate_metadata \<Rightarrow> delegations \<Rightarrow> delegations \<Rightarrow> 'env staking \<Rightarrow>
   candidate_metadata \<Rightarrow> 'env staking \<Rightarrow> bool" where
  "cand_step cfg c d v m t b s m' s' \<longleftrightarrow>
     (\<exists>t' b' P. s' = s\<lparr>top_delegations := (top_delegations s)(c \<mapsto> t'),
                       bottom_delegations := (bottom_delegations s)(c \<mapsto> b'), candidate_pool := P\<rparr> \<and>
        lists_step (MaxTopDelegationsPerCandidate cfg) (MaxBottomDelegationsPerCandidate cfg) d v
          (dels t) (dels b) (dels t') (dels b') \<and>
        meta_ok cfg m' t' b' \<and> same_self m m' \<and> strictly_sorted owner P \<and>
        find_by owner P = (find_by owner (candidate_pool s))(c := pool_entry c (Some m')))"

lemma capacity_cases:
  assumes "length (dels d) \<le> mx" and "0 < mx" and "mx < 2 ^ 32"
  shows "capacity_of mx d = Full \<longleftrightarrow> length (dels d) = mx" "capacity_of mx d = Empty \<longleftrightarrow> dels d = []"
  using assms by (auto simp: capacity_of_def)

lemma caps_okD:
  "caps_ok cfg \<Longrightarrow> 0 < MaxTopDelegationsPerCandidate cfg" "caps_ok cfg \<Longrightarrow> 0 < MaxBottomDelegationsPerCandidate cfg"
  "caps_ok cfg \<Longrightarrow> MaxTopDelegationsPerCandidate cfg < 2 ^ 32" "caps_ok cfg \<Longrightarrow> MaxBottomDelegationsPerCandidate cfg < 2 ^ 32"
  by (auto simp: caps_ok_def)

lemma lists_capacities:
  assumes "caps_ok cfg" and "cand_lists cfg t b"
  shows "capacity_of (MaxTopDelegationsPerCandidate cfg) t = Full \<longleftrightarrow> length (dels t) = MaxTopDelegationsPerCandidate cfg"
    "capacity_of (MaxBottomDelegationsPerCandidate cfg) b = Full \<longleftrightarrow> length (dels b) = MaxBottomDelegationsPerCandidate cfg"
    "capacity_of (MaxBottomDelegationsPerCandidate cfg) b = Empty \<longleftrightarrow> dels b = []"
    "length (dels t) mod 2 ^ 32 = length (dels t)" "length (dels b) mod 2 ^ 32 = length (dels b)"
proof -
  note D = lists_okD(8,9) [OF assms(2)] and C = caps_okD [OF assms(1)]
  show "capacity_of (MaxTopDelegationsPerCandidate cfg) t = Full \<longleftrightarrow> length (dels t) = MaxTopDelegationsPerCandidate cfg"
    by (rule capacity_cases(1) [OF D(1) C(1,3)])
  show "capacity_of (MaxBottomDelegationsPerCandidate cfg) b = Full \<longleftrightarrow> length (dels b) = MaxBottomDelegationsPerCandidate cfg"
    by (rule capacity_cases(1) [OF D(2) C(2,4)])
  show "capacity_of (MaxBottomDelegationsPerCandidate cfg) b = Empty \<longleftrightarrow> dels b = []"
    by (rule capacity_cases(2) [OF D(2) C(2,4)])
  show "length (dels t) mod 2 ^ 32 = length (dels t)" "length (dels b) mod 2 ^ 32 = length (dels b)"
    using D C by simp_all
qed

section \<open>The pool\<close>

lemma update_active_pool:
  assumes "strictly_sorted owner (candidate_pool s)"
  shows "\<exists>P. update_active c tot s = s\<lparr>candidate_pool := P\<rparr> \<and> strictly_sorted owner P \<and>
    find_by owner P = (find_by owner (candidate_pool s))(c \<mapsto> \<lparr>owner = c, bond_stake = tot\<rparr>)"
  unfolding update_active_def
  using ordered_set.replace_valid [where key = owner, OF assms, of "\<lparr>owner = c, bond_stake = tot\<rparr>"]
    ordered_set.find_replace [where key = owner, OF assms, of "\<lparr>owner = c, bond_stake = tot\<rparr>"]
  by (intro exI conjI) (rule refl, simp_all)

text \<open>\<open>reset_top_data\<close> brings the pool up to date, whether it writes it or not.\<close>

lemma reset_top_data_pool:
  assumes "strictly_sorted owner (candidate_pool s)"
    and "find_by owner (candidate_pool s) c = pool_entry c (Some m)"
  obtains P m' where
    "reset_top_data cfg c t m s = (m', s\<lparr>candidate_pool := P\<rparr>)" "strictly_sorted owner P"
    "find_by owner P = (find_by owner (candidate_pool s))(c := pool_entry c (Some m'))"
    "m' = m\<lparr>lowest_top_delegation := lowest_delegation_amount t,
            top_capacity := capacity_of (MaxTopDelegationsPerCandidate cfg) t,
            total_stake_counted := stake_add (self_stake m) (dels_total t)\<rparr>"
proof -
  let ?m = "m\<lparr>lowest_top_delegation := lowest_delegation_amount t,
            top_capacity := capacity_of (MaxTopDelegationsPerCandidate cfg) t,
            total_stake_counted := stake_add (self_stake m) (dels_total t)\<rparr>"
  have act: "is_active ?m = is_active m" by (simp add: is_active_def)
  show thesis
  proof (cases "total_stake_counted m \<noteq> total_stake_counted ?m \<and> is_active ?m")
    case True
    obtain P where P: "update_active c (total_stake_counted ?m) s = s\<lparr>candidate_pool := P\<rparr>" "strictly_sorted owner P"
      "find_by owner P = (find_by owner (candidate_pool s))(c \<mapsto> \<lparr>owner = c, bond_stake = total_stake_counted ?m\<rparr>)"
      using update_active_pool [OF assms(1)] by blast
    show thesis
      by (rule that [of ?m P]) (use True P act in \<open>auto simp: reset_top_data_def Let_def pool_entry_def\<close>)
  next
    case False
    show thesis
      by (rule that [of ?m "candidate_pool s"])
        (use False assms act in \<open>auto simp: reset_top_data_def Let_def pool_entry_def fun_upd_idem_iff\<close>)
  qed
qed

section \<open>Writing the lists back\<close>

lemma put_top_bottom:
  "put_top c t (s\<lparr>candidate_pool := P\<rparr>) = (put_top c t s)\<lparr>candidate_pool := P\<rparr>"
  "put_bottom c b (s\<lparr>candidate_pool := P\<rparr>) = (put_bottom c b s)\<lparr>candidate_pool := P\<rparr>"
  "put_top c t (put_bottom c b s) = put_bottom c b (put_top c t s)"
  by (simp_all add: put_top_def put_bottom_def)

lemma cand_step_alt:
  "cand_step cfg c d v m t b s m' s' \<longleftrightarrow>
     (\<exists>t' b' P. s' = (put_bottom c b' (put_top c t' s))\<lparr>candidate_pool := P\<rparr> \<and>
        lists_step (MaxTopDelegationsPerCandidate cfg) (MaxBottomDelegationsPerCandidate cfg) d v
          (dels t) (dels b) (dels t') (dels b') \<and>
        meta_ok cfg m' t' b' \<and> same_self m m' \<and> strictly_sorted owner P \<and>
        find_by owner P = (find_by owner (candidate_pool s))(c := pool_entry c (Some m')))"
  by (simp add: cand_step_def put_top_def put_bottom_def)

lemma put_same:
  "bottom_delegations s c = Some b \<Longrightarrow> put_bottom c b s = s" "top_delegations s c = Some t \<Longrightarrow> put_top c t s = s"
  by (simp_all add: put_bottom_def put_top_def fun_upd_idem)

text \<open>Writing new top (and bottom) delegations, with the metadata reset.\<close>

definition bottom_fresh :: "('env, 'fx) staking_config \<Rightarrow> candidate_metadata \<Rightarrow> delegations \<Rightarrow> candidate_metadata \<Rightarrow> bool" where
  "bottom_fresh cfg m b m1 \<longleftrightarrow> same_self m m1 \<and> total_stake_counted m1 = total_stake_counted m \<and>
     lowest_bottom_delegation m1 = lowest_delegation_amount b \<and>
     highest_bottom_delegation m1 = highest_delegation_amount b \<and>
     bottom_capacity m1 = capacity_of (MaxBottomDelegationsPerCandidate cfg) b"

lemma bottom_fresh_reset [simp]: "bottom_fresh cfg m b (reset_bottom_data cfg b m)"
  by (simp add: bottom_fresh_def reset_bottom_data_def same_self_def)

lemma bottom_fresh_self [simp]: "meta_ok cfg m t b \<Longrightarrow> bottom_fresh cfg m b m"
  by (simp add: bottom_fresh_def meta_ok_def same_self_def)

lemma write_top:
  assumes at: "cand_at cfg c m t b s"
    and step: "lists_step (MaxTopDelegationsPerCandidate cfg) (MaxBottomDelegationsPerCandidate cfg) d v
      (dels t) (dels b) (dels t') (dels b')"
    and fresh: "bottom_fresh cfg m b' m1"
    and s1: "candidate_pool s1 = candidate_pool s"
  obtains m2 P where "reset_top_data cfg c t' m1 s1 = (m2, s1\<lparr>candidate_pool := P\<rparr>)"
    "delegation_count m2 = delegation_count m1"
    "cand_step cfg c d v m t b s (m2\<lparr>delegation_count := length (dels t') + length (dels b')\<rparr>)
       ((put_bottom c b' (put_top c t' s))\<lparr>candidate_pool := P\<rparr>)"
proof -
  have m1: "same_self m m1" "total_stake_counted m1 = total_stake_counted m"
      "lowest_bottom_delegation m1 = lowest_delegation_amount b'"
      "highest_bottom_delegation m1 = highest_delegation_amount b'"
      "bottom_capacity m1 = capacity_of (MaxBottomDelegationsPerCandidate cfg) b'"
    using fresh by (simp_all add: bottom_fresh_def)
  have "find_by owner (candidate_pool s1) c = pool_entry c (Some m1)" "strictly_sorted owner (candidate_pool s1)"
    using at m1(1,2) s1 by (auto simp: cand_at_def pool_entry_def same_self_def is_active_def)
  then obtain P m2 where r: "reset_top_data cfg c t' m1 s1 = (m2, s1\<lparr>candidate_pool := P\<rparr>)" "strictly_sorted owner P"
    "find_by owner P = (find_by owner (candidate_pool s1))(c := pool_entry c (Some m2))"
    "m2 = m1\<lparr>lowest_top_delegation := lowest_delegation_amount t',
            top_capacity := capacity_of (MaxTopDelegationsPerCandidate cfg) t',
            total_stake_counted := stake_add (self_stake m1) (dels_total t')\<rparr>"
    using reset_top_data_pool by metis
  show thesis
  proof (rule that [OF r(1)])
    show "delegation_count m2 = delegation_count m1" by (simp add: r(4))
    have "pool_entry c (Some (m2\<lparr>delegation_count := length (dels t') + length (dels b')\<rparr>)) = pool_entry c (Some m2)"
      by (simp add: pool_entry_def is_active_def)
    then show "cand_step cfg c d v m t b s (m2\<lparr>delegation_count := length (dels t') + length (dels b')\<rparr>)
       ((put_bottom c b' (put_top c t' s))\<lparr>candidate_pool := P\<rparr>)"
      unfolding cand_step_alt using step r m1 s1
      by (intro exI conjI) (rule refl, assumption, auto simp: meta_ok_def same_self_def)
  qed
qed

lemma write_bottom:
  assumes at: "cand_at cfg c m t b s"
    and step: "lists_step (MaxTopDelegationsPerCandidate cfg) (MaxBottomDelegationsPerCandidate cfg) d v
      (dels t) (dels b) (dels t) (dels b')"
  shows "cand_step cfg c d v m t b s ((reset_bottom_data cfg b' m)\<lparr>delegation_count := length (dels t) + length (dels b')\<rparr>)
     (put_bottom c b' s)"
proof -
  have t: "put_top c t s = s" using at by (simp add: cand_at_def put_same)
  show ?thesis
    unfolding cand_step_alt using at step
    by (intro exI [of _ t] exI [of _ b'] exI [of _ "candidate_pool s"])
      (auto simp: t cand_at_def meta_ok_def same_self_def reset_bottom_data_def pool_entry_def is_active_def put_bottom_def
        fun_upd_idem_iff)
qed

text \<open>The number of delegations is not changed by a change of a bond.\<close>

lemma lists_step_length:
  assumes "lists_ok mt mb T B" and "lists_step mt mb d v T B T' B'"
  shows "length T' + length B' = length T + length B - (if d \<in> owner ` set (T @ B) then 1 else 0) + (if v = None then 0 else 1)"
  using edge_upd_length [of "T @ B" d v "T' @ B'"] assms by (simp add: lists_step_def lists_ok_def)

lemma in_set_lists: "\<lparr>owner = d, bond_stake = st\<rparr> \<in> set xs \<Longrightarrow> d \<in> owner ` set xs"
  by force

lemma lists_step_count:
  assumes "lists_ok mt mb T B" and "lists_step mt mb d (Some st') T B T' B'" and "d \<in> owner ` set (T @ B)"
  shows "length T' + length B' = length T + length B"
proof -
  have "0 < length (T @ B)" using assms(3) by (cases "T @ B") auto
  then show ?thesis using lists_step_length [OF assms(1,2)] assms(3) by simp
qed

lemma lowest_le:
  assumes "cand_lists cfg t b" and "x \<in> set (dels t)"
  shows "lowest_delegation_amount t \<le> bond_stake x"
  using descending_last [OF lists_okD(1) [OF assms(1)] assms(2)] assms(2) by (auto simp: lowest_delegation_amount_def)

lemma highest_ge:
  assumes "cand_lists cfg t b" and "x \<in> set (dels b)"
  shows "bond_stake x \<le> highest_delegation_amount b"
  using descending_hd [OF lists_okD(2) [OF assms(1)] assms(2)] assms(2) by (auto simp: highest_delegation_amount_def)

lemma highest_le_lowest:
  assumes "caps_ok cfg" and "cand_lists cfg t b" and "dels b \<noteq> []"
  shows "highest_delegation_amount b \<le> lowest_delegation_amount t" "dels t \<noteq> []"
proof -
  show t: "dels t \<noteq> []" using lists_okD(10) [OF assms(2,3)] caps_okD(1) [OF assms(1)] by auto
  show "highest_delegation_amount b \<le> lowest_delegation_amount t"
    using lists_okD(5) [OF assms(2), of "last (dels t)" "hd (dels b)"] t assms(3)
    by (simp add: highest_delegation_amount_def lowest_delegation_amount_def)
qed

section \<open>Increasing, decreasing and removing a delegation\<close>

definition stake_fits :: "stake \<Rightarrow> bool" where
  "stake_fits st \<longleftrightarrow> st_power st < 2 ^ 128 \<and> st_amount st < 2 ^ 128"

lemma stake_add_ge: "stake_fits st \<Longrightarrow> st \<le> stake_add st inc"
  by (auto simp: stake_fits_def stake_add_def less_eq_stake_def saturating_add_def)

lemma stake_sub_le: "stake_sub st decr \<le> st"
  by (auto simp: stake_sub_def less_eq_stake_def)

lemma cand_atD:
  assumes "cand_at cfg c m t b s"
  shows "top_delegations s c = Some t" "bottom_delegations s c = Some b" "cand_lists cfg t b" "meta_ok cfg m t b"
    "strictly_sorted owner (candidate_pool s)" "find_by owner (candidate_pool s) c = pool_entry c (Some m)"
  using assms by (auto simp: cand_at_def)

lemma meta_okD:
  assumes "meta_ok cfg m t b"
  shows "lowest_top_delegation m = lowest_delegation_amount t"
    "top_capacity m = capacity_of (MaxTopDelegationsPerCandidate cfg) t"
    "lowest_bottom_delegation m = lowest_delegation_amount b"
    "highest_bottom_delegation m = highest_delegation_amount b"
    "bottom_capacity m = capacity_of (MaxBottomDelegationsPerCandidate cfg) b"
    "delegation_count m = length (dels t) + length (dels b)"
  using assms by (auto simp: meta_ok_def)

text \<open>A bond of the top is changed in place.\<close>

lemma adjust_top_step:
  assumes at: "cand_at cfg c m t b s" and mem: "\<lparr>owner = who, bond_stake = st\<rparr> \<in> set (dels t)"
    and above: "\<And>y. y \<in> set (dels b) \<Longrightarrow> bond_stake y \<le> f st"
    and t': "t' = sort_greatest_to_least (t\<lparr>dels := adjusted f who (dels t), dels_total := tot\<rparr>)"
  obtains m' P where "reset_top_data cfg c t' m s = (m', s\<lparr>candidate_pool := P\<rparr>)"
    "cand_step cfg c who (Some (f st)) m t b s m' (put_top c t' (s\<lparr>candidate_pool := P\<rparr>))"
proof -
  note A = cand_atD [OF at] and M = meta_okD [OF cand_atD(4) [OF at]]
  have step: "lists_step (MaxTopDelegationsPerCandidate cfg) (MaxBottomDelegationsPerCandidate cfg) who (Some (f st))
      (dels t) (dels b) (dels t') (dels b)"
    using adjust_in_top [OF A(3) mem, of f] above by (simp add: t' sort_greatest_to_least_def)
  obtain m2 P where w: "reset_top_data cfg c t' m s = (m2, s\<lparr>candidate_pool := P\<rparr>)"
    "delegation_count m2 = delegation_count m"
    "cand_step cfg c who (Some (f st)) m t b s (m2\<lparr>delegation_count := length (dels t') + length (dels b)\<rparr>)
       ((put_bottom c b (put_top c t' s))\<lparr>candidate_pool := P\<rparr>)"
    using write_top [OF at step bottom_fresh_self [OF A(4)] refl] .
  have "length (dels t') + length (dels b) = delegation_count m2"
    using lists_step_count [OF A(3) step] in_set_lists [OF mem] w(2) M(6) by (simp add: image_Un)
  then have "m2\<lparr>delegation_count := length (dels t') + length (dels b)\<rparr> = m2" by simp
  moreover have "put_bottom c b (put_top c t' s) = put_top c t' s"
    using A(2) by (simp add: put_same(1) put_top_def)
  ultimately show thesis using that [OF w(1)] w(3) by (simp add: put_top_bottom)
qed

lemma adjust_bottom_step:
  assumes at: "cand_at cfg c m t b s" and mem: "\<lparr>owner = who, bond_stake = st\<rparr> \<in> set (dels b)"
    and below: "\<And>x. x \<in> set (dels t) \<Longrightarrow> f st \<le> bond_stake x"
    and b': "b' = sort_greatest_to_least (b\<lparr>dels := adjusted f who (dels b), dels_total := tot\<rparr>)"
  shows "cand_step cfg c who (Some (f st)) m t b s (reset_bottom_data cfg b' m) (put_bottom c b' s)"
proof -
  note A = cand_atD [OF at] and M = meta_okD [OF cand_atD(4) [OF at]]
  have step: "lists_step (MaxTopDelegationsPerCandidate cfg) (MaxBottomDelegationsPerCandidate cfg) who (Some (f st))
      (dels t) (dels b) (dels t) (dels b')"
    using adjust_in_bottom [OF A(3) mem, of f] below by (simp add: b' sort_greatest_to_least_def)
  have "(reset_bottom_data cfg b' m)\<lparr>delegation_count := length (dels t) + length (dels b')\<rparr> = reset_bottom_data cfg b' m"
    using lists_step_count [OF A(3) step] in_set_lists [OF mem] M(6) by (simp add: reset_bottom_data_def image_Un)
  then show ?thesis using write_bottom [OF at step] by simp
qed

section \<open>Increasing\<close>

lemma increase_top:
  assumes at: "cand_at cfg c m t b s" and mem: "\<lparr>owner = who, bond_stake = st\<rparr> \<in> set (dels t)" and fit: "stake_fits st"
  shows "\<exists>m' s'. increase_top_delegation cfg c who inc m s = Some (Inr (True, m', s')) \<and>
    cand_step cfg c who (Some (stake_add st inc)) m t b s m' s'"
proof -
  note A = cand_atD [OF at]
  have above: "bond_stake y \<le> stake_add st inc" if "y \<in> set (dels b)" for y
    using lists_okD(5) [OF A(3) mem that] stake_add_ge [OF fit, of inc] by simp
  obtain m' P where "reset_top_data cfg c (sort_greatest_to_least (t\<lparr>dels := adjusted (\<lambda>x. stake_add x inc) who (dels t), dels_total := stake_add (dels_total t) inc\<rparr>)) m s = (m', s\<lparr>candidate_pool := P\<rparr>)"
    "cand_step cfg c who (Some (stake_add st inc)) m t b s m' (put_top c (sort_greatest_to_least (t\<lparr>dels := adjusted (\<lambda>x. stake_add x inc) who (dels t), dels_total := stake_add (dels_total t) inc\<rparr>)) (s\<lparr>candidate_pool := P\<rparr>))"
    by (rule adjust_top_step [where f = "\<lambda>x. stake_add x inc", OF at mem above refl])
  then show ?thesis
    using A(1) in_set_lists [OF mem] by (simp add: increase_top_delegation_def Let_def)
qed

lemma increase_top_DNE:
  "top_delegations s c = Some t \<Longrightarrow> who \<notin> owner ` set (dels t) \<Longrightarrow>
   increase_top_delegation cfg c who inc m s = Some (Inl (Module DelegationDNE))"
  by (simp add: increase_top_delegation_def)

lemma insert_sorted_dels:
  "descending bond_stake (dels d) \<Longrightarrow>
   dels (insert_sorted_greatest_to_least x d) = place bond_stake x (dels d)"
  by (simp add: insert_sorted_greatest_to_least_def insert_greatest_to_least_place)

lemma increase_bottom:
  assumes caps: "caps_ok cfg" and at: "cand_at cfg c m t b s"
    and mem: "\<lparr>owner = who, bond_stake = st\<rparr> \<in> set (dels b)"
  shows "\<exists>r m' s'. increase_bottom_delegation cfg c who st inc m s = Some (Inr (r, m', s')) \<and>
    cand_step cfg c who (Some (stake_add st inc)) m t b s m' s'"
proof -
  note A = cand_atD [OF at] and M = meta_okD [OF cand_atD(4) [OF at]] and D = lists_okD [OF cand_atD(3) [OF at]]
  have b: "dels b \<noteq> []" using mem by auto
  note H = highest_le_lowest [OF caps A(3) b]
  show ?thesis
  proof (cases "stake_add st inc > lowest_top_delegation m")
    case False
    let ?b = "sort_greatest_to_least (b\<lparr>dels := adjusted (\<lambda>x. stake_add x inc) who (dels b), dels_total := stake_add (dels_total b) inc\<rparr>)"
    have below: "stake_add st inc \<le> bond_stake x" if "x \<in> set (dels t)" for x
      using False lowest_le [OF A(3) that] M(1) by simp
    from adjust_bottom_step [where f = "\<lambda>x. stake_add x inc", OF at mem below refl]
    show ?thesis using A(2) False in_set_lists [OF mem] by (auto simp: increase_bottom_delegation_def Let_def)
  next
    case True
    have tk: "taken who (dels b) = Some \<lparr>owner = who, bond_stake = st\<rparr>"
      using taken_Some [OF D(4)] mem by simp
    have full: "capacity_of (MaxTopDelegationsPerCandidate cfg) t = Full"
      using lists_capacities(1) [OF caps A(3)] D(10) [OF b] by simp
    let ?d = "\<lparr>owner = who, bond_stake = stake_add st inc\<rparr>"
    let ?t = "insert_sorted_greatest_to_least ?d
      (t\<lparr>dels := butlast (dels t), dels_total := stake_sub (dels_total t) (bond_stake (last (dels t)))\<rparr>)"
    let ?b = "insert_sorted_greatest_to_least (last (dels t))
      (b\<lparr>dels := others who (dels b), dels_total := stake_sub (dels_total b) st\<rparr>)"
    have dt: "dels ?t = place bond_stake ?d (butlast (dels t))"
      using descending_butlast [OF D(1)] by (subst insert_sorted_dels) simp_all
    have db: "dels ?b = place bond_stake (last (dels t)) (others who (dels b))"
      using descending_others [OF D(2)] by (subst insert_sorted_dels) simp_all
    have "bond_stake (last (dels t)) < stake_add st inc"
      using True M(1) H(2) by (simp add: lowest_delegation_amount_def)
    then have step: "lists_step (MaxTopDelegationsPerCandidate cfg) (MaxBottomDelegationsPerCandidate cfg) who
        (Some (stake_add st inc)) (dels t) (dels b) (dels ?t) (dels ?b)"
      unfolding dt db by (rule bump_up [OF A(3) mem _ caps_okD(1) [OF caps]])
    obtain m2 P where w: "reset_top_data cfg c ?t (reset_bottom_data cfg ?b m) s = (m2, s\<lparr>candidate_pool := P\<rparr>)"
      "delegation_count m2 = delegation_count (reset_bottom_data cfg ?b m)"
      "cand_step cfg c who (Some (stake_add st inc)) m t b s (m2\<lparr>delegation_count := length (dels ?t) + length (dels ?b)\<rparr>)
         ((put_bottom c ?b (put_top c ?t s))\<lparr>candidate_pool := P\<rparr>)"
      using write_top [OF at step bottom_fresh_reset refl] .
    have "length (dels ?t) + length (dels ?b) = delegation_count m2"
      using lists_step_count [OF A(3) step] in_set_lists [OF mem] w(2) M(6) by (simp add: reset_bottom_data_def image_Un)
    then have m2: "m2\<lparr>delegation_count := length (dels ?t) + length (dels ?b)\<rparr> = m2" by simp
    have "reset_top_data cfg c ?t (reset_bottom_data cfg ?b m) s =
        (let (m1, s1) = reset_top_data cfg c ?t m s in (reset_bottom_data cfg ?b m1, s1))"
      by (simp add: reset_top_data_def reset_bottom_data_def Let_def is_active_def)
    then have "increase_bottom_delegation cfg c who st inc m s =
        Some (Inr (True, m2, put_bottom c ?b (put_top c ?t (s\<lparr>candidate_pool := P\<rparr>))))"
      using A(1,2) True tk full H(2) w(1)
      by (simp add: increase_bottom_delegation_def Let_def split: prod.splits)
    then show ?thesis using w(3) unfolding m2 put_top_bottom by blast
  qed
qed

text \<open>The routing by the metadata finds the list a bond is in.\<close>

lemma cand_increase_ok:
  assumes caps: "caps_ok cfg" and at: "cand_at cfg c m t b s"
    and mem: "\<lparr>owner = who, bond_stake = st\<rparr> \<in> set (dels t @ dels b)" and fit: "stake_fits st"
  shows "\<exists>r m' s'. cand_increase_delegation cfg c who st inc m s = Some (Inr (r, m', s')) \<and>
    cand_step cfg c who (Some (stake_add st inc)) m t b s m' s'"
proof (cases "\<lparr>owner = who, bond_stake = st\<rparr> \<in> set (dels t)")
  case True
  note A = cand_atD [OF at] and M = meta_okD [OF cand_atD(4) [OF at]]
  have "lowest_top_delegation m \<le> st" using lowest_le [OF A(3) True] M(1) by simp
  with increase_top [OF at True fit, of inc] show ?thesis
    by (auto simp: cand_increase_delegation_def Let_def or_in_bottom_def)
next
  case False
  then have inb: "\<lparr>owner = who, bond_stake = st\<rparr> \<in> set (dels b)" using mem by simp
  note A = cand_atD [OF at] and M = meta_okD [OF cand_atD(4) [OF at]] and D = lists_okD [OF cand_atD(3) [OF at]]
  have dne: "increase_top_delegation cfg c who inc m s = Some (Inl (Module DelegationDNE))"
    using increase_top_DNE [OF A(1)] D(7) [OF inb] by simp
  have "st \<le> highest_bottom_delegation m" using highest_ge [OF A(3) inb] M(4) by simp
  moreover have "highest_bottom_delegation m \<le> lowest_top_delegation m"
    using highest_le_lowest(1) [OF caps A(3)] inb M(1,4) by (metis empty_iff list.set(1))
  ultimately show ?thesis
    using increase_bottom [OF caps at inb, of inc] dne
    by (auto simp: cand_increase_delegation_def Let_def or_in_bottom_def)
qed

lemma bond_in: "x \<in> set xs \<Longrightarrow> owner x = who \<Longrightarrow> \<lparr>owner = who, bond_stake = bond_stake x\<rparr> \<in> set xs"
  by (cases x) auto

lemma pool_put_bottom: "candidate_pool (put_bottom c b s) = candidate_pool s"
  by (simp add: put_bottom_def)

section \<open>Decreasing\<close>

lemma decrease_top_DNE:
  "top_delegations s c = Some t \<Longrightarrow> who \<notin> owner ` set (dels t) \<Longrightarrow>
   decrease_top_delegation cfg c who bnd decr m s = Some (Inl (Module DelegationDNE))"
  by (simp add: decrease_top_delegation_def Let_def taken_None [THEN iffD2])

lemma decrease_bottom:
  assumes caps: "caps_ok cfg" and at: "cand_at cfg c m t b s"
    and mem: "\<lparr>owner = who, bond_stake = st\<rparr> \<in> set (dels b)"
  shows "\<exists>r m' s'. decrease_bottom_delegation cfg c who decr m s = Some (Inr (r, m', s')) \<and>
    cand_step cfg c who (Some (stake_sub st decr)) m t b s m' s'"
proof -
  note A = cand_atD [OF at] and D = lists_okD [OF cand_atD(3) [OF at]]
  have below: "stake_sub st decr \<le> bond_stake x" if "x \<in> set (dels t)" for x
    using D(5) [OF that mem] stake_sub_le [of st decr] by simp
  have "b\<lparr>dels := adjusted (\<lambda>x. stake_sub x decr) who (dels b), dels_total := dels_total b\<rparr> =
      b\<lparr>dels := adjusted (\<lambda>x. stake_sub x decr) who (dels b)\<rparr>" by (rule delegations.equality) simp_all
  from adjust_bottom_step [where f = "\<lambda>x. stake_sub x decr" and tot = "dels_total b", OF at mem below refl, unfolded this]
  show ?thesis using A(2) in_set_lists [OF mem] by (auto simp: decrease_bottom_delegation_def Let_def)
qed

lemma fold_taken:
  fixes xs :: "bond list"
  assumes "distinct (map owner xs)" and "b \<in> set xs" and "owner b = who"
  shows "filter (\<lambda>x. owner x = who) xs = [b]"
proof -
  have "taken who xs = Some b" using assms taken_Some [OF assms(1)] by simp
  moreover have "distinct (map owner (filter (\<lambda>x. owner x = who) xs))"
    using assms(1) by (rule distinct_map_filter)
  moreover have "set (map owner (filter (\<lambda>x. owner x = who) xs)) \<subseteq> {who}" by auto
  ultimately show ?thesis
    unfolding taken_def by (cases "filter (\<lambda>x. owner x = who) xs" rule: remdups_adj.cases) auto
qed

lemma decrease_top:
  assumes caps: "caps_ok cfg" and at: "cand_at cfg c m t b s"
    and mem: "\<lparr>owner = who, bond_stake = st\<rparr> \<in> set (dels t)"
  shows "\<exists>r m' s'. decrease_top_delegation cfg c who st decr m s = Some (Inr (r, m', s')) \<and>
    cand_step cfg c who (Some (stake_sub st decr)) m t b s m' s'"
proof -
  note A = cand_atD [OF at] and M = meta_okD [OF cand_atD(4) [OF at]] and D = lists_okD [OF cand_atD(3) [OF at]]
    and L = lists_capacities [OF caps cand_atD(3) [OF at]]
  have full: "full \<longleftrightarrow> dels b \<noteq> []" if "full = (top_capacity m = Full \<and> bottom_capacity m \<noteq> Empty)" for full
    using that M(2,5) L(1,3) D(10) by auto
  show ?thesis
  proof (cases "dels b \<noteq> [] \<and> stake_sub st decr < highest_bottom_delegation m")
    case False
    let ?t = "sort_greatest_to_least (t\<lparr>dels := adjusted (\<lambda>x. stake_sub x decr) who (dels t), dels_total := stake_sub (dels_total t) decr\<rparr>)"
    have above: "bond_stake y \<le> stake_sub st decr" if "y \<in> set (dels b)" for y
      using False highest_ge [OF A(3) that] that M(4) by fastforce
    obtain m' P where "reset_top_data cfg c ?t m s = (m', s\<lparr>candidate_pool := P\<rparr>)"
      "cand_step cfg c who (Some (stake_sub st decr)) m t b s m' (put_top c ?t (s\<lparr>candidate_pool := P\<rparr>))"
      by (rule adjust_top_step [where f = "\<lambda>x. stake_sub x decr", OF at mem above refl])
    then show ?thesis
      using A(1) False full [OF refl] in_set_lists [OF mem] by (auto simp: decrease_top_delegation_def Let_def)
  next
    case True
    have tk: "taken who (dels t) = Some \<lparr>owner = who, bond_stake = st\<rparr>"
      using taken_Some [OF D(3)] mem by simp
    let ?d = "\<lparr>owner = who, bond_stake = stake_sub st decr\<rparr>"
    let ?t = "insert_sorted_greatest_to_least (hd (dels b))
      (t\<lparr>dels := others who (dels t), dels_total := stake_sub (dels_total t) st\<rparr>)"
    let ?b = "insert_sorted_greatest_to_least ?d
      (b\<lparr>dels := tl (dels b), dels_total := stake_sub (dels_total b) (bond_stake (hd (dels b)))\<rparr>)"
    have dt: "dels ?t = place bond_stake (hd (dels b)) (others who (dels t))"
      using descending_others [OF D(1)] by (subst insert_sorted_dels) simp_all
    have db: "dels ?b = place bond_stake ?d (tl (dels b))"
      using descending_tl [OF D(2)] by (subst insert_sorted_dels) simp_all
    have "stake_sub st decr \<le> bond_stake (hd (dels b))"
      using True unfolding M(4) highest_delegation_amount_def by (auto intro: less_imp_le)
    then have step: "lists_step (MaxTopDelegationsPerCandidate cfg) (MaxBottomDelegationsPerCandidate cfg) who
        (Some (stake_sub st decr)) (dels t) (dels b) (dels ?t) (dels ?b)"
      unfolding dt db using bump_down [OF A(3) mem] True by blast
    obtain m2 P where w: "reset_top_data cfg c ?t (reset_bottom_data cfg ?b m) (put_bottom c ?b s) = (m2, (put_bottom c ?b s)\<lparr>candidate_pool := P\<rparr>)"
      "delegation_count m2 = delegation_count (reset_bottom_data cfg ?b m)"
      "cand_step cfg c who (Some (stake_sub st decr)) m t b s (m2\<lparr>delegation_count := length (dels ?t) + length (dels ?b)\<rparr>)
         ((put_bottom c ?b (put_top c ?t s))\<lparr>candidate_pool := P\<rparr>)"
      using write_top [OF at step bottom_fresh_reset pool_put_bottom] .
    have "length (dels ?t) + length (dels ?b) = delegation_count m2"
      using lists_step_count [OF A(3) step] in_set_lists [OF mem] w(2) M(6) by (simp add: reset_bottom_data_def image_Un)
    then have m2: "m2\<lparr>delegation_count := length (dels ?t) + length (dels ?b)\<rparr> = m2" by simp
    have "decrease_top_delegation cfg c who st decr m s =
        Some (Inr (False, m2, put_top c ?t ((put_bottom c ?b s)\<lparr>candidate_pool := P\<rparr>)))"
      using A(1,2) True tk full [OF refl] w(1) fold_taken [OF D(3) mem]
      by (simp add: decrease_top_delegation_def Let_def)
    then show ?thesis using w(3) unfolding m2 put_top_bottom by blast
  qed
qed

lemma cand_decrease_ok:
  assumes caps: "caps_ok cfg" and at: "cand_at cfg c m t b s"
    and mem: "\<lparr>owner = who, bond_stake = st\<rparr> \<in> set (dels t @ dels b)"
  shows "\<exists>r m' s'. cand_decrease_delegation cfg c who st decr m s = Some (Inr (r, m', s')) \<and>
    cand_step cfg c who (Some (stake_sub st decr)) m t b s m' s'"
proof (cases "\<lparr>owner = who, bond_stake = st\<rparr> \<in> set (dels t)")
  case True
  note A = cand_atD [OF at] and M = meta_okD [OF cand_atD(4) [OF at]]
  have "lowest_top_delegation m \<le> st" using lowest_le [OF A(3) True] M(1) by simp
  with decrease_top [OF caps at True, of decr] show ?thesis
    by (auto simp: cand_decrease_delegation_def Let_def or_in_bottom_def)
next
  case False
  then have inb: "\<lparr>owner = who, bond_stake = st\<rparr> \<in> set (dels b)" using mem by simp
  note A = cand_atD [OF at] and M = meta_okD [OF cand_atD(4) [OF at]] and D = lists_okD [OF cand_atD(3) [OF at]]
  have dne: "decrease_top_delegation cfg c who st decr m s = Some (Inl (Module DelegationDNE))"
    using decrease_top_DNE [OF A(1)] D(7) [OF inb] by simp
  have "st \<le> highest_bottom_delegation m" using highest_ge [OF A(3) inb] M(4) by simp
  moreover have "highest_bottom_delegation m \<le> lowest_top_delegation m"
    using highest_le_lowest(1) [OF caps A(3)] inb M(1,4) by (metis empty_iff list.set(1))
  ultimately show ?thesis
    using decrease_bottom [OF caps at inb, of decr] dne
    by (auto simp: cand_decrease_delegation_def Let_def or_in_bottom_def)
qed

section \<open>Removing\<close>

lemma rm_bottom:
  assumes at: "cand_at cfg c m t b s" and mem: "\<lparr>owner = who, bond_stake = st\<rparr> \<in> set (dels b)"
  shows "\<exists>m' s'. rm_bottom_delegation cfg c who m s = Some (Inr (False, m', s')) \<and> cand_step cfg c who None m t b s m' s'"
proof -
  note A = cand_atD [OF at] and M = meta_okD [OF cand_atD(4) [OF at]] and D = lists_okD [OF cand_atD(3) [OF at]]
  let ?b = "b\<lparr>dels := others who (dels b), dels_total := stake_sub (dels_total b) st\<rparr>"
  have step: "lists_step (MaxTopDelegationsPerCandidate cfg) (MaxBottomDelegationsPerCandidate cfg) who None
      (dels t) (dels b) (dels t) (dels ?b)"
    using remove_from_bottom [OF A(3) mem] by simp
  have "length (dels t) + length (dels ?b) = delegation_count m - 1"
    using length_others [OF D(4) in_set_lists [OF mem]] M(6) by simp
  then have "(reset_bottom_data cfg ?b m)\<lparr>delegation_count := length (dels t) + length (dels ?b)\<rparr> =
      (reset_bottom_data cfg ?b m)\<lparr>delegation_count := delegation_count (reset_bottom_data cfg ?b m) - 1\<rparr>"
    by (simp add: reset_bottom_data_def)
  then show ?thesis
    using write_bottom [OF at step] A(2) taken_Some [OF D(4)] mem
    by (simp add: rm_bottom_delegation_def Let_def taken_Some [OF D(4), of who "\<lparr>owner = who, bond_stake = st\<rparr>", THEN iffD2])
qed

lemma rm_top:
  assumes caps: "caps_ok cfg" and at: "cand_at cfg c m t b s"
    and mem: "\<lparr>owner = who, bond_stake = st\<rparr> \<in> set (dels t)"
  shows "\<exists>r m' s'. rm_top_delegation cfg c who m s = Some (Inr (r, m', s')) \<and> cand_step cfg c who None m t b s m' s'"
proof -
  note A = cand_atD [OF at] and M = meta_okD [OF cand_atD(4) [OF at]] and D = lists_okD [OF cand_atD(3) [OF at]]
    and L = lists_capacities [OF caps cand_atD(3) [OF at]]
  have tk: "taken who (dels t) = Some \<lparr>owner = who, bond_stake = st\<rparr>"
    using taken_Some [OF D(3)] mem by simp
  have emp: "bottom_capacity m = Empty \<longleftrightarrow> dels b = []" using M(5) L(3) by simp
  let ?t1 = "t\<lparr>dels := others who (dels t), dels_total := stake_sub (dels_total t) st\<rparr>"
  let ?t = "if dels b = [] then ?t1 else insert_sorted_greatest_to_least (hd (dels b)) ?t1"
  let ?b = "if dels b = [] then b else b\<lparr>dels := tl (dels b), dels_total := stake_sub (dels_total b) (bond_stake (hd (dels b)))\<rparr>"
  let ?m = "if dels b = [] then m else reset_bottom_data cfg ?b m"
  have "dels ?t = (if dels b = [] then others who (dels t) else place bond_stake (hd (dels b)) (others who (dels t)))"
    using descending_others [OF D(1)] by (auto simp: insert_sorted_dels)
  moreover have "dels ?b = tl (dels b)" by simp
  ultimately have step: "lists_step (MaxTopDelegationsPerCandidate cfg) (MaxBottomDelegationsPerCandidate cfg) who None
      (dels t) (dels b) (dels ?t) (dels ?b)"
    using remove_from_top [OF A(3) mem] by simp
  have fresh: "bottom_fresh cfg m ?b ?m" using bottom_fresh_self [OF A(4)] by simp
  obtain m2 P where w: "reset_top_data cfg c ?t ?m (put_bottom c ?b s) = (m2, (put_bottom c ?b s)\<lparr>candidate_pool := P\<rparr>)"
    "delegation_count m2 = delegation_count ?m"
    "cand_step cfg c who None m t b s (m2\<lparr>delegation_count := length (dels ?t) + length (dels ?b)\<rparr>)
       ((put_bottom c ?b (put_top c ?t s))\<lparr>candidate_pool := P\<rparr>)"
    using write_top [OF at step fresh pool_put_bottom] .
  have "length (dels ?t) + length (dels ?b) = delegation_count m2 - 1"
    using lists_step_length [OF A(3) step] in_set_lists [OF mem] w(2) M(6)
    by (simp add: reset_bottom_data_def image_Un split: if_splits)
  then have m2: "m2\<lparr>delegation_count := length (dels ?t) + length (dels ?b)\<rparr> = m2\<lparr>delegation_count := delegation_count m2 - 1\<rparr>"
    by simp
  have "put_bottom c b s = s" using A(2) by (rule put_same)
  then have "\<exists>r. rm_top_delegation cfg c who m s =
      Some (Inr (r, m2\<lparr>delegation_count := delegation_count m2 - 1\<rparr>, put_top c ?t ((put_bottom c ?b s)\<lparr>candidate_pool := P\<rparr>)))"
    using A(1,2) tk emp w(1) by (cases "dels b = []") (simp_all add: rm_top_delegation_def Let_def)
  then show ?thesis using w(3) unfolding m2 put_top_bottom by blast
qed

lemma rm_top_DNE:
  "top_delegations s c = Some t \<Longrightarrow> who \<notin> owner ` set (dels t) \<Longrightarrow>
   rm_top_delegation cfg c who m s = Some (Inl (Module DelegationDNE))"
  by (simp add: rm_top_delegation_def taken_None [THEN iffD2])

lemma rm_bottom_DNE:
  "bottom_delegations s c = Some b \<Longrightarrow> who \<notin> owner ` set (dels b) \<Longrightarrow>
   rm_bottom_delegation cfg c who m s = Some (Inl (Module DelegationDNE))"
  by (simp add: rm_bottom_delegation_def taken_None [THEN iffD2])

lemma rm_total:
  assumes caps: "caps_ok cfg" and at: "cand_at cfg c m t b s"
  shows "rm_delegation_if_exists cfg c who st' m s = Some (Inl (Module DelegationDNE)) \<or>
    (\<exists>r m' s'. rm_delegation_if_exists cfg c who st' m s = Some (Inr (r, m', s')) \<and>
       who \<in> owner ` set (dels t @ dels b) \<and> cand_step cfg c who None m t b s m' s')"
proof -
  note A = cand_atD [OF at]
  define ok where "ok r \<longleftrightarrow> r = Some (Inl (Module DelegationDNE)) \<or>
      (\<exists>(r' :: bool) m' s'. r = Some (Inr (r', m', s')) \<and> who \<in> owner ` set (dels t @ dels b) \<and> cand_step cfg c who None m t b s m' s')" for r
  have top: "ok (rm_top_delegation cfg c who m s)"
  proof (cases "who \<in> owner ` set (dels t)")
    case True
    then obtain x where "x \<in> set (dels t)" "owner x = who" by auto
    then have "\<lparr>owner = who, bond_stake = bond_stake x\<rparr> \<in> set (dels t)" by (rule bond_in)
    from rm_top [OF caps at this] True show ?thesis by (auto simp: ok_def)
  qed (simp add: ok_def rm_top_DNE [OF A(1)])
  have bot: "ok (rm_bottom_delegation cfg c who m s)"
  proof (cases "who \<in> owner ` set (dels b)")
    case True
    then obtain x where "x \<in> set (dels b)" "owner x = who" by auto
    then have "\<lparr>owner = who, bond_stake = bond_stake x\<rparr> \<in> set (dels b)" by (rule bond_in)
    from rm_bottom [OF at this] True show ?thesis by (auto simp: ok_def)
  qed (simp add: ok_def rm_bottom_DNE [OF A(2)])
  from top bot have "ok (rm_delegation_if_exists cfg c who st' m s)"
    by (simp add: rm_delegation_if_exists_def Let_def or_in_bottom_def)
  then show ?thesis by (simp add: ok_def)
qed

lemma rm_exact:
  assumes caps: "caps_ok cfg" and at: "cand_at cfg c m t b s"
    and mem: "\<lparr>owner = who, bond_stake = st\<rparr> \<in> set (dels t @ dels b)"
  shows "\<exists>r m' s'. rm_delegation_if_exists cfg c who st m s = Some (Inr (r, m', s')) \<and> cand_step cfg c who None m t b s m' s'"
proof (cases "\<lparr>owner = who, bond_stake = st\<rparr> \<in> set (dels t)")
  case True
  note A = cand_atD [OF at] and M = meta_okD [OF cand_atD(4) [OF at]]
  have "lowest_top_delegation m \<le> st" using lowest_le [OF A(3) True] M(1) by simp
  with rm_top [OF caps at True] show ?thesis
    by (auto simp: rm_delegation_if_exists_def Let_def or_in_bottom_def)
next
  case False
  then have inb: "\<lparr>owner = who, bond_stake = st\<rparr> \<in> set (dels b)" using mem by simp
  note A = cand_atD [OF at] and M = meta_okD [OF cand_atD(4) [OF at]] and D = lists_okD [OF cand_atD(3) [OF at]]
    and L = lists_capacities [OF caps cand_atD(3) [OF at]]
  have b: "dels b \<noteq> []" using inb by auto
  have full: "top_capacity m = Full" using M(2) L(1) D(10) [OF b] by simp
  have dne: "rm_top_delegation cfg c who m s = Some (Inl (Module DelegationDNE))"
    using rm_top_DNE [OF A(1)] D(7) [OF inb] by simp
  have "st \<le> highest_bottom_delegation m" using highest_ge [OF A(3) inb] M(4) by simp
  moreover have "highest_bottom_delegation m \<le> lowest_top_delegation m"
    using highest_le_lowest(1) [OF caps A(3) b] M(1,4) by simp
  ultimately show ?thesis
    using rm_bottom [OF at inb] dne full
    by (auto simp: rm_delegation_if_exists_def Let_def or_in_bottom_def)
qed

end
