(* ===== verification/Staking_Books.thy ===== *)
theory Staking_Books
  imports Candidate_Books
begin

text \<open>
  The books of the staking pallet: what candidates record of their delegators, what delegators record of
  their bonds, the locks, the scheduled requests and the candidate pool agree (\<open>books_ok\<close>). A bond
  is an edge between a candidate and a delegator; an operation changes one edge, first on the candidate's
  side (\<open>open_books\<close>), then on the delegator's.
\<close>

section \<open>The books of the pallet\<close>

definition locked :: "delegator \<Rightarrow> balance" where
  "locked D = sum_list (map (\<lambda>x. st_amount (bond_stake x)) (delegations D))"

definition balanced :: "stake \<Rightarrow> bool" where
  "balanced st \<longleftrightarrow> st_power st = st_amount st"

text \<open>The state of a delegator: one bond per candidate, and \<open>total\<close> is the sum of the bonds.\<close>

definition del_core :: "account_id \<Rightarrow> delegator \<Rightarrow> bool" where
  "del_core d D \<longleftrightarrow>
     delegator_id D = d \<and> delegator_status D = DelegatorActive \<and> strictly_sorted owner (delegations D) \<and>
     (\<forall>x\<in>set (delegations D). balanced (bond_stake x) \<and> 0 < st_amount (bond_stake x)) \<and>
     total D = Stake (locked D) (locked D) \<and> locked D < 2 ^ 128"

definition del_ok :: "account_id \<Rightarrow> delegator option \<Rightarrow> balance option \<Rightarrow> bool" where
  "del_ok d Do l =
     (case Do of
        None \<Rightarrow> l = None
      | Some D \<Rightarrow> del_core d D \<and> delegations D \<noteq> [] \<and> l = Some (locked D))"

definition cand_ok ::
  "('env, 'fx) staking_config \<Rightarrow> candidate_metadata option \<Rightarrow> delegations option \<Rightarrow> delegations option \<Rightarrow> bool" where
  "cand_ok cfg mo to bo =
     (case (mo, to, bo) of
        (None, None, None) \<Rightarrow> True
      | (Some m, Some t, Some b) \<Rightarrow> cand_lists cfg t b \<and> meta_ok cfg m t b
      | _ \<Rightarrow> False)"

text \<open>The bonds towards a candidate, as the candidate and as the delegator records them.\<close>

definition backing :: "delegations option \<Rightarrow> delegations option \<Rightarrow> account_id \<rightharpoonup> stake" where
  "backing to bo = (case (to, bo) of (Some t, Some b) \<Rightarrow> stakes_of (dels t @ dels b) | _ \<Rightarrow> Map.empty)"

definition pledges :: "delegator option \<Rightarrow> account_id \<rightharpoonup> stake" where
  "pledges Do = (case Do of Some D \<Rightarrow> stakes_of (delegations D) | None \<Rightarrow> Map.empty)"

definition reqs_ok :: "(account_id \<rightharpoonup> delegator) \<Rightarrow> account_id \<Rightarrow> scheduled_request list \<Rightarrow> bool" where
  "reqs_ok ds c rs \<longleftrightarrow> distinct (map req_delegator rs) \<and>
     (\<forall>r\<in>set rs. balanced (action_amount (req_action r)) \<and>
        (\<exists>st. pledges (ds (req_delegator r)) c = Some st \<and> (is_revoke (req_action r) \<longrightarrow> action_amount (req_action r) = st)))"

definition books ::
  "('env, 'fx) staking_config \<Rightarrow> (account_id \<rightharpoonup> candidate_metadata) \<Rightarrow> (account_id \<rightharpoonup> delegations) \<Rightarrow>
   (account_id \<rightharpoonup> delegations) \<Rightarrow> bond list \<Rightarrow> (account_id \<rightharpoonup> delegator) \<Rightarrow> (account_id \<rightharpoonup> balance) \<Rightarrow>
   (account_id \<Rightarrow> scheduled_request list) \<Rightarrow> (account_id \<Rightarrow> auto_compound_config list) \<Rightarrow>
   (account_id \<rightharpoonup> balance) \<Rightarrow> bool" where
  "books cfg ci tp bt P ds lk rq au cl \<longleftrightarrow>
     (\<forall>c. cand_ok cfg (ci c) (tp c) (bt c)) \<and>
     strictly_sorted owner P \<and> (\<forall>c. find_by owner P c = pool_entry c (ci c)) \<and>
     (\<forall>d. del_ok d (ds d) (lk d)) \<and>
     (\<forall>c d. backing (tp c) (bt c) d = pledges (ds d) c) \<and>
     (\<forall>c. reqs_ok ds c (rq c)) \<and> (\<forall>c. strictly_sorted acc_delegator (au c)) \<and>
     (\<forall>c. cl c = map_option (\<lambda>m. st_amount (self_stake m)) (ci c))"

definition books_ok :: "('env, 'fx) staking_config \<Rightarrow> 'env staking \<Rightarrow> bool" where
  "books_ok cfg s = books cfg (candidate_info s) (top_delegations s) (bottom_delegations s) (candidate_pool s)
     (delegator_state s) (delegator_locks s) (scheduled_requests s) (auto_compounding s) (collator_locks s)"

lemma booksD:
  assumes "books cfg ci tp bt P ds lk rq au cl"
  shows "\<And>c. cand_ok cfg (ci c) (tp c) (bt c)" "strictly_sorted owner P" "\<And>c. find_by owner P c = pool_entry c (ci c)"
    "\<And>d. del_ok d (ds d) (lk d)" "\<And>c d. backing (tp c) (bt c) d = pledges (ds d) c"
    "\<And>c. reqs_ok ds c (rq c)" "\<And>c. strictly_sorted acc_delegator (au c)"
    "\<And>c. cl c = map_option (\<lambda>m. st_amount (self_stake m)) (ci c)"
  using assms by (auto simp: books_def)

text \<open>A candidate of the books is in the state \<open>cand_at\<close>.\<close>

lemma books_cand_at:
  assumes "books_ok cfg s" and "candidate_info s c = Some m"
  obtains t b where "cand_at cfg c m t b s"
proof -
  note D = booksD [OF assms(1) [unfolded books_ok_def]]
  obtain t b where "top_delegations s c = Some t" "bottom_delegations s c = Some b" "cand_lists cfg t b" "meta_ok cfg m t b"
    using D(1) [of c] assms(2) by (auto simp: cand_ok_def split: option.splits)
  then show thesis using that [of t b] D(2) D(3) [of c] assms(2) by (simp add: cand_at_def)
qed

lemma books_backing:
  assumes "books_ok cfg s" and "cand_at cfg c m t b s"
  shows "stakes_of (dels t @ dels b) d = pledges (delegator_state s d) c"
  using booksD(5) [OF assms(1) [unfolded books_ok_def], of c d] cand_atD(1,2) [OF assms(2)] by (simp add: backing_def)

text \<open>Requests may be dropped, and must be when the bond goes.\<close>

lemma reqs_ok_edge:
  assumes "reqs_ok ds c rs" and "set rs' \<subseteq> set rs" and "distinct (map req_delegator rs')"
    and "pledges Dn = (pledges (ds d))(c := v)" and "v = None \<Longrightarrow> d \<notin> req_delegator ` set rs'"
    and "\<And>r. r \<in> set rs' \<Longrightarrow> req_delegator r = d \<Longrightarrow> is_revoke (req_action r) \<Longrightarrow> v = Some (action_amount (req_action r))"
  shows "reqs_ok (ds(d := Dn)) c rs'"
proof -
  have "balanced (action_amount (req_action r)) \<and>
      (\<exists>st. pledges ((ds(d := Dn)) (req_delegator r)) c = Some st \<and> (is_revoke (req_action r) \<longrightarrow> action_amount (req_action r) = st))"
    if r: "r \<in> set rs'" for r
  proof (cases "req_delegator r = d")
    case True
    then obtain st where "v = Some st" using assms(5) r by (cases v) auto
    then show ?thesis using assms(1,2,4) assms(6) [OF r True] r True by (auto simp: reqs_ok_def)
  next
    case False
    then show ?thesis using assms(1,2) r by (auto simp: reqs_ok_def)
  qed
  then show ?thesis using assms(3) by (simp add: reqs_ok_def)
qed

lemma reqs_ok_other:
  assumes "pledges Dn = (pledges (ds d))(c := v)" and "c' \<noteq> c"
  shows "reqs_ok (ds(d := Dn)) c' rs = reqs_ok ds c' rs"
  using assms by (auto simp: reqs_ok_def)

text \<open>
  The step of the books: the bond between one candidate and one delegator changes on both sides.
\<close>

lemma books_edge:
  assumes B: "books cfg ci tp bt P ds lk rq au cl"
    and c: "ci c = Some m" "same_self m m'" "cand_lists cfg t' b'" "meta_ok cfg m' t' b'"
    and P: "strictly_sorted owner P'" "find_by owner P' = (find_by owner P)(c := pool_entry c (Some m'))"
    and bk: "stakes_of (dels t' @ dels b') = (backing (tp c) (bt c))(d := v)"
    and pl: "pledges Dn = (pledges (ds d))(c := v)" and d: "del_ok d Dn l"
    and rq: "set rs \<subseteq> set (rq c)" "distinct (map req_delegator rs)" "v = None \<Longrightarrow> d \<notin> req_delegator ` set rs"
      "\<And>r. r \<in> set rs \<Longrightarrow> req_delegator r = d \<Longrightarrow> is_revoke (req_action r) \<Longrightarrow> v = Some (action_amount (req_action r))"
    and au: "strictly_sorted acc_delegator as"
  shows "books cfg (ci(c \<mapsto> m')) (tp(c \<mapsto> t')) (bt(c \<mapsto> b')) P' (ds(d := Dn)) (lk(d := l)) (rq(c := rs)) (au(c := as)) cl"
proof -
  note D = booksD [OF B]
  have "cand_ok cfg ((ci(c \<mapsto> m')) x) ((tp(c \<mapsto> t')) x) ((bt(c \<mapsto> b')) x)" for x
    using D(1) c(3,4) by (auto simp: cand_ok_def)
  moreover have "find_by owner P' x = pool_entry x ((ci(c \<mapsto> m')) x)" for x
    using D(3) [of x] P(2) by simp
  moreover have "del_ok x ((ds(d := Dn)) x) ((lk(d := l)) x)" for x
    using D(4) d by simp
  moreover have "backing ((tp(c \<mapsto> t')) x) ((bt(c \<mapsto> b')) x) y = pledges ((ds(d := Dn)) y) x" for x y
    using D(5) [of x y] bk pl by (auto simp: backing_def)
  moreover have "reqs_ok (ds(d := Dn)) x ((rq(c := rs)) x)" for x
  proof (cases "x = c")
    case True
    then show ?thesis using reqs_ok_edge [where ds = ds, OF D(6) rq(1,2) pl rq(3)] rq(4) by (simp add: fun_upd_def)
  next
    case False
    then show ?thesis using reqs_ok_other [where ds = ds, OF pl False] D(6) [of x] by simp
  qed
  moreover have "strictly_sorted acc_delegator ((au(c := as)) x)" for x
    using D(7) au by simp
  moreover have "cl x = map_option (\<lambda>m. st_amount (self_stake m)) ((ci(c \<mapsto> m')) x)" for x
    using D(8) [of x] c(1,2) by (simp add: same_self_def)
  ultimately show ?thesis unfolding books_def using P(1) by (intro conjI allI) simp_all
qed

text \<open>The effect of an operation on a candidate, in the form the step of the books needs.\<close>

lemma cand_stepE:
  assumes "cand_step cfg c d v m t b s m' s'" and "cand_at cfg c m t b s"
  obtains t' b' P where
    "s' = s\<lparr>top_delegations := (top_delegations s)(c \<mapsto> t'),
            bottom_delegations := (bottom_delegations s)(c \<mapsto> b'), candidate_pool := P\<rparr>"
    "same_self m m'" "cand_lists cfg t' b'" "meta_ok cfg m' t' b'" "strictly_sorted owner P"
    "find_by owner P = (find_by owner (candidate_pool s))(c := pool_entry c (Some m'))"
    "stakes_of (dels t' @ dels b') = (backing (top_delegations s c) (bottom_delegations s c))(d := v)"
proof -
  note A = cand_atD [OF assms(2)]
  obtain t' b' P where r: "s' = s\<lparr>top_delegations := (top_delegations s)(c \<mapsto> t'),
            bottom_delegations := (bottom_delegations s)(c \<mapsto> b'), candidate_pool := P\<rparr>"
    "lists_step (MaxTopDelegationsPerCandidate cfg) (MaxBottomDelegationsPerCandidate cfg) d v (dels t) (dels b) (dels t') (dels b')"
    "meta_ok cfg m' t' b'" "same_self m m'" "strictly_sorted owner P"
    "find_by owner P = (find_by owner (candidate_pool s))(c := pool_entry c (Some m'))"
    using assms(1) unfolding cand_step_def by blast
  have "stakes_of (dels t' @ dels b') = (stakes_of (dels t @ dels b))(d := v)"
    using r(2) A(3) by (intro edge_upd_stakes) (auto simp: lists_step_def lists_ok_def)
  then show thesis
    using that [OF r(1,4) _ r(3,5,6)] r(2) A(1,2) by (simp add: lists_step_def backing_def)
qed

section \<open>The default hooks (hooks.rs)\<close>

definition unit_power :: "account_id \<Rightarrow> balance \<Rightarrow> 'env \<Rightarrow> serr + stake" where
  "unit_power acc amt env = Inr (new_stake amt amt)"

text \<open>
  What the books rest on: the hook \<open>power\<close> is the one of the implementation for \<open>()\<close>, a free balance
  is a \<open>u128\<close>, the minimum bonds are not zero, and the lists have room.
\<close>

definition staking_laws :: "('env, 'fx) staking_config \<Rightarrow> bool" where
  "staking_laws cfg \<longleftrightarrow> caps_ok cfg \<and> hook_power cfg = unit_power \<and>
     (\<forall>env acc. free_balance cfg env acc < 2 ^ 128) \<and> 0 < MinDelegation cfg \<and> 0 < MinDelegatorStk cfg"

lemma staking_lawsD:
  assumes "staking_laws cfg"
  shows "caps_ok cfg" "hook_power cfg acc amt env = Inr (Stake amt amt)" "free_balance cfg env acc < 2 ^ 128"
    "0 < MinDelegation cfg" "0 < MinDelegatorStk cfg"
  using assms by (auto simp: staking_laws_def unit_power_def new_stake_def)

section \<open>Sums of bonds\<close>

abbreviation amounts :: "bond list \<Rightarrow> balance" where
  "amounts xs \<equiv> sum_list (map (\<lambda>x. st_amount (bond_stake x)) xs)"

definition opt_amount :: "stake option \<Rightarrow> balance" where
  "opt_amount v = (case v of Some st \<Rightarrow> st_amount st | None \<Rightarrow> 0)"

lemma opt_amount_simps [simp]: "opt_amount None = 0" "opt_amount (Some st) = st_amount st"
  by (simp_all add: opt_amount_def)

lemma amounts_others:
  assumes "distinct (map owner xs)"
  shows "amounts xs = amounts (others d xs) + opt_amount (stakes_of xs d)"
proof (cases "stakes_of xs d")
  case None
  then have "others d xs = xs" by (intro others_absent) (simp add: stakes_of_None)
  with None show ?thesis by simp
next
  case (Some st)
  then have "\<lparr>owner = d, bond_stake = st\<rparr> \<in> set xs" using stakes_of_Some [OF assms] by simp
  with assms show ?thesis unfolding Some
  proof (induction xs)
    case (Cons x xs)
    show ?case
    proof (cases "owner x = d")
      case True
      then have "d \<notin> owner ` set xs" using Cons.prems(1) by auto
      moreover from this have "x = \<lparr>owner = d, bond_stake = st\<rparr>" using Cons.prems(2) by force
      ultimately show ?thesis using others_absent [of d xs] by (simp add: others_def)
    next
      case False
      with Cons show ?thesis by (auto simp: others_def)
    qed
  qed simp
qed

lemma amounts_mset: "mset xs = mset ys \<Longrightarrow> amounts xs = amounts ys"
  using sum_mset_sum_list [of "map (\<lambda>x. st_amount (bond_stake x)) xs"] sum_mset_sum_list [of "map (\<lambda>x. st_amount (bond_stake x)) ys"] by simp

lemma amounts_edge:
  assumes "distinct (map owner xs)" and "edge_upd d v xs xs'"
  shows "amounts xs' + opt_amount (stakes_of xs d) = amounts xs + opt_amount v"
proof -
  have "mset xs' = mset (others d xs @ (case v of None \<Rightarrow> [] | Some st \<Rightarrow> [\<lparr>owner = d, bond_stake = st\<rparr>]))"
    using assms(2) by (simp add: edge_upd_def mset_others split: option.splits)
  then have "amounts xs' = amounts (others d xs @ (case v of None \<Rightarrow> [] | Some st \<Rightarrow> [\<lparr>owner = d, bond_stake = st\<rparr>]))"
    by (rule amounts_mset)
  also have "\<dots> = amounts (others d xs) + opt_amount v" by (simp split: option.splits)
  finally show ?thesis using amounts_others [OF assms(1), of d] by simp
qed

lemma amounts_ge: "x \<in> set xs \<Longrightarrow> st_amount (bond_stake x) \<le> amounts xs"
  by (induction xs) auto

section \<open>Editing the bonds of a delegator\<close>

lemma strictly_sorted_map: "strictly_sorted owner xs \<longleftrightarrow> sorted_wrt (<) (map owner xs)"
  by (simp add: sorted_wrt_map)

lemma map_owner_adjusted: "map owner (adjusted f who xs) = map owner xs"
  by (simp add: adjusted_def)

lemma position_adjusted:
  assumes "distinct (map owner xs)" and "stakes_of xs c = Some st"
  obtains i where "position (\<lambda>b. owner b = c) xs = Some i" "xs ! i = \<lparr>owner = c, bond_stake = st\<rparr>"
    "\<And>st'. xs[i := (xs ! i)\<lparr>bond_stake := st'\<rparr>] = adjusted (\<lambda>_. st') c xs"
proof -
  have "\<lparr>owner = c, bond_stake = st\<rparr> \<in> set xs" using assms stakes_of_Some by blast
  with assms(1) have "\<exists>i. position (\<lambda>b. owner b = c) xs = Some i \<and> xs ! i = \<lparr>owner = c, bond_stake = st\<rparr> \<and>
      (\<forall>st'. xs[i := (xs ! i)\<lparr>bond_stake := st'\<rparr>] = adjusted (\<lambda>_. st') c xs)"
  proof (induction xs)
    case (Cons x xs)
    show ?case
    proof (cases "owner x = c")
      case True
      then have n: "c \<notin> owner ` set xs" using Cons.prems(1) by auto
      then have "x = \<lparr>owner = c, bond_stake = st\<rparr>" using Cons.prems(2) by force
      moreover have "adjusted (\<lambda>_. st') c xs = xs" for st' using n by (auto simp: adjusted_def image_iff intro!: map_idI)
      ultimately show ?thesis by (simp add: adjusted_def)
    next
      case False
      then have "\<lparr>owner = c, bond_stake = st\<rparr> \<in> set xs" using Cons.prems(2) by auto
      then obtain i where "position (\<lambda>b. owner b = c) xs = Some i" "xs ! i = \<lparr>owner = c, bond_stake = st\<rparr>"
        "\<forall>st'. xs[i := (xs ! i)\<lparr>bond_stake := st'\<rparr>] = adjusted (\<lambda>_. st') c xs"
        using Cons by auto
      with False show ?thesis by (auto simp: adjusted_def)
    qed
  qed simp
  then show thesis using that by blast
qed

lemma position_None: "position P xs = None \<longleftrightarrow> (\<forall>x\<in>set xs. \<not> P x)"
  by (induction xs) auto

lemma position_Some:
  "position P xs = Some i \<Longrightarrow> i < length xs \<and> P (xs ! i)"
  by (induction xs arbitrary: i) (auto split: if_splits)

lemma edge_adjusted:
  assumes "distinct (map owner xs)" and "stakes_of xs c = Some st"
  shows "edge_upd c (Some st') xs (adjusted (\<lambda>_. st') c xs)"
  using mset_adjusted [OF assms(1), of c st "\<lambda>_. st'"] assms stakes_of_Some by (simp add: edge_upd_def)

lemma edge_others:
  "edge_upd c None xs (others c xs)"
  by (simp add: edge_upd_def mset_others)

lemma edge_insert:
  assumes "strictly_sorted owner xs" and "stakes_of xs c = None"
  shows "edge_upd c (Some st) xs (fst (set_insert owner \<lparr>owner = c, bond_stake = st\<rparr> xs))"
    "snd (set_insert owner \<lparr>owner = c, bond_stake = st\<rparr> xs)"
proof -
  have n: "c \<notin> owner ` set xs" using assms(2) by (simp add: stakes_of_None)
  have "mset xs = filter_mset (\<lambda>x. owner x < c) (mset xs) + filter_mset (\<lambda>x. c < owner x) (mset xs)"
    using n by (induction xs) (auto simp: not_less le_less)
  then show "edge_upd c (Some st) xs (fst (set_insert owner \<lparr>owner = c, bond_stake = st\<rparr> xs))"
    using n by (simp add: edge_upd_def set_insert_sorted [OF assms(1)] filter_mset_absent)
  show "snd (set_insert owner \<lparr>owner = c, bond_stake = st\<rparr> xs)"
    using n by (simp add: set_insert_sorted [OF assms(1)])
qed

text \<open>A new list of bonds for a delegator, with the total that belongs to it.\<close>

lemma del_core_edge:
  assumes core: "del_core d D" and e: "edge_upd c v (delegations D) xs" and sorted: "strictly_sorted owner xs"
    and v: "\<And>st. v = Some st \<Longrightarrow> balanced st \<and> 0 < st_amount st"
    and D': "delegations D' = xs" "delegator_id D' = delegator_id D" "delegator_status D' = delegator_status D"
      "total D' = Stake n n"
    and n: "n + opt_amount (stakes_of (delegations D) c) = locked D + opt_amount v" "n < 2 ^ 128"
  shows "del_core d D'" "locked D' = n" "pledges (Some D') = (pledges (Some D))(c := v)"
proof -
  have dist: "distinct (map owner (delegations D))"
    using core by (simp add: del_core_def strictly_sorted_distinct)
  show l: "locked D' = n"
    using amounts_edge [OF dist e] n(1) D'(1) by (simp add: locked_def)
  show "pledges (Some D') = (pledges (Some D))(c := v)"
    using edge_upd_stakes [OF dist e] D'(1) by (simp add: pledges_def)
  have "balanced (bond_stake x) \<and> 0 < st_amount (bond_stake x)" if "x \<in> set xs" for x
    using that core v edge_upd_set [OF e] by (auto simp: del_core_def split: option.splits)
  then show "del_core d D'"
    using core D' sorted l n(2) by (simp add: del_core_def)
qed

section \<open>Removing a bond on the delegator's side\<close>

definition entry_of :: "delegator \<Rightarrow> delegator option" where
  "entry_of D = (if delegations D = [] then None else Some D)"

definition lock_of :: "delegator \<Rightarrow> balance option" where
  "lock_of D = (if delegations D = [] then None else Some (locked D))"

lemma del_ok_Some: "del_ok d (Some D) l \<longleftrightarrow> del_core d D \<and> delegations D \<noteq> [] \<and> l = Some (locked D)"
  by (simp add: del_ok_def)

lemma entry_ok: "del_core d D \<Longrightarrow> del_ok d (entry_of D) (lock_of D)"
  by (simp add: entry_of_def lock_of_def del_ok_def)

lemma pledges_entry [simp]: "pledges (entry_of D) = pledges (Some D)"
  by (auto simp: entry_of_def pledges_def stakes_of_def fun_eq_iff)

lemma locked_zero: "del_core d D \<Longrightarrow> locked D = 0 \<longleftrightarrow> delegations D = []"
  by (auto simp: del_core_def locked_def sum_list_eq_0_iff neq_Nil_conv)

lemma zero_total: "del_core d D \<Longrightarrow> stake_is_zero (total D) \<longleftrightarrow> delegations D = []"
  using locked_zero [of d D] by (simp add: del_core_def stake_is_zero_def)

lemma adjust_lock_down:
  assumes "del_core d D"
  shows "adjust_bond_lock cfg DecreaseBond D s = Inr (set_delegator_lock d (lock_of D) s)"
  using zero_total [OF assms] assms by (simp add: adjust_bond_lock_def del_core_def lock_of_def)

lemma rm_delegation_ok:
  assumes core: "del_core d D" and c: "pledges (Some D) c = Some st"
  obtains D' where "rm_delegation cfg c D s = Some (Some (total D'), D', set_delegator_lock d (lock_of D') s)"
    "del_core d D'" "pledges (Some D') = (pledges (Some D))(c := None)" "length (delegations D) = Suc (length (delegations D'))"
proof -
  have sorted: "strictly_sorted owner (delegations D)" and dist: "distinct (map owner (delegations D))"
    using core by (simp_all add: del_core_def strictly_sorted_distinct)
  have st: "stakes_of (delegations D) c = Some st" using c by (simp add: pledges_def)
  then have mem: "\<lparr>owner = c, bond_stake = st\<rparr> \<in> set (delegations D)" using stakes_of_Some [OF dist] by simp
  have tk: "taken c (delegations D) = Some \<lparr>owner = c, bond_stake = st\<rparr>"
    using taken_Some [OF dist] mem by simp
  have le: "st_amount st \<le> locked D" and bal: "st_power st = st_amount st"
    using amounts_ge [OF mem] mem core by (auto simp: locked_def del_core_def balanced_def)
  let ?D = "D\<lparr>delegations := others c (delegations D), total := Stake (locked D - st_amount st) (locked D - st_amount st)\<rparr>"
  have os: "strictly_sorted owner (others c (delegations D))"
    unfolding others_def by (rule strictly_sorted_filter [OF sorted])
  have n: "locked D - st_amount st + opt_amount (stakes_of (delegations D) c) = locked D + opt_amount None"
    "locked D - st_amount st < 2 ^ 128"
    using core le st by (simp_all add: del_core_def less_imp_diff_less)
  have core': "del_core d ?D" by (rule del_core_edge(1) [OF core edge_others os _ _ _ _ _ n]) simp_all
  have pl: "pledges (Some ?D) = (pledges (Some D))(c := None)"
    by (rule del_core_edge(3) [OF core edge_others os _ _ _ _ _ n]) simp_all
  have tot: "stake_sub (total D) st = Stake (locked D - st_amount st) (locked D - st_amount st)"
    using core bal by (simp add: del_core_def stake_sub_def)
  have "rm_delegation cfg c D s = Some (Some (total ?D), ?D, set_delegator_lock d (lock_of ?D) s)"
    using adjust_lock_down [OF core', of cfg s]
    by (simp add: rm_delegation_def tk total_sub_def Let_def tot set_from_sorted [OF os])
  moreover have "length (delegations D) = Suc (length (delegations ?D))"
    using length_others [OF dist in_set_lists [OF mem]] by simp
  ultimately show thesis using that core' pl by blast
qed

section \<open>Requests and auto-compounding entries of a bond\<close>

lemma remove_at_index:
  assumes "distinct (map f xs)" and i: "i < length xs" "f (xs ! i) = k"
  shows "set (remove_at i xs) \<subseteq> set xs" "distinct (map f (remove_at i xs))" "k \<notin> f ` set (remove_at i xs)"
proof -
  have xs: "xs = take i xs @ xs ! i # drop (Suc i) xs" using i(1) by (simp add: id_take_nth_drop)
  then have d: "distinct (map f (take i xs @ xs ! i # drop (Suc i) xs))" using assms(1) by simp
  show "set (remove_at i xs) \<subseteq> set xs" by (auto simp: remove_at_def dest: in_set_takeD in_set_dropD)
  show "distinct (map f (remove_at i xs))" using d by (auto simp: remove_at_def)
  show "k \<notin> f ` set (remove_at i xs)" using d i(2) by (auto simp: remove_at_def)
qed

lemma remove_at_position:
  assumes "distinct (map f xs)" and "position (\<lambda>x. f x = k) xs = Some i"
  shows "set (remove_at i xs) \<subseteq> set xs" "distinct (map f (remove_at i xs))" "k \<notin> f ` set (remove_at i xs)"
  using remove_at_index [OF assms(1)] position_Some [OF assms(2)] by auto

lemma remove_request_ok:
  assumes "distinct (map req_delegator (scheduled_requests s c))"
  obtains rs x where
    "delegation_remove_request_with_state c who D s =
       (D\<lparr>less_total := x\<rparr>, s\<lparr>scheduled_requests := (scheduled_requests s)(c := rs)\<rparr>)"
    "set rs \<subseteq> set (scheduled_requests s c)" "distinct (map req_delegator rs)" "who \<notin> req_delegator ` set rs"
proof (cases "position (\<lambda>r. req_delegator r = who) (scheduled_requests s c)")
  case None
  then have "who \<notin> req_delegator ` set (scheduled_requests s c)" by (auto simp: position_None)
  then show thesis
    using that [of "less_total D" "scheduled_requests s c"] assms None
    by (simp add: delegation_remove_request_with_state_def)
next
  case (Some i)
  note R = remove_at_position [OF assms Some]
  show thesis
    by (rule that [of _ "remove_at i (scheduled_requests s c)"])
      (use R Some in \<open>auto simp: delegation_remove_request_with_state_def Let_def\<close>)
qed

lemma remove_for_delegator_sorted:
  "strictly_sorted acc_delegator cs \<Longrightarrow>
   remove_for_delegator who cs = (filter (\<lambda>x. acc_delegator x \<noteq> who) cs, who \<in> acc_delegator ` set cs)"
  using set_remove_sorted [of acc_delegator cs who]
  unfolding remove_for_delegator_def set_remove_def remove_at_def by simp

lemma remove_auto_eq:
  assumes "strictly_sorted acc_delegator (auto_compounding s c)"
  shows "remove_auto_compound c who s =
    s\<lparr>auto_compounding := (auto_compounding s)(c := filter (\<lambda>x. acc_delegator x \<noteq> who) (auto_compounding s c))\<rparr>"
proof (cases "who \<in> acc_delegator ` set (auto_compounding s c)")
  case True
  then show ?thesis using assms by (simp add: remove_auto_compound_def remove_for_delegator_sorted)
next
  case False
  then have "filter (\<lambda>x. acc_delegator x \<noteq> who) (auto_compounding s c) = auto_compounding s c"
    by (auto simp: filter_id_conv)
  then show ?thesis using assms False by (simp add: remove_auto_compound_def remove_for_delegator_sorted)
qed

section \<open>Books with one open edge\<close>

text \<open>
  After the candidate's side of a bond is changed the books agree as soon as the delegator's side is
  changed the same way.
\<close>

definition open_books ::
  "('env, 'fx) staking_config \<Rightarrow> account_id \<Rightarrow> candidate_metadata \<Rightarrow> account_id \<Rightarrow> stake option \<Rightarrow> 'env staking \<Rightarrow> bool" where
  "open_books cfg c m who v s \<longleftrightarrow>
     (\<forall>Dn l. pledges Dn = (pledges (delegator_state s who))(c := v) \<longrightarrow> del_ok who Dn l \<longrightarrow>
        books cfg ((candidate_info s)(c \<mapsto> m)) (top_delegations s) (bottom_delegations s) (candidate_pool s)
          ((delegator_state s)(who := Dn)) ((delegator_locks s)(who := l)) (scheduled_requests s)
          (auto_compounding s) (collator_locks s))"

lemma books_okD:
  assumes "books_ok cfg s"
  shows "strictly_sorted owner (candidate_pool s)" "\<And>d. del_ok d (delegator_state s d) (delegator_locks s d)"
    "\<And>c. distinct (map req_delegator (scheduled_requests s c))"
    "\<And>c. strictly_sorted acc_delegator (auto_compounding s c)"
    "\<And>c. pool_entry c (candidate_info s c) = find_by owner (candidate_pool s) c"
    "\<And>c. collator_locks s c = map_option (\<lambda>m. st_amount (self_stake m)) (candidate_info s c)"
  using booksD [OF assms [unfolded books_ok_def]] by (auto simp: reqs_ok_def)

lemma open_from_step:
  assumes B: "books_ok cfg s" and m: "candidate_info s c = Some m" and at: "cand_at cfg c m t b s"
    and step: "cand_step cfg c who (Some st) m t b s m' s'" and new: "pledges (delegator_state s who) c = None"
  shows "open_books cfg c m' who (Some st) s'"
proof -
  obtain t' b' P where s': "s' = s\<lparr>top_delegations := (top_delegations s)(c \<mapsto> t'),
            bottom_delegations := (bottom_delegations s)(c \<mapsto> b'), candidate_pool := P\<rparr>"
    and r: "same_self m m'" "cand_lists cfg t' b'" "meta_ok cfg m' t' b'" "strictly_sorted owner P"
    "find_by owner P = (find_by owner (candidate_pool s))(c := pool_entry c (Some m'))"
    "stakes_of (dels t' @ dels b') = (backing (top_delegations s c) (bottom_delegations s c))(who := Some st)"
    using cand_stepE [OF step at] .
  note BD = books_okD [OF B]
  have "who \<noteq> req_delegator q" if "q \<in> set (scheduled_requests s c)" for q
    using booksD(6) [OF B [unfolded books_ok_def], of c] that new by (auto simp: reqs_ok_def)
  then have nr: "\<And>q. q \<in> set (scheduled_requests s c) \<Longrightarrow> req_delegator q = who \<Longrightarrow> is_revoke (req_action q) \<Longrightarrow>
      Some st = Some (action_amount (req_action q))" by blast
  show ?thesis
    unfolding open_books_def
  proof (intro allI impI)
    fix Dn l
    assume "pledges Dn = (pledges (delegator_state s' who))(c := Some st)" "del_ok who Dn l"
    then show "books cfg ((candidate_info s')(c \<mapsto> m')) (top_delegations s') (bottom_delegations s') (candidate_pool s')
          ((delegator_state s')(who := Dn)) ((delegator_locks s')(who := l)) (scheduled_requests s')
          (auto_compounding s') (collator_locks s')"
      using books_edge [OF B [unfolded books_ok_def] m r, of Dn l "scheduled_requests s c" "auto_compounding s c"] BD(3,4) nr
      by (simp add: s')
  qed
qed

section \<open>Kicking the lowest bottom delegation\<close>

text \<open>What the operations on bonds leave alone.\<close>

definition rest :: "'env staking \<Rightarrow> round_info \<times> account_id list \<times> (round_index \<Rightarrow> (account_id \<times> collator_snapshot) list)" where
  "rest s = (round_state s, selected_candidates s, at_stake s)"

lemma rest_simps [simp]:
  "rest (put_top c t s) = rest s" "rest (put_bottom c b s) = rest s" "rest (put_candidate c m s) = rest s"
  "rest (put_delegator d D s) = rest s" "rest (deposit_staking_event e s) = rest s" "rest (set_requests c rs s) = rest s"
  "rest (set_delegator_lock d l s) = rest s" "rest (set_collator_lock c l s) = rest s"
  "rest (s\<lparr>candidate_pool := P\<rparr>) = rest s" "rest (s\<lparr>total_locked := tot\<rparr>) = rest s"
  "rest (s\<lparr>auto_compounding := au\<rparr>) = rest s" "rest (s\<lparr>scheduled_requests := rq\<rparr>) = rest s"
  "rest (s\<lparr>top_delegations := tp, bottom_delegations := bt, candidate_pool := P\<rparr>) = rest s"
  "rest (update_active c st s) = rest s"
  by (simp_all add: rest_def put_top_def put_bottom_def put_candidate_def put_delegator_def deposit_staking_event_def
      set_requests_def set_delegator_lock_def set_collator_lock_def update_active_def)

lemma put_simps [simp]:
  "delegator_state (put_delegator d D s) = (delegator_state s)(d := D)"
  "candidate_info (put_candidate c m s) = (candidate_info s)(c := m)"
  "bottom_delegations (put_bottom c b s) = (bottom_delegations s)(c \<mapsto> b)"
  "top_delegations (put_top c t s) = (top_delegations s)(c \<mapsto> t)"
  "scheduled_requests (set_requests c rs s) = (scheduled_requests s)(c := rs)"
  "delegator_locks (set_delegator_lock d l s) = (delegator_locks s)(d := l)"
  "collator_locks (set_collator_lock c l' s) = (collator_locks s)(c := l')"
  by (simp_all add: put_top_def put_bottom_def put_candidate_def put_delegator_def set_requests_def
      set_delegator_lock_def set_collator_lock_def)

text \<open>Each writer changes one component of the books.\<close>

lemma books_frame [simp]:
  "candidate_info (put_top c t s) = candidate_info s" "candidate_info (put_bottom c b s) = candidate_info s"
  "candidate_info (put_delegator d D s) = candidate_info s" "candidate_info (deposit_staking_event e s) = candidate_info s"
  "candidate_info (set_requests c rs s) = candidate_info s" "candidate_info (set_delegator_lock d l s) = candidate_info s"
  "candidate_info (set_collator_lock c l s) = candidate_info s"
  "top_delegations (put_candidate c m s) = top_delegations s" "top_delegations (put_bottom c b s) = top_delegations s"
  "top_delegations (put_delegator d D s) = top_delegations s" "top_delegations (deposit_staking_event e s) = top_delegations s"
  "top_delegations (set_requests c rs s) = top_delegations s" "top_delegations (set_delegator_lock d l s) = top_delegations s"
  "top_delegations (set_collator_lock c l s) = top_delegations s"
  "bottom_delegations (put_candidate c m s) = bottom_delegations s" "bottom_delegations (put_top c t s) = bottom_delegations s"
  "bottom_delegations (put_delegator d D s) = bottom_delegations s" "bottom_delegations (deposit_staking_event e s) = bottom_delegations s"
  "bottom_delegations (set_requests c rs s) = bottom_delegations s" "bottom_delegations (set_delegator_lock d l s) = bottom_delegations s"
  "bottom_delegations (set_collator_lock c l s) = bottom_delegations s"
  "candidate_pool (put_top c t s) = candidate_pool s" "candidate_pool (put_bottom c b s) = candidate_pool s"
  "candidate_pool (put_candidate c m s) = candidate_pool s" "candidate_pool (put_delegator d D s) = candidate_pool s"
  "candidate_pool (deposit_staking_event e s) = candidate_pool s" "candidate_pool (set_requests c rs s) = candidate_pool s"
  "candidate_pool (set_delegator_lock d l s) = candidate_pool s" "candidate_pool (set_collator_lock c l s) = candidate_pool s"
  "delegator_state (put_top c t s) = delegator_state s" "delegator_state (put_bottom c b s) = delegator_state s"
  "delegator_state (put_candidate c m s) = delegator_state s" "delegator_state (deposit_staking_event e s) = delegator_state s"
  "delegator_state (set_requests c rs s) = delegator_state s" "delegator_state (set_delegator_lock d l s) = delegator_state s"
  "delegator_state (set_collator_lock c l s) = delegator_state s"
  "delegator_locks (put_top c t s) = delegator_locks s" "delegator_locks (put_bottom c b s) = delegator_locks s"
  "delegator_locks (put_candidate c m s) = delegator_locks s" "delegator_locks (put_delegator d D s) = delegator_locks s"
  "delegator_locks (deposit_staking_event e s) = delegator_locks s" "delegator_locks (set_requests c rs s) = delegator_locks s"
  "delegator_locks (set_collator_lock c l s) = delegator_locks s"
  "scheduled_requests (put_top c t s) = scheduled_requests s" "scheduled_requests (put_bottom c b s) = scheduled_requests s"
  "scheduled_requests (put_candidate c m s) = scheduled_requests s" "scheduled_requests (put_delegator d D s) = scheduled_requests s"
  "scheduled_requests (deposit_staking_event e s) = scheduled_requests s" "scheduled_requests (set_delegator_lock d l s) = scheduled_requests s"
  "scheduled_requests (set_collator_lock c l s) = scheduled_requests s"
  "auto_compounding (put_top c t s) = auto_compounding s" "auto_compounding (put_bottom c b s) = auto_compounding s"
  "auto_compounding (put_candidate c m s) = auto_compounding s" "auto_compounding (put_delegator d D s) = auto_compounding s"
  "auto_compounding (deposit_staking_event e s) = auto_compounding s" "auto_compounding (set_requests c rs s) = auto_compounding s"
  "auto_compounding (set_delegator_lock d l s) = auto_compounding s" "auto_compounding (set_collator_lock c l s) = auto_compounding s"
  "collator_locks (put_top c t s) = collator_locks s" "collator_locks (put_bottom c b s) = collator_locks s"
  "collator_locks (put_candidate c m s) = collator_locks s" "collator_locks (put_delegator d D s) = collator_locks s"
  "collator_locks (deposit_staking_event e s) = collator_locks s" "collator_locks (set_requests c rs s) = collator_locks s"
  "collator_locks (set_delegator_lock d l s) = collator_locks s"
  by (simp_all add: put_top_def put_bottom_def put_candidate_def put_delegator_def deposit_staking_event_def
      set_requests_def set_delegator_lock_def set_collator_lock_def)

lemma less_total_core [simp]:
  "del_core d (D\<lparr>less_total := x\<rparr>) = del_core d D" "pledges (Some (D\<lparr>less_total := x\<rparr>)) = pledges (Some D)"
  "locked (D\<lparr>less_total := x\<rparr>) = locked D" "lock_of (D\<lparr>less_total := x\<rparr>) = lock_of D"
  by (simp_all add: del_core_def pledges_def locked_def lock_of_def)

lemma books_delegator:
  assumes "books_ok cfg s" and "pledges (delegator_state s d) c = Some st"
  obtains D where "delegator_state s d = Some D" "del_core d D" "delegations D \<noteq> []" "pledges (Some D) c = Some st"
    "delegator_locks s d = Some (locked D)"
  using assms(2) books_okD(2) [OF assms(1), of d] by (cases "delegator_state s d") (auto simp: pledges_def del_ok_def)

lemma kick_ok:
  assumes B: "books_ok cfg s" and m: "candidate_info s c = Some m" and at: "cand_at cfg c m t b s"
    and ne: "dels b \<noteq> []"
    and b1: "b1 = b\<lparr>dels := butlast (dels b), dels_total := stake_sub (dels_total b) (bond_stake (last (dels b)))\<rparr>"
    and m1: "m1 = (reset_bottom_data cfg b1 m)\<lparr>delegation_count := length (dels t) + length (dels b1)\<rparr>"
  obtains s1 where "kick_lowest_bottom cfg c b s = Some (b1, s1)"
    "books_ok cfg (put_candidate c (Some m1) (put_bottom c b1 s1))"
    "cand_at cfg c m1 t b1 (put_candidate c (Some m1) (put_bottom c b1 s1))"
    "candidate_info s1 = candidate_info s" "top_delegations s1 = top_delegations s"
    "bottom_delegations s1 = bottom_delegations s" "candidate_pool s1 = candidate_pool s" "rest s1 = rest s"
    "\<And>d. d \<noteq> owner (last (dels b)) \<Longrightarrow> delegator_state s1 d = delegator_state s d"
    "auto_compounding s1 c = filter (\<lambda>x. acc_delegator x \<noteq> owner (last (dels b))) (auto_compounding s c)"
proof -
  note A = cand_atD [OF at] and D = lists_okD [OF cand_atD(3) [OF at]] and BD = books_okD [OF B]
  let ?k = "owner (last (dels b))"
  have dist: "distinct (map owner (dels t @ dels b))" using A(3) by (simp add: lists_ok_def)
  have "stakes_of (dels t @ dels b) ?k = Some (bond_stake (last (dels b)))"
    using ne stakes_of_Some [OF dist] bond_in [OF last_in_set [OF ne] refl] by simp
  then have "pledges (delegator_state s ?k) c = Some (bond_stake (last (dels b)))"
    using books_backing [OF B at] by simp
  then obtain Dk where Dk: "delegator_state s ?k = Some Dk" "del_core ?k Dk" "delegations Dk \<noteq> []"
    "pledges (Some Dk) c = Some (bond_stake (last (dels b)))"
    using books_delegator [OF B] by metis
  obtain D' where rm: "rm_delegation cfg c Dk s = Some (Some (total D'), D', set_delegator_lock ?k (lock_of D') s)"
    "del_core ?k D'" "pledges (Some D') = (pledges (Some Dk))(c := None)" "length (delegations Dk) = Suc (length (delegations D'))"
    using rm_delegation_ok [OF Dk(2,4)] by metis
  let ?s1 = "set_delegator_lock ?k (lock_of D') s"
  have "distinct (map req_delegator (scheduled_requests ?s1 c))" using BD(3) by simp
  then obtain rs x where rq: "delegation_remove_request_with_state c ?k D' ?s1 =
      (D'\<lparr>less_total := x\<rparr>, ?s1\<lparr>scheduled_requests := (scheduled_requests ?s1)(c := rs)\<rparr>)"
    "set rs \<subseteq> set (scheduled_requests ?s1 c)" "distinct (map req_delegator rs)" "?k \<notin> req_delegator ` set rs"
    using remove_request_ok by metis
  have nk: "\<And>r. r \<in> set rs \<Longrightarrow> req_delegator r \<noteq> ?k" using rq(4) by (metis image_eqI)
  let ?s2 = "?s1\<lparr>scheduled_requests := (scheduled_requests ?s1)(c := rs)\<rparr>"
  let ?as = "filter (\<lambda>x. acc_delegator x \<noteq> ?k) (auto_compounding s c)"
  have au: "remove_auto_compound c ?k ?s2 = ?s2\<lparr>auto_compounding := (auto_compounding s)(c := ?as)\<rparr>"
    using remove_auto_eq [of ?s2 c ?k] BD(4) [of c] by simp
  let ?D = "D'\<lparr>less_total := x\<rparr>"
  let ?s3 = "deposit_staking_event (DelegationKicked ?k c (bond_stake (last (dels b))))
    (?s2\<lparr>auto_compounding := (auto_compounding s)(c := ?as)\<rparr>)"
  let ?s4 = "if delegations D' = [] then deposit_staking_event (DelegatorLeft ?k (bond_stake (last (dels b)))) (put_delegator ?k None ?s3)
     else put_delegator ?k (Some ?D) ?s3"
  have k: "kick_lowest_bottom cfg c b s = Some (b1, ?s4)"
    using ne Dk(1) rm(1,4) rq(1) au by (simp add: kick_lowest_bottom_def Let_def b1)
  have ds: "delegator_state ?s4 = (delegator_state s)(?k := entry_of ?D)" by (simp add: entry_of_def)
  have step: "lists_step (MaxTopDelegationsPerCandidate cfg) (MaxBottomDelegationsPerCandidate cfg) ?k None
      (dels t) (dels b) (dels t) (dels b1)"
    using kick_lowest [OF A(3) ne] by (simp add: b1)
  have M: "meta_ok cfg m1 t b1" "same_self m m1" "pool_entry c (Some m1) = pool_entry c (Some m)"
    using A(4) by (auto simp: m1 meta_ok_def reset_bottom_data_def same_self_def pool_entry_def is_active_def)
  have L: "cand_lists cfg t b1" using step by (simp add: lists_step_def)
  have bk: "stakes_of (dels t @ dels b1) = (backing (top_delegations s c) (bottom_delegations s c))(?k := None)"
    using edge_upd_stakes [OF dist] step A(1,2) by (simp add: lists_step_def backing_def)
  have "books cfg ((candidate_info s)(c \<mapsto> m1)) ((top_delegations s)(c \<mapsto> t)) ((bottom_delegations s)(c \<mapsto> b1)) (candidate_pool s)
      ((delegator_state s)(?k := entry_of ?D)) ((delegator_locks s)(?k := lock_of D'))
      ((scheduled_requests s)(c := rs)) ((auto_compounding s)(c := ?as)) (collator_locks s)"
    by (rule books_edge [OF B [unfolded books_ok_def] m M(2) L M(1) A(5) _ bk])
      (use Dk(1) rm(2,3) rq nk A(6) M(3) BD(4) entry_ok [of ?k ?D] in
        \<open>auto simp: fun_upd_idem_iff strictly_sorted_filter\<close>)
  moreover have "(top_delegations s)(c \<mapsto> t) = top_delegations s" using A(1) by (simp add: fun_upd_idem)
  ultimately have books: "books_ok cfg (put_candidate c (Some m1) (put_bottom c b1 ?s4))"
    unfolding books_ok_def by (cases "delegations D' = []") (simp_all add: entry_of_def)
  have at1: "cand_at cfg c m1 t b1 (put_candidate c (Some m1) (put_bottom c b1 ?s4))"
    using A L M(1,3) unfolding cand_at_def by simp
  show thesis
    by (rule that [OF k books at1]) (simp_all add: rest_def set_delegator_lock_def put_delegator_def deposit_staking_event_def)
qed

section \<open>Adding a bond on the candidate's side\<close>

lemma open_books_put_candidate [simp]:
  "open_books cfg c m who v (put_candidate c x s) = open_books cfg c m who v s"
  by (simp add: open_books_def)

lemma open_books_cong:
  assumes "open_books cfg c m who v s" and "candidate_info s' = candidate_info s" "top_delegations s' = top_delegations s"
    "bottom_delegations s' = bottom_delegations s" "candidate_pool s' = candidate_pool s" "delegator_state s' = delegator_state s"
    "delegator_locks s' = delegator_locks s" "scheduled_requests s' = scheduled_requests s"
    "auto_compounding s' = auto_compounding s" "collator_locks s' = collator_locks s"
  shows "open_books cfg c m who v s'"
  using assms by (simp add: open_books_def)

text \<open>A place among the bottom delegations: the lowest is kicked when they are full.\<close>

definition has_room ::
  "('env, 'fx) staking_config \<Rightarrow> account_id \<Rightarrow> account_id \<Rightarrow> candidate_metadata \<Rightarrow> delegations \<Rightarrow> delegations \<Rightarrow>
   'env staking \<Rightarrow> delegations \<Rightarrow> 'env staking \<Rightarrow> candidate_metadata \<Rightarrow> bool" where
  "has_room cfg c who m t b s b1 s1 mk \<longleftrightarrow>
     books_ok cfg (put_candidate c (Some mk) (put_bottom c b1 s1)) \<and>
     cand_at cfg c mk t b1 (put_candidate c (Some mk) (put_bottom c b1 s1)) \<and>
     length (dels b1) < MaxBottomDelegationsPerCandidate cfg \<and>
     mk = (reset_bottom_data cfg b1 m)\<lparr>delegation_count := length (dels t) + length (dels b1)\<rparr> \<and>
     length (dels b) = length (dels b1) + (if bottom_capacity m = Full then 1 else 0) \<and>
     set (dels b1) \<subseteq> set (dels b) \<and> rest s1 = rest s \<and> delegator_state s1 who = delegator_state s who"

lemma has_roomD:
  assumes "has_room cfg c who m t b s b1 s1 mk"
  shows "books_ok cfg (put_candidate c (Some mk) (put_bottom c b1 s1))"
    "cand_at cfg c mk t b1 (put_candidate c (Some mk) (put_bottom c b1 s1))"
    "length (dels b1) < MaxBottomDelegationsPerCandidate cfg" 
    "mk = (reset_bottom_data cfg b1 m)\<lparr>delegation_count := length (dels t) + length (dels b1)\<rparr>"
    "length (dels b) = length (dels b1) + (if bottom_capacity m = Full then 1 else 0)"
    "set (dels b1) \<subseteq> set (dels b)" "rest s1 = rest s" "delegator_state s1 who = delegator_state s who"
  using assms unfolding has_room_def by blast+

lemma make_room:
  assumes caps: "caps_ok cfg" and B: "books_ok cfg s" and m: "candidate_info s c = Some m" and at: "cand_at cfg c m t b s"
    and new: "who \<notin> owner ` set (dels t @ dels b)"
  obtains b1 s1 mk where
    "(if length (dels b) mod 2 ^ 32 = MaxBottomDelegationsPerCandidate cfg
      then map_option (\<lambda>(b, s'). (False, b, s')) (kick_lowest_bottom cfg c b s) else Some (inc, b, s))
     = Some (inc \<and> bottom_capacity m \<noteq> Full, b1, s1)"
    "has_room cfg c who m t b s b1 s1 mk"
proof -
  note A = cand_atD [OF at] and M = meta_okD [OF cand_atD(4) [OF at]] and D = lists_okD [OF cand_atD(3) [OF at]]
    and L = lists_capacities [OF caps cand_atD(3) [OF at]]
  show thesis
  proof (cases "length (dels b) = MaxBottomDelegationsPerCandidate cfg")
    case True
    then have ne: "dels b \<noteq> []" using caps_okD(2) [OF caps] by auto
    let ?b1 = "b\<lparr>dels := butlast (dels b), dels_total := stake_sub (dels_total b) (bond_stake (last (dels b)))\<rparr>"
    let ?mk = "(reset_bottom_data cfg ?b1 m)\<lparr>delegation_count := length (dels t) + length (dels ?b1)\<rparr>"
    obtain s1 where k: "kick_lowest_bottom cfg c b s = Some (?b1, s1)"
      "books_ok cfg (put_candidate c (Some ?mk) (put_bottom c ?b1 s1))"
      "cand_at cfg c ?mk t ?b1 (put_candidate c (Some ?mk) (put_bottom c ?b1 s1))"
      "candidate_info s1 = candidate_info s" "top_delegations s1 = top_delegations s"
      "bottom_delegations s1 = bottom_delegations s" "candidate_pool s1 = candidate_pool s" "rest s1 = rest s"
      "\<And>d. d \<noteq> owner (last (dels b)) \<Longrightarrow> delegator_state s1 d = delegator_state s d"
      using kick_ok [OF B m at ne refl refl] by metis
    have full: "bottom_capacity m = Full" using M(5) L(2) True by simp
    have w: "who \<noteq> owner (last (dels b))" using new ne by auto
    have ln: "length (dels b) = Suc (length (butlast (dels b)))" using ne by simp
    show thesis
    proof (rule that)
      show "(if length (dels b) mod 2 ^ 32 = MaxBottomDelegationsPerCandidate cfg
          then map_option (\<lambda>(b, s'). (False, b, s')) (kick_lowest_bottom cfg c b s) else Some (inc, b, s))
         = Some (inc \<and> bottom_capacity m \<noteq> Full, ?b1, s1)"
        using full True L(5) k(1) by simp
      show "has_room cfg c who m t b s ?b1 s1 ?mk"
        unfolding has_room_def
        by (intro conjI refl k(2,3,8) k(9) [OF w]) (use ln True full in \<open>simp_all add: subset_iff in_set_butlastD\<close>)
    qed
  next
    case False
    have mk: "(reset_bottom_data cfg b m)\<lparr>delegation_count := length (dels t) + length (dels b)\<rparr> = m"
      using M by (simp add: reset_bottom_data_def)
    have s: "put_candidate c (Some m) (put_bottom c b s) = s"
      using m A(2) by (simp add: put_candidate_def put_bottom_def fun_upd_idem)
    have nf: "bottom_capacity m \<noteq> Full" using M(5) L(2) False by simp
    show thesis
    proof (rule that)
      show "(if length (dels b) mod 2 ^ 32 = MaxBottomDelegationsPerCandidate cfg
          then map_option (\<lambda>(b, s'). (False, b, s')) (kick_lowest_bottom cfg c b s) else Some (inc, b, s))
         = Some (inc \<and> bottom_capacity m \<noteq> Full, b, s)"
        using False nf L(5) by simp
      show "has_room cfg c who m t b s b s m"
        unfolding has_room_def s by (intro conjI refl B at mk [symmetric]) (use False nf D(9) in simp_all)
    qed
  qed
qed

lemma delegation_count_plus:
  assumes "caps_ok cfg" and "length (dels t) \<le> MaxTopDelegationsPerCandidate cfg"
    and "length (dels b) \<le> MaxBottomDelegationsPerCandidate cfg"
    and "length (dels t) + length (dels b) < MaxTopDelegationsPerCandidate cfg + MaxBottomDelegationsPerCandidate cfg"
  shows "saturating_add 32 (length (dels t) + length (dels b)) 1 = Suc (length (dels t) + length (dels b))"
  using assms by (simp add: caps_ok_def saturating_add_def)

lemma add_bottom_ok:
  assumes caps: "caps_ok cfg" and B: "books_ok cfg s" and m: "candidate_info s c = Some m" and at: "cand_at cfg c m t b s"
    and new: "who \<notin> owner ` set (dels t @ dels b)" and full: "top_capacity m = Full"
    and low: "st \<le> lowest_top_delegation m" and pl: "pledges (delegator_state s who) c = None"
  shows "\<exists>m' s'. add_bottom_delegation cfg False c \<lparr>owner = who, bond_stake = st\<rparr> m s = Some (m', s') \<and>
     open_books cfg c m' who (Some st) s' \<and> delegator_state s' who = delegator_state s who \<and> rest s' = rest s"
proof -
  note A = cand_atD [OF at] and M = meta_okD [OF cand_atD(4) [OF at]] and D = lists_okD [OF cand_atD(3) [OF at]]
    and L = lists_capacities [OF caps cand_atD(3) [OF at]]
  obtain b1 s1 mk where kick: "(if length (dels b) mod 2 ^ 32 = MaxBottomDelegationsPerCandidate cfg
      then map_option (\<lambda>(b, s'). (False, b, s')) (kick_lowest_bottom cfg c b s) else Some (\<not> False, b, s))
     = Some (\<not> False \<and> bottom_capacity m \<noteq> Full, b1, s1)" and room: "has_room cfg c who m t b s b1 s1 mk"
    using make_room [OF caps B m at new] .
  note r = has_roomD [OF room]
  let ?sk = "put_candidate c (Some mk) (put_bottom c b1 s1)" and ?d = "\<lparr>owner = who, bond_stake = st\<rparr>"
  let ?b2 = "insert_sorted_greatest_to_least ?d b1"
  note Ak = cand_atD [OF r(2)] and Dk = lists_okD [OF cand_atD(3) [OF r(2)]]
  have lt: "length (dels t) = MaxTopDelegationsPerCandidate cfg" using full M(2) L(1) by simp
  have b2: "dels ?b2 = place bond_stake ?d (dels b1)" using Dk(2) by (rule insert_sorted_dels)
  have below: "bond_stake ?d \<le> bond_stake x" if "x \<in> set (dels t)" for x
    using lowest_le [OF A(3) that] low M(1) by simp
  have w: "owner ?d \<notin> owner ` set (dels t @ dels b1)" using new r(6) by auto
  have step: "lists_step (MaxTopDelegationsPerCandidate cfg) (MaxBottomDelegationsPerCandidate cfg) who (Some st)
      (dels t) (dels b1) (dels t) (dels ?b2)"
    using add_to_bottom [OF Ak(3) w r(3) lt below] b2 by simp
  have cs: "cand_step cfg c who (Some st) mk t b1 ?sk
      ((reset_bottom_data cfg ?b2 mk)\<lparr>delegation_count := length (dels t) + length (dels ?b2)\<rparr>) (put_bottom c ?b2 ?sk)"
    by (rule write_bottom [OF r(2) step])
  let ?m1 = "if bottom_capacity m \<noteq> Full then m\<lparr>delegation_count := saturating_add 32 (delegation_count m) 1\<rparr> else m"
  have cnt: "saturating_add 32 (length (dels t) + length (dels b)) 1 = Suc (length (dels t) + length (dels b))"
    if "bottom_capacity m \<noteq> Full"
    using delegation_count_plus [OF caps D(8,9)] that M(5) L(2) D(9) lt by simp
  have meta: "(reset_bottom_data cfg ?b2 mk)\<lparr>delegation_count := length (dels t) + length (dels ?b2)\<rparr> =
      reset_bottom_data cfg ?b2 ?m1"
    using r(4,5) M(6) cnt b2 by (auto simp: reset_bottom_data_def length_place)
  have "open_books cfg c (reset_bottom_data cfg ?b2 ?m1) who (Some st) (put_bottom c ?b2 ?sk)"
    using open_from_step [OF r(1) _ r(2) cs] pl r(8) meta by simp
  then have "open_books cfg c (reset_bottom_data cfg ?b2 ?m1) who (Some st) (put_bottom c ?b2 s1)"
    by (simp add: open_books_def)
  then show ?thesis
    using r(7,8) unfolding add_bottom_delegation_def A(2) Option.bind.simps kick by (simp add: Let_def)
qed

lemma add_top_room_ok:
  assumes caps: "caps_ok cfg" and B: "books_ok cfg s" and m: "candidate_info s c = Some m" and at: "cand_at cfg c m t b s"
    and new: "who \<notin> owner ` set (dels t @ dels b)" and room: "top_capacity m \<noteq> Full"
    and pl: "pledges (delegator_state s who) c = None"
  shows "\<exists>decr m' s'. add_top_delegation cfg c \<lparr>owner = who, bond_stake = st\<rparr> m s = Some (decr, m', s') \<and>
     open_books cfg c m' who (Some st) s' \<and> delegator_state s' who = delegator_state s who \<and> rest s' = rest s"
proof -
  note A = cand_atD [OF at] and M = meta_okD [OF cand_atD(4) [OF at]] and D = lists_okD [OF cand_atD(3) [OF at]]
    and L = lists_capacities [OF caps cand_atD(3) [OF at]]
  let ?d = "\<lparr>owner = who, bond_stake = st\<rparr>"
  let ?t2 = "insert_sorted_greatest_to_least ?d t"
  have lt: "length (dels t) < MaxTopDelegationsPerCandidate cfg" using room M(2) L(1) D(8) by simp
  have t2: "dels ?t2 = place bond_stake ?d (dels t)" using D(1) by (rule insert_sorted_dels)
  have step: "lists_step (MaxTopDelegationsPerCandidate cfg) (MaxBottomDelegationsPerCandidate cfg) who (Some st)
      (dels t) (dels b) (dels ?t2) (dels b)"
    using add_to_top [OF A(3), of ?d] new lt t2 by simp
  obtain m2 P where w: "reset_top_data cfg c ?t2 m s = (m2, s\<lparr>candidate_pool := P\<rparr>)"
    "delegation_count m2 = delegation_count m"
    "cand_step cfg c who (Some st) m t b s (m2\<lparr>delegation_count := length (dels ?t2) + length (dels b)\<rparr>)
       ((put_bottom c b (put_top c ?t2 s))\<lparr>candidate_pool := P\<rparr>)"
    using write_top [OF at step bottom_fresh_self [OF A(4)] refl] .
  let ?m3 = "m2\<lparr>delegation_count := saturating_add 32 (delegation_count m2) 1\<rparr>"
  have cnt: "m2\<lparr>delegation_count := length (dels ?t2) + length (dels b)\<rparr> = ?m3"
    using delegation_count_plus [OF caps D(8,9)] lt D(9) w(2) M(6) t2 by (simp add: length_place)
  have "put_bottom c b (put_top c ?t2 s) = put_top c ?t2 s" using A(2) by (intro put_same) simp
  then have "open_books cfg c ?m3 who (Some st) (put_top c ?t2 (s\<lparr>candidate_pool := P\<rparr>))"
    using open_from_step [OF B m at w(3) pl] cnt by (simp add: put_top_bottom)
  moreover have "add_top_delegation cfg c ?d m s = Some (None, ?m3, put_top c ?t2 (s\<lparr>candidate_pool := P\<rparr>))"
    using A(1) lt L(4) w(1) by (simp add: add_top_delegation_def Let_def)
  ultimately show ?thesis by simp
qed

lemma add_top_full_ok:
  assumes caps: "caps_ok cfg" and B: "books_ok cfg s" and m: "candidate_info s c = Some m" and at: "cand_at cfg c m t b s"
    and new: "who \<notin> owner ` set (dels t @ dels b)" and full: "top_capacity m = Full"
    and high: "lowest_top_delegation m < st" and pl: "pledges (delegator_state s who) c = None"
  shows "\<exists>decr m' s'. add_top_delegation cfg c \<lparr>owner = who, bond_stake = st\<rparr> m s = Some (decr, m', s') \<and>
     open_books cfg c m' who (Some st) s' \<and> delegator_state s' who = delegator_state s who \<and> rest s' = rest s"
proof -
  note A = cand_atD [OF at] and M = meta_okD [OF cand_atD(4) [OF at]] and D = lists_okD [OF cand_atD(3) [OF at]]
    and L = lists_capacities [OF caps cand_atD(3) [OF at]]
  obtain b1 s1 mk where kick: "(if length (dels b) mod 2 ^ 32 = MaxBottomDelegationsPerCandidate cfg
      then map_option (\<lambda>(b, s'). (False, b, s')) (kick_lowest_bottom cfg c b s) else Some (\<not> True, b, s))
     = Some (\<not> True \<and> bottom_capacity m \<noteq> Full, b1, s1)" and room: "has_room cfg c who m t b s b1 s1 mk"
    using make_room [OF caps B m at new] .
  note r = has_roomD [OF room]
  note Ak = cand_atD [OF r(2)] and Dk = lists_okD [OF cand_atD(3) [OF r(2)]]
  let ?sk = "put_candidate c (Some mk) (put_bottom c b1 s1)" and ?d = "\<lparr>owner = who, bond_stake = st\<rparr>"
  let ?t1 = "t\<lparr>dels := butlast (dels t), dels_total := stake_sub (dels_total t) (bond_stake (last (dels t)))\<rparr>"
  let ?t2 = "insert_sorted_greatest_to_least ?d ?t1" and ?b2 = "insert_sorted_greatest_to_least (last (dels t)) b1"
  have lt: "length (dels t) = MaxTopDelegationsPerCandidate cfg" using full M(2) L(1) by simp
  then have ne: "dels t \<noteq> []" using caps_okD(1) [OF caps] by auto
  have ls: "dels ?t2 = place bond_stake ?d (butlast (dels t))" "dels ?b2 = place bond_stake (last (dels t)) (dels b1)"
    using insert_sorted_dels [of ?t1 ?d] descending_butlast [OF D(1)] insert_sorted_dels [OF Dk(2)] by simp_all
  have w: "owner ?d \<notin> owner ` set (dels t @ dels b1)" using new r(6) by auto
  have above: "bond_stake (last (dels t)) < bond_stake ?d" using high M(1) ne by (simp add: lowest_delegation_amount_def)
  have step: "lists_step (MaxTopDelegationsPerCandidate cfg) (MaxBottomDelegationsPerCandidate cfg) who (Some st)
      (dels t) (dels b1) (dels ?t2) (dels ?b2)"
    using add_to_full_top [OF Ak(3) w r(3) lt caps_okD(1) [OF caps] above] ls by simp
  let ?m1 = "reset_bottom_data cfg ?b2 m" and ?s1 = "put_bottom c ?b2 s1"
  have fresh: "bottom_fresh cfg mk ?b2 ?m1" by (simp add: bottom_fresh_def r(4) same_self_def reset_bottom_data_def)
  have pool: "candidate_pool ?s1 = candidate_pool ?sk" by simp
  obtain m2 P where wr: "reset_top_data cfg c ?t2 ?m1 ?s1 = (m2, ?s1\<lparr>candidate_pool := P\<rparr>)"
    "delegation_count m2 = delegation_count ?m1"
    "cand_step cfg c who (Some st) mk t b1 ?sk (m2\<lparr>delegation_count := length (dels ?t2) + length (dels ?b2)\<rparr>)
       ((put_bottom c ?b2 (put_top c ?t2 ?sk))\<lparr>candidate_pool := P\<rparr>)"
    using write_top [OF r(2) step fresh pool] .
  let ?decr = "if bottom_capacity m = Full then Some (lowest_bottom_delegation m) else None"
  let ?m3 = "if ?decr = None then m2\<lparr>delegation_count := saturating_add 32 (delegation_count m2) 1\<rparr> else m2"
  have c1: "delegation_count m2 = length (dels t) + length (dels b)" using wr(2) M(6) by (simp add: reset_bottom_data_def)
  have c2: "length (dels ?t2) + length (dels ?b2) = Suc (length (dels t) + length (dels b1))"
    using ne by (simp add: ls length_place)
  have c3: "saturating_add 32 (length (dels t) + length (dels b)) 1 = Suc (length (dels t) + length (dels b))"
    if "bottom_capacity m \<noteq> Full"
    using delegation_count_plus [OF caps D(8,9)] that M(5) L(2) D(9) lt by simp
  have cnt: "m2\<lparr>delegation_count := length (dels ?t2) + length (dels ?b2)\<rparr> = ?m3"
  proof (cases "bottom_capacity m = Full")
    case True
    then have "length (dels ?t2) + length (dels ?b2) = delegation_count m2" using c1 c2 r(5) by simp
    with True show ?thesis by simp
  next
    case False
    then have "length (dels ?t2) + length (dels ?b2) = saturating_add 32 (delegation_count m2) 1"
      using c1 c2 c3 r(5) by simp
    with False show ?thesis by simp
  qed
  have op: "open_books cfg c ?m3 who (Some st) (put_top c ?t2 (?s1\<lparr>candidate_pool := P\<rparr>))"
    using open_from_step [OF r(1) _ r(2) wr(3)] pl r(8) unfolding cnt by (simp add: open_books_def)
  have ab: "add_bottom_delegation cfg True c (last (dels t)) m s = Some (?m1, ?s1)"
    unfolding add_bottom_delegation_def A(2) Option.bind.simps kick by (simp add: Let_def)
  have full': "(length (dels t) mod 2 ^ 32 = MaxTopDelegationsPerCandidate cfg) = True" "(dels t = []) = False"
    using lt L(4) ne by simp_all
  have "add_top_delegation cfg c ?d m s = Some (?decr, ?m3, put_top c ?t2 (?s1\<lparr>candidate_pool := P\<rparr>))"
    unfolding add_top_delegation_def A(1) Option.bind.simps full' if_True if_False Let_def ab option.map prod.case wr(1) by simp
  then show ?thesis using op r(7,8) by simp
qed

lemma add_ok:
  assumes caps: "caps_ok cfg" and B: "books_ok cfg s" and m: "candidate_info s c = Some m"
    and new: "pledges (delegator_state s who) c = None"
  shows "(\<exists>e. add_delegation cfg c \<lparr>owner = who, bond_stake = st\<rparr> m s = Some (Inl e)) \<or>
    (\<exists>a decr m' s'. add_delegation cfg c \<lparr>owner = who, bond_stake = st\<rparr> m s = Some (Inr (a, decr, m', s')) \<and>
      open_books cfg c m' who (Some st) s' \<and> delegator_state s' who = delegator_state s who \<and> rest s' = rest s)"
proof -
  obtain t b where at: "cand_at cfg c m t b s" using books_cand_at [OF B m] .
  have n: "who \<notin> owner ` set (dels t @ dels b)"
    using books_backing [OF B at, of who] new by (simp only: stakes_of_None not_False_eq_True)
  note T = add_top_room_ok [OF caps B m at n, of st] and F = add_top_full_ok [OF caps B m at n, of st]
    and O = add_bottom_ok [OF caps B m at n, of st]
  consider "top_capacity m \<noteq> Full" | "top_capacity m = Full" "lowest_top_delegation m < st"
    | "top_capacity m = Full" "\<not> lowest_top_delegation m < st" by blast
  then show ?thesis
  proof cases
    case 1
    then show ?thesis using T new by (auto simp: add_delegation_def)
  next
    case 2
    then show ?thesis using F new by (auto simp: add_delegation_def)
  next
    case 3
    then show ?thesis using O new by (auto simp: add_delegation_def not_less)
  qed
qed

end
