(* ===== verification/Staking_Calls.thy ===== *)
theory Staking_Calls
  imports Staking_Books
begin

text \<open>
  Every call of the staking pallet, on a state whose books agree, fails with an error or leaves a state
  whose books agree; it does not panic. The calls are taken in groups: increasing, decreasing and revoking a
  bond; delegating, with the delegation that is kicked out when the lists are full; scheduling, cancelling and
  executing requests, for one bond and for all; joining and leaving the candidates.
\<close>

section \<open>Calls that fail or succeed, but do not panic\<close>

definition ok_r :: "('a \<Rightarrow> bool) \<Rightarrow> serr + 'a \<Rightarrow> bool" where
  "ok_r P r \<longleftrightarrow> (\<forall>a. r = Inr a \<longrightarrow> P a)"

definition ok_p :: "('a \<Rightarrow> bool) \<Rightarrow> (serr + 'a) option \<Rightarrow> bool" where
  "ok_p P r \<longleftrightarrow> (\<exists>x. r = Some x \<and> ok_r P x)"

lemma ok_simps [simp]:
  "ok_r P (Inr a) = P a" "ok_r P (Inl e)" "ok_p P (Some x) = ok_r P x" "\<not> ok_p P None"
  by (simp_all add: ok_r_def ok_p_def)

lemma ok_r_bind [simp]: "ok_r P (bind_r x f) = (\<forall>a. x = Inr a \<longrightarrow> ok_r P (f a))"
  by (cases x) simp_all

lemma ok_p_bind_Some [simp]: "ok_p P (bind_p (Some x) f) = (\<forall>a. x = Inr a \<longrightarrow> ok_p P (f a))"
  by (cases x) simp_all

lemma ok_p_bind: "ok_p Q r \<Longrightarrow> (\<And>a. Q a \<Longrightarrow> ok_p P (f a)) \<Longrightarrow> ok_p P (bind_p r f)"
  by (cases "(r, f)" rule: bind_p.cases) auto

lemma ok_p_mono: "ok_p Q r \<Longrightarrow> (\<And>a. Q a \<Longrightarrow> P a) \<Longrightarrow> ok_p P r"
  by (auto simp: ok_p_def ok_r_def)

section \<open>Closing the books\<close>

lemma books_auto:
  assumes "books cfg ci tp bt P ds lk rq au cl" and "\<And>c. strictly_sorted acc_delegator (au' c)"
  shows "books cfg ci tp bt P ds lk rq au' cl"
  using assms by (simp add: books_def)

text \<open>Both sides of the bond of \<open>who\<close> towards \<open>c\<close> are changed; the pool may be written twice.\<close>

lemma edge_closed:
  assumes B: "books_ok cfg s" and m: "candidate_info s c = Some m" and at: "cand_at cfg c m t b s0"
    and step: "cand_step cfg c who v m t b s0 m' s'"
    and s0: "top_delegations s0 = top_delegations s" "bottom_delegations s0 = bottom_delegations s" "candidate_pool s0 = candidate_pool s"
    and P: "strictly_sorted owner P" "find_by owner P = find_by owner (candidate_pool s')"
    and pl: "pledges Dn = (pledges (delegator_state s who))(c := v)" and d: "del_ok who Dn l"
    and rq: "set rs \<subseteq> set (scheduled_requests s c)" "distinct (map req_delegator rs)" "v = None \<Longrightarrow> who \<notin> req_delegator ` set rs"
      "\<And>r. r \<in> set rs \<Longrightarrow> req_delegator r = who \<Longrightarrow> is_revoke (req_action r) \<Longrightarrow> v = Some (action_amount (req_action r))"
    and au: "strictly_sorted acc_delegator as"
  shows "books cfg ((candidate_info s)(c \<mapsto> m')) (top_delegations s') (bottom_delegations s') P ((delegator_state s)(who := Dn))
      ((delegator_locks s)(who := l)) ((scheduled_requests s)(c := rs)) ((auto_compounding s)(c := as)) (collator_locks s)"
proof -
  obtain t' b' P' where s': "s' = s0\<lparr>top_delegations := (top_delegations s0)(c \<mapsto> t'),
            bottom_delegations := (bottom_delegations s0)(c \<mapsto> b'), candidate_pool := P'\<rparr>"
    and r: "same_self m m'" "cand_lists cfg t' b'" "meta_ok cfg m' t' b'" "strictly_sorted owner P'"
    "find_by owner P' = (find_by owner (candidate_pool s0))(c := pool_entry c (Some m'))"
    "stakes_of (dels t' @ dels b') = (backing (top_delegations s0 c) (bottom_delegations s0 c))(who := v)"
    using cand_stepE [OF step at] .
  have F: "find_by owner P = (find_by owner (candidate_pool s))(c := pool_entry c (Some m'))"
    using P(2) r(5) s' s0(3) by simp
  have bk: "stakes_of (dels t' @ dels b') = (backing (top_delegations s c) (bottom_delegations s c))(who := v)"
    using r(6) s0 by simp
  have eqs: "top_delegations s' = (top_delegations s)(c \<mapsto> t')" "bottom_delegations s' = (bottom_delegations s)(c \<mapsto> b')"
    using s' s0 by simp_all
  show ?thesis
    unfolding eqs by (rule books_edge [OF B [unfolded books_ok_def] m r(1-3) P(1) F bk pl d rq au])
qed

lemma step_frame:
  assumes "cand_step cfg c who v m t b s0 m' s'"
  obtains tp bt P where "s' = s0\<lparr>top_delegations := tp, bottom_delegations := bt, candidate_pool := P\<rparr>"
    "strictly_sorted owner P" "find_by owner P c = pool_entry c (Some m')"
  using assms unfolding cand_step_def by fastforce

lemma cand_at_cong:
  "top_delegations s0 = top_delegations s \<Longrightarrow> bottom_delegations s0 = bottom_delegations s \<Longrightarrow>
   candidate_pool s0 = candidate_pool s \<Longrightarrow> cand_at cfg c m t b s0 = cand_at cfg c m t b s"
  by (simp add: cand_at_def)

lemma books_candidate:
  assumes "books_ok cfg s" and "pledges (delegator_state s who) c = Some st"
  obtains m t b where "candidate_info s c = Some m" "cand_at cfg c m t b s" "\<lparr>owner = who, bond_stake = st\<rparr> \<in> set (dels t @ dels b)"
proof -
  note D = booksD [OF assms(1) [unfolded books_ok_def]]
  have bk: "backing (top_delegations s c) (bottom_delegations s c) who = Some st" using D(5) assms(2) by simp
  then obtain m where m: "candidate_info s c = Some m"
    using D(1) [of c] by (auto simp: backing_def cand_ok_def split: option.splits)
  obtain t b where at: "cand_at cfg c m t b s" using books_cand_at [OF assms(1) m] .
  have "stakes_of (dels t @ dels b) who = Some st" using books_backing [OF assms(1) at] assms(2) by simp
  moreover have "distinct (map owner (dels t @ dels b))" using cand_atD(3) [OF at] by (simp add: lists_ok_def)
  ultimately have "\<lparr>owner = who, bond_stake = st\<rparr> \<in> set (dels t @ dels b)" using stakes_of_Some by blast
  then show thesis using that m at by blast
qed

text \<open>The bond of a delegator, as the delegator finds it in its own list.\<close>

lemma bond_at:
  assumes core: "del_core d D" and c: "pledges (Some D) c = Some st"
  obtains i where "position (\<lambda>b. owner b = c) (delegations D) = Some i" "delegations D ! i = \<lparr>owner = c, bond_stake = st\<rparr>"
    "\<And>st'. (delegations D)[i := (delegations D ! i)\<lparr>bond_stake := st'\<rparr>] = adjusted (\<lambda>_. st') c (delegations D)"
    "st_power st = st_amount st" "0 < st_amount st" "st_amount st \<le> locked D"
proof -
  have dist: "distinct (map owner (delegations D))" using core by (simp add: del_core_def strictly_sorted_distinct)
  have st: "stakes_of (delegations D) c = Some st" using c by (simp add: pledges_def)
  have mem: "\<lparr>owner = c, bond_stake = st\<rparr> \<in> set (delegations D)" using stakes_of_Some [OF dist] st by simp
  then have "st_power st = st_amount st" "0 < st_amount st" using core by (auto simp: del_core_def balanced_def)
  moreover have "st_amount st \<le> locked D" using amounts_ge [OF mem] by (simp add: locked_def)
  ultimately show thesis using position_adjusted [OF dist st] that by metis
qed

lemma bond_absent:
  assumes "pledges (Some D) c = None"
  shows "position (\<lambda>b. owner b = c) (delegations D) = None"
  using assms by (auto simp: pledges_def stakes_of_None position_None)

text \<open>The delegator with another stake at one candidate.\<close>

lemma bond_changed:
  assumes core: "del_core d D" and c: "pledges (Some D) c = Some st"
    and st': "st_power st' = st_amount st'" "0 < st_amount st'"
    and n: "n + st_amount st = locked D + st_amount st'" "n < 2 ^ 128"
    and D': "D' = D\<lparr>delegations := adjusted (\<lambda>_. st') c (delegations D), total := Stake n n, less_total := x\<rparr>"
  shows "del_core d D'" "locked D' = n" "pledges (Some D') = (pledges (Some D))(c \<mapsto> st')" "delegations D' \<noteq> []"
proof -
  have dist: "distinct (map owner (delegations D))" using core by (simp add: del_core_def strictly_sorted_distinct)
  have st: "stakes_of (delegations D) c = Some st" using c by (simp add: pledges_def)
  have e: "edge_upd c (Some st') (delegations D) (adjusted (\<lambda>_. st') c (delegations D))" by (rule edge_adjusted [OF dist st])
  have so: "strictly_sorted owner (adjusted (\<lambda>_. st') c (delegations D))"
    using core by (simp add: del_core_def strictly_sorted_map map_owner_adjusted)
  have n': "n + opt_amount (stakes_of (delegations D) c) = locked D + opt_amount (Some st')" using n(1) st by simp
  note E = del_core_edge [OF core e so, where D' = D' and n = n]
  show "del_core d D'" "locked D' = n" "pledges (Some D') = (pledges (Some D))(c \<mapsto> st')"
    by (rule E; use st' n' n(2) in \<open>simp add: D' balanced_def\<close>)+
  show "delegations D' \<noteq> []" using st by (auto simp: D' adjusted_def stakes_of_def)
qed

section \<open>Increasing a bond\<close>

lemma stake_add_exact: "a + b < 2 ^ 128 \<Longrightarrow> stake_add (Stake a a) (Stake b b) = Stake (a + b) (a + b)"
  by (simp add: stake_add_def saturating_add_def)

lemma unit_le: "Stake a a \<le> Stake b b \<longleftrightarrow> a \<le> b" "Stake a a < Stake b b \<longleftrightarrow> a < b"
  by (auto simp: less_eq_stake_def less_stake_def)

lemma stakable_free:
  assumes "staking_laws cfg" and "del_core d D" and "delegator_state s d = Some D"
  shows "get_delegator_stakable_free_balance cfg d s =
    Inr (Stake (free_balance cfg (staking_env s) d - locked D) (free_balance cfg (staking_env s) d - locked D))"
  using assms staking_lawsD(2) [OF assms(1)]
  by (simp add: get_delegator_stakable_free_balance_def del_core_def stake_sub_def)

lemma stakable_free_None:
  assumes "staking_laws cfg" and "delegator_state s d = None"
  shows "get_delegator_stakable_free_balance cfg d s =
    Inr (Stake (free_balance cfg (staking_env s) d) (free_balance cfg (staking_env s) d))"
  using assms staking_lawsD(2) [OF assms(1)] by (simp add: get_delegator_stakable_free_balance_def)

lemma adjust_lock_up:
  assumes "adjust_bond_lock cfg (Increase st) D s = Inr s'" and "del_core d D" and "delegations D \<noteq> []"
  shows "s' = set_delegator_lock d (Some (locked D)) s"
  using assms zero_total [OF assms(2)]
  by (auto simp: adjust_bond_lock_def result_simps del_core_def)

text \<open>\<open>update_active\<close> after the pool is up to date changes nothing that matters.\<close>

lemma update_active_again:
  assumes "strictly_sorted owner (candidate_pool s)" and "find_by owner (candidate_pool s) c = pool_entry c (Some m)"
    and "s' = (if is_active m \<and> q then update_active c (total_stake_counted m) s else s)"
  obtains P where "s' = s\<lparr>candidate_pool := P\<rparr>" "strictly_sorted owner P" "find_by owner P = find_by owner (candidate_pool s)"
proof (cases "is_active m \<and> q")
  case True
  obtain P where P: "update_active c (total_stake_counted m) s = s\<lparr>candidate_pool := P\<rparr>" "strictly_sorted owner P"
    "find_by owner P = (find_by owner (candidate_pool s))(c \<mapsto> \<lparr>owner = c, bond_stake = total_stake_counted m\<rparr>)"
    using update_active_pool [OF assms(1)] by blast
  have "find_by owner P = find_by owner (candidate_pool s)"
    using True P(3) assms(2) by (simp add: pool_entry_def fun_upd_idem)
  then show thesis using that [of P] True P(1,2) assms(3) by simp
next
  case False
  then have "s' = s" using assms(3) by auto
  then show thesis using that [of "candidate_pool s"] assms(1) by simp
qed

lemma increase_lock:
  assumes laws: "staking_laws cfg" and core: "del_core d D" and D: "delegator_state s d = Some D"
    and a: "adjust_bond_lock cfg (Increase (Stake a a)) D1 s = Inr s1" and D1: "delegator_id D1 = d"
  shows "a = 0 \<or> locked D + a < 2 ^ 128"
proof -
  have "Stake a a \<le> Stake (free_balance cfg (staking_env s) d - locked D) (free_balance cfg (staking_env s) d - locked D)"
    using a D1 stakable_free [OF laws core D] by (auto simp: adjust_bond_lock_def result_simps)
  then show ?thesis using staking_lawsD(3) [OF laws, of "staking_env s" d] unfolding unit_le by linarith
qed

lemma increase_delegation_ok:
  assumes laws: "staking_laws cfg" and B: "books_ok cfg s" and D: "delegator_state s who = Some D"
    and nr: "\<not> delegation_request_revoke_exists c who s"
  shows "\<exists>r s'. increase_delegation cfg c (Stake a a) D s = Some (r, s') \<and> books_ok cfg s' \<and> rest s' = rest s"
proof (cases "pledges (Some D) c")
  case None
  then show ?thesis using B bond_absent [OF None] by (simp add: increase_delegation_def)
next
  case (Some st)
  note BD = books_okD [OF B]
  have core: "del_core who D" and id: "delegator_id D = who"
    using BD(2) [of who] D by (auto simp: del_ok_def del_core_def)
  obtain i where i: "position (\<lambda>b. owner b = c) (delegations D) = Some i" "delegations D ! i = \<lparr>owner = c, bond_stake = st\<rparr>"
    "\<And>st'. (delegations D)[i := (delegations D ! i)\<lparr>bond_stake := st'\<rparr>] = adjusted (\<lambda>_. st') c (delegations D)"
    "st_power st = st_amount st" "0 < st_amount st" "st_amount st \<le> locked D"
    using bond_at [OF core Some] by metis
  let ?inc = "Stake a a" and ?st = "stake_add st (Stake a a)"
  define D1 where "D1 = D\<lparr>delegations := adjusted (\<lambda>_. ?st) c (delegations D), total := stake_add (total D) ?inc\<rparr>"
  show ?thesis
  proof (cases "adjust_bond_lock cfg (Increase ?inc) D1 s")
    case (Inl e)
    then show ?thesis using B i(1-3) by (simp add: increase_delegation_def Let_def D1_def)
  next
    case (Inr s1)
    have small: "locked D + a < 2 ^ 128"
      using increase_lock [OF laws core D Inr] id core by (auto simp: D1_def del_core_def)
    have st: "st = Stake (st_amount st) (st_amount st)" using i(4) by (cases st) simp
    have st': "?st = Stake (st_amount st + a) (st_amount st + a)"
      using stake_add_exact [of "st_amount st" a] st small i(6) by simp
    have tot: "stake_add (total D) ?inc = Stake (locked D + a) (locked D + a)"
      using stake_add_exact [of "locked D" a] core small by (simp add: del_core_def)
    have D1: "D1 = D\<lparr>delegations := adjusted (\<lambda>_. ?st) c (delegations D), total := Stake (locked D + a) (locked D + a), less_total := less_total D\<rparr>"
      unfolding D1_def tot by simp
    note C = bond_changed [OF core Some _ _ _ small D1]
    have core1: "del_core who D1" and lk: "locked D1 = locked D + a" and ne: "delegations D1 \<noteq> []"
      and pl: "pledges (Some D1) = (pledges (Some D))(c \<mapsto> ?st)"
      using C i(5) by (simp_all add: st')
    have s1: "s1 = set_delegator_lock who (Some (locked D1)) s" by (rule adjust_lock_up [OF Inr core1 ne])
    have "pledges (delegator_state s who) c = Some st" using D Some by simp
    then obtain m t b where m: "candidate_info s c = Some m" "cand_at cfg c m t b s"
      "\<lparr>owner = who, bond_stake = st\<rparr> \<in> set (dels t @ dels b)"
      using books_candidate [OF B] by metis
    have at1: "cand_at cfg c m t b s1" using m(2) by (simp add: s1 cand_at_def)
    have fit: "stake_fits st" using i(4,6) core by (simp add: stake_fits_def del_core_def)
    obtain r m' s2 where r: "cand_increase_delegation cfg c who st ?inc m s1 = Some (Inr (r, m', s2))"
      "cand_step cfg c who (Some ?st) m t b s1 m' s2"
      using cand_increase_ok [OF staking_lawsD(1) [OF laws] at1 m(3) fit] by metis
    obtain tp bt P where s2: "s2 = s1\<lparr>top_delegations := tp, bottom_delegations := bt, candidate_pool := P\<rparr>"
      "strictly_sorted owner P" "find_by owner P c = pool_entry c (Some m')"
      using step_frame [OF r(2)] .
    let ?s3 = "if is_active m' \<and> total_stake_counted m \<noteq> total_stake_counted m' then update_active c (total_stake_counted m') s2 else s2"
    have p2: "strictly_sorted owner (candidate_pool s2)" "find_by owner (candidate_pool s2) c = pool_entry c (Some m')"
      using s2 by simp_all
    obtain P' where P': "?s3 = s2\<lparr>candidate_pool := P'\<rparr>" "strictly_sorted owner P'" "find_by owner P' = find_by owner (candidate_pool s2)"
      by (rule update_active_again [OF p2 refl])
    have rv: "Some ?st = Some (action_amount (req_action q))"
      if "q \<in> set (scheduled_requests s c)" "req_delegator q = who" "is_revoke (req_action q)" for q
      using nr that by (auto simp: delegation_request_revoke_exists_def list_ex_iff)
    have dok: "del_ok who (Some D1) (Some (locked D1))" using core1 ne by (simp add: del_ok_Some)
    have pl': "pledges (Some D1) = (pledges (delegator_state s who))(c := Some ?st)" using pl D by simp
    have "books cfg ((candidate_info s)(c \<mapsto> m')) (top_delegations s2) (bottom_delegations s2) P' ((delegator_state s)(who \<mapsto> D1))
      ((delegator_locks s)(who \<mapsto> locked D1)) ((scheduled_requests s)(c := scheduled_requests s c)) ((auto_compounding s)(c := auto_compounding s c)) (collator_locks s)"
      by (rule edge_closed [OF B m(1) at1 r(2) _ _ _ P'(2,3) pl' dok subset_refl BD(3) _ rv BD(4)]) (simp_all add: s1)
    then have books: "books cfg ((candidate_info s)(c \<mapsto> m')) tp bt P' ((delegator_state s)(who \<mapsto> D1))
      ((delegator_locks s)(who \<mapsto> locked D1)) (scheduled_requests s) (auto_compounding s) (collator_locks s)"
      by (simp add: s2)
    let ?s4 = "put_candidate c (Some m') (s2\<lparr>candidate_pool := P'\<rparr>)"
    let ?s5 = "put_delegator who (Some D1) (?s4\<lparr>total_locked := stake_add (total_locked ?s4) ?inc\<rparr>)"
    have "increase_delegation cfg c ?inc D s = Some (Inr r, ?s5)"
      using Inr i(1-3) m(1) r(1) id P'(1) by (simp add: increase_delegation_def Let_def D1_def s1)
    moreover have "books_ok cfg ?s5" unfolding books_ok_def using books by (simp add: s2 s1)
    moreover have "rest ?s5 = rest s" by (simp add: s2 s1 rest_def put_candidate_def put_delegator_def set_delegator_lock_def)
    ultimately show ?thesis by blast
  qed
qed

section \<open>Decreasing and revoking a bond\<close>

abbreviation keeps :: "('env, 'fx) staking_config \<Rightarrow> 'env staking \<Rightarrow> 'env staking \<Rightarrow> bool" where
  "keeps cfg s s' \<equiv> books_ok cfg s' \<and> rest s' = rest s"

lemma books_request:
  assumes "books_ok cfg s" and "r \<in> set (scheduled_requests s c)"
  obtains st where "balanced (action_amount (req_action r))" "pledges (delegator_state s (req_delegator r)) c = Some st"
    "is_revoke (req_action r) \<Longrightarrow> action_amount (req_action r) = st"
  using booksD(6) [OF assms(1) [unfolded books_ok_def], of c] assms(2) by (auto simp: reqs_ok_def)

text \<open>The request that is executed is dropped.\<close>

lemma drop_request:
  assumes B: "books_ok cfg s" and i: "position (\<lambda>r. req_delegator r = who) (scheduled_requests s c) = Some i"
  shows "set (remove_at i (scheduled_requests s c)) \<subseteq> set (scheduled_requests s c)"
    "distinct (map req_delegator (remove_at i (scheduled_requests s c)))"
    "who \<notin> req_delegator ` set (remove_at i (scheduled_requests s c))"
  using remove_at_position [OF books_okD(3) [OF B] i] by blast+

lemma decrease_ok:
  assumes laws: "staking_laws cfg" and B: "books_ok cfg s" and D: "delegator_state s who = Some D"
    and bal: "st_power dec = st_amount dec"
    and rq: "set rs \<subseteq> set (scheduled_requests s c)" "distinct (map req_delegator rs)" "who \<notin> req_delegator ` set rs"
  shows "\<exists>r D' s'. decrease_delegator_stake cfg c who dec D s = Some (r, D', s') \<and>
    (\<forall>b. r = Inr b \<longrightarrow> keeps cfg s (set_requests c rs s'))"
proof (cases "pledges (Some D) c")
  case None
  then show ?thesis using bond_absent [OF None] by (simp add: decrease_delegator_stake_def Let_def)
next
  case (Some st)
  note BD = books_okD [OF B]
  have core: "del_core who D" and id: "delegator_id D = who"
    using BD(2) [of who] D by (auto simp: del_ok_def del_core_def)
  obtain i where i: "position (\<lambda>b. owner b = c) (delegations D) = Some i" "delegations D ! i = \<lparr>owner = c, bond_stake = st\<rparr>"
    "\<And>st'. (delegations D)[i := (delegations D ! i)\<lparr>bond_stake := st'\<rparr>] = adjusted (\<lambda>_. st') c (delegations D)"
    "st_power st = st_amount st" "0 < st_amount st" "st_amount st \<le> locked D"
    using bond_at [OF core Some] by metis
  let ?a = "st_amount dec" and ?x = "stake_sub (less_total D) dec"
  have dec: "dec = Stake ?a ?a" using bal by (cases dec) simp
  show ?thesis
  proof (cases "dec < st")
    case False
    then show ?thesis using i(1-3) by (simp add: decrease_delegator_stake_def Let_def)
  next
    case True
    then have lt: "?a < st_amount st" using i(4) bal by (auto simp: less_stake_def)
    have st': "stake_sub st dec = Stake (st_amount st - ?a) (st_amount st - ?a)"
      using i(4) bal by (simp add: stake_sub_def)
    have tot: "stake_sub (total D) dec = Stake (locked D - ?a) (locked D - ?a)"
      using core bal by (simp add: del_core_def stake_sub_def)
    define D2 where "D2 = D\<lparr>less_total := ?x, delegations := adjusted (\<lambda>_. stake_sub st dec) c (delegations D)\<rparr>"
    define D3 where "D3 = D\<lparr>delegations := adjusted (\<lambda>_. stake_sub st dec) c (delegations D), total := Stake (locked D - ?a) (locked D - ?a), less_total := ?x\<rparr>"
    have n: "locked D - ?a + st_amount st = locked D + st_amount (stake_sub st dec)" "locked D - ?a < 2 ^ 128"
      using lt i(6) core by (simp_all add: st' del_core_def less_imp_diff_less)
    note C = bond_changed [OF core Some _ _ n D3_def]
    have core3: "del_core who D3" and ne: "delegations D3 \<noteq> []" and pl: "pledges (Some D3) = (pledges (Some D))(c \<mapsto> stake_sub st dec)"
      using C lt by (simp_all add: st')
    let ?check = "\<lambda>tot. bind_r (ensure (MinDelegation cfg \<le> st_amount tot) (Module DelegationBelowMin)) (\<lambda>_.
      ensure (MinDelegatorStk cfg \<le> st_amount tot) (Module DelegatorBondBelowMin))"
    let ?s1 = "set_delegator_lock who (Some (locked D3)) s"
    have D23: "D2\<lparr>total := Stake (locked D - ?a) (locked D - ?a)\<rparr> = D3" and tot2: "total D2 = total D" by (simp_all add: D2_def D3_def)
    have lk: "lock_of D3 = Some (locked D3)" using ne by (simp add: lock_of_def)
    have ts: "total_sub_if cfg dec ?check D2 s = bind_r (?check (Stake (locked D - ?a) (locked D - ?a))) (\<lambda>_. Inr (D3, ?s1))"
      using adjust_lock_down [OF core3, of cfg s] by (simp add: total_sub_if_def Let_def tot tot2 D23 lk)
    have "pledges (delegator_state s who) c = Some st" using D Some by simp
    then obtain m t b where m: "candidate_info s c = Some m" "cand_at cfg c m t b s"
      "\<lparr>owner = who, bond_stake = st\<rparr> \<in> set (dels t @ dels b)"
      using books_candidate [OF B] by metis
    have at1: "cand_at cfg c m t b ?s1" using m(2) by (simp add: cand_at_def)
    obtain r m' s2 where r: "cand_decrease_delegation cfg c who st dec m ?s1 = Some (Inr (r, m', s2))"
      "cand_step cfg c who (Some (stake_sub st dec)) m t b ?s1 m' s2"
      using cand_decrease_ok [OF staking_lawsD(1) [OF laws] at1 m(3)] by metis
    obtain tp bt P where s2: "s2 = ?s1\<lparr>top_delegations := tp, bottom_delegations := bt, candidate_pool := P\<rparr>"
      "strictly_sorted owner P" "find_by owner P c = pool_entry c (Some m')"
      using step_frame [OF r(2)] .
    have rv: "Some (stake_sub st dec) = Some (action_amount (req_action q))"
      if "q \<in> set rs" "req_delegator q = who" "is_revoke (req_action q)" for q
      using rq(3) that by (metis image_eqI)
    have dok: "del_ok who (Some D3) (Some (locked D3))" using core3 ne by (simp add: del_ok_Some)
    have pl': "pledges (Some D3) = (pledges (delegator_state s who))(c := Some (stake_sub st dec))" using pl D by simp
    have "books cfg ((candidate_info s)(c \<mapsto> m')) (top_delegations s2) (bottom_delegations s2) P ((delegator_state s)(who \<mapsto> D3))
      ((delegator_locks s)(who \<mapsto> locked D3)) ((scheduled_requests s)(c := rs)) ((auto_compounding s)(c := auto_compounding s c)) (collator_locks s)"
      by (rule edge_closed [OF B m(1) at1 r(2) _ _ _ s2(2) _ pl' dok rq(1,2) _ rv BD(4)]) (simp_all add: s2(1))
    then have books: "books cfg ((candidate_info s)(c \<mapsto> m')) tp bt P ((delegator_state s)(who \<mapsto> D3))
      ((delegator_locks s)(who \<mapsto> locked D3)) ((scheduled_requests s)(c := rs)) (auto_compounding s) (collator_locks s)"
      by (simp add: s2(1))
    let ?s3 = "put_candidate c (Some m') s2"
    let ?s5 = "put_delegator who (Some D3) (?s3\<lparr>total_locked := stake_sub (total_locked ?s3) dec\<rparr>)"
    have "\<exists>r D'. decrease_delegator_stake cfg c who dec D s = Some (r, D', s) \<and> (\<forall>b. r \<noteq> Inr b) \<or>
        decrease_delegator_stake cfg c who dec D s = Some (Inr r', D3, ?s5)" if "r' = r" for r'
      using True i(1-3) m(1) r(1) ts that
      by (simp add: decrease_delegator_stake_def Let_def D2_def ensure_def)
    moreover have "books_ok cfg (set_requests c rs ?s5)" unfolding books_ok_def using books by (simp add: s2(1))
    moreover have "rest (set_requests c rs ?s5) = rest s"
      by (simp add: s2(1) rest_def put_candidate_def put_delegator_def set_delegator_lock_def set_requests_def)
    ultimately show ?thesis by blast
  qed
qed

text \<open>The candidate's side of a revocation, in a state where only the delegator's side has changed.\<close>

lemma leave_candidate_ok:
  assumes laws: "staking_laws cfg" and B: "books_ok cfg s" and pl: "pledges (delegator_state s who) c = Some st"
    and s1: "top_delegations s1 = top_delegations s" "bottom_delegations s1 = bottom_delegations s"
      "candidate_pool s1 = candidate_pool s" "candidate_info s1 = candidate_info s"
    and rq: "set rs \<subseteq> set (scheduled_requests s c)" "distinct (map req_delegator rs)" "who \<notin> req_delegator ` set rs"
    and D': "pledges Dn = (pledges (delegator_state s who))(c := None)" "del_ok who Dn l"
  obtains m tp bt P tot e where
    "delegator_leaves_candidate cfg c who st s1 =
       Some (Inr (deposit_staking_event e (s1\<lparr>top_delegations := tp, bottom_delegations := bt, candidate_pool := P,
         total_locked := tot, candidate_info := (candidate_info s)(c \<mapsto> m)\<rparr>)))"
    "books cfg ((candidate_info s)(c \<mapsto> m)) tp bt P ((delegator_state s)(who := Dn)) ((delegator_locks s)(who := l))
       ((scheduled_requests s)(c := rs)) ((auto_compounding s)(c := filter (\<lambda>x. acc_delegator x \<noteq> who) (auto_compounding s c)))
       (collator_locks s)"
proof -
  note BD = books_okD [OF B]
  obtain m t b where m: "candidate_info s c = Some m" "cand_at cfg c m t b s"
    "\<lparr>owner = who, bond_stake = st\<rparr> \<in> set (dels t @ dels b)"
    using books_candidate [OF B pl] by metis
  have at1: "cand_at cfg c m t b s1" using m(2) s1 by (simp add: cand_at_def)
  obtain r m' s2 where r: "rm_delegation_if_exists cfg c who st m s1 = Some (Inr (r, m', s2))"
    "cand_step cfg c who None m t b s1 m' s2"
    using rm_exact [OF staking_lawsD(1) [OF laws] at1 m(3)] by metis
  obtain tp bt P where s2: "s2 = s1\<lparr>top_delegations := tp, bottom_delegations := bt, candidate_pool := P\<rparr>"
    "strictly_sorted owner P" "find_by owner P c = pool_entry c (Some m')"
    using step_frame [OF r(2)] .
  have rv: "None = Some (action_amount (req_action q))"
    if "q \<in> set rs" "req_delegator q = who" "is_revoke (req_action q)" for q
    using rq(3) that by (metis image_eqI)
  have au: "strictly_sorted acc_delegator (filter (\<lambda>x. acc_delegator x \<noteq> who) (auto_compounding s c))"
    using BD(4) by (rule strictly_sorted_filter)
  have fs: "find_by owner P = find_by owner (candidate_pool s2)" by (simp add: s2(1))
  have "books cfg ((candidate_info s)(c \<mapsto> m')) (top_delegations s2) (bottom_delegations s2) P ((delegator_state s)(who := Dn))
    ((delegator_locks s)(who := l)) ((scheduled_requests s)(c := rs))
    ((auto_compounding s)(c := filter (\<lambda>x. acc_delegator x \<noteq> who) (auto_compounding s c))) (collator_locks s)"
    by (rule edge_closed [OF B m(1) at1 r(2) s1(1-3) s2(2) fs D' rq rv au])
  then have books: "books cfg ((candidate_info s)(c \<mapsto> m')) tp bt P ((delegator_state s)(who := Dn))
    ((delegator_locks s)(who := l)) ((scheduled_requests s)(c := rs))
    ((auto_compounding s)(c := filter (\<lambda>x. acc_delegator x \<noteq> who) (auto_compounding s c))) (collator_locks s)"
    by (simp add: s2(1))
  have "delegator_leaves_candidate cfg c who st s1 =
       Some (Inr (deposit_staking_event (DelegatorLeftCandidate who c st (total_stake_counted m')) (s1\<lparr>top_delegations := tp, bottom_delegations := bt, candidate_pool := P,
         total_locked := stake_sub (total_locked s1) st, candidate_info := (candidate_info s)(c \<mapsto> m')\<rparr>)))"
    using m(1) s1(4) r(1) by (simp add: delegator_leaves_candidate_def Let_def s2(1) put_candidate_def)
  then show thesis using that books by blast
qed

lemma revoke_ok:
  assumes laws: "staking_laws cfg" and B: "books_ok cfg s" and D: "delegator_state s who = Some D"
    and pl: "pledges (Some D) c = Some st"
    and rq: "set rs \<subseteq> set (scheduled_requests s c)" "distinct (map req_delegator rs)" "who \<notin> req_delegator ` set rs"
    and allowed: "length (delegations D) = 1 \<or> st_amount st \<le> st_amount (total D) - MinDelegatorStk cfg"
  obtains D' s' where "revoke_delegator_stake cfg c who st D s = Some (Inr (D', s'))"
    "keeps cfg s (set_requests c rs s')" "pledges (delegator_state s' who) c = None"
    "delegator_locks s' who = (if delegations D' = [] then None else Some (locked D'))" "locked D = locked D' + st_amount st"
proof -
  note BD = books_okD [OF B]
  let ?D0 = "D\<lparr>less_total := stake_sub (less_total D) st\<rparr>"
  have core: "del_core who ?D0" and ne: "delegations D \<noteq> []" using BD(2) [of who] D by (auto simp: del_ok_def)
  have pl0: "pledges (Some ?D0) c = Some st" using pl by simp
  obtain D' where rm: "rm_delegation cfg c ?D0 s = Some (Some (total D'), D', set_delegator_lock who (lock_of D') s)"
    "del_core who D'" "pledges (Some D') = (pledges (Some ?D0))(c := None)" "length (delegations ?D0) = Suc (length (delegations D'))"
    using rm_delegation_ok [OF core pl0] by metis
  let ?s1 = "set_delegator_lock who (lock_of D') s"
  let ?as = "filter (\<lambda>x. acc_delegator x \<noteq> who) (auto_compounding s c)"
  let ?s2 = "?s1\<lparr>auto_compounding := (auto_compounding s)(c := ?as)\<rparr>"
  have au: "remove_auto_compound c who ?s1 = ?s2" using remove_auto_eq [of ?s1 c who] BD(4) [of c] by simp
  have pl1: "pledges (delegator_state s who) c = Some st" using D pl by simp
  have Dn: "pledges (entry_of D') = (pledges (delegator_state s who))(c := None)" using rm(3) D by simp
  have eqs: "top_delegations ?s2 = top_delegations s" "bottom_delegations ?s2 = bottom_delegations s"
      "candidate_pool ?s2 = candidate_pool s" "candidate_info ?s2 = candidate_info s" by simp_all
  obtain m tp bt P tot e where r: "delegator_leaves_candidate cfg c who st ?s2 =
       Some (Inr (deposit_staking_event e (?s2\<lparr>top_delegations := tp, bottom_delegations := bt, candidate_pool := P,
         total_locked := tot, candidate_info := (candidate_info s)(c \<mapsto> m)\<rparr>)))"
    "books cfg ((candidate_info s)(c \<mapsto> m)) tp bt P ((delegator_state s)(who := entry_of D')) ((delegator_locks s)(who := lock_of D'))
       ((scheduled_requests s)(c := rs)) ((auto_compounding s)(c := ?as)) (collator_locks s)"
    using leave_candidate_ok [OF laws B pl1 eqs rq Dn entry_ok [OF rm(2)]] .
  let ?s3 = "deposit_staking_event e (?s2\<lparr>top_delegations := tp, bottom_delegations := bt, candidate_pool := P,
         total_locked := tot, candidate_info := (candidate_info s)(c \<mapsto> m)\<rparr>)"
  let ?s4 = "if delegations D' = [] then deposit_staking_event (DelegatorLeft who st) (put_delegator who None ?s3)
     else put_delegator who (Some D') ?s3"
  have one: "length (delegations D) = 1 \<longleftrightarrow> delegations D' = []" using rm(4) by simp
  have run: "revoke_delegator_stake cfg c who st D s = Some (Inr (D', ?s4))"
    using allowed rm(1) au r(1) one by (auto simp: revoke_delegator_stake_def Let_def ensure_def)
  have ds: "delegator_state ?s4 = (delegator_state s)(who := entry_of D')" by (simp add: entry_of_def)
  have "books_ok cfg (set_requests c rs ?s4)"
    unfolding books_ok_def using r(2) by (cases "delegations D' = []") (simp_all add: entry_of_def)
  moreover have "rest (set_requests c rs ?s4) = rest s"
    by (simp add: rest_def put_delegator_def set_delegator_lock_def set_requests_def deposit_staking_event_def)
  moreover have "pledges (delegator_state ?s4 who) c = None" using ds rm(3) by simp
  moreover have "delegator_locks ?s4 who = (if delegations D' = [] then None else Some (locked D'))" by (simp add: lock_of_def)
  moreover have "locked D = locked D' + st_amount st"
  proof -
    have dist: "distinct (map owner (delegations D))" using core by (simp add: del_core_def strictly_sorted_distinct)
    have le: "st_amount st \<le> locked D" using bond_at [OF core pl0] by auto
    have "\<lparr>owner = c, bond_stake = st\<rparr> \<in> set (delegations D)"
      using pl stakes_of_Some [OF dist] by (simp add: pledges_def)
    then have "taken c (delegations D) = Some \<lparr>owner = c, bond_stake = st\<rparr>" using taken_Some [OF dist] by simp
    then have "stake_sub (total D) st = total D'"
      using rm(1) by (auto simp: rm_delegation_def total_sub_def adjust_bond_lock_def Let_def split: option.splits if_splits)
    then have "locked D - st_amount st = locked D'" using core rm(2) by (simp add: del_core_def stake_sub_def)
    then show ?thesis using le by linarith
  qed
  ultimately show thesis using that [OF run] by blast
qed

section \<open>Delegating\<close>

lemma books_new_bond:
  assumes op: "open_books cfg c m who (Some st) s" and pl: "pledges (Some D') = (pledges (delegator_state s who))(c := Some st)"
    and D': "del_core who D'" "delegations D' \<noteq> []"
    and au: "\<And>x. strictly_sorted acc_delegator (au x)"
  shows "books cfg ((candidate_info s)(c \<mapsto> m)) (top_delegations s) (bottom_delegations s) (candidate_pool s)
    ((delegator_state s)(who \<mapsto> D')) ((delegator_locks s)(who \<mapsto> locked D')) (scheduled_requests s) au (collator_locks s)"
proof -
  have "del_ok who (Some D') (Some (locked D'))" using D' by (simp add: del_ok_Some)
  then have "books cfg ((candidate_info s)(c \<mapsto> m)) (top_delegations s) (bottom_delegations s) (candidate_pool s)
    ((delegator_state s)(who \<mapsto> D')) ((delegator_locks s)(who \<mapsto> locked D')) (scheduled_requests s) (auto_compounding s) (collator_locks s)"
    using op pl unfolding open_books_def by blast
  then show ?thesis using au by (rule books_auto)
qed

lemma set_for_delegator_sorted:
  assumes "strictly_sorted acc_delegator cs"
  shows "strictly_sorted acc_delegator (fst (set_for_delegator who v cs))"
proof (cases "binary_search_by (\<lambda>d. cmp (acc_delegator d) who) cs")
  case (Inl i)
  then have "fst (set_for_delegator who v cs) = fst (set_insert acc_delegator \<lparr>acc_delegator = who, acc_value = v\<rparr> cs)"
    by (simp add: set_for_delegator_def set_insert_def insert_at_def)
  then show ?thesis using strictly_sorted_insert [OF assms] by simp
next
  case (Inr i)
  have "map acc_delegator (cs[i := (cs ! i)\<lparr>acc_value := v\<rparr>]) = map acc_delegator cs"
    by (cases "i < length cs") (simp_all add: map_update list_update_same_conv list_update_beyond)
  then have "strictly_sorted acc_delegator (cs[i := (cs ! i)\<lparr>acc_value := v\<rparr>])"
    using assms by (metis sorted_wrt_map)
  then show ?thesis using Inr assms by (simp add: set_for_delegator_def)
qed

text \<open>The delegator with one more bond, or a new one.\<close>

lemma delegator_added:
  assumes laws: "staking_laws cfg" and core: "del_core who D" and new: "pledges (Some D) c = None" and a: "0 < a" "locked D + a < 2 ^ 128"
  obtains D' where "delegator_add_delegation \<lparr>owner = c, bond_stake = Stake a a\<rparr> D = (D', True)"
    "del_core who D'" "delegations D' \<noteq> []" "pledges (Some D') = (pledges (Some D))(c \<mapsto> Stake a a)"
proof -
  let ?b = "\<lparr>owner = c, bond_stake = Stake a a\<rparr>"
  have sorted: "strictly_sorted owner (delegations D)" using core by (simp add: del_core_def)
  have no: "stakes_of (delegations D) c = None" using new by (simp add: pledges_def)
  let ?xs = "fst (set_insert owner ?b (delegations D))"
  let ?D = "D\<lparr>delegations := ?xs, total := Stake (locked D + a) (locked D + a)\<rparr>"
  have so: "strictly_sorted owner ?xs" by (rule strictly_sorted_insert [OF sorted])
  have n: "locked D + a + opt_amount (stakes_of (delegations D) c) = locked D + opt_amount (Some (Stake a a))"
    using no by simp
  note E = del_core_edge [OF core edge_insert(1) [OF sorted no, of "Stake a a"] so, where D' = ?D, OF _ _ _ _ _ n a(2)]
  have tot: "stake_add (total D) (Stake a a) = Stake (locked D + a) (locked D + a)"
    using core stake_add_exact [OF a(2)] by (simp add: del_core_def)
  have core': "del_core who ?D" and pl: "pledges (Some ?D) = (pledges (Some D))(c \<mapsto> Stake a a)"
    using E a(1) by (simp_all add: balanced_def)
  moreover have "delegator_add_delegation ?b D = (?D, True)"
    using edge_insert(2) [OF sorted no, of "Stake a a"]
    by (cases "set_insert owner ?b (delegations D)") (simp add: delegator_add_delegation_def tot)
  moreover have "delegations ?D \<noteq> []"
  proof
    assume "delegations ?D = []"
    then have "pledges (Some ?D) c = None" by (simp add: pledges_def stakes_of_def)
    then show False using pl by simp
  qed
  ultimately show thesis using that by blast
qed

lemma new_delegator_core:
  assumes "0 < a" and "a < 2 ^ 128"
  shows "del_core who (new_delegator who c (Stake a a))" "delegations (new_delegator who c (Stake a a)) \<noteq> []"
    "pledges (Some (new_delegator who c (Stake a a))) = [c \<mapsto> Stake a a]"
proof -
  have "set_from owner [\<lparr>owner = c, bond_stake = Stake a a\<rparr>] = [\<lparr>owner = c, bond_stake = Stake a a\<rparr>]"
    by (rule set_from_sorted) simp
  then show "del_core who (new_delegator who c (Stake a a))" "delegations (new_delegator who c (Stake a a)) \<noteq> []"
    "pledges (Some (new_delegator who c (Stake a a))) = [c \<mapsto> Stake a a]"
    using assms by (auto simp: new_delegator_def del_core_def locked_def balanced_def pledges_def stakes_of_def find_by_def fun_eq_iff)
qed

lemma delegate_write:
  assumes op: "open_books cfg c m1 who (Some st) s1" and ds: "delegator_state s1 who = delegator_state s who" and rs: "rest s1 = rest s"
    and D': "del_core who D'" "delegations D' \<noteq> []" "pledges (Some D') = (pledges (delegator_state s who))(c \<mapsto> st)"
    and a: "adjust_bond_lock cfg (Increase st) D' s1 = Inr s2" and au: "\<And>x. strictly_sorted acc_delegator (au x)"
  shows "keeps cfg s (deposit_staking_event e (put_delegator who (Some D') (put_candidate c (Some m1)
    (s2\<lparr>auto_compounding := au, total_locked := tot\<rparr>))))"
proof -
  have pl: "pledges (Some D') = (pledges (delegator_state s1 who))(c := Some st)" using D'(3) ds by simp
  have s2: "s2 = set_delegator_lock who (Some (locked D')) s1" by (rule adjust_lock_up [OF a D'(1,2)])
  show ?thesis
    using books_new_bond [OF op pl D'(1,2) au] rs unfolding s2 books_ok_def
    by (simp add: rest_def put_delegator_def put_candidate_def set_delegator_lock_def deposit_staking_event_def)
qed

lemma open_books_autos:
  assumes "open_books cfg c m1 who (Some st) s1" and "delegator_state s1 who = delegator_state s who"
    and "del_core who D'" "delegations D' \<noteq> []" "pledges (Some D') = (pledges (delegator_state s who))(c \<mapsto> st)"
  shows "strictly_sorted acc_delegator (auto_compounding s1 x)"
proof -
  have "del_ok who (Some D') (Some (locked D'))" using assms(3,4) by (simp add: del_ok_Some)
  then have "books cfg ((candidate_info s1)(c \<mapsto> m1)) (top_delegations s1) (bottom_delegations s1) (candidate_pool s1)
    ((delegator_state s1)(who \<mapsto> D')) ((delegator_locks s1)(who \<mapsto> locked D')) (scheduled_requests s1) (auto_compounding s1) (collator_locks s1)"
    using assms(1,2,5) unfolding open_books_def by simp
  then show ?thesis by (rule booksD(7))
qed

text \<open>The new state of the delegator that the checks let through.\<close>

lemma delegator_let_through:
  assumes laws: "staking_laws cfg" and B: "books_ok cfg s"
    and free: "get_delegator_stakable_free_balance cfg who s = Inr free" "Stake a a \<le> free"
    and D': "(case delegator_state s who of
         Some state \<Rightarrow>
           bind_r (ensure (st_amount (Stake a a) \<ge> MinDelegation cfg) (Module DelegationBelowMin)) (\<lambda>_.
           bind_r (ensure (h \<ge> length (delegations state) mod 2 ^ 32) (Module TooLowDelegationCountToDelegate)) (\<lambda>_.
           bind_r (ensure (length (delegations state) mod 2 ^ 32 < MaxDelegationsPerDelegator cfg)
                     (Module ExceedMaxDelegationsPerDelegator)) (\<lambda>_.
           case delegator_add_delegation \<lparr>owner = c, bond_stake = Stake a a\<rparr> state of (state', added) \<Rightarrow>
           bind_r (ensure added (Module AlreadyDelegatedCandidate)) (\<lambda>_. Inr state'))))
       | None \<Rightarrow>
           bind_r (ensure (st_amount (Stake a a) \<ge> MinDelegatorStk cfg) (Module DelegatorBondBelowMin)) (\<lambda>_.
           bind_r (ensure (\<not> is_candidate who s) (Module CandidateExists)) (\<lambda>_.
           Inr (new_delegator who c (Stake a a))))) = Inr D'"
  shows "del_core who D' \<and> delegations D' \<noteq> [] \<and> pledges (Some D') = (pledges (delegator_state s who))(c \<mapsto> Stake a a) \<and>
     pledges (delegator_state s who) c = None"
proof (cases "delegator_state s who")
  case None
  have "0 < a" "a < 2 ^ 128" and n: "D' = new_delegator who c (Stake a a)"
    using None D' free stakable_free_None [OF laws None] staking_lawsD(3,5) [OF laws]
    by (auto simp: result_simps unit_le intro: le_less_trans)
  then show ?thesis using new_delegator_core [of a who c] by (simp add: None pledges_def)
next
  case (Some D)
  have core: "del_core who D" using books_okD(2) [OF B, of who] Some by (simp add: del_ok_def)
  have a: "0 < a" using D' Some staking_lawsD(4) [OF laws] by (auto simp: result_simps)
  have "a \<le> free_balance cfg (staking_env s) who - locked D"
    using free(2) unfolding free(1) [symmetric, unfolded stakable_free [OF laws core Some] sum.inject] by (simp add: unit_le)
  then have l: "locked D + a < 2 ^ 128" using a staking_lawsD(3) [OF laws, of "staking_env s" who] by linarith
  have add: "delegator_add_delegation \<lparr>owner = c, bond_stake = Stake a a\<rparr> D = (D', True)"
    using D' Some by (auto simp: result_simps split: prod.splits)
  have new: "pledges (Some D) c = None"
  proof (rule ccontr)
    assume "pledges (Some D) c \<noteq> None"
    then have "c \<in> owner ` set (delegations D)" by (simp add: pledges_def stakes_of_None)
    then have "\<not> snd (set_insert owner \<lparr>owner = c, bond_stake = Stake a a\<rparr> (delegations D))"
      using core by (simp add: set_insert_sorted del_core_def)
    then show False using add by (auto simp: delegator_add_delegation_def split: prod.splits if_splits)
  qed
  obtain D2 where "delegator_add_delegation \<lparr>owner = c, bond_stake = Stake a a\<rparr> D = (D2, True)"
    "del_core who D2" "delegations D2 \<noteq> []" "pledges (Some D2) = (pledges (Some D))(c \<mapsto> Stake a a)"
    using delegator_added [OF laws core new a l] .
  then show ?thesis using add new Some by simp
qed

lemma delegate_ok:
  assumes laws: "staking_laws cfg" and B: "books_ok cfg s"
  shows "ok_p (keeps cfg s) (pallet_delegate_with_auto_compound cfg c who (Stake a a) auto h1 h2 h3 s)"
  unfolding pallet_delegate_with_auto_compound_def ok_p_bind_Some Let_def
proof (intro allI impI, goal_cases)
  case (1 free u D' m v auto_state)
  note L = staking_lawsD [OF laws] and BD = books_okD [OF B]
  have "Stake a a \<le> free" using 1(2) by (simp add: ensure_Inr)
  then have D: "del_core who D'" "delegations D' \<noteq> []" "pledges (Some D') = (pledges (delegator_state s who))(c \<mapsto> Stake a a)"
    and new: "pledges (delegator_state s who) c = None"
    using delegator_let_through [OF laws B 1(1) _ 1(3)] by blast+
  have m: "candidate_info s c = Some m" using 1(4) by (simp add: ok_or_Inr)
  have au: "auto_state = None \<or> auto_state = Some (auto_compounding s c)"
    using 1(6) by (auto simp: result_simps split: if_splits)
  let ?Q = "\<lambda>(p, decr, m1, s1). open_books cfg c m1 who (Some (Stake a a)) s1 \<and> delegator_state s1 who = delegator_state s who \<and> rest s1 = rest s"
  have Q: "ok_p ?Q (add_delegation cfg c \<lparr>owner = who, bond_stake = Stake a a\<rparr> m s)"
    using add_ok [OF L(1) B m new, of "Stake a a"] by auto
  show ?case
  proof (rule ok_p_bind [OF Q], goal_cases)
    case (1 x)
    then obtain p decr m1 s1 where x: "x = (p, decr, m1, s1)" and q: "open_books cfg c m1 who (Some (Stake a a)) s1"
      "delegator_state s1 who = delegator_state s who" "rest s1 = rest s" by (cases x) auto
    note so = open_books_autos [OF q(1,2) D]
    have fu: "strictly_sorted acc_delegator (((auto_compounding s1)(c := fst (set_for_delegator who auto (auto_compounding s c)))) y)" for y
      using so set_for_delegator_sorted [OF BD(4)] by simp
    show ?case
      unfolding x prod.case ok_p_bind_Some
    proof (intro allI impI)
      fix s2
      assume a2: "adjust_bond_lock cfg (Increase (Stake a a)) D' s1 = Inr s2"
      have au2: "auto_compounding s2 = auto_compounding s1" using adjust_lock_up [OF a2 D(1,2)] by simp
      have same: "s2\<lparr>total_locked := tot\<rparr> = s2\<lparr>auto_compounding := auto_compounding s1, total_locked := tot\<rparr>" for tot
        using au2 by simp
      show "ok_p (keeps cfg s) (Some (Inr (deposit_staking_event (Delegation who (Stake a a) c p auto)
        (put_delegator who (Some D') (put_candidate c (Some m1) ((case auto_state of None \<Rightarrow> s2 | Some cs \<Rightarrow>
            s2\<lparr>auto_compounding := (auto_compounding s2)(c := fst (set_for_delegator who auto cs))\<rparr>)\<lparr>total_locked :=
          stake_add (total_locked s2) (case decr of None \<Rightarrow> Stake a a | Some l \<Rightarrow> stake_sub (Stake a a) l)\<rparr>))))))"
        using au
      proof
        assume "auto_state = None"
        then show ?thesis using delegate_write [where au = "auto_compounding s1", OF q D a2 so] by (simp add: same)
      next
        assume "auto_state = Some (auto_compounding s c)"
        then show ?thesis using delegate_write [where au = "(auto_compounding s1)(c := fst (set_for_delegator who auto (auto_compounding s c)))", OF q D a2 fu] by (simp add: au2)
      qed
    qed
  qed
qed

section \<open>Scheduled requests\<close>

lemma reqs_ok_cong: "(\<And>d. pledges (ds' d) = pledges (ds d)) \<Longrightarrow> reqs_ok ds' c rs = reqs_ok ds c rs"
  by (simp add: reqs_ok_def)

lemma books_reqs:
  assumes B: "books cfg ci tp bt P ds lk rq au cl" and pl: "\<And>d. pledges (ds' d) = pledges (ds d)"
    and d: "\<And>d. del_ok d (ds' d) (lk d)" and rq: "\<And>c. reqs_ok ds c (rq' c)"
  shows "books cfg ci tp bt P ds' lk rq' au cl"
  using booksD [OF B] pl d rq reqs_ok_cong [OF pl] unfolding books_def by simp

text \<open>The state of a delegator after its requests change.\<close>

lemma books_delegator_requests:
  assumes B: "books_ok cfg s" and D: "delegator_state s who = Some D"
    and rq: "\<And>c. reqs_ok (delegator_state s) c (rq c)"
  shows "books cfg (candidate_info s) (top_delegations s) (bottom_delegations s) (candidate_pool s)
    ((delegator_state s)(who \<mapsto> D\<lparr>less_total := x\<rparr>)) (delegator_locks s) rq (auto_compounding s) (collator_locks s)"
proof (rule books_reqs [OF B [unfolded books_ok_def] _ _ rq])
  have "del_ok who (Some (D\<lparr>less_total := x\<rparr>)) (delegator_locks s who)"
    using books_okD(2) [OF B, of who] D by (simp add: del_ok_Some)
  then show "del_ok d (((delegator_state s)(who \<mapsto> D\<lparr>less_total := x\<rparr>)) d) (delegator_locks s d)" for d
    using books_okD(2) [OF B, of d] by simp
  show "pledges (((delegator_state s)(who \<mapsto> D\<lparr>less_total := x\<rparr>)) d) = pledges (delegator_state s d)" for d
    using D by simp
qed

lemma books_reqs_ok: "books_ok cfg s \<Longrightarrow> reqs_ok (delegator_state s) c (scheduled_requests s c)"
  unfolding books_ok_def by (rule booksD(6))

lemma get_bond_amount_pledges: "get_bond_amount c D = pledges (Some D) c"
  by (simp add: get_bond_amount_def pledges_def stakes_of_def find_by_def)

lemma reqs_ok_add:
  assumes "reqs_ok ds c rs" and "who \<notin> req_delegator ` set rs" and "pledges (ds who) c = Some st"
    and "balanced (action_amount act)" and "is_revoke act \<Longrightarrow> action_amount act = st"
  shows "reqs_ok ds c (rs @ [\<lparr>req_delegator = who, when_executable = w, req_action = act\<rparr>])"
  using assms by (auto simp: reqs_ok_def)

lemma reqs_ok_drop:
  assumes "reqs_ok ds c rs" and "set rs' \<subseteq> set rs" and "distinct (map req_delegator rs')"
  shows "reqs_ok ds c rs'"
  using assms by (auto simp: reqs_ok_def)

lemma keeps_requests:
  assumes B: "books_ok cfg s" and D: "delegator_state s who = Some D" and rs: "reqs_ok (delegator_state s) c rs"
  shows "keeps cfg s (deposit_staking_event e (put_delegator who (Some (D\<lparr>less_total := x\<rparr>)) (set_requests c rs s)))"
proof -
  have "reqs_ok (delegator_state s) c' (((scheduled_requests s)(c := rs)) c')" for c'
    using rs books_reqs_ok [OF B] by simp
  note N = books_delegator_requests [where rq = "(scheduled_requests s)(c := rs)", OF B D this]
  show ?thesis unfolding books_ok_def using N [of x] by simp
qed

lemma balanced_bond: "books_ok cfg s \<Longrightarrow> pledges (delegator_state s who) c = Some st \<Longrightarrow> balanced st"
  by (metis books_delegator bond_at balanced_def)

lemma schedule_revoke_ok:
  assumes B: "books_ok cfg s"
  shows "ok_r (keeps cfg s) (delegation_schedule_revoke cfg c who s)"
  unfolding delegation_schedule_revoke_def ok_r_bind Let_def
proof (intro allI impI, goal_cases)
  case (1 D u st)
  then have D: "delegator_state s who = Some D" and st: "pledges (delegator_state s who) c = Some st"
    and new: "who \<notin> req_delegator ` set (scheduled_requests s c)"
    by (auto simp: result_simps get_bond_amount_pledges list_ex_iff)
  show ?case
    unfolding ok_simps
    by (intro keeps_requests [OF B D] reqs_ok_add [OF books_reqs_ok [OF B] new st]) (simp_all add: balanced_bond [OF B st])
qed

lemma schedule_decrease_ok:
  assumes B: "books_ok cfg s" and bal: "balanced dec"
  shows "ok_r (keeps cfg s) (delegation_schedule_bond_decrease cfg c who dec s)"
  unfolding delegation_schedule_bond_decrease_def ok_r_bind Let_def
proof (intro allI impI, goal_cases)
  case (1 D u st)
  then have D: "delegator_state s who = Some D" and st: "pledges (delegator_state s who) c = Some st"
    and new: "who \<notin> req_delegator ` set (scheduled_requests s c)"
    by (auto simp: result_simps get_bond_amount_pledges list_ex_iff)
  show ?case
    unfolding ok_simps
    by (intro keeps_requests [OF B D] reqs_ok_add [OF books_reqs_ok [OF B] new st]) (simp_all add: bal is_revoke_def)
qed

text \<open>The requests of a delegator towards one candidate after a cancellation.\<close>

lemma cancel_request_cases:
  assumes B: "books_ok cfg s" and c: "cancel_request_with_state who D (scheduled_requests s c) = (req, D', rs)"
  shows "\<exists>x. D' = D\<lparr>less_total := x\<rparr>" "set rs \<subseteq> set (scheduled_requests s c)" "distinct (map req_delegator rs)"
    "who \<notin> req_delegator ` set rs" "\<And>r. req = Some r \<Longrightarrow> r \<in> set (scheduled_requests s c) \<and> req_delegator r = who"
proof -
  note d = books_okD(3) [OF B, of c]
  have "(\<exists>x. D' = D\<lparr>less_total := x\<rparr>) \<and> set rs \<subseteq> set (scheduled_requests s c) \<and> distinct (map req_delegator rs) \<and>
      who \<notin> req_delegator ` set rs"
  proof (cases "position (\<lambda>r. req_delegator r = who) (scheduled_requests s c)")
    case None
    then have "D' = D" "rs = scheduled_requests s c" using c by (simp_all add: cancel_request_with_state_def)
    then show ?thesis using d None by (auto simp: position_None intro!: exI [of _ "less_total D"])
  next
    case (Some i)
    then have "\<exists>x. D' = D\<lparr>less_total := x\<rparr>" "rs = remove_at i (scheduled_requests s c)"
      using c by (auto simp: cancel_request_with_state_def)
    then show ?thesis using remove_at_position [OF d Some] by simp
  qed
  then show "\<exists>x. D' = D\<lparr>less_total := x\<rparr>" "set rs \<subseteq> set (scheduled_requests s c)" "distinct (map req_delegator rs)"
    "who \<notin> req_delegator ` set rs" by blast+
  show "r \<in> set (scheduled_requests s c) \<and> req_delegator r = who" if "req = Some r" for r
    using c that position_Some by (fastforce simp: cancel_request_with_state_def split: option.splits)
qed

lemma cancel_request_ok:
  assumes B: "books_ok cfg s"
  shows "ok_r (keeps cfg s) (delegation_cancel_request c who s)"
  unfolding delegation_cancel_request_def ok_r_bind
proof (intro allI impI)
  fix D
  assume "ok_or (delegator_state s who) (Module DelegatorDNE) = Inr D"
  then have D: "delegator_state s who = Some D" by (simp add: result_simps)
  obtain req D' rs where c: "cancel_request_with_state who D (scheduled_requests s c) = (req, D', rs)" by (cases "cancel_request_with_state who D (scheduled_requests s c)")
  note C = cancel_request_cases [OF B c]
  obtain x where x: "D' = D\<lparr>less_total := x\<rparr>" using C(1) by blast
  note K = keeps_requests [OF B D reqs_ok_drop [OF books_reqs_ok [OF B] C(2,3)]]
  show "ok_r (keeps cfg s) (let (req, state', reqs') = cancel_request_with_state who D (scheduled_requests s c)
     in bind_r (ok_or req (Module PendingDelegationRequestDNE)) (\<lambda>request.
        Inr (deposit_staking_event (CancelledDelegationRequest who (cancelled_of request) c)
           (put_delegator who (Some state') (set_requests c reqs' s)))))"
    unfolding c Let_def prod.case ok_r_bind ok_simps x using K by blast
qed

text \<open>Executing a request that is due.\<close>

lemma execute_request_ok:
  assumes laws: "staking_laws cfg" and B: "books_ok cfg s"
  shows "ok_p (keeps cfg s) (delegation_execute_scheduled_request cfg c who s)"
  unfolding delegation_execute_scheduled_request_def Let_def ok_p_bind_Some
proof (intro allI impI, goal_cases)
  case (1 i u D)
  let ?rs = "scheduled_requests s c"
  have i: "position (\<lambda>r. req_delegator r = who) ?rs = Some i" and D: "delegator_state s who = Some D"
    using 1 by (simp_all add: result_simps)
  have mem: "?rs ! i \<in> set ?rs" "req_delegator (?rs ! i) = who" using position_Some [OF i] by auto
  obtain st where st: "balanced (action_amount (req_action (?rs ! i)))" "pledges (Some D) c = Some st"
    "is_revoke (req_action (?rs ! i)) \<Longrightarrow> action_amount (req_action (?rs ! i)) = st"
    using books_request [OF B mem(1)] mem(2) D by metis
  note drop = drop_request [OF B i]
  show ?case
  proof (rule ok_p_bind [where Q = "\<lambda>s1. keeps cfg s (set_requests c (remove_at i ?rs) s1)"])
    show "ok_p (keeps cfg s) (Some (Inr (set_requests c (remove_at i ?rs) s1)))"
      if "keeps cfg s (set_requests c (remove_at i ?rs) s1)" for s1
      using that by simp
    have frame: "books_ok cfg (set_requests c rs (deposit_staking_event e s1)) = books_ok cfg (set_requests c rs s1)" for rs e s1
      by (simp add: books_ok_def)
    show "ok_p (\<lambda>s1. keeps cfg s (set_requests c (remove_at i ?rs) s1))
     (case req_action (?rs ! i) of
        Revoke st \<Rightarrow> bind_p (revoke_delegator_stake cfg c who st D s) (\<lambda>(_, s1).
            Some (Inr (deposit_staking_event (DelegationRevoked who c st) s1)))
      | Decrease st \<Rightarrow> Option.bind (decrease_delegator_stake cfg c who st D s) (\<lambda>(r, _, s1).
            Some (bind_r r (\<lambda>in_top. Inr (deposit_staking_event (DelegationDecreased who c st in_top) s1)))))"
    proof (cases "req_action (?rs ! i)")
      case (Revoke st')
      then have eq: "st' = st" using st(3) by (simp add: is_revoke_def)
      show ?thesis
      proof (cases "length (delegations D) = 1 \<or> st_amount st \<le> st_amount (total D) - MinDelegatorStk cfg")
        case True
        obtain D' s' where "revoke_delegator_stake cfg c who st D s = Some (Inr (D', s'))"
          "keeps cfg s (set_requests c (remove_at i ?rs) s')"
          using revoke_ok [OF laws B D st(2) drop True] by metis
        then show ?thesis by (simp add: Revoke eq frame)
      next
        case False
        then have "revoke_delegator_stake cfg c who st D s = Some (Inl (Module DelegatorBondBelowMin))"
          by (simp add: revoke_delegator_stake_def)
        then show ?thesis by (simp add: Revoke eq)
      qed
    next
      case (Decrease dec)
      then have bal: "st_power dec = st_amount dec" using st(1) by (simp add: balanced_def)
      obtain r D' s' where "decrease_delegator_stake cfg c who dec D s = Some (r, D', s')"
        "\<forall>b. r = Inr b \<longrightarrow> keeps cfg s (set_requests c (remove_at i ?rs) s')"
        using decrease_ok [OF laws B D bal drop] by metis
      then show ?thesis by (simp add: Decrease frame)
    qed
  qed
qed

section \<open>Requests of all bonds\<close>

text \<open>Vectors of requests written one after the other.\<close>

fun written ::
  "(account_id \<times> scheduled_request list) list \<Rightarrow> (account_id \<Rightarrow> scheduled_request list) \<Rightarrow> account_id \<Rightarrow> scheduled_request list" where
  "written [] f = f"
| "written ((c, rs) # updated) f = written updated (f(c := rs))"

lemma put_requests_written: "put_requests updated s = s\<lparr>scheduled_requests := written updated (scheduled_requests s)\<rparr>"
  by (induction updated "scheduled_requests s" arbitrary: s rule: written.induct)
    (simp_all add: put_requests_def set_requests_def)

lemma written_ok:
  assumes "\<And>c rs. (c, rs) \<in> set updated \<Longrightarrow> reqs_ok ds c rs" and "\<And>c. reqs_ok ds c (rq c)"
  shows "reqs_ok ds c (written updated rq c)"
  using assms
proof (induction updated rq rule: written.induct)
  case (2 c' rs updated f)
  show ?case unfolding written.simps by (rule "2.IH") (use "2.prems" in auto)
qed simp

lemma keeps_all_requests:
  assumes B: "books_ok cfg s" and D: "delegator_state s who = Some D"
    and u: "\<And>c rs. (c, rs) \<in> set updated \<Longrightarrow> reqs_ok (delegator_state s) c rs"
  shows "keeps cfg s (deposit_staking_event e (put_delegator who (Some (D\<lparr>less_total := x\<rparr>)) (put_requests updated s)))"
proof -
  have "reqs_ok (delegator_state s) c (written updated (scheduled_requests s) c)" for c
    by (rule written_ok [OF u books_reqs_ok [OF B]])
  note N = books_delegator_requests [where rq = "written updated (scheduled_requests s)", OF B D this]
  show ?thesis unfolding books_ok_def put_requests_written using N [of x] by simp
qed

lemma revoke_all_fold:
  assumes B: "books_ok cfg s" and D: "delegator_state s who = Some D" and bs: "set bs \<subseteq> set (delegations D)"
    and D1: "D1 = D\<lparr>less_total := x\<rparr>" and ok: "\<And>c rs. (c, rs) \<in> set upd \<Longrightarrow> reqs_ok (delegator_state s) c rs"
    and f: "fold (revoke_all_step who w s) bs (D1, upd, n) = (D', updated, n')"
  shows "(\<exists>x. D' = D\<lparr>less_total := x\<rparr>) \<and> (\<forall>(c, rs)\<in>set updated. reqs_ok (delegator_state s) c rs)"
  using bs D1 ok f
proof (induction bs arbitrary: D1 x upd n)
  case Nil
  then show ?case by auto
next
  case (Cons b bs)
  let ?c = "owner b"
  have core: "del_core who D" using books_okD(2) [OF B, of who] D by (simp add: del_ok_def)
  have "distinct (map owner (delegations D))" using core by (simp add: del_core_def strictly_sorted_distinct)
  then have "stakes_of (delegations D) ?c = Some (bond_stake b)"
    using Cons.prems(1) bond_in [of b "delegations D" ?c] by (simp add: stakes_of_Some)
  then have pl: "pledges (delegator_state s who) ?c = Some (bond_stake b)" using D by (simp add: pledges_def)
  obtain req D2 rs where c: "cancel_request_with_state who D1 (scheduled_requests s ?c) = (req, D2, rs)"
    by (cases "cancel_request_with_state who D1 (scheduled_requests s ?c)")
  note C = cancel_request_cases [OF B c]
  define keep where "keep = (case req of Some r \<Rightarrow> is_revoke (req_action r) | None \<Rightarrow> False)"
  define new where "new = (if keep then the req else \<lparr>req_delegator = who, when_executable = w, req_action = Revoke (bond_stake b)\<rparr>)"
  have nw: "req_delegator new = who" "balanced (action_amount (req_action new))" "action_amount (req_action new) = bond_stake b"
  proof -
    have "req_delegator new = who \<and> balanced (action_amount (req_action new)) \<and> action_amount (req_action new) = bond_stake b"
    proof (cases keep)
      case True
      then obtain r where r: "req = Some r" "is_revoke (req_action r)" by (auto simp: keep_def split: option.splits)
      obtain st where "balanced (action_amount (req_action r))" "pledges (delegator_state s (req_delegator r)) ?c = Some st"
        "action_amount (req_action r) = st"
        using books_request [OF B] C(5) [OF r(1)] r(2) by metis
      then show ?thesis using C(5) [OF r(1)] pl True r(1) by (simp add: new_def)
    next
      case False
      then show ?thesis using balanced_bond [OF B pl] by (simp add: new_def)
    qed
    then show "req_delegator new = who" "balanced (action_amount (req_action new))" "action_amount (req_action new) = bond_stake b"
      by blast+
  qed
  have "reqs_ok (delegator_state s) ?c (rs @ [\<lparr>req_delegator = who, when_executable = when_executable new, req_action = req_action new\<rparr>])"
    by (rule reqs_ok_add [OF reqs_ok_drop [OF books_reqs_ok [OF B] C(2,3)] C(4) pl nw(2)]) (rule nw(3))
  moreover have "\<lparr>req_delegator = who, when_executable = when_executable new, req_action = req_action new\<rparr> = new" using nw(1) by simp
  ultimately have rok: "reqs_ok (delegator_state s) ?c (rs @ [new])" by simp
  obtain y where y: "D2 = D1\<lparr>less_total := y\<rparr>" using C(1) by blast
  have step: "revoke_all_step who w s b (D1, upd, n) =
      (D2\<lparr>less_total := stake_add (less_total D2) (bond_stake b)\<rparr>, upd @ [(?c, rs @ [new])], if keep then n + 1 else n)"
    by (simp add: revoke_all_step_def c Let_def keep_def new_def)
  show ?case
  proof (rule Cons.IH)
    show "set bs \<subseteq> set (delegations D)" using Cons.prems(1) by simp
    show "D2\<lparr>less_total := stake_add (less_total D2) (bond_stake b)\<rparr> = D\<lparr>less_total := stake_add y (bond_stake b)\<rparr>"
      using y Cons.prems(2) by simp
    show "reqs_ok (delegator_state s) c rs'" if "(c, rs') \<in> set (upd @ [(?c, rs @ [new])])" for c rs'
      using that Cons.prems(3) rok by auto
    show "fold (revoke_all_step who w s) bs (D2\<lparr>less_total := stake_add (less_total D2) (bond_stake b)\<rparr>,
      upd @ [(?c, rs @ [new])], if keep then n + 1 else n) = (D', updated, n')"
      using Cons.prems(4) by (simp add: step)
  qed
qed

lemma schedule_revoke_all_ok:
  assumes B: "books_ok cfg s"
  shows "ok_r (keeps cfg s) (delegator_schedule_revoke_all cfg who s)"
  unfolding delegator_schedule_revoke_all_def ok_r_bind
proof (intro allI impI)
  fix D
  assume "ok_or (delegator_state s who) (Module DelegatorDNE) = Inr D"
  then have D: "delegator_state s who = Some D" by (simp add: result_simps)
  then have act: "delegator_status D = DelegatorActive" using books_okD(2) [OF B, of who] by (simp add: del_ok_def del_core_def)
  let ?w = "saturating_add 64 (current (round_state s)) (LeaveDelegatorsDelay cfg)"
  obtain D' updated n where f: "fold (revoke_all_step who ?w s) (delegations D) (D, [], 0) = (D', updated, n)"
    by (cases "fold (revoke_all_step who ?w s) (delegations D) (D, [], 0)")
  have D0: "D = D\<lparr>less_total := less_total D\<rparr>" by simp
  obtain x where x: "D' = D\<lparr>less_total := x\<rparr>" and u: "\<And>c rs. (c, rs) \<in> set updated \<Longrightarrow> reqs_ok (delegator_state s) c rs"
    using revoke_all_fold [OF B D subset_refl D0 _ f] by auto
  show "ok_r (keeps cfg s) (let now = current (round_state s); when = saturating_add 64 now (LeaveDelegatorsDelay cfg);
      state = case delegator_status D of DelegatorActive \<Rightarrow> D | DelegatorLeaving x \<Rightarrow> D\<lparr>delegator_status := DelegatorActive\<rparr>;
      (state', updated, existing_revoke_count) = fold (revoke_all_step who when s) (delegations state) (state, [], 0)
    in bind_r (ensure (existing_revoke_count \<noteq> length (delegations state')) (Module DelegatorAlreadyLeaving)) (\<lambda>_.
       Inr (deposit_staking_event (DelegatorExitScheduled now who when) (put_delegator who (Some state') (put_requests updated s)))))"
    using keeps_all_requests [OF B D u] unfolding Let_def act delegator_status.case f prod.case ok_r_bind ok_simps x by blast
qed

lemma cancel_all_fold:
  assumes B: "books_ok cfg s" and D: "delegator_state s who = Some D"
    and D1: "D1 = D\<lparr>less_total := x\<rparr>" and ok: "\<And>c rs. (c, rs) \<in> set upd \<Longrightarrow> reqs_ok (delegator_state s) c rs"
    and f: "fold (cancel_all_step who s) bs (D1, upd) = (D', updated)"
  shows "(\<exists>x. D' = D\<lparr>less_total := x\<rparr>) \<and> (\<forall>(c, rs)\<in>set updated. reqs_ok (delegator_state s) c rs)"
  using D1 ok f
proof (induction bs arbitrary: D1 x upd)
  case Nil
  then show ?case by auto
next
  case (Cons b bs)
  obtain req D2 rs where c: "cancel_request_with_state who D1 (scheduled_requests s (owner b)) = (req, D2, rs)"
    by (cases "cancel_request_with_state who D1 (scheduled_requests s (owner b))")
  note C = cancel_request_cases [OF B c]
  obtain y where y: "D2 = D1\<lparr>less_total := y\<rparr>" using C(1) by blast
  have "reqs_ok (delegator_state s) (owner b) rs" by (rule reqs_ok_drop [OF books_reqs_ok [OF B] C(2,3)])
  then show ?case
    by (intro Cons.IH [of D2 y "upd @ [(owner b, rs)]"]) (use Cons.prems y c in \<open>auto simp: cancel_all_step_def\<close>)
qed

lemma cancel_revoke_all_ok:
  assumes B: "books_ok cfg s"
  shows "ok_r (keeps cfg s) (delegator_cancel_scheduled_revoke_all who s)"
  unfolding delegator_cancel_scheduled_revoke_all_def ok_r_bind
proof (intro allI impI)
  fix D
  assume "ok_or (delegator_state s who) (Module DelegatorDNE) = Inr D"
  then have D: "delegator_state s who = Some D" by (simp add: result_simps)
  then have act: "delegator_status D = DelegatorActive" using books_okD(2) [OF B, of who] by (simp add: del_ok_def del_core_def)
  obtain D' updated where f: "fold (cancel_all_step who s) (delegations D) (D, []) = (D', updated)"
    by (cases "fold (cancel_all_step who s) (delegations D) (D, [])")
  have D0: "D = D\<lparr>less_total := less_total D\<rparr>" by simp
  obtain x where x: "D' = D\<lparr>less_total := x\<rparr>" and u: "\<And>c rs. (c, rs) \<in> set updated \<Longrightarrow> reqs_ok (delegator_state s) c rs"
    using cancel_all_fold [OF B D D0 _ f] by auto
  show "ok_r (keeps cfg s) (case delegator_status D of
       DelegatorActive \<Rightarrow>
         bind_r (ensure (\<forall>b\<in>set (delegations D). delegation_request_revoke_exists (owner b) who s) (Module DelegatorNotLeaving)) (\<lambda>_.
         let (state', updated) = fold (cancel_all_step who s) (delegations D) (D, []) in
         Inr (deposit_staking_event (DelegatorExitCancelled who) (put_delegator who (Some state') (put_requests updated s))))
     | DelegatorLeaving x \<Rightarrow>
         Inr (deposit_staking_event (DelegatorExitCancelled who) (put_delegator who (Some (D\<lparr>delegator_status := DelegatorActive\<rparr>)) s)))"
    using keeps_all_requests [OF B D u] unfolding Let_def act delegator_status.case f prod.case ok_r_bind ok_simps x by blast
qed

section \<open>Leaving the set of delegators\<close>

text \<open>The delegator with the bonds that are still to be left.\<close>

definition with_bonds :: "bond list \<Rightarrow> delegator \<Rightarrow> delegator" where
  "with_bonds bs D = D\<lparr>delegations := bs, total := Stake (amounts bs) (amounts bs)\<rparr>"

lemma with_bonds_core:
  assumes "del_core who D" and "strictly_sorted owner bs" and "set bs \<subseteq> set (delegations D)" and "amounts bs \<le> locked D"
  shows "del_core who (with_bonds bs D)"
  using assms by (auto simp: del_core_def with_bonds_def locked_def)

lemma with_bonds_all: "del_core who D \<Longrightarrow> with_bonds (delegations D) D = D"
  by (simp add: with_bonds_def del_core_def locked_def)

lemma with_bonds_tail:
  "strictly_sorted owner (b # bs) \<Longrightarrow>
   pledges (Some (with_bonds bs D)) = (pledges (Some (with_bonds (b # bs) D)))(owner b := None)"
  by (auto simp: pledges_def with_bonds_def stakes_of_def find_by_def fun_eq_iff find_None_iff)

lemma with_bonds_head: "pledges (Some (with_bonds (b # bs) D)) (owner b) = Some (bond_stake b)"
  by (simp add: pledges_def with_bonds_def stakes_of_def find_by_def)

text \<open>
  While the bonds are left one after the other, the candidates' sides are ahead of the delegator's
  state and requests, which are written at the end: the books are those of the state in which the
  delegator has the remaining bonds.
\<close>

definition ahead :: "('env, 'fx) staking_config \<Rightarrow> account_id \<Rightarrow> delegator option \<Rightarrow> balance option \<Rightarrow>
    (account_id \<Rightarrow> scheduled_request list) \<Rightarrow> 'env staking \<Rightarrow> bool" where
  "ahead cfg who Do l rq s \<longleftrightarrow>
     books_ok cfg (s\<lparr>delegator_state := (delegator_state s)(who := Do), delegator_locks := (delegator_locks s)(who := l),
                    scheduled_requests := rq\<rparr>)"

lemma leave_all_ok:
  assumes laws: "staking_laws cfg" and core: "del_core who D"
  shows "strictly_sorted owner (map fst vs) \<Longrightarrow> set (map fst vs) \<subseteq> set (delegations D) \<Longrightarrow> amounts (map fst vs) \<le> locked D \<Longrightarrow>
    ahead cfg who (entry_of (with_bonds (map fst vs) D)) (lock_of (with_bonds (map fst vs) D)) rq s \<Longrightarrow>
    (\<And>b rs i. (b, rs, i) \<in> set vs \<Longrightarrow> rs = rq (owner b) \<and> i < length rs \<and> req_delegator (rs ! i) = who) \<Longrightarrow>
    \<exists>updated s'. leave_all cfg who vs s = Some (updated, s') \<and> ahead cfg who None None (written updated rq) s' \<and>
      delegator_state s' = delegator_state s \<and> delegator_locks s' = delegator_locks s \<and>
      scheduled_requests s' = scheduled_requests s \<and> rest s' = rest s"
proof (induction vs arbitrary: rq s)
  case Nil
  then show ?case by (simp add: with_bonds_def entry_of_def lock_of_def)
next
  case (Cons v vs)
  obtain b rs i where v: "v = (b, rs, i)" by (cases v)
  let ?c = "owner b" and ?bs = "map fst vs"
  let ?D = "with_bonds (b # ?bs) D" and ?D' = "with_bonds ?bs D"
  let ?g = "s\<lparr>delegator_state := (delegator_state s)(who := entry_of ?D), delegator_locks := (delegator_locks s)(who := lock_of ?D),
     scheduled_requests := rq\<rparr>"
  have B: "books_ok cfg ?g" using Cons.prems(4) by (simp add: ahead_def v)
  have rs: "rs = rq ?c" "i < length rs" "req_delegator (rs ! i) = who" using Cons.prems(5) by (auto simp: v)
  have ent: "entry_of ?D = Some ?D" by (simp add: entry_of_def with_bonds_def)
  have pl: "pledges (delegator_state ?g who) ?c = Some (bond_stake b)" by (simp add: ent with_bonds_head)
  have so: "strictly_sorted owner ?bs" "set ?bs \<subseteq> set (delegations D)" "amounts ?bs \<le> locked D"
    using Cons.prems(1-3) by (auto simp: v)
  have core': "del_core who ?D'" by (rule with_bonds_core [OF core so])
  have Dn: "pledges (entry_of ?D') = (pledges (delegator_state ?g who))(?c := None)"
    using with_bonds_tail [of b ?bs D] Cons.prems(1) by (simp add: ent v)
  have dist: "distinct (map req_delegator (scheduled_requests ?g ?c))" by (rule books_okD(3) [OF B])
  have drop: "set (remove_at i rs) \<subseteq> set (scheduled_requests ?g ?c)" "distinct (map req_delegator (remove_at i rs))"
    "who \<notin> req_delegator ` set (remove_at i rs)"
    using remove_at_index [of req_delegator rs i who] dist rs by auto
  have eqs: "top_delegations s = top_delegations ?g" "bottom_delegations s = bottom_delegations ?g"
    "candidate_pool s = candidate_pool ?g" "candidate_info s = candidate_info ?g" by simp_all
  let ?as = "filter (\<lambda>x. acc_delegator x \<noteq> who) (auto_compounding s ?c)"
  obtain m tp bt P tot e where g: "delegator_leaves_candidate cfg ?c who (bond_stake b) s =
       Some (Inr (deposit_staking_event e (s\<lparr>top_delegations := tp, bottom_delegations := bt, candidate_pool := P,
         total_locked := tot, candidate_info := (candidate_info ?g)(?c \<mapsto> m)\<rparr>)))"
    "books cfg ((candidate_info ?g)(?c \<mapsto> m)) tp bt P ((delegator_state ?g)(who := entry_of ?D')) ((delegator_locks ?g)(who := lock_of ?D'))
       ((scheduled_requests ?g)(?c := remove_at i rs)) ((auto_compounding ?g)(?c := filter (\<lambda>x. acc_delegator x \<noteq> who) (auto_compounding ?g ?c)))
       (collator_locks ?g)"
    using leave_candidate_ok [OF laws B pl eqs drop Dn entry_ok [OF core']] .
  have r: "delegator_leaves_candidate cfg ?c who (bond_stake b) s =
       Some (Inr (deposit_staking_event e (s\<lparr>top_delegations := tp, bottom_delegations := bt, candidate_pool := P,
         total_locked := tot, candidate_info := (candidate_info s)(?c \<mapsto> m)\<rparr>)))"
    "books cfg ((candidate_info s)(?c \<mapsto> m)) tp bt P ((delegator_state s)(who := entry_of ?D')) ((delegator_locks s)(who := lock_of ?D'))
       (rq(?c := remove_at i rs)) ((auto_compounding s)(?c := ?as)) (collator_locks s)"
    using g by simp_all
  let ?s1 = "deposit_staking_event e (s\<lparr>top_delegations := tp, bottom_delegations := bt, candidate_pool := P,
         total_locked := tot, candidate_info := (candidate_info s)(?c \<mapsto> m)\<rparr>)"
  let ?s2 = "?s1\<lparr>auto_compounding := (auto_compounding s)(?c := ?as)\<rparr>"
  have "strictly_sorted acc_delegator (auto_compounding ?s1 ?c)" using books_okD(4) [OF B, of ?c] by simp
  then have au: "remove_auto_compound ?c who ?s1 = ?s2" by (simp add: remove_auto_eq)
  have ah: "ahead cfg who (entry_of ?D') (lock_of ?D') (rq(?c := remove_at i rs)) ?s2"
    unfolding ahead_def books_ok_def using r(2) by simp
  have prem: "rs' = (rq(?c := remove_at i rs)) (owner b') \<and> i' < length rs' \<and> req_delegator (rs' ! i') = who"
    if "(b', rs', i') \<in> set vs" for b' rs' i'
  proof -
    have "?c < owner b'" using Cons.prems(1) that by (force simp: v)
    then show ?thesis using Cons.prems(5) [of b' rs' i'] that by auto
  qed
  obtain updated s' where ih: "leave_all cfg who vs ?s2 = Some (updated, s')" "ahead cfg who None None (written updated (rq(?c := remove_at i rs))) s'"
    "delegator_state s' = delegator_state ?s2" "delegator_locks s' = delegator_locks ?s2"
    "scheduled_requests s' = scheduled_requests ?s2" "rest s' = rest ?s2"
    using Cons.IH [OF so ah prem] by blast
  have "rest ?s2 = rest s" by (simp add: rest_def deposit_staking_event_def)
  moreover have "leave_all cfg who (v # vs) s = Some ((?c, remove_at i rs) # updated, s')"
    using ih(1) by (simp add: v leave_or_log_def r(1) au)
  ultimately show ?case using ih(2-6) by simp
qed

lemma collect_r_validated:
  "collect_r (validate_revoke who s) bs = Inr vs \<Longrightarrow>
   map fst vs = bs \<and> (\<forall>(b, rs, i)\<in>set vs. rs = scheduled_requests s (owner b) \<and> i < length rs \<and> req_delegator (rs ! i) = who)"
proof (induction bs arbitrary: vs)
  case (Cons b bs)
  then obtain v vs' where v: "validate_revoke who s b = Inr v" "collect_r (validate_revoke who s) bs = Inr vs'" "vs = v # vs'"
    by (auto simp: result_simps)
  obtain i where "v = (b, scheduled_requests s (owner b), i)"
    "position (\<lambda>r. req_delegator r = who \<and> is_revoke (req_action r)) (scheduled_requests s (owner b)) = Some i"
    using v(1) by (auto simp: validate_revoke_def Let_def result_simps)
  then show ?case using Cons.IH [OF v(2)] v(3) position_Some by fastforce
qed simp

lemma execute_revoke_all_ok:
  assumes laws: "staking_laws cfg" and B: "books_ok cfg s"
  shows "ok_p (keeps cfg s) (delegator_execute_scheduled_revoke_all cfg who cnt s)"
  unfolding delegator_execute_scheduled_revoke_all_def ok_p_bind_Some
proof (intro allI impI, goal_cases)
  case (1 D u)
  then have D: "delegator_state s who = Some D" by (simp add: result_simps)
  then have core: "del_core who D" and lk: "delegator_locks s who = Some (locked D)" and ne: "delegations D \<noteq> []"
    and act: "delegator_status D = DelegatorActive"
    using books_okD(2) [OF B, of who] by (auto simp: del_ok_def del_core_def)
  show ?case
    unfolding act delegator_status.case ok_p_bind_Some
  proof (intro allI impI)
    fix vs
    assume "collect_r (validate_revoke who s) (delegations D) = Inr vs"
    then have vs: "map fst vs = delegations D"
      "\<And>b rs i. (b, rs, i) \<in> set vs \<Longrightarrow> rs = scheduled_requests s (owner b) \<and> i < length rs \<and> req_delegator (rs ! i) = who"
      using collect_r_validated by fastforce+
    have so: "strictly_sorted owner (map fst vs)" "set (map fst vs) \<subseteq> set (delegations D)" "amounts (map fst vs) \<le> locked D"
      using core by (simp_all add: vs(1) del_core_def locked_def)
    have "s\<lparr>delegator_state := (delegator_state s)(who := entry_of D), delegator_locks := (delegator_locks s)(who := lock_of D),
        scheduled_requests := scheduled_requests s\<rparr> = s"
      using D lk ne by (simp add: entry_of_def lock_of_def fun_upd_idem)
    then have ah: "ahead cfg who (entry_of (with_bonds (map fst vs) D)) (lock_of (with_bonds (map fst vs) D)) (scheduled_requests s) s"
      using B by (simp add: ahead_def vs(1) with_bonds_all [OF core])
    obtain updated s' where l: "leave_all cfg who vs s = Some (updated, s')" "ahead cfg who None None (written updated (scheduled_requests s)) s'"
      "delegator_state s' = delegator_state s" "delegator_locks s' = delegator_locks s" "scheduled_requests s' = scheduled_requests s" "rest s' = rest s"
      using leave_all_ok [OF laws core so ah vs(2)] by blast
    have "stake_is_zero (stake_sub (total D) (total D))" by (simp add: stake_is_zero_def stake_sub_def)
    then have ts: "total_sub cfg (total D) D s' = Inr (D\<lparr>total := stake_sub (total D) (total D)\<rparr>, set_delegator_lock who None s')"
      using core by (simp add: total_sub_def adjust_bond_lock_def del_core_def)
    have "keeps cfg s (put_delegator who None (deposit_staking_event e (put_requests updated (set_delegator_lock who None s'))))" for e
      using l(2,6) unfolding ahead_def books_ok_def put_requests_written
      by (simp add: l(3-5) rest_def put_delegator_def deposit_staking_event_def set_delegator_lock_def)
    then show "ok_p (keeps cfg s) (Option.bind (leave_all cfg who vs s) (\<lambda>(updated, s1).
         bind_p (Some (total_sub cfg (total D) D s1)) (\<lambda>(_, s2).
         Some (Inr (put_delegator who None (deposit_staking_event (DelegatorLeft who (total D)) (put_requests updated s2)))))))"
      by (simp add: l(1) ts)
  qed
qed

section \<open>Candidates\<close>

text \<open>The fields of the metadata that summarise the delegations.\<close>

definition same_dels :: "candidate_metadata \<Rightarrow> candidate_metadata \<Rightarrow> bool" where
  "same_dels m m' \<longleftrightarrow>
     lowest_top_delegation m' = lowest_top_delegation m \<and> top_capacity m' = top_capacity m \<and>
     lowest_bottom_delegation m' = lowest_bottom_delegation m \<and> highest_bottom_delegation m' = highest_bottom_delegation m \<and>
     bottom_capacity m' = bottom_capacity m \<and> delegation_count m' = delegation_count m"

lemma books_self:
  assumes B: "books_ok cfg s" and m: "candidate_info s c = Some m" and d: "same_dels m m'"
    and P: "strictly_sorted owner P" "find_by owner P = (find_by owner (candidate_pool s))(c := pool_entry c (Some m'))"
  shows "books cfg ((candidate_info s)(c \<mapsto> m')) (top_delegations s) (bottom_delegations s) P (delegator_state s) (delegator_locks s)
    (scheduled_requests s) (auto_compounding s) ((collator_locks s)(c \<mapsto> st_amount (self_stake m')))"
proof -
  note D = booksD [OF B [unfolded books_ok_def]]
  have "cand_ok cfg (((candidate_info s)(c \<mapsto> m')) x) (top_delegations s x) (bottom_delegations s x)" for x
    using D(1) [of x] m d by (auto simp: cand_ok_def meta_ok_def same_dels_def split: option.splits)
  moreover have "find_by owner P x = pool_entry x (((candidate_info s)(c \<mapsto> m')) x)" for x
    using D(3) [of x] P(2) by simp
  moreover have "((collator_locks s)(c \<mapsto> st_amount (self_stake m'))) x = map_option (\<lambda>m. st_amount (self_stake m)) (((candidate_info s)(c \<mapsto> m')) x)" for x
    using D(8) [of x] by simp
  ultimately show ?thesis unfolding books_def using D P(1) by simp
qed

lemma books_self_lock:
  assumes B: "books_ok cfg s" and m: "candidate_info s c = Some m" and "self_stake m' = self_stake m"
  shows "(collator_locks s)(c \<mapsto> st_amount (self_stake m')) = collator_locks s"
  using books_okD(6) [OF B, of c] m assms(3) by (simp add: fun_upd_idem)

lemma pool_find:
  assumes B: "books_ok cfg s" and m: "candidate_info s c = Some m"
  shows "find_by owner (candidate_pool s) c = pool_entry c (Some m)" "c \<in> owner ` set (candidate_pool s) \<longleftrightarrow> is_active m"
proof -
  show f: "find_by owner (candidate_pool s) c = pool_entry c (Some m)" using books_okD(5) [OF B, of c] m by simp
  show "c \<in> owner ` set (candidate_pool s) \<longleftrightarrow> is_active m"
    using f find_by_None [of owner "candidate_pool s" c] by (auto simp: pool_entry_def split: if_splits)
qed

lemma keeps_status:
  assumes B: "books_ok cfg s" and m: "candidate_info s c = Some m" and d: "same_dels m m'" "self_stake m' = self_stake m"
    and P: "strictly_sorted owner P" "find_by owner P = (find_by owner (candidate_pool s))(c := pool_entry c (Some m'))"
  shows "keeps cfg s (deposit_staking_event e (put_candidate c (Some m') (s\<lparr>candidate_pool := P\<rparr>)))"
  using books_self [OF B m d(1) P] unfolding books_ok_def books_self_lock [OF B m d(2)] by simp

text \<open>A candidate leaves the pool, or comes back.\<close>

lemma pool_out:
  assumes B: "books_ok cfg s" and m: "candidate_info s c = Some m" and d: "same_dels m m'" "self_stake m' = self_stake m"
    and off: "\<not> is_active m'"
    and P: "set_remove owner c (candidate_pool s) = (P, removed)"
  shows "keeps cfg s (deposit_staking_event e (put_candidate c (Some m') (if removed then s\<lparr>candidate_pool := P\<rparr> else s)))"
proof -
  note so = books_okD(1) [OF B]
  have v: "strictly_sorted owner P" "find_by owner P = (find_by owner (candidate_pool s))(c := None)"
    using ordered_set.valid_del [where key = owner, OF so, of c] ordered_set.find_del [where key = owner, OF so, of c] P by simp_all
  have r: "removed \<longleftrightarrow> is_active m" "\<not> removed \<Longrightarrow> P = candidate_pool s"
    using P pool_find(2) [OF B m] by (auto simp: set_remove_sorted [OF so] filter_id_conv)
  have pe: "pool_entry c (Some m') = None" using off by (simp add: pool_entry_def)
  have "s\<lparr>candidate_pool := P\<rparr> = (if removed then s\<lparr>candidate_pool := P\<rparr> else s)" using r(2) by simp
  then show ?thesis using keeps_status [OF B m d v(1)] v(2) pe by metis
qed

lemma pool_in:
  assumes B: "books_ok cfg s" and m: "candidate_info s c = Some m" and d: "same_dels m m'" "self_stake m' = self_stake m"
    and off: "\<not> is_active m" and on: "is_active m'"
    and P: "set_insert owner \<lparr>owner = c, bond_stake = total_stake_counted m'\<rparr> (candidate_pool s) = (P, inserted)"
  shows "keeps cfg s (deposit_staking_event e (put_candidate c (Some m') (s\<lparr>candidate_pool := P\<rparr>)))"
proof -
  note so = books_okD(1) [OF B]
  have n: "find_by owner (candidate_pool s) c = None" using pool_find(1) [OF B m] off by (simp add: pool_entry_def)
  let ?b = "\<lparr>owner = c, bond_stake = total_stake_counted m'\<rparr>"
  have "strictly_sorted owner P" "find_by owner P = (find_by owner (candidate_pool s))(c := Some ?b)"
    using ordered_set.valid_put [where key = owner, OF so, of ?b] ordered_set.find_put [where key = owner, OF so, of ?b] n P by simp_all
  then show ?thesis using keeps_status [OF B m d] on by (simp add: pool_entry_def)
qed

lemma go_offline_ok:
  assumes B: "books_ok cfg s"
  shows "ok_r (keeps cfg s) (go_offline o' s)"
  unfolding go_offline_def ok_r_bind Let_def
proof (intro allI impI, goal_cases)
  case (1 c m u)
  then have m: "candidate_info s c = Some m" by (simp add: result_simps)
  obtain P r where P: "set_remove owner c (candidate_pool s) = (P, r)" by (cases "set_remove owner c (candidate_pool s)")
  show ?case
    unfolding P prod.case ok_simps
    by (rule pool_out [OF B m _ _ _ P]) (simp_all add: same_dels_def cand_go_offline_def is_active_def)
qed

lemma go_online_ok:
  assumes B: "books_ok cfg s"
  shows "ok_r (keeps cfg s) (go_online o' s)"
  unfolding go_online_def ok_r_bind Let_def
proof (intro allI impI, goal_cases)
  case (1 c m u v)
  then have m: "candidate_info s c = Some m" and off: "\<not> is_active m" by (simp_all add: result_simps)
  let ?b = "\<lparr>owner = c, bond_stake = total_stake_counted (cand_go_online m)\<rparr>"
  obtain P r where P: "set_insert owner ?b (candidate_pool s) = (P, r)" by (cases "set_insert owner ?b (candidate_pool s)")
  have K: "keeps cfg s (deposit_staking_event (CandidateBackOnline c) (put_candidate c (Some (cand_go_online m)) (s\<lparr>candidate_pool := P\<rparr>)))"
    by (rule pool_in [OF B m _ _ off _ P]) (simp_all add: same_dels_def cand_go_online_def is_active_def)
  show ?case unfolding P prod.case ok_r_bind ok_simps using K by blast
qed

lemma cancel_leave_candidates_ok:
  assumes B: "books_ok cfg s"
  shows "ok_r (keeps cfg s) (cancel_leave_candidates o' n s)"
  unfolding cancel_leave_candidates_def ok_r_bind Let_def
proof (intro allI impI, goal_cases)
  case (1 c m u v)
  then have m: "candidate_info s c = Some m" and off: "\<not> is_active m"
    by (auto simp: result_simps is_leaving_def is_active_def split: collator_status.splits)
  let ?b = "\<lparr>owner = c, bond_stake = total_stake_counted (cand_go_online m)\<rparr>"
  obtain P r where P: "set_insert owner ?b (candidate_pool s) = (P, r)" by (cases "set_insert owner ?b (candidate_pool s)")
  have K: "keeps cfg s (deposit_staking_event (CancelledCandidateExit c) (put_candidate c (Some (cand_go_online m)) (s\<lparr>candidate_pool := P\<rparr>)))"
    by (rule pool_in [OF B m _ _ off _ P]) (simp_all add: same_dels_def cand_go_online_def is_active_def)
  show ?case unfolding P prod.case ok_r_bind ok_simps using K by blast
qed

lemma schedule_leave_candidates_ok:
  assumes B: "books_ok cfg s"
  shows "ok_r (keeps cfg s) (schedule_leave_candidates cfg o' n s)"
  unfolding schedule_leave_candidates_def ok_r_bind
proof (intro allI impI, goal_cases)
  case (1 c m x)
  then have m: "candidate_info s c = Some m" by (simp add: result_simps)
  obtain now w m' where x: "x = (now, w, m')" by (cases x)
  have m': "m' = m\<lparr>status := Leaving w\<rparr>" using 1(3) by (auto simp: x schedule_leave_def Let_def result_simps)
  obtain P r where P: "set_remove owner c (candidate_pool s) = (P, r)" by (cases "set_remove owner c (candidate_pool s)")
  have K: "keeps cfg s (deposit_staking_event (CandidateScheduledExit now c w) (put_candidate c (Some m') (if r then s\<lparr>candidate_pool := P\<rparr> else s)))"
    by (rule pool_out [OF B m _ _ _ P]) (simp_all add: m' same_dels_def is_active_def)
  show ?case unfolding x prod.case ok_r_bind Let_def P ok_simps using K by blast
qed

text \<open>Changes of the self bond.\<close>

lemma books_request_less:
  assumes B: "books_ok cfg s" and m: "candidate_info s c = Some m" and m': "m' = m\<lparr>bond_less_request := x\<rparr>"
  shows "keeps cfg s (deposit_staking_event e (put_candidate c (Some m') s))"
proof -
  have "find_by owner (candidate_pool s) = (find_by owner (candidate_pool s))(c := pool_entry c (Some m'))"
    using pool_find(1) [OF B m] by (simp add: m' pool_entry_def is_active_def fun_upd_idem)
  then show ?thesis
    using keeps_status [OF B m _ _ books_okD(1) [OF B], of m' e] by (simp add: m' same_dels_def)
qed

lemma schedule_candidate_bond_less_ok:
  assumes B: "books_ok cfg s"
  shows "ok_r (keeps cfg s) (schedule_candidate_bond_less cfg o' a s)"
  unfolding schedule_candidate_bond_less_def ok_r_bind
proof (intro allI impI, goal_cases)
  case (1 c m x)
  obtain w m' where x: "x = (w, m')" by (cases x)
  show ?case
    unfolding x prod.case ok_simps
    by (rule books_request_less [OF B]) (use 1 x in \<open>auto simp: schedule_bond_less_def Let_def result_simps\<close>)
qed

lemma cancel_candidate_bond_less_ok:
  assumes B: "books_ok cfg s"
  shows "ok_r (keeps cfg s) (cancel_candidate_bond_less o' s)"
  unfolding cancel_candidate_bond_less_def ok_r_bind
proof (intro allI impI, goal_cases)
  case (1 c m x)
  then have m: "candidate_info s c = Some m" by (simp add: result_simps)
  obtain r e where x: "x = (m\<lparr>bond_less_request := None\<rparr>, deposit_staking_event e s)"
    using 1(3) by (auto simp: cancel_bond_less_def result_simps)
  show ?case
    using books_request_less [OF B m refl, of e None] unfolding x prod.case ok_simps books_ok_def by simp
qed

lemma active_pool:
  assumes "strictly_sorted owner (candidate_pool s)" and "find_by owner (candidate_pool s) c = pool_entry c (Some m)"
    and "status m' = status m"
    and s': "s' = (if is_active m' then update_active c (total_stake_counted m') s else s)"
  obtains P where "s' = s\<lparr>candidate_pool := P\<rparr>" "strictly_sorted owner P"
    "find_by owner P = (find_by owner (candidate_pool s))(c := pool_entry c (Some m'))"
proof (cases "is_active m'")
  case True
  then show thesis using that update_active_pool [OF assms(1), of c "total_stake_counted m'"] s' by (auto simp: pool_entry_def)
next
  case False
  then show thesis using that [of "candidate_pool s"] assms by (auto simp: pool_entry_def is_active_def fun_upd_idem)
qed

lemma candidate_bond_more_ok:
  assumes B: "books_ok cfg s"
  shows "ok_r (keeps cfg s) (candidate_bond_more cfg o' a s)"
  unfolding candidate_bond_more_def ok_r_bind
proof (intro allI impI, goal_cases)
  case (1 c m free u st)
  then have m: "candidate_info s c = Some m" by (simp add: result_simps)
  define m' where "m' = m\<lparr>self_stake := stake_add (self_stake m) st, total_stake_counted := stake_add (total_stake_counted m) st\<rparr>"
  let ?s1 = "put_candidate c (Some m') (deposit_staking_event (CandidateBondedMore c st (self_stake m'))
    (set_collator_lock c (Some (st_amount (self_stake m'))) (s\<lparr>total_locked := stake_add (total_locked s) st\<rparr>)))"
  let ?s2 = "if is_active m' then update_active c (total_stake_counted m') ?s1 else ?s1"
  have sm: "status m' = status m" by (simp add: m'_def)
  have pool: "strictly_sorted owner (candidate_pool ?s1)" "find_by owner (candidate_pool ?s1) c = pool_entry c (Some m)"
    using books_okD(1) [OF B] pool_find(1) [OF B m] by simp_all
  obtain P where P: "?s2 = ?s1\<lparr>candidate_pool := P\<rparr>" "strictly_sorted owner P"
    "find_by owner P = (find_by owner (candidate_pool ?s1))(c := pool_entry c (Some m'))"
    using active_pool [OF pool sm refl] .
  have b: "bond_more c st m s = (m', deposit_staking_event (CandidateBondedMore c st (self_stake m'))
    (set_collator_lock c (Some (st_amount (self_stake m'))) (s\<lparr>total_locked := stake_add (total_locked s) st\<rparr>)))"
    by (simp add: bond_more_def m'_def Let_def)
  have d: "same_dels m m'" by (simp add: m'_def same_dels_def)
  have f: "find_by owner P = (find_by owner (candidate_pool s))(c := pool_entry c (Some m'))" using P(3) by simp
  show ?case
    unfolding b Let_def prod.case ok_simps P(1) books_ok_def using books_self [OF B m d P(2) f]
    by (simp add: rest_def put_candidate_def deposit_staking_event_def set_collator_lock_def)
qed

lemma execute_candidate_bond_less_ok:
  assumes B: "books_ok cfg s"
  shows "ok_r (keeps cfg s) (execute_candidate_bond_less cfg o' c s)"
  unfolding execute_candidate_bond_less_def ok_r_bind
proof (intro allI impI, goal_cases)
  case (1 u m x)
  then have m: "candidate_info s c = Some m" by (simp add: result_simps)
  obtain st where "(let (m', s') = bond_less c st m s in Inr (m'\<lparr>bond_less_request := None\<rparr>, s')) = (Inr x :: serr + _)"
    using 1(3) by (auto simp: execute_bond_less_def result_simps)
  then have x: "x = (let (m', s') = bond_less c st m s in (m'\<lparr>bond_less_request := None\<rparr>, s'))"
    by (cases "bond_less c st m s") simp
  define m' where "m' = m\<lparr>self_stake := stake_sub (self_stake m) st, total_stake_counted := stake_sub (total_stake_counted m) st\<rparr>"
  let ?s1 = "set_collator_lock c (Some (st_amount (self_stake m'))) (s\<lparr>total_locked := stake_sub (total_locked s) st\<rparr>)"
  let ?s2 = "if is_active m' then update_active c (total_stake_counted m') ?s1 else ?s1"
  have sm: "status m' = status m" by (simp add: m'_def)
  have pool: "strictly_sorted owner (candidate_pool ?s1)" "find_by owner (candidate_pool ?s1) c = pool_entry c (Some m)"
    using books_okD(1) [OF B] pool_find(1) [OF B m] by simp_all
  obtain P where P: "?s2 = ?s1\<lparr>candidate_pool := P\<rparr>" "strictly_sorted owner P"
    "find_by owner P = (find_by owner (candidate_pool ?s1))(c := pool_entry c (Some m'))"
    using active_pool [OF pool sm refl] .
  let ?m = "m'\<lparr>bond_less_request := None\<rparr>"
  have b: "x = (?m, deposit_staking_event (CandidateBondedLess c st (self_stake m')) ?s2)"
    unfolding x by (simp add: bond_less_def m'_def Let_def)
  have d: "same_dels m ?m" by (simp add: m'_def same_dels_def)
  have f: "find_by owner P = (find_by owner (candidate_pool s))(c := pool_entry c (Some ?m))"
    using P(3) by (simp add: pool_entry_def is_active_def)
  show ?case
    unfolding b prod.case ok_simps P(1) books_ok_def using books_self [OF B m d P(2) f]
    by (simp add: rest_def put_candidate_def deposit_staking_event_def set_collator_lock_def)
qed

section \<open>Joining and leaving the candidates\<close>

lemma books_no_candidate:
  assumes B: "books_ok cfg s" and c: "candidate_info s c = None"
  shows "pledges (delegator_state s d) c = None" "find_by owner (candidate_pool s) c = None"
proof -
  note D = booksD [OF B [unfolded books_ok_def]]
  show "pledges (delegator_state s d) c = None"
    using D(1) [of c] D(5) [of c d] c by (auto simp: cand_ok_def backing_def split: option.splits)
  show "find_by owner (candidate_pool s) c = None" using D(3) [of c] c by (simp add: pool_entry_def)
qed

lemma books_join:
  assumes laws: "staking_laws cfg" and B: "books_ok cfg s" and c: "candidate_info s c = None"
    and P: "strictly_sorted owner P" "find_by owner P = (find_by owner (candidate_pool s))(c \<mapsto> \<lparr>owner = c, bond_stake = st\<rparr>)"
  shows "books cfg ((candidate_info s)(c \<mapsto> new_candidate_metadata st)) ((top_delegations s)(c \<mapsto> empty_delegations))
    ((bottom_delegations s)(c \<mapsto> empty_delegations)) P (delegator_state s) (delegator_locks s)
    (scheduled_requests s) (auto_compounding s) ((collator_locks s)(c \<mapsto> st_amount st))"
proof -
  note D = booksD [OF B [unfolded books_ok_def]] and C = caps_okD [OF staking_lawsD(1) [OF laws]]
  let ?m = "new_candidate_metadata st"
  have "cand_ok cfg (((candidate_info s)(c \<mapsto> ?m)) x) (((top_delegations s)(c \<mapsto> empty_delegations)) x) (((bottom_delegations s)(c \<mapsto> empty_delegations)) x)" for x
    using D(1) [of x] C by (simp add: cand_ok_def lists_ok_def meta_ok_def empty_delegations_def new_candidate_metadata_def
        lowest_delegation_amount_def highest_delegation_amount_def capacity_of_def)
  moreover have "find_by owner P x = pool_entry x (((candidate_info s)(c \<mapsto> ?m)) x)" for x
    using D(3) [of x] P(2) by (simp add: pool_entry_def new_candidate_metadata_def is_active_def)
  moreover have "backing (((top_delegations s)(c \<mapsto> empty_delegations)) x) (((bottom_delegations s)(c \<mapsto> empty_delegations)) x) d = pledges (delegator_state s d) x" for x d
    using D(5) [of x d] books_no_candidate(1) [OF B c] by (simp add: backing_def empty_delegations_def stakes_of_def)
  moreover have "((collator_locks s)(c \<mapsto> st_amount st)) x = map_option (\<lambda>m. st_amount (self_stake m)) (((candidate_info s)(c \<mapsto> ?m)) x)" for x
    using D(8) [of x] by (simp add: new_candidate_metadata_def)
  ultimately show ?thesis unfolding books_def using D P(1) by simp
qed

lemma join_candidates_ok:
  assumes laws: "staking_laws cfg" and B: "books_ok cfg s"
  shows "ok_r (keeps cfg s) (join_candidates cfg o' bnd n s)"
  unfolding join_candidates_def ok_r_bind
proof (intro allI impI, goal_cases)
  case (1 c u1 u2 u3 u4 st)
  then have c: "candidate_info s c = None" by (simp add: result_simps is_candidate_def)
  have st: "st = Stake bnd bnd" using 1(6) staking_lawsD(2) [OF laws] by simp
  let ?b = "\<lparr>owner = c, bond_stake = st\<rparr>"
  obtain P r where P: "set_insert owner ?b (candidate_pool s) = (P, r)" by (cases "set_insert owner ?b (candidate_pool s)")
  note so = books_okD(1) [OF B]
  have v: "strictly_sorted owner P" "find_by owner P = (find_by owner (candidate_pool s))(c \<mapsto> ?b)"
    using ordered_set.valid_put [where key = owner, OF so, of ?b] ordered_set.find_put [where key = owner, OF so, of ?b]
      books_no_candidate(2) [OF B c] P by simp_all
  have K: "keeps cfg s (deposit_staking_event e ((put_bottom c empty_delegations (put_top c empty_delegations
      (put_candidate c (Some (new_candidate_metadata st)) (set_collator_lock c (Some bnd) s))))\<lparr>candidate_pool := P, total_locked := tot\<rparr>))" for e tot
    unfolding books_ok_def using books_join [OF laws B c v]
    by (simp add: st rest_def put_bottom_def put_top_def put_candidate_def set_collator_lock_def deposit_staking_event_def)
  have hp: "hook_power cfg c bnd env = Inr st" for env using staking_lawsD(2) [OF laws] st by simp
  show ?case unfolding P prod.case ok_r_bind Let_def hp bind_r.simps ok_simps using K by blast
qed

text \<open>Returning the bonds of the delegators of a candidate, one after the other.\<close>

definition returned :: "account_id \<Rightarrow> account_id set \<Rightarrow> 'env staking \<Rightarrow> 'env staking \<Rightarrow> bool" where
  "returned c who s s' \<longleftrightarrow>
     (\<exists>ds lk rq au. s' = s\<lparr>delegator_state := ds, delegator_locks := lk, scheduled_requests := rq, auto_compounding := au\<rparr> \<and>
        (\<forall>d. del_ok d (ds d) (lk d)) \<and>
        (\<forall>d. pledges (ds d) = (if d \<in> who then (pledges (delegator_state s d))(c := None) else pledges (delegator_state s d))) \<and>
        (\<forall>x. x \<noteq> c \<longrightarrow> rq x = scheduled_requests s x \<and> au x = auto_compounding s x) \<and>
        distinct (map req_delegator (rq c)) \<and> strictly_sorted acc_delegator (au c))"

lemma return_stake_ok:
  assumes d: "\<And>d. del_ok d (delegator_state s d) (delegator_locks s d)" and c: "pledges (delegator_state s (owner b)) c \<noteq> None"
    and rq: "distinct (map req_delegator (scheduled_requests s c))" and au: "strictly_sorted acc_delegator (auto_compounding s c)"
  obtains s' where "return_stake cfg c b s = Some s'" "returned c {owner b} s s'"
proof -
  let ?k = "owner b"
  obtain D where D: "delegator_state s ?k = Some D" using c by (cases "delegator_state s ?k") (auto simp: pledges_def)
  obtain st where st: "pledges (Some D) c = Some st" using c D by auto
  have core: "del_core ?k D" using d [of ?k] D by (simp add: del_ok_def)
  obtain D' where rm: "rm_delegation cfg c D s = Some (Some (total D'), D', set_delegator_lock ?k (lock_of D') s)"
    "del_core ?k D'" "pledges (Some D') = (pledges (Some D))(c := None)"
    using rm_delegation_ok [OF core st] by metis
  let ?s1 = "set_delegator_lock ?k (lock_of D') s"
  have "distinct (map req_delegator (scheduled_requests ?s1 c))" using rq by simp
  then obtain rs x where r: "delegation_remove_request_with_state c ?k D' ?s1 =
      (D'\<lparr>less_total := x\<rparr>, ?s1\<lparr>scheduled_requests := (scheduled_requests ?s1)(c := rs)\<rparr>)"
    "distinct (map req_delegator rs)"
    using remove_request_ok by metis
  let ?s2 = "?s1\<lparr>scheduled_requests := (scheduled_requests ?s1)(c := rs)\<rparr>"
  let ?as = "filter (\<lambda>x. acc_delegator x \<noteq> ?k) (auto_compounding s c)"
  have a: "remove_auto_compound c ?k ?s2 = ?s2\<lparr>auto_compounding := (auto_compounding s)(c := ?as)\<rparr>"
    using remove_auto_eq [of ?s2 c ?k] au by simp
  let ?D = "D'\<lparr>less_total := x\<rparr>"
  let ?s3 = "?s2\<lparr>auto_compounding := (auto_compounding s)(c := ?as)\<rparr>"
  have z: "stake_is_zero (total D') \<longleftrightarrow> delegations D' = []" by (rule zero_total [OF rm(2)])
  let ?s4 = "if delegations D' = [] then set_delegator_lock ?k None (put_delegator ?k None ?s3) else put_delegator ?k (Some ?D) ?s3"
  have run: "return_stake cfg c b s = Some ?s4"
    using D rm(1) r(1) a z by (simp add: return_stake_def)
  have eq: "?s4 = s\<lparr>delegator_state := (delegator_state s)(?k := entry_of ?D), delegator_locks := (delegator_locks s)(?k := lock_of D'),
      scheduled_requests := (scheduled_requests s)(c := rs), auto_compounding := (auto_compounding s)(c := ?as)\<rparr>"
    by (simp add: entry_of_def lock_of_def put_delegator_def set_delegator_lock_def)
  have "del_ok ?k (entry_of ?D) (lock_of D')" using entry_ok [of ?k ?D] rm(2) by simp
  then have ok: "del_ok y (((delegator_state s)(?k := entry_of ?D)) y) (((delegator_locks s)(?k := lock_of D')) y)" for y
    using d [of y] by simp
  have "returned c {?k} s ?s4"
    unfolding returned_def
  proof (intro exI conjI, rule eq)
    show "\<forall>y. del_ok y (((delegator_state s)(?k := entry_of ?D)) y) (((delegator_locks s)(?k := lock_of D')) y)" using ok by blast
    show "\<forall>y. pledges (((delegator_state s)(?k := entry_of ?D)) y) =
        (if y \<in> {?k} then (pledges (delegator_state s y))(c := None) else pledges (delegator_state s y))"
      using rm(3) D by simp
    show "distinct (map req_delegator (((scheduled_requests s)(c := rs)) c))" using r(2) by simp
    show "strictly_sorted acc_delegator (((auto_compounding s)(c := ?as)) c)" using au by (simp add: strictly_sorted_filter)
  qed simp
  then show thesis using that [OF run] by blast
qed

lemma return_stakes_ok:
  assumes "\<And>d. del_ok d (delegator_state s d) (delegator_locks s d)"
    and "\<And>b. b \<in> set bs \<Longrightarrow> pledges (delegator_state s (owner b)) c \<noteq> None" and "distinct (map owner bs)"
    and "distinct (map req_delegator (scheduled_requests s c))" and "strictly_sorted acc_delegator (auto_compounding s c)"
  shows "\<exists>s'. return_stakes cfg c bs s = Some s' \<and> returned c (owner ` set bs) s s'"
  using assms
proof (induction bs arbitrary: s)
  case Nil
  then show ?case by (auto simp: returned_def intro!: exI [of _ "delegator_state s"] exI [of _ "delegator_locks s"]
        exI [of _ "scheduled_requests s"] exI [of _ "auto_compounding s"])
next
  case (Cons b bs)
  obtain s1 where s1: "return_stake cfg c b s = Some s1" "returned c {owner b} s s1"
    using return_stake_ok [OF Cons.prems(1) _ Cons.prems(4,5), of b cfg] Cons.prems(2) by auto
  obtain ds lk rq au where r: "s1 = s\<lparr>delegator_state := ds, delegator_locks := lk, scheduled_requests := rq, auto_compounding := au\<rparr>"
    "\<And>d. del_ok d (ds d) (lk d)"
    "\<And>d. pledges (ds d) = (if d \<in> {owner b} then (pledges (delegator_state s d))(c := None) else pledges (delegator_state s d))"
    "\<And>x. x \<noteq> c \<Longrightarrow> rq x = scheduled_requests s x \<and> au x = auto_compounding s x"
    "distinct (map req_delegator (rq c))" "strictly_sorted acc_delegator (au c)"
    using s1(2) unfolding returned_def by blast
  have p: "pledges (delegator_state s1 (owner b')) c \<noteq> None" if "b' \<in> set bs" for b'
    using that r(1,3) Cons.prems(2,3) by (auto simp: image_iff)
  have "\<exists>s'. return_stakes cfg c bs s1 = Some s' \<and> returned c (owner ` set bs) s1 s'"
    by (rule Cons.IH) (use r(1,2,5,6) p Cons.prems(3) in simp_all)
  then obtain s' where s': "return_stakes cfg c bs s1 = Some s'" "returned c (owner ` set bs) s1 s'" by blast
  obtain ds' lk' rq' au' where r': "s' = s1\<lparr>delegator_state := ds', delegator_locks := lk', scheduled_requests := rq', auto_compounding := au'\<rparr>"
    "\<And>d. del_ok d (ds' d) (lk' d)"
    "\<And>d. pledges (ds' d) = (if d \<in> owner ` set bs then (pledges (ds d))(c := None) else pledges (ds d))"
    "\<And>x. x \<noteq> c \<Longrightarrow> rq' x = rq x \<and> au' x = au x"
    "distinct (map req_delegator (rq' c))" "strictly_sorted acc_delegator (au' c)"
    using s'(2) r(1) unfolding returned_def by auto
  have "returned c (owner ` set (b # bs)) s s'"
    unfolding returned_def
  proof (intro exI conjI)
    show "s' = s\<lparr>delegator_state := ds', delegator_locks := lk', scheduled_requests := rq', auto_compounding := au'\<rparr>"
      using r'(1) r(1) by simp
    show "\<forall>d. pledges (ds' d) = (if d \<in> owner ` set (b # bs) then (pledges (delegator_state s d))(c := None) else pledges (delegator_state s d))"
      by (simp add: r'(3) r(3))
  qed (use r'(2,4,5,6) r(4) in auto)
  then show ?case using s1(1) s'(1) by auto
qed

lemma books_leave:
  assumes B: "books_ok cfg s" and m: "candidate_info s c = Some m" and off: "\<not> is_active m"
    and d: "\<And>d. del_ok d (ds d) (lk d)" and pl: "\<And>d. pledges (ds d) = (pledges (delegator_state s d))(c := None)"
    and rq: "\<And>x. x \<noteq> c \<Longrightarrow> rq x = scheduled_requests s x \<and> au x = auto_compounding s x" "rq c = []" "au c = []"
  shows "books cfg ((candidate_info s)(c := None)) ((top_delegations s)(c := None)) ((bottom_delegations s)(c := None))
    (candidate_pool s) ds lk rq au ((collator_locks s)(c := None))"
proof -
  note D = booksD [OF B [unfolded books_ok_def]]
  have "cand_ok cfg (((candidate_info s)(c := None)) x) (((top_delegations s)(c := None)) x) (((bottom_delegations s)(c := None)) x)" for x
    using D(1) [of x] by (simp add: cand_ok_def)
  moreover have "find_by owner (candidate_pool s) x = pool_entry x (((candidate_info s)(c := None)) x)" for x
    using D(3) [of x] m off by (auto simp: pool_entry_def)
  moreover have "backing (((top_delegations s)(c := None)) x) (((bottom_delegations s)(c := None)) x) y = pledges (ds y) x" for x y
    using D(5) [of x y] pl by (simp add: backing_def)
  moreover have "reqs_ok ds x (rq x)" for x
  proof (cases "x = c")
    case False
    then have "reqs_ok ds x (scheduled_requests s x) = reqs_ok (delegator_state s) x (scheduled_requests s x)"
      by (simp add: reqs_ok_def pl)
    then show ?thesis using D(6) [of x] rq(1) [OF False] by simp
  qed (simp add: rq(2) reqs_ok_def)
  moreover have "strictly_sorted acc_delegator (au x)" for x
    using D(7) [of x] rq by (cases "x = c") simp_all
  moreover have "((collator_locks s)(c := None)) x = map_option (\<lambda>m. st_amount (self_stake m)) (((candidate_info s)(c := None)) x)" for x
    using D(8) [of x] by simp
  ultimately show ?thesis unfolding books_def using D(2) d by simp
qed

lemma returnedE:
  assumes "returned c who s s'"
  obtains ds lk rq au where "s' = s\<lparr>delegator_state := ds, delegator_locks := lk, scheduled_requests := rq, auto_compounding := au\<rparr>"
    "\<And>d. del_ok d (ds d) (lk d)"
    "\<And>d. pledges (ds d) = (if d \<in> who then (pledges (delegator_state s d))(c := None) else pledges (delegator_state s d))"
    "\<And>x. x \<noteq> c \<Longrightarrow> rq x = scheduled_requests s x \<and> au x = auto_compounding s x"
    "distinct (map req_delegator (rq c))" "strictly_sorted acc_delegator (au c)"
  using assms unfolding returned_def by blast

lemma drop_frame [simp]:
  "top_delegations (drop_top c s) = (top_delegations s)(c := None)" "bottom_delegations (drop_top c s) = bottom_delegations s"
  "top_delegations (drop_bottom c s) = top_delegations s" "bottom_delegations (drop_bottom c s) = (bottom_delegations s)(c := None)"
  "candidate_info (drop_top c s) = candidate_info s" "candidate_info (drop_bottom c s) = candidate_info s"
  "candidate_pool (drop_top c s) = candidate_pool s" "candidate_pool (drop_bottom c s) = candidate_pool s"
  "delegator_state (drop_top c s) = delegator_state s" "delegator_state (drop_bottom c s) = delegator_state s"
  "delegator_locks (drop_top c s) = delegator_locks s" "delegator_locks (drop_bottom c s) = delegator_locks s"
  "scheduled_requests (drop_top c s) = scheduled_requests s" "scheduled_requests (drop_bottom c s) = scheduled_requests s"
  "auto_compounding (drop_top c s) = auto_compounding s" "auto_compounding (drop_bottom c s) = auto_compounding s"
  "collator_locks (drop_top c s) = collator_locks s" "collator_locks (drop_bottom c s) = collator_locks s"
  "rest (drop_top c s) = rest s" "rest (drop_bottom c s) = rest s"
  by (simp_all add: drop_top_def drop_bottom_def rest_def)

lemma execute_leave_candidates_ok:
  assumes B: "books_ok cfg s"
  shows "ok_p (keeps cfg s) (execute_leave_candidates cfg o' c n s)"
  unfolding execute_leave_candidates_def ok_p_bind_Some
proof (intro allI impI, goal_cases)
  case (1 u m v w)
  then have m: "candidate_info s c = Some m" and off: "\<not> is_active m"
    by (auto simp: result_simps can_leave_def is_active_def split: collator_status.splits)
  obtain t b where at: "cand_at cfg c m t b s" using books_cand_at [OF B m] .
  note A = cand_atD [OF at] and BD = books_okD [OF B]
  have dist: "distinct (map owner (dels t))" "distinct (map owner (dels b))" "distinct (map owner (dels t @ dels b))"
    and disj: "\<And>x. x \<in> set (dels b) \<Longrightarrow> owner x \<notin> owner ` set (dels t)"
    using lists_okD(3,4,7) [OF A(3)] A(3) by (auto simp: lists_ok_def)
  have pl: "pledges (delegator_state s d) c \<noteq> None \<longleftrightarrow> d \<in> owner ` set (dels t @ dels b)" for d
    using books_backing [OF B at, of d] stakes_of_None [of "dels t @ dels b" d] by metis
  let ?s0 = "drop_top c s"
  have "\<exists>s1. return_stakes cfg c (dels t) ?s0 = Some s1 \<and> returned c (owner ` set (dels t)) ?s0 s1"
    by (rule return_stakes_ok) (use BD(2,3,4) pl dist(1) in auto)
  then obtain s1 where s1: "return_stakes cfg c (dels t) ?s0 = Some s1" "returned c (owner ` set (dels t)) ?s0 s1" by blast
  obtain ds lk rq au where r: "s1 = ?s0\<lparr>delegator_state := ds, delegator_locks := lk, scheduled_requests := rq, auto_compounding := au\<rparr>"
    "\<And>d. del_ok d (ds d) (lk d)"
    "\<And>d. pledges (ds d) = (if d \<in> owner ` set (dels t) then (pledges (delegator_state ?s0 d))(c := None) else pledges (delegator_state ?s0 d))"
    "\<And>x. x \<noteq> c \<Longrightarrow> rq x = scheduled_requests ?s0 x \<and> au x = auto_compounding ?s0 x"
    "distinct (map req_delegator (rq c))" "strictly_sorted acc_delegator (au c)"
    by (rule returnedE [OF s1(2)]) (rule that; assumption)
  let ?s1 = "drop_bottom c s1"
  have p1: "pledges (delegator_state ?s1 (owner x)) c \<noteq> None" if "x \<in> set (dels b)" for x
    using pl [of "owner x"] that disj [OF that] r(3) [of "owner x"] by (simp add: r(1))
  have "\<exists>s2. return_stakes cfg c (dels b) ?s1 = Some s2 \<and> returned c (owner ` set (dels b)) ?s1 s2"
    by (rule return_stakes_ok) (use r(1,2,5,6) p1 dist(2) in auto)
  then obtain s2 where s2: "return_stakes cfg c (dels b) ?s1 = Some s2" "returned c (owner ` set (dels b)) ?s1 s2" by blast
  obtain ds' lk' rq' au' where r': "s2 = ?s1\<lparr>delegator_state := ds', delegator_locks := lk', scheduled_requests := rq', auto_compounding := au'\<rparr>"
    "\<And>d. del_ok d (ds' d) (lk' d)"
    "\<And>d. pledges (ds' d) = (if d \<in> owner ` set (dels b) then (pledges (delegator_state ?s1 d))(c := None) else pledges (delegator_state ?s1 d))"
    "\<And>x. x \<noteq> c \<Longrightarrow> rq' x = scheduled_requests ?s1 x \<and> au' x = auto_compounding ?s1 x"
    "distinct (map req_delegator (rq' c))" "strictly_sorted acc_delegator (au' c)"
    by (rule returnedE [OF s2(2)]) (rule that; assumption)
  have plf: "pledges (ds' d) = (pledges (delegator_state s d))(c := None)" for d
  proof (cases "d \<in> owner ` set (dels t @ dels b)")
    case True
    then show ?thesis using r'(3) [of d] r(3) [of d] by (auto simp: r(1))
  next
    case False
    then have "pledges (delegator_state s d) c = None" using pl by blast
    then show ?thesis using r'(3) [of d] r(3) [of d] False by (auto simp: r(1) fun_upd_idem)
  qed
  have books: "books cfg ((candidate_info s)(c := None)) ((top_delegations s)(c := None)) ((bottom_delegations s)(c := None))
    (candidate_pool s) ds' lk' (rq'(c := [])) (au'(c := [])) ((collator_locks s)(c := None))"
    by (rule books_leave [OF B m off r'(2) plf]) (use r'(4) r(4) in \<open>auto simp: r(1)\<close>)
  have bots: "bottom_delegations s1 c = Some b" using A(2) by (simp add: r(1))
  have K: "keeps cfg s (deposit_staking_event e (((set_requests c [] (drop_bottom c (drop_top c (put_candidate c None (set_collator_lock c None s2)))))
       \<lparr>auto_compounding := (auto_compounding (drop_bottom c (drop_top c (put_candidate c None (set_collator_lock c None s2)))))(c := [])\<rparr>)\<lparr>total_locked := tot\<rparr>))" for e tot
    unfolding books_ok_def using books by (simp add: r'(1) r(1))
      (simp add: rest_def drop_top_def drop_bottom_def set_requests_def put_candidate_def set_collator_lock_def deposit_staking_event_def)
  show ?case
    unfolding A(1) Option.bind.simps s1(1) bots s2(1) Let_def ok_simps using K by blast
qed

section \<open>The remaining calls\<close>

lemma bond_more_without_event_ok:
  assumes laws: "staking_laws cfg" and B: "books_ok cfg s"
  shows "\<exists>r s'. delegation_bond_more_without_event cfg who c (Stake a a) s = Some (r, s') \<and> keeps cfg s s'"
proof (cases "delegation_request_revoke_exists c who s")
  case True
  then show ?thesis using B by (simp add: delegation_bond_more_without_event_def)
next
  case False
  show ?thesis
  proof (cases "delegator_state s who")
    case None
    then show ?thesis using B False by (simp add: delegation_bond_more_without_event_def)
  next
    case (Some D)
    then show ?thesis using increase_delegation_ok [OF laws B Some False] False by (simp add: delegation_bond_more_without_event_def)
  qed
qed

lemma delegator_bond_more_ok:
  assumes laws: "staking_laws cfg" and B: "books_ok cfg s"
  shows "ok_p (keeps cfg s) (delegator_bond_more cfg o' c a s)"
  unfolding delegator_bond_more_def ok_p_bind_Some
proof (intro allI impI)
  fix who st
  assume "hook_power cfg who a (staking_env s) = Inr st"
  then have st: "st = Stake a a" using staking_lawsD(2) [OF laws] by simp
  obtain r s' where "delegation_bond_more_without_event cfg who c (Stake a a) s = Some (r, s')" "keeps cfg s s'"
    using bond_more_without_event_ok [OF laws B] by blast
  then show "ok_p (keeps cfg s) (bind_p (roll_back (delegation_bond_more_without_event cfg who c st s)) (\<lambda>(in_top, s1).
     Some (Inr (deposit_staking_event (DelegationIncreased who c st in_top) s1))))"
    by (cases r) (simp_all add: st roll_back_def books_ok_def)
qed

lemma set_auto_compound_ok:
  assumes B: "books_ok cfg s"
  shows "ok_r (keeps cfg s) (set_auto_compound o' c v h1 h2 s)"
  unfolding set_auto_compound_def pallet_set_auto_compound_def ok_r_bind
proof (intro allI impI, goal_cases)
  case (1 who D u1 u2 u3)
  let ?r = "if v = 0 then remove_for_delegator who (auto_compounding s c) else set_for_delegator who v (auto_compounding s c)"
  obtain cs upd where r: "?r = (cs, upd)" by (cases ?r)
  note so = books_okD(4) [OF B, of c]
  have cs: "strictly_sorted acc_delegator cs"
    using r set_for_delegator_sorted [OF so, of who v] strictly_sorted_filter [OF so]
    by (auto simp: remove_for_delegator_sorted [OF so] split: if_splits)
  have "books cfg (candidate_info s) (top_delegations s) (bottom_delegations s) (candidate_pool s) (delegator_state s) (delegator_locks s)
    (scheduled_requests s) ((auto_compounding s)(c := cs)) (collator_locks s)"
    by (rule books_auto [OF B [unfolded books_ok_def]]) (use cs books_okD(4) [OF B] in simp)
  then show ?case
    unfolding r Let_def prod.case ok_simps using B by (auto simp: books_ok_def)
qed

end
