(* ===== verification/Staking_Runtime.thy ===== *)
theory Staking_Runtime
  imports Staking_Calls
begin

text \<open>
  The staking pallet as it runs: rounds and payouts in the hooks of a block, the dispatch of calls, runs from
  the genesis, and the properties of the states that are reached.
\<close>

section \<open>Rounds and payouts\<close>

lemma books_other [simp]:
  "books_ok cfg (s\<lparr>staking_env := env\<rparr>) = books_ok cfg s" "books_ok cfg (s\<lparr>at_stake := ast\<rparr>) = books_ok cfg s"
  "books_ok cfg (s\<lparr>selected_candidates := sel\<rparr>) = books_ok cfg s" "books_ok cfg (s\<lparr>round_state := r\<rparr>) = books_ok cfg s"
  "books_ok cfg (s\<lparr>staked := st\<rparr>) = books_ok cfg s" "books_ok cfg (s\<lparr>delayed_payouts := dp\<rparr>) = books_ok cfg s"
  "books_ok cfg (s\<lparr>points := pt\<rparr>) = books_ok cfg s" "books_ok cfg (s\<lparr>awarded_pts := ap\<rparr>) = books_ok cfg s"
  "books_ok cfg (s\<lparr>inflation_config := ic\<rparr>) = books_ok cfg s" "books_ok cfg (s\<lparr>total_selected := ts\<rparr>) = books_ok cfg s"
  "books_ok cfg (s\<lparr>collator_commission := cc\<rparr>) = books_ok cfg s" "books_ok cfg (s\<lparr>parachain_bond_info := pb\<rparr>) = books_ok cfg s"
  "books_ok cfg (deposit_staking_event e s) = books_ok cfg s" "books_ok cfg (put_at_stake now acc snap s) = books_ok cfg s"
  by (simp_all add: books_ok_def put_at_stake_def)

lemma rest_other [simp]:
  "rest (s\<lparr>staking_env := env\<rparr>) = rest s" "rest (s\<lparr>staked := st\<rparr>) = rest s" "rest (s\<lparr>delayed_payouts := dp\<rparr>) = rest s"
  "rest (s\<lparr>points := pt\<rparr>) = rest s" "rest (s\<lparr>awarded_pts := ap\<rparr>) = rest s" "rest (s\<lparr>inflation_config := ic\<rparr>) = rest s"
  "rest (s\<lparr>total_selected := ts\<rparr>) = rest s" "rest (s\<lparr>collator_commission := cc\<rparr>) = rest s"
  "rest (s\<lparr>parachain_bond_info := pb\<rparr>) = rest s"
  by (simp_all add: rest_def)

text \<open>The selected collators have a snapshot for the current round.\<close>

definition selected_ok :: "'env staking \<Rightarrow> bool" where
  "selected_ok s \<longleftrightarrow> set (selected_candidates s) \<subseteq> fst ` set (at_stake s (current (round_state s)))"

lemma selected_ok_rest: "rest s' = rest s \<Longrightarrow> selected_ok s' = selected_ok s"
  by (simp add: selected_ok_def rest_def)

definition staking_inv :: "('env, 'fx) staking_config \<Rightarrow> 'env staking \<Rightarrow> bool" where
  "staking_inv cfg s \<longleftrightarrow> books_ok cfg s \<and> selected_ok s"

lemma keeps_inv: "staking_inv cfg s \<Longrightarrow> keeps cfg s s' \<Longrightarrow> staking_inv cfg s' \<and> current (round_state s') = current (round_state s)"
  using selected_ok_rest [of s' s] by (simp add: staking_inv_def) (simp add: rest_def)

subsection \<open>Selecting\<close>

lemma top_candidates_pool: "set (compute_top_candidates s) \<subseteq> owner ` set (candidate_pool s)"
  by (auto simp: compute_top_candidates_def Let_def dest!: in_set_takeD)

lemma pool_candidate:
  assumes B: "books_ok cfg s" and c: "c \<in> owner ` set (candidate_pool s)"
  obtains m t where "candidate_info s c = Some m" "top_delegations s c = Some t"
proof -
  have "find_by owner (candidate_pool s) c \<noteq> None" using c by (simp add: find_by_None)
  then obtain m where m: "candidate_info s c = Some m"
    using books_okD(5) [OF B, of c] by (auto simp: pool_entry_def split: option.splits)
  obtain t b where "cand_at cfg c m t b s" using books_cand_at [OF B m] .
  then show thesis using that m cand_atD(1) by blast
qed

lemma keys_update: "fst ` set (AList.update k v xs) = insert k (fst ` set xs)"
  by (metis AList.update_conv' dom_fun_upd dom_map_of_conv_image_fst option.distinct(1))

lemma snapshot_collators_ok:
  assumes "\<And>c. c \<in> set cs \<Longrightarrow> \<exists>m t. candidate_info s c = Some m \<and> top_delegations s c = Some t"
  shows "\<exists>sel ast ev. snapshot_collators now cs acc s = Some (sel, s\<lparr>at_stake := (at_stake s)(now := ast), staking_events := ev\<rparr>) \<and>
    fst ` set ast = fst ` set (at_stake s now) \<union> set cs"
  using assms
proof (induction cs arbitrary: acc s)
  case Nil
  show ?case
    by (rule exI [of _ acc], rule exI [of _ "at_stake s now"], rule exI [of _ "staking_events s"]) simp
next
  case (Cons c cs)
  obtain cc dc tot where acc: "acc = (cc, dc, tot)" by (cases acc)
  obtain m t where m: "candidate_info s c = Some m" "top_delegations s c = Some t" using Cons.prems by (meson list.set_intros(1))
  obtain snap where snap: "collator_snapshot_of c m s = Some snap"
    using m(2) by (auto simp: collator_snapshot_of_def get_rewardable_delegators_def)
  let ?s1 = "deposit_staking_event (CollatorChosen now c (total_stake_counted m)) (put_at_stake now c snap s)"
  have s1: "?s1 = s\<lparr>at_stake := (at_stake s)(now := AList.update c snap (at_stake s now)),
      staking_events := staking_events s @ [CollatorChosen now c (total_stake_counted m)]\<rparr>"
    by (simp add: deposit_staking_event_def put_at_stake_def)
  have "\<exists>m t. candidate_info ?s1 x = Some m \<and> top_delegations ?s1 x = Some t" if "x \<in> set cs" for x
    using Cons.prems [of x] that by (simp add: s1)
  then obtain sel ast ev where ih: "snapshot_collators now cs (saturating_add 32 cc 1, saturating_add 32 dc (delegation_count m), stake_add tot (total_stake_counted m)) ?s1 =
      Some (sel, ?s1\<lparr>at_stake := (at_stake ?s1)(now := ast), staking_events := ev\<rparr>)"
    "fst ` set ast = fst ` set (at_stake ?s1 now) \<union> set cs"
    using Cons.IH by blast
  have "snapshot_collators now (c # cs) acc s = Some (sel, s\<lparr>at_stake := (at_stake s)(now := ast), staking_events := ev\<rparr>)"
    using ih(1) by (simp add: acc m(1) snap s1)
  moreover have "fst ` set ast = fst ` set (at_stake s now) \<union> set (c # cs)"
    using ih(2) by (simp add: s1 keys_update)
  ultimately show ?case by blast
qed

lemma copy_snapshots_ok:
  "\<exists>sel ast. copy_snapshots now xs acc s = (sel, s\<lparr>at_stake := (at_stake s)(now := ast)\<rparr>) \<and>
    fst ` set ast = fst ` set (at_stake s now) \<union> fst ` set xs"
proof (induction xs arbitrary: acc s)
  case Nil
  show ?case by (rule exI [of _ acc], rule exI [of _ "at_stake s now"]) simp
next
  case (Cons x xs)
  obtain c snap where x: "x = (c, snap)" by (cases x)
  obtain cc dc tot where acc: "acc = (cc, dc, tot)" by (cases acc)
  let ?s1 = "put_at_stake now c snap s"
  obtain sel ast where ih: "copy_snapshots now xs (saturating_add 32 cc 1, saturating_add 32 dc (length (snap_delegations snap) mod 2 ^ 32), stake_add tot (snap_total snap)) ?s1 =
      (sel, ?s1\<lparr>at_stake := (at_stake ?s1)(now := ast)\<rparr>)"
    "fst ` set ast = fst ` set (at_stake ?s1 now) \<union> fst ` set xs"
    using Cons.IH by blast
  have "copy_snapshots now (x # xs) acc s = (sel, s\<lparr>at_stake := (at_stake s)(now := ast)\<rparr>)"
    using ih(1) by (simp add: acc x put_at_stake_def)
  moreover have "fst ` set ast = fst ` set (at_stake s now) \<union> fst ` set (x # xs)"
    using ih(2) by (simp add: x put_at_stake_def keys_update)
  ultimately show ?case by blast
qed

lemma announce_selected_ok:
  assumes "set cs \<subseteq> dom snaps"
  shows "\<exists>ev. announce_selected now snaps cs s = Some (s\<lparr>staking_events := ev\<rparr>)"
  using assms
proof (induction cs arbitrary: s)
  case Nil
  show ?case by (rule exI [of _ "staking_events s"]) simp
next
  case (Cons c cs)
  then obtain snap where snap: "snaps c = Some snap" by auto
  let ?s1 = "deposit_staking_event (CollatorChosen now c (snap_total snap)) s"
  obtain ev where "announce_selected now snaps cs ?s1 = Some (?s1\<lparr>staking_events := ev\<rparr>)" using Cons by auto
  then have "announce_selected now snaps (c # cs) s = Some (s\<lparr>staking_events := ev\<rparr>)"
    by (simp add: snap deposit_staking_event_def)
  then show ?case by blast
qed

lemma select_top_candidates_ok:
  assumes B: "books_ok cfg s" and sel: "set (selected_candidates s) \<subseteq> fst ` set (at_stake s (now - 1))"
  obtains r s' where "select_top_candidates now s = Some (r, s')" "books_ok cfg s'" "round_state s' = round_state s"
    "set (selected_candidates s') \<subseteq> fst ` set (at_stake s' now)"
proof (cases "compute_top_candidates s = []")
  case True
  obtain r ast where c: "copy_snapshots now (at_stake s (now - 1)) (0, 0, stake_zero) s = (r, s\<lparr>at_stake := (at_stake s)(now := ast)\<rparr>)"
    "fst ` set ast = fst ` set (at_stake s now) \<union> fst ` set (at_stake s (now - 1))"
    using copy_snapshots_ok by blast
  let ?s1 = "s\<lparr>at_stake := (at_stake s)(now := ast)\<rparr>"
  have "set (selected_candidates ?s1) \<subseteq> dom (map_of (at_stake s (now - 1)))" using sel by (simp add: dom_map_of_conv_image_fst)
  then obtain ev where "announce_selected now (map_of (at_stake s (now - 1))) (selected_candidates ?s1) ?s1 = Some (?s1\<lparr>staking_events := ev\<rparr>)"
    using announce_selected_ok by blast
  then have a: "select_top_candidates now s = Some (r, ?s1\<lparr>staking_events := ev\<rparr>)"
    using True c(1) by (simp add: select_top_candidates_def Let_def)
  have b: "books_ok cfg (?s1\<lparr>staking_events := ev\<rparr>)" using B by (simp add: books_ok_def)
  have d: "set (selected_candidates (?s1\<lparr>staking_events := ev\<rparr>)) \<subseteq> fst ` set (at_stake (?s1\<lparr>staking_events := ev\<rparr>) now)"
    using sel c(2) by auto
  show thesis by (rule that [OF a b _ d]) simp
next
  case False
  have "\<exists>m t. candidate_info s c = Some m \<and> top_delegations s c = Some t" if "c \<in> set (compute_top_candidates s)" for c
  proof -
    have "c \<in> owner ` set (candidate_pool s)" using that top_candidates_pool by blast
    then obtain m t where "candidate_info s c = Some m" "top_delegations s c = Some t" by (rule pool_candidate [OF B])
    then show ?thesis by blast
  qed
  then obtain r ast ev where r: "snapshot_collators now (compute_top_candidates s) (0, 0, stake_zero) s =
      Some (r, s\<lparr>at_stake := (at_stake s)(now := ast), staking_events := ev\<rparr>)"
    "fst ` set ast = fst ` set (at_stake s now) \<union> set (compute_top_candidates s)"
    using snapshot_collators_ok by blast
  let ?s1 = "s\<lparr>at_stake := (at_stake s)(now := ast), staking_events := ev, selected_candidates := compute_top_candidates s\<rparr>"
  have a: "select_top_candidates now s = Some (r, ?s1)" using False r(1) by (simp add: select_top_candidates_def Let_def)
  have b: "books_ok cfg ?s1" using B by (simp add: books_ok_def)
  show thesis by (rule that [OF a b]) (simp_all add: r(2))
qed

subsection \<open>Paying\<close>

lemma prepare_payouts_keeps: "books_ok cfg s \<Longrightarrow> keeps cfg s (prepare_staking_payouts cfg now s)"
  by (auto simp: prepare_staking_payouts_def Let_def split: option.split)

lemma mint_and_compound_ok:
  assumes laws: "staking_laws cfg" and B: "books_ok cfg s"
  shows "\<exists>r s'. mint_and_compound cfg amt pc c who s = Some (r, s') \<and> keeps cfg s s'"
proof (cases "deposit_into_existing cfg who amt (staking_env s)")
  case None
  then show ?thesis using B by (simp add: mint_and_compound_def)
next
  case (Some te)
  obtain tr env where te: "te = (tr, env)" by (cases te)
  let ?s1 = "deposit_staking_event (Rewarded who tr) (s\<lparr>staking_env := env\<rparr>)"
  let ?a = "percent_mul_ceil cfg pc tr"
  have B1: "books_ok cfg ?s1" and R1: "rest ?s1 = rest s" using B by simp_all
  obtain r s2 where b: "delegation_bond_more_without_event cfg who c (Stake ?a ?a) ?s1 = Some (r, s2)" "books_ok cfg s2" "rest s2 = rest ?s1"
    using bond_more_without_event_ok [OF laws B1] by blast
  obtain hr env2 where h: "hook_compound cfg who ?a (staking_env s2) = (hr, env2)" by (cases "hook_compound cfg who ?a (staking_env s2)")
  have "keeps cfg s s2" "keeps cfg s (s2\<lparr>staking_env := env2\<rparr>)" "keeps cfg s (deposit_staking_event e (s2\<lparr>staking_env := env2\<rparr>))" "keeps cfg s ?s1" for e
    using b(2,3) B1 R1 by simp_all
  moreover have "mint_and_compound cfg amt pc c who s = Some (Inr (), ?s1) \<or>
      (\<exists>e. mint_and_compound cfg amt pc c who s = Some (Inl e, s2)) \<or>
      (\<exists>e. mint_and_compound cfg amt pc c who s = Some (Inl e, s2\<lparr>staking_env := env2\<rparr>)) \<or>
      (\<exists>e. mint_and_compound cfg amt pc c who s = Some (Inr (), deposit_staking_event e (s2\<lparr>staking_env := env2\<rparr>)))"
    by (cases r; cases hr)
      (simp_all add: mint_and_compound_def Some te Let_def staking_lawsD(2) [OF laws] b(1) h del: books_other rest_other, blast?)
  ultimately show ?thesis by blast
qed

lemma pay_delegators_ok:
  assumes laws: "staking_laws cfg" and B: "books_ok cfg s"
  shows "\<exists>s'. pay_delegators cfg c snap due ds s = Some s' \<and> keeps cfg s s'"
  using B
proof (induction ds arbitrary: s)
  case (Cons d ds)
  show ?case
  proof (cases "delegator_due cfg snap due d = 0")
    case True
    then show ?thesis using Cons by (simp add: Let_def)
  next
    case False
    obtain r s1 where m: "mint_and_compound cfg (delegator_due cfg snap due d) (bac_auto_compound d) c (bac_owner d) s = Some (r, s1)" "books_ok cfg s1" "rest s1 = rest s"
      using mint_and_compound_ok [OF laws Cons.prems] by blast
    obtain s' where s': "pay_delegators cfg c snap due ds s1 = Some s'" "books_ok cfg s'" "rest s' = rest s1"
      using Cons.IH [OF m(2)] by blast
    have "pay_delegators cfg c snap due (d # ds) s = Some s'" using False m(1) s'(1) by (simp add: Let_def)
    then show ?thesis using s'(2,3) m(3) by simp
  qed
qed simp

text \<open>A payout for an earlier round leaves the current one alone.\<close>

definition pays :: "('env, 'fx) staking_config \<Rightarrow> round_index \<Rightarrow> 'env staking \<Rightarrow> 'env staking \<Rightarrow> bool" where
  "pays cfg paid s s' \<longleftrightarrow> books_ok cfg s' \<and> round_state s' = round_state s \<and> selected_candidates s' = selected_candidates s \<and>
     (\<forall>r. r \<noteq> paid \<longrightarrow> at_stake s' r = at_stake s r)"

lemma pay_one_collator_reward_ok:
  assumes laws: "staking_laws cfg" and B: "books_ok cfg s"
  shows "\<exists>r s'. pay_one_collator_reward cfg paid payout s = Some (r, s') \<and> pays cfg paid s s'"
proof (cases "points s paid = 0 \<or> at_stake s paid = []")
  case True
  then show ?thesis using B by (auto simp: pay_one_collator_reward_def Let_def pays_def)
next
  case False
  then obtain c snap ps where ast: "at_stake s paid = (c, snap) # ps" and pt: "points s paid \<noteq> 0"
    by (cases "at_stake s paid") auto
  let ?s1 = "s\<lparr>at_stake := (at_stake s)(paid := ps)\<rparr>"
  let ?s2 = "?s1\<lparr>awarded_pts := (awarded_pts ?s1)(paid := (awarded_pts ?s1 paid)(c := 0))\<rparr>"
  have B2: "books_ok cfg ?s2" using B by simp
  have K: "pays cfg paid s s'" if "keeps cfg ?s2 s'" for s'
    using that by (auto simp: pays_def rest_def)
  have rw: "keeps cfg ?s2 (reward_collator cfg paid c x ?s2)" for x
    using B2 by (simp add: reward_collator_def)
  have del: "\<exists>s'. pay_delegators cfg c snap due ds (reward_collator cfg paid c x ?s2) = Some s' \<and> keeps cfg ?s2 s'" for due ds x
    using pay_delegators_ok [OF laws rw [THEN conjunct1]] rw [THEN conjunct2] by metis
  show ?thesis
  proof (cases "awarded_pts s paid c = 0")
    case True
    then show ?thesis using K [of ?s2] B2 pt by (simp add: pay_one_collator_reward_def ast Let_def)
  next
    case pts: False
    show ?thesis
    proof (cases "snap_delegations snap = []")
      case True
      then show ?thesis using K [OF rw] pt pts by (simp add: pay_one_collator_reward_def ast Let_def)
    next
      case False
      let ?ci = "perbill_mul cfg (perbill_from_rational cfg (awarded_pts s paid c) (points s paid)) (perbill_mul cfg (payout_commission payout) (round_issuance_of payout))"
      let ?due = "perbill_mul cfg (perbill_from_rational cfg (awarded_pts s paid c) (points s paid)) (total_staking_reward payout) - ?ci"
      let ?x = "saturating_add 128 (perbill_mul cfg (perbill_from_rational cfg (st_power (snap_stake snap)) (st_power (snap_total snap))) ?due) ?ci"
      obtain s' where s': "pay_delegators cfg c snap ?due (snap_delegations snap) (reward_collator cfg paid c ?x ?s2) = Some s'" "keeps cfg ?s2 s'"
        using del by blast
      have "pay_one_collator_reward cfg paid payout s = Some (Paid, s')"
        using False pt pts s'(1) by (simp add: pay_one_collator_reward_def ast Let_def)
      then show ?thesis using K [OF s'(2)] by blast
    qed
  qed
qed

lemma handle_delayed_payouts_ok:
  assumes laws: "staking_laws cfg" and delay: "0 < RewardPaymentDelay cfg" and I: "staking_inv cfg s"
  shows "\<exists>s'. handle_delayed_payouts cfg (current (round_state s)) s = Some s' \<and> staking_inv cfg s' \<and> round_state s' = round_state s"
proof -
  let ?now = "current (round_state s)" and ?paid = "current (round_state s) - RewardPaymentDelay cfg"
  have B: "books_ok cfg s" and sel: "selected_ok s" using I by (simp_all add: staking_inv_def)
  show ?thesis
  proof (cases "?now < RewardPaymentDelay cfg \<or> delayed_payouts s ?paid = None")
    case True
    then show ?thesis using I by (auto simp: handle_delayed_payouts_def Let_def)
  next
    case False
    then obtain payout where p: "delayed_payouts s ?paid = Some payout" and le: "\<not> ?now < RewardPaymentDelay cfg" by auto
    then have ne: "?now \<noteq> ?paid" using delay by simp
    obtain r s1 where r: "pay_one_collator_reward cfg ?paid payout s = Some (r, s1)" "pays cfg ?paid s s1"
      using pay_one_collator_reward_ok [OF laws B] by blast
    let ?s2 = "if r = Finished then s1\<lparr>delayed_payouts := (delayed_payouts s1)(?paid := None), points := (points s1)(?paid := 0)\<rparr> else s1"
    have "handle_delayed_payouts cfg ?now s = Some ?s2" using le p r(1) by (simp add: handle_delayed_payouts_def Let_def)
    moreover have "staking_inv cfg ?s2" using r(2) sel ne by (simp add: staking_inv_def selected_ok_def pays_def)
    moreover have "round_state ?s2 = round_state s" using r(2) by (simp add: pays_def)
    ultimately show ?thesis by blast
  qed
qed

section \<open>Blocks\<close>

lemma on_initialize_ok:
  assumes laws: "staking_laws cfg" and delay: "0 < RewardPaymentDelay cfg" and I: "staking_inv cfg s"
    and small: "current (round_state s) < 2 ^ 64 - 1"
  shows "\<exists>s'. on_initialize cfg n s = Some s' \<and> staking_inv cfg s' \<and> current (round_state s') \<le> current (round_state s) + 1"
proof (cases "should_update (round_state s) n")
  case False
  then show ?thesis using handle_delayed_payouts_ok [OF laws delay I] by (auto simp: on_initialize_def)
next
  case True
  let ?r = "round_update n (round_state s)"
  let ?s1 = "s\<lparr>staking_env := on_new_round cfg (current ?r) (staking_env s)\<rparr>"
  let ?s2 = "prepare_staking_payouts cfg (current ?r) ?s1"
  have now: "current ?r = current (round_state s) + 1"
    using small by (simp add: round_update_def saturating_add_def)
  have B: "books_ok cfg s" and sel: "selected_ok s" using I by (simp_all add: staking_inv_def)
  have K: "keeps cfg s ?s2" using prepare_payouts_keeps [of cfg ?s1 "current ?r"] B by simp
  have B2: "books_ok cfg ?s2" using K by simp
  have S2: "set (selected_candidates ?s2) \<subseteq> fst ` set (at_stake ?s2 (current ?r - 1))"
    using sel K now by (simp add: selected_ok_def rest_def)
  obtain a s3 where s3: "select_top_candidates (current ?r) ?s2 = Some (a, s3)" "books_ok cfg s3" "round_state s3 = round_state ?s2"
    "set (selected_candidates s3) \<subseteq> fst ` set (at_stake s3 (current ?r))"
    by (rule select_top_candidates_ok [OF B2 S2])
  obtain cc dc tot where a: "a = (cc, dc, tot)" by (cases a)
  let ?s4 = "deposit_staking_event (NewRound (first ?r) (current ?r) cc tot) (s3\<lparr>round_state := ?r, staked := (staked s3)(current ?r := total_locked s3)\<rparr>)"
  have "on_initialize cfg n s = Some ?s4" using True s3(1) by (simp add: on_initialize_def Let_def a)
  moreover have "staking_inv cfg ?s4" using s3(2,4) by (simp add: staking_inv_def selected_ok_def deposit_staking_event_def) (simp add: books_ok_def)
  moreover have "current (round_state ?s4) = current (round_state s) + 1" using now by (simp add: deposit_staking_event_def)
  ultimately show ?thesis by auto
qed

lemma on_finalize_keeps: "books_ok cfg s \<Longrightarrow> keeps cfg s (on_finalize cfg n s)"
  by (simp add: on_finalize_def award_points_to_block_author_def Let_def)

section \<open>Calls\<close>

text \<open>The calls of the pallet, with their arguments.\<close>

datatype staking_call =
    SetStakingExpectation perbill "perbill option"
  | SetInflation perbill_range
  | SetParachainBondAccount account_id
  | SetParachainBondReservePercent percent
  | SetTotalSelected u32
  | SetCollatorCommission perbill
  | SetBlocksPerRound u32
  | JoinCandidates balance u32
  | ScheduleLeaveCandidates u32
  | ExecuteLeaveCandidates account_id u32
  | CancelLeaveCandidates u32
  | GoOffline
  | GoOnline
  | CandidateBondMore balance
  | ScheduleCandidateBondLess balance
  | ExecuteCandidateBondLess account_id
  | CancelCandidateBondLess
  | Delegate account_id balance u32 u32
  | DelegateWithAutoCompound account_id balance percent u32 u32 u32
  | ScheduleLeaveDelegators
  | ExecuteLeaveDelegators account_id u32
  | CancelLeaveDelegators
  | ScheduleRevokeDelegation account_id
  | DelegatorBondMore account_id balance
  | ScheduleDelegatorBondLess account_id balance
  | ExecuteDelegationRequest account_id account_id
  | CancelDelegationRequest account_id
  | SetAutoCompound account_id percent u32 u32
  | HotfixRemoveDelegationRequests "account_id list"

fun dispatch_staking ::
  "('env, 'fx) staking_config \<Rightarrow> origin \<Rightarrow> staking_call \<Rightarrow> 'env staking \<Rightarrow> 'env call_result" where
  "dispatch_staking cfg o' (SetStakingExpectation i d) s = Some (set_staking_expectation cfg o' i d s)"
| "dispatch_staking cfg o' (SetInflation r) s = set_inflation cfg o' r s"
| "dispatch_staking cfg o' (SetParachainBondAccount a) s = Some (set_parachain_bond_account cfg o' a s)"
| "dispatch_staking cfg o' (SetParachainBondReservePercent p) s = Some (set_parachain_bond_reserve_percent cfg o' p s)"
| "dispatch_staking cfg o' (SetTotalSelected n) s = Some (set_total_selected cfg o' n s)"
| "dispatch_staking cfg o' (SetCollatorCommission p) s = Some (set_collator_commission o' p s)"
| "dispatch_staking cfg o' (SetBlocksPerRound n) s = set_blocks_per_round cfg o' n s"
| "dispatch_staking cfg o' (JoinCandidates b n) s = Some (join_candidates cfg o' b n s)"
| "dispatch_staking cfg o' (ScheduleLeaveCandidates n) s = Some (schedule_leave_candidates cfg o' n s)"
| "dispatch_staking cfg o' (ExecuteLeaveCandidates c n) s = execute_leave_candidates cfg o' c n s"
| "dispatch_staking cfg o' (CancelLeaveCandidates n) s = Some (cancel_leave_candidates o' n s)"
| "dispatch_staking cfg o' GoOffline s = Some (go_offline o' s)"
| "dispatch_staking cfg o' GoOnline s = Some (go_online o' s)"
| "dispatch_staking cfg o' (CandidateBondMore a) s = Some (candidate_bond_more cfg o' a s)"
| "dispatch_staking cfg o' (ScheduleCandidateBondLess a) s = Some (schedule_candidate_bond_less cfg o' a s)"
| "dispatch_staking cfg o' (ExecuteCandidateBondLess c) s = Some (execute_candidate_bond_less cfg o' c s)"
| "dispatch_staking cfg o' CancelCandidateBondLess s = Some (cancel_candidate_bond_less o' s)"
| "dispatch_staking cfg o' (Delegate c a h1 h2) s = delegate cfg o' c a h1 h2 s"
| "dispatch_staking cfg o' (DelegateWithAutoCompound c a p h1 h2 h3) s = delegate_with_auto_compound cfg o' c a p h1 h2 h3 s"
| "dispatch_staking cfg o' ScheduleLeaveDelegators s = Some (schedule_leave_delegators cfg o' s)"
| "dispatch_staking cfg o' (ExecuteLeaveDelegators d n) s = execute_leave_delegators cfg o' d n s"
| "dispatch_staking cfg o' CancelLeaveDelegators s = Some (cancel_leave_delegators o' s)"
| "dispatch_staking cfg o' (ScheduleRevokeDelegation c) s = Some (schedule_revoke_delegation cfg o' c s)"
| "dispatch_staking cfg o' (DelegatorBondMore c a) s = delegator_bond_more cfg o' c a s"
| "dispatch_staking cfg o' (ScheduleDelegatorBondLess c a) s = Some (schedule_delegator_bond_less cfg o' c a s)"
| "dispatch_staking cfg o' (ExecuteDelegationRequest d c) s = execute_delegation_request cfg o' d c s"
| "dispatch_staking cfg o' (CancelDelegationRequest c) s = Some (cancel_delegation_request o' c s)"
| "dispatch_staking cfg o' (SetAutoCompound c p h1 h2) s = Some (set_auto_compound o' c p h1 h2 s)"
| "dispatch_staking cfg o' (HotfixRemoveDelegationRequests cs) s = Some (hotfix_remove_delegation_requests_exited_candidates o' cs s)"

text \<open>
  What can happen to the storage: a call of the pallet, whose error rolls it back; the hooks of a
  block; and anything that other pallets do to their own storage, such as the free balances.
\<close>

datatype 'env staking_step =
    StakingCall origin staking_call
  | BeginBlock block_number
  | EndBlock block_number
  | OtherPallets 'env

fun staking_apply :: "('env, 'fx) staking_config \<Rightarrow> 'env staking_step \<Rightarrow> 'env staking \<Rightarrow> 'env staking option" where
  "staking_apply cfg (StakingCall o' c) s =
     map_option (\<lambda>r. case r of Inl _ \<Rightarrow> s | Inr s' \<Rightarrow> s') (dispatch_staking cfg o' c s)"
| "staking_apply cfg (BeginBlock n) s = on_initialize cfg n s"
| "staking_apply cfg (EndBlock n) s = Some (on_finalize cfg n s)"
| "staking_apply cfg (OtherPallets env) s = Some (s\<lparr>staking_env := env\<rparr>)"

fun staking_run :: "('env, 'fx) staking_config \<Rightarrow> 'env staking_step list \<Rightarrow> 'env staking \<Rightarrow> 'env staking option" where
  "staking_run cfg [] s = Some s"
| "staking_run cfg (x # xs) s = Option.bind (staking_apply cfg x s) (staking_run cfg xs)"

text \<open>The two calls that compute with fixed-point numbers, whose library panics on some arguments.\<close>

fun is_inflation_call :: "staking_call \<Rightarrow> bool" where
  "is_inflation_call (SetInflation _) = True"
| "is_inflation_call (SetBlocksPerRound _) = True"
| "is_inflation_call _ = False"

fun plain_step :: "'env staking_step \<Rightarrow> bool" where
  "plain_step (StakingCall _ c) = (\<not> is_inflation_call c)"
| "plain_step _ = True"

lemma schedule_delegator_bond_less_ok:
  assumes "staking_laws cfg" and "books_ok cfg s"
  shows "ok_r (keeps cfg s) (schedule_delegator_bond_less cfg o' c a s)"
  using schedule_decrease_ok [OF assms(2), of "Stake a a" c] staking_lawsD(2) [OF assms(1)]
  by (simp add: schedule_delegator_bond_less_def balanced_def)

lemma hotfix_ok:
  assumes "books_ok cfg s"
  shows "ok_r (keeps cfg s) (hotfix_remove_delegation_requests_exited_candidates o' cs s)"
proof -
  have "fold (\<lambda>c. set_requests c []) cs s = s" if "\<forall>c\<in>set cs. scheduled_requests s c = []" for cs
    using that
  proof (induction cs)
    case (Cons c cs)
    then have "set_requests c [] s = s" by (simp add: set_requests_def fun_upd_idem)
    with Cons show ?case by simp
  qed simp
  then show ?thesis using assms by (auto simp: hotfix_remove_delegation_requests_exited_candidates_def result_simps)
qed

lemma governance_ok:
  assumes "books_ok cfg s"
  shows "ok_r (keeps cfg s) (set_staking_expectation cfg o' i d s)" "ok_r (keeps cfg s) (set_parachain_bond_account cfg o' a s)"
    "ok_r (keeps cfg s) (set_parachain_bond_reserve_percent cfg o' p s)" "ok_r (keeps cfg s) (set_total_selected cfg o' n s)"
    "ok_r (keeps cfg s) (set_collator_commission o' p' s)"
  using assms by (simp_all add: set_staking_expectation_def set_parachain_bond_account_def set_parachain_bond_reserve_percent_def
      set_total_selected_def set_collator_commission_def Let_def)

lemma delegate_calls_ok:
  assumes laws: "staking_laws cfg" and B: "books_ok cfg s"
  shows "ok_p (keeps cfg s) (delegate cfg o' c a h1 h2 s)" "ok_p (keeps cfg s) (delegate_with_auto_compound cfg o' c a p h1 h2 h3 s)"
  using delegate_ok [OF laws B] staking_lawsD(2) [OF laws]
  by (simp_all add: delegate_def delegate_with_auto_compound_def)

lemma dispatch_ok:
  assumes laws: "staking_laws cfg" and B: "books_ok cfg s" and "\<not> is_inflation_call call"
  shows "ok_p (keeps cfg s) (dispatch_staking cfg o' call s)"
  using assms(3)
    governance_ok [OF B] join_candidates_ok [OF laws B] schedule_leave_candidates_ok [OF B] execute_leave_candidates_ok [OF B]
    cancel_leave_candidates_ok [OF B] go_offline_ok [OF B] go_online_ok [OF B] candidate_bond_more_ok [OF B]
    schedule_candidate_bond_less_ok [OF B] execute_candidate_bond_less_ok [OF B] cancel_candidate_bond_less_ok [OF B]
    delegate_calls_ok [OF laws B] schedule_revoke_all_ok [OF B] execute_revoke_all_ok [OF laws B] cancel_revoke_all_ok [OF B]
    schedule_revoke_ok [OF B] delegator_bond_more_ok [OF laws B] schedule_delegator_bond_less_ok [OF laws B]
    execute_request_ok [OF laws B] cancel_request_ok [OF B] set_auto_compound_ok [OF B] hotfix_ok [OF B]
  by (cases call)
    (simp_all add: schedule_leave_delegators_def execute_leave_delegators_def cancel_leave_delegators_def
      schedule_revoke_delegation_def execute_delegation_request_def cancel_delegation_request_def)

lemma staking_apply_ok:
  assumes laws: "staking_laws cfg" and delay: "0 < RewardPaymentDelay cfg" and I: "staking_inv cfg s"
    and small: "current (round_state s) < 2 ^ 64 - 1" and p: "plain_step x"
  shows "\<exists>s'. staking_apply cfg x s = Some s' \<and> staking_inv cfg s' \<and> current (round_state s') \<le> current (round_state s) + 1"
proof (cases x)
  case (StakingCall o' call)
  have B: "books_ok cfg s" using I by (simp add: staking_inv_def)
  have "ok_p (keeps cfg s) (dispatch_staking cfg o' call s)" using dispatch_ok [OF laws B] p StakingCall by simp
  then obtain r where r: "dispatch_staking cfg o' call s = Some r" "\<And>s'. r = Inr s' \<Longrightarrow> keeps cfg s s'"
    by (auto simp: ok_p_def ok_r_def)
  show ?thesis
  proof (cases r)
    case (Inl e)
    then show ?thesis using I StakingCall r(1) by simp
  next
    case (Inr s')
    then show ?thesis using keeps_inv [OF I r(2) [OF Inr]] StakingCall r(1) by simp
  qed
next
  case (BeginBlock n)
  then show ?thesis using on_initialize_ok [OF laws delay I small] by simp
next
  case (EndBlock n)
  then show ?thesis using keeps_inv [OF I on_finalize_keeps] I by (auto simp: staking_inv_def)
next
  case (OtherPallets env)
  then show ?thesis using keeps_inv [OF I, of "s\<lparr>staking_env := env\<rparr>"] I by (simp add: staking_inv_def)
qed

lemma staking_run_ok:
  assumes laws: "staking_laws cfg" and delay: "0 < RewardPaymentDelay cfg"
  shows "staking_inv cfg s \<Longrightarrow> current (round_state s) + length xs < 2 ^ 64 \<Longrightarrow> list_all plain_step xs \<Longrightarrow>
    \<exists>s'. staking_run cfg xs s = Some s' \<and> staking_inv cfg s'"
proof (induction xs arbitrary: s)
  case (Cons x xs)
  obtain s1 where s1: "staking_apply cfg x s = Some s1" "staking_inv cfg s1" "current (round_state s1) \<le> current (round_state s) + 1"
    using staking_apply_ok [OF laws delay Cons.prems(1), of x] Cons.prems(2,3) by auto
  then have "\<exists>s'. staking_run cfg xs s1 = Some s' \<and> staking_inv cfg s'" using Cons.IH [OF s1(2)] Cons.prems(2,3) by simp
  then show ?case using s1(1) by simp
qed simp

section \<open>Genesis\<close>

lemma empty_staking_ok: "staking_inv cfg (empty_staking info env)"
  by (simp add: staking_inv_def selected_ok_def books_ok_def books_def empty_staking_def cand_ok_def pool_entry_def del_ok_def
      backing_def pledges_def reqs_ok_def)

lemma genesis_candidates_ok:
  assumes laws: "staking_laws cfg"
  shows "books_ok cfg s \<Longrightarrow> genesis_candidates cfg xs n s = Some s' \<Longrightarrow> keeps cfg s s'"
proof (induction xs arbitrary: n s)
  case (Cons x xs)
  obtain c b where x: "x = (c, b)" by (cases x)
  show ?case
  proof (cases "get_collator_stakable_free_balance cfg c s")
    case (Inl e)
    then show ?thesis using Cons x by simp
  next
    case (Inr free)
    then have f: "\<not> free < b" using Cons.prems(2) by (auto simp: x)
    show ?thesis
    proof (cases "join_candidates cfg (Signed c) b n s")
      case (Inl e)
      then show ?thesis using Cons Inr f x by simp
    next
      case join: (Inr s1)
      have K: "keeps cfg s s1" using join_candidates_ok [OF laws Cons.prems(1), of "Signed c" b n] join by simp
      then have "keeps cfg s1 s'" using Cons.IH [of s1] Cons.prems(2) Inr f join by (auto simp: x)
      with K show ?thesis by simp
    qed
  qed
qed simp

lemma genesis_delegations_ok:
  assumes laws: "staking_laws cfg"
  shows "books_ok cfg s \<Longrightarrow> genesis_delegations cfg xs col au del s = Some s' \<Longrightarrow> keeps cfg s s'"
proof (induction xs arbitrary: col au del s)
  case (Cons x xs)
  obtain who c b p where x: "x = (who, c, b, p)" by (cases x)
  let ?r = "delegate_with_auto_compound cfg (Signed who) c b p (col c) (au c) (del who) s"
  obtain free where f: "get_delegator_stakable_free_balance cfg who s = Inr free" "\<not> free < Stake b b"
    using Cons.prems(2) by (auto simp: x staking_lawsD(2) [OF laws] split: sum.splits if_splits)
  have "ok_p (keeps cfg s) ?r" by (rule delegate_calls_ok(2) [OF laws Cons.prems(1)])
  then obtain r where r: "?r = Some r" "\<And>s1. r = Inr s1 \<Longrightarrow> keeps cfg s s1" by (auto simp: ok_p_def ok_r_def)
  show ?case
  proof (cases r)
    case (Inl e)
    then show ?thesis using Cons r(1) f by (simp add: x staking_lawsD(2) [OF laws])
  next
    case (Inr s1)
    have K: "keeps cfg s s1" by (rule r(2) [OF Inr])
    then have "keeps cfg s1 s'"
      using Cons.IH [of s1] Cons.prems(2) r(1) Inr f by (auto simp: x staking_lawsD(2) [OF laws])
    with K show ?thesis by simp
  qed
qed simp

lemma genesis_build_ok:
  assumes laws: "staking_laws cfg" and g: "genesis_build cfg g (empty_staking info env) = Some s"
  shows "staking_inv cfg s" "current (round_state s) = 1"
proof -
  have B0: "books_ok cfg (empty_staking info env)" using empty_staking_ok [of cfg info env] by (simp add: staking_inv_def)
  obtain s1 s2 where s1: "genesis_candidates cfg (g_candidates g) 0 (empty_staking info env) = Some s1"
    and s2: "genesis_delegations cfg (g_delegations g) (\<lambda>_. 0) (\<lambda>_. 0) (\<lambda>_. 0) s1 = Some s2"
    using g by (auto simp: genesis_build_def Option.bind_eq_Some_conv split: if_splits)
  have K1: "keeps cfg (empty_staking info env) s1" by (rule genesis_candidates_ok [OF laws B0 s1])
  have K2: "keeps cfg s1 s2" by (rule genesis_delegations_ok [OF laws K1 [THEN conjunct1] s2])
  let ?s = "s2\<lparr>collator_commission := g_collator_commission g,
           parachain_bond_info := \<lparr>pb_account = 0, pb_percent = g_parachain_bond_reserve_percent g\<rparr>,
           total_selected := g_num_selected_candidates g\<rparr>"
  have B: "books_ok cfg ?s" using K2 by simp
  have "rest s2 = rest (empty_staking info env)" using K1 K2 by simp
  then have sel: "set (selected_candidates ?s) \<subseteq> fst ` set (at_stake ?s (1 - 1))" by (simp add: rest_def empty_staking_def)
  obtain a s3 where s3: "select_top_candidates 1 ?s = Some (a, s3)" "books_ok cfg s3" "round_state s3 = round_state ?s"
    "set (selected_candidates s3) \<subseteq> fst ` set (at_stake s3 1)"
    by (rule select_top_candidates_ok [OF B sel])
  obtain cc dc tot where a: "a = (cc, dc, tot)" by (cases a)
  obtain ic where "s = deposit_staking_event (NewRound 0 1 cc tot) (s3\<lparr>round_state := \<lparr>current = 1, first = 0, round_length = g_blocks_per_round g\<rparr>,
                  staked := (staked s3)(1 := total_locked s3), inflation_config := ic\<rparr>)"
    using g s1 s2 s3(1) by (auto simp: genesis_build_def a Let_def Option.bind_eq_Some_conv split: if_splits)
  then show "staking_inv cfg s" "current (round_state s) = 1"
    using s3(2,4) by (simp_all add: staking_inv_def selected_ok_def deposit_staking_event_def books_ok_def)
qed

section \<open>What every run keeps\<close>

lemma staking_reached:
  assumes "staking_laws cfg" and "0 < RewardPaymentDelay cfg" and "genesis_build cfg g (empty_staking info env) = Some s0"
    and "list_all plain_step xs" and "length xs < 2 ^ 64 - 1"
  obtains s where "staking_run cfg xs s0 = Some s" "staking_inv cfg s"
  using staking_run_ok [OF assms(1,2) genesis_build_ok(1) [OF assms(1,3)], of xs] genesis_build_ok(2) [OF assms(1,3)] assms(4,5)
  by auto



lemma execute_revoke_effect:
  assumes laws: "staking_laws cfg" and B: "books_ok cfg s" and r: "r \<in> set (scheduled_requests s c)" "req_action r = Revoke st"
    and due: "when_executable r \<le> current (round_state s)" and D: "delegator_state s (req_delegator r) = Some D"
    and allowed: "length (delegations D) = 1 \<or> st_amount st + MinDelegatorStk cfg \<le> locked D"
  shows "\<exists>s'. execute_delegation_request cfg (Signed caller) (req_delegator r) c s = Some (Inr s') \<and>
    backing (top_delegations s' c) (bottom_delegations s' c) (req_delegator r) = None \<and>
    pledges (delegator_state s' (req_delegator r)) c = None \<and>
    req_delegator r \<notin> req_delegator ` set (scheduled_requests s' c) \<and>
    locked D = unwrap_or (delegator_locks s' (req_delegator r)) 0 + st_amount st"
proof -
  let ?who = "req_delegator r" and ?rs = "scheduled_requests s c"
  have dist: "distinct (map req_delegator ?rs)" by (rule books_okD(3) [OF B])
  obtain i where i: "position (\<lambda>q. req_delegator q = ?who) ?rs = Some i"
    using r(1) by (cases "position (\<lambda>q. req_delegator q = ?who) ?rs") (auto simp: position_None)
  then have at: "?rs ! i = r"
    using position_Some [OF i] r(1) dist by (metis distinct_map inj_onD nth_mem)
  have st: "pledges (Some D) c = Some st"
    using books_request [OF B r(1)] r(2) D by (auto simp: is_revoke_def)
  have core: "del_core ?who D" using books_okD(2) [OF B, of ?who] D by (simp add: del_ok_def)
  have al: "length (delegations D) = 1 \<or> st_amount st \<le> st_amount (total D) - MinDelegatorStk cfg"
    using allowed core by (auto simp: del_core_def)
  note drop = drop_request [OF B i]
  obtain D' s1 where s1: "revoke_delegator_stake cfg c ?who st D s = Some (Inr (D', s1))"
    "keeps cfg s (set_requests c (remove_at i ?rs) s1)" "pledges (delegator_state s1 ?who) c = None"
    "delegator_locks s1 ?who = (if delegations D' = [] then None else Some (locked D'))" "locked D = locked D' + st_amount st"
    using revoke_ok [OF laws B D st drop al] .
  let ?s = "set_requests c (remove_at i ?rs) (deposit_staking_event (DelegationRevoked ?who c st) s1)"
  have run: "execute_delegation_request cfg (Signed caller) ?who c s = Some (Inr ?s)"
    using i at r(2) due D s1(1) by (simp add: execute_delegation_request_def delegation_execute_scheduled_request_def Let_def)
  have B': "books_ok cfg ?s" using s1(2) by (simp add: books_ok_def)
  have "backing (top_delegations ?s c) (bottom_delegations ?s c) ?who = None"
    using booksD(5) [OF B' [unfolded books_ok_def], of c ?who] s1(3) by simp
  moreover have "locked D = unwrap_or (delegator_locks ?s ?who) 0 + st_amount st"
    using s1(4,5) by (auto simp: locked_def)
  ultimately show ?thesis using run s1(3) drop(3) by simp
qed


section \<open>A small chain\<close>

definition demo_staking :: "(unit, nat) staking_config" where
  "demo_staking =
     \<lparr>MinBlocksPerRound = 3, LeaveCandidatesDelay = 1, CandidateBondLessDelay = 1, LeaveDelegatorsDelay = 1,
      RevokeDelegationDelay = 1, DelegationBondLessDelay = 1, RewardPaymentDelay = 2, MinSelectedCandidates = 1,
      MaxTopDelegationsPerCandidate = 1, MaxBottomDelegationsPerCandidate = 1, MaxDelegationsPerDelegator = 4,
      MinCandidateStk = 10, MinDelegation = 3, MinDelegatorStk = 5,
      monetary_governance_origin = ensure_root, block_author = (\<lambda>_. 1), on_new_round = (\<lambda>_ env. env),
      hook_power = unit_power, get_collator_stakable_balance = (\<lambda>_ _. Inr 100),
      payout_collator_reward = (\<lambda>_ _ _ env. env), hook_compound = (\<lambda>_ _ env. (Inr (), env)),
      free_balance = (\<lambda>_ _. 100), total_issuance = (\<lambda>_. 1000), deposit_into_existing = (\<lambda>_ a env. Some (a, env)),
      perbill_from_rational = (\<lambda>a b. if b = 0 then 10 ^ 9 else min (10 ^ 9) (a * 10 ^ 9 div b)),
      perbill_mul = (\<lambda>p a. p * a div 10 ^ 9), perbill_add = (\<lambda>a b. min (10 ^ 9) (a + b)), perbill_sub = (\<lambda>a b. a - b),
      perbill_times = (\<lambda>a b. a * b div 10 ^ 9), perbill_from_parts = (\<lambda>p. min (10 ^ 9) p),
      saturating_reciprocal_mul_floor = (\<lambda>p a. if p = 0 then 2 ^ 128 - 1 else min (2 ^ 128 - 1) (a * 10 ^ 9 div p)),
      percent_mul = (\<lambda>p a. p * a div 100), percent_mul_ceil = (\<lambda>p a. (p * a + 99) div 100),
      compute_inflation = (\<lambda>_ _ _. 0), fx_from_num = (\<lambda>n. n), fx_add = (+), fx_sub = (-), fx_mul = (*),
      fx_div = checked_div, floatpow = (\<lambda>x _. Some x), fx_ceil_u32 = (\<lambda>x. x)\<rparr>"

lemma demo_staking_laws: "staking_laws demo_staking" "0 < RewardPaymentDelay demo_staking"
  by (simp_all add: staking_laws_def caps_ok_def demo_staking_def)

definition demo_genesis :: staking_genesis where
  "demo_genesis =
     \<lparr>g_candidates = [], g_delegations = [],
      g_inflation_config = \<lparr>wr_ideal_staked = 5, wr_annual = \<lparr>range_min = 1, range_ideal = 2\<rparr>, wr_decay_rate = 1\<rparr>,
      g_collator_commission = 0, g_parachain_bond_reserve_percent = 0, g_blocks_per_round = 3, g_num_selected_candidates = 1\<rparr>"

definition demo_info :: inflation_info where
  "demo_info = \<lparr>ideal_staked = 0, annual = \<lparr>range_min = 0, range_ideal = 0\<rparr>, round_inflation = \<lparr>range_min = 0, range_ideal = 0\<rparr>, decay_rate = 0\<rparr>"

lemma demo_fields [simp]:
  "RevokeDelegationDelay demo_staking = 1" "MinSelectedCandidates demo_staking = 1"
  "MaxTopDelegationsPerCandidate demo_staking = 1" "MaxBottomDelegationsPerCandidate demo_staking = 1"
  "MaxDelegationsPerDelegator demo_staking = 4" "MinCandidateStk demo_staking = 10" "MinDelegation demo_staking = 3"
  "MinDelegatorStk demo_staking = 5" "hook_power demo_staking = unit_power"
  "get_collator_stakable_balance demo_staking = (\<lambda>_ _. Inr 100)" "free_balance demo_staking = (\<lambda>_ _. 100)"
  "fx_from_num demo_staking = (\<lambda>n. n)" "fx_add demo_staking = (+)" "fx_sub demo_staking = (-)" "fx_mul demo_staking = (*)"
  "fx_div demo_staking = checked_div" "floatpow demo_staking = (\<lambda>x _. Some x)" "fx_ceil_u32 demo_staking = (\<lambda>x. x)"
  "perbill_from_parts demo_staking = (\<lambda>p. min (10 ^ 9) p)" "on_new_round demo_staking = (\<lambda>_ env. env)"
  "RewardPaymentDelay demo_staking = 2"
  by (simp_all add: demo_staking_def)

definition demo_start :: "unit staking" where
  "demo_start = (empty_staking demo_info ())\<lparr>total_selected := 1, round_state := \<lparr>current = 1, first = 0, round_length = 3\<rparr>,
     inflation_config := \<lparr>ideal_staked = 5, annual = \<lparr>range_min = 1, range_ideal = 2\<rparr>, round_inflation = \<lparr>range_min = 0, range_ideal = 0\<rparr>, decay_rate = 1\<rparr>,
     staking_events := [NewRound 0 1 0 stake_zero]\<rparr>"

lemma demo_start_eq: "genesis_build demo_staking demo_genesis (empty_staking demo_info ()) = Some demo_start"
  by (simp add: genesis_build_def demo_genesis_def select_top_candidates_def compute_top_candidates_def new_inflation_info_def
      annual_to_round_def rounds_per_year_def BLOCKS_PER_YEAR_def perbill_annual_to_perbill_round_def annual_rate_to_round_def
      checked_div_def empty_staking_def Let_def deposit_staking_event_def demo_start_def fun_upd_idem)

definition demo_steps :: "unit staking_step list" where
  "demo_steps =
     [StakingCall (Signed 1) (JoinCandidates 20 0), StakingCall (Signed 2) (Delegate 1 8 0 0),
      StakingCall (Signed 3) (DelegateWithAutoCompound 1 6 50 1 0 0), StakingCall (Signed 2) (ScheduleRevokeDelegation 1),
      BeginBlock 3, EndBlock 3]"

lemmas staking_eval = demo_steps_def demo_start_def empty_staking_def join_candidates_def delegate_def delegate_with_auto_compound_def
  pallet_delegate_with_auto_compound_def get_collator_stakable_free_balance_def get_delegator_stakable_free_balance_def
  unit_power_def new_stake_def is_candidate_def is_delegator_def Let_def new_candidate_metadata_def empty_delegations_def
  set_insert_sorted set_remove_sorted insert_greatest_to_least_place put_candidate_def put_top_def put_bottom_def put_delegator_def
  set_collator_lock_def set_delegator_lock_def deposit_staking_event_def stake_add_def stake_sub_def stake_zero_def saturating_add_def
  less_stake_def less_eq_stake_def new_delegator_def set_from_sorted add_delegation_def add_top_delegation_def add_bottom_delegation_def
  insert_sorted_greatest_to_least_def reset_top_data_def reset_bottom_data_def
  lowest_delegation_amount_def highest_delegation_amount_def capacity_of_def update_active_def is_active_def adjust_bond_lock_def
  schedule_revoke_delegation_def delegation_schedule_revoke_def get_bond_amount_def set_requests_def
  on_initialize_def should_update_def round_update_def wrapping_sub_def prepare_staking_payouts_def select_top_candidates_def
  compute_top_candidates_def collator_snapshot_of_def get_rewardable_delegators_def put_at_stake_def unwrap_or_def
  on_finalize_def award_points_to_block_author_def
  stake_is_zero_def set_for_delegator_def binary_search_by_def binary_search_loop.simps insert_at_def cmp_def

lemma demo_run:
  "\<exists>s D r. staking_run demo_staking demo_steps demo_start = Some s \<and> candidate_info s 1 \<noteq> None \<and>
     r \<in> set (scheduled_requests s 1) \<and> req_delegator r = 2 \<and> req_action r = Revoke (Stake 8 8) \<and>
     when_executable r \<le> current (round_state s) \<and> delegator_state s 2 = Some D \<and> length (delegations D) = 1 \<and> locked D = 8"
  by (simp add: staking_eval ensure_signed_def locked_def)

lemma demo_steps_ok: "list_all plain_step demo_steps" "length demo_steps < 2 ^ 64 - 1"
  by (simp_all add: demo_steps_def)




section \<open>The order of delegations and the choice of collators\<close>

lemma place_takeWhile:
  "descending key xs \<Longrightarrow> place key d xs = takeWhile (\<lambda>x. key d \<le> key x) xs @ d # dropWhile (\<lambda>x. key d \<le> key x) xs"
  by (induction xs) auto

text \<open>
  C36: Inserting a delegation by binary search into delegations that go from the greatest stake to the least
  is the linear insertion behind every delegation with at least the same stake: equal stakes keep the order
  in which they came. The total grows by the stake of the new delegation.
\<close>

theorem insertion_first_come:
  assumes "descending bond_stake (dels d)"
  shows "insert_sorted_greatest_to_least b d =
    \<lparr>dels = takeWhile (\<lambda>x. bond_stake b \<le> bond_stake x) (dels d) @ b # dropWhile (\<lambda>x. bond_stake b \<le> bond_stake x) (dels d),
     dels_total = stake_add (dels_total d) (bond_stake b)\<rparr>"
  using assms by (cases d) (simp add: insert_sorted_greatest_to_least_def insert_greatest_to_least_place place_takeWhile)

lemma insertion_first_come_witness:
  "insert_sorted_greatest_to_least \<lparr>owner = 9, bond_stake = Stake 5 5\<rparr>
     \<lparr>dels = [\<lparr>owner = 1, bond_stake = Stake 7 7\<rparr>, \<lparr>owner = 2, bond_stake = Stake 5 5\<rparr>, \<lparr>owner = 3, bond_stake = Stake 4 4\<rparr>],
      dels_total = Stake 16 16\<rparr> =
   \<lparr>dels = [\<lparr>owner = 1, bond_stake = Stake 7 7\<rparr>, \<lparr>owner = 2, bond_stake = Stake 5 5\<rparr>, \<lparr>owner = 9, bond_stake = Stake 5 5\<rparr>,
            \<lparr>owner = 3, bond_stake = Stake 4 4\<rparr>], dels_total = Stake 21 21\<rparr>"
  by (subst insertion_first_come) (simp_all add: less_eq_stake_def stake_add_def saturating_add_def)

text \<open>
  C37: The collators chosen for a round are the candidates of the pool with the greatest stakes, as many as
  \<open>TotalSelected\<close> allows, ties decided by the account: they are returned in ascending order of the
  accounts, none twice, and every candidate that is not chosen comes after every chosen one.
\<close>

theorem top_candidates_chosen:
  assumes pool: "strictly_sorted owner (candidate_pool s)"
  shows "set (compute_top_candidates s) \<subseteq> owner ` set (candidate_pool s) \<and>
    length (compute_top_candidates s) = min (total_selected s) (length (candidate_pool s)) \<and>
    sorted_wrt (<) (compute_top_candidates s) \<and>
    (\<forall>b\<in>set (candidate_pool s). \<forall>b'\<in>set (candidate_pool s).
       owner b' \<in> set (compute_top_candidates s) \<longrightarrow> owner b \<notin> set (compute_top_candidates s) \<longrightarrow>
       (bond_stake b, owner b) < (bond_stake b', owner b'))"
proof -
  let ?P = "candidate_pool s" and ?n = "total_selected s" and ?key = "\<lambda>b. (bond_stake b, owner b)"
  consider "?n = 0" | "?n \<noteq> 0" "length ?P \<le> ?n" | "?n \<noteq> 0" "?n < length ?P" by linarith
  then show ?thesis
  proof cases
    case 1
    then show ?thesis by (simp add: compute_top_candidates_def)
  next
    case 2
    then have "compute_top_candidates s = map owner ?P" by (simp add: compute_top_candidates_def Let_def)
    then show ?thesis using 2 pool by (auto simp: strictly_sorted_map)
  next
    case 3
    let ?S = "sort_greatest_to_least_by ?key ?P"
    have top: "compute_top_candidates s = sort (map owner (take ?n ?S))" using 3 by (simp add: compute_top_candidates_def Let_def)
    have dP: "distinct (map owner ?P)" using pool by (rule strictly_sorted_distinct)
    have dS: "distinct (map owner ?S)"
      using mset_eq_imp_distinct_iff [of "map owner ?S" "map owner ?P"] dP by simp
    have parts: "set (take ?n ?S) \<union> set (drop ?n ?S) = set ?P"
      using set_append [of "take ?n ?S" "drop ?n ?S"] by (simp only: append_take_drop_id sort_greatest_to_least_by_simps)
    have "descending ?key (take ?n ?S @ drop ?n ?S)" using descending_sort by (simp only: append_take_drop_id)
    then have desc: "?key b \<le> ?key b'" if "b' \<in> set (take ?n ?S)" "b \<in> set (drop ?n ?S)" for b b'
      using that unfolding sorted_wrt_append by blast
    have less: "?key b < ?key b'"
      if b: "b \<in> set ?P" "b' \<in> set ?P" "owner b' \<in> owner ` set (take ?n ?S)" "owner b \<notin> owner ` set (take ?n ?S)" for b b'
    proof -
      have inj: "inj_on owner (set ?P)" using dP by (simp add: distinct_map)
      obtain x where x: "x \<in> set (take ?n ?S)" "owner x = owner b'" using b(3) by auto
      have "x \<in> set ?P" using in_set_takeD [OF x(1)] by simp
      then have b': "b' \<in> set (take ?n ?S)" using inj_onD [OF inj x(2)] b(2) x(1) by simp
      have "b \<in> set (drop ?n ?S)" using b(1,4) parts by blast
      then have "?key b \<le> ?key b'" using desc b' by blast
      moreover have "owner b \<noteq> owner b'" using b(3,4) by auto
      ultimately show ?thesis by (auto simp: less_le)
    qed
    have "distinct (map owner (take ?n ?S))" using dS by (simp add: take_map [symmetric])
    then have "sorted_wrt (<) (compute_top_candidates s)"
      by (simp add: top strict_sorted_iff)
    then show ?thesis using 3 less top_candidates_pool [of s] by (auto simp: top)
  qed
qed

lemma top_candidates_chosen_witness:
  "strictly_sorted owner (candidate_pool (demo_start\<lparr>candidate_pool := [\<lparr>owner = 1, bond_stake = Stake 7 7\<rparr>, \<lparr>owner = 2, bond_stake = Stake 9 9\<rparr>]\<rparr>)) \<and>
   length (compute_top_candidates (demo_start\<lparr>candidate_pool := [\<lparr>owner = 1, bond_stake = Stake 7 7\<rparr>, \<lparr>owner = 2, bond_stake = Stake 9 9\<rparr>]\<rparr>)) = 1"
proof -
  let ?s = "demo_start\<lparr>candidate_pool := [\<lparr>owner = 1, bond_stake = Stake 7 7\<rparr>, \<lparr>owner = 2, bond_stake = Stake 9 9\<rparr>]\<rparr>"
  have so: "strictly_sorted owner (candidate_pool ?s)" by simp
  show ?thesis using top_candidates_chosen [OF so] so by (simp add: demo_start_def)
qed

end
