(* ===== verification/Collator_Selection.thy ===== *)
theory Collator_Selection
  imports Dispatch "HOL-Library.Sublist"
begin

text \<open>
  The pallet \<open>pallets/collator-selection\<close>: the fixed collators (invulnerables), the candidates who
  reserve a bond, and the session manager that kicks candidates who stopped producing blocks.

  The currency and the session keys belong to other pallets: \<open>col_env\<close> is their storage, and their
  functions are fields of the configuration. A \<open>BoundedVec\<close> is a list; where the code fails or
  panics beyond the bound, so does the model (\<^const>\<open>None\<close> is a panic).
\<close>

section \<open>Types\<close>

record col_candidate =
  col_who :: account_id
  col_deposit :: balance

datatype collator_error =
    TooManyCandidates
  | TooFewCandidates
  | Unknown
  | Permission
  | AlreadyCandidate
  | NotCandidate
  | TooManyInvulnerables
  | AlreadyInvulnerable
  | NoAssociatedValidatorId
  | ValidatorNotRegistered

datatype collator_event =
    NewInvulnerables "account_id list"
  | NewDesiredCandidates u32
  | NewCandidacyBond balance
  | CandidateAdded account_id balance
  | CandidateRemoved account_id

record 'env collator_state =
  col_block :: block_number
  invulnerables :: "account_id list"
  col_candidates :: "col_candidate list"
  last_authored_block :: "account_id \<rightharpoonup> block_number"
  desired_candidates :: u32
  candidacy_bond :: balance
  collator_events :: "collator_event list"
  col_env :: 'env

type_synonym 'a collator_result = "collator_error dispatch_error + 'a"

record 'env collator_config =
  ensure_update_origin :: "origin \<Rightarrow> unit collator_result"
  MaxCandidates :: u32
  MinCandidates :: u32
  MaxInvulnerables :: u32
  KickThreshold :: block_number
  pot_account :: account_id
  validator_id_of :: "account_id \<Rightarrow> nat option"
  account_id_of :: "nat \<Rightarrow> account_id"
  is_registered :: "nat \<Rightarrow> 'env \<Rightarrow> bool"
  key_owner :: "bytes \<Rightarrow> 'env \<Rightarrow> nat option"
  col_reserve :: "account_id \<Rightarrow> balance \<Rightarrow> 'env \<Rightarrow> 'env collator_result"
  col_unreserve :: "account_id \<Rightarrow> balance \<Rightarrow> 'env \<Rightarrow> 'env"
  col_free_balance :: "account_id \<Rightarrow> 'env \<Rightarrow> balance"
  col_minimum_balance :: balance
  col_transfer :: "account_id \<Rightarrow> account_id \<Rightarrow> balance \<Rightarrow> 'env \<Rightarrow> 'env collator_result"

definition deposit_collator_event :: "collator_event \<Rightarrow> 'env collator_state \<Rightarrow> 'env collator_state" where
  "deposit_collator_event e s = s\<lparr>collator_events := collator_events s @ [e]\<rparr>"

text \<open>\<open>as u32\<close> of a length.\<close>

definition len_u32 :: "'a list \<Rightarrow> u32" where
  "len_u32 xs = length xs mod 2 ^ 32"

section \<open>Genesis\<close>

text \<open>The genesis is asserted: no duplicates, and both bounds.\<close>

definition collator_genesis ::
  "'env collator_config \<Rightarrow> account_id list \<Rightarrow> balance \<Rightarrow> u32 \<Rightarrow> 'env \<Rightarrow> 'env collator_state option" where
  "collator_genesis cfg invs bond desired env =
     (if card (set invs) = length invs \<and> length invs \<le> MaxInvulnerables cfg \<and> MaxCandidates cfg \<ge> desired
      then Some \<lparr>col_block = 0, invulnerables = invs, col_candidates = [], last_authored_block = Map.empty,
                 desired_candidates = desired, candidacy_bond = bond, collator_events = [], col_env = env\<rparr>
      else None)"

section \<open>Extrinsics\<close>

definition ensure_validator :: "'env collator_config \<Rightarrow> account_id \<Rightarrow> 'env \<Rightarrow> unit collator_result" where
  "ensure_validator cfg who env =
     bind_r (ok_or (validator_id_of cfg who) (Module NoAssociatedValidatorId)) (\<lambda>key.
     ensure (is_registered cfg key env) (Module ValidatorNotRegistered))"

definition set_invulnerables ::
  "'env collator_config \<Rightarrow> origin \<Rightarrow> account_id list \<Rightarrow> 'env collator_state \<Rightarrow> 'env collator_state collator_result" where
  "set_invulnerables cfg o' new s =
     bind_r (ensure_update_origin cfg o') (\<lambda>_.
     bind_r (ensure (length new \<le> MaxInvulnerables cfg) (Module TooManyInvulnerables)) (\<lambda>_.
     bind_r (fold_r (\<lambda>who _. ensure_validator cfg who (col_env s)) new ()) (\<lambda>_.
     Inr (deposit_collator_event (NewInvulnerables new) (s\<lparr>invulnerables := new\<rparr>)))))"

definition set_desired_candidates ::
  "'env collator_config \<Rightarrow> origin \<Rightarrow> u32 \<Rightarrow> 'env collator_state \<Rightarrow> 'env collator_state collator_result" where
  "set_desired_candidates cfg o' m s =
     bind_r (ensure_update_origin cfg o') (\<lambda>_.
     Inr (deposit_collator_event (NewDesiredCandidates m) (s\<lparr>desired_candidates := m\<rparr>)))"

definition set_candidacy_bond ::
  "'env collator_config \<Rightarrow> origin \<Rightarrow> balance \<Rightarrow> 'env collator_state \<Rightarrow> 'env collator_state collator_result" where
  "set_candidacy_bond cfg o' bond s =
     bind_r (ensure_update_origin cfg o') (\<lambda>_.
     Inr (deposit_collator_event (NewCandidacyBond bond) (s\<lparr>candidacy_bond := bond\<rparr>)))"

definition register_as_candidate ::
  "'env collator_config \<Rightarrow> origin \<Rightarrow> 'env collator_state \<Rightarrow> 'env collator_state collator_result" where
  "register_as_candidate cfg o' s =
     bind_r (ensure_signed o') (\<lambda>who.
     bind_r (ensure (len_u32 (col_candidates s) < desired_candidates s) (Module TooManyCandidates)) (\<lambda>_.
     bind_r (ensure (who \<notin> set (invulnerables s)) (Module AlreadyInvulnerable)) (\<lambda>_.
     bind_r (ensure_validator cfg who (col_env s)) (\<lambda>_.
     let deposit = candidacy_bond s in
     if \<exists>c \<in> set (col_candidates s). col_who c = who then Inl (Module AlreadyCandidate)
     else
       bind_r (col_reserve cfg who deposit (col_env s)) (\<lambda>env.
       bind_r (ensure (length (col_candidates s) < MaxCandidates cfg) (Module TooManyCandidates)) (\<lambda>_.
       Inr (deposit_collator_event (CandidateAdded who deposit)
         (s\<lparr>col_env := env,
            col_candidates := col_candidates s @ [\<lparr>col_who = who, col_deposit = deposit\<rparr>],
            last_authored_block := (last_authored_block s)
              (who \<mapsto> wrapping_add 32 (col_block s) (KickThreshold cfg))\<rparr>))))))))"

text \<open>The candidate at the position of the first match is removed.\<close>

fun take_candidate :: "account_id \<Rightarrow> col_candidate list \<Rightarrow> (col_candidate \<times> col_candidate list) option" where
  "take_candidate who [] = None"
| "take_candidate who (c # cs) =
     (if col_who c = who then Some (c, cs) else map_option (\<lambda>(d, ds). (d, c # ds)) (take_candidate who cs))"

definition try_remove_candidate ::
  "'env collator_config \<Rightarrow> account_id \<Rightarrow> 'env collator_state \<Rightarrow> (nat \<times> 'env collator_state) collator_result" where
  "try_remove_candidate cfg who s =
     bind_r (ok_or (take_candidate who (col_candidates s)) (Module NotCandidate)) (\<lambda>(c, cs).
     Inr (length cs, deposit_collator_event (CandidateRemoved who)
       (s\<lparr>col_candidates := cs, col_env := col_unreserve cfg who (col_deposit c) (col_env s),
          last_authored_block := (last_authored_block s)(who := None)\<rparr>)))"

definition leave_intent ::
  "'env collator_config \<Rightarrow> origin \<Rightarrow> 'env collator_state \<Rightarrow> 'env collator_state collator_result" where
  "leave_intent cfg o' s =
     bind_r (ensure_signed o') (\<lambda>who.
     bind_r (ensure (len_u32 (col_candidates s) > MinCandidates cfg) (Module TooFewCandidates)) (\<lambda>_.
     bind_r (try_remove_candidate cfg who s) (\<lambda>(_, s'). Inr s')))"

section \<open>Sessions and authors\<close>

definition assemble_collators :: "account_id list \<Rightarrow> 'env collator_state \<Rightarrow> account_id list" where
  "assemble_collators cands s = invulnerables s @ cands"

text \<open>
  The \<open>filter_map\<close> of \<open>kick_stale_candidates\<close>: it reads the storage that its own turns change.
  A failed removal is logged; \<open>debug_assert\<close> is not part of a release build.
\<close>

definition since_last :: "'env collator_state \<Rightarrow> account_id \<Rightarrow> block_number" where
  "since_last s who = col_block s - unwrap_or (last_authored_block s who) 0"

fun kick_loop ::
  "'env collator_config \<Rightarrow> col_candidate list \<Rightarrow> 'env collator_state \<Rightarrow> account_id list \<times> 'env collator_state" where
  "kick_loop cfg [] s = ([], s)"
| "kick_loop cfg (c # cs) s =
     (if since_last s (col_who c) < KickThreshold cfg \<or> len_u32 (col_candidates s) \<le> MinCandidates cfg
      then (let (ws, s') = kick_loop cfg cs s in (col_who c # ws, s'))
      else (case try_remove_candidate cfg (col_who c) s of
              Inl _ \<Rightarrow> kick_loop cfg cs s
            | Inr (_, s1) \<Rightarrow> kick_loop cfg cs s1))"

definition kick_stale_candidates ::
  "'env collator_config \<Rightarrow> col_candidate list \<Rightarrow> 'env collator_state \<Rightarrow> (account_id list \<times> 'env collator_state) option" where
  "kick_stale_candidates cfg cs s =
     (let (ws, s') = kick_loop cfg cs s in if length ws \<le> MaxCandidates cfg then Some (ws, s') else None)"

definition new_session :: "'env collator_config \<Rightarrow> 'env collator_state \<Rightarrow> (account_id list \<times> 'env collator_state) option" where
  "new_session cfg s =
     (case kick_stale_candidates cfg (col_candidates s) s of
        None \<Rightarrow> None
      | Some (active, s') \<Rightarrow> Some (assemble_collators active s', s'))"

definition note_author :: "'env collator_config \<Rightarrow> account_id \<Rightarrow> 'env collator_state \<Rightarrow> 'env collator_state" where
  "note_author cfg author s =
     (let reward = unwrap_or (checked_sub (col_free_balance cfg (pot_account cfg) (col_env s))
                      (col_minimum_balance cfg)) 0 div 2;
          env = (case col_transfer cfg (pot_account cfg) author reward (col_env s) of
                   Inl _ \<Rightarrow> col_env s | Inr env' \<Rightarrow> env')
      in s\<lparr>col_env := env, last_authored_block := (last_authored_block s)(author \<mapsto> col_block s)\<rparr>)"

definition lookup_account :: "'env collator_config \<Rightarrow> bytes \<Rightarrow> 'env collator_state \<Rightarrow> account_id option" where
  "lookup_account cfg author s = map_option (account_id_of cfg) (key_owner cfg author (col_env s))"

section \<open>Runs\<close>

datatype collator_call =
    SetInvulnerables origin "account_id list"
  | SetDesiredCandidates origin u32
  | SetCandidacyBond origin balance
  | RegisterAsCandidate origin
  | LeaveIntent origin

fun dispatch_collator ::
  "'env collator_config \<Rightarrow> collator_call \<Rightarrow> 'env collator_state \<Rightarrow> 'env collator_state collator_result" where
  "dispatch_collator cfg (SetInvulnerables o' new) s = set_invulnerables cfg o' new s"
| "dispatch_collator cfg (SetDesiredCandidates o' m) s = set_desired_candidates cfg o' m s"
| "dispatch_collator cfg (SetCandidacyBond o' b) s = set_candidacy_bond cfg o' b s"
| "dispatch_collator cfg (RegisterAsCandidate o') s = register_as_candidate cfg o' s"
| "dispatch_collator cfg (LeaveIntent o') s = leave_intent cfg o' s"

datatype collator_step =
    CollatorCall collator_call
  | CollatorBlock block_number
  | CollatorAuthor account_id
  | CollatorSession

text \<open>A failed call leaves the storage as it was; a block begins with its number.\<close>

fun collator_apply :: "'env collator_config \<Rightarrow> collator_step \<Rightarrow> 'env collator_state \<Rightarrow> 'env collator_state option" where
  "collator_apply cfg (CollatorCall c) s =
     Some (case dispatch_collator cfg c s of Inl _ \<Rightarrow> s | Inr s' \<Rightarrow> s')"
| "collator_apply cfg (CollatorBlock n) s = Some (s\<lparr>col_block := n\<rparr>)"
| "collator_apply cfg (CollatorAuthor a) s = Some (note_author cfg a s)"
| "collator_apply cfg CollatorSession s = map_option snd (new_session cfg s)"

fun collator_run :: "'env collator_config \<Rightarrow> collator_step list \<Rightarrow> 'env collator_state \<Rightarrow> 'env collator_state option" where
  "collator_run cfg [] s = Some s"
| "collator_run cfg (x # xs) s = Option.bind (collator_apply cfg x s) (collator_run cfg xs)"


section \<open>Lemmas: removing candidates\<close>

definition candidates_ok :: "'env collator_config \<Rightarrow> 'env collator_state \<Rightarrow> bool" where
  "candidates_ok cfg s \<longleftrightarrow> distinct (map col_who (col_candidates s)) \<and> length (col_candidates s) \<le> MaxCandidates cfg"

lemma take_candidate_distinct:
  assumes "distinct (map col_who cs)" and "c \<in> set cs"
  shows "take_candidate (col_who c) cs = Some (c, filter (\<lambda>d. col_who d \<noteq> col_who c) cs)"
  using assms
proof (induction cs)
  case (Cons d cs)
  show ?case
  proof (cases "c = d")
    case True
    with Cons.prems have "\<forall>x \<in> set cs. col_who x \<noteq> col_who c"
      by (metis distinct.simps(2) image_eqI list.simps(9) set_map)
    with True show ?thesis by simp
  next
    case False
    with Cons.prems have "c \<in> set cs" by simp
    moreover from this Cons.prems(1) have "col_who c \<noteq> col_who d"
      by (metis distinct.simps(2) image_eqI list.simps(9) set_map)
    ultimately have "c \<in> set cs" "col_who c \<noteq> col_who d" by simp_all
    with Cons show ?thesis by simp
  qed
qed simp

lemma take_candidate_Some:
  assumes "take_candidate w cs = Some (c, ds)"
  shows "c \<in> set cs" "col_who c = w"
  using assms by (induction cs arbitrary: ds) (auto split: if_splits)

text \<open>The removal of one candidate, and of several one after the other.\<close>

definition evict :: "'env collator_config \<Rightarrow> col_candidate \<Rightarrow> 'env collator_state \<Rightarrow> 'env collator_state" where
  "evict cfg c s =
     deposit_collator_event (CandidateRemoved (col_who c))
       (s\<lparr>col_candidates := filter (\<lambda>d. col_who d \<noteq> col_who c) (col_candidates s),
          col_env := col_unreserve cfg (col_who c) (col_deposit c) (col_env s),
          last_authored_block := (last_authored_block s)(col_who c := None)\<rparr>)"

lemma evict_sel [simp]:
  "col_candidates (evict cfg c s) = filter (\<lambda>d. col_who d \<noteq> col_who c) (col_candidates s)"
  "col_env (evict cfg c s) = col_unreserve cfg (col_who c) (col_deposit c) (col_env s)"
  "invulnerables (evict cfg c s) = invulnerables s"
  "last_authored_block (evict cfg c s) = (last_authored_block s)(col_who c := None)"
  "w \<noteq> col_who c \<Longrightarrow> since_last (evict cfg c s) w = since_last s w"
  by (simp_all add: evict_def deposit_collator_event_def since_last_def)

lemma try_remove_evict:
  assumes "distinct (map col_who (col_candidates s))" and "c \<in> set (col_candidates s)"
  shows "\<exists>n. try_remove_candidate cfg (col_who c) s = Inr (n, evict cfg c s)"
  using take_candidate_distinct [OF assms] by (simp add: try_remove_candidate_def evict_def)

lemma try_remove_Inr:
  assumes "try_remove_candidate cfg w s = Inr (n, s')" and "distinct (map col_who (col_candidates s))"
  obtains c where "c \<in> set (col_candidates s)" "col_who c = w" "s' = evict cfg c s"
proof -
  from assms(1) obtain c cs where "take_candidate w (col_candidates s) = Some (c, cs)"
    by (auto simp: try_remove_candidate_def result_simps)
  with take_candidate_Some have "c \<in> set (col_candidates s)" "col_who c = w" by metis+
  with try_remove_evict [OF assms(2), of c cfg] assms(1) that show thesis by auto
qed

lemma evict_all_closed:
  "fold (evict cfg) cs s =
     s\<lparr>col_candidates := filter (\<lambda>d. col_who d \<notin> col_who ` set cs) (col_candidates s),
       col_env := fold (\<lambda>c. col_unreserve cfg (col_who c) (col_deposit c)) cs (col_env s),
       last_authored_block := (\<lambda>w. if w \<in> col_who ` set cs then None else last_authored_block s w),
       collator_events := collator_events s @ map (\<lambda>c. CandidateRemoved (col_who c)) cs\<rparr>"
proof (induction cs arbitrary: s)
  case (Cons c cs)
  have "(\<lambda>w. if w \<in> col_who ` set cs then None else ((last_authored_block s)(col_who c := None)) w)
      = (\<lambda>w. if w \<in> col_who ` set (c # cs) then None else last_authored_block s w)"
    by auto
  moreover have "filter (\<lambda>d. col_who d \<notin> col_who ` set cs) (filter (\<lambda>d. col_who d \<noteq> col_who c) (col_candidates s))
      = filter (\<lambda>d. col_who d \<notin> col_who ` set (c # cs)) (col_candidates s)"
    by (auto intro: filter_cong)
  moreover have "fold (evict cfg) (c # cs) s = fold (evict cfg) cs (evict cfg c s)" by simp
  ultimately show ?case
    by (simp only: Cons evict_sel) (simp add: evict_def deposit_collator_event_def)
qed simp

section \<open>Lemmas: kicking\<close>

definition stale :: "'env collator_config \<Rightarrow> 'env collator_state \<Rightarrow> col_candidate \<Rightarrow> bool" where
  "stale cfg s c \<longleftrightarrow> KickThreshold cfg \<le> since_last s (col_who c)"

text \<open>The reference definition: the first stale candidates, as many as there are above the minimum.\<close>

definition kicked :: "'env collator_config \<Rightarrow> 'env collator_state \<Rightarrow> nat \<Rightarrow> col_candidate list \<Rightarrow> col_candidate list" where
  "kicked cfg s n cs = take (n - MinCandidates cfg) (filter (stale cfg s) cs)"

lemma kicked_subset: "set (kicked cfg s n cs) \<subseteq> set cs"
  unfolding kicked_def by (meson dual_order.trans filter_is_subset set_take_subset)

lemma kicked_Cons:
  "kicked cfg s n (c # cs) =
     (if \<not> stale cfg s c \<or> n \<le> MinCandidates cfg then kicked cfg s n cs
      else c # kicked cfg s (n - 1) cs)"
proof -
  have "\<not> n \<le> MinCandidates cfg \<Longrightarrow> n - MinCandidates cfg = Suc (n - 1 - MinCandidates cfg)" by simp
  then show ?thesis by (auto simp: kicked_def)
qed

lemma kicked_evict:
  assumes "col_who c \<notin> col_who ` set cs"
  shows "kicked cfg (evict cfg c s) n cs = kicked cfg s n cs"
proof -
  have "filter (stale cfg (evict cfg c s)) cs = filter (stale cfg s) cs"
    using assms by (intro filter_cong) (auto simp: stale_def image_iff)
  then show ?thesis by (simp add: kicked_def)
qed

lemma kick_loop_kicked:
  assumes "distinct (map col_who (ks @ cs))" and "col_candidates s = ks @ cs" and "length (ks @ cs) < 2 ^ 32"
  shows "kick_loop cfg cs s =
     (map col_who (filter (\<lambda>c. col_who c \<notin> col_who ` set (kicked cfg s (length (ks @ cs)) cs)) cs),
      fold (evict cfg) (kicked cfg s (length (ks @ cs)) cs) s)"
  using assms
proof (induction cs arbitrary: ks s)
  case Nil
  then show ?case by (simp add: kicked_def)
next
  case (Cons c cs)
  have len: "len_u32 (col_candidates s) = length (ks @ c # cs)"
    using Cons.prems by (simp add: len_u32_def)
  have fresh: "col_who c \<notin> col_who ` set cs" "\<forall>k \<in> set ks. col_who k \<noteq> col_who c"
    using Cons.prems(1) by (auto simp: image_iff)
  show ?case
  proof (cases "\<not> stale cfg s c \<or> length (ks @ c # cs) \<le> MinCandidates cfg")
    case True
    then have "kicked cfg s (length (ks @ c # cs)) (c # cs) = kicked cfg s (length ((ks @ [c]) @ cs)) cs"
      by (simp add: kicked_Cons)
    moreover have "col_who c \<notin> col_who ` set (kicked cfg s (length ((ks @ [c]) @ cs)) cs)"
      using fresh(1) kicked_subset [of cfg s _ cs] by (meson image_mono subsetD)
    moreover have "kick_loop cfg cs s =
     (map col_who (filter (\<lambda>d. col_who d \<notin> col_who ` set (kicked cfg s (length ((ks @ [c]) @ cs)) cs)) cs),
      fold (evict cfg) (kicked cfg s (length ((ks @ [c]) @ cs)) cs) s)"
      using Cons.prems by (intro Cons.IH) auto
    ultimately show ?thesis
      using True by (auto simp: len stale_def not_le)
  next
    case False
    let ?s = "evict cfg c s" and ?k = "kicked cfg s (length (ks @ cs)) cs"
    have cands: "col_candidates ?s = ks @ cs"
      using Cons.prems(2) fresh by (auto simp: image_iff filter_id_conv)
    have k: "kicked cfg s (length (ks @ c # cs)) (c # cs) = c # ?k"
      using False by (auto simp: kicked_Cons)
    have "kick_loop cfg cs ?s =
     (map col_who (filter (\<lambda>d. col_who d \<notin> col_who ` set (kicked cfg ?s (length (ks @ cs)) cs)) cs),
      fold (evict cfg) (kicked cfg ?s (length (ks @ cs)) cs) ?s)"
      using Cons.prems(1,3) cands by (intro Cons.IH) auto
    moreover obtain n where "try_remove_candidate cfg (col_who c) s = Inr (n, ?s)"
      using try_remove_evict [of s c cfg] Cons.prems(1,2) by auto
    moreover have "filter (\<lambda>d. col_who d \<notin> col_who ` set (c # ?k)) cs = filter (\<lambda>d. col_who d \<notin> col_who ` set ?k) cs"
      using fresh(1) by (intro filter_cong) (auto simp: image_iff)
    ultimately show ?thesis
      unfolding k using False by (simp add: len stale_def not_le kicked_evict [OF fresh(1)])
  qed
qed


text \<open>
  C39: a new session kicks the first stale candidates, as many as there are above the
  minimum, gives them their deposits back, and appoints the invulnerables and the remaining
  candidates, in their order.
\<close>

theorem new_session_kicks_stale:
  assumes "candidates_ok cfg s" and "MaxCandidates cfg < 2 ^ 32"
  shows "new_session cfg s =
    (let gone = take (length (col_candidates s) - MinCandidates cfg)
                  (filter (\<lambda>c. KickThreshold cfg \<le> since_last s (col_who c)) (col_candidates s));
         kept = filter (\<lambda>c. col_who c \<notin> col_who ` set gone) (col_candidates s)
     in Some (invulnerables s @ map col_who kept,
          s\<lparr>col_candidates := kept,
            col_env := fold (\<lambda>c. col_unreserve cfg (col_who c) (col_deposit c)) gone (col_env s),
            last_authored_block := (\<lambda>w. if w \<in> col_who ` set gone then None else last_authored_block s w),
            collator_events := collator_events s @ map (\<lambda>c. CandidateRemoved (col_who c)) gone\<rparr>))"
proof -
  let ?cs = "col_candidates s"
  let ?gone = "kicked cfg s (length ([] @ ?cs)) ?cs"
  let ?kept = "filter (\<lambda>c. col_who c \<notin> col_who ` set ?gone) ?cs"
  have "kick_loop cfg ?cs s = (map col_who ?kept, fold (evict cfg) ?gone s)"
    using assms by (intro kick_loop_kicked) (auto simp: candidates_ok_def)
  moreover have "length ?kept \<le> MaxCandidates cfg"
    using assms(1) length_filter_le [of _ ?cs] unfolding candidates_ok_def by (meson le_trans)
  ultimately show ?thesis
    by (simp add: new_session_def kick_stale_candidates_def assemble_collators_def evict_all_closed
        Let_def kicked_def stale_def [abs_def])
qed

section \<open>The deposits\<close>

text \<open>
  What the pallet relies on of the reservable currency: reserving adds to the reserved balance of an
  account, unreserving takes away what is there, transfers leave the reserved balances alone.
\<close>

definition reserve_laws :: "'env collator_config \<Rightarrow> ('env \<Rightarrow> account_id \<Rightarrow> balance) \<Rightarrow> bool" where
  "reserve_laws cfg reserved \<longleftrightarrow>
     (\<forall>who amt env env'. col_reserve cfg who amt env = Inr env' \<longrightarrow>
        reserved env' = (reserved env)(who := reserved env who + amt)) \<and>
     (\<forall>who amt env. reserved (col_unreserve cfg who amt env) = (reserved env)(who := reserved env who - amt)) \<and>
     (\<forall>from to amt env env'. col_transfer cfg from to amt env = Inr env' \<longrightarrow> reserved env' = reserved env)"

definition deposit_of :: "col_candidate list \<Rightarrow> account_id \<Rightarrow> balance" where
  "deposit_of cs w = sum_list (map col_deposit (filter (\<lambda>c. col_who c = w) cs))"

text \<open>The invariant: beside what was reserved before, exactly the deposits are reserved.\<close>

definition deposits_reserved ::
  "('env \<Rightarrow> account_id \<Rightarrow> balance) \<Rightarrow> (account_id \<Rightarrow> balance) \<Rightarrow> 'env collator_state \<Rightarrow> bool" where
  "deposits_reserved reserved base s \<longleftrightarrow>
     (\<forall>w. reserved (col_env s) w = base w + deposit_of (col_candidates s) w)"

definition collators_ok ::
  "'env collator_config \<Rightarrow> ('env \<Rightarrow> account_id \<Rightarrow> balance) \<Rightarrow> (account_id \<Rightarrow> balance) \<Rightarrow> 'env collator_state \<Rightarrow> bool" where
  "collators_ok cfg reserved base s \<longleftrightarrow> candidates_ok cfg s \<and> deposits_reserved reserved base s"

lemma deposit_of_append [simp]: "deposit_of (xs @ ys) w = deposit_of xs w + deposit_of ys w"
  by (simp add: deposit_of_def)

lemma deposit_of_single [simp]: "deposit_of [c] w = (if col_who c = w then col_deposit c else 0)"
  by (simp add: deposit_of_def)

lemma deposit_of_without:
  "deposit_of (filter (\<lambda>d. col_who d \<noteq> v) cs) w = (if w = v then 0 else deposit_of cs w)"
  by (induction cs) (auto simp: deposit_of_def)

lemma only_candidate:
  assumes "distinct (map col_who cs)" and "c \<in> set cs"
  shows "filter (\<lambda>d. col_who d = col_who c) cs = [c]"
  using assms
proof (induction cs)
  case (Cons d cs)
  have no: "\<forall>x \<in> set cs. col_who x \<noteq> col_who d"
    using Cons.prems(1) by (metis distinct.simps(2) image_eqI list.simps(9) set_map)
  show ?case
  proof (cases "c = d")
    case True
    with no show ?thesis by (simp add: filter_empty_conv)
  next
    case False
    with Cons.prems have "c \<in> set cs" by simp
    with no Cons show ?thesis by auto
  qed
qed simp

lemma evict_length:
  assumes "distinct (map col_who (col_candidates s))" and "c \<in> set (col_candidates s)"
  shows "length (col_candidates (evict cfg c s)) = length (col_candidates s) - 1"
  using sum_length_filter_compl [of "\<lambda>d. col_who d = col_who c" "col_candidates s"] only_candidate [OF assms]
  by simp

lemma evict_keeps_ok:
  assumes "reserve_laws cfg reserved" and "collators_ok cfg reserved base s" and "c \<in> set (col_candidates s)"
  shows "collators_ok cfg reserved base (evict cfg c s)"
proof -
  have d: "distinct (map col_who (col_candidates s))" and n: "length (col_candidates s) \<le> MaxCandidates cfg"
    using assms(2) by (simp_all add: collators_ok_def candidates_ok_def)
  have "deposit_of (col_candidates s) (col_who c) = col_deposit c"
    using only_candidate [OF d assms(3)] by (simp add: deposit_of_def)
  then have "deposits_reserved reserved base (evict cfg c s)"
    using assms by (simp add: collators_ok_def deposits_reserved_def reserve_laws_def deposit_of_without)
  moreover have "candidates_ok cfg (evict cfg c s)"
    using d n evict_length [OF d assms(3), of cfg] by (simp add: candidates_ok_def distinct_map_filter)
  ultimately show ?thesis by (simp add: collators_ok_def)
qed

lemma evict_all_keeps_ok:
  assumes "reserve_laws cfg reserved" and "collators_ok cfg reserved base s"
    and "distinct (map col_who cs)" and "set cs \<subseteq> set (col_candidates s)"
  shows "collators_ok cfg reserved base (fold (evict cfg) cs s) \<and>
    length (col_candidates (fold (evict cfg) cs s)) = length (col_candidates s) - length cs"
  using assms(2-4)
proof (induction cs arbitrary: s)
  case (Cons c cs)
  have "col_who d \<noteq> col_who c" if "d \<in> set cs" for d
    using Cons.prems(2) that by (metis distinct.simps(2) image_eqI list.simps(9) set_map)
  then have "set cs \<subseteq> set (col_candidates (evict cfg c s))"
    using Cons.prems(3) by auto
  moreover have "collators_ok cfg reserved base (evict cfg c s)"
    using Cons.prems by (intro evict_keeps_ok [OF assms(1)]) auto
  moreover have "length (col_candidates (evict cfg c s)) = length (col_candidates s) - 1"
    using Cons.prems by (intro evict_length) (auto simp: collators_ok_def candidates_ok_def)
  ultimately show ?case
    using Cons.IH [of "evict cfg c s"] Cons.prems(2) by simp
qed simp

text \<open>Every operation keeps the invariant and does not take the candidates below the minimum.\<close>

definition safe_step ::
  "'env collator_config \<Rightarrow> ('env \<Rightarrow> account_id \<Rightarrow> balance) \<Rightarrow> (account_id \<Rightarrow> balance) \<Rightarrow>
   'env collator_state \<Rightarrow> 'env collator_state \<Rightarrow> bool" where
  "safe_step cfg reserved base s s' \<longleftrightarrow>
     collators_ok cfg reserved base s' \<and>
     (MinCandidates cfg \<le> length (col_candidates s) \<longrightarrow> MinCandidates cfg \<le> length (col_candidates s'))"

lemma leave_intent_safe:
  assumes "reserve_laws cfg reserved" and "MaxCandidates cfg < 2 ^ 32" and "collators_ok cfg reserved base s"
    and "leave_intent cfg o' s = Inr s'"
  shows "safe_step cfg reserved base s s'"
proof -
  have d: "distinct (map col_who (col_candidates s))" and n: "length (col_candidates s) < 2 ^ 32"
    using assms(2,3) by (auto simp: collators_ok_def candidates_ok_def)
  from assms(4) obtain w m where "try_remove_candidate cfg w s = Inr (m, s')"
    and more: "MinCandidates cfg < len_u32 (col_candidates s)"
    by (auto simp: leave_intent_def result_simps)
  from try_remove_Inr [OF this(1) d] obtain c where c: "c \<in> set (col_candidates s)" "s' = evict cfg c s"
    by metis
  from more n have "MinCandidates cfg < length (col_candidates s)"
    by (simp add: len_u32_def)
  with c evict_length [OF d c(1), of cfg] evict_keeps_ok [OF assms(1,3) c(1)] show ?thesis
    by (simp add: safe_step_def)
qed

lemma register_as_candidate_safe:
  assumes "reserve_laws cfg reserved" and "collators_ok cfg reserved base s"
    and "register_as_candidate cfg o' s = Inr s'"
  shows "safe_step cfg reserved base s s'"
proof -
  from assms(3) obtain w env where new: "\<forall>c \<in> set (col_candidates s). col_who c \<noteq> w"
    and room: "length (col_candidates s) < MaxCandidates cfg"
    and res: "col_reserve cfg w (candidacy_bond s) (col_env s) = Inr env"
    and s': "col_candidates s' = col_candidates s @ [\<lparr>col_who = w, col_deposit = candidacy_bond s\<rparr>]"
      "col_env s' = env"
    by (auto simp: register_as_candidate_def result_simps Let_def deposit_collator_event_def split: if_splits)
  have "candidates_ok cfg s'"
    using assms(2) new room by (auto simp: candidates_ok_def collators_ok_def s')
  moreover have "deposits_reserved reserved base s'"
    using assms(1,2) res by (auto simp: deposits_reserved_def collators_ok_def s' reserve_laws_def)
  ultimately show ?thesis by (simp add: safe_step_def collators_ok_def s')
qed

lemma dispatch_collator_safe:
  assumes "reserve_laws cfg reserved" and "MaxCandidates cfg < 2 ^ 32" and "collators_ok cfg reserved base s"
    and "dispatch_collator cfg c s = Inr s'"
  shows "safe_step cfg reserved base s s'"
proof (cases c)
  case (SetInvulnerables o' new)
  then show ?thesis using assms(3,4)
    by (auto simp: set_invulnerables_def result_simps deposit_collator_event_def safe_step_def
        collators_ok_def candidates_ok_def deposits_reserved_def)
next
  case (SetDesiredCandidates o' m)
  then show ?thesis using assms(3,4)
    by (auto simp: set_desired_candidates_def result_simps deposit_collator_event_def safe_step_def
        collators_ok_def candidates_ok_def deposits_reserved_def)
next
  case (SetCandidacyBond o' b)
  then show ?thesis using assms(3,4)
    by (auto simp: set_candidacy_bond_def result_simps deposit_collator_event_def safe_step_def
        collators_ok_def candidates_ok_def deposits_reserved_def)
next
  case (RegisterAsCandidate o')
  then show ?thesis using assms register_as_candidate_safe [OF assms(1,3)] by simp
next
  case (LeaveIntent o')
  then show ?thesis using assms leave_intent_safe [OF assms(1-3)] by simp
qed

lemma note_author_safe:
  assumes "reserve_laws cfg reserved" and "collators_ok cfg reserved base s"
  shows "safe_step cfg reserved base s (note_author cfg a s)"
  using assms
  by (auto simp: note_author_def Let_def safe_step_def collators_ok_def candidates_ok_def
      deposits_reserved_def reserve_laws_def split: sum.splits)

lemma new_session_safe:
  assumes "reserve_laws cfg reserved" and "MaxCandidates cfg < 2 ^ 32" and "collators_ok cfg reserved base s"
  shows "\<exists>ws s'. new_session cfg s = Some (ws, s') \<and> safe_step cfg reserved base s s'"
proof -
  let ?cs = "col_candidates s"
  let ?gone = "kicked cfg s (length ?cs) ?cs"
  have ok: "candidates_ok cfg s" using assms(3) by (simp add: collators_ok_def)
  have kl: "snd (kick_loop cfg ?cs s) = fold (evict cfg) ?gone s"
    "length (fst (kick_loop cfg ?cs s)) \<le> length ?cs"
    using ok assms(2) kick_loop_kicked [of "[]" ?cs s cfg] by (auto simp: candidates_ok_def)
  have "distinct (map col_who ?gone)"
    using ok unfolding kicked_def candidates_ok_def
    by (metis distinct_map_filter distinct_take take_map)
  then have "collators_ok cfg reserved base (fold (evict cfg) ?gone s) \<and>
      length (col_candidates (fold (evict cfg) ?gone s)) = length ?cs - length ?gone"
    using assms(1,3) kicked_subset by (intro evict_all_keeps_ok)
  moreover have "length ?gone \<le> length ?cs - MinCandidates cfg"
    by (simp add: kicked_def)
  ultimately have "safe_step cfg reserved base s (fold (evict cfg) ?gone s)"
    by (auto simp: safe_step_def)
  with kl ok show ?thesis
    by (auto simp: new_session_def kick_stale_candidates_def candidates_ok_def split_beta)
qed

lemma collator_apply_safe:
  assumes "reserve_laws cfg reserved" and "MaxCandidates cfg < 2 ^ 32" and "collators_ok cfg reserved base s"
  shows "\<exists>s'. collator_apply cfg x s = Some s' \<and> safe_step cfg reserved base s s'"
proof (cases x)
  case (CollatorCall c)
  with assms dispatch_collator_safe [OF assms, of c] show ?thesis
    by (auto simp: safe_step_def split: sum.splits)
next
  case (CollatorBlock n)
  with assms(3) show ?thesis
    by (simp add: safe_step_def collators_ok_def candidates_ok_def deposits_reserved_def)
next
  case (CollatorAuthor a)
  with note_author_safe [OF assms(1,3)] show ?thesis by simp
next
  case CollatorSession
  with new_session_safe [OF assms] show ?thesis by fastforce
qed

lemma collator_run_safe:
  assumes "reserve_laws cfg reserved" and "MaxCandidates cfg < 2 ^ 32" and "collators_ok cfg reserved base s"
  shows "\<exists>s'. collator_run cfg xs s = Some s' \<and> safe_step cfg reserved base s s'"
  using assms(3)
proof (induction xs arbitrary: s)
  case (Cons x xs)
  obtain s1 where "collator_apply cfg x s = Some s1" "safe_step cfg reserved base s s1"
    using collator_apply_safe [OF assms(1,2) Cons.prems] by blast
  with Cons.IH [of s1] show ?case by (auto simp: safe_step_def)
qed (simp add: safe_step_def)

text \<open>
  C38: from any genesis, no sequence of calls, blocks, authors and sessions panics; the
  candidates stay distinct and within the bound; beside what accounts had reserved before, exactly
  the deposits of the candidates are reserved, so whoever leaves or is kicked gets the deposit back
  also when the bond has changed; and once there are the minimum number of candidates, there are
  never fewer.
\<close>

theorem deposits_accounted:
  assumes "reserve_laws cfg reserved" and "MaxCandidates cfg < 2 ^ 32"
    and "collator_genesis cfg invs bond desired env = Some s0"
  shows "\<exists>s. collator_run cfg xs s0 = Some s \<and>
    distinct (map col_who (col_candidates s)) \<and> length (col_candidates s) \<le> MaxCandidates cfg \<and>
    (\<forall>w. reserved (col_env s) w = reserved env w + deposit_of (col_candidates s) w) \<and>
    (MinCandidates cfg \<le> length (col_candidates s) \<longrightarrow>
       (\<forall>ys. \<exists>s'. collator_run cfg ys s = Some s' \<and> MinCandidates cfg \<le> length (col_candidates s')))"
proof -
  have "collators_ok cfg reserved (reserved env) s0"
    using assms(3) by (auto simp: collator_genesis_def collators_ok_def candidates_ok_def deposits_reserved_def
        deposit_of_def split: if_splits)
  from collator_run_safe [OF assms(1,2) this] obtain s where "collator_run cfg xs s0 = Some s"
    and ok: "collators_ok cfg reserved (reserved env) s"
    by (auto simp: safe_step_def)
  moreover have "\<exists>s'. collator_run cfg ys s = Some s' \<and> MinCandidates cfg \<le> length (col_candidates s')"
    if "MinCandidates cfg \<le> length (col_candidates s)" for ys
    using collator_run_safe [OF assms(1,2) ok, of ys] that by (auto simp: safe_step_def)
  ultimately show ?thesis
    by (auto simp: collators_ok_def candidates_ok_def deposits_reserved_def)
qed


section \<open>Examples\<close>

type_synonym demo_reserves = "account_id \<Rightarrow> balance \<times> balance"

definition demo_collators :: "demo_reserves collator_config" where
  "demo_collators = \<lparr>ensure_update_origin = ensure_root, MaxCandidates = 10, MinCandidates = 1, MaxInvulnerables = 5,
     KickThreshold = 4, pot_account = 99, validator_id_of = Some, account_id_of = id,
     is_registered = (\<lambda>_ _. True), key_owner = (\<lambda>_ _. None),
     col_reserve = (\<lambda>w amt env. case env w of (free, res) \<Rightarrow>
        if amt \<le> free then Inr (env(w := (free - amt, res + amt))) else Inl (Token ''FundsUnavailable'')),
     col_unreserve = (\<lambda>w amt env. case env w of (free, res) \<Rightarrow> env(w := (free + min amt res, res - amt))),
     col_free_balance = (\<lambda>w env. fst (env w)), col_minimum_balance = 1,
     col_transfer = (\<lambda>from to amt env. if fst (env from) < amt then Inl (Token ''FundsUnavailable'')
        else let env' = env(from := (fst (env from) - amt, snd (env from)))
             in Inr (env'(to := (fst (env' to) + amt, snd (env' to)))))\<rparr>"

definition demo_reserved :: "demo_reserves \<Rightarrow> account_id \<Rightarrow> balance" where
  "demo_reserved env = (\<lambda>w. snd (env w))"

definition demo_collator_env :: demo_reserves where
  "demo_collator_env = (\<lambda>w. (100, 0))"

definition demo_collator_start :: "demo_reserves collator_state" where
  "demo_collator_start = \<lparr>col_block = 0, invulnerables = [7], col_candidates = [], last_authored_block = Map.empty,
     desired_candidates = 5, candidacy_bond = 10, collator_events = [], col_env = demo_collator_env\<rparr>"

lemma demo_reserve_laws: "reserve_laws demo_collators demo_reserved"
  by (auto simp: reserve_laws_def demo_collators_def demo_reserved_def Let_def
      split: prod.splits if_splits intro!: ext)

lemma demo_collator_genesis: "collator_genesis demo_collators [7] 10 5 demo_collator_env = Some demo_collator_start"
  by (simp add: collator_genesis_def demo_collators_def demo_collator_start_def)

lemmas collator_eval =
  demo_collators_def demo_collator_start_def demo_collator_env_def register_as_candidate_def leave_intent_def set_candidacy_bond_def
  set_invulnerables_def ensure_validator_def deposit_collator_event_def try_remove_candidate_def new_session_def
  kick_stale_candidates_def assemble_collators_def since_last_def len_u32_def wrapping_add_def note_author_def
  checked_sub_def demo_reserved_def

text \<open>Two candidates register, the bond changes, one of them authors a block and the other is kicked.\<close>

definition demo_collator_steps :: "collator_step list" where
  "demo_collator_steps =
     [CollatorCall (RegisterAsCandidate (Signed 1)), CollatorCall (SetCandidacyBond Root 20),
      CollatorCall (RegisterAsCandidate (Signed 2)), CollatorBlock 8, CollatorAuthor 2, CollatorSession]"

lemma demo_collator_run:
  "\<exists>s. collator_run demo_collators demo_collator_steps demo_collator_start = Some s \<and>
     col_candidates s = [\<lparr>col_who = 2, col_deposit = 20\<rparr>]"
  by (simp add: demo_collator_steps_def collator_eval)

theorem deposits_accounted_witness:
  "reserve_laws demo_collators demo_reserved \<and>
   (\<exists>s. collator_run demo_collators demo_collator_steps demo_collator_start = Some s \<and>
      (\<forall>w. demo_reserved (col_env s) w = deposit_of (col_candidates s) w) \<and> length (col_candidates s) = 1 \<and>
      (\<exists>s'. collator_run demo_collators [CollatorCall (LeaveIntent (Signed 2)), CollatorBlock 90, CollatorSession] s = Some s' \<and>
         1 \<le> length (col_candidates s')))"
proof -
  have "MaxCandidates demo_collators < 2 ^ 32" and m: "MinCandidates demo_collators = 1"
    by (simp_all add: demo_collators_def)
  from deposits_accounted [OF demo_reserve_laws this(1) demo_collator_genesis, of demo_collator_steps]
  obtain s where run: "collator_run demo_collators demo_collator_steps demo_collator_start = Some s"
    and books: "\<forall>w. demo_reserved (col_env s) w = demo_reserved demo_collator_env w + deposit_of (col_candidates s) w"
    and later: "1 \<le> length (col_candidates s) \<longrightarrow>
       (\<forall>ys. \<exists>s'. collator_run demo_collators ys s = Some s' \<and> 1 \<le> length (col_candidates s'))"
    unfolding m by blast
  from demo_collator_run run have one: "length (col_candidates s) = 1" by auto
  with later have "\<exists>s'. collator_run demo_collators [CollatorCall (LeaveIntent (Signed 2)), CollatorBlock 90, CollatorSession] s = Some s' \<and>
      1 \<le> length (col_candidates s')"
    by (simp del: collator_run.simps)
  with run books one demo_reserve_laws show ?thesis
    by (simp add: demo_reserved_def demo_collator_env_def del: collator_run.simps)
qed

theorem new_session_kicks_stale_witness:
  "let s = demo_collator_start\<lparr>col_block := 8, last_authored_block := [2 \<mapsto> 5],
        col_candidates := [\<lparr>col_who = 1, col_deposit = 10\<rparr>, \<lparr>col_who = 2, col_deposit = 10\<rparr>]\<rparr>
   in candidates_ok demo_collators s \<and> map_option fst (new_session demo_collators s) = Some [7, 2]"
proof -
  let ?s = "demo_collator_start\<lparr>col_block := 8, last_authored_block := [2 \<mapsto> 5],
        col_candidates := [\<lparr>col_who = 1, col_deposit = 10\<rparr>, \<lparr>col_who = 2, col_deposit = 10\<rparr>]\<rparr>"
  have ok: "candidates_ok demo_collators ?s" and "MaxCandidates demo_collators < 2 ^ 32"
    by (simp_all add: candidates_ok_def demo_collators_def)
  from ok new_session_kicks_stale [OF this] show ?thesis
    by (simp add: Let_def since_last_def demo_collators_def demo_collator_start_def)
qed

text \<open>
  An account cannot become a candidate when it is invulnerable, but it can be made invulnerable
  while it is a candidate: then the collators of the session list it twice.
\<close>

lemma collator_listed_twice:
  "\<exists>s. collator_run demo_collators
      [CollatorCall (RegisterAsCandidate (Signed 1)), CollatorCall (SetInvulnerables Root [1])] demo_collator_start = Some s \<and>
     map_option fst (new_session demo_collators s) = Some [1, 1]"
  by (simp add: collator_eval)

end
