(* ===== verification/Fee_Manager.thy ===== *)
theory Fee_Manager
  imports Dispatch
begin

text \<open>
  The pallet \<open>pallets/fee-manager\<close>: the fee percentages of all versions, and the version in force.
  The marketplace and the processors are charged by the fee of a version, so an older one must not
  change. A percentage is its number of parts per hundred.
\<close>

section \<open>Model\<close>

record fee_state =
  fee_percentage_map :: "u16 \<rightharpoonup> nat"
  fee_version :: u16
  fee_events :: "(u16 \<times> nat) list"

record fee_config =
  DefaultFeePercentage :: nat
  fee_update_origin :: "origin \<Rightarrow> unit dispatch_error + unit"

definition fee_percentage :: "fee_config \<Rightarrow> fee_state \<Rightarrow> u16 \<Rightarrow> nat" where
  "fee_percentage cfg s v = unwrap_or (fee_percentage_map s v) (DefaultFeePercentage cfg)"

text \<open>\<open>add_assign\<close> on a \<open>u16\<close> wraps around.\<close>

definition set_fee_percentage :: "nat \<Rightarrow> fee_state \<Rightarrow> u16 \<times> fee_state" where
  "set_fee_percentage fee s =
     (let new_version = wrapping_add 16 (fee_version s) 1
      in (new_version, s\<lparr>fee_version := new_version,
                         fee_percentage_map := (fee_percentage_map s)(new_version \<mapsto> fee)\<rparr>))"

definition update_fee_percentage :: "fee_config \<Rightarrow> origin \<Rightarrow> nat \<Rightarrow> fee_state \<Rightarrow> unit dispatch_error + fee_state" where
  "update_fee_percentage cfg o' fee s =
     bind_r (fee_update_origin cfg o') (\<lambda>_.
     let (new_version, s1) = set_fee_percentage fee s
     in Inr (s1\<lparr>fee_events := fee_events s1 @ [(new_version, fee)]\<rparr>))"

definition fee_genesis :: fee_state where
  "fee_genesis = \<lparr>fee_percentage_map = Map.empty, fee_version = 0, fee_events = []\<rparr>"

definition update_fees :: "fee_config \<Rightarrow> origin \<Rightarrow> nat list \<Rightarrow> fee_state \<Rightarrow> unit dispatch_error + fee_state" where
  "update_fees cfg o' = fold_r (update_fee_percentage cfg o')"

section \<open>Lemmas\<close>

lemma update_fee_percentage_Inr:
  "update_fee_percentage cfg o' fee s = Inr s' \<longleftrightarrow>
     fee_update_origin cfg o' = Inr () \<and>
     s' = s\<lparr>fee_version := wrapping_add 16 (fee_version s) 1,
            fee_percentage_map := (fee_percentage_map s)(wrapping_add 16 (fee_version s) 1 \<mapsto> fee),
            fee_events := fee_events s @ [(wrapping_add 16 (fee_version s) 1, fee)]\<rparr>"
  by (auto simp: update_fee_percentage_def set_fee_percentage_def result_simps Let_def)

text \<open>
  While the versions fit into 16 bits, the version counts the updates and every version keeps the
  fee it was set to; before the first update the default fee is in force.
\<close>

lemma fee_versions_kept:
  assumes "update_fees cfg o' fees fee_genesis = Inr s" and "length fees < 2 ^ 16"
  shows "fee_version s = length fees" and "fee_percentage cfg s 0 = DefaultFeePercentage cfg"
    and "k < length fees \<Longrightarrow> fee_percentage cfg s (Suc k) = fees ! k"
proof -
  have "fee_version s = length fees \<and> fee_percentage_map s 0 = None \<and>
      (\<forall>k < length fees. fee_percentage_map s (Suc k) = Some (fees ! k))"
    using assms
  proof (induction fees arbitrary: s rule: rev_induct)
    case Nil
    then show ?case by (auto simp: update_fees_def fee_genesis_def)
  next
    case (snoc f fees)
    from snoc.prems(1) obtain s1 where s1: "update_fees cfg o' fees fee_genesis = Inr s1"
      and "update_fee_percentage cfg o' f s1 = Inr s"
      by (auto simp: update_fees_def fold_r_append result_simps)
    moreover have "fee_version s1 = length fees" "fee_percentage_map s1 0 = None"
        "\<forall>k < length fees. fee_percentage_map s1 (Suc k) = Some (fees ! k)"
      using snoc.IH [OF s1] snoc.prems(2) by simp_all
    ultimately show ?case
      using snoc.prems(2) by (auto simp: update_fee_percentage_Inr wrapping_add_exact nth_append less_Suc_eq)
  qed
  then show "fee_version s = length fees" "fee_percentage cfg s 0 = DefaultFeePercentage cfg"
    "k < length fees \<Longrightarrow> fee_percentage cfg s (Suc k) = fees ! k"
    by (simp_all add: fee_percentage_def)
qed

text \<open>The update after version 65535 is stored as version 0 and replaces the default fee.\<close>

lemma fee_version_wraps:
  assumes "update_fee_percentage cfg o' fee s = Inr s'" and "fee_version s = 2 ^ 16 - 1"
  shows "fee_version s' = 0" and "fee_percentage cfg s' 0 = fee"
  using assms by (auto simp: update_fee_percentage_Inr wrapping_add_def fee_percentage_def)

end
