(* ===== verification/Rewards_Treasury.thy ===== *)
theory Rewards_Treasury
  imports Dispatch
begin

text \<open>
  The pallet \<open>pallets/rewards-treasury\<close>: at the end of an epoch what the treasury held at the end of
  the epoch before is burnt. The balances are those of \<open>pallet_balances\<close>, a parameter; \<open>tr_env\<close> is
  its storage.
\<close>

section \<open>Model\<close>

record 'env treasury_state =
  penultimate_balance :: balance
  latest_burn :: block_number
  burnt_from_treasury :: "balance list"
  tr_env :: 'env

record 'env treasury_config =
  Epoch :: block_number
  burn_from_treasury :: "balance \<Rightarrow> 'env \<Rightarrow> unit dispatch_error + balance \<times> 'env"
  reducible_treasury :: "'env \<Rightarrow> balance"

text \<open>An error of the burn is logged; \<open>try_mutate\<close> then keeps the storage.\<close>

definition treasury_on_initialize ::
  "'env treasury_config \<Rightarrow> block_number \<Rightarrow> 'env treasury_state \<Rightarrow> 'env treasury_state" where
  "treasury_on_initialize cfg current_block s =
     (if wrapping_add 32 (latest_burn s) (Epoch cfg) \<le> current_block then
        (case burn_from_treasury cfg (penultimate_balance s) (tr_env s) of
           Inl _ \<Rightarrow> s
         | Inr (actual, env) \<Rightarrow>
             s\<lparr>tr_env := env, latest_burn := current_block, penultimate_balance := reducible_treasury cfg env,
               burnt_from_treasury := burnt_from_treasury s @ [actual]\<rparr>)
      else s)"

text \<open>Blocks: in each, the balances change (\<open>g\<close>) before the hook of the next block runs.\<close>

fun treasury_blocks ::
  "'env treasury_config \<Rightarrow> (block_number \<times> ('env \<Rightarrow> 'env)) list \<Rightarrow> 'env treasury_state \<Rightarrow> 'env treasury_state" where
  "treasury_blocks cfg [] s = s"
| "treasury_blocks cfg ((n, g) # bs) s =
     treasury_blocks cfg bs (treasury_on_initialize cfg n (s\<lparr>tr_env := g (tr_env s)\<rparr>))"

section \<open>Lemmas\<close>

text \<open>With \<open>Precision::BestEffort\<close> at most the requested amount is burnt.\<close>

definition burn_laws :: "'env treasury_config \<Rightarrow> bool" where
  "burn_laws cfg \<longleftrightarrow>
     (\<forall>amt env actual env'. burn_from_treasury cfg amt env = Inr (actual, env') \<longrightarrow> actual \<le> amt)"

lemma burn_lawsD:
  "burn_laws cfg \<Longrightarrow> burn_from_treasury cfg amt env = Inr (actual, env') \<Longrightarrow> actual \<le> amt"
  by (auto simp: burn_laws_def)

lemma treasury_before_epoch:
  assumes "latest_burn s + Epoch cfg < 2 ^ 32" and "n < latest_burn s + Epoch cfg"
  shows "treasury_on_initialize cfg n s = s"
  using assms by (simp add: treasury_on_initialize_def wrapping_add_exact)

text \<open>Until the epoch has passed nothing is burnt, whatever happens to the balances.\<close>

lemma treasury_blocks_before_epoch:
  assumes "latest_burn s + Epoch cfg < 2 ^ 32" and "\<forall>(n, g) \<in> set bs. n < latest_burn s + Epoch cfg"
  shows "treasury_blocks cfg bs s = s\<lparr>tr_env := fold snd bs (tr_env s)\<rparr>"
  using assms
proof (induction bs arbitrary: s)
  case (Cons b bs)
  obtain n g where b: "b = (n, g)" by fastforce
  let ?s = "s\<lparr>tr_env := g (tr_env s)\<rparr>"
  have "treasury_on_initialize cfg n ?s = ?s"
    using Cons.prems b by (intro treasury_before_epoch) auto
  with Cons.IH [of ?s] Cons.prems b show ?case by simp
qed simp

text \<open>
  What is burnt at the end of an epoch was in the treasury at the end of the epoch before: funds
  stay for at least one epoch.
\<close>

lemma treasury_burns_old_funds:
  assumes "burn_laws cfg"
    and "treasury_on_initialize cfg n s = s1" and "burnt_from_treasury s1 \<noteq> burnt_from_treasury s"
    and "n + Epoch cfg < 2 ^ 32"
    and "\<forall>(m, g) \<in> set bs. m < n + Epoch cfg"
    and "s2 = treasury_on_initialize cfg m (treasury_blocks cfg bs s1)"
  shows "burnt_from_treasury s2 = burnt_from_treasury s1 \<or>
    (\<exists>actual \<le> reducible_treasury cfg (tr_env s1). burnt_from_treasury s2 = burnt_from_treasury s1 @ [actual] \<and>
       n + Epoch cfg \<le> m \<and> latest_burn s2 = m)"
proof -
  have s1: "latest_burn s1 = n" "penultimate_balance s1 = reducible_treasury cfg (tr_env s1)"
    using assms(2,3) by (auto simp: treasury_on_initialize_def split: if_splits sum.splits)
  have "treasury_blocks cfg bs s1 = s1\<lparr>tr_env := fold snd bs (tr_env s1)\<rparr>"
    using assms(4,5) by (intro treasury_blocks_before_epoch) (auto simp: s1)
  with assms(4,6) burn_lawsD [OF assms(1)] show ?thesis
    by (auto simp: treasury_on_initialize_def s1 wrapping_add_exact split: sum.splits)
qed

text \<open>
  Within an epoch of the end of the block numbers the sum wraps around, and every block burns.
\<close>

lemma treasury_wraps:
  assumes "2 ^ 32 \<le> latest_burn s + Epoch cfg" and "latest_burn s < 2 ^ 32" and "latest_burn s \<le> n"
    and "Epoch cfg < 2 ^ 32" and "burn_from_treasury cfg (penultimate_balance s) (tr_env s) = Inr (actual, env)"
  shows "burnt_from_treasury (treasury_on_initialize cfg n s) = burnt_from_treasury s @ [actual]"
proof -
  have "wrapping_add 32 (latest_burn s) (Epoch cfg) = latest_burn s + Epoch cfg - 2 ^ 32"
    using assms(1,2,4) by (simp add: wrapping_add_def le_mod_geq mod_less)
  then have "wrapping_add 32 (latest_burn s) (Epoch cfg) \<le> n" using assms(3,4) by simp
  with assms(5) show ?thesis by (simp add: treasury_on_initialize_def)
qed

end
