(* ===== verification/Assets_Manager.thy ===== *)
theory Assets_Manager
  imports Dispatch
begin

text \<open>
  The pallets \<open>pallets/assets-manager\<close>, which indexes the assets of other chains by internal
  identifiers and forwards calls to \<open>pallet_assets\<close>, and \<open>pallets/fulfillment-receiver\<close>, which
  forwards fulfillments to the runtime.

  The identifiers of XCM (\<open>'x\<close>) and the calls of \<open>pallet_assets\<close>, which act on its own storage
  \<open>am_env\<close>, are parameters. A panic of the genesis is \<^const>\<open>None\<close>.
\<close>

section \<open>Types of the assets manager\<close>

datatype assets_error = AssetAlreadyIndexed | IdAlreadyUsed | CreationNotAllowed | AssetNotIndexed | InvalidAssetIndex

type_synonym 'a assets_result = "assets_error dispatch_error + 'a"

record ('x, 'env) assets_state =
  asset_index :: "nat \<rightharpoonup> 'x"
  reverse_asset_index :: "'x \<rightharpoonup> nat"
  am_env :: 'env

record ('x, 'p, 'env) assets_config =
  manager_origin :: "origin \<Rightarrow> unit assets_result"
  id_into :: "'p \<Rightarrow> nat"
  into_id_parameter :: "nat \<Rightarrow> 'p"
  concrete_location :: "u32 \<Rightarrow> u8 \<Rightarrow> u128 \<Rightarrow> 'x"
  assets_create :: "origin \<Rightarrow> 'p \<Rightarrow> account_id \<Rightarrow> balance \<Rightarrow> 'env \<Rightarrow> 'env assets_result"
  assets_force_create :: "origin \<Rightarrow> 'p \<Rightarrow> account_id \<Rightarrow> bool \<Rightarrow> balance \<Rightarrow> 'env \<Rightarrow> 'env assets_result"
  assets_set_metadata :: "origin \<Rightarrow> 'p \<Rightarrow> bytes \<Rightarrow> bytes \<Rightarrow> u8 \<Rightarrow> 'env \<Rightarrow> 'env assets_result"
  assets_transfer :: "origin \<Rightarrow> 'p \<Rightarrow> account_id \<Rightarrow> balance \<Rightarrow> 'env \<Rightarrow> 'env assets_result"
  assets_force_transfer :: "origin \<Rightarrow> 'p \<Rightarrow> account_id \<Rightarrow> account_id \<Rightarrow> balance \<Rightarrow> 'env \<Rightarrow> 'env assets_result"

section \<open>Genesis\<close>

definition genesis_asset ::
  "('x, 'p, 'env) assets_config \<Rightarrow> nat \<times> u32 \<times> u8 \<times> u128 \<Rightarrow> ('x, 'env) assets_state \<Rightarrow> ('x, 'env) assets_state option" where
  "genesis_asset cfg asset s =
     (case asset of (internal_asset_id, parachain, pallet_instance, general_index) \<Rightarrow>
        let asset_id = concrete_location cfg parachain pallet_instance general_index in
        if asset_index s internal_asset_id \<noteq> None then None
        else
          let s1 = s\<lparr>asset_index := (asset_index s)(internal_asset_id \<mapsto> asset_id)\<rparr> in
          if reverse_asset_index s1 asset_id \<noteq> None then None
          else Some (s1\<lparr>reverse_asset_index := (reverse_asset_index s1)(asset_id \<mapsto> internal_asset_id)\<rparr>))"

fun assets_build ::
  "('x, 'p, 'env) assets_config \<Rightarrow> (nat \<times> u32 \<times> u8 \<times> u128) list \<Rightarrow> ('x, 'env) assets_state \<Rightarrow> ('x, 'env) assets_state option" where
  "assets_build cfg [] s = Some s"
| "assets_build cfg (a # as) s = Option.bind (genesis_asset cfg a s) (assets_build cfg as)"

definition assets_genesis ::
  "('x, 'p, 'env) assets_config \<Rightarrow> (nat \<times> u32 \<times> u8 \<times> u128) list \<Rightarrow> 'env \<Rightarrow> ('x, 'env) assets_state option" where
  "assets_genesis cfg assets env =
     assets_build cfg assets \<lparr>asset_index = Map.empty, reverse_asset_index = Map.empty, am_env = env\<rparr>"

section \<open>Extrinsics\<close>

definition update_index ::
  "('x, 'p, 'env) assets_config \<Rightarrow> 'p \<Rightarrow> 'x \<Rightarrow> ('x, 'env) assets_state \<Rightarrow> (bool \<times> ('x, 'env) assets_state) assets_result" where
  "update_index cfg idp asset s =
     (let i = id_into cfg idp in
      case asset_index s i of
        Some val \<Rightarrow> bind_r (ensure (val = asset) (Module IdAlreadyUsed)) (\<lambda>_. Inr (False, s))
      | None \<Rightarrow>
          let s1 = s\<lparr>asset_index := (asset_index s)(i \<mapsto> asset)\<rparr> in
          (case reverse_asset_index s1 asset of
             Some val \<Rightarrow> bind_r (ensure (val = i) (Module AssetAlreadyIndexed)) (\<lambda>_. Inr (False, s1))
           | None \<Rightarrow> Inr (True, s1\<lparr>reverse_asset_index := (reverse_asset_index s1)(asset \<mapsto> i)\<rparr>)))"

definition create_asset ::
  "('x, 'p, 'env) assets_config \<Rightarrow> origin \<Rightarrow> 'p \<Rightarrow> 'x \<Rightarrow> account_id \<Rightarrow> balance \<Rightarrow> ('x, 'env) assets_state \<Rightarrow>
   ('x, 'env) assets_state assets_result" where
  "create_asset cfg o' idp asset admin min_balance s =
     bind_r (manager_origin cfg o') (\<lambda>_.
     bind_r (update_index cfg idp asset s) (\<lambda>(new, s1).
     if new then bind_r (assets_create cfg o' idp admin min_balance (am_env s1)) (\<lambda>env. Inr (s1\<lparr>am_env := env\<rparr>))
     else Inr s1))"

definition force_create_asset ::
  "('x, 'p, 'env) assets_config \<Rightarrow> origin \<Rightarrow> 'p \<Rightarrow> 'x \<Rightarrow> account_id \<Rightarrow> bool \<Rightarrow> balance \<Rightarrow> ('x, 'env) assets_state \<Rightarrow>
   ('x, 'env) assets_state assets_result" where
  "force_create_asset cfg o' idp asset owner is_sufficient min_balance s =
     bind_r (manager_origin cfg o') (\<lambda>_.
     bind_r (update_index cfg idp asset s) (\<lambda>(new, s1).
     if new then
       bind_r (assets_force_create cfg Root idp owner is_sufficient min_balance (am_env s1)) (\<lambda>env.
       Inr (s1\<lparr>am_env := env\<rparr>))
     else Inr s1))"

definition indexed_id ::
  "('x, 'p, 'env) assets_config \<Rightarrow> 'x \<Rightarrow> ('x, 'env) assets_state \<Rightarrow> 'p assets_result" where
  "indexed_id cfg asset s =
     bind_r (ok_or (reverse_asset_index s asset) (Module AssetNotIndexed)) (\<lambda>i. Inr (into_id_parameter cfg i))"

definition set_asset_metadata ::
  "('x, 'p, 'env) assets_config \<Rightarrow> origin \<Rightarrow> 'x \<Rightarrow> bytes \<Rightarrow> bytes \<Rightarrow> u8 \<Rightarrow> ('x, 'env) assets_state \<Rightarrow>
   ('x, 'env) assets_state assets_result" where
  "set_asset_metadata cfg o' asset name symbol decimals s =
     bind_r (indexed_id cfg asset s) (\<lambda>i.
     bind_r (assets_set_metadata cfg o' i name symbol decimals (am_env s)) (\<lambda>env. Inr (s\<lparr>am_env := env\<rparr>)))"

definition transfer_asset ::
  "('x, 'p, 'env) assets_config \<Rightarrow> origin \<Rightarrow> 'x \<Rightarrow> account_id \<Rightarrow> balance \<Rightarrow> ('x, 'env) assets_state \<Rightarrow>
   ('x, 'env) assets_state assets_result" where
  "transfer_asset cfg o' asset target amount s =
     bind_r (indexed_id cfg asset s) (\<lambda>i.
     bind_r (assets_transfer cfg o' i target amount (am_env s)) (\<lambda>env. Inr (s\<lparr>am_env := env\<rparr>)))"

definition force_transfer_asset ::
  "('x, 'p, 'env) assets_config \<Rightarrow> origin \<Rightarrow> 'x \<Rightarrow> account_id \<Rightarrow> account_id \<Rightarrow> balance \<Rightarrow> ('x, 'env) assets_state \<Rightarrow>
   ('x, 'env) assets_state assets_result" where
  "force_transfer_asset cfg o' asset source dest amount s =
     bind_r (indexed_id cfg asset s) (\<lambda>i.
     bind_r (assets_force_transfer cfg o' i source dest amount (am_env s)) (\<lambda>env. Inr (s\<lparr>am_env := env\<rparr>)))"

datatype ('x, 'p) assets_call =
    CreateAsset origin 'p 'x account_id balance
  | ForceCreateAsset origin 'p 'x account_id bool balance
  | SetAssetMetadata origin 'x bytes bytes u8
  | TransferAsset origin 'x account_id balance
  | ForceTransferAsset origin 'x account_id account_id balance

fun dispatch_assets ::
  "('x, 'p, 'env) assets_config \<Rightarrow> ('x, 'p) assets_call \<Rightarrow> ('x, 'env) assets_state \<Rightarrow> ('x, 'env) assets_state assets_result" where
  "dispatch_assets cfg (CreateAsset o' i x a m) s = create_asset cfg o' i x a m s"
| "dispatch_assets cfg (ForceCreateAsset o' i x a b m) s = force_create_asset cfg o' i x a b m s"
| "dispatch_assets cfg (SetAssetMetadata o' x n y d) s = set_asset_metadata cfg o' x n y d s"
| "dispatch_assets cfg (TransferAsset o' x t a) s = transfer_asset cfg o' x t a s"
| "dispatch_assets cfg (ForceTransferAsset o' x f t a) s = force_transfer_asset cfg o' x f t a s"

text \<open>A failed call leaves the storage as it was.\<close>

fun assets_run ::
  "('x, 'p, 'env) assets_config \<Rightarrow> ('x, 'p) assets_call list \<Rightarrow> ('x, 'env) assets_state \<Rightarrow> ('x, 'env) assets_state" where
  "assets_run cfg [] s = s"
| "assets_run cfg (c # cs) s = assets_run cfg cs (case dispatch_assets cfg c s of Inl _ \<Rightarrow> s | Inr s' \<Rightarrow> s')"

section \<open>Fulfillment receiver\<close>

record fulfillment =
  fulfillment_script :: bytes
  fulfillment_payload :: bytes

record 'env receiver_state =
  fulfill_received :: "(account_id \<times> fulfillment) list"
  receiver_env :: 'env

definition fulfill ::
  "(account_id \<Rightarrow> fulfillment \<Rightarrow> 'env \<Rightarrow> unit dispatch_error + 'env) \<Rightarrow> origin \<Rightarrow> fulfillment \<Rightarrow>
   'env receiver_state \<Rightarrow> unit dispatch_error + 'env receiver_state" where
  "fulfill on_fulfillment o' f s =
     bind_r (ensure_signed o') (\<lambda>who.
     bind_r (on_fulfillment who f (receiver_env s)) (\<lambda>env.
     Inr (s\<lparr>receiver_env := env, fulfill_received := fulfill_received s @ [(who, f)]\<rparr>)))"

section \<open>The index is a bijection\<close>

definition index_bijective :: "('x, 'env) assets_state \<Rightarrow> bool" where
  "index_bijective s \<longleftrightarrow> (\<forall>i x. asset_index s i = Some x \<longleftrightarrow> reverse_asset_index s x = Some i)"

lemma genesis_asset_bijective:
  "index_bijective s \<Longrightarrow> genesis_asset cfg a s = Some s' \<Longrightarrow> index_bijective s'"
  by (cases a) (auto simp: genesis_asset_def index_bijective_def Let_def split: if_splits)

lemma assets_build_bijective:
  "index_bijective s \<Longrightarrow> assets_build cfg as s = Some s' \<Longrightarrow> index_bijective s'"
  by (induction as arbitrary: s) (auto simp: bind_eq_Some_conv intro: genesis_asset_bijective)

lemma index_bijectiveD:
  "index_bijective s \<Longrightarrow> reverse_asset_index s x = Some i \<Longrightarrow> asset_index s i = Some x"
  by (simp add: index_bijective_def)

text \<open>With a bijection, the last \<open>Ok(false)\<close> of \<open>update_index\<close> is never reached.\<close>

lemma update_index_Inr:
  assumes "index_bijective s" and "update_index cfg p x s = Inr (new, s')"
  obtains "\<not> new" "asset_index s (id_into cfg p) = Some x" "s' = s"
  | "new" "asset_index s (id_into cfg p) = None" "reverse_asset_index s x = None"
      "s' = s\<lparr>asset_index := (asset_index s)(id_into cfg p \<mapsto> x),
              reverse_asset_index := (reverse_asset_index s)(x \<mapsto> id_into cfg p)\<rparr>"
  using assms(2) index_bijectiveD [OF assms(1), of x "id_into cfg p"]
  by (auto simp: update_index_def Let_def result_simps split: option.splits)

lemma add_index_bijective:
  assumes "index_bijective s" and "asset_index s i = None" and "reverse_asset_index s x = None"
  shows "index_bijective (s\<lparr>asset_index := (asset_index s)(i \<mapsto> x), reverse_asset_index := (reverse_asset_index s)(x \<mapsto> i)\<rparr>)"
  using assms by (simp add: index_bijective_def) (metis option.discI)

lemma update_index_keeps:
  assumes "index_bijective s" and "update_index cfg p x s = Inr (new, s')"
  shows "index_bijective s' \<and> asset_index s \<subseteq>\<^sub>m asset_index s'"
  using update_index_Inr [OF assms]
proof cases
  case 2
  then show ?thesis using add_index_bijective [OF assms(1)] by (auto simp: map_le_def)
qed (simp add: assms(1))

text \<open>Creating an asset is idempotent, and \<open>pallet_assets\<close> is called for new identifiers only.\<close>

lemma force_create_idempotent:
  assumes "index_bijective s" and "force_create_asset cfg o' p x owner suff m s = Inr s1"
  shows "force_create_asset cfg o' p x owner' suff' m' s1 = Inr s1"
proof -
  from assms(2) obtain new t where o: "manager_origin cfg o' = Inr ()" and u: "update_index cfg p x s = Inr (new, t)"
    and i: "asset_index s1 = asset_index t"
    by (auto simp: force_create_asset_def result_simps split: if_splits)
  from update_index_Inr [OF assms(1) u] have "asset_index t (id_into cfg p) = Some x" by cases auto
  with o i show ?thesis by (simp add: force_create_asset_def update_index_def Let_def)
qed

lemma dispatch_assets_index:
  assumes "dispatch_assets cfg c s = Inr s'"
  obtains t env where "s' = t\<lparr>am_env := env\<rparr>" "t = s \<or> (\<exists>p x new. update_index cfg p x s = Inr (new, t))"
proof (cases c)
  case (CreateAsset o' i x a m)
  with assms that show thesis by (auto simp: create_asset_def result_simps split: if_splits) (metis assets_state.surjective assets_state.update_convs(3))+
next
  case (ForceCreateAsset o' i x a b m)
  with assms that show thesis by (auto simp: force_create_asset_def result_simps split: if_splits) (metis assets_state.surjective assets_state.update_convs(3))+
next
  case (SetAssetMetadata o' x n y d)
  with assms that show thesis by (auto simp: set_asset_metadata_def result_simps)
next
  case (TransferAsset o' x t a)
  with assms that show thesis by (auto simp: transfer_asset_def result_simps)
next
  case (ForceTransferAsset o' x f t a)
  with assms that show thesis by (auto simp: force_transfer_asset_def result_simps)
qed

lemma dispatch_assets_keeps:
  assumes "index_bijective s" and "dispatch_assets cfg c s = Inr s'"
  shows "index_bijective s' \<and> asset_index s \<subseteq>\<^sub>m asset_index s'"
  using dispatch_assets_index [OF assms(2)]
proof cases
  case (1 t env)
  have "index_bijective t \<and> asset_index s \<subseteq>\<^sub>m asset_index t"
    using 1(2) update_index_keeps [OF assms(1), of cfg] assms(1) by (metis map_le_refl)
  with 1(1) show ?thesis by (simp add: index_bijective_def)
qed

lemma assets_run_keeps:
  assumes "index_bijective s"
  shows "index_bijective (assets_run cfg cs s) \<and> asset_index s \<subseteq>\<^sub>m asset_index (assets_run cfg cs s)"
  using assms
proof (induction cs arbitrary: s)
  case (Cons c cs)
  let ?s = "case dispatch_assets cfg c s of Inl _ \<Rightarrow> s | Inr s' \<Rightarrow> s'"
  have "index_bijective ?s \<and> asset_index s \<subseteq>\<^sub>m asset_index ?s"
    using dispatch_assets_keeps [OF Cons.prems, of cfg c] Cons.prems by (auto split: sum.splits)
  with Cons.IH [of ?s] show ?case by (auto intro: map_le_trans)
qed simp

text \<open>
  C40: from any genesis and through any calls the identifiers and the assets of other
  chains are indexed one to one, and an asset that is indexed keeps its identifier.
\<close>

theorem assets_indexed_one_to_one:
  assumes "assets_genesis cfg assets env = Some s0"
  shows "(asset_index (assets_run cfg cs s0) i = Some x \<longleftrightarrow> reverse_asset_index (assets_run cfg cs s0) x = Some i) \<and>
    (asset_index (assets_run cfg cs s0) i = Some x \<longrightarrow> asset_index (assets_run cfg (cs @ ds) s0) i = Some x)"
proof -
  have run: "assets_run cfg (cs @ ds) s = assets_run cfg ds (assets_run cfg cs s)" for s
    by (induction cs arbitrary: s) simp_all
  have "index_bijective \<lparr>asset_index = Map.empty, reverse_asset_index = Map.empty, am_env = env\<rparr>"
    by (simp add: index_bijective_def)
  then have "index_bijective s0"
    using assms unfolding assets_genesis_def by (rule assets_build_bijective)
  then have ok: "index_bijective (assets_run cfg cs s0)"
    using assets_run_keeps by blast
  then have "asset_index (assets_run cfg cs s0) \<subseteq>\<^sub>m asset_index (assets_run cfg (cs @ ds) s0)"
    using assets_run_keeps unfolding run by blast
  then have "asset_index (assets_run cfg cs s0) i = Some x \<longrightarrow> asset_index (assets_run cfg (cs @ ds) s0) i = Some x"
    by (metis domI map_le_def)
  with ok show ?thesis by (simp add: index_bijective_def)
qed


section \<open>Examples\<close>

definition demo_assets :: "(nat \<times> nat \<times> nat, nat, nat list) assets_config" where
  "demo_assets = \<lparr>manager_origin = ensure_root, id_into = id, into_id_parameter = id,
     concrete_location = (\<lambda>p i g. (p, i, g)),
     assets_create = (\<lambda>_ i _ _ env. Inr (i # env)), assets_force_create = (\<lambda>_ i _ _ _ env. Inr (i # env)),
     assets_set_metadata = (\<lambda>_ _ _ _ _. Inr), assets_transfer = (\<lambda>_ _ _ _. Inr),
     assets_force_transfer = (\<lambda>_ _ _ _ _. Inr)\<rparr>"

definition demo_assets_start :: "(nat \<times> nat \<times> nat, nat list) assets_state" where
  "demo_assets_start = \<lparr>asset_index = [1 \<mapsto> (1000, 50, 22)], reverse_asset_index = [(1000, 50, 22) \<mapsto> 1], am_env = []\<rparr>"

text \<open>The second call would give the indexed asset another identifier: it fails and its insertion is undone.\<close>

theorem assets_indexed_one_to_one_witness:
  "assets_genesis demo_assets [(1, 1000, 50, 22)] [] = Some demo_assets_start \<and>
   (let s = assets_run demo_assets
        [ForceCreateAsset Root 2 (1000, 50, 7) 9 True 1, ForceCreateAsset Root 3 (1000, 50, 7) 9 True 1] demo_assets_start
    in reverse_asset_index s (1000, 50, 22) = Some 1 \<and> reverse_asset_index s (1000, 50, 7) = Some 2 \<and>
       asset_index s 3 = None \<and> am_env s = [2])"
proof -
  let ?cs = "[ForceCreateAsset Root 2 (1000, 50, 7) 9 True 1, ForceCreateAsset Root 3 (1000, 50, 7) 9 True 1]"
  have g: "assets_genesis demo_assets [(1, 1000, 50, 22)] [] = Some demo_assets_start"
    by (simp add: assets_genesis_def genesis_asset_def demo_assets_def demo_assets_start_def Let_def)
  have "asset_index (assets_run demo_assets ?cs demo_assets_start) 1 = Some (1000, 50, 22)"
    using assets_indexed_one_to_one [OF g, of "[]" 1 "(1000, 50, 22)" ?cs]
    by (simp add: demo_assets_start_def)
  then have "reverse_asset_index (assets_run demo_assets ?cs demo_assets_start) (1000, 50, 22) = Some 1"
    using assets_indexed_one_to_one [OF g, of ?cs 1 "(1000, 50, 22)" "[]"] by blast
  with g show ?thesis
    by (simp add: demo_assets_def demo_assets_start_def force_create_asset_def update_index_def Let_def)
qed

end
