(* ===== verification/Spec2Isabelle.thy ===== *)
theory Spec2Isabelle
  imports Market_Runtime Outgoing_Runs Certificate_Chain Processor_Manager Hyperdrive_Tezos Hyperdrive_Ethereum Vesting
    Staking_Runtime Collator_Selection Fee_Manager Rewards_Treasury Assets_Manager
begin

text \<open>
  A verification library for the Acurast core pallets.

  \<^bold>\<open>The system.\<close> Acurast is a marketplace for computation on mobile devices, built as Substrate
  pallets under \<open>src/pallets\<close>. Consumers register jobs (pallet acurast); the marketplace matches
  each job to processors that advertised capacity, the processors acknowledge the match and report
  executions, and are paid from a budget locked at registration. Processors prove their hardware
  with key attestations (pallet acurast) and are paired with the manager accounts that own them
  (processor-manager). Jobs also arrive from other chains: hyperdrive accepts the state roots of a
  target chain by a quorum of transmitters, verifies proofs against them and executes the messages.
  Holders lock stake for rewards in vesting.

  \<^bold>\<open>Theories.\<close>
  \<^item> \<open>Rust_Prelude\<close>, \<open>Dispatch\<close>: \<open>Result\<close> and its combinators, machine integers with their
    width written out, origins, and the error enums of the pallets that call each other.
  \<^item> \<open>Schedule_Model\<close>: \<open>Schedule\<close>, \<open>ScheduleIter\<close> and scripts
    (\<open>acurast/common/src/types.rs\<close>). The iterator is a fuelled loop: \<open>execution_count + 1\<close> turns are
    enough, and that it then yields every start time is proved. The constant-time \<open>overlaps\<close> is
    compared with the reference definition over the executions.
  \<^item> \<open>Attestation_Types\<close>, \<open>Acurast\<close>: the stored attestations, and pallet acurast
    (\<open>acurast/src/lib.rs\<close>, \<open>utils.rs\<close>, \<open>traits.rs\<close>): registration, allowed sources,
    environments, attestation and revocation. The \<open>JobHooks\<close> are the locale \<open>job_hooks\<close>.
  \<^item> \<open>Payments\<close>, \<open>Reputation\<close>: the reward manager over the locale \<open>job_budget\<close>
    (\<open>marketplace/src/payments.rs\<close>), interpreted on the pallet's own budget map, and the beta
    reputation (\<open>marketplace/reputation\<close>).
  \<^item> \<open>Market_Types\<close>, \<open>Matching\<close>, \<open>Marketplace\<close>: the data, the matching with its checks,
    and the extrinsics and job hooks of \<open>marketplace/src\<close>.
  \<^item> \<open>Job_Lifecycle\<close>: the abstract specification, a state machine of one job (register, match,
    acknowledge, report, finalize, deregister) with its invariant. \<open>Market_Refinement\<close> and
    \<open>Market_Moves\<close> show by simulation that every operation of the pallets makes only such moves
    (locale \<open>market_env\<close>, which gives the \<open>job_hooks\<close> contract as a sublocale);
    \<open>Market_Runtime\<close> composes both pallets into sequences of calls and states the results.
  \<^item> \<open>Processor_Manager\<close>: pairing, pairing proofs with their counters, and the calls reserved to
    managers (\<open>processor-manager/src\<close>); the maps are accessed through the locale \<open>pairing_store\<close>.
  \<^item> \<open>Hyperdrive\<close>: transmitters, state roots, message sequence and actions
    (\<open>hyperdrive/src/lib.rs\<close>, \<open>types.rs\<close>), with Merkle trees. \<open>Hyperdrive_Tezos\<close> and
    \<open>Hyperdrive_Ethereum\<close>: proofs and parsers of the two chains (\<open>chain/tezos.rs\<close>,
    \<open>chain/ethereum.rs\<close>, \<open>chain/util/evm.rs\<close>).
  \<^item> \<open>Vesting\<close>: the vesting pallet (\<open>vesting/src\<close>).

  \<^bold>\<open>How code becomes definitions.\<close> A storage is a record; a dispatchable maps it to
  \<open>error + storage\<close>. An error rolls the storage back, so the new storage is part of the success
  only. Every \<open>ensure\<close>, \<open>?\<close> and early return is a branch. Plain arithmetic wraps around, as in the
  release profile; checked and saturating arithmetic is what it is called. Storage maps that the code
  iterates over are association lists in their second key. A panic, where one can happen, is
  \<^const>\<open>None\<close>. What lies outside the repository (currency, signatures, hashes, RLP, Micheline,
  fixed-point numbers, the clock, other pallets behind a trait) is a field of a configuration record;
  what a theorem assumes of it is a named predicate over that record.

  \<^bold>\<open>What is shown.\<close>
  \<^item> Marketplace: refinement of the life cycle; after any calls every job is well-formed and the
    pallet's account covers all budgets, so a legitimate report is always paid; soundness of matching;
    the effect of every extrinsic; equivalence of the schedule check with the reference definition where
    they agree, and the cases where they do not.
  \<^item> Acurast: verified sources, revocations, allowed sources, fresh identifiers.
  \<^item> Processor manager: pairing proofs cannot be replayed, the two pairing maps agree, reserved calls
    are authorized.
  \<^item> Hyperdrive: one root per snapshot, messages in sequence and once, a quorum is enough (liveness),
    Merkle proofs bind, payloads round-trip, Merkle-Patricia proofs are anchored in the root; defects of
    the Ethereum validation and the Tezos parser.
  \<^item> Vesting: solvency of runs without \<open>revest\<close>, its failure with \<open>revest\<close>, and the windows of
    leaving.

  \<^bold>\<open>Not modelled.\<close> Certificate parsing and ASN.1 (external libraries), the vendored and generated
  elliptic-curve code, weights, benchmarks, migrations, RPC and the MMR gadget of the node, the
  forwarding pallets assets-manager and fulfillment-receiver, and the ink contracts.

  \<^bold>\<open>Plan.\<close> Next: the conversions of attestations into bounded types, the outgoing side of hyperdrive
  with its Merkle mountain range, fee-manager and rewards-treasury, then the bonds, delegations and
  rounds of parachain-staking, and collator-selection.
\<close>

end
